(* ===== verification/Prelude.thy ===== *)
theory Prelude
  imports Main "HOL-Library.AList" "HOL-Library.FSet" "HOL-Library.Char_ord"
    "HOL-Library.List_Lexorder" "HOL-Library.Product_Lexorder"
begin

text \<open>
  Shared ground of the development: the exceptions the modelled code raises, the
  exception-carrying result type, decimal rendering of integers, Python dictionaries as
  association lists (insertion order kept, \<open>AList.update\<close> overwrites in place and appends a
  new key at the end, exactly as a dict does), and the generic list lemmas the components use.
\<close>

section \<open>Exceptions and results\<close>

text \<open>
  One constructor per exception class the modelled code raises or catches. \<open>IllTyped\<close> is not a
  Python exception: it marks a document whose value does not have the type the dataclass
  declares for the field, which the typed records below cannot hold.
\<close>

datatype exc =
    CASMismatchError
  | AlreadyConsumedError
  | InvalidTransitionError
  | ValueError string
  | KeyError string
  | TypeError
  | WhenClauseError string
  | AnalysisStateRejectedError string string
  | BlueprintParseError string
  | TemplateBindError string
  | OtherError string
  | IllTyped string

type_synonym 'a result = "exc + 'a"

text \<open>Sequencing: the first exception ends the computation.\<close>

definition rbind :: "'a result \<Rightarrow> ('a \<Rightarrow> 'b result) \<Rightarrow> 'b result" where
  "rbind r f = (case r of Inl e \<Rightarrow> Inl e | Inr a \<Rightarrow> f a)"

lemma rbind_Inl [simp]: "rbind (Inl e) f = Inl e"
  by (simp add: rbind_def)

lemma rbind_Inr [simp]: "rbind (Inr a) f = f a"
  by (simp add: rbind_def)

lemma rbind_eq_Inr: "rbind r f = Inr b \<longleftrightarrow> (\<exists>a. r = Inr a \<and> f a = Inr b)"
  by (cases r) auto

fun mapM_r :: "('a \<Rightarrow> 'b result) \<Rightarrow> 'a list \<Rightarrow> 'b list result" where
  "mapM_r f [] = Inr []"
| "mapM_r f (x # xs) = rbind (f x) (\<lambda>y. rbind (mapM_r f xs) (\<lambda>ys. Inr (y # ys)))"

lemma mapM_r_map [simp]:
  "(\<And>x. x \<in> set xs \<Longrightarrow> f (g x) = Inr (h x)) \<Longrightarrow> mapM_r f (map g xs) = Inr (map h xs)"
  by (induction xs) auto

lemma mapM_r_length: "mapM_r f xs = Inr ys \<Longrightarrow> length ys = length xs"
  by (induction xs arbitrary: ys) (auto simp: rbind_eq_Inr)

named_theorems py_simps "unfolding rules of the modelled operations"

section \<open>Decimal rendering\<close>

definition digit_char :: "nat \<Rightarrow> char" where
  "digit_char d = char_of (48 + d)"

fun show_nat :: "nat \<Rightarrow> string" where
  "show_nat n = (if n < 10 then [digit_char n] else show_nat (n div 10) @ [digit_char (n mod 10)])"

declare show_nat.simps [simp del]

definition show_int :: "int \<Rightarrow> string" where
  "show_int i = (if i < 0 then CHR ''-'' # show_nat (nat (- i)) else show_nat (nat i))"

definition is_digit :: "char \<Rightarrow> bool" where
  "is_digit c \<longleftrightarrow> 48 \<le> (of_char c :: nat) \<and> (of_char c :: nat) \<le> 57"

definition read_nat :: "string \<Rightarrow> nat" where
  "read_nat s = foldl (\<lambda>n c. 10 * n + (of_char c - 48)) 0 s"

lemma of_char_digit: "d < 10 \<Longrightarrow> (of_char (digit_char d) :: nat) = 48 + d"
  by (simp add: digit_char_def)

lemma digit_char_is_digit: "d < 10 \<Longrightarrow> is_digit (digit_char d)"
  by (simp add: is_digit_def of_char_digit)

lemma show_nat_not_empty [simp]: "show_nat n \<noteq> []"
  by (subst show_nat.simps) simp

lemma read_show_nat [simp]: "read_nat (show_nat n) = n"
proof (induction n rule: show_nat.induct)
  case (1 n)
  show ?case
  proof (cases "n < 10")
    case True
    then show ?thesis by (subst show_nat.simps) (simp add: read_nat_def of_char_digit)
  next
    case False
    with "1.IH" have "foldl (\<lambda>n c. 10 * n + (of_char c - 48)) 0 (show_nat (n div 10)) = n div 10"
      by (simp add: read_nat_def)
    moreover have "10 * (n div 10) + (of_char (digit_char (n mod 10)) - 48) = n"
      by (simp add: of_char_digit)
    ultimately show ?thesis
      using False by (subst show_nat.simps) (simp add: read_nat_def)
  qed
qed

lemma show_nat_inject [simp]: "show_nat m = show_nat n \<longleftrightarrow> m = n"
  by (metis read_show_nat)

lemma show_nat_digits: "c \<in> set (show_nat n) \<Longrightarrow> is_digit c"
proof (induction n rule: show_nat.induct)
  case (1 n)
  show ?case
  proof (cases "n < 10")
    case True
    with 1 show ?thesis
      by (subst (asm) (2) show_nat.simps) (auto simp: digit_char_is_digit)
  next
    case False
    from 1(2) False have "c \<in> set (show_nat (n div 10)) \<or> c = digit_char (n mod 10)"
      by (subst (asm) show_nat.simps) auto
    with 1(1) False show ?thesis by (auto simp: digit_char_is_digit)
  qed
qed

lemma minus_not_digit: "\<not> is_digit (CHR ''-'')"
  by (simp add: is_digit_def)

lemma show_int_inject [simp]: "show_int i = show_int j \<longleftrightarrow> i = j"
proof
  assume eq: "show_int i = show_int j"
  have no_minus: "show_nat n \<noteq> CHR ''-'' # s" for n s
  proof
    assume "show_nat n = CHR ''-'' # s"
    then have "CHR ''-'' \<in> set (show_nat n)" by simp
    then show False using show_nat_digits minus_not_digit by blast
  qed
  show "i = j"
    using eq no_minus by (auto simp: show_int_def no_minus[symmetric] split: if_splits)
qed simp

text \<open>
  Keys built as \<open>a:b:c\<close> from rendered integers are unambiguous: a separator that is no digit
  splits the string in one way only.
\<close>

lemma sep_unique:
  assumes "x @ c # u = y @ c # v" and "c \<notin> set x" and "c \<notin> set y"
  shows "x = y \<and> u = v"
  using assms
proof (induction x arbitrary: y)
  case Nil
  then show ?case by (cases y) auto
next
  case (Cons a x)
  then show ?case by (cases y) auto
qed

lemma show_int_no_colon: "CHR '':'' \<notin> set (show_int i)"
proof -
  have "\<not> is_digit (CHR '':'')" by (simp add: is_digit_def)
  then have "CHR '':'' \<notin> set (show_nat n)" for n
    using show_nat_digits by blast
  then show ?thesis by (auto simp: show_int_def)
qed

section \<open>Dictionaries\<close>

type_synonym ('k, 'v) dict = "('k \<times> 'v) list"

abbreviation dget :: "('k, 'v) dict \<Rightarrow> 'k \<Rightarrow> 'v option" where
  "dget d k \<equiv> map_of d k"

abbreviation dset :: "'k \<Rightarrow> 'v \<Rightarrow> ('k, 'v) dict \<Rightarrow> ('k, 'v) dict" where
  "dset \<equiv> AList.update"

abbreviation dpop :: "'k \<Rightarrow> ('k, 'v) dict \<Rightarrow> ('k, 'v) dict" where
  "dpop \<equiv> AList.delete"

definition dget_or :: "('k, 'v) dict \<Rightarrow> 'k \<Rightarrow> 'v \<Rightarrow> 'v" where
  "dget_or d k v = (case map_of d k of None \<Rightarrow> v | Some w \<Rightarrow> w)"

definition dkeys :: "('k, 'v) dict \<Rightarrow> 'k list" where
  "dkeys d = map fst d"

definition dict_wf :: "('k, 'v) dict \<Rightarrow> bool" where
  "dict_wf d \<longleftrightarrow> distinct (map fst d)"

lemma dget_dset [simp]: "map_of (AList.update k v d) k' = (if k' = k then Some v else map_of d k')"
  by (simp add: AList.update_conv')

lemma dget_dpop [simp]: "map_of (AList.delete k d) k' = (if k' = k then None else map_of d k')"
  by (simp add: AList.delete_conv')

lemma dict_wf_Nil [simp]: "dict_wf []"
  by (simp add: dict_wf_def)

lemma dict_wf_dset [simp]: "dict_wf d \<Longrightarrow> dict_wf (AList.update k v d)"
  by (simp add: dict_wf_def AList.distinct_update)

lemma dict_wf_dpop [simp]: "dict_wf d \<Longrightarrow> dict_wf (AList.delete k d)"
  by (simp add: dict_wf_def AList.distinct_delete)

lemma dget_mem: "dict_wf d \<Longrightarrow> (k, v) \<in> set d \<longleftrightarrow> map_of d k = Some v"
  by (auto simp: dict_wf_def dest: map_of_SomeD)

lemma dset_fresh: "map_of d k = None \<Longrightarrow> AList.update k v d = d @ [(k, v)]"
  by (induction d) (auto split: if_splits)

lemma dget_or_dset [simp]:
  "dget_or (AList.update k v d) k' w = (if k' = k then v else dget_or d k' w)"
  by (simp add: dget_or_def)

section \<open>Lists\<close>

text \<open>Append unless already there: the first-occurrence order the accumulators keep.\<close>

definition add_new :: "'a list \<Rightarrow> 'a \<Rightarrow> 'a list" where
  "add_new xs x = (if x \<in> set xs then xs else xs @ [x])"

lemma set_add_new [simp]: "set (add_new xs x) = insert x (set xs)"
  by (auto simp: add_new_def)

lemma distinct_add_new [simp]: "distinct xs \<Longrightarrow> distinct (add_new xs x)"
  by (simp add: add_new_def)

lemma distinct_foldl_add_new: "distinct xs \<Longrightarrow> distinct (foldl add_new xs ys)"
  by (induction ys arbitrary: xs) auto

lemma set_foldl_add_new [simp]: "set (foldl add_new xs ys) = set xs \<union> set ys"
  by (induction ys arbitrary: xs) auto

lemma foldl_add_new_prefix: "\<exists>zs. foldl add_new xs ys = xs @ zs"
proof (induction ys arbitrary: xs)
  case Nil
  then show ?case by simp
next
  case (Cons y ys)
  obtain zs where "foldl add_new (add_new xs y) ys = add_new xs y @ zs"
    using Cons.IH by blast
  moreover have "\<exists>us. add_new xs y = xs @ us"
    by (cases "y \<in> set xs") (auto simp: add_new_def)
  ultimately show ?case by auto
qed

end
