(* ===== verification/PyVal.thy ===== *)
theory PyVal
  imports Prelude "HOL-Library.Multiset"
begin

text \<open>
  The JSON-compatible values the modelled code reads, writes and hashes, and the part of
  \<^verbatim>\<open>json.dumps\<close> it uses: the default spaced form (request sizes, read signatures) and the
  canonical form of \<^verbatim>\<open>data_agent/canonical.py\<close>. A float is named by its \<^verbatim>\<open>repr\<close> text, which
  identifies it and is what the encoder prints; strings are lists of code points below 256.
\<close>

datatype pyval =
    PNone
  | PBool bool
  | PInt int
  | PFloat string
  | PStr string
  | PList "pyval list"
  | PDict "(string \<times> pyval) list"

type_synonym pydict = "(string \<times> pyval) list"

section \<open>Truth value and conversions\<close>

fun py_truthy :: "pyval \<Rightarrow> bool" where
  "py_truthy PNone = False"
| "py_truthy (PBool b) = b"
| "py_truthy (PInt i) = (i \<noteq> 0)"
| "py_truthy (PFloat r) = (r \<notin> {''0.0'', ''-0.0''})"
| "py_truthy (PStr s) = (s \<noteq> [])"
| "py_truthy (PList xs) = (xs \<noteq> [])"
| "py_truthy (PDict kvs) = (kvs \<noteq> [])"

fun py_int :: "pyval \<Rightarrow> int result" where
  "py_int (PInt i) = Inr i"
| "py_int (PBool b) = Inr (if b then 1 else 0)"
| "py_int (PFloat r) = Inl (IllTyped ''int of a float'')"
| "py_int (PStr s) = Inl (IllTyped ''int of a text'')"
| "py_int _ = Inl TypeError"

fun py_list :: "pyval \<Rightarrow> pyval list result" where
  "py_list (PList xs) = Inr xs"
| "py_list (PStr s) = Inr (map (\<lambda>c. PStr [c]) s)"
| "py_list (PDict kvs) = Inr (map (PStr \<circ> fst) kvs)"
| "py_list _ = Inl TypeError"

fun py_dict :: "pyval \<Rightarrow> pydict result" where
  "py_dict (PDict kvs) = Inr kvs"
| "py_dict (PList []) = Inr []"
| "py_dict (PStr []) = Inr []"
| "py_dict (PList _) = Inl (IllTyped ''dict of a sequence'')"
| "py_dict (PStr _) = Inl (IllTyped ''dict of a text'')"
| "py_dict _ = Inl TypeError"

fun as_str :: "pyval \<Rightarrow> string result" where
  "as_str (PStr s) = Inr s"
| "as_str _ = Inl (IllTyped ''a text field'')"

fun as_int :: "pyval \<Rightarrow> int result" where
  "as_int (PInt i) = Inr i"
| "as_int _ = Inl (IllTyped ''an int field'')"

fun as_opt_str :: "pyval \<Rightarrow> string option result" where
  "as_opt_str PNone = Inr None"
| "as_opt_str (PStr s) = Inr (Some s)"
| "as_opt_str _ = Inl (IllTyped ''an optional text field'')"

text \<open>\<^verbatim>\<open>d[k]\<close> raises on a missing key; \<^verbatim>\<open>d.get(k)\<close> answers \<open>None\<close>.\<close>

definition need :: "pydict \<Rightarrow> string \<Rightarrow> pyval result" where
  "need d k = (case map_of d k of None \<Rightarrow> Inl (KeyError k) | Some v \<Rightarrow> Inr v)"

definition getv :: "pydict \<Rightarrow> string \<Rightarrow> pyval" where
  "getv d k = (case map_of d k of None \<Rightarrow> PNone | Some v \<Rightarrow> v)"

fun opt_str :: "string option \<Rightarrow> pyval" where
  "opt_str None = PNone"
| "opt_str (Some s) = PStr s"

lemma as_opt_str_opt_str [simp]: "as_opt_str (opt_str s) = Inr s"
  by (cases s) auto

section \<open>JSON text\<close>

definition hex_digit :: "nat \<Rightarrow> char" where
  "hex_digit d = (if d < 10 then char_of (48 + d) else char_of (87 + d))"

definition json_u :: "char \<Rightarrow> string" where
  "json_u c = [CHR 0x5C, CHR 0x75, CHR 0x30, CHR 0x30] @ [hex_digit (of_char c div 16), hex_digit (of_char c mod 16)]"

text \<open>
  The encoder's escapes: the two-character ones, \<^verbatim>\<open>\u00XX\<close> for the other control
  characters, and, with \<^verbatim>\<open>ensure_ascii\<close>, for every code point from DEL (127) on.
\<close>

definition json_escape :: "bool \<Rightarrow> char \<Rightarrow> string" where
  "json_escape ascii c =
     (let n = (of_char c :: nat) in
      if n = 34 then [CHR 0x5C, c]
      else if n = 92 then [c, c]
      else if n = 10 then CHR 0x5C # ''n''
      else if n = 13 then CHR 0x5C # ''r''
      else if n = 9 then CHR 0x5C # ''t''
      else if n = 12 then CHR 0x5C # ''f''
      else if n = 8 then CHR 0x5C # ''b''
      else if n < 32 then json_u c
      else if ascii \<and> 126 < n then json_u c
      else [c])"

text \<open>Characters of the messages above the 8-bit range, as their UTF-8 bytes.\<close>

definition em_dash :: string where
  "em_dash = [CHR 0xE2, CHR 0x80, CHR 0x94]"

definition ellipsis :: string where
  "ellipsis = [CHR 0xE2, CHR 0x80, CHR 0xA6]"

definition arrow :: string where
  "arrow = [CHR 0xE2, CHR 0x86, CHR 0x92]"

definition json_str :: "bool \<Rightarrow> string \<Rightarrow> string" where
  "json_str ascii s = [CHR 0x22] @ concat (map (json_escape ascii) s) @ [CHR 0x22]"

fun join :: "string \<Rightarrow> string list \<Rightarrow> string" where
  "join sep [] = []"
| "join sep [x] = x"
| "join sep (x # y # xs) = x @ sep @ join sep (y # xs)"

definition json_float :: "string \<Rightarrow> string" where
  "json_float r = (if r = ''nan'' then ''NaN'' else if r = ''inf'' then ''Infinity''
     else if r = ''-inf'' then ''-Infinity'' else r)"

record json_opts =
  item_sep :: string
  key_sep :: string
  ensure_ascii :: bool

primrec json_text :: "json_opts \<Rightarrow> pyval \<Rightarrow> string" where
  "json_text o' PNone = ''null''"
| "json_text o' (PBool b) = (if b then ''true'' else ''false'')"
| "json_text o' (PInt i) = show_int i"
| "json_text o' (PFloat r) = json_float r"
| "json_text o' (PStr s) = json_str (ensure_ascii o') s"
| "json_text o' (PList xs) = ''['' @ join (item_sep o') (map (json_text o') xs) @ '']''"
| "json_text o' (PDict kvs) =
     ''{'' @ join (item_sep o')
        (map (\<lambda>(k, t). json_str (ensure_ascii o') k @ key_sep o' @ t)
             (map (map_prod id (json_text o')) kvs)) @ ''}''"

text \<open>\<^verbatim>\<open>sort_keys=True\<close>: every dictionary's items in the order of their keys.\<close>

primrec sort_dicts :: "pyval \<Rightarrow> pyval" where
  "sort_dicts PNone = PNone"
| "sort_dicts (PBool b) = PBool b"
| "sort_dicts (PInt i) = PInt i"
| "sort_dicts (PFloat r) = PFloat r"
| "sort_dicts (PStr s) = PStr s"
| "sort_dicts (PList xs) = PList (map sort_dicts xs)"
| "sort_dicts (PDict kvs) = PDict (sort_key fst (map (map_prod id sort_dicts) kvs))"

definition default_opts :: json_opts where
  "default_opts = \<lparr>item_sep = '', '', key_sep = '': '', ensure_ascii = True\<rparr>"

definition json_dumps :: "pyval \<Rightarrow> string" where
  "json_dumps v = json_text default_opts v"

definition json_dumps_sorted :: "pyval \<Rightarrow> string" where
  "json_dumps_sorted v = json_text default_opts (sort_dicts v)"

definition canonical_json :: "pyval \<Rightarrow> string" where
  "canonical_json v =
     json_text \<lparr>item_sep = '','', key_sep = '':'', ensure_ascii = False\<rparr> (sort_dicts v)"

lemma sort_dicts_perm:
  assumes "mset d = mset d'" and "distinct (map fst d)"
  shows "sort_dicts (PDict d) = sort_dicts (PDict d')"
proof -
  let ?f = "map_prod id sort_dicts :: string \<times> pyval \<Rightarrow> string \<times> pyval"
  have fsts: "map fst (map ?f d) = map fst d" for d :: pydict by simp
  have m: "mset (map ?f d) = mset (map ?f d')" using assms(1) by simp
  have inj: "inj_on fst (set (map ?f d))"
    using assms(2) fsts[of d] by (metis distinct_map)
  have "sort_key fst (map ?f d) = sort_key fst (map ?f d')"
    using m inj by (intro sort_key_inj_key_eq) simp_all
  then show ?thesis by simp
qed

end
