(* ===== verification/SessionModels.thy ===== *)
theory SessionModels
  imports PyVal
begin

text \<open>
  The session document of \<^verbatim>\<open>runtime/session/models.py\<close>: its dataclasses as records, each with
  the \<^verbatim>\<open>to_doc\<close> and \<^verbatim>\<open>from_doc\<close> that move it through a JSON-compatible dictionary, the closed
  enumerations of the analysis state, the key of a finalization allowance, and the predicate
  that makes a finished turn's analysis state inert. A frozenset of (table, column) pairs is an
  \<open>fset\<close>; \<open>None\<close> provenance (undetermined) stays apart from the empty set (determined empty).
\<close>

type_synonym prov = "(string \<times> string) fset"

section \<open>Provenance on the wire\<close>

definition provenance_to_doc :: "prov option \<Rightarrow> pyval" where
  "provenance_to_doc p = (case p of None \<Rightarrow> PNone
     | Some s \<Rightarrow> PList (map (\<lambda>(t, c). PList [PStr t, PStr c]) (sorted_list_of_fset s)))"

text \<open>\<^verbatim>\<open>(pair[0], pair[1])\<close>: a longer pair is accepted, a text is indexed by characters.\<close>

fun strict_pair :: "pyval \<Rightarrow> (string \<times> string) result" where
  "strict_pair (PList (PStr a # PStr b # _)) = Inr (a, b)"
| "strict_pair (PList (_ # _ # _)) = Inl (IllTyped ''provenance pair'')"
| "strict_pair (PList _) = Inl (OtherError ''IndexError'')"
| "strict_pair (PStr (a # b # _)) = Inr ([a], [b])"
| "strict_pair (PStr _) = Inl (OtherError ''IndexError'')"
| "strict_pair (PDict _) = Inl (KeyError ''0'')"
| "strict_pair _ = Inl TypeError"

definition provenance_from_doc :: "pyval \<Rightarrow> prov option result" where
  "provenance_from_doc v = (if v = PNone then Inr None
     else rbind (py_list v) (\<lambda>xs. rbind (mapM_r strict_pair xs) (\<lambda>ps. Inr (Some (fset_of_list ps)))))"

fun hashable :: "pyval \<Rightarrow> bool" where
  "hashable (PList _) = False"
| "hashable (PDict _) = False"
| "hashable _ = True"

fun two_list :: "pyval \<Rightarrow> (pyval \<times> pyval) option" where
  "two_list (PList [a, b]) = Some (a, b)"
| "two_list _ = None"

fun hash_pair :: "pyval \<times> pyval \<Rightarrow> (string \<times> string) result" where
  "hash_pair (PStr a, PStr b) = Inr (a, b)"
| "hash_pair (a, b) = (if hashable a \<and> hashable b then Inl (IllTyped ''provenance pair'') else Inl TypeError)"

text \<open>
  A malformed table position degrades to \<open>None\<close>: no list, or a member that is not a two-element
  list. The set itself is still built, and building it hashes the members.
\<close>

definition answer_table_provenance_item :: "pyval \<Rightarrow> prov option result" where
  "answer_table_provenance_item v = (case v of
     PList xs \<Rightarrow>
       (if list_all (\<lambda>x. two_list x \<noteq> None) xs
        then rbind (mapM_r (\<lambda>x. hash_pair (the (two_list x))) xs) (\<lambda>ps. Inr (Some (fset_of_list ps)))
        else Inr None)
   | _ \<Rightarrow> Inr None)"

definition answer_table_provenance_from_doc :: "pyval \<Rightarrow> prov option list option result" where
  "answer_table_provenance_from_doc v = (case v of
     PList xs \<Rightarrow> rbind (mapM_r answer_table_provenance_item xs) (\<lambda>ys. Inr (Some ys))
   | _ \<Rightarrow> Inr None)"

lemma fset_of_sorted_list [simp]: "fset_of_list (sorted_list_of_fset s) = s"
  by (rule fset_eqI) (simp add: fset_of_list_elem sorted_list_of_fset.rep_eq)

lemma provenance_roundtrip [simp]: "provenance_from_doc (provenance_to_doc p) = Inr p"
proof (cases p)
  case None
  then show ?thesis by (simp add: provenance_to_doc_def provenance_from_doc_def)
next
  case (Some s)
  have "mapM_r strict_pair (map (\<lambda>(t, c). PList [PStr t, PStr c]) xs) = Inr (map id xs)" for xs
    by (rule mapM_r_map) (auto split: prod.splits)
  with Some show ?thesis by (simp add: provenance_to_doc_def provenance_from_doc_def)
qed

lemma answer_table_item_roundtrip [simp]:
  "answer_table_provenance_item (provenance_to_doc p) = Inr p"
proof (cases p)
  case None
  then show ?thesis by (simp add: provenance_to_doc_def answer_table_provenance_item_def)
next
  case (Some s)
  have "mapM_r (\<lambda>x. hash_pair (the (two_list x))) (map (\<lambda>(t, c). PList [PStr t, PStr c]) xs)
      = Inr (map id xs)" for xs
    by (rule mapM_r_map) (auto split: prod.splits)
  with Some show ?thesis
    by (auto simp: provenance_to_doc_def answer_table_provenance_item_def list_all_iff
        split: prod.splits)
qed

section \<open>Result preview, turn message\<close>

record result_preview =
  rp_columns :: "pyval list"
  rp_row_count :: int
  rp_truncated :: bool
  rp_preview_rows :: "pyval list list"

definition result_preview_to_doc :: "result_preview \<Rightarrow> pyval" where
  "result_preview_to_doc r = PDict
     [(''columns'', PList (rp_columns r)),
      (''row_count'', PInt (rp_row_count r)),
      (''truncated'', PBool (rp_truncated r)),
      (''preview_rows'', PList (map PList (rp_preview_rows r)))]"

definition result_preview_from_doc :: "pydict \<Rightarrow> result_preview result" where
  "result_preview_from_doc d =
     rbind (rbind (need d ''columns'') py_list) (\<lambda>cols.
     rbind (rbind (need d ''row_count'') py_int) (\<lambda>n.
     rbind (need d ''truncated'') (\<lambda>t.
     rbind (rbind (need d ''preview_rows'') py_list) (\<lambda>rows.
     rbind (mapM_r py_list rows) (\<lambda>rs.
     Inr \<lparr>rp_columns = cols, rp_row_count = n, rp_truncated = py_truthy t, rp_preview_rows = rs\<rparr>)))))"

record turn_message =
  tm_turn_index :: int
  tm_role :: string
  tm_content :: string
  tm_ts :: string
  tm_provenance :: "prov option"

definition turn_message_to_doc :: "turn_message \<Rightarrow> pyval" where
  "turn_message_to_doc m = PDict
     [(''turn_index'', PInt (tm_turn_index m)),
      (''role'', PStr (tm_role m)),
      (''content'', PStr (tm_content m)),
      (''ts'', PStr (tm_ts m)),
      (''provenance'', provenance_to_doc (tm_provenance m))]"

definition turn_message_from_doc :: "pydict \<Rightarrow> turn_message result" where
  "turn_message_from_doc d =
     rbind (rbind (need d ''turn_index'') py_int) (\<lambda>ti.
     rbind (rbind (need d ''role'') as_str) (\<lambda>r.
     rbind (rbind (need d ''content'') as_str) (\<lambda>c.
     rbind (rbind (need d ''ts'') as_str) (\<lambda>ts.
     rbind (provenance_from_doc (getv d ''provenance'')) (\<lambda>p.
     Inr \<lparr>tm_turn_index = ti, tm_role = r, tm_content = c, tm_ts = ts, tm_provenance = p\<rparr>)))))"

lemmas doc_access = need_def getv_def

lemma result_preview_roundtrip [simp]:
  "rbind (py_dict (result_preview_to_doc r)) result_preview_from_doc = Inr r"
proof -
  have "mapM_r py_list (map PList xs) = Inr (map id xs)" for xs
    by (rule mapM_r_map) simp
  then show ?thesis
    by (simp add: result_preview_to_doc_def result_preview_from_doc_def doc_access)
qed

lemma turn_message_roundtrip [simp]:
  "rbind (py_dict (turn_message_to_doc m)) turn_message_from_doc = Inr m"
  by (simp add: turn_message_to_doc_def turn_message_from_doc_def doc_access)

section \<open>Trail entry\<close>

record trail_entry =
  te_turn_index :: int
  te_tool_call_id :: string
  te_tool_name :: string
  te_args :: pydict
  te_status :: string
  te_error_code :: "string option"
  te_provenance :: "prov option"
  te_result_preview :: "result_preview option"
  te_result_full_ref :: "string option"
  te_ts :: string
  te_authoritative :: bool
  te_denial_detail :: "string option"
  te_serves_intent :: "string option"
  te_answer_table_provenance :: "prov option list option"
  te_window_note :: "string option"

definition trail_entry_to_doc :: "trail_entry \<Rightarrow> pyval" where
  "trail_entry_to_doc e = PDict
     [(''turn_index'', PInt (te_turn_index e)),
      (''tool_call_id'', PStr (te_tool_call_id e)),
      (''tool_name'', PStr (te_tool_name e)),
      (''args'', PDict (te_args e)),
      (''status'', PStr (te_status e)),
      (''error_code'', opt_str (te_error_code e)),
      (''provenance'', provenance_to_doc (te_provenance e)),
      (''result_preview'', (case te_result_preview e of None \<Rightarrow> PNone
                            | Some r \<Rightarrow> result_preview_to_doc r)),
      (''result_full_ref'', opt_str (te_result_full_ref e)),
      (''ts'', PStr (te_ts e)),
      (''authoritative'', PBool (te_authoritative e)),
      (''denial_detail'', opt_str (te_denial_detail e)),
      (''serves_intent'', opt_str (te_serves_intent e)),
      (''answer_table_provenance'', (case te_answer_table_provenance e of None \<Rightarrow> PNone
                                     | Some ps \<Rightarrow> PList (map provenance_to_doc ps))),
      (''window_note'', opt_str (te_window_note e))]"

fun str_or_none :: "pyval \<Rightarrow> string option" where
  "str_or_none (PStr s) = Some s"
| "str_or_none _ = None"

definition trail_entry_from_doc :: "pydict \<Rightarrow> trail_entry result" where
  "trail_entry_from_doc d =
     rbind (rbind (need d ''turn_index'') py_int) (\<lambda>ti.
     rbind (rbind (need d ''tool_call_id'') as_str) (\<lambda>tc.
     rbind (rbind (need d ''tool_name'') as_str) (\<lambda>tn.
     rbind (rbind (need d ''args'') py_dict) (\<lambda>args.
     rbind (rbind (need d ''status'') as_str) (\<lambda>st.
     rbind (as_opt_str (getv d ''error_code'')) (\<lambda>ec.
     rbind (provenance_from_doc (getv d ''provenance'')) (\<lambda>p.
     rbind (if py_truthy (getv d ''result_preview'')
            then rbind (rbind (py_dict (getv d ''result_preview'')) result_preview_from_doc)
                       (\<lambda>r. Inr (Some r))
            else Inr None) (\<lambda>rp.
     rbind (as_opt_str (getv d ''result_full_ref'')) (\<lambda>rf.
     rbind (rbind (need d ''ts'') as_str) (\<lambda>ts.
     rbind (as_opt_str (getv d ''denial_detail'')) (\<lambda>dd.
     rbind (as_opt_str (getv d ''serves_intent'')) (\<lambda>si.
     rbind (answer_table_provenance_from_doc (getv d ''answer_table_provenance'')) (\<lambda>ap.
     Inr \<lparr>te_turn_index = ti, te_tool_call_id = tc, te_tool_name = tn, te_args = args,
          te_status = st, te_error_code = ec, te_provenance = p, te_result_preview = rp,
          te_result_full_ref = rf, te_ts = ts,
          te_authoritative = py_truthy (getv d ''authoritative''),
          te_denial_detail = dd, te_serves_intent = si,
          te_answer_table_provenance = ap,
          te_window_note = str_or_none (getv d ''window_note'')\<rparr>)))))))))))))"

lemma str_or_none_opt_str [simp]: "str_or_none (opt_str s) = s"
  by (cases s) auto

lemma answer_tables_roundtrip [simp]:
  "answer_table_provenance_from_doc
     (case t of None \<Rightarrow> PNone | Some ps \<Rightarrow> PList (map provenance_to_doc ps)) = Inr t"
proof -
  have "mapM_r answer_table_provenance_item (map provenance_to_doc ps) = Inr (map id ps)" for ps
    by (rule mapM_r_map) simp
  then show ?thesis by (cases t) (simp_all add: answer_table_provenance_from_doc_def)
qed

lemma result_preview_truthy [simp]: "py_truthy (result_preview_to_doc r)"
  by (simp add: result_preview_to_doc_def)

lemma trail_entry_roundtrip [simp]:
  "rbind (py_dict (trail_entry_to_doc e)) trail_entry_from_doc = Inr e"
  by (cases "te_result_preview e")
    (simp_all add: trail_entry_to_doc_def trail_entry_from_doc_def doc_access)

section \<open>Analysis state\<close>

definition INTENT_STATUSES :: "string list" where
  "INTENT_STATUSES = [''pending'', ''completed'', ''blocked'']"

definition MODEL_REASON_CODES :: "string list" where
  "MODEL_REASON_CODES = [''NO_ACCESS'', ''REQUIRED_DATA_UNAVAILABLE'']"

definition RUNTIME_REASON_CODES :: "string list" where
  "RUNTIME_REASON_CODES = [''BUDGET_EXHAUSTED'', ''USER_STOPPED'', ''ENFORCEMENT_EXHAUSTED'']"

definition MAX_FINALIZATION_BLOCKS_PER_WINDOW :: int where
  "MAX_FINALIZATION_BLOCKS_PER_WINDOW = 1"

definition FINALIZATION_BLOCK_KINDS :: "string list" where
  "FINALIZATION_BLOCK_KINDS = [''intents'', ''answer_shape'', ''empty_answer'',
     ''ungrounded_answer'', ''answer_judge'', ''ask_user_judge'']"

definition finalization_block_key :: "int \<Rightarrow> int \<Rightarrow> string \<Rightarrow> string result" where
  "finalization_block_key turn_index window_count kind =
     (if kind \<notin> set FINALIZATION_BLOCK_KINDS
      then Inl (ValueError (''unknown finalization block kind '' @ kind))
      else Inr (show_int turn_index @ '':'' @ show_int window_count @ '':'' @ kind))"

record tracked_intent =
  ti_intent_id :: string
  ti_description :: string
  ti_status :: string
  ti_evidence :: "string option"
  ti_reason_code :: "string option"

definition tracked_intent_to_doc :: "tracked_intent \<Rightarrow> pyval" where
  "tracked_intent_to_doc i = PDict
     [(''intent_id'', PStr (ti_intent_id i)),
      (''description'', PStr (ti_description i)),
      (''status'', PStr (ti_status i)),
      (''evidence_tool_call_id'', opt_str (ti_evidence i)),
      (''reason_code'', opt_str (ti_reason_code i))]"

definition tracked_intent_from_doc :: "pydict \<Rightarrow> tracked_intent result" where
  "tracked_intent_from_doc d =
     rbind (rbind (need d ''intent_id'') as_str) (\<lambda>i.
     rbind (rbind (need d ''description'') as_str) (\<lambda>ds.
     rbind (rbind (need d ''status'') as_str) (\<lambda>st.
     rbind (as_opt_str (getv d ''evidence_tool_call_id'')) (\<lambda>ev.
     rbind (as_opt_str (getv d ''reason_code'')) (\<lambda>rc.
     Inr \<lparr>ti_intent_id = i, ti_description = ds, ti_status = st,
          ti_evidence = ev, ti_reason_code = rc\<rparr>)))))"

record analysis_state =
  as_turn_index :: int
  as_intents :: "tracked_intent list"

definition analysis_state_to_doc :: "analysis_state \<Rightarrow> pyval" where
  "analysis_state_to_doc a = PDict
     [(''turn_index'', PInt (as_turn_index a)),
      (''intents'', PList (map tracked_intent_to_doc (as_intents a)))]"

definition doc_list :: "pydict \<Rightarrow> string \<Rightarrow> (pydict \<Rightarrow> 'a result) \<Rightarrow> 'a list result" where
  "doc_list d k f = (case map_of d k of None \<Rightarrow> Inr []
     | Some v \<Rightarrow> rbind (py_list v) (mapM_r (\<lambda>x. rbind (py_dict x) f)))"

definition analysis_state_from_doc :: "pydict \<Rightarrow> analysis_state result" where
  "analysis_state_from_doc d =
     rbind (rbind (need d ''turn_index'') py_int) (\<lambda>ti.
     rbind (doc_list d ''intents'' tracked_intent_from_doc) (\<lambda>is.
     Inr \<lparr>as_turn_index = ti, as_intents = is\<rparr>))"

lemma tracked_intent_roundtrip [simp]:
  "rbind (py_dict (tracked_intent_to_doc i)) tracked_intent_from_doc = Inr i"
  by (simp add: tracked_intent_to_doc_def tracked_intent_from_doc_def doc_access)

lemma doc_list_roundtrip:
  assumes "map_of d k = Some (PList (map to xs))" and "\<And>x. rbind (py_dict (to x)) f = Inr x"
  shows "doc_list d k f = Inr xs"
proof -
  have "mapM_r (\<lambda>x. rbind (py_dict x) f) (map to xs) = Inr (map id xs)"
    by (rule mapM_r_map) (simp add: assms(2))
  with assms(1) show ?thesis by (simp add: doc_list_def)
qed

lemma analysis_state_roundtrip [simp]:
  "rbind (py_dict (analysis_state_to_doc a)) analysis_state_from_doc = Inr a"
  by (simp add: analysis_state_to_doc_def analysis_state_from_doc_def doc_access
      doc_list_roundtrip[where to = tracked_intent_to_doc and xs = "as_intents a"])

section \<open>Pause checkpoint\<close>

record pause_checkpoint =
  pc_reason :: string
  pc_pending_question :: "pydict option"
  pc_awaiting :: string
  pc_consumed :: bool
  pc_budget_window_count :: int
  pc_blueprint_id :: "string option"
  pc_slot_bindings_json :: "string option"
  pc_completed_nodes_json :: "string option"
  pc_awaiting_node :: "int option"
  pc_serves_intent :: "string option"

definition pause_checkpoint_to_doc :: "pause_checkpoint \<Rightarrow> pyval" where
  "pause_checkpoint_to_doc c = PDict
     [(''reason'', PStr (pc_reason c)),
      (''pending_question'', (case pc_pending_question c of
          None \<Rightarrow> PNone | Some q \<Rightarrow> if q = [] then PNone else PDict q)),
      (''awaiting'', PStr (pc_awaiting c)),
      (''consumed'', PBool (pc_consumed c)),
      (''budget_window_count'', PInt (pc_budget_window_count c)),
      (''blueprint_id'', opt_str (pc_blueprint_id c)),
      (''slot_bindings_json'', opt_str (pc_slot_bindings_json c)),
      (''completed_nodes_json'', opt_str (pc_completed_nodes_json c)),
      (''awaiting_node'', (case pc_awaiting_node c of None \<Rightarrow> PNone | Some n \<Rightarrow> PInt n)),
      (''serves_intent'', opt_str (pc_serves_intent c))]"

definition pause_checkpoint_from_doc :: "pydict \<Rightarrow> pause_checkpoint result" where
  "pause_checkpoint_from_doc d =
     rbind (rbind (need d ''reason'') as_str) (\<lambda>rs.
     rbind (if py_truthy (getv d ''pending_question'')
            then rbind (py_dict (getv d ''pending_question'')) (\<lambda>q. Inr (Some q))
            else Inr None) (\<lambda>pq.
     rbind (rbind (need d ''awaiting'') as_str) (\<lambda>aw.
     rbind (need d ''consumed'') (\<lambda>co.
     rbind (case map_of d ''budget_window_count'' of None \<Rightarrow> Inr 0 | Some v \<Rightarrow> py_int v) (\<lambda>bw.
     rbind (as_opt_str (getv d ''blueprint_id'')) (\<lambda>bi.
     rbind (as_opt_str (getv d ''slot_bindings_json'')) (\<lambda>sb.
     rbind (as_opt_str (getv d ''completed_nodes_json'')) (\<lambda>cn.
     rbind (if getv d ''awaiting_node'' = PNone then Inr None
            else rbind (py_int (getv d ''awaiting_node'')) (\<lambda>n. Inr (Some n))) (\<lambda>an.
     rbind (as_opt_str (getv d ''serves_intent'')) (\<lambda>si.
     Inr \<lparr>pc_reason = rs, pc_pending_question = pq, pc_awaiting = aw,
          pc_consumed = py_truthy co, pc_budget_window_count = bw, pc_blueprint_id = bi,
          pc_slot_bindings_json = sb, pc_completed_nodes_json = cn, pc_awaiting_node = an,
          pc_serves_intent = si\<rparr>))))))))))"

lemma pause_checkpoint_roundtrip:
  "pc_pending_question c \<noteq> Some [] \<Longrightarrow>
     rbind (py_dict (pause_checkpoint_to_doc c)) pause_checkpoint_from_doc = Inr c"
  by (cases "pc_pending_question c"; cases "pc_awaiting_node c")
    (simp_all add: pause_checkpoint_to_doc_def pause_checkpoint_from_doc_def doc_access)

section \<open>Session document\<close>

record session_doc =
  sd_session_id :: string
  sd_created_at :: string
  sd_last_activity :: string
  sd_learning_status :: string
  sd_messages :: "turn_message list"
  sd_tool_trail :: "trail_entry list"
  sd_pause_checkpoint :: "pause_checkpoint option"
  sd_learning_content_hash :: "string option"
  sd_analysis_state :: "analysis_state option"
  sd_finalization_blocks :: "(string, int) dict option"

definition new_session_doc :: "string \<Rightarrow> string \<Rightarrow> session_doc" where
  "new_session_doc sid now =
     \<lparr>sd_session_id = sid, sd_created_at = now, sd_last_activity = now,
      sd_learning_status = ''active'', sd_messages = [], sd_tool_trail = [],
      sd_pause_checkpoint = None, sd_learning_content_hash = None,
      sd_analysis_state = None, sd_finalization_blocks = None\<rparr>"

definition opt_doc :: "('a \<Rightarrow> pyval) \<Rightarrow> 'a option \<Rightarrow> pyval" where
  "opt_doc f x = (case x of None \<Rightarrow> PNone | Some a \<Rightarrow> f a)"

definition session_doc_to_doc :: "session_doc \<Rightarrow> pyval" where
  "session_doc_to_doc s = PDict
     [(''_id'', PStr (''session::'' @ sd_session_id s)),
      (''session_id'', PStr (sd_session_id s)),
      (''created_at'', PStr (sd_created_at s)),
      (''last_activity'', PStr (sd_last_activity s)),
      (''learning_status'', PStr (sd_learning_status s)),
      (''messages'', PList (map turn_message_to_doc (sd_messages s))),
      (''tool_trail'', PList (map trail_entry_to_doc (sd_tool_trail s))),
      (''pause_checkpoint'', opt_doc pause_checkpoint_to_doc (sd_pause_checkpoint s)),
      (''learning_content_hash'', opt_str (sd_learning_content_hash s)),
      (''analysis_state'', opt_doc analysis_state_to_doc (sd_analysis_state s)),
      (''finalization_blocks'',
         opt_doc (\<lambda>b. PDict (map (map_prod id PInt) b)) (sd_finalization_blocks s))]"

definition opt_sub :: "(pydict \<Rightarrow> 'a result) \<Rightarrow> pyval \<Rightarrow> 'a option result" where
  "opt_sub f v = (if py_truthy v then rbind (rbind (py_dict v) f) (\<lambda>a. Inr (Some a)) else Inr None)"

definition block_counts :: "pydict \<Rightarrow> (string, int) dict result" where
  "block_counts kvs = mapM_r (\<lambda>(k, v). rbind (py_int v) (\<lambda>n. Inr (k, n))) kvs"

definition session_doc_from_doc :: "pydict \<Rightarrow> session_doc result" where
  "session_doc_from_doc d =
     rbind (rbind (need d ''session_id'') as_str) (\<lambda>sid.
     rbind (rbind (need d ''created_at'') as_str) (\<lambda>ca.
     rbind (rbind (need d ''last_activity'') as_str) (\<lambda>la.
     rbind (case map_of d ''learning_status'' of None \<Rightarrow> Inr ''active'' | Some v \<Rightarrow> as_str v) (\<lambda>ls.
     rbind (doc_list d ''messages'' turn_message_from_doc) (\<lambda>ms.
     rbind (doc_list d ''tool_trail'' trail_entry_from_doc) (\<lambda>tt.
     rbind (opt_sub pause_checkpoint_from_doc (getv d ''pause_checkpoint'')) (\<lambda>pc.
     rbind (as_opt_str (getv d ''learning_content_hash'')) (\<lambda>lh.
     rbind (opt_sub analysis_state_from_doc (getv d ''analysis_state'')) (\<lambda>as.
     rbind (opt_sub block_counts (getv d ''finalization_blocks'')) (\<lambda>fb.
     Inr \<lparr>sd_session_id = sid, sd_created_at = ca, sd_last_activity = la,
          sd_learning_status = ls, sd_messages = ms, sd_tool_trail = tt,
          sd_pause_checkpoint = pc, sd_learning_content_hash = lh,
          sd_analysis_state = as, sd_finalization_blocks = fb\<rparr>))))))))))"

text \<open>An analysis state governs its own turn only.\<close>

definition live_analysis_state :: "session_doc \<Rightarrow> int \<Rightarrow> analysis_state option" where
  "live_analysis_state d turn_index = (case sd_analysis_state d of
     None \<Rightarrow> None
   | Some a \<Rightarrow> if as_turn_index a \<noteq> turn_index then None else Some a)"

lemma opt_sub_roundtrip:
  assumes "\<And>a. x = Some a \<Longrightarrow> py_truthy (to a)"
    and "\<And>a. x = Some a \<Longrightarrow> rbind (py_dict (to a)) f = Inr a"
  shows "opt_sub f (opt_doc to x) = Inr x"
  using assms by (cases x) (simp_all add: opt_sub_def opt_doc_def)

lemma block_counts_roundtrip [simp]: "block_counts (map (map_prod id PInt) b) = Inr b"
proof -
  have "mapM_r (\<lambda>(k, v). rbind (py_int v) (\<lambda>n. Inr (k, n))) (map (map_prod id PInt) b) = Inr (map id b)"
    by (rule mapM_r_map) (auto simp: map_prod_def split: prod.splits)
  then show ?thesis by (simp add: block_counts_def)
qed

definition session_doc_ok :: "session_doc \<Rightarrow> bool" where
  "session_doc_ok s \<longleftrightarrow> sd_finalization_blocks s \<noteq> Some [] \<and>
     (case sd_pause_checkpoint s of None \<Rightarrow> True | Some c \<Rightarrow> pc_pending_question c \<noteq> Some [])"

lemma session_fields_roundtrip:
  assumes "session_doc_ok s"
  shows "opt_sub pause_checkpoint_from_doc (opt_doc pause_checkpoint_to_doc (sd_pause_checkpoint s))
           = Inr (sd_pause_checkpoint s)"
    and "opt_sub analysis_state_from_doc (opt_doc analysis_state_to_doc (sd_analysis_state s))
           = Inr (sd_analysis_state s)"
    and "opt_sub block_counts (opt_doc (\<lambda>b. PDict (map (map_prod id PInt) b)) (sd_finalization_blocks s))
           = Inr (sd_finalization_blocks s)"
proof -
  show "opt_sub pause_checkpoint_from_doc (opt_doc pause_checkpoint_to_doc (sd_pause_checkpoint s))
      = Inr (sd_pause_checkpoint s)"
    using assms pause_checkpoint_roundtrip
    by (intro opt_sub_roundtrip) (auto simp: session_doc_ok_def pause_checkpoint_to_doc_def)
  show "opt_sub analysis_state_from_doc (opt_doc analysis_state_to_doc (sd_analysis_state s))
      = Inr (sd_analysis_state s)"
    by (rule opt_sub_roundtrip) (simp add: analysis_state_to_doc_def, simp)
  show "opt_sub block_counts (opt_doc (\<lambda>b. PDict (map (map_prod id PInt) b)) (sd_finalization_blocks s))
      = Inr (sd_finalization_blocks s)"
    by (rule opt_sub_roundtrip) (use assms in \<open>auto simp: session_doc_ok_def\<close>)
qed

text \<open>
  C32: writing a session document and reading it back gives the same document, field by field,
  provenance sets included; the only documents excluded are those holding an empty allowance
  map or an empty pending question, which the code stores as \<open>None\<close>.
\<close>

theorem session_doc_roundtrip:
  assumes "session_doc_ok s"
  shows "rbind (py_dict (session_doc_to_doc s)) session_doc_from_doc = Inr s"
proof -
  note fields = session_fields_roundtrip[OF assms]
  show ?thesis
    unfolding session_doc_to_doc_def py_dict.simps rbind_Inr session_doc_from_doc_def
    by (simp add: doc_access fields
        doc_list_roundtrip[where to = turn_message_to_doc and xs = "sd_messages s"]
        doc_list_roundtrip[where to = trail_entry_to_doc and xs = "sd_tool_trail s"])
qed

definition sample_doc :: session_doc where
  "sample_doc = (new_session_doc ''s1'' ''2026-01-01'')\<lparr>
     sd_messages := [\<lparr>tm_turn_index = 0, tm_role = ''user'', tm_content = ''q'', tm_ts = ''t'',
                      tm_provenance = Some {|(''db.t'', ''c'')|}\<rparr>],
     sd_finalization_blocks := Some [(''0:1:intents'', 1)]\<rparr>"

theorem session_doc_roundtrip_witness:
  "session_doc_ok sample_doc \<and>
   rbind (py_dict (session_doc_to_doc sample_doc)) session_doc_from_doc = Inr sample_doc"
proof -
  have h: "session_doc_ok sample_doc"
    by (simp add: sample_doc_def new_session_doc_def session_doc_ok_def)
  show ?thesis using h session_doc_roundtrip [OF h] by simp
qed

text \<open>
  Two finalization allowances share a key only when turn, window and kind agree, so a gate
  can never spend another gate's allowance nor another turn's; an unknown kind mints no key.
\<close>

theorem finalization_block_key_injective:
  "(\<forall>k. finalization_block_key t w a = Inr k \<and> finalization_block_key t' w' b = Inr k
        \<longrightarrow> t = t' \<and> w = w' \<and> a = b) \<and>
   ((\<exists>k. finalization_block_key t w a = Inr k) \<longleftrightarrow> a \<in> set FINALIZATION_BLOCK_KINDS)"
proof -
  have "t = t' \<and> w = w' \<and> a = b"
    if "finalization_block_key t w a = Inr k" "finalization_block_key t' w' b = Inr k" for k
  proof -
    have eq: "show_int t @ CHR '':'' # (show_int w @ CHR '':'' # a)
        = show_int t' @ CHR '':'' # (show_int w' @ CHR '':'' # b)"
      using that by (auto simp: finalization_block_key_def split: if_splits)
    from sep_unique[OF this show_int_no_colon show_int_no_colon]
    have "t = t'" and "show_int w @ CHR '':'' # a = show_int w' @ CHR '':'' # b" by auto
    from this(1) sep_unique[OF this(2) show_int_no_colon show_int_no_colon]
    show ?thesis by auto
  qed
  then show ?thesis by (auto simp: finalization_block_key_def)
qed

theorem finalization_block_key_injective_witness:
  "finalization_block_key 0 11 ''intents'' \<noteq> finalization_block_key 0 1 ''intents''"
  using finalization_block_key_injective[of 0 11 "''intents''" 0 1 "''intents''"]
  by (auto simp: finalization_block_key_def FINALIZATION_BLOCK_KINDS_def)

lemma live_analysis_state_turn:
  "live_analysis_state d t = Some a \<Longrightarrow> as_turn_index a = t \<and> sd_analysis_state d = Some a"
  by (auto simp: live_analysis_state_def split: option.splits if_splits)

text \<open>
  A malformed table position is meant to cost its own table only, but a position holding an
  unhashable member raises out of the read.
\<close>

lemma answer_table_item_not_total:
  "answer_table_provenance_item (PList [PList [PList [], PStr ''c'']]) = Inl TypeError"
  by (simp add: answer_table_provenance_item_def)

end
