(* ===== verification/LearningModels.thy ===== *)
theory LearningModels
  imports SessionModels
begin

text \<open>
  \<^verbatim>\<open>learning/models.py\<close> and \<^verbatim>\<open>learning/state_machine.py\<close>: the learning statuses, the forward and
  the recovery transition tables, the idempotency hash over a session document, the reference
  envelope carried on the stream with its flat encoding, and the two guarded entry points
  through which every status change goes. The store the guards call is an interface, stated as
  the locale \<open>cas_store\<close>; the session store provides it.
\<close>

section \<open>Statuses and transition tables\<close>

abbreviation ACTIVE :: string where "ACTIVE \<equiv> ''active''"
abbreviation PENDING :: string where "PENDING \<equiv> ''pending''"
abbreviation QUEUED :: string where "QUEUED \<equiv> ''queued''"
abbreviation PROCESSING :: string where "PROCESSING \<equiv> ''processing''"
abbreviation DONE :: string where "DONE \<equiv> ''done''"
abbreviation DEAD_LETTER :: string where "DEAD_LETTER \<equiv> ''dead_letter''"

definition VALID_TRANSITIONS :: "(string, string list) dict" where
  "VALID_TRANSITIONS =
     [(ACTIVE, [PENDING]),
      (PENDING, [QUEUED, DEAD_LETTER]),
      (QUEUED, [PROCESSING, DEAD_LETTER]),
      (PROCESSING, [DONE, DEAD_LETTER]),
      (DONE, []),
      (DEAD_LETTER, [])]"

definition RECOVERY_TRANSITIONS :: "(string, string list) dict" where
  "RECOVERY_TRANSITIONS = [(PROCESSING, [PROCESSING]), (DONE, [PROCESSING])]"

definition SWEEPABLE_STATUSES :: "string list" where
  "SWEEPABLE_STATUSES = [ACTIVE, PENDING]"

lemma valid_successors:
  "t \<in> set (dget_or VALID_TRANSITIONS s []) \<longleftrightarrow>
     (s = ACTIVE \<and> t = PENDING) \<or> (s = PENDING \<and> t \<in> {QUEUED, DEAD_LETTER}) \<or>
     (s = QUEUED \<and> t \<in> {PROCESSING, DEAD_LETTER}) \<or> (s = PROCESSING \<and> t \<in> {DONE, DEAD_LETTER})"
  by (auto simp: VALID_TRANSITIONS_def dget_or_def)

lemma recovery_sources:
  "PROCESSING \<in> set (dget_or RECOVERY_TRANSITIONS s []) \<longleftrightarrow> s = PROCESSING \<or> s = DONE"
  by (auto simp: RECOVERY_TRANSITIONS_def dget_or_def)

section \<open>Idempotency hash\<close>

text \<open>
  The digest is \<^verbatim>\<open>hashlib.sha256\<close> over the UTF-8 bytes of the canonical text; here it is the
  parameter \<open>digest\<close>. The payload is an allowlist: timestamps, statuses and stored pointers do not
  enter it.
\<close>

definition hash_payload :: "session_doc \<Rightarrow> pyval" where
  "hash_payload d = PDict
     [(''session_id'', PStr (sd_session_id d)),
      (''messages'', PList (map (\<lambda>m. PList [PInt (tm_turn_index m), PStr (tm_role m), PStr (tm_content m)])
                              (sd_messages d))),
      (''tool_trail'', PList (map (\<lambda>e. PList
          [PInt (te_turn_index e), PStr (te_tool_call_id e), PStr (te_tool_name e),
           PStr (canonical_json (PDict (te_args e))), PStr (te_status e), opt_str (te_error_code e)])
        (sd_tool_trail d)))]"

definition compute_content_hash :: "(string \<Rightarrow> string) \<Rightarrow> session_doc \<Rightarrow> string" where
  "compute_content_hash digest d = digest (canonical_json (hash_payload d))"

text \<open>
  The hash moves with no lifecycle write: two documents that agree on the identifying subset
  have the same hash, whatever their status, timestamps, checkpoints and recorded hash.
\<close>

lemma content_hash_frame:
  "compute_content_hash digest
     (d\<lparr>sd_last_activity := la, sd_learning_status := ls, sd_pause_checkpoint := pc,
        sd_learning_content_hash := lh, sd_analysis_state := as, sd_finalization_blocks := fb\<rparr>)
   = compute_content_hash digest d"
  by (simp add: compute_content_hash_def hash_payload_def)

lemma content_hash_status [simp]:
  "compute_content_hash digest (d\<lparr>sd_learning_status := s\<rparr>) = compute_content_hash digest d"
  "compute_content_hash digest (d\<lparr>sd_learning_content_hash := h\<rparr>) = compute_content_hash digest d"
  by (simp_all add: compute_content_hash_def hash_payload_def)

section \<open>Learning job\<close>

record learning_job =
  lj_session_id :: string
  lj_couchbase_doc_id :: string
  lj_content_hash :: string
  lj_cas :: "string option"
  lj_user_id :: "string option"
  lj_scope_ref :: "string option"
  lj_trace_id :: "string option"
  lj_session_closed_at :: "string option"
  lj_traceparent :: "string option"

definition job_from_doc :: "session_doc \<Rightarrow> string \<Rightarrow> int option \<Rightarrow> string option \<Rightarrow> learning_job" where
  "job_from_doc d content_hash cas traceparent =
     \<lparr>lj_session_id = sd_session_id d,
      lj_couchbase_doc_id = ''session::'' @ sd_session_id d,
      lj_content_hash = content_hash,
      lj_cas = map_option show_int cas,
      lj_user_id = None, lj_scope_ref = None, lj_trace_id = None,
      lj_session_closed_at = Some (sd_last_activity d),
      lj_traceparent = traceparent\<rparr>"

text \<open>The flat wire form: an absent optional is an absent key, never an empty text.\<close>

definition job_optionals :: "learning_job \<Rightarrow> (string \<times> string option) list" where
  "job_optionals j =
     [(''cas'', lj_cas j), (''user_id'', lj_user_id j), (''scope_ref'', lj_scope_ref j),
      (''trace_id'', lj_trace_id j), (''session_closed_at'', lj_session_closed_at j),
      (''traceparent'', lj_traceparent j)]"

definition job_to_fields :: "learning_job \<Rightarrow> (string, string) dict" where
  "job_to_fields j =
     foldl (\<lambda>fields (key, value). case value of None \<Rightarrow> fields | Some v \<Rightarrow> dset key v fields)
       [(''session_id'', lj_session_id j),
        (''couchbase_doc_id'', lj_couchbase_doc_id j),
        (''content_hash'', lj_content_hash j)]
       (job_optionals j)"

definition field :: "(string, string) dict \<Rightarrow> string \<Rightarrow> string result" where
  "field fs k = (case map_of fs k of None \<Rightarrow> Inl (KeyError k) | Some v \<Rightarrow> Inr v)"

definition job_from_fields :: "(string, string) dict \<Rightarrow> learning_job result" where
  "job_from_fields fs =
     rbind (field fs ''session_id'') (\<lambda>sid.
     rbind (field fs ''couchbase_doc_id'') (\<lambda>did.
     rbind (field fs ''content_hash'') (\<lambda>h.
     Inr \<lparr>lj_session_id = sid, lj_couchbase_doc_id = did, lj_content_hash = h,
          lj_cas = dget fs ''cas'', lj_user_id = dget fs ''user_id'',
          lj_scope_ref = dget fs ''scope_ref'', lj_trace_id = dget fs ''trace_id'',
          lj_session_closed_at = dget fs ''session_closed_at'',
          lj_traceparent = dget fs ''traceparent''\<rparr>)))"

lemma fold_optionals:
  assumes "distinct (map fst os)"
  shows "map_of (foldl (\<lambda>fs (k, v). case v of None \<Rightarrow> fs | Some w \<Rightarrow> dset k w fs) fs os) k' =
     (case map_of os k' of Some (Some w) \<Rightarrow> Some w | _ \<Rightarrow> map_of fs k')"
  using assms
proof (induction os arbitrary: fs)
  case Nil
  then show ?case by simp
next
  case (Cons x os)
  obtain k v where x: "x = (k, v)" by (cases x)
  with Cons.prems have "map_of os k = None" by (auto simp: map_of_eq_None_iff)
  with x Cons.prems Cons.IH show ?case
    by (auto split: option.splits)
qed

text \<open>
  Decoding an encoded job gives the job back; in particular an absent optional stays \<open>None\<close>
  and an empty text stays an empty text.
\<close>

theorem learning_job_roundtrip: "job_from_fields (job_to_fields j) = Inr j"
proof -
  have d: "distinct (map fst (job_optionals j))" by (simp add: job_optionals_def)
  note look = fold_optionals[OF d, of "[(''session_id'', lj_session_id j),
        (''couchbase_doc_id'', lj_couchbase_doc_id j), (''content_hash'', lj_content_hash j)]"]
  show ?thesis
    unfolding job_to_fields_def job_from_fields_def field_def look
    by (cases "lj_cas j"; cases "lj_user_id j"; cases "lj_scope_ref j"; cases "lj_trace_id j";
        cases "lj_session_closed_at j"; cases "lj_traceparent j") (simp_all add: job_optionals_def)
qed

section \<open>Guarded transitions\<close>

text \<open>The store operation both guards call, given the CAS token of the caller's read.\<close>

type_synonym ('c, 'st) store_op =
  "string \<Rightarrow> string \<Rightarrow> string \<Rightarrow> 'c \<Rightarrow> string option \<Rightarrow> bool \<Rightarrow> 'st \<Rightarrow> 'c result \<times> 'st"

definition transition :: "('c, 'st) store_op \<Rightarrow> string \<Rightarrow> string \<Rightarrow> string \<Rightarrow> 'c \<Rightarrow>
    string option \<Rightarrow> bool \<Rightarrow> 'st \<Rightarrow> 'c result \<times> 'st" where
  "transition op sid expected_from to cas content_hash assert_from st =
     (if assert_from then
        (if to \<notin> set (dget_or VALID_TRANSITIONS expected_from [])
         then (Inl InvalidTransitionError, st)
         else op sid expected_from to cas content_hash assert_from st)
      else if to \<noteq> DEAD_LETTER then (Inl InvalidTransitionError, st)
      else op sid expected_from to cas content_hash assert_from st)"

definition recover_to_processing :: "('c, 'st) store_op \<Rightarrow> string \<Rightarrow> string \<Rightarrow> 'c \<Rightarrow> 'st \<Rightarrow>
    'c result \<times> 'st" where
  "recover_to_processing op sid expected_from cas st =
     (if PROCESSING \<notin> set (dget_or RECOVERY_TRANSITIONS expected_from [])
      then (Inl InvalidTransitionError, st)
      else op sid expected_from PROCESSING cas None True st)"

text \<open>What the guards rely on: a version-checked, status-asserted write of one session.\<close>

locale cas_store =
  fixes inv :: "'st \<Rightarrow> bool"
    and ver :: "'st \<Rightarrow> string \<Rightarrow> 'c option"
    and status_of :: "'st \<Rightarrow> string \<Rightarrow> string option"
    and op :: "('c, 'st) store_op"
  assumes op_wins:
    "inv st \<Longrightarrow> op sid f t c h a st = (Inr c', st') \<Longrightarrow>
       ver st sid = Some c \<and> ver st' sid = Some c' \<and> c' \<noteq> c \<and> status_of st' sid = Some t \<and>
       (a \<longrightarrow> status_of st sid = Some f)"
    and op_loses: "inv st \<Longrightarrow> op sid f t c h a st = (Inl e, st') \<Longrightarrow> e = CASMismatchError \<and> st' = st"
    and op_frame: "snd (op sid f t c h a st) = st' \<Longrightarrow> sid' \<noteq> sid \<Longrightarrow>
       ver st' sid' = ver st sid' \<and> status_of st' sid' = status_of st sid'"
    and op_inv: "inv st \<Longrightarrow> inv (snd (op sid f t c h a st))"
begin

lemma transition_ok_edge:
  assumes "inv st" and "transition op sid f t c h True st = (Inr c', st')"
  shows "status_of st sid = Some f \<and> status_of st' sid = Some t \<and>
    t \<in> set (dget_or VALID_TRANSITIONS f [])"
  using assms op_wins by (fastforce simp: transition_def split: if_splits)

lemma transition_unasserted:
  assumes "inv st" and "transition op sid f t c h False st = (Inr c', st')"
  shows "t = DEAD_LETTER \<and> status_of st' sid = Some DEAD_LETTER"
  using assms op_wins by (fastforce simp: transition_def split: if_splits)

lemma recover_ok_edge:
  assumes "inv st" and "recover_to_processing op sid f c st = (Inr c', st')"
  shows "status_of st sid = Some f \<and> f \<in> {PROCESSING, DONE} \<and> status_of st' sid = Some PROCESSING"
  using assms op_wins by (fastforce simp: recover_to_processing_def recovery_sources split: if_splits)

lemma transition_error_no_write:
  "inv st \<Longrightarrow> transition op sid f t c h a st = (Inl e, st') \<Longrightarrow>
     st' = st \<and> e \<in> {CASMismatchError, InvalidTransitionError}"
  using op_loses by (fastforce simp: transition_def split: if_splits)

lemma recover_error_no_write:
  "inv st \<Longrightarrow> recover_to_processing op sid f c st = (Inl e, st') \<Longrightarrow>
     st' = st \<and> e \<in> {CASMismatchError, InvalidTransitionError}"
  using op_loses by (fastforce simp: recover_to_processing_def split: if_splits)

lemma transition_inv: "inv st \<Longrightarrow> inv (snd (transition op sid f t c h a st))"
  using op_inv by (simp add: transition_def)

lemma recover_inv: "inv st \<Longrightarrow> inv (snd (recover_to_processing op sid f c st))"
  using op_inv by (simp add: recover_to_processing_def)

lemma transition_frame:
  "sid' \<noteq> sid \<Longrightarrow> ver (snd (transition op sid f t c h a st)) sid' = ver st sid' \<and>
     status_of (snd (transition op sid f t c h a st)) sid' = status_of st sid'"
  using op_frame by (simp add: transition_def)

lemma recover_frame:
  "sid' \<noteq> sid \<Longrightarrow> ver (snd (recover_to_processing op sid f c st)) sid' = ver st sid' \<and>
     status_of (snd (recover_to_processing op sid f c st)) sid' = status_of st sid'"
  using op_frame by (simp add: recover_to_processing_def)

lemma op_status:
  assumes "inv st" and "op sid f t c h a st = (Inr c', st')"
  shows "status_of st' = (status_of st)(sid \<mapsto> t)"
proof
  fix s
  show "status_of st' s = ((status_of st)(sid \<mapsto> t)) s"
    using op_wins[OF assms] op_frame[of sid f t c h a st st' s] assms(2) by (cases "s = sid") auto
qed

lemma transition_status:
  "inv st \<Longrightarrow> transition op sid f t c h a st = (Inr c', st') \<Longrightarrow> status_of st' = (status_of st)(sid \<mapsto> t)"
  using op_status by (auto simp: transition_def split: if_splits)

lemma recover_status:
  "inv st \<Longrightarrow> recover_to_processing op sid f c st = (Inr c', st') \<Longrightarrow>
     status_of st' = (status_of st)(sid \<mapsto> PROCESSING)"
  using op_status by (auto simp: recover_to_processing_def split: if_splits)

lemma op_stale:
  assumes "inv st" and "ver st sid \<noteq> Some c"
  shows "op sid f t c h a st = (Inl CASMismatchError, st)"
proof (cases "op sid f t c h a st")
  case (Pair r st')
  then show ?thesis using op_wins op_loses assms by (cases r) blast+
qed

text \<open>The token is spent by the write it wins: whoever else holds it loses.\<close>

lemma single_winner:
  assumes "inv st" and "op sid f t c h a st = (Inr c', st')"
  shows "op sid f2 t2 c h2 a2 st' = (Inl CASMismatchError, st')"
proof -
  have "ver st' sid = Some c'" and "c' \<noteq> c" using op_wins[OF assms] by auto
  moreover have "inv st'" using op_inv[OF assms(1), of sid f t c h a] assms(2) by simp
  ultimately show ?thesis by (simp add: op_stale)
qed

lemma transition_winner_op:
  "transition op sid f t c h a st = (Inr c', st') \<Longrightarrow> op sid f t c h a st = (Inr c', st')"
  by (auto simp: transition_def split: if_splits)

lemma recover_winner_op:
  "recover_to_processing op sid f c st = (Inr c', st') \<Longrightarrow>
     op sid f PROCESSING c None True st = (Inr c', st')"
  by (auto simp: recover_to_processing_def split: if_splits)

end

end
