(* ===== verification/SessionStore.thy ===== *)
theory SessionStore
  imports LearningModels
begin

text \<open>
  The session store of \<^verbatim>\<open>runtime/session/memory_store.py\<close>: documents, their version counters (the
  CAS tokens) and the full results, with every operation of the store. An operation that writes
  through the live document reads the clock for the creation stamp (\<open>clk 0\<close>) and again for the
  activity stamp (\<open>clk 1\<close>). The store provides the \<open>cas_store\<close> interface.
\<close>

record session_store =
  ss_docs :: "(string, session_doc) dict"
  ss_versions :: "(string, int) dict"
  ss_results :: "(string, (string, pyval) dict) dict"

type_synonym clock = "nat \<Rightarrow> string"

definition empty_store :: session_store where
  "empty_store = \<lparr>ss_docs = [], ss_versions = [], ss_results = []\<rparr>"

definition bump_version :: "string \<Rightarrow> session_store \<Rightarrow> session_store" where
  "bump_version sid st =
     st\<lparr>ss_versions := dset sid (dget_or (ss_versions st) sid 0 + 1) (ss_versions st)\<rparr>"

definition get_or_create_session :: "clock \<Rightarrow> string \<Rightarrow> session_store \<Rightarrow> session_doc \<times> session_store" where
  "get_or_create_session clk sid st = (case dget (ss_docs st) sid of
     Some d \<Rightarrow> (d, st)
   | None \<Rightarrow>
       let d = new_session_doc sid (clk 0)
       in (d, st\<lparr>ss_docs := dset sid d (ss_docs st), ss_versions := dset sid 0 (ss_versions st)\<rparr>))"

definition put_doc :: "string \<Rightarrow> session_doc \<Rightarrow> session_store \<Rightarrow> session_store" where
  "put_doc sid d st = st\<lparr>ss_docs := dset sid d (ss_docs st)\<rparr>"

text \<open>The common write: fetch or create, change the live document, stamp the activity, bump.\<close>

definition mutate :: "clock \<Rightarrow> string \<Rightarrow> (session_doc \<Rightarrow> session_doc) \<Rightarrow> session_store \<Rightarrow> session_store" where
  "mutate clk sid f st =
     (let (d, st1) = get_or_create_session clk sid st
      in bump_version sid (put_doc sid ((f d)\<lparr>sd_last_activity := clk 1\<rparr>) st1))"

definition load_trail :: "string \<Rightarrow> session_store \<Rightarrow> trail_entry list" where
  "load_trail sid st = (case dget (ss_docs st) sid of None \<Rightarrow> [] | Some d \<Rightarrow> sd_tool_trail d)"

definition append_message :: "clock \<Rightarrow> string \<Rightarrow> turn_message \<Rightarrow> session_store \<Rightarrow> session_store" where
  "append_message clk sid m = mutate clk sid (\<lambda>d. d\<lparr>sd_messages := sd_messages d @ [m]\<rparr>)"

definition append_trail_entry :: "clock \<Rightarrow> string \<Rightarrow> trail_entry \<Rightarrow> session_store \<Rightarrow> session_store" where
  "append_trail_entry clk sid e = mutate clk sid (\<lambda>d. d\<lparr>sd_tool_trail := sd_tool_trail d @ [e]\<rparr>)"

definition bump_last_activity :: "clock \<Rightarrow> string \<Rightarrow> session_store \<Rightarrow> session_store" where
  "bump_last_activity clk sid = mutate clk sid id"

definition write_full_result :: "string \<Rightarrow> string \<Rightarrow> pyval \<Rightarrow> session_store \<Rightarrow> string \<times> session_store" where
  "write_full_result sid result_id full st =
     (let ref = ''result::'' @ result_id
      in (ref, st\<lparr>ss_results :=
            dset sid (dset ref full (dget_or (ss_results st) sid [])) (ss_results st)\<rparr>))"

definition read_full_result :: "string \<Rightarrow> string \<Rightarrow> session_store \<Rightarrow> pyval option" where
  "read_full_result sid ref st = dget (dget_or (ss_results st) sid []) ref"

definition write_pause_checkpoint :: "clock \<Rightarrow> string \<Rightarrow> pause_checkpoint \<Rightarrow> session_store \<Rightarrow> session_store" where
  "write_pause_checkpoint clk sid c = mutate clk sid (\<lambda>d. d\<lparr>sd_pause_checkpoint := Some c\<rparr>)"

text \<open>The merge runs first, on the live state, and may raise: then nothing is written.\<close>

definition apply_analysis_state :: "clock \<Rightarrow> string \<Rightarrow> int \<Rightarrow>
    (analysis_state option \<Rightarrow> analysis_state result) \<Rightarrow> session_store \<Rightarrow>
    analysis_state result \<times> session_store" where
  "apply_analysis_state clk sid turn_index merge st =
     (let (d, st1) = get_or_create_session clk sid st
      in case merge (live_analysis_state d turn_index) of
           Inl e \<Rightarrow> (Inl e, st1)
         | Inr a \<Rightarrow> (Inr a, bump_version sid
                       (put_doc sid (d\<lparr>sd_analysis_state := Some a, sd_last_activity := clk 1\<rparr>) st1)))"

definition claim_finalization_block :: "clock \<Rightarrow> string \<Rightarrow> int \<Rightarrow> int \<Rightarrow> string \<Rightarrow> session_store \<Rightarrow>
    bool result \<times> session_store" where
  "claim_finalization_block clk sid turn_index window_count kind st =
     (let (d, st1) = get_or_create_session clk sid st;
          blocks = (case sd_finalization_blocks d of None \<Rightarrow> [] | Some b \<Rightarrow> b)
      in case finalization_block_key turn_index window_count kind of
           Inl e \<Rightarrow> (Inl e, st1)
         | Inr key \<Rightarrow>
             (if MAX_FINALIZATION_BLOCKS_PER_WINDOW \<le> dget_or blocks key 0 then (Inr False, st1)
              else (Inr True, bump_version sid (put_doc sid
                     (d\<lparr>sd_finalization_blocks := Some (dset key (dget_or blocks key 0 + 1) blocks),
                        sd_last_activity := clk 1\<rparr>) st1))))"

definition version_of :: "string \<Rightarrow> session_store \<Rightarrow> int result" where
  "version_of sid st = (case dget (ss_versions st) sid of
     None \<Rightarrow> Inl (KeyError sid) | Some v \<Rightarrow> Inr v)"

definition get_session_with_cas :: "clock \<Rightarrow> string \<Rightarrow> session_store \<Rightarrow>
    (session_doc \<times> int) result \<times> session_store" where
  "get_session_with_cas clk sid st =
     (let (d, st1) = get_or_create_session clk sid st
      in (rbind (version_of sid st1) (\<lambda>v. Inr (d, v)), st1))"

definition resume_checkpoint :: "clock \<Rightarrow> string \<Rightarrow> int \<Rightarrow> string \<Rightarrow> session_store \<Rightarrow>
    session_doc result \<times> session_store" where
  "resume_checkpoint clk sid cas answer st = (case dget (ss_docs st) sid of
     None \<Rightarrow> (Inl AlreadyConsumedError, st)
   | Some d \<Rightarrow> (case sd_pause_checkpoint d of
       None \<Rightarrow> (Inl AlreadyConsumedError, st)
     | Some c \<Rightarrow>
         (if pc_consumed c then (Inl AlreadyConsumedError, st)
          else case version_of sid st of
            Inl e \<Rightarrow> (Inl e, st)
          | Inr current \<Rightarrow>
              (if cas \<noteq> current then (Inl CASMismatchError, st)
               else
                 let turn = (if sd_messages d = [] then 0 else tm_turn_index (last (sd_messages d)));
                     m = \<lparr>tm_turn_index = turn, tm_role = ''user'', tm_content = answer,
                          tm_ts = clk 0, tm_provenance = Some {||}\<rparr>;
                     d' = d\<lparr>sd_pause_checkpoint := Some (c\<lparr>pc_consumed := True\<rparr>),
                            sd_messages := sd_messages d @ [m],
                            sd_last_activity := clk 1\<rparr>
                 in (Inr d', bump_version sid (put_doc sid d' st))))))"

text \<open>Oldest idle first: a stable sort on the activity stamp, then the cap.\<close>

definition scan_idle_sessions :: "string list \<Rightarrow> string \<Rightarrow> nat \<Rightarrow> session_store \<Rightarrow>
    (session_doc \<times> int) list result" where
  "scan_idle_sessions statuses before limit st =
     rbind (mapM_r (\<lambda>(sid, d). rbind (version_of sid st) (\<lambda>v. Inr (d, v)))
             (filter (\<lambda>(sid, d). sd_learning_status d \<in> set statuses \<and> \<not> before \<le> sd_last_activity d)
                (ss_docs st)))
       (\<lambda>matches. Inr (take limit (sort_key (\<lambda>(d, v). sd_last_activity d) matches)))"

definition transition_learning_status :: "(int, session_store) store_op" where
  "transition_learning_status sid expected_from to cas content_hash assert_from st =
     (case dget (ss_docs st) sid of
        None \<Rightarrow> (Inl CASMismatchError, st)
      | Some d \<Rightarrow> (case version_of sid st of
          Inl e \<Rightarrow> (Inl e, st)
        | Inr current \<Rightarrow>
            (if cas \<noteq> current then (Inl CASMismatchError, st)
             else if assert_from \<and> sd_learning_status d \<noteq> expected_from
             then (Inl CASMismatchError, st)
             else
               let d1 = d\<lparr>sd_learning_status := to\<rparr>;
                   d2 = (case content_hash of None \<Rightarrow> d1 | Some h \<Rightarrow> d1\<lparr>sd_learning_content_hash := Some h\<rparr>);
                   st' = bump_version sid (put_doc sid d2 st)
               in (version_of sid st', st'))))"

section \<open>Well-formedness\<close>

text \<open>Every document has a version and is filed under its own id.\<close>

definition store_wf :: "session_store \<Rightarrow> bool" where
  "store_wf st \<longleftrightarrow> dict_wf (ss_docs st) \<and> dict_wf (ss_versions st) \<and>
     (\<forall>sid. (dget (ss_docs st) sid = None) = (dget (ss_versions st) sid = None)) \<and>
     (\<forall>sid d. dget (ss_docs st) sid = Some d \<longrightarrow> sd_session_id d = sid)"

definition doc_of :: "session_store \<Rightarrow> string \<Rightarrow> session_doc option" where
  "doc_of st sid = dget (ss_docs st) sid"

definition ver_of :: "session_store \<Rightarrow> string \<Rightarrow> int option" where
  "ver_of st sid = dget (ss_versions st) sid"

definition status_of :: "session_store \<Rightarrow> string \<Rightarrow> string option" where
  "status_of st sid = map_option sd_learning_status (doc_of st sid)"

lemmas store_views = doc_of_def ver_of_def status_of_def

lemma store_wf_empty [simp]: "store_wf empty_store"
  by (simp add: store_wf_def empty_store_def)

lemma store_wf_version: "store_wf st \<Longrightarrow> doc_of st sid = Some d \<Longrightarrow> \<exists>v. ver_of st sid = Some v"
  unfolding store_wf_def store_views by (metis not_None_eq)

lemma put_doc_views [simp]:
  "doc_of (put_doc sid d st) s = (if s = sid then Some d else doc_of st s)"
  "ver_of (put_doc sid d st) s = ver_of st s"
  by (simp_all add: put_doc_def store_views)

lemma bump_version_views [simp]:
  "doc_of (bump_version sid st) s = doc_of st s"
  "ver_of (bump_version sid st) s =
     (if s = sid then Some (1 + (case ver_of st sid of None \<Rightarrow> 0 | Some v \<Rightarrow> v)) else ver_of st s)"
  by (simp_all add: bump_version_def store_views dget_or_def split: option.splits)

lemma get_or_create_views:
  assumes "get_or_create_session clk sid st = (d, st1)"
  shows "doc_of st1 s = (if s = sid then Some d else doc_of st s)"
    and "s \<noteq> sid \<Longrightarrow> ver_of st1 s = ver_of st s"
    and "doc_of st sid \<noteq> None \<Longrightarrow> st1 = st"
    and "doc_of st sid = None \<Longrightarrow> d = new_session_doc sid (clk 0) \<and> ver_of st1 sid = Some 0"
  using assms by (auto simp: get_or_create_session_def store_views Let_def split: option.splits)

lemma store_wf_write:
  assumes "store_wf st" and "sd_session_id d = sid"
  shows "store_wf (bump_version sid (put_doc sid d st))"
  using assms by (auto simp: store_wf_def bump_version_def put_doc_def)

lemma store_wf_create:
  assumes "store_wf st"
  shows "store_wf (snd (get_or_create_session clk sid st))"
    and "sd_session_id (fst (get_or_create_session clk sid st)) = sid"
  using assms
  by (auto simp: store_wf_def get_or_create_session_def new_session_doc_def Let_def split: option.splits)

lemma store_wf_mutate:
  assumes "store_wf st" and "\<And>d. sd_session_id (f d) = sd_session_id d"
  shows "store_wf (mutate clk sid f st)"
proof (cases "get_or_create_session clk sid st")
  case (Pair d st1)
  with store_wf_create[OF assms(1), of clk sid] assms(2) show ?thesis
    by (simp add: mutate_def store_wf_write)
qed

lemma mutate_views:
  assumes "store_wf st"
  shows "doc_of (mutate clk sid f st) s =
           (if s = sid then Some ((f (fst (get_or_create_session clk sid st)))\<lparr>sd_last_activity := clk 1\<rparr>)
            else doc_of st s)"
    and "s \<noteq> sid \<Longrightarrow> ver_of (mutate clk sid f st) s = ver_of st s"
    and "ver_of st sid = Some v \<Longrightarrow> ver_of (mutate clk sid f st) sid = Some (v + 1)"
proof -
  obtain d st1 where g: "get_or_create_session clk sid st = (d, st1)" by fastforce
  note v = get_or_create_views[OF g]
  show "doc_of (mutate clk sid f st) s =
           (if s = sid then Some ((f (fst (get_or_create_session clk sid st)))\<lparr>sd_last_activity := clk 1\<rparr>)
            else doc_of st s)"
    and "s \<noteq> sid \<Longrightarrow> ver_of (mutate clk sid f st) s = ver_of st s"
    using v(1,2)[of s] g by (auto simp: mutate_def)
  assume "ver_of st sid = Some v"
  moreover from this have "doc_of st sid \<noteq> None"
    using assms by (auto simp: store_wf_def store_views)
  ultimately show "ver_of (mutate clk sid f st) sid = Some (v + 1)"
    using g v(3) by (simp add: mutate_def)
qed

section \<open>The interface of the guards\<close>

lemma transition_status_cases:
  assumes "store_wf st"
  shows "transition_learning_status sid f t c h a st =
     (if ver_of st sid = Some c \<and> (a \<longrightarrow> status_of st sid = Some f) then
        (let d = the (doc_of st sid);
             d2 = d\<lparr>sd_learning_status := t,
                    sd_learning_content_hash := (case h of None \<Rightarrow> sd_learning_content_hash d | Some x \<Rightarrow> Some x)\<rparr>
         in (Inr (c + 1), bump_version sid (put_doc sid d2 st)))
      else (Inl CASMismatchError, st))"
proof (cases "doc_of st sid")
  case None
  with assms have "ver_of st sid = None" by (auto simp: store_wf_def store_views)
  with None show ?thesis by (simp add: transition_learning_status_def store_views)
next
  case (Some d)
  then obtain v where v: "ver_of st sid = Some v" using store_wf_version[OF assms] by blast
  let ?u = "d\<lparr>sd_learning_status := t,
       sd_learning_content_hash := (case h of None \<Rightarrow> sd_learning_content_hash d | Some x \<Rightarrow> Some x)\<rparr>"
  have u: "(case h of None \<Rightarrow> d\<lparr>sd_learning_status := t\<rparr>
      | Some x \<Rightarrow> d\<lparr>sd_learning_status := t, sd_learning_content_hash := Some x\<rparr>) = ?u"
    by (cases h) simp_all
  have w: "version_of sid (bump_version sid (put_doc sid e st)) = Inr (v + 1)" for e
    using v by (simp add: version_of_def bump_version_def put_doc_def ver_of_def dget_or_def)
  from Some v show ?thesis
    by (auto simp: transition_learning_status_def version_of_def store_views u w Let_def simp del: One_nat_def
        split: if_splits) (simp_all add: version_of_def[symmetric] w)
qed

lemma store_wf_transition:
  assumes "store_wf st"
  shows "store_wf (snd (transition_learning_status sid f t c h a st))"
proof (cases "ver_of st sid = Some c \<and> (a \<longrightarrow> status_of st sid = Some f)")
  case True
  then obtain d where d: "doc_of st sid = Some d" "sd_session_id d = sid"
    using assms unfolding store_wf_def store_views by (metis option.exhaust option.distinct(1))
  show ?thesis
    unfolding transition_status_cases[OF assms] using True d
    by (simp add: Let_def store_wf_write[OF assms])
next
  case False
  then show ?thesis unfolding transition_status_cases[OF assms] using assms by auto
qed

interpretation mem: cas_store store_wf ver_of status_of transition_learning_status
proof
  fix st sid f t c h a c' st'
  assume wf: "store_wf st" and r: "transition_learning_status sid f t c h a st = (Inr c', st')"
  from r show "ver_of st sid = Some c \<and> ver_of st' sid = Some c' \<and> c' \<noteq> c \<and>
      status_of st' sid = Some t \<and> (a \<longrightarrow> status_of st sid = Some f)"
    unfolding transition_status_cases[OF wf]
    by (auto simp: Let_def status_of_def split: if_splits)
next
  fix st sid f t c h a e st'
  assume "store_wf st" and "transition_learning_status sid f t c h a st = (Inl e, st')"
  then show "e = CASMismatchError \<and> st' = st"
    by (auto simp: transition_status_cases Let_def split: if_splits)
next
  fix st sid f t c h a st' and sid' :: string
  assume "snd (transition_learning_status sid f t c h a st) = st'" and "sid' \<noteq> sid"
  then show "ver_of st' sid' = ver_of st sid' \<and> status_of st' sid' = status_of st sid'"
    by (auto simp: transition_learning_status_def status_of_def version_of_def Let_def
        split: option.splits sum.splits if_splits)
next
  show "\<And>st sid f t c h a. store_wf st \<Longrightarrow> store_wf (snd (transition_learning_status sid f t c h a st))"
    by (rule store_wf_transition)
qed

section \<open>Guarded transitions on the store\<close>

text \<open>
  C19: every status change that succeeds through the two guards is made by the caller that holds the
  session's current version, follows an edge of the tables from the status the session had, and moves
  the version by one. An asserted transition starts at the status its caller read and takes a forward
  edge of \<open>VALID_TRANSITIONS\<close>; an unasserted one, whatever the status, ends in \<open>dead_letter\<close>; a
  recovery starts at the status read, \<open>processing\<close> or \<open>done\<close>, and ends in \<open>processing\<close>. Nothing of the
  session but its status and recorded hash changes, and no other session does.
\<close>

theorem guarded_edges_only:
  assumes "store_wf st"
    and "(if recovers then recover_to_processing transition_learning_status sid f c st
          else transition transition_learning_status sid f t c h a st) = (Inr c', st')"
  shows "\<exists>d d'. doc_of st sid = Some d \<and> doc_of st' sid = Some d' \<and>
      ver_of st sid = Some c \<and> ver_of st' sid = Some c' \<and> c' = c + 1 \<and>
      (if recovers then sd_learning_status d = f \<and> f \<in> {PROCESSING, DONE} \<and> sd_learning_status d' = PROCESSING
       else if a then sd_learning_status d = f \<and> t \<in> set (dget_or VALID_TRANSITIONS f []) \<and> sd_learning_status d' = t
       else t = DEAD_LETTER \<and> sd_learning_status d' = t) \<and>
      d'\<lparr>sd_learning_status := sd_learning_status d, sd_learning_content_hash := sd_learning_content_hash d\<rparr> = d \<and>
      (\<forall>s. s \<noteq> sid \<longrightarrow> doc_of st' s = doc_of st s \<and> ver_of st' s = ver_of st s)"
proof -
  obtain f1 t1 h1 a1 where op: "transition_learning_status sid f1 t1 c h1 a1 st = (Inr c', st')"
    and f1: "if recovers then f1 = f \<and> a1 \<and> t1 = PROCESSING \<and> f \<in> {PROCESSING, DONE}
      else f1 = f \<and> t1 = t \<and> a1 = a \<and> (if a then t \<in> set (dget_or VALID_TRANSITIONS f []) else t = DEAD_LETTER)"
    using assms(2)
    by (cases recovers)
      (auto simp: recover_to_processing_def transition_def recovery_sources split: if_splits)
  note run = op[unfolded transition_status_cases[OF assms(1)]]
  then have v: "ver_of st sid = Some c" "a1 \<longrightarrow> status_of st sid = Some f1" by (auto split: if_splits)
  then obtain d where d: "doc_of st sid = Some d"
    using assms(1) unfolding store_wf_def store_views by (metis not_None_eq)
  with v f1 run show ?thesis by (auto simp: Let_def status_of_def split: if_splits)
qed

definition one_session :: "string \<Rightarrow> session_store" where
  "one_session s = \<lparr>ss_docs = [(''s1'', (new_session_doc ''s1'' ''t0'')\<lparr>sd_learning_status := s\<rparr>)],
     ss_versions = [(''s1'', 0)], ss_results = []\<rparr>"

lemma one_session_wf [simp]: "store_wf (one_session s)"
  by (auto simp: store_wf_def dict_wf_def one_session_def new_session_doc_def)

lemma one_session_views [simp]:
  "status_of (one_session s) ''s1'' = Some s" "ver_of (one_session s) ''s1'' = Some 0"
  by (simp_all add: one_session_def store_views)

lemma one_session_doc:
  "doc_of (one_session s) ''s1'' = Some ((new_session_doc ''s1'' ''t0'')\<lparr>sd_learning_status := s\<rparr>)"
  "sd_session_id (new_session_doc ''s1'' ''t0'') = ''s1''"
  by (simp_all add: one_session_def doc_of_def new_session_doc_def)

lemma one_session_transition:
  "t \<in> set (dget_or VALID_TRANSITIONS s []) \<Longrightarrow>
     transition transition_learning_status ''s1'' s t 0 h True (one_session s) =
       (Inr 1, snd (transition_learning_status ''s1'' s t 0 h True (one_session s)))"
  by (simp add: transition_def prod_eq_iff) (simp add: transition_status_cases Let_def)

theorem guarded_edges_only_witness:
  "(\<exists>d d'. doc_of (one_session QUEUED) ''s1'' = Some d \<and> sd_learning_status d = QUEUED \<and>
     doc_of (snd (transition transition_learning_status ''s1'' QUEUED PROCESSING 0 None True (one_session QUEUED))) ''s1''
       = Some d' \<and> sd_learning_status d' = PROCESSING) \<and>
   ver_of (snd (transition transition_learning_status ''s1'' QUEUED PROCESSING 0 None True (one_session QUEUED))) ''s1''
     = Some 1"
proof -
  have edge: "PROCESSING \<in> set (dget_or VALID_TRANSITIONS QUEUED [])" by (simp add: valid_successors)
  have run: "(if False then recover_to_processing transition_learning_status ''s1'' QUEUED 0 (one_session QUEUED)
      else transition transition_learning_status ''s1'' QUEUED PROCESSING 0 None True (one_session QUEUED)) =
      (Inr 1, snd (transition transition_learning_status ''s1'' QUEUED PROCESSING 0 None True (one_session QUEUED)))"
    using one_session_transition[OF edge, of None] by simp
  from guarded_edges_only[OF one_session_wf run] show ?thesis by auto
qed

text \<open>
  A CAS token is spent by the write it wins. Of two workers that read the same token, once
  one has moved the session the other's guarded call raises \<open>CASMismatchError\<close> and changes nothing.
\<close>

theorem cas_token_single_use:
  assumes "store_wf st"
    and "transition transition_learning_status sid f t c h a st = (Inr c', st') \<or>
         recover_to_processing transition_learning_status sid f c st = (Inr c', st')"
  shows "(t2 \<in> set (dget_or VALID_TRANSITIONS f2 []) \<longrightarrow>
           transition transition_learning_status sid f2 t2 c h2 True st' = (Inl CASMismatchError, st')) \<and>
         transition transition_learning_status sid f2 DEAD_LETTER c h2 False st' = (Inl CASMismatchError, st') \<and>
         (f2 \<in> {PROCESSING, DONE} \<longrightarrow>
           recover_to_processing transition_learning_status sid f2 c st' = (Inl CASMismatchError, st'))"
proof -
  obtain f0 t0 h0 a0 where "transition_learning_status sid f0 t0 c h0 a0 st = (Inr c', st')"
    using assms(2) mem.transition_winner_op mem.recover_winner_op by blast
  note lost = mem.single_winner[OF assms(1) this]
  show ?thesis by (simp add: transition_def recover_to_processing_def lost recovery_sources)
qed

theorem cas_token_single_use_witness:
  "\<exists>st'. transition transition_learning_status ''s1'' QUEUED PROCESSING 0 None True (one_session QUEUED)
           = (Inr 1, st') \<and>
     recover_to_processing transition_learning_status ''s1'' PROCESSING 0 st' = (Inl CASMismatchError, st')"
proof -
  have t: "transition transition_learning_status ''s1'' QUEUED PROCESSING 0 None True (one_session QUEUED)
      = (Inr 1, snd (transition_learning_status ''s1'' QUEUED PROCESSING 0 None True (one_session QUEUED)))"
    by (rule one_session_transition) (simp add: valid_successors)
  from cas_token_single_use[OF one_session_wf disjI1[OF t], of DONE PROCESSING None] t
  show ?thesis by blast
qed

section \<open>Exactly-once operations\<close>

text \<open>
  C18: a pause checkpoint is resumed at most once. A resume succeeds only on an unconsumed
  checkpoint with the current token; it appends exactly one user message, marks the checkpoint
  consumed, and every later resume, with whatever token, raises \<open>AlreadyConsumedError\<close>.
\<close>

theorem resume_exactly_once:
  assumes "resume_checkpoint clk sid cas answer st = (Inr d', st')"
  shows "(\<exists>d c. doc_of st sid = Some d \<and> sd_pause_checkpoint d = Some c \<and> \<not> pc_consumed c \<and>
            ver_of st sid = Some cas \<and>
            sd_pause_checkpoint d' = Some (c\<lparr>pc_consumed := True\<rparr>) \<and>
            map tm_content (sd_messages d') = map tm_content (sd_messages d) @ [answer]) \<and>
         doc_of st' sid = Some d' \<and> ver_of st' sid = Some (cas + 1) \<and>
         resume_checkpoint clk2 sid cas2 answer2 st' = (Inl AlreadyConsumedError, st')"
proof -
  from assms obtain d c where dc: "doc_of st sid = Some d" "sd_pause_checkpoint d = Some c"
      "\<not> pc_consumed c" "ver_of st sid = Some cas"
    and st': "st' = bump_version sid (put_doc sid d' st)"
    and d': "sd_pause_checkpoint d' = Some (c\<lparr>pc_consumed := True\<rparr>)"
      "map tm_content (sd_messages d') = map tm_content (sd_messages d) @ [answer]"
    by (fastforce simp: resume_checkpoint_def version_of_def store_views Let_def
        split: option.splits sum.splits if_splits)
  have doc': "doc_of st' sid = Some d'" by (simp add: st')
  then have "resume_checkpoint clk2 sid cas2 answer2 st' = (Inl AlreadyConsumedError, st')"
    using d' by (simp add: resume_checkpoint_def doc_of_def)
  with dc d' doc' show ?thesis by (auto simp: st')
qed

definition paused_store :: session_store where
  "paused_store = \<lparr>ss_docs = [(''s1'', (new_session_doc ''s1'' ''t0'')\<lparr>sd_pause_checkpoint := Some
       \<lparr>pc_reason = ''askUser'', pc_pending_question = None, pc_awaiting = ''user_answer'',
        pc_consumed = False, pc_budget_window_count = 1, pc_blueprint_id = None,
        pc_slot_bindings_json = None, pc_completed_nodes_json = None, pc_awaiting_node = None,
        pc_serves_intent = None\<rparr>\<rparr>)],
     ss_versions = [(''s1'', 3)], ss_results = []\<rparr>"

theorem resume_exactly_once_witness:
  "\<exists>d' st'. resume_checkpoint (\<lambda>_. ''t1'') ''s1'' 3 ''yes'' paused_store = (Inr d', st') \<and>
     resume_checkpoint (\<lambda>_. ''t2'') ''s1'' 4 ''again'' st' = (Inl AlreadyConsumedError, st')"
proof -
  obtain d' st' where r: "resume_checkpoint (\<lambda>_. ''t1'') ''s1'' 3 ''yes'' paused_store = (Inr d', st')"
    by (simp add: resume_checkpoint_def paused_store_def new_session_doc_def version_of_def Let_def)
  with resume_exactly_once[OF r, of "\<lambda>_. ''t2''" 4 "''again''"] show ?thesis by blast
qed

text \<open>How often an allowance of a session has been spent.\<close>

definition spent :: "session_store \<Rightarrow> string \<Rightarrow> string \<Rightarrow> int" where
  "spent st sid key = (case doc_of st sid of None \<Rightarrow> 0
     | Some d \<Rightarrow> dget_or (case sd_finalization_blocks d of None \<Rightarrow> [] | Some b \<Rightarrow> b) key 0)"

lemma claim_cases:
  assumes "finalization_block_key t w k = Inr key"
  shows "fst (claim_finalization_block clk sid t w k st) = Inr (spent st sid key < 1) \<and>
     spent (snd (claim_finalization_block clk sid t w k st)) sid key =
       (if spent st sid key < 1 then spent st sid key + 1 else spent st sid key) \<and>
     (key' \<noteq> key \<longrightarrow> spent (snd (claim_finalization_block clk sid t w k st)) sid key' = spent st sid key')"
proof -
  obtain d st1 where g: "get_or_create_session clk sid st = (d, st1)" by fastforce
  note v = get_or_create_views[OF g]
  have sp: "spent st sid j = dget_or (case sd_finalization_blocks d of None \<Rightarrow> [] | Some b \<Rightarrow> b) j 0" for j
  proof (cases "doc_of st sid")
    case None
    with v(4) show ?thesis by (simp add: spent_def new_session_doc_def dget_or_def)
  next
    case (Some e)
    with v(1)[of sid] v(3) show ?thesis by (simp add: spent_def)
  qed
  have sp1: "spent st1 sid j = spent st sid j" for j
    unfolding sp using v(1)[of sid] by (simp add: spent_def)
  show ?thesis
    by (auto simp: claim_finalization_block_def g assms Let_def MAX_FINALIZATION_BLOCKS_PER_WINDOW_def
        sp1 sp[symmetric]) (auto simp: spent_def sp[symmetric])
qed

text \<open>A run of claims on one session, each at its own clock: the answers in order.\<close>

fun claim_run :: "string \<Rightarrow> (clock \<times> int \<times> int \<times> string) list \<Rightarrow> session_store \<Rightarrow> bool result list" where
  "claim_run sid [] st = []"
| "claim_run sid ((clk, t, w, k) # cs) st =
     fst (claim_finalization_block clk sid t w k st)
       # claim_run sid cs (snd (claim_finalization_block clk sid t w k st))"

definition grants :: "string \<Rightarrow> (clock \<times> int \<times> int \<times> string) list \<Rightarrow> bool result list \<Rightarrow> nat" where
  "grants key cs rs = length (filter (\<lambda>((clk, t, w, k), r).
      finalization_block_key t w k = Inr key \<and> r = Inr True) (zip cs rs))"

lemma grants_Cons [simp]:
  "grants key ((clk, t, w, k) # cs) (r # rs) =
     (if finalization_block_key t w k = Inr key \<and> r = Inr True then 1 else 0) + grants key cs rs"
  by (simp add: grants_def)

lemma grants_spent:
  assumes "0 \<le> spent st sid key"
  shows "grants key cs (claim_run sid cs st) =
     (if spent st sid key < 1 \<and> (\<exists>c \<in> set cs. finalization_block_key (fst (snd c)) (fst (snd (snd c)))
         (snd (snd (snd c))) = Inr key) then 1 else 0)"
  using assms
proof (induction cs arbitrary: st)
  case Nil
  then show ?case by (simp add: grants_def)
next
  case (Cons c cs)
  obtain clk t w k where c: "c = (clk, t, w, k)" by (cases c)
  let ?st' = "snd (claim_finalization_block clk sid t w k st)"
  show ?case
  proof (cases "finalization_block_key t w k")
    case (Inl e)
    obtain d st1 where g: "get_or_create_session clk sid st = (d, st1)" by fastforce
    have "spent ?st' sid key = spent st sid key"
      using get_or_create_views[OF g] Inl g
      by (cases "doc_of st sid") (auto simp: claim_finalization_block_def spent_def new_session_doc_def
          dget_or_def Let_def)
    with Cons.IH[of ?st'] Cons.prems Inl show ?thesis by (simp add: c)
  next
    case (Inr key')
    note cl = claim_cases[OF Inr, of clk sid st]
    show ?thesis
    proof (cases "key' = key")
      case True
      with cl[of key] Cons.IH[of ?st'] Cons.prems Inr show ?thesis by (simp add: c)
    next
      case False
      with cl[of key] Cons.IH[of ?st'] Cons.prems Inr show ?thesis by (simp add: c)
    qed
  qed
qed

text \<open>
  However the claims of different gates, windows and turns interleave, one allowance of a
  fresh session is granted exactly once if any claim asks for it, and never twice.
\<close>

theorem finalization_claim_exactly_once:
  "grants key cs (claim_run sid cs empty_store) =
     (if \<exists>c \<in> set cs. finalization_block_key (fst (snd c)) (fst (snd (snd c))) (snd (snd (snd c))) = Inr key
      then 1 else 0)"
proof -
  have "spent empty_store sid key = 0" by (simp add: spent_def empty_store_def doc_of_def)
  then show ?thesis using grants_spent[of empty_store sid key cs] by simp
qed

section \<open>Idle scan\<close>

definition eligible :: "string list \<Rightarrow> string \<Rightarrow> session_store \<Rightarrow> session_doc \<Rightarrow> int \<Rightarrow> bool" where
  "eligible statuses before st d v \<longleftrightarrow>
     doc_of st (sd_session_id d) = Some d \<and> ver_of st (sd_session_id d) = Some v \<and>
     sd_learning_status d \<in> set statuses \<and> sd_last_activity d < before"

lemma scan_matches:
  assumes "store_wf st"
  shows "\<exists>ms. scan_idle_sessions statuses before limit st =
           Inr (take limit (sort_key (\<lambda>(d, v). sd_last_activity d) ms)) \<and>
         (\<forall>d v. (d, v) \<in> set ms \<longleftrightarrow> eligible statuses before st d v)"
proof -
  let ?P = "\<lambda>(sid, d). sd_learning_status d \<in> set statuses \<and> \<not> before \<le> sd_last_activity d"
  let ?g = "\<lambda>(sid, d). (d, the (ver_of st sid))"
  have docs: "(sid, d) \<in> set (ss_docs st) \<longleftrightarrow> doc_of st sid = Some d" for sid d
    using assms by (simp add: store_wf_def doc_of_def dget_mem)
  have v: "version_of sid st = Inr (the (ver_of st sid))" if "doc_of st sid = Some d" for sid d
    using store_wf_version[OF assms that] by (auto simp: version_of_def ver_of_def)
  have "mapM_r (\<lambda>(sid, d). rbind (version_of sid st) (\<lambda>v. Inr (d, v))) (map id (filter ?P (ss_docs st)))
      = Inr (map ?g (filter ?P (ss_docs st)))"
    by (rule mapM_r_map) (auto simp: docs v)
  then have "scan_idle_sessions statuses before limit st =
      Inr (take limit (sort_key (\<lambda>(d, v). sd_last_activity d) (map ?g (filter ?P (ss_docs st)))))"
    by (simp add: scan_idle_sessions_def)
  moreover have "(d, v) \<in> set (map ?g (filter ?P (ss_docs st))) \<longleftrightarrow> eligible statuses before st d v" for d v
  proof -
    have own: "sd_session_id d = sid" if "doc_of st sid = Some d" for sid
      using assms that by (simp add: store_wf_def doc_of_def)
    have "(d, v) \<in> set (map ?g (filter ?P (ss_docs st))) \<longleftrightarrow>
        (\<exists>sid. doc_of st sid = Some d \<and> v = the (ver_of st sid) \<and>
           sd_learning_status d \<in> set statuses \<and> sd_last_activity d < before)"
      by (auto simp: docs not_le)
    also have "\<dots> \<longleftrightarrow> eligible statuses before st d v"
    proof
      assume "\<exists>sid. doc_of st sid = Some d \<and> v = the (ver_of st sid) \<and>
           sd_learning_status d \<in> set statuses \<and> sd_last_activity d < before"
      then obtain sid where sid: "doc_of st sid = Some d" "v = the (ver_of st sid)"
          "sd_learning_status d \<in> set statuses" "sd_last_activity d < before" by blast
      with own[OF sid(1)] store_wf_version[OF assms sid(1)] show "eligible statuses before st d v"
        by (auto simp: eligible_def)
    next
      assume "eligible statuses before st d v"
      then show "\<exists>sid. doc_of st sid = Some d \<and> v = the (ver_of st sid) \<and>
           sd_learning_status d \<in> set statuses \<and> sd_last_activity d < before"
        by (auto simp: eligible_def)
    qed
    finally show ?thesis .
  qed
  ultimately show ?thesis by blast
qed

text \<open>
  The idle scan returns eligible sessions only (status asked for, idle since before the
  cutoff, paired with its current version), the longest idle first, at most the limit; and a
  session it leaves out is left out because the limit is full of sessions idle at least as long.
\<close>

theorem scan_idle_spec:
  assumes "store_wf st" and "scan_idle_sessions statuses before limit st = Inr rs"
  shows "sorted (map (\<lambda>(d, v). sd_last_activity d) rs) \<and> length rs \<le> limit \<and>
    (\<forall>(d, v) \<in> set rs. eligible statuses before st d v) \<and>
    (\<forall>d v. eligible statuses before st d v \<and> (d, v) \<notin> set rs \<longrightarrow>
       length rs = limit \<and> (\<forall>(d', v') \<in> set rs. sd_last_activity d' \<le> sd_last_activity d))"
proof -
  let ?key = "\<lambda>(d :: session_doc, v :: int). sd_last_activity d"
  obtain ms where ms: "rs = take limit (sort_key ?key ms)"
      "\<And>d v. (d, v) \<in> set ms \<longleftrightarrow> eligible statuses before st d v"
    using scan_matches[OF assms(1), of statuses before limit] assms(2) by auto
  let ?s = "sort_key ?key ms"
  have sorted: "sorted (map ?key ?s)" by simp
  have rest: "length rs = limit \<and> (\<forall>x \<in> set rs. ?key x \<le> ?key y)"
    if "y \<in> set ?s" "y \<notin> set rs" for y
  proof -
    have split: "?s = rs @ drop limit ?s" by (simp add: ms(1))
    with that have y: "y \<in> set (drop limit ?s)" by (metis Un_iff set_append)
    then have "limit < length ?s" by (metis drop_all empty_iff list.set(1) not_le)
    moreover have "\<forall>x \<in> set rs. ?key x \<le> ?key y"
      using sorted split y by (metis (no_types, lifting) image_eqI list.set_map map_append sorted_append)
    ultimately show ?thesis by (simp add: ms(1))
  qed
  have "sorted (map ?key rs)"
    using sorted by (simp add: ms(1) sorted_wrt_take flip: take_map)
  moreover have "\<forall>(d, v) \<in> set rs. eligible statuses before st d v"
    using ms set_take_subset[of limit ?s] by fastforce
  moreover have "length rs = limit \<and> (\<forall>(d', v') \<in> set rs. sd_last_activity d' \<le> sd_last_activity d)"
    if "eligible statuses before st d v \<and> (d, v) \<notin> set rs" for d v
    using rest[of "(d, v)"] that ms(2)[of d v] by (auto simp: split_def)
  moreover have "length rs \<le> limit" by (simp add: ms(1))
  ultimately show ?thesis by blast
qed

theorem scan_idle_spec_witness:
  "\<exists>rs. scan_idle_sessions SWEEPABLE_STATUSES ''t9'' 5 (one_session ACTIVE) = Inr rs \<and>
     (\<forall>(d, v) \<in> set rs. eligible SWEEPABLE_STATUSES ''t9'' (one_session ACTIVE) d v)"
proof -
  obtain rs where r: "scan_idle_sessions SWEEPABLE_STATUSES ''t9'' 5 (one_session ACTIVE) = Inr rs"
    using scan_matches[OF one_session_wf] by blast
  with scan_idle_spec[OF one_session_wf r] show ?thesis by blast
qed

end
