(* ===== verification/LearningQueue.thy ===== *)
theory LearningQueue
  imports LearningModels Complex_Main
begin

text \<open>
  \<^verbatim>\<open>learning/memory_queue.py\<close> over the port of \<^verbatim>\<open>learning/queue.py\<close>: a stream of entries, the
  never-delivered ids, the pending entries list with its delivery counts, the dedup marks and
  the dead-letter stream. The clock is a rational number of seconds; \<open>now i\<close> is its \<open>i\<close>-th reading
  within one call. What a worker may rely on (a message leaves the stream by an ack or by a
  finalized dead letter only) is the locale \<open>learning_stream\<close>.
\<close>

record delivered_job =
  dj_message_id :: string
  dj_job :: learning_job
  dj_delivery_count :: int
  dj_dead_lettered :: bool
  dj_reclaimed :: bool

record pel_entry =
  pe_job :: learning_job
  pe_delivery_count :: int
  pe_last_delivered_at :: rat

record learning_queue =
  lq_counter :: nat
  lq_entries :: "(string, learning_job) dict"
  lq_new :: "string list"
  lq_pel :: "(string, pel_entry) dict"
  lq_dedup :: "(string, string) dict"
  lq_dead :: "learning_job list"

definition empty_queue :: learning_queue where
  "empty_queue = \<lparr>lq_counter = 0, lq_entries = [], lq_new = [], lq_pel = [], lq_dedup = [], lq_dead = []\<rparr>"

definition message_id :: "nat \<Rightarrow> string" where
  "message_id n = show_nat n @ ''-0''"

definition next_id :: "learning_queue \<Rightarrow> string \<times> learning_queue" where
  "next_id q = (message_id (Suc (lq_counter q)), q\<lparr>lq_counter := Suc (lq_counter q)\<rparr>)"

definition enqueue_without_dedup_mark :: "learning_job \<Rightarrow> learning_queue \<Rightarrow> string \<times> learning_queue" where
  "enqueue_without_dedup_mark job q =
     (let (mid, q1) = next_id q
      in (mid, q1\<lparr>lq_entries := dset mid job (lq_entries q1), lq_new := lq_new q1 @ [mid]\<rparr>))"

definition enqueue :: "learning_job \<Rightarrow> learning_queue \<Rightarrow> string \<times> learning_queue" where
  "enqueue job q = (case dget (lq_dedup q) (lj_content_hash job) of
     Some existing \<Rightarrow> (existing, q)
   | None \<Rightarrow>
       let (mid, q1) = next_id q
       in (mid, q1\<lparr>lq_entries := dset mid job (lq_entries q1),
                   lq_new := lq_new q1 @ [mid],
                   lq_dedup := dset (lj_content_hash job) mid (lq_dedup q1)\<rparr>))"

text \<open>The loop pops the oldest new id, then reads its entry: a missing entry raises after the pop.\<close>

fun consume_loop :: "string list \<Rightarrow> nat \<Rightarrow> (nat \<Rightarrow> rat) \<Rightarrow> nat \<Rightarrow> learning_queue \<Rightarrow>
    delivered_job list result \<times> learning_queue" where
  "consume_loop [] cnt now i q = (Inr [], q\<lparr>lq_new := []\<rparr>)"
| "consume_loop (mid # rest) cnt now i q =
     (if cnt \<le> i then (Inr [], q\<lparr>lq_new := mid # rest\<rparr>)
      else case dget (lq_entries q) mid of
        None \<Rightarrow> (Inl (KeyError mid), q\<lparr>lq_new := rest\<rparr>)
      | Some job \<Rightarrow>
          (let q1 = q\<lparr>lq_pel := dset mid \<lparr>pe_job = job, pe_delivery_count = 1,
                                         pe_last_delivered_at = now i\<rparr> (lq_pel q)\<rparr>;
               (r, q2) = consume_loop rest cnt now (Suc i) q1
           in (rbind r (\<lambda>ds. Inr (\<lparr>dj_message_id = mid, dj_job = job, dj_delivery_count = 1,
                                   dj_dead_lettered = False, dj_reclaimed = False\<rparr> # ds)), q2)))"

definition consume :: "nat \<Rightarrow> (nat \<Rightarrow> rat) \<Rightarrow> learning_queue \<Rightarrow> delivered_job list result \<times> learning_queue" where
  "consume cnt now q = consume_loop (lq_new q) cnt now 0 q"

definition ack :: "string \<Rightarrow> learning_queue \<Rightarrow> learning_queue" where
  "ack mid q = q\<lparr>lq_pel := dpop mid (lq_pel q), lq_entries := dpop mid (lq_entries q)\<rparr>"

definition redeliver :: "rat \<Rightarrow> int \<Rightarrow> string \<Rightarrow> pel_entry \<Rightarrow> delivered_job" where
  "redeliver now max_deliveries mid e =
     \<lparr>dj_message_id = mid, dj_job = pe_job e, dj_delivery_count = pe_delivery_count e + 1,
      dj_dead_lettered = max_deliveries < pe_delivery_count e + 1, dj_reclaimed = True\<rparr>"

text \<open>One pass over the pending entries in order: too fresh is left alone, the rest is redelivered.\<close>

definition stale :: "rat \<Rightarrow> rat \<Rightarrow> pel_entry \<Rightarrow> bool" where
  "stale now min_idle_ms e \<longleftrightarrow> \<not> (now - pe_last_delivered_at e) * 1000 < min_idle_ms"

definition reclaim_stale :: "rat \<Rightarrow> int \<Rightarrow> rat \<Rightarrow> learning_queue \<Rightarrow> delivered_job list \<times> learning_queue" where
  "reclaim_stale min_idle_ms max_deliveries now q =
     (map (\<lambda>(mid, e). redeliver now max_deliveries mid e)
        (filter (\<lambda>(mid, e). stale now min_idle_ms e) (lq_pel q)),
      q\<lparr>lq_pel := map (\<lambda>(mid, e). (mid,
          if stale now min_idle_ms e
          then e\<lparr>pe_delivery_count := pe_delivery_count e + 1, pe_last_delivered_at := now\<rparr>
          else e)) (lq_pel q)\<rparr>)"

definition finalize_dead_letter :: "delivered_job \<Rightarrow> learning_queue \<Rightarrow> learning_queue" where
  "finalize_dead_letter d q =
     (if dget (lq_pel q) (dj_message_id d) = None then q
      else q\<lparr>lq_dead := lq_dead q @ [dj_job d],
             lq_pel := dpop (dj_message_id d) (lq_pel q),
             lq_entries := dpop (dj_message_id d) (lq_entries q)\<rparr>)"

section \<open>Queue invariant\<close>

text \<open>
  The live entries are the new ids and the pending ids, no id is both, and every id ever named
  is one the counter has passed.
\<close>

definition queue_wf :: "learning_queue \<Rightarrow> bool" where
  "queue_wf q \<longleftrightarrow>
     dict_wf (lq_entries q) \<and> dict_wf (lq_pel q) \<and> distinct (lq_new q) \<and>
     (\<forall>m. dget (lq_entries q) m \<noteq> None \<longleftrightarrow> m \<in> set (lq_new q) \<or> dget (lq_pel q) m \<noteq> None) \<and>
     (\<forall>m \<in> set (lq_new q). dget (lq_pel q) m = None) \<and>
     (\<forall>m e. dget (lq_pel q) m = Some e \<longrightarrow> dget (lq_entries q) m = Some (pe_job e)) \<and>
     (\<forall>m. dget (lq_entries q) m \<noteq> None \<longrightarrow> (\<exists>n \<le> lq_counter q. m = message_id n))"

definition live_job :: "learning_queue \<Rightarrow> string \<Rightarrow> learning_job option" where
  "live_job q m = dget (lq_entries q) m"

definition in_flight :: "learning_queue \<Rightarrow> string \<Rightarrow> bool" where
  "in_flight q m \<longleftrightarrow> dget (lq_pel q) m \<noteq> None"

lemma message_id_inject [simp]: "message_id m = message_id n \<longleftrightarrow> m = n"
  by (simp add: message_id_def)

lemma queue_wf_empty [simp]: "queue_wf empty_queue"
  by (simp add: queue_wf_def empty_queue_def)

lemma fresh_id:
  assumes "queue_wf q"
  shows "dget (lq_entries q) (message_id (Suc (lq_counter q))) = None"
  using assms unfolding queue_wf_def by (metis Suc_n_not_le_n message_id_inject)

lemma queue_wf_add:
  assumes "queue_wf q"
  shows "queue_wf (q\<lparr>lq_counter := Suc (lq_counter q),
     lq_entries := dset (message_id (Suc (lq_counter q))) job (lq_entries q),
     lq_new := lq_new q @ [message_id (Suc (lq_counter q))], lq_dedup := dd\<rparr>)"
proof -
  let ?m = "message_id (Suc (lq_counter q))"
  have f: "dget (lq_entries q) ?m = None" using fresh_id[OF assms] .
  then have "?m \<notin> set (lq_new q)" and "dget (lq_pel q) ?m = None"
    using assms unfolding queue_wf_def by blast+
  with f assms show ?thesis
    unfolding queue_wf_def by (auto simp: le_Suc_eq) blast
qed

lemma queue_wf_enqueue: "queue_wf q \<Longrightarrow> queue_wf (snd (enqueue job q))"
  using queue_wf_add[where job = job] by (auto simp: enqueue_def next_id_def split: option.splits)

lemma queue_wf_enqueue_without: "queue_wf q \<Longrightarrow> queue_wf (snd (enqueue_without_dedup_mark job q))"
  using queue_wf_add[where job = job and q = q and dd = "lq_dedup q"]
  by (simp add: enqueue_without_dedup_mark_def next_id_def)

lemma queue_wf_ack: "queue_wf q \<Longrightarrow> m \<notin> set (lq_new q) \<Longrightarrow> queue_wf (ack m q)"
  unfolding queue_wf_def ack_def by (auto split: if_splits)

lemma queue_wf_finalize: "queue_wf q \<Longrightarrow> queue_wf (finalize_dead_letter d q)"
  unfolding queue_wf_def finalize_dead_letter_def by (auto split: if_splits)

lemma map_of_map_snd:
  "map_of (map (\<lambda>(k, v). (k, f v)) d) k = map_option f (map_of d k)"
  by (induction d) auto

lemma reclaim_pel:
  "dget (lq_pel (snd (reclaim_stale mi mx now q))) m =
     map_option (\<lambda>e. if stale now mi e
        then e\<lparr>pe_delivery_count := pe_delivery_count e + 1, pe_last_delivered_at := now\<rparr> else e)
       (dget (lq_pel q) m)"
  unfolding reclaim_stale_def snd_conv
  by (simp add: map_of_map_snd[where f = "\<lambda>e. if stale now mi e
        then e\<lparr>pe_delivery_count := pe_delivery_count e + 1, pe_last_delivered_at := now\<rparr> else e"])

lemma reclaim_frame [simp]:
  "lq_entries (snd (reclaim_stale mi mx now q)) = lq_entries q"
  "lq_new (snd (reclaim_stale mi mx now q)) = lq_new q"
  "lq_counter (snd (reclaim_stale mi mx now q)) = lq_counter q"
  "map fst (lq_pel (snd (reclaim_stale mi mx now q))) = map fst (lq_pel q)"
  by (simp_all add: reclaim_stale_def split_def)

lemma queue_wf_reclaim: "queue_wf q \<Longrightarrow> queue_wf (snd (reclaim_stale mi mx now q))"
  unfolding queue_wf_def by (auto simp: reclaim_pel dict_wf_def split: if_splits)

lemma consume_loop_wf:
  assumes "queue_wf (q\<lparr>lq_new := ms\<rparr>)"
  shows "queue_wf (snd (consume_loop ms cnt now i q)) \<and>
    (\<exists>ds. fst (consume_loop ms cnt now i q) = Inr ds \<and>
       map dj_message_id ds = take (cnt - i) ms \<and>
       lq_new (snd (consume_loop ms cnt now i q)) = drop (cnt - i) ms \<and>
       lq_entries (snd (consume_loop ms cnt now i q)) = lq_entries q \<and>
       (\<forall>d \<in> set ds. dget (lq_entries q) (dj_message_id d) = Some (dj_job d) \<and>
          \<not> dj_reclaimed d \<and> \<not> dj_dead_lettered d \<and> dj_delivery_count d = 1) \<and>
       (\<forall>m. in_flight (snd (consume_loop ms cnt now i q)) m \<longleftrightarrow>
          in_flight q m \<or> m \<in> set (take (cnt - i) ms)))"
  using assms
proof (induction ms arbitrary: q i)
  case Nil
  then show ?case by (simp add: in_flight_def)
next
  case (Cons mid rest)
  show ?case
  proof (cases "cnt \<le> i")
    case True
    with Cons.prems show ?thesis by (simp add: in_flight_def)
  next
    case False
    from Cons.prems obtain job where job: "dget (lq_entries q) mid = Some job"
      by (fastforce simp: queue_wf_def)
    let ?q1 = "q\<lparr>lq_pel := dset mid \<lparr>pe_job = job, pe_delivery_count = 1,
                  pe_last_delivered_at = now i\<rparr> (lq_pel q)\<rparr>"
    have wf1: "queue_wf (?q1\<lparr>lq_new := rest\<rparr>)"
      using Cons.prems job unfolding queue_wf_def by auto
    obtain r q2 where l: "consume_loop rest cnt now (Suc i) ?q1 = (r, q2)" by fastforce
    have "cnt - i = Suc (cnt - Suc i)" using False by simp
    with Cons.IH[OF wf1, of "Suc i"] l job False show ?thesis
      by (fastforce simp: in_flight_def)
  qed
qed

lemma consume_spec:
  assumes "queue_wf q"
  shows "queue_wf (snd (consume cnt now q)) \<and>
    (\<exists>ds. fst (consume cnt now q) = Inr ds \<and>
       map dj_message_id ds = take cnt (lq_new q) \<and>
       lq_new (snd (consume cnt now q)) = drop cnt (lq_new q) \<and>
       lq_entries (snd (consume cnt now q)) = lq_entries q \<and>
       (\<forall>d \<in> set ds. dget (lq_entries q) (dj_message_id d) = Some (dj_job d) \<and>
          \<not> dj_reclaimed d \<and> \<not> dj_dead_lettered d \<and> dj_delivery_count d = 1) \<and>
       (\<forall>m. in_flight (snd (consume cnt now q)) m \<longleftrightarrow> in_flight q m \<or> m \<in> set (take cnt (lq_new q))))"
  using consume_loop_wf[where q = q and ms = "lq_new q" and cnt = cnt and now = now and i = 0] assms by (simp add: consume_def)

section \<open>The stream as its clients see it\<close>

text \<open>
  The laws of the port: nothing but an ack or a finalized dead letter takes a message off the
  stream, and an id names one job for its whole life.
\<close>

locale learning_stream =
  fixes inv :: "'q \<Rightarrow> bool"
    and job_at :: "'q \<Rightarrow> string \<Rightarrow> learning_job option"
    and waiting :: "'q \<Rightarrow> string \<Rightarrow> bool"
    and enq :: "learning_job \<Rightarrow> 'q \<Rightarrow> string \<times> 'q"
    and deliver :: "nat \<Rightarrow> (nat \<Rightarrow> rat) \<Rightarrow> 'q \<Rightarrow> delivered_job list result \<times> 'q"
    and acknowledge :: "string \<Rightarrow> 'q \<Rightarrow> 'q"
    and reclaim :: "rat \<Rightarrow> int \<Rightarrow> rat \<Rightarrow> 'q \<Rightarrow> delivered_job list \<times> 'q"
    and finalize :: "delivered_job \<Rightarrow> 'q \<Rightarrow> 'q"
  assumes enq_live: "inv q \<Longrightarrow> enq j q = (m, q') \<Longrightarrow>
       inv q' \<and> (\<forall>x k. job_at q x = Some k \<longrightarrow> job_at q' x = Some k) \<and>
       (\<forall>x k. job_at q' x = Some k \<longrightarrow> job_at q x = Some k \<or> (x = m \<and> k = j))"
    and deliver_live: "inv q \<Longrightarrow> inv (snd (deliver n now q)) \<and> job_at (snd (deliver n now q)) = job_at q \<and>
       (\<forall>x. waiting (snd (deliver n now q)) x \<longrightarrow> waiting q x)"
    and ack_live: "inv q \<Longrightarrow> \<not> waiting q m \<Longrightarrow> inv (acknowledge m q) \<and>
       job_at (acknowledge m q) = (job_at q)(m := None)"
    and reclaim_live: "inv q \<Longrightarrow> inv (snd (reclaim mi mx t q)) \<and> job_at (snd (reclaim mi mx t q)) = job_at q"
    and finalize_live: "inv q \<Longrightarrow> inv (finalize d q) \<and>
       (\<forall>x. x \<noteq> dj_message_id d \<longrightarrow> job_at (finalize d q) x = job_at q x)"

datatype stream_op =
    Enq learning_job
  | Deliver nat "nat \<Rightarrow> rat"
  | Ack string
  | Reclaim rat int rat
  | Finalize delivered_job

definition stream_step :: "(learning_job \<Rightarrow> 'q \<Rightarrow> string \<times> 'q) \<Rightarrow>
    (nat \<Rightarrow> (nat \<Rightarrow> rat) \<Rightarrow> 'q \<Rightarrow> delivered_job list result \<times> 'q) \<Rightarrow> (string \<Rightarrow> 'q \<Rightarrow> 'q) \<Rightarrow>
    (rat \<Rightarrow> int \<Rightarrow> rat \<Rightarrow> 'q \<Rightarrow> delivered_job list \<times> 'q) \<Rightarrow> (delivered_job \<Rightarrow> 'q \<Rightarrow> 'q) \<Rightarrow>
    'q \<Rightarrow> stream_op \<Rightarrow> 'q" where
  "stream_step enq deliver acknowledge reclaim finalize q c = (case c of
     Enq j \<Rightarrow> snd (enq j q)
   | Deliver n now \<Rightarrow> snd (deliver n now q)
   | Ack m \<Rightarrow> acknowledge m q
   | Reclaim mi mx t \<Rightarrow> snd (reclaim mi mx t q)
   | Finalize d \<Rightarrow> finalize d q)"

text \<open>A worker acks only what it was handed: no ack of an id still waiting for its first delivery.\<close>

fun disciplined :: "('q \<Rightarrow> stream_op \<Rightarrow> 'q) \<Rightarrow> ('q \<Rightarrow> string \<Rightarrow> bool) \<Rightarrow> 'q \<Rightarrow> stream_op list \<Rightarrow> bool" where
  "disciplined step waiting q [] = True"
| "disciplined step waiting q (c # cs) =
     ((case c of Ack m \<Rightarrow> \<not> waiting q m | _ \<Rightarrow> True) \<and> disciplined step waiting (step q c) cs)"

fun settles :: "stream_op \<Rightarrow> string \<Rightarrow> bool" where
  "settles (Ack m) x = (m = x)"
| "settles (Finalize d) x = (dj_message_id d = x)"
| "settles _ x = False"

context learning_stream
begin

lemma step_keeps:
  assumes "inv q" and "case c of Ack m \<Rightarrow> \<not> waiting q m | _ \<Rightarrow> True"
  shows "inv (stream_step enq deliver acknowledge reclaim finalize q c) \<and>
    (\<not> settles c x \<longrightarrow> job_at q x = Some k \<longrightarrow>
       job_at (stream_step enq deliver acknowledge reclaim finalize q c) x = Some k)"
proof (cases c)
  case (Enq j)
  obtain m q' where e: "enq j q = (m, q')" by fastforce
  from enq_live[OF assms(1) e] e Enq show ?thesis by (simp add: stream_step_def)
next
  case (Deliver n now)
  with deliver_live[OF assms(1), of n now] show ?thesis by (simp add: stream_step_def)
next
  case (Ack m)
  with ack_live[OF assms(1), of m] assms(2) show ?thesis by (simp add: stream_step_def)
next
  case (Reclaim mi mx t)
  with reclaim_live[OF assms(1), of mi mx t] show ?thesis by (simp add: stream_step_def)
next
  case (Finalize d)
  with finalize_live[OF assms(1), of d] show ?thesis by (simp add: stream_step_def)
qed

lemma run_keeps:
  assumes "inv q" and "disciplined (stream_step enq deliver acknowledge reclaim finalize) waiting q cs"
    and "job_at q x = Some k" and "\<forall>c \<in> set cs. \<not> settles c x"
  shows "job_at (foldl (stream_step enq deliver acknowledge reclaim finalize) q cs) x = Some k"
  using assms
proof (induction cs arbitrary: q)
  case Nil
  then show ?case by simp
next
  case (Cons c cs)
  then have ok: "case c of Ack m \<Rightarrow> \<not> waiting q m | _ \<Rightarrow> True" by simp
  from step_keeps[OF Cons.prems(1) ok] Cons.prems Cons.IH show ?case by simp
qed

end

definition never_delivered :: "learning_queue \<Rightarrow> string \<Rightarrow> bool" where
  "never_delivered q m \<longleftrightarrow> m \<in> set (lq_new q)"

lemma enqueue_live:
  assumes "queue_wf q" and "enqueue j q = (m, q')"
  shows "queue_wf q' \<and> (\<forall>x k. live_job q x = Some k \<longrightarrow> live_job q' x = Some k) \<and>
     (\<forall>x k. live_job q' x = Some k \<longrightarrow> live_job q x = Some k \<or> (x = m \<and> k = j))"
  using queue_wf_enqueue[OF assms(1), of j] assms(2) fresh_id[OF assms(1)]
  by (auto simp: enqueue_def next_id_def live_job_def split: option.splits if_splits)

lemma consume_live:
  assumes "queue_wf q"
  shows "queue_wf (snd (consume n now q)) \<and> live_job (snd (consume n now q)) = live_job q \<and>
     (\<forall>x. never_delivered (snd (consume n now q)) x \<longrightarrow> never_delivered q x)"
  using consume_spec[OF assms, of n now] by (auto simp: live_job_def fun_eq_iff never_delivered_def dest: in_set_dropD)

interpretation mq: learning_stream queue_wf live_job never_delivered enqueue consume ack
    reclaim_stale finalize_dead_letter
proof
  show "queue_wf q \<Longrightarrow> \<not> never_delivered q m \<Longrightarrow> queue_wf (ack m q) \<and> live_job (ack m q) = (live_job q)(m := None)"
    for q m using queue_wf_ack by (auto simp: never_delivered_def live_job_def ack_def)
  show "queue_wf q \<Longrightarrow> queue_wf (snd (reclaim_stale mi mx t q)) \<and> live_job (snd (reclaim_stale mi mx t q)) = live_job q"
    for q mi mx t using queue_wf_reclaim by (auto simp: live_job_def)
  show "queue_wf q \<Longrightarrow> queue_wf (finalize_dead_letter d q) \<and>
       (\<forall>x. x \<noteq> dj_message_id d \<longrightarrow> live_job (finalize_dead_letter d q) x = live_job q x)"
    for q d using queue_wf_finalize by (auto simp: live_job_def finalize_dead_letter_def)
qed (use enqueue_live consume_live in blast)+

abbreviation queue_step :: "learning_queue \<Rightarrow> stream_op \<Rightarrow> learning_queue" where
  "queue_step \<equiv> stream_step enqueue consume ack reclaim_stale finalize_dead_letter"

text \<open>
  C30: the queue delivers at least once. However enqueues, deliveries, reclaims, acks and
  dead-letter moves interleave, a job put on the stream is still there, under its id, until that
  very id is acked or finalized.
\<close>

theorem queue_at_least_once:
  assumes "queue_wf q" and "enqueue j q = (m, q')" and "live_job q' m = Some j"
    and "disciplined queue_step never_delivered q' cs" and "\<forall>c \<in> set cs. \<not> settles c m"
  shows "live_job (foldl queue_step q' cs) m = Some j"
  using mq.run_keeps[OF _ assms(4,3,5)] enqueue_live[OF assms(1,2)] by blast

definition sample_job :: "string \<Rightarrow> string \<Rightarrow> learning_job" where
  "sample_job sid h = \<lparr>lj_session_id = sid, lj_couchbase_doc_id = ''session::'' @ sid, lj_content_hash = h,
     lj_cas = None, lj_user_id = None, lj_scope_ref = None, lj_trace_id = None,
     lj_session_closed_at = None, lj_traceparent = None\<rparr>"

theorem queue_at_least_once_witness:
  "\<exists>m q'. enqueue (sample_job ''s1'' ''h'') empty_queue = (m, q') \<and>
     live_job (foldl queue_step q' [Deliver 1 (\<lambda>_. 0), Reclaim 1000 1 5, Ack ''7-0'']) m = Some (sample_job ''s1'' ''h'')"
proof -
  let ?q = "snd (enqueue (sample_job ''s1'' ''h'') empty_queue)"
  let ?cs = "[Deliver 1 (\<lambda>_. 0), Reclaim 1000 1 5, Ack ''7-0'']"
  have s: "show_nat (Suc 0) = ''1''" by code_simp
  have e: "enqueue (sample_job ''s1'' ''h'') empty_queue = (message_id 1, ?q)"
    by (simp add: enqueue_def empty_queue_def next_id_def)
  have live: "live_job ?q (message_id 1) = Some (sample_job ''s1'' ''h'')"
    by (simp add: enqueue_def empty_queue_def next_id_def live_job_def)
  have d: "disciplined queue_step never_delivered ?q ?cs"
    by (simp add: stream_step_def never_delivered_def enqueue_def empty_queue_def next_id_def
        consume_def Let_def)
  have n: "\<forall>c \<in> set ?cs. \<not> settles c (message_id 1)"
    by (simp add: message_id_def s)
  show ?thesis using queue_at_least_once[OF queue_wf_empty e live d n] e by blast
qed

section \<open>Delivery\<close>

lemma consume_fresh:
  assumes "queue_wf q"
  shows "\<exists>ds. fst (consume n now q) = Inr ds \<and>
    map dj_message_id ds = take n (lq_new q) \<and>
    lq_new (snd (consume n now q)) = drop n (lq_new q) \<and>
    set (map dj_message_id ds) \<inter> set (lq_new (snd (consume n now q))) = {} \<and>
    (\<forall>d \<in> set ds. live_job q (dj_message_id d) = Some (dj_job d) \<and> \<not> in_flight q (dj_message_id d) \<and>
       in_flight (snd (consume n now q)) (dj_message_id d))"
proof -
  obtain ds where ds: "fst (consume n now q) = Inr ds" "map dj_message_id ds = take n (lq_new q)"
      "lq_new (snd (consume n now q)) = drop n (lq_new q)"
      "\<forall>d \<in> set ds. dget (lq_entries q) (dj_message_id d) = Some (dj_job d)"
      "\<forall>m. in_flight (snd (consume n now q)) m \<longleftrightarrow> in_flight q m \<or> m \<in> set (take n (lq_new q))"
    using consume_spec[OF assms, of n now] by blast
  have ids: "dj_message_id d \<in> set (take n (lq_new q))" if "d \<in> set ds" for d
    using that ds(2) by (metis image_eqI list.set_map)
  have "distinct (lq_new q)" using assms by (simp add: queue_wf_def)
  then have "set (take n (lq_new q)) \<inter> set (drop n (lq_new q)) = {}"
    by (metis append_take_drop_id distinct_append)
  moreover have "\<not> in_flight q m" if "m \<in> set (take n (lq_new q))" for m
    using assms that by (auto simp: queue_wf_def in_flight_def dest: in_set_takeD)
  moreover from calculation(1) have "set (map dj_message_id ds) \<inter> set (lq_new (snd (consume n now q))) = {}"
    by (simp only: ds(2,3))
  ultimately show ?thesis using ds ids unfolding live_job_def by blast
qed

text \<open>
  A first delivery happens once per message and in order: \<open>consume\<close> hands out the oldest
  never-delivered ids, as many as asked for, moves exactly those into flight, and leaves the
  others, so no later \<open>consume\<close> can hand them out again as new.
\<close>

theorem consume_first_delivery:
  assumes "queue_wf q"
  shows "\<exists>ds. fst (consume n now q) = Inr ds \<and>
    map dj_message_id ds = take n (lq_new q) \<and>
    lq_new (snd (consume n now q)) = drop n (lq_new q) \<and>
    set (map dj_message_id ds) \<inter> set (lq_new (snd (consume n now q))) = {} \<and>
    (\<forall>d \<in> set ds. live_job q (dj_message_id d) = Some (dj_job d) \<and> \<not> in_flight q (dj_message_id d) \<and>
       in_flight (snd (consume n now q)) (dj_message_id d))"
  using assms by (rule consume_fresh)

theorem consume_first_delivery_witness:
  "\<exists>ds. fst (consume 1 (\<lambda>_. 0) (snd (enqueue (sample_job ''s1'' ''h'') empty_queue))) = Inr ds \<and>
     map dj_message_id ds = [message_id 1]"
proof -
  have wf: "queue_wf (snd (enqueue (sample_job ''s1'' ''h'') empty_queue))"
    by (rule queue_wf_enqueue) simp
  have "lq_new (snd (enqueue (sample_job ''s1'' ''h'') empty_queue)) = [message_id 1]"
    by (simp add: enqueue_def empty_queue_def next_id_def)
  with consume_first_delivery[OF wf, of 1 "\<lambda>_. 0"] show ?thesis by auto
qed

lemma reclaim_stale_exact:
  assumes "queue_wf q"
  shows "(\<forall>d. d \<in> set (fst (reclaim_stale mi mx now q)) \<longleftrightarrow>
       (\<exists>e. dget (lq_pel q) (dj_message_id d) = Some e \<and> mi \<le> (now - pe_last_delivered_at e) * 1000 \<and>
          dj_job d = pe_job e \<and> dj_delivery_count d = pe_delivery_count e + 1 \<and> dj_reclaimed d \<and>
          dj_dead_lettered d = (mx < dj_delivery_count d))) \<and>
    (\<forall>m. live_job (snd (reclaim_stale mi mx now q)) m = live_job q m) \<and>
    (\<forall>m. map_option pe_delivery_count (dget (lq_pel (snd (reclaim_stale mi mx now q))) m) =
       map_option (\<lambda>e. if mi \<le> (now - pe_last_delivered_at e) * 1000
                       then pe_delivery_count e + 1 else pe_delivery_count e) (dget (lq_pel q) m))"
proof -
  have pel: "(m, e) \<in> set (lq_pel q) \<longleftrightarrow> dget (lq_pel q) m = Some e" for m e
    using assms by (simp add: queue_wf_def dget_mem)
  have "d \<in> set (fst (reclaim_stale mi mx now q)) \<longleftrightarrow>
      (\<exists>m e. dget (lq_pel q) m = Some e \<and> stale now mi e \<and> d = redeliver now mx m e)" for d
    by (auto simp: reclaim_stale_def pel) blast
  also have "\<dots>d \<longleftrightarrow> (\<exists>e. dget (lq_pel q) (dj_message_id d) = Some e \<and> mi \<le> (now - pe_last_delivered_at e) * 1000 \<and>
          dj_job d = pe_job e \<and> dj_delivery_count d = pe_delivery_count e + 1 \<and> dj_reclaimed d \<and>
          dj_dead_lettered d = (mx < dj_delivery_count d))" for d
    by (cases d) (auto simp: redeliver_def stale_def not_less)
  finally show ?thesis
    by (auto simp: live_job_def reclaim_pel stale_def not_less option.map_comp comp_def intro!: option.map_cong0)
qed

definition sample_in_flight :: learning_queue where
  "sample_in_flight = \<lparr>lq_counter = 1, lq_entries = [(message_id 1, sample_job ''s1'' ''h'')], lq_new = [],
     lq_pel = [(message_id 1, \<lparr>pe_job = sample_job ''s1'' ''h'', pe_delivery_count = 1, pe_last_delivered_at = 5\<rparr>)],
     lq_dedup = [], lq_dead = []\<rparr>"

lemma sample_in_flight_wf: "queue_wf sample_in_flight"
  by (auto simp: sample_in_flight_def queue_wf_def dict_wf_def split: if_splits)

text \<open>
  Reclaiming reports exactly the in-flight messages idle for at least the minimum, each with
  its delivery count raised by one and marked reclaimed, and as dead-lettered exactly when that
  count passes the maximum; it removes nothing, and the counts of the others stand.
\<close>

theorem reclaim_stale_spec:
  assumes "queue_wf q"
  shows "(\<forall>d. d \<in> set (fst (reclaim_stale mi mx now q)) \<longleftrightarrow>
       (\<exists>e. dget (lq_pel q) (dj_message_id d) = Some e \<and> mi \<le> (now - pe_last_delivered_at e) * 1000 \<and>
          dj_job d = pe_job e \<and> dj_delivery_count d = pe_delivery_count e + 1 \<and> dj_reclaimed d \<and>
          dj_dead_lettered d = (mx < dj_delivery_count d))) \<and>
    (\<forall>m. live_job (snd (reclaim_stale mi mx now q)) m = live_job q m) \<and>
    (\<forall>m. map_option pe_delivery_count (dget (lq_pel (snd (reclaim_stale mi mx now q))) m) =
       map_option (\<lambda>e. if mi \<le> (now - pe_last_delivered_at e) * 1000
                       then pe_delivery_count e + 1 else pe_delivery_count e) (dget (lq_pel q) m))"
  using assms by (rule reclaim_stale_exact)

theorem reclaim_stale_spec_witness:
  "fst (reclaim_stale 1000 1 9 sample_in_flight) =
     [\<lparr>dj_message_id = message_id 1, dj_job = sample_job ''s1'' ''h'', dj_delivery_count = 2,
       dj_dead_lettered = True, dj_reclaimed = True\<rparr>] \<and>
   live_job (snd (reclaim_stale 1000 1 9 sample_in_flight)) (message_id 1) = Some (sample_job ''s1'' ''h'')"
proof -
  have "live_job sample_in_flight (message_id 1) = Some (sample_job ''s1'' ''h'')"
    by (simp add: sample_in_flight_def live_job_def)
  moreover have "fst (reclaim_stale 1000 1 9 sample_in_flight) =
     [\<lparr>dj_message_id = message_id 1, dj_job = sample_job ''s1'' ''h'', dj_delivery_count = 2,
       dj_dead_lettered = True, dj_reclaimed = True\<rparr>]"
    by (simp add: sample_in_flight_def reclaim_stale_def stale_def redeliver_def)
  ultimately show ?thesis using reclaim_stale_spec[OF sample_in_flight_wf, of 1000 1 9] by simp
qed

text \<open>Enqueueing the same content twice is one message.\<close>

lemma enqueue_idempotent:
  "enqueue j q = (m, q') \<Longrightarrow> lj_content_hash j' = lj_content_hash j \<Longrightarrow> enqueue j' q' = (m, q')"
  by (auto simp: enqueue_def next_id_def Let_def split: option.splits)

end
