(* ===== verification/LearningWorkers.thy ===== *)
theory LearningWorkers
  imports SessionStore LearningQueue
begin

text \<open>
  The two workers of the learning loop: one cycle of \<^verbatim>\<open>learning/sweeper.py\<close> (claim an idle
  session, put its reference on the stream, mark it queued) and of \<^verbatim>\<open>learning/consumer.py\<close>
  (reclaim and consume, decide the claim, work, mark done, ack; or dead-letter). Both run on one
  world: the session store and the queue. The work between claim and done (summary, triage,
  extraction) is the parameter \<open>work\<close>: it reads the document, the delivery and the store,
  changes only the learning plane, and may raise. Logging and spans are left out.
\<close>

record 'l world =
  w_store :: session_store
  w_queue :: learning_queue
  w_plane :: 'l

abbreviation tls :: "(int, session_store) store_op" where
  "tls \<equiv> transition_learning_status"

section \<open>Sweeper\<close>

record sweep_result =
  sr_scanned :: nat
  sr_claimed :: nat
  sr_enqueued :: nat
  sr_disabled :: bool

definition disabled_sweep :: sweep_result where
  "disabled_sweep = \<lparr>sr_scanned = 0, sr_claimed = 0, sr_enqueued = 0, sr_disabled = True\<rparr>"

text \<open>
  One idle session. \<open>xadd d = Some e\<close> is a queue that raises \<open>e\<close> instead of adding; \<open>tp\<close> is the
  trace context of the enqueue span, if a tracer is wired. Any exception skips the session: the
  result is how many claims and enqueues it adds to the counters.
\<close>

definition sweep_one :: "(string \<Rightarrow> string) \<Rightarrow> (session_doc \<Rightarrow> exc option) \<Rightarrow> (session_doc \<Rightarrow> string option) \<Rightarrow>
    session_doc \<times> int \<Rightarrow> 'l world \<Rightarrow> (nat \<times> nat) \<times> 'l world" where
  "sweep_one digest xadd tp dc w = (case dc of (d, cas) \<Rightarrow>
     let sid = sd_session_id d;
         active = (sd_learning_status d = ACTIVE);
         (r1, st1) = (if active then transition tls sid ACTIVE PENDING cas None True (w_store w)
                      else (Inr cas, w_store w));
         w1 = w\<lparr>w_store := st1\<rparr>
     in case r1 of
          Inl e \<Rightarrow> ((0, 0), w1)
        | Inr cas1 \<Rightarrow>
            (let claimed = (if active then 1 else 0);
                 h = compute_content_hash digest d
             in case xadd d of
                  Some e \<Rightarrow> ((claimed, 0), w1)
                | None \<Rightarrow>
                    (let (mid, q1) = enqueue (job_from_doc d h (Some cas1) (tp d)) (w_queue w1);
                         (r2, st2) = transition tls sid PENDING QUEUED cas1 (Some h) True st1;
                         w2 = w1\<lparr>w_store := st2, w_queue := q1\<rparr>
                     in case r2 of Inl e \<Rightarrow> ((claimed, 0), w2) | Inr c \<Rightarrow> ((claimed, 1), w2))))"

fun sweep_all :: "(string \<Rightarrow> string) \<Rightarrow> (session_doc \<Rightarrow> exc option) \<Rightarrow> (session_doc \<Rightarrow> string option) \<Rightarrow>
    (session_doc \<times> int) list \<Rightarrow> 'l world \<Rightarrow> (nat \<times> nat) \<times> 'l world" where
  "sweep_all digest xadd tp [] w = ((0, 0), w)"
| "sweep_all digest xadd tp (dc # dcs) w =
     (let ((c1, e1), w1) = sweep_one digest xadd tp dc w;
          ((c2, e2), w2) = sweep_all digest xadd tp dcs w1
      in ((c1 + c2, e1 + e2), w2))"

definition sweep_run_once :: "bool \<Rightarrow> (string \<Rightarrow> string) \<Rightarrow> (session_doc \<Rightarrow> exc option) \<Rightarrow>
    (session_doc \<Rightarrow> string option) \<Rightarrow> string \<Rightarrow> nat \<Rightarrow> 'l world \<Rightarrow> sweep_result result \<times> 'l world" where
  "sweep_run_once enabled digest xadd tp cutoff limit w =
     (if \<not> enabled then (Inr disabled_sweep, w)
      else case scan_idle_sessions SWEEPABLE_STATUSES cutoff limit (w_store w) of
        Inl e \<Rightarrow> (Inl e, w)
      | Inr idle \<Rightarrow>
          (let ((c, e), w1) = sweep_all digest xadd tp idle w
           in (Inr \<lparr>sr_scanned = length idle, sr_claimed = c, sr_enqueued = e, sr_disabled = False\<rparr>, w1)))"

section \<open>Consumer\<close>

datatype claim_kind = Forward | Recover | Refuse | Terminal

definition claim_decision :: "string \<Rightarrow> bool \<Rightarrow> claim_kind \<times> string" where
  "claim_decision status reclaimed =
     (if status = QUEUED then (Forward, ''queued'')
      else if status = PROCESSING then
        (if reclaimed then (Recover, ''reclaimed_processing'')
         else (Refuse, ''processing_owner_may_be_live''))
      else if status = DONE then (Recover, ''done_content_changed'')
      else if status \<in> {ACTIVE, PENDING} then (Refuse, ''not_yet_claimable'')
      else if status = DEAD_LETTER then (Terminal, ''dead_letter'')
      else (Terminal, ''unknown_status''))"

type_synonym 'l work = "session_doc \<Rightarrow> delivered_job \<Rightarrow> session_store \<Rightarrow> 'l \<Rightarrow> unit result \<times> 'l"

text \<open>
  One delivery. \<open>env i\<close> is what other processes do to the whole system, store and queue, while this
  one awaits: \<open>env 0\<close> between the read and the next call, \<open>env 1\<close> during the work, \<open>env 2\<close> between
  the write of \<open>done\<close> and the ack, which looks at nothing. A lost CAS is a skip without an ack; an
  exception of the work leaves the session in \<open>processing\<close> and the message unacked.
\<close>

definition acked :: "string \<Rightarrow> 'l world \<Rightarrow> 'l world" where
  "acked mid w = w\<lparr>w_queue := ack mid (w_queue w)\<rparr>"

definition process :: "(string \<Rightarrow> string) \<Rightarrow> 'l work \<Rightarrow> (nat \<Rightarrow> 'l world \<Rightarrow> 'l world) \<Rightarrow> clock \<Rightarrow>
    delivered_job \<Rightarrow> 'l world \<Rightarrow> string result \<times> 'l world" where
  "process digest work env clk dj w =
     (let job = dj_job dj; sid = lj_session_id job; mid = dj_message_id dj;
          (r0, st0) = get_session_with_cas clk sid (w_store w);
          w0 = w\<lparr>w_store := st0\<rparr>
      in case r0 of
           Inl e \<Rightarrow> (Inl e, w0)
         | Inr (d, cas) \<Rightarrow>
             (let status = sd_learning_status d in
              if status = DONE \<and> sd_learning_content_hash d = Some (lj_content_hash job)
              then (Inr ''dedup_skip'', acked mid (env 0 w0))
              else
                (let (claim, reason) = claim_decision status (dj_reclaimed dj) in
                 if claim = Terminal then (Inr ''ack_terminal'', acked mid (env 0 w0))
                 else if claim = Refuse then (Inr ''skip'', w0)
                 else
                   (let we = env 0 w0;
                        (r1, st1) =
                          (if claim = Forward
                           then transition tls sid QUEUED PROCESSING cas None True (w_store we)
                           else recover_to_processing tls sid status cas (w_store we));
                        w1 = we\<lparr>w_store := st1\<rparr>
                    in case r1 of
                         Inl e \<Rightarrow> (if e = CASMismatchError then (Inr ''skip'', w1) else (Inl e, w1))
                       | Inr cas1 \<Rightarrow>
                           (let (rw, plane) = work d dj (w_store w1) (w_plane w1);
                                w2 = env 1 (w1\<lparr>w_plane := plane\<rparr>)
                            in case rw of
                                 Inl e \<Rightarrow> (Inl e, w2)
                               | Inr _ \<Rightarrow>
                                   (let fresh = compute_content_hash digest d;
                                        (r3, st3) = transition tls sid PROCESSING DONE cas1 (Some fresh) True (w_store w2);
                                        w3 = w2\<lparr>w_store := st3\<rparr>
                                    in case r3 of
                                         Inl e \<Rightarrow> (if e = CASMismatchError then (Inr ''skip'', w3) else (Inl e, w3))
                                       | Inr _ \<Rightarrow> (Inr ''done'', acked mid (env 2 w3))))))))"

definition handle_dead_letter :: "(nat \<Rightarrow> 'l world \<Rightarrow> 'l world) \<Rightarrow> clock \<Rightarrow> delivered_job \<Rightarrow>
    'l world \<Rightarrow> string result \<times> 'l world" where
  "handle_dead_letter env clk dj w =
     (let sid = lj_session_id (dj_job dj);
          (r0, st0) = get_session_with_cas clk sid (w_store w);
          w0 = w\<lparr>w_store := st0\<rparr>
      in case r0 of
           Inl e \<Rightarrow> (Inl e, w0)
         | Inr (d, cas) \<Rightarrow>
             (let we = env 0 w0 in
              if sd_learning_status d \<in> {DONE, DEAD_LETTER}
              then (Inr ''ack_terminal'', acked (dj_message_id dj) we)
              else
                (let (r1, st1) = transition tls sid (sd_learning_status d) DEAD_LETTER cas None False (w_store we);
                     w1 = we\<lparr>w_store := st1\<rparr>
                 in case r1 of
                      Inl e \<Rightarrow> (if e = CASMismatchError then (Inr ''skip'', w1) else (Inl e, w1))
                    | Inr _ \<Rightarrow> (let w2 = env 1 w1
                        in (Inr ''dead_letter'', w2\<lparr>w_queue := finalize_dead_letter dj (w_queue w2)\<rparr>)))))"

record tally =
  t_done :: nat
  t_dedup :: nat
  t_dead :: nat
  t_skipped :: nat

definition zero_tally :: tally where
  "zero_tally = \<lparr>t_done = 0, t_dedup = 0, t_dead = 0, t_skipped = 0\<rparr>"

definition tally_record :: "string \<Rightarrow> tally \<Rightarrow> tally" where
  "tally_record outcome t =
     (if outcome = ''done'' then t\<lparr>t_done := t_done t + 1\<rparr>
      else if outcome = ''dedup_skip'' then t\<lparr>t_dedup := t_dedup t + 1\<rparr>
      else if outcome = ''dead_letter'' then t\<lparr>t_dead := t_dead t + 1\<rparr>
      else t\<lparr>t_skipped := t_skipped t + 1\<rparr>)"

definition dispatch :: "(string \<Rightarrow> string) \<Rightarrow> 'l work \<Rightarrow> (nat \<Rightarrow> 'l world \<Rightarrow> 'l world) \<Rightarrow> clock \<Rightarrow>
    delivered_job \<Rightarrow> tally \<times> 'l world \<Rightarrow> tally \<times> 'l world" where
  "dispatch digest work env clk dj tw = (case tw of (t, w) \<Rightarrow>
     (case (if dj_dead_lettered dj then handle_dead_letter env clk dj w
            else process digest work env clk dj w) of
        (Inl e, w') \<Rightarrow> (t\<lparr>t_skipped := t_skipped t + 1\<rparr>, w')
      | (Inr outcome, w') \<Rightarrow> (tally_record outcome t, w')))"

record consume_result =
  cr_done :: nat
  cr_dedup_skips :: nat
  cr_dead_letters :: nat
  cr_skipped :: nat
  cr_disabled :: bool

record consumer_settings =
  cs_reclaim_min_idle_seconds :: int
  cs_max_deliveries :: int
  cs_batch_size :: nat

definition consumer_run_once :: "bool \<Rightarrow> consumer_settings \<Rightarrow> (string \<Rightarrow> string) \<Rightarrow> 'l work \<Rightarrow>
    (nat \<Rightarrow> 'l world \<Rightarrow> 'l world) \<Rightarrow> clock \<Rightarrow> (nat \<Rightarrow> rat) \<Rightarrow> (nat \<Rightarrow> rat) \<Rightarrow> 'l world \<Rightarrow>
    consume_result result \<times> 'l world" where
  "consumer_run_once enabled s digest work env clk now now' w =
     (if \<not> enabled
      then (Inr \<lparr>cr_done = 0, cr_dedup_skips = 0, cr_dead_letters = 0, cr_skipped = 0, cr_disabled = True\<rparr>, w)
      else
        let (reclaimed, q1) = reclaim_stale (of_int (cs_reclaim_min_idle_seconds s * 1000))
                                (cs_max_deliveries s) (now 0) (w_queue w);
            (t1, w1) = fold (dispatch digest work env clk) reclaimed (zero_tally, w\<lparr>w_queue := q1\<rparr>);
            (rb, q2) = consume (cs_batch_size s) now' (w_queue w1);
            w2 = w1\<lparr>w_queue := q2\<rparr>
        in case rb of
             Inl e \<Rightarrow> (Inl e, w2)
           | Inr batch \<Rightarrow>
               (let (t2, w3) = fold (dispatch digest work env clk) batch (t1, w2)
                in (Inr \<lparr>cr_done = t_done t2, cr_dedup_skips = t_dedup t2, cr_dead_letters = t_dead t2,
                         cr_skipped = t_skipped t2, cr_disabled = False\<rparr>, w3)))"

end
