(* ===== verification/LearningLifecycle.thy ===== *)
theory LearningLifecycle
  imports LearningWorkers
begin

text \<open>
  The lifecycle the workers promise, as a step relation: every step is one atomic effect on the
  store or on the queue (a user's write, a CAS, an add, an ack), and the steps of any number of
  sweepers and consumers interleave; a crash is a worker whose later steps never happen. An ack is
  not atomic with what it rests on: a worker sees a session finished at one step and acks its message
  at a later one, with any steps in between. So two sets accompany the world: the acks that are due
  or done, and the sessions claimed again through a message whose ack was due. The workers'
  functions are shown to be sequences of these steps, so the invariant holds between any two of
  their effects.
\<close>

text \<open>
  \<open>D\<close> are the session documents the sweepers hash. The digest tells the sessions of \<open>D\<close> apart;
  an unrestricted statement would be false of any fixed-length digest.
\<close>

definition collision_free :: "(string \<Rightarrow> string) \<Rightarrow> session_doc set \<Rightarrow> bool" where
  "collision_free digest D \<longleftrightarrow> (\<forall>d \<in> D. \<forall>d' \<in> D.
     compute_content_hash digest d = compute_content_hash digest d' \<longrightarrow> sd_session_id d = sd_session_id d')"

text \<open>What the request path may do to a document: anything but its id, status and recorded hash.\<close>

definition request_write :: "(session_doc \<Rightarrow> session_doc) \<Rightarrow> bool" where
  "request_write f \<longleftrightarrow> (\<forall>d. sd_session_id (f d) = sd_session_id d \<and>
     sd_learning_status (f d) = sd_learning_status d \<and>
     sd_learning_content_hash (f d) = sd_learning_content_hash d)"

definition unfinished :: "string set" where
  "unfinished = {ACTIVE, PENDING, QUEUED, PROCESSING}"

text \<open>
  The system: the world, the pairs of a message and the session that some worker has seen finished (its
  ack is due, or done), and the sessions whose last claim came through such a message.
\<close>

type_synonym 'l fleet = "'l world \<times> (string \<times> string) set \<times> string set"

text \<open>A worker holds the job of a message: it is on the stream, or it has been there until an ack.\<close>

definition holds :: "'l world \<Rightarrow> (string \<times> string) set \<Rightarrow> string \<Rightarrow> learning_job \<Rightarrow> bool" where
  "holds w due m j \<longleftrightarrow> live_job (w_queue w) m = Some j \<or> (m, lj_session_id j) \<in> due"

inductive lstep :: "(string \<Rightarrow> string) \<Rightarrow> session_doc set \<Rightarrow> 'l fleet \<Rightarrow> 'l fleet \<Rightarrow> bool"
  for digest :: "string \<Rightarrow> string" and D :: "session_doc set" where
  user: "request_write f \<Longrightarrow> lstep digest D (w, due, over) (w\<lparr>w_store := mutate clk sid f (w_store w)\<rparr>, due, over)"
| create: "lstep digest D (w, due, over) (w\<lparr>w_store := snd (get_or_create_session clk sid (w_store w))\<rparr>, due, over)"
| claim: "transition tls sid ACTIVE PENDING cas None True (w_store w) = (Inr c, st) \<Longrightarrow>
    lstep digest D (w, due, over) (w\<lparr>w_store := st\<rparr>, due, over)"
| add: "d \<in> D \<Longrightarrow> status_of (w_store w) (sd_session_id d) \<noteq> None \<Longrightarrow>
    enqueue (job_from_doc d (compute_content_hash digest d) cas tp) (w_queue w) = (m, q) \<Longrightarrow>
    lstep digest D (w, due, over) (w\<lparr>w_queue := q\<rparr>, due, over)"
| queued: "d \<in> D \<Longrightarrow> dget (lq_dedup (w_queue w)) (compute_content_hash digest d) \<noteq> None \<Longrightarrow>
    transition tls (sd_session_id d) PENDING QUEUED cas (Some (compute_content_hash digest d)) True
      (w_store w) = (Inr c, st) \<Longrightarrow>
    lstep digest D (w, due, over) (w\<lparr>w_store := st\<rparr>, due, over)"
| take: "holds w due m j \<Longrightarrow>
    transition tls (lj_session_id j) QUEUED PROCESSING cas None True (w_store w) = (Inr c, st) \<or>
    recover_to_processing tls (lj_session_id j) f cas (w_store w) = (Inr c, st) \<Longrightarrow>
    lstep digest D (w, due, over) (w\<lparr>w_store := st\<rparr>, due,
      if (m, lj_session_id j) \<in> due then insert (lj_session_id j) over else over - {lj_session_id j})"
| finish: "transition tls sid PROCESSING DONE cas h True (w_store w) = (Inr c, st) \<Longrightarrow>
    lstep digest D (w, due, over) (w\<lparr>w_store := st\<rparr>, due, over)"
| bury: "transition tls sid f DEAD_LETTER cas None False (w_store w) = (Inr c, st) \<Longrightarrow>
    lstep digest D (w, due, over) (w\<lparr>w_store := st\<rparr>, due, over)"
| seen: "holds w due m j \<Longrightarrow> \<not> never_delivered (w_queue w) m \<Longrightarrow>
    status_of (w_store w) (lj_session_id j) = Some s \<Longrightarrow> s \<notin> unfinished \<Longrightarrow>
    lstep digest D (w, due, over) (w, insert (m, lj_session_id j) due, over)"
| settle: "(m, sid) \<in> due \<Longrightarrow>
    q = ack m (w_queue w) \<or> (q = finalize_dead_letter dj (w_queue w) \<and> dj_message_id dj = m) \<Longrightarrow>
    lstep digest D (w, due, over) (w\<lparr>w_queue := q\<rparr>, due, over)"
| deliver: "lstep digest D (w, due, over) (w\<lparr>w_queue := snd (consume n now (w_queue w))\<rparr>, due, over)"
| redelivery: "lstep digest D (w, due, over) (w\<lparr>w_queue := snd (reclaim_stale mi mx t (w_queue w))\<rparr>, due, over)"
| plane: "lstep digest D (w, due, over) (w\<lparr>w_plane := p\<rparr>, due, over)"

abbreviation lsteps :: "(string \<Rightarrow> string) \<Rightarrow> session_doc set \<Rightarrow> 'l fleet \<Rightarrow> 'l fleet \<Rightarrow> bool" where
  "lsteps digest D \<equiv> (lstep digest D)\<^sup>*\<^sup>*"

section \<open>No stranded work\<close>

text \<open>A message that names the session and that nobody is about to ack.\<close>

definition named :: "'l world \<Rightarrow> (string \<times> string) set \<Rightarrow> string \<Rightarrow> bool" where
  "named w due sid \<longleftrightarrow> (\<exists>m j. live_job (w_queue w) m = Some j \<and> lj_session_id j = sid \<and> (m, sid) \<notin> due)"

definition no_stranded :: "'l fleet \<Rightarrow> bool" where
  "no_stranded F \<longleftrightarrow> (case F of (w, due, over) \<Rightarrow> \<forall>sid. status_of (w_store w) sid = Some QUEUED \<or>
     status_of (w_store w) sid = Some PROCESSING \<and> sid \<notin> over \<longrightarrow> named w due sid)"

text \<open>A dedup mark stands for a live message of its session, or for a session past \<open>queued\<close>.\<close>

definition marks_ok :: "(string \<Rightarrow> string) \<Rightarrow> session_doc set \<Rightarrow> 'l world \<Rightarrow> bool" where
  "marks_ok digest D w \<longleftrightarrow> (\<forall>d \<in> D. \<forall>m.
     dget (lq_dedup (w_queue w)) (compute_content_hash digest d) = Some m \<longrightarrow>
       (\<exists>s. status_of (w_store w) (sd_session_id d) = Some s \<and>
         ((\<exists>j. live_job (w_queue w) m = Some j \<and> lj_session_id j = sd_session_id d) \<or>
          s \<notin> {ACTIVE, PENDING, QUEUED})))"

text \<open>An id the queue has handed out: never again the id of a new message.\<close>

definition handed :: "learning_queue \<Rightarrow> string \<Rightarrow> bool" where
  "handed q m \<longleftrightarrow> \<not> never_delivered q m \<and> (\<exists>n \<le> lq_counter q. m = message_id n)"

text \<open>An ack is due only for a session that is past \<open>queued\<close> for good, and for a message that names it.\<close>

definition due_at :: "'l world \<Rightarrow> string \<Rightarrow> string \<Rightarrow> bool" where
  "due_at w m sid \<longleftrightarrow> handed (w_queue w) m \<and>
     (\<exists>s. status_of (w_store w) sid = Some s \<and> s \<notin> {ACTIVE, PENDING, QUEUED}) \<and>
     (\<forall>j. live_job (w_queue w) m = Some j \<longrightarrow> lj_session_id j = sid)"

definition due_ok :: "'l world \<Rightarrow> (string \<times> string) set \<Rightarrow> bool" where
  "due_ok w due \<longleftrightarrow> (\<forall>(m, sid) \<in> due. due_at w m sid)"

lemma due_okI: "(\<And>m sid. (m, sid) \<in> due \<Longrightarrow> due_at w m sid) \<Longrightarrow> due_ok w due"
  by (auto simp: due_ok_def)

lemma dueD:
  assumes "due_ok w due" "(m, sid) \<in> due"
  shows "due_at w m sid" "handed (w_queue w) m" "live_job (w_queue w) m = Some j \<Longrightarrow> lj_session_id j = sid"
    "status_of (w_store w) sid = Some s \<Longrightarrow> s \<notin> {ACTIVE, PENDING, QUEUED}" "status_of (w_store w) sid \<noteq> None"
  using assms by (auto simp: due_ok_def due_at_def)

definition lifecycle_inv :: "(string \<Rightarrow> string) \<Rightarrow> session_doc set \<Rightarrow> 'l fleet \<Rightarrow> bool" where
  "lifecycle_inv digest D F \<longleftrightarrow> (case F of (w, due, over) \<Rightarrow>
     store_wf (w_store w) \<and> queue_wf (w_queue w) \<and> no_stranded F \<and> marks_ok digest D w \<and> due_ok w due)"

lemma lifecycle_inv_init:
  "lifecycle_inv digest D (\<lparr>w_store = empty_store, w_queue = empty_queue, w_plane = p\<rparr>, {}, {})"
proof -
  have "status_of empty_store s = None" for s by (simp add: empty_store_def status_of_def doc_of_def)
  moreover have "lq_dedup empty_queue = []" by (simp add: empty_queue_def)
  ultimately show ?thesis by (simp add: lifecycle_inv_def no_stranded_def marks_ok_def due_ok_def)
qed

lemma invD:
  assumes "lifecycle_inv digest D (w, due, over)"
  shows "store_wf (w_store w)" "queue_wf (w_queue w)" "no_stranded (w, due, over)" "marks_ok digest D w" "due_ok w due"
  using assms by (simp_all add: lifecycle_inv_def)

lemma status_get_or_create:
  "status_of (snd (get_or_create_session clk sid st)) s =
     (if s = sid \<and> status_of st sid = None then Some ACTIVE else status_of st s)"
  by (auto simp: get_or_create_session_def status_of_def doc_of_def new_session_doc_def Let_def
      split: option.splits)

lemma status_mutate:
  assumes "store_wf st" and "request_write f"
  shows "status_of (mutate clk sid f st) s =
     (if s = sid \<and> status_of st sid = None then Some ACTIVE else status_of st s)"
proof -
  obtain d st1 where g: "get_or_create_session clk sid st = (d, st1)" by fastforce
  have "sd_learning_status (f d) = sd_learning_status d" using assms(2) by (simp add: request_write_def)
  then have "status_of (mutate clk sid f st) s = status_of (snd (get_or_create_session clk sid st)) s"
    using get_or_create_views(1)[OF g] mutate_views(1)[OF assms(1), of clk sid f s] g
    by (simp add: status_of_def)
  then show ?thesis by (simp add: status_get_or_create)
qed

text \<open>What a step may do to the statuses, seen by the three invariants at once.\<close>

lemma inv_store_step:
  assumes inv: "lifecycle_inv digest D (w, due, over)" and wf: "store_wf st"
    and kept: "\<And>s. s \<noteq> sid \<Longrightarrow> status_of st s = status_of (w_store w) s"
    and new: "status_of st sid = Some t"
    and live: "t = QUEUED \<or> t = PROCESSING \<and> sid \<notin> over' \<Longrightarrow> named w due sid"
    and prior: "t \<in> {ACTIVE, PENDING, QUEUED} \<Longrightarrow>
      (case status_of (w_store w) sid of None \<Rightarrow> True | Some s \<Rightarrow> s \<in> {ACTIVE, PENDING, QUEUED})"
    and over: "over' - {sid} = over - {sid}"
  shows "lifecycle_inv digest D (w\<lparr>w_store := st\<rparr>, due, over')"
proof -
  have "no_stranded (w\<lparr>w_store := st\<rparr>, due, over')"
    unfolding no_stranded_def prod.case
  proof (intro allI impI)
    fix s
    assume s: "status_of (w_store (w\<lparr>w_store := st\<rparr>)) s = Some QUEUED \<or>
      status_of (w_store (w\<lparr>w_store := st\<rparr>)) s = Some PROCESSING \<and> s \<notin> over'"
    show "named (w\<lparr>w_store := st\<rparr>) due s"
    proof (cases "s = sid")
      case True
      with s new live show ?thesis by (auto simp: named_def)
    next
      case False
      then have "s \<in> over' \<longleftrightarrow> s \<in> over" using over by blast
      with False s kept[of s] invD(3)[OF inv] have "named w due s" by (auto simp: no_stranded_def)
      then show ?thesis by (simp add: named_def)
    qed
  qed
  moreover have "marks_ok digest D (w\<lparr>w_store := st\<rparr>)"
    unfolding marks_ok_def
  proof (intro ballI allI impI)
    fix d m
    assume d: "d \<in> D" and mk: "dget (lq_dedup (w_queue (w\<lparr>w_store := st\<rparr>))) (compute_content_hash digest d) = Some m"
    then obtain s where s: "status_of (w_store w) (sd_session_id d) = Some s"
        "(\<exists>j. live_job (w_queue w) m = Some j \<and> lj_session_id j = sd_session_id d) \<or> s \<notin> {ACTIVE, PENDING, QUEUED}"
      using invD(4)[OF inv] unfolding marks_ok_def by fastforce
    show "\<exists>s. status_of (w_store (w\<lparr>w_store := st\<rparr>)) (sd_session_id d) = Some s \<and>
        ((\<exists>j. live_job (w_queue (w\<lparr>w_store := st\<rparr>)) m = Some j \<and> lj_session_id j = sd_session_id d) \<or>
          s \<notin> {ACTIVE, PENDING, QUEUED})"
    proof (cases "sd_session_id d = sid")
      case True
      with s new prior show ?thesis by auto
    next
      case False
      with s kept show ?thesis by auto
    qed
  qed
  moreover have "due_ok (w\<lparr>w_store := st\<rparr>) due"
  proof (rule due_okI)
    fix m s assume m: "(m, s) \<in> due"
    note old = dueD[OF invD(5)[OF inv] m]
    obtain t0 where t0: "status_of (w_store w) s = Some t0" using old(5) by blast
    have "\<exists>s'. status_of st s = Some s' \<and> s' \<notin> {ACTIVE, PENDING, QUEUED}"
    proof (cases "s = sid")
      case True
      with t0 old(4)[OF t0] prior new show ?thesis by auto
    next
      case False
      with t0 old(4)[OF t0] kept[of s] show ?thesis by simp
    qed
    with old(1) show "due_at (w\<lparr>w_store := st\<rparr>) m s" by (simp add: due_at_def)
  qed
  ultimately show ?thesis using inv wf by (simp add: lifecycle_inv_def)
qed

lemma inv_same_status:
  assumes inv: "lifecycle_inv digest D (w, due, over)" and wf: "store_wf st"
    and same: "\<And>s. status_of st s = (if s = sid \<and> status_of (w_store w) sid = None then Some ACTIVE
                                   else status_of (w_store w) s)"
  shows "lifecycle_inv digest D (w\<lparr>w_store := st\<rparr>, due, over)"
proof (cases "status_of (w_store w) sid")
  case None
  then show ?thesis by (intro inv_store_step[OF inv wf, where sid = sid and t = ACTIVE]) (auto simp: same)
next
  case (Some t)
  with invD(3)[OF inv] have "named w due sid" if "t = QUEUED \<or> t = PROCESSING \<and> sid \<notin> over"
    using that by (auto simp: no_stranded_def)
  with Some show ?thesis
    by (intro inv_store_step[OF inv wf, where sid = sid and t = t]) (auto simp: same)
qed

lemma inv_transition:
  assumes inv: "lifecycle_inv digest D (w, due, over)"
    and tr: "transition tls sid f t c h a (w_store w) = (Inr c', st)"
    and live: "t = QUEUED \<or> t = PROCESSING \<and> sid \<notin> over' \<Longrightarrow> named w due sid"
    and prior: "t \<in> {ACTIVE, PENDING, QUEUED} \<Longrightarrow> a \<and> f \<in> {ACTIVE, PENDING, QUEUED}"
    and over: "over' - {sid} = over - {sid}"
  shows "lifecycle_inv digest D (w\<lparr>w_store := st\<rparr>, due, over')"
proof -
  note wf = invD(1)[OF inv]
  note st = mem.transition_status[OF wf tr]
  have "store_wf st" using mem.transition_inv[OF wf, of sid f t c h a] tr by simp
  then show ?thesis
  proof (rule inv_store_step[OF inv _ _ _ live _ over])
    show "\<And>s. s \<noteq> sid \<Longrightarrow> status_of st s = status_of (w_store w) s" and "status_of st sid = Some t"
      by (simp_all add: st)
    assume "t \<in> {ACTIVE, PENDING, QUEUED}"
    with prior have "a" "f \<in> {ACTIVE, PENDING, QUEUED}" by auto
    with tr have "transition tls sid f t c h True (w_store w) = (Inr c', st)" by simp
    from mem.transition_ok_edge[OF wf this] \<open>f \<in> {ACTIVE, PENDING, QUEUED}\<close>
    show "case status_of (w_store w) sid of None \<Rightarrow> True | Some s \<Rightarrow> s \<in> {ACTIVE, PENDING, QUEUED}"
      by auto
  qed assumption+
qed

text \<open>What a step may do to the queue: it drops no message but one whose ack is due, and adds none.\<close>

lemma inv_queue_step:
  assumes inv: "lifecycle_inv digest D (w, due, over)" and wf: "queue_wf q"
    and kept: "\<And>m j. live_job (w_queue w) m = Some j \<Longrightarrow> (m, lj_session_id j) \<notin> due \<Longrightarrow> live_job q m = Some j"
    and old: "\<And>m j. live_job q m = Some j \<Longrightarrow> live_job (w_queue w) m = Some j"
    and ids: "\<And>m. handed (w_queue w) m \<Longrightarrow> handed q m"
    and marks: "\<And>h. dget (lq_dedup q) h = dget (lq_dedup (w_queue w)) h"
  shows "lifecycle_inv digest D (w\<lparr>w_queue := q\<rparr>, due, over)"
proof -
  have "named (w\<lparr>w_queue := q\<rparr>) due sid" if named: "named w due sid" for sid
  proof -
    obtain m j where "live_job (w_queue w) m = Some j" "lj_session_id j = sid" "(m, sid) \<notin> due"
      using named unfolding named_def by blast
    with kept[of m j] show ?thesis unfolding named_def by auto
  qed
  then have "no_stranded (w\<lparr>w_queue := q\<rparr>, due, over)"
    using invD(3)[OF inv] by (simp add: no_stranded_def)
  moreover have "marks_ok digest D (w\<lparr>w_queue := q\<rparr>)"
    unfolding marks_ok_def
  proof (intro ballI allI impI)
    fix d m
    assume d: "d \<in> D" and mk: "dget (lq_dedup (w_queue (w\<lparr>w_queue := q\<rparr>))) (compute_content_hash digest d) = Some m"
    then obtain s where s: "status_of (w_store w) (sd_session_id d) = Some s"
        "(\<exists>j. live_job (w_queue w) m = Some j \<and> lj_session_id j = sd_session_id d) \<or> s \<notin> {ACTIVE, PENDING, QUEUED}"
      using invD(4)[OF inv] marks unfolding marks_ok_def by fastforce
    have "(m, sd_session_id d) \<notin> due" if "s \<in> {ACTIVE, PENDING, QUEUED}"
      using that dueD(4)[OF invD(5)[OF inv] _ s(1)] by blast
    then have "\<exists>j. live_job q m = Some j \<and> lj_session_id j = sd_session_id d" if "s \<in> {ACTIVE, PENDING, QUEUED}"
      using s that kept[of m] by auto
    with s show "\<exists>s. status_of (w_store (w\<lparr>w_queue := q\<rparr>)) (sd_session_id d) = Some s \<and>
        ((\<exists>j. live_job (w_queue (w\<lparr>w_queue := q\<rparr>)) m = Some j \<and> lj_session_id j = sd_session_id d) \<or>
          s \<notin> {ACTIVE, PENDING, QUEUED})" by auto
  qed
  moreover have "due_ok (w\<lparr>w_queue := q\<rparr>) due"
  proof (rule due_okI)
    fix m sid assume m: "(m, sid) \<in> due"
    have "live_job q m = Some j \<Longrightarrow> lj_session_id j = sid" for j
      using old[of m j] dueD(3)[OF invD(5)[OF inv] m] by blast
    with ids[of m] dueD(1)[OF invD(5)[OF inv] m] show "due_at (w\<lparr>w_queue := q\<rparr>) m sid"
      unfolding due_at_def by simp
  qed
  ultimately show ?thesis using inv wf by (simp add: lifecycle_inv_def)
qed

lemma enqueue_marks:
  assumes "enqueue j q = (m, q')"
  shows "dget (lq_dedup q') h = (if h = lj_content_hash j then Some m else dget (lq_dedup q) h)"
  using assms by (auto simp: enqueue_def next_id_def split: option.splits)

lemma enqueue_new_live:
  assumes "enqueue j q = (m, q')" and "dget (lq_dedup q) (lj_content_hash j) \<noteq> Some m"
  shows "live_job q' m = Some j"
proof (cases "dget (lq_dedup q) (lj_content_hash j)")
  case None
  with assms(1) show ?thesis by (auto simp: enqueue_def next_id_def live_job_def)
next
  case (Some m')
  with assms show ?thesis by (simp add: enqueue_def)
qed

lemma enqueue_mark_cases:
  assumes "enqueue j q = (m, q')" and "dget (lq_dedup q') h = Some m'"
  obtains "dget (lq_dedup q) h = Some m'" | "h = lj_content_hash j" "m' = m"
  using assms(2) enqueue_marks[OF assms(1), of h] by (cases "h = lj_content_hash j") auto

lemma enqueue_handed: "enqueue j q = (m, q') \<Longrightarrow> handed q x \<Longrightarrow> handed q' x"
  by (auto simp: enqueue_def next_id_def handed_def never_delivered_def split: option.splits)

lemma enqueue_fresh:
  assumes "queue_wf q" "enqueue j q = (m, q')" "live_job q' x = Some k"
  shows "live_job q x = Some k \<or> \<not> handed q x"
  using assms fresh_id[OF assms(1)]
  by (auto simp: enqueue_def next_id_def live_job_def handed_def split: option.splits if_splits)

lemma inv_add:
  assumes inv: "lifecycle_inv digest D (w, due, over)" and cf: "collision_free digest D"
    and d: "d \<in> D" and st: "status_of (w_store w) (sd_session_id d) \<noteq> None"
    and e: "enqueue (job_from_doc d (compute_content_hash digest d) cas tp) (w_queue w) = (m, q)"
  shows "lifecycle_inv digest D (w\<lparr>w_queue := q\<rparr>, due, over)"
proof -
  let ?j = "job_from_doc d (compute_content_hash digest d) cas tp"
  note wf = invD(2)[OF inv]
  note live = enqueue_live[OF wf e]
  have "named (w\<lparr>w_queue := q\<rparr>) due sid" if "named w due sid" for sid
    using that live unfolding named_def by simp blast
  then have ns: "no_stranded (w\<lparr>w_queue := q\<rparr>, due, over)"
    using invD(3)[OF inv] by (simp add: no_stranded_def)
  have due: "due_ok (w\<lparr>w_queue := q\<rparr>) due"
  proof (rule due_okI)
    fix x sid assume x: "(x, sid) \<in> due"
    note old = dueD[OF invD(5)[OF inv] x]
    have "live_job q x = Some j \<Longrightarrow> lj_session_id j = sid" for j
      using enqueue_fresh[OF wf e, of x j] old(2,3) by blast
    with old(1) enqueue_handed[OF e old(2)] show "due_at (w\<lparr>w_queue := q\<rparr>) x sid"
      unfolding due_at_def by simp
  qed
  have "marks_ok digest D (w\<lparr>w_queue := q\<rparr>)"
    unfolding marks_ok_def
  proof (intro ballI allI impI)
    fix d' m'
    assume d': "d' \<in> D" and mk: "dget (lq_dedup (w_queue (w\<lparr>w_queue := q\<rparr>))) (compute_content_hash digest d') = Some m'"
    show "\<exists>s. status_of (w_store (w\<lparr>w_queue := q\<rparr>)) (sd_session_id d') = Some s \<and>
        ((\<exists>j. live_job (w_queue (w\<lparr>w_queue := q\<rparr>)) m' = Some j \<and> lj_session_id j = sd_session_id d') \<or>
          s \<notin> {ACTIVE, PENDING, QUEUED})"
    proof (cases "dget (lq_dedup (w_queue w)) (compute_content_hash digest d') = Some m'")
      case True
      with invD(4)[OF inv] d' have "\<exists>s. status_of (w_store w) (sd_session_id d') = Some s \<and>
        ((\<exists>j. live_job (w_queue w) m' = Some j \<and> lj_session_id j = sd_session_id d') \<or>
          s \<notin> {ACTIVE, PENDING, QUEUED})"
        by (auto simp: marks_ok_def)
      with live show ?thesis by auto
    next
      case False
      have mk': "dget (lq_dedup q) (compute_content_hash digest d') = Some m'" using mk by simp
      have h': "compute_content_hash digest d' = lj_content_hash ?j \<and> m' = m"
        by (rule enqueue_mark_cases[OF e mk']) (use False in blast)+
      then have h: "compute_content_hash digest d' = compute_content_hash digest d" "m' = m"
        by (simp_all add: job_from_doc_def)
      have sid: "sd_session_id d' = sd_session_id d"
        using cf d d' h(1) unfolding collision_free_def by blast
      have "dget (lq_dedup (w_queue w)) (lj_content_hash ?j) \<noteq> Some m"
        using False h' by metis
      with e have "live_job q m = Some ?j" by (rule enqueue_new_live)
      moreover have "lj_session_id ?j = sd_session_id d" by (simp add: job_from_doc_def)
      ultimately show ?thesis using h(2) sid st by auto
    qed
  qed
  with ns inv live due show ?thesis by (simp add: lifecycle_inv_def)
qed

lemma consume_loop_dedup: "lq_dedup (snd (consume_loop ms cnt now i q)) = lq_dedup q"
  "lq_counter (snd (consume_loop ms cnt now i q)) = lq_counter q"
  by (induction ms arbitrary: i q) (simp_all add: Let_def split_def split: option.splits)

lemma settle_live:
  assumes "q' = ack m q \<or> q' = finalize_dead_letter dj q \<and> dj_message_id dj = m"
  shows "x \<noteq> m \<Longrightarrow> live_job q' x = live_job q x" "live_job q' x = Some j \<Longrightarrow> live_job q x = Some j"
    "handed q' x = handed q x" "lq_dedup q' = lq_dedup q"
  using assms by (auto simp: ack_def finalize_dead_letter_def live_job_def handed_def never_delivered_def split: if_splits)

lemma queue_keeps_handed:
  assumes "queue_wf q"
  shows "handed q m \<Longrightarrow> handed (snd (consume n now q)) m" "handed q m \<Longrightarrow> handed (snd (reclaim_stale mi mx t q)) m"
  using consume_live[OF assms, of n now] by (auto simp: handed_def never_delivered_def consume_def consume_loop_dedup)

text \<open>A claim through a message whose ack is not due rests on that message.\<close>

lemma taken_named:
  assumes "holds w due m j" "(m, lj_session_id j) \<notin> due"
  shows "named w due (lj_session_id j)"
  using assms by (auto simp: holds_def named_def)

lemma lstep_inv:
  assumes "lstep digest D F F'" and cf: "collision_free digest D" and "lifecycle_inv digest D F"
  shows "lifecycle_inv digest D F'"
  using assms(1,3)
proof (cases rule: lstep.cases)
  case (user f w due over clk sid)
  note inv = assms(3)[unfolded user(1)]
  have "store_wf (mutate clk sid f (w_store w))"
    using user(3) invD(1)[OF inv] by (intro store_wf_mutate) (simp_all add: request_write_def)
  then show ?thesis
    unfolding user(2) by (rule inv_same_status[OF inv, where sid = sid]) (rule status_mutate[OF invD(1)[OF inv] user(3)])
next
  case (create w due over clk sid)
  note inv = assms(3)[unfolded create(1)]
  show ?thesis
    unfolding create(2)
    by (rule inv_same_status[OF inv store_wf_create(1)[OF invD(1)[OF inv]], where sid = sid]) (rule status_get_or_create)
next
  case (claim sid cas w c st due over)
  show ?thesis unfolding claim(2) by (rule inv_transition[OF assms(3)[unfolded claim(1)] claim(3)]) simp_all
next
  case (add d w cas tp m q due over)
  show ?thesis unfolding add(2) by (rule inv_add[OF assms(3)[unfolded add(1)] cf add(3-5)])
next
  case (queued d w cas c st due over)
  note inv = assms(3)[unfolded queued(1)]
  from mem.transition_ok_edge[OF invD(1)[OF inv] queued(5)]
  have pending: "status_of (w_store w) (sd_session_id d) = Some PENDING" by simp
  obtain m where "dget (lq_dedup (w_queue w)) (compute_content_hash digest d) = Some m" using queued(4) by auto
  with invD(4)[OF inv] queued(3) pending obtain j where "live_job (w_queue w) m = Some j" "lj_session_id j = sd_session_id d"
    by (fastforce simp: marks_ok_def)
  moreover have "(m, sd_session_id d) \<notin> due" using dueD(4)[OF invD(5)[OF inv] _ pending] by blast
  ultimately have "named w due (sd_session_id d)" by (auto simp: named_def)
  then show ?thesis unfolding queued(2) by (intro inv_transition[OF inv queued(5)]) simp_all
next
  case (take w due m j cas c st f over)
  note inv = assms(3)[unfolded take(1)]
  let ?over = "if (m, lj_session_id j) \<in> due then insert (lj_session_id j) over else over - {lj_session_id j}"
  have live: "named w due (lj_session_id j)" if "lj_session_id j \<notin> ?over"
    using that taken_named[OF take(3)] by (auto split: if_splits)
  have over: "?over - {lj_session_id j} = over - {lj_session_id j}" by auto
  from take(4) show ?thesis
  proof
    assume tr: "transition tls (lj_session_id j) QUEUED PROCESSING cas None True (w_store w) = (Inr c, st)"
    show ?thesis unfolding take(2) by (rule inv_transition[OF inv tr]) (use live over in auto)
  next
    assume tr: "recover_to_processing tls (lj_session_id j) f cas (w_store w) = (Inr c, st)"
    note st = mem.recover_status[OF invD(1)[OF inv] tr]
    have "store_wf st" using mem.recover_inv[OF invD(1)[OF inv], of "lj_session_id j" f cas] tr by simp
    then show ?thesis unfolding take(2)
      by (rule inv_store_step[OF inv, where sid = "lj_session_id j" and t = PROCESSING]) (use live over in \<open>auto simp: st\<close>)
  qed
next
  case (finish sid cas h w c st due over)
  show ?thesis unfolding finish(2) by (rule inv_transition[OF assms(3)[unfolded finish(1)] finish(3)]) simp_all
next
  case (bury sid f cas w c st due over)
  show ?thesis unfolding bury(2) by (rule inv_transition[OF assms(3)[unfolded bury(1)] bury(3)]) simp_all
next
  case (seen w due m j s over)
  note inv = assms(3)[unfolded seen(1)]
  have m: "handed (w_queue w) m \<and> (\<forall>k. live_job (w_queue w) m = Some k \<longrightarrow> lj_session_id k = lj_session_id j)"
  proof (cases "(m, lj_session_id j) \<in> due")
    case True
    from dueD[OF invD(5)[OF inv] this] show ?thesis by blast
  next
    case False
    then have live: "live_job (w_queue w) m = Some j" using seen(3) by (simp add: holds_def)
    then have "\<exists>n \<le> lq_counter (w_queue w). m = message_id n"
      using invD(2)[OF inv] unfolding queue_wf_def live_job_def by (metis option.distinct(1))
    then show ?thesis using live seen(4) by (simp add: handed_def)
  qed
  have "s \<notin> {ACTIVE, PENDING, QUEUED}" using seen(6) by (simp add: unfinished_def)
  with m seen(5) have "due_at w m (lj_session_id j)" unfolding due_at_def by blast
  then have "due_ok w (insert (m, lj_session_id j) due)"
    using invD(5)[OF inv] by (simp add: due_ok_def)
  moreover have "no_stranded (w, insert (m, lj_session_id j) due, over)"
    unfolding no_stranded_def prod.case
  proof (intro allI impI)
    fix sid
    assume st: "status_of (w_store w) sid = Some QUEUED \<or> status_of (w_store w) sid = Some PROCESSING \<and> sid \<notin> over"
    then have "sid \<noteq> lj_session_id j" using seen(5,6) by (auto simp: unfinished_def)
    moreover have "named w due sid" using st invD(3)[OF inv] by (auto simp: no_stranded_def)
    ultimately show "named w (insert (m, lj_session_id j) due) sid" by (auto simp: named_def)
  qed
  ultimately show ?thesis using inv by (simp add: seen(2) lifecycle_inv_def)
next
  case (settle m sid due q w dj over)
  note inv = assms(3)[unfolded settle(1)]
  note m = dueD(2,3)[OF invD(5)[OF inv] settle(3)]
  have "queue_wf q"
    using settle(4) mq.ack_live[OF invD(2)[OF inv], of m] queue_wf_finalize[OF invD(2)[OF inv]] m(1)
    by (auto simp: handed_def)
  then show ?thesis unfolding settle(2)
    by (rule inv_queue_step[OF inv]) (use settle_live[OF settle(4)] settle(3) m(2) in \<open>auto, metis\<close>)
next
  case (deliver w due over n now)
  note inv = assms(3)[unfolded deliver(1)]
  from consume_live[OF invD(2)[OF inv], of n now] queue_keeps_handed(1)[OF invD(2)[OF inv]]
  show ?thesis unfolding deliver(2)
    by (intro inv_queue_step[OF inv]) (simp_all add: consume_def consume_loop_dedup)
next
  case (redelivery w due over mi mx t)
  note inv = assms(3)[unfolded redelivery(1)]
  from mq.reclaim_live[OF invD(2)[OF inv], of mi mx t] queue_keeps_handed(2)[OF invD(2)[OF inv]]
  show ?thesis unfolding redelivery(2)
    by (intro inv_queue_step[OF inv]) (simp_all, simp add: reclaim_stale_def)
next
  case (plane w due over p)
  then show ?thesis using assms(3) by (simp add: lifecycle_inv_def no_stranded_def marks_ok_def due_ok_def due_at_def named_def)
qed

lemma lsteps_inv:
  "lsteps digest D F F' \<Longrightarrow> collision_free digest D \<Longrightarrow> lifecycle_inv digest D F \<Longrightarrow> lifecycle_inv digest D F'"
  by (induction rule: rtranclp_induct) (auto intro: lstep_inv)

section \<open>The workers refine the lifecycle\<close>

text \<open>
  A worker goes from one world to another if, from any system in that world, steps of the lifecycle lead
  there; the flags say whether the ack of its delivery is due. The delivery stays its own: the message is
  on the stream, or its ack is due.
\<close>

definition delivery_ok :: "'l world \<Rightarrow> (string \<times> string) set \<Rightarrow> delivered_job \<Rightarrow> bool" where
  "delivery_ok w due dj \<longleftrightarrow> holds w due (dj_message_id dj) (dj_job dj) \<and> handed (w_queue w) (dj_message_id dj)"

definition owes :: "'l world \<Rightarrow> (string \<times> string) set \<Rightarrow> delivered_job \<Rightarrow> bool \<Rightarrow> bool" where
  "owes w due dj b \<longleftrightarrow> delivery_ok w due dj \<and> (b \<longrightarrow> (dj_message_id dj, lj_session_id (dj_job dj)) \<in> due)"

definition goes :: "(string \<Rightarrow> string) \<Rightarrow> session_doc set \<Rightarrow> delivered_job \<Rightarrow> bool \<Rightarrow> 'l world \<Rightarrow> bool \<Rightarrow> 'l world \<Rightarrow> bool" where
  "goes digest D dj b w b' w' \<longleftrightarrow> (\<forall>due over. lifecycle_inv digest D (w, due, over) \<and> owes w due dj b \<longrightarrow>
     (\<exists>due' over'. lsteps digest D (w, due, over) (w', due', over') \<and> owes w' due' dj b'))"

text \<open>Interference: other processes, each by steps of the lifecycle on the store and the queue.\<close>

definition env_ok :: "(string \<Rightarrow> string) \<Rightarrow> session_doc set \<Rightarrow> (nat \<Rightarrow> 'l world \<Rightarrow> 'l world) \<Rightarrow> bool" where
  "env_ok digest D env \<longleftrightarrow> (\<forall>i w due over. lifecycle_inv digest D (w, due, over) \<longrightarrow>
     (\<exists>due' over'. lsteps digest D (w, due, over) (env i w, due', over')))"

lemma env_ok_id: "env_ok digest D (\<lambda>_ w. w)"
  unfolding env_ok_def by blast

lemma due_grows: "lstep digest D (w, due, over) (w', due', over') \<Longrightarrow> due \<subseteq> due'"
  by (cases rule: lstep.cases) auto

text \<open>No step takes a delivery from its worker.\<close>

lemma delivery_kept:
  assumes step: "lstep digest D (w, due, over) (w', due', over')" and inv: "lifecycle_inv digest D (w, due, over)"
    and ok: "delivery_ok w due dj"
  shows "delivery_ok w' due' dj"
proof -
  have mono: "holds w' due' m j" if "holds w due m j"
    "\<And>k. live_job (w_queue w) m = Some k \<Longrightarrow> live_job (w_queue w') m = Some k" for m j
    using that due_grows[OF step] by (auto simp: holds_def)
  note wf = invD(2)[OF inv]
  show ?thesis
    using step
  proof (cases rule: lstep.cases)
    case (add d cas tp m q)
    then show ?thesis
      using ok enqueue_live[OF wf add(6)] enqueue_handed[OF add(6)] by (auto simp: delivery_ok_def holds_def)
  next
    case (settle m sid q dj')
    have "holds (w\<lparr>w_queue := q\<rparr>) due (dj_message_id dj) (dj_job dj)"
    proof (cases "dj_message_id dj = m")
      case True
      then show ?thesis
        using ok settle(4) dueD(3)[OF invD(5)[OF inv] settle(4)] by (auto simp: delivery_ok_def holds_def)
    next
      case False
      then show ?thesis using ok settle_live(1)[OF settle(5), of "dj_message_id dj"] by (simp add: delivery_ok_def holds_def)
    qed
    then show ?thesis using ok settle settle_live(3)[OF settle(5)] by (simp add: delivery_ok_def)
  next
    case (deliver n now)
    then show ?thesis
      using ok consume_live[OF wf, of n now] queue_keeps_handed(1)[OF wf] by (auto simp: delivery_ok_def holds_def)
  next
    case (redelivery mi mx t)
    then show ?thesis
      using ok mq.reclaim_live[OF wf, of mi mx t] queue_keeps_handed(2)[OF wf] by (auto simp: delivery_ok_def holds_def)
  qed (use ok in \<open>auto simp: delivery_ok_def holds_def\<close>)
qed

lemma owes_steps:
  assumes "lsteps digest D F F'" "collision_free digest D" "lifecycle_inv digest D F" "owes (fst F) (fst (snd F)) dj b"
  shows "owes (fst F') (fst (snd F')) dj b"
  using assms(1)
proof (induction rule: rtranclp_induct)
  case base
  then show ?case using assms(4) .
next
  case (step G H)
  obtain w due over w' due' over' where G: "G = (w, due, over)" and H: "H = (w', due', over')" by (metis prod_cases3)
  have "lifecycle_inv digest D G" by (rule lsteps_inv[OF step(1) assms(2,3)])
  with step(2,3) show ?case
    using delivery_kept[of digest D w due over w' due' over' dj] due_grows[of digest D w due over w' due' over']
    by (auto simp: G H owes_def)
qed

lemma goes_refl: "goes digest D dj b w b w"
  unfolding goes_def by blast

lemma goes_trans:
  assumes "collision_free digest D" "goes digest D dj b w b' w'" "goes digest D dj b' w' b'' w''"
  shows "goes digest D dj b w b'' w''"
  unfolding goes_def
proof (intro allI impI)
  fix due over assume "lifecycle_inv digest D (w, due, over) \<and> owes w due dj b"
  moreover from this obtain due' over' where one: "lsteps digest D (w, due, over) (w', due', over')" "owes w' due' dj b'"
    using assms(2) unfolding goes_def by blast
  ultimately have "lifecycle_inv digest D (w', due', over')" using lsteps_inv[OF one(1) assms(1)] by blast
  with one(2) obtain due'' over'' where "lsteps digest D (w', due', over') (w'', due'', over'')" "owes w'' due'' dj b''"
    using assms(3) unfolding goes_def by blast
  with one(1) show "\<exists>due'' over''. lsteps digest D (w, due, over) (w'', due'', over'') \<and> owes w'' due'' dj b''"
    by (meson rtranclp_trans)
qed

lemma goes_steps:
  assumes cf: "collision_free digest D"
    and "\<And>due over. lifecycle_inv digest D (w, due, over) \<Longrightarrow> owes w due dj b \<Longrightarrow>
      \<exists>due' over'. lsteps digest D (w, due, over) (w', due', over')"
  shows "goes digest D dj b w b w'"
  unfolding goes_def
proof (intro allI impI)
  fix due over assume inv: "lifecycle_inv digest D (w, due, over) \<and> owes w due dj b"
  then obtain due' over' where "lsteps digest D (w, due, over) (w', due', over')" using assms(2) by blast
  moreover from owes_steps[OF this cf, of dj b] inv have "owes w' due' dj b" by simp
  ultimately show "\<exists>due' over'. lsteps digest D (w, due, over) (w', due', over') \<and> owes w' due' dj b" by blast
qed

lemma goes_step:
  assumes "collision_free digest D" "\<And>due over. lstep digest D (w, due, over) (w', due, over)"
  shows "goes digest D dj b w b w'"
  by (rule goes_steps[OF assms(1)]) (use assms(2) in \<open>blast intro: r_into_rtranclp\<close>)

lemma goes_env: "collision_free digest D \<Longrightarrow> env_ok digest D env \<Longrightarrow> goes digest D dj b w b (env i w)"
  by (rule goes_steps) (auto simp: env_ok_def)

lemma goes_take:
  assumes "collision_free digest D"
    and "transition tls (lj_session_id (dj_job dj)) QUEUED PROCESSING cas None True (w_store w) = (Inr c, st) \<or>
      recover_to_processing tls (lj_session_id (dj_job dj)) f cas (w_store w) = (Inr c, st)"
  shows "goes digest D dj b w b (w\<lparr>w_store := st\<rparr>)"
proof (rule goes_steps[OF assms(1)])
  fix due over assume "owes w due dj b"
  then have "holds w due (dj_message_id dj) (dj_job dj)" by (simp add: owes_def delivery_ok_def)
  from lstep.take[OF this assms(2)]
  show "\<exists>due' over'. lsteps digest D (w, due, over) (w\<lparr>w_store := st\<rparr>, due', over')" by blast
qed

lemma goes_seen:
  assumes "collision_free digest D" "status_of (w_store w) (lj_session_id (dj_job dj)) = Some s" "s \<notin> unfinished"
  shows "goes digest D dj b w True w"
  unfolding goes_def
proof (intro allI impI)
  fix due over assume F: "lifecycle_inv digest D (w, due, over) \<and> owes w due dj b"
  let ?due = "insert (dj_message_id dj, lj_session_id (dj_job dj)) due"
  have "lstep digest D (w, due, over) (w, ?due, over)"
    by (rule lstep.seen[OF _ _ assms(2,3)]) (use F in \<open>auto simp: owes_def delivery_ok_def handed_def\<close>)
  moreover have "owes w ?due dj True" using F by (auto simp: owes_def delivery_ok_def holds_def)
  ultimately show "\<exists>due' over'. lsteps digest D (w, due, over) (w, due', over') \<and> owes w due' dj True" by blast
qed

lemma goes_settle:
  assumes "collision_free digest D" "q = ack (dj_message_id dj) (w_queue w) \<or> q = finalize_dead_letter dj (w_queue w)"
  shows "goes digest D dj True w True (w\<lparr>w_queue := q\<rparr>)"
proof (rule goes_steps[OF assms(1)])
  fix due over assume "owes w due dj True"
  then have "(dj_message_id dj, lj_session_id (dj_job dj)) \<in> due" by (simp add: owes_def)
  from lstep.settle[OF this, of q w dj] assms(2)
  show "\<exists>due' over'. lsteps digest D (w, due, over) (w\<lparr>w_queue := q\<rparr>, due', over')" by blast
qed

text \<open>A session is read, others interfere, and the ack follows whatever they did.\<close>

lemma goes_ack:
  assumes "collision_free digest D" "env_ok digest D env"
    and "status_of (w_store w) (lj_session_id (dj_job dj)) = Some s" "s \<notin> unfinished"
  shows "goes digest D dj False w True (acked (dj_message_id dj) (env i w))"
  unfolding acked_def
  by (intro goes_trans[OF assms(1) goes_seen[OF assms(1,3,4)] goes_trans[OF assms(1) goes_env[OF assms(1,2)] goes_settle[OF assms(1)]]]) simp

lemma world_eta [simp]:
  "w\<lparr>w_store := w_store w\<rparr> = w" "w\<lparr>w_queue := w_queue w\<rparr> = w" "w\<lparr>w_plane := w_plane w\<rparr> = w"
  by simp_all

lemma enqueue_mark_set: "enqueue j q = (m, q') \<Longrightarrow> dget (lq_dedup q') (lj_content_hash j) \<noteq> None"
  by (auto simp: enqueue_def next_id_def split: option.splits)

lemma transition_keeps_session:
  assumes "store_wf st" and "transition tls sid f t c h a st = (r, st')" and "status_of st s \<noteq> None"
  shows "status_of st' s \<noteq> None"
proof (cases r)
  case (Inl e)
  with assms mem.transition_error_no_write show ?thesis by blast
next
  case (Inr c')
  with assms mem.transition_status[OF assms(1)] show ?thesis by auto
qed

text \<open>What \<open>get_session_with_cas\<close> answers on a well-formed store.\<close>

lemma get_session_ok:
  assumes "store_wf st" and "get_session_with_cas clk sid st = (r, st0)"
  shows "\<exists>d cas. r = Inr (d, cas) \<and> doc_of st0 sid = Some d \<and> ver_of st0 sid = Some cas \<and>
    store_wf st0 \<and> st0 = snd (get_or_create_session clk sid st) \<and> sd_session_id d = sid"
proof -
  obtain d st1 where g: "get_or_create_session clk sid st = (d, st1)" by fastforce
  have wf: "store_wf st1" using store_wf_create(1)[OF assms(1), of clk sid] g by simp
  have doc: "doc_of st1 sid = Some d" using get_or_create_views(1)[OF g, of sid] by simp
  then obtain v where v: "ver_of st1 sid = Some v" using store_wf_version[OF wf] by blast
  then have "version_of sid st1 = Inr v" by (simp add: version_of_def ver_of_def)
  with g assms(2) have "r = Inr (d, v)" "st0 = st1" by (auto simp: get_session_with_cas_def)
  with g wf doc v store_wf_create(2)[OF assms(1), of clk sid] show ?thesis by simp
qed

lemma terminal_statuses:
  "claim_decision s r = (Terminal, x) \<Longrightarrow> s \<notin> unfinished"
  "claim_decision s r = (Recover, x) \<Longrightarrow> s \<in> {PROCESSING, DONE}"
  "claim_decision s r = (Forward, x) \<Longrightarrow> s = QUEUED"
  by (auto simp: claim_decision_def unfinished_def split: if_splits)

section \<open>Sweeping, processing, dead letters\<close>

lemma lsteps_then: "lsteps digest D F G \<Longrightarrow> lstep digest D G H \<Longrightarrow> lsteps digest D F H"
  by (rule rtranclp.rtrancl_into_rtrancl)

text \<open>
  One session of a sweep is a sequence of lifecycle steps, wherever it stops: the claim comes
  before the add and the add before \<open>queued\<close>, so a crash, a lost CAS or a failing queue in between
  leaves a state the lifecycle allows.
\<close>

lemma sweep_one_steps:
  assumes wf: "store_wf (w_store w)" and d: "d \<in> D" and there: "status_of (w_store w) (sd_session_id d) \<noteq> None"
  shows "lsteps digest D (w, due, over) (snd (sweep_one digest xadd tp (d, cas) w), due, over)"
proof -
  let ?sid = "sd_session_id d" let ?h = "compute_content_hash digest d"
  obtain r1 st1 where t1: "(if sd_learning_status d = ACTIVE
      then transition tls ?sid ACTIVE PENDING cas None True (w_store w) else (Inr cas, w_store w)) = (r1, st1)"
    by fastforce
  have wf1: "store_wf st1"
    using t1 wf mem.transition_inv[OF wf, of ?sid ACTIVE PENDING cas None True] by (auto split: if_splits)
  have ex1: "status_of st1 ?sid \<noteq> None"
    using t1 there transition_keeps_session[OF wf] by (auto split: if_splits)
  have s1: "lsteps digest D (w, due, over) (w\<lparr>w_store := st1\<rparr>, due, over)"
  proof (cases r1)
    case (Inl e)
    with t1 mem.transition_error_no_write[OF wf] have "st1 = w_store w"
      by (auto split: if_splits)
    then show ?thesis by simp
  next
    case (Inr c)
    with t1 show ?thesis
      by (auto split: if_splits intro: r_into_rtranclp lstep.claim)
  qed
  show ?thesis
  proof (cases r1)
    case (Inl e)
    with t1 s1 show ?thesis by (simp add: sweep_one_def Let_def)
  next
    case (Inr cas1)
    show ?thesis
    proof (cases "xadd d")
      case (Some e)
      with t1 s1 Inr show ?thesis by (simp add: sweep_one_def Let_def)
    next
      case None
      obtain m q1 where e: "enqueue (job_from_doc d ?h (Some cas1) (tp d)) (w_queue w) = (m, q1)" by fastforce
      obtain r2 st2 where t2: "transition tls ?sid PENDING QUEUED cas1 (Some ?h) True st1 = (r2, st2)" by fastforce
      let ?w2 = "w\<lparr>w_store := st1, w_queue := q1\<rparr>"
      have "lstep digest D (w\<lparr>w_store := st1\<rparr>, due, over) ((w\<lparr>w_store := st1\<rparr>)\<lparr>w_queue := q1\<rparr>, due, over)"
        by (rule lstep.add[OF d, of _ _ "Some cas1" "tp d" m]) (use ex1 e in simp_all)
      with s1 have s2: "lsteps digest D (w, due, over) (?w2, due, over)" by (simp add: lsteps_then)
      have "lsteps digest D (?w2, due, over) (?w2\<lparr>w_store := st2\<rparr>, due, over)"
      proof (cases r2)
        case (Inl e)
        with t2 mem.transition_error_no_write[OF wf1] have "st2 = st1" by blast
        then show ?thesis by (cases w) simp
      next
        case (Inr c)
        have "dget (lq_dedup q1) ?h \<noteq> None" using enqueue_mark_set[OF e] by (simp add: job_from_doc_def)
        with t2 Inr show ?thesis by (intro r_into_rtranclp lstep.queued[OF d]) simp_all
      qed
      moreover have "snd (sweep_one digest xadd tp (d, cas) w) = ?w2\<lparr>w_store := st2\<rparr>"
        using t1 Inr None e t2 by (simp add: sweep_one_def Let_def split: sum.splits)
      ultimately show ?thesis using s2 by simp
    qed
  qed
qed

text \<open>The read with which both handlers of a delivery begin.\<close>

lemma goes_read:
  assumes cf: "collision_free digest D" and wf: "store_wf (w_store w)"
    and g: "get_session_with_cas clk sid (w_store w) = (r0, st0)"
  obtains d cas where "r0 = Inr (d, cas)" "status_of st0 sid = Some (sd_learning_status d)"
    "goes digest D dj b w b (w\<lparr>w_store := st0\<rparr>)" "store_wf st0"
proof -
  obtain d cas where d: "r0 = Inr (d, cas)" "doc_of st0 sid = Some d" "store_wf st0"
      "st0 = snd (get_or_create_session clk sid (w_store w))"
    using get_session_ok[OF wf g] by blast
  have "goes digest D dj b w b (w\<lparr>w_store := st0\<rparr>)"
    unfolding d(4) by (rule goes_step[OF cf]) (rule lstep.create)
  with d show thesis by (intro that) (simp_all add: status_of_def)
qed

text \<open>Where a delivery may stop: after any of its steps.\<close>

definition runs :: "(string \<Rightarrow> string) \<Rightarrow> session_doc set \<Rightarrow> delivered_job \<Rightarrow> 'l world \<Rightarrow> 'l world \<Rightarrow> bool" where
  "runs digest D dj w w' \<longleftrightarrow> (\<exists>b. goes digest D dj False w b w')"

lemma runsI: "goes digest D dj False w b w' \<Longrightarrow> runs digest D dj w w'"
  unfolding runs_def by blast

text \<open>What is known of the store after others ran: it is well formed, since their steps keep the invariant.\<close>

lemma goes_wf:
  assumes "collision_free digest D" "goes digest D dj b w b' w'" "lifecycle_inv digest D (w, due, over)" "owes w due dj b"
  shows "store_wf (w_store w')"
proof -
  obtain due' over' where "lsteps digest D (w, due, over) (w', due', over')"
    using assms(2-4) unfolding goes_def by blast
  from lsteps_inv[OF this assms(1,3)] show ?thesis by (rule invD(1))
qed

lemma process_goes:
  assumes cf: "collision_free digest D" and env: "env_ok digest D env"
    and inv: "lifecycle_inv digest D (w, due, over)" and ok: "delivery_ok w due dj"
  shows "runs digest D dj w (snd (process digest work env clk dj w))"
proof -
  let ?job = "dj_job dj" let ?sid = "lj_session_id ?job" let ?mid = "dj_message_id dj"
  have owes: "owes w due dj False" using ok by (simp add: owes_def)
  note trans = goes_trans[OF cf]
  obtain r0 st0 where g: "get_session_with_cas clk ?sid (w_store w) = (r0, st0)" by fastforce
  obtain d cas where d: "r0 = Inr (d, cas)" "status_of st0 ?sid = Some (sd_learning_status d)"
      "goes digest D dj False w False (w\<lparr>w_store := st0\<rparr>)"
    by (rule goes_read[OF cf invD(1)[OF inv] g])
  define w0 where "w0 = w\<lparr>w_store := st0\<rparr>"
  have s0: "goes digest D dj False w False w0" using d(3) by (simp add: w0_def)
  have st0: "status_of (w_store w0) ?sid = Some (sd_learning_status d)" using d(2) by (simp add: w0_def)
  let ?dedup = "sd_learning_status d = DONE \<and> sd_learning_content_hash d = Some (lj_content_hash ?job)"
  obtain cl rs where cd: "claim_decision (sd_learning_status d) (dj_reclaimed dj) = (cl, rs)" by fastforce
  have ackrun: "runs digest D dj w (acked ?mid (env 0 w0))" if "sd_learning_status d \<notin> unfinished"
    by (rule runsI[OF trans[OF s0 goes_ack[OF cf env st0 that]]])
  consider "?dedup" | "\<not> ?dedup" "cl = Terminal" | "\<not> ?dedup" "cl = Refuse" | "\<not> ?dedup" "cl \<in> {Forward, Recover}"
    by (cases cl) auto
  then show ?thesis
  proof cases
    case 1
    then show ?thesis using ackrun g d(1) by (simp add: process_def unfinished_def w0_def Let_def)
  next
    case 2
    with terminal_statuses(1)[of "sd_learning_status d"] cd have "sd_learning_status d \<notin> unfinished" by blast
    with 2 ackrun g d(1) cd show ?thesis by (simp add: process_def w0_def Let_def)
  next
    case 3
    have "runs digest D dj w w0" by (rule runsI[OF s0])
    with 3 g d(1) cd show ?thesis by (auto simp: process_def w0_def Let_def)
  next
    case 4
    define we where "we = env 0 w0"
    have se: "goes digest D dj False w False we" unfolding we_def by (rule trans[OF s0 goes_env[OF cf env]])
    note wfe = goes_wf[OF cf se inv owes]
    obtain r1 st1 where t1: "(if cl = Forward then transition tls ?sid QUEUED PROCESSING cas None True (w_store we)
        else recover_to_processing tls ?sid (sd_learning_status d) cas (w_store we)) = (r1, st1)" by fastforce
    define w1 where "w1 = we\<lparr>w_store := st1\<rparr>"
    have s1: "goes digest D dj False w False w1"
    proof (cases r1)
      case (Inl e)
      with t1 mem.transition_error_no_write[OF wfe] mem.recover_error_no_write[OF wfe] have "st1 = w_store we"
        by (metis (full_types))
      with se show ?thesis by (simp add: w1_def)
    next
      case (Inr c)
      have "goes digest D dj False we False w1"
        unfolding w1_def by (rule goes_take[OF cf, of _ cas _ c _ "sd_learning_status d"]) (use t1 Inr in \<open>auto split: if_splits\<close>)
      with se show ?thesis by (rule trans)
    qed
    show ?thesis
    proof (cases r1)
      case (Inl e)
      with runsI[OF s1] 4 g d(1) cd t1 show ?thesis by (auto simp: process_def w0_def[symmetric] we_def w1_def Let_def)
    next
      case (Inr cas1)
      obtain rw pl where wk: "work d dj st1 (w_plane we) = (rw, pl)" by fastforce
      define w2 where "w2 = env 1 (w1\<lparr>w_plane := pl\<rparr>)"
      have "goes digest D dj False w1 False (w1\<lparr>w_plane := pl\<rparr>)"
        by (rule goes_step[OF cf]) (rule lstep.plane)
      then have s2: "goes digest D dj False w False w2"
        unfolding w2_def by (rule trans[OF trans[OF s1] goes_env[OF cf env]])
      show ?thesis
      proof (cases rw)
        case (Inl e)
        with runsI[OF s2] 4 g d(1) cd t1 Inr wk show ?thesis
          by (auto simp: process_def w0_def[symmetric] we_def[symmetric] w1_def w2_def Let_def)
      next
        case worked: (Inr u)
        let ?h = "compute_content_hash digest d"
        obtain r3 st3 where t3: "transition tls ?sid PROCESSING DONE cas1 (Some ?h) True (w_store w2) = (r3, st3)"
          by fastforce
        define w3 where "w3 = w2\<lparr>w_store := st3\<rparr>"
        have run: "snd (process digest work env clk dj w) = (case r3 of Inl e \<Rightarrow> w3 | Inr c \<Rightarrow> acked ?mid (env 2 w3))"
          using 4 g d(1) cd t1 Inr wk worked t3
          by (auto simp: process_def w0_def[symmetric] we_def[symmetric] w1_def w2_def w3_def Let_def split: sum.split)
        note wf2 = goes_wf[OF cf s2 inv owes]
        show ?thesis
        proof (cases r3)
          case (Inl e)
          with t3 mem.transition_error_no_write[OF wf2] have "st3 = w_store w2" by blast
          then have "w3 = w2" by (simp add: w3_def)
          with runsI[OF s2] run Inl show ?thesis by simp
        next
          case fin: (Inr c3)
          have "goes digest D dj False w2 False w3"
            unfolding w3_def by (rule goes_step[OF cf]) (rule lstep.finish, use t3 fin in simp)
          with s2 have s3: "goes digest D dj False w False w3" by (rule trans)
          have "status_of (w_store w3) ?sid = Some DONE"
            using mem.transition_status[OF wf2] t3 fin by (fastforce simp: w3_def)
          then have "goes digest D dj False w3 True (acked ?mid (env 2 w3))"
            by (rule goes_ack[OF cf env]) (simp add: unfinished_def)
          from runsI[OF trans[OF s3 this]] run fin show ?thesis by simp
        qed
      qed
    qed
  qed
qed

lemma dead_letter_goes:
  assumes cf: "collision_free digest D" and env: "env_ok digest D env"
    and inv: "lifecycle_inv digest D (w, due, over)" and ok: "delivery_ok w due dj"
  shows "runs digest D dj w (snd (handle_dead_letter env clk dj w))"
proof -
  let ?sid = "lj_session_id (dj_job dj)" let ?mid = "dj_message_id dj"
  have owes: "owes w due dj False" using ok by (simp add: owes_def)
  note trans = goes_trans[OF cf]
  obtain r0 st0 where g: "get_session_with_cas clk ?sid (w_store w) = (r0, st0)" by fastforce
  obtain d cas where d: "r0 = Inr (d, cas)" "status_of st0 ?sid = Some (sd_learning_status d)"
      "goes digest D dj False w False (w\<lparr>w_store := st0\<rparr>)"
    by (rule goes_read[OF cf invD(1)[OF inv] g])
  define w0 where "w0 = w\<lparr>w_store := st0\<rparr>"
  have s0: "goes digest D dj False w False w0" using d(3) by (simp add: w0_def)
  have st0: "status_of (w_store w0) ?sid = Some (sd_learning_status d)" using d(2) by (simp add: w0_def)
  define we where "we = env 0 w0"
  have se: "goes digest D dj False w False we" unfolding we_def by (rule trans[OF s0 goes_env[OF cf env]])
  show ?thesis
  proof (cases "sd_learning_status d \<in> {DONE, DEAD_LETTER}")
    case True
    then have "sd_learning_status d \<notin> unfinished" by (auto simp: unfinished_def)
    from runsI[OF trans[OF s0 goes_ack[OF cf env st0 this]]] True g d(1)
    show ?thesis by (auto simp: handle_dead_letter_def w0_def[symmetric] Let_def)
  next
    case False
    obtain r1 st1 where t1: "transition tls ?sid (sd_learning_status d) DEAD_LETTER cas None False (w_store we) = (r1, st1)"
      by fastforce
    define w1 where "w1 = we\<lparr>w_store := st1\<rparr>"
    note wfe = goes_wf[OF cf se inv owes]
    show ?thesis
    proof (cases r1)
      case (Inl e)
      with t1 mem.transition_error_no_write[OF wfe] have "st1 = w_store we" by blast
      then have "w1 = we" by (simp add: w1_def)
      with runsI[OF se] False g d(1) t1 Inl show ?thesis
        by (auto simp: handle_dead_letter_def w0_def[symmetric] we_def[symmetric] w1_def Let_def)
    next
      case (Inr c)
      have "goes digest D dj False we False w1"
        unfolding w1_def by (rule goes_step[OF cf]) (rule lstep.bury, use t1 Inr in simp)
      with se have s1: "goes digest D dj False w False w1" by (rule trans)
      have "status_of (w_store w1) ?sid = Some DEAD_LETTER"
        using mem.transition_status[OF wfe] t1 Inr by (fastforce simp: w1_def)
      then have "goes digest D dj False w1 True w1" by (rule goes_seen[OF cf]) (simp add: unfinished_def)
      from trans[OF trans[OF s1 this] goes_env[OF cf env]]
      have "goes digest D dj False w True (env 1 w1)" .
      from trans[OF this goes_settle[OF cf disjI2[OF refl]]] False g d(1) t1 Inr
      show ?thesis
        by (intro runsI) (auto simp: handle_dead_letter_def w0_def[symmetric] we_def[symmetric] w1_def[symmetric] Let_def)
    qed
  qed
qed


lemma dispatch_world:
  "snd (dispatch digest work env clk dj (t, w)) =
     snd (if dj_dead_lettered dj then handle_dead_letter env clk dj w else process digest work env clk dj w)"
proof -
  obtain r w' where x: "(if dj_dead_lettered dj then handle_dead_letter env clk dj w
      else process digest work env clk dj w) = (r, w')" by fastforce
  show ?thesis unfolding dispatch_def prod.case x by (cases r) simp_all
qed

lemma dispatch_steps:
  assumes cf: "collision_free digest D" and env: "env_ok digest D env"
    and inv: "lifecycle_inv digest D (w, due, over)" and ok: "delivery_ok w due dj"
  obtains due' over' where
    "lsteps digest D (w, due, over) (snd (dispatch digest work env clk dj (t, w)), due', over')"
proof -
  have "runs digest D dj w (snd (dispatch digest work env clk dj (t, w)))"
    unfolding dispatch_world using process_goes[OF assms] dead_letter_goes[OF assms] by simp
  then obtain b where "goes digest D dj False w b (snd (dispatch digest work env clk dj (t, w)))"
    unfolding runs_def by blast
  with inv ok show thesis unfolding goes_def owes_def by (metis that)
qed

lemma dispatch_fold_steps:
  assumes cf: "collision_free digest D" and env: "env_ok digest D env"
    and "lifecycle_inv digest D (w, due, over)" and "\<forall>dj \<in> set ds. delivery_ok w due dj"
  shows "\<exists>due' over'. lsteps digest D (w, due, over) (snd (fold (dispatch digest work env clk) ds (t, w)), due', over')"
  using assms(3,4)
proof (induction ds arbitrary: t w due over)
  case Nil
  then show ?case by auto
next
  case (Cons dj ds)
  obtain t1 w1 where d: "dispatch digest work env clk dj (t, w) = (t1, w1)" by fastforce
  obtain due1 over1 where s1: "lsteps digest D (w, due, over) (w1, due1, over1)"
    using dispatch_steps[OF cf env Cons.prems(1), of dj work clk t] Cons.prems(2) d by auto
  have inv1: "lifecycle_inv digest D (w1, due1, over1)" by (rule lsteps_inv[OF s1 cf Cons.prems(1)])
  have "\<forall>dj' \<in> set ds. delivery_ok w1 due1 dj'"
    using owes_steps[OF s1 cf Cons.prems(1), of _ False] Cons.prems(2) by (simp add: owes_def)
  from Cons.IH[OF inv1 this, of t1] s1 d show ?case by simp (meson rtranclp_trans)
qed

text \<open>The deliveries a worker is handed are messages of the stream.\<close>

lemma live_handed: "queue_wf q \<Longrightarrow> live_job q m = Some j \<Longrightarrow> \<not> never_delivered q m \<Longrightarrow> handed q m"
  unfolding queue_wf_def live_job_def handed_def by (metis option.distinct(1))

lemma reclaimed_ok:
  assumes wf: "queue_wf (w_queue w)" and r: "reclaim_stale mi mx t (w_queue w) = (rs, q)"
  shows "\<forall>dj \<in> set rs. delivery_ok (w\<lparr>w_queue := q\<rparr>) due dj"
proof
  have frame: "lq_entries q = lq_entries (w_queue w)" "lq_new q = lq_new (w_queue w)"
    using reclaim_frame[of mi mx t "w_queue w"] r by simp_all
  have handed: "handed (w_queue w) m \<Longrightarrow> handed q m" for m
    using queue_keeps_handed(2)[OF wf, of m mi mx t] r by simp
  fix dj assume "dj \<in> set rs"
  with r reclaim_stale_exact[OF wf, of mi mx t] obtain e where
    "dget (lq_pel (w_queue w)) (dj_message_id dj) = Some e" "dj_job dj = pe_job e" by auto
  with wf have "live_job (w_queue w) (dj_message_id dj) = Some (dj_job dj)"
      "\<not> never_delivered (w_queue w) (dj_message_id dj)"
    by (fastforce simp: live_job_def never_delivered_def queue_wf_def)+
  with live_handed[OF wf this] handed frame show "delivery_ok (w\<lparr>w_queue := q\<rparr>) due dj"
    by (simp add: delivery_ok_def holds_def live_job_def)
qed

lemma consumed_ok:
  assumes wf: "queue_wf (w_queue w)"
  obtains ds where "fst (consume n now (w_queue w)) = Inr ds"
    "\<forall>dj \<in> set ds. delivery_ok (w\<lparr>w_queue := snd (consume n now (w_queue w))\<rparr>) due dj"
proof -
  obtain ds where ds: "fst (consume n now (w_queue w)) = Inr ds"
      "set (map dj_message_id ds) \<inter> set (lq_new (snd (consume n now (w_queue w)))) = {}"
      "\<forall>d \<in> set ds. live_job (w_queue w) (dj_message_id d) = Some (dj_job d)"
    using consume_fresh[OF wf, of n now] by blast
  note live = consume_live[OF wf, of n now]
  have "delivery_ok (w\<lparr>w_queue := snd (consume n now (w_queue w))\<rparr>) due dj" if "dj \<in> set ds" for dj
  proof -
    have "live_job (snd (consume n now (w_queue w))) (dj_message_id dj) = Some (dj_job dj)"
      using ds(3) that live by simp
    moreover have "\<not> never_delivered (snd (consume n now (w_queue w))) (dj_message_id dj)"
      using ds(2) that by (auto simp: never_delivered_def)
    ultimately show ?thesis
      using live_handed[of "snd (consume n now (w_queue w))" "dj_message_id dj" "dj_job dj"] live
      by (simp add: delivery_ok_def holds_def)
  qed
  with ds(1) that show thesis by blast
qed

text \<open>
  C12: a whole consumer cycle (reclaim, dispatch, consume, dispatch) is a sequence of lifecycle
  steps, for any settings, any work and any interference by other processes.
\<close>

theorem consumer_cycle_refines:
  assumes cf: "collision_free digest D" and env: "env_ok digest D env"
    and inv: "lifecycle_inv digest D (w, due, over)"
  shows "\<exists>due' over'. lsteps digest D (w, due, over)
    (snd (consumer_run_once enabled s digest work env clk now now' w), due', over')"
proof (cases enabled)
  case False
  then show ?thesis by (auto simp: consumer_run_once_def)
next
  case True
  define mi where "mi = (of_int (cs_reclaim_min_idle_seconds s * 1000) :: rat)"
  obtain rs q1 where r: "reclaim_stale mi (cs_max_deliveries s) (now 0) (w_queue w) = (rs, q1)" by fastforce
  let ?w0 = "w\<lparr>w_queue := q1\<rparr>"
  have s0: "lsteps digest D (w, due, over) (?w0, due, over)"
    using lstep.redelivery[of digest D w due over mi "cs_max_deliveries s" "now 0"] r by (simp add: r_into_rtranclp)
  have inv0: "lifecycle_inv digest D (?w0, due, over)" by (rule lsteps_inv[OF s0 cf inv])
  obtain t1 w1 where f1: "fold (dispatch digest work env clk) rs (zero_tally, ?w0) = (t1, w1)" by fastforce
  obtain due1 over1 where f: "lsteps digest D (?w0, due, over) (w1, due1, over1)"
    using dispatch_fold_steps[OF cf env inv0 reclaimed_ok[OF invD(2)[OF inv] r], of work clk zero_tally] f1 by auto
  let ?w2 = "w1\<lparr>w_queue := snd (consume (cs_batch_size s) now' (w_queue w1))\<rparr>"
  have s2: "lsteps digest D (w, due, over) (?w2, due1, over1)"
    by (rule lsteps_then[OF rtranclp_trans[OF s0 f] lstep.deliver])
  have inv2: "lifecycle_inv digest D (?w2, due1, over1)" by (rule lsteps_inv[OF s2 cf inv])
  obtain ds where ds: "fst (consume (cs_batch_size s) now' (w_queue w1)) = Inr ds"
      "\<forall>dj \<in> set ds. delivery_ok ?w2 due1 dj"
    by (rule consumed_ok[OF invD(2)[OF lsteps_inv[OF rtranclp_trans[OF s0 f] cf inv]]])
  obtain due2 over2 where
    "lsteps digest D (?w2, due1, over1) (snd (fold (dispatch digest work env clk) ds (t1, ?w2)), due2, over2)"
    using dispatch_fold_steps[OF cf env inv2 ds(2)] by blast
  with s2 have "lsteps digest D (w, due, over) (snd (fold (dispatch digest work env clk) ds (t1, ?w2)), due2, over2)"
    by (rule rtranclp_trans)
  moreover have "snd (consumer_run_once enabled s digest work env clk now now' w) =
      snd (fold (dispatch digest work env clk) ds (t1, ?w2))"
    using True r f1 ds(1) by (simp add: consumer_run_once_def mi_def[symmetric] Let_def split_def del: of_int_mult)
  ultimately show ?thesis by auto
qed

section \<open>Runs of the system\<close>

text \<open>A session in status \<open>s\<close> whose message has been handed to a worker.\<close>

definition one_world :: "string \<Rightarrow> unit world" where
  "one_world s = \<lparr>w_store = one_session s,
     w_queue = snd (consume 1 (\<lambda>_. 0) (snd (enqueue (sample_job ''s1'' ''h'') empty_queue))), w_plane = ()\<rparr>"

definition one_delivery :: delivered_job where
  "one_delivery = \<lparr>dj_message_id = message_id 1, dj_job = sample_job ''s1'' ''h'', dj_delivery_count = 1,
     dj_dead_lettered = False, dj_reclaimed = False\<rparr>"

lemma one_world_views [simp]:
  "w_store (one_world s) = one_session s"
  "live_job (w_queue (one_world s)) (message_id 1) = Some (sample_job ''s1'' ''h'')"
  "\<not> never_delivered (w_queue (one_world s)) m"
  by (simp_all add: one_world_def enqueue_def empty_queue_def next_id_def consume_def live_job_def
      never_delivered_def Let_def)

text \<open>A run that queues a session: created by a user, claimed, added, marked.\<close>

definition run_doc :: session_doc where
  "run_doc = new_session_doc ''s1'' ''t0''"

definition run_start :: "unit world" where
  "run_start = \<lparr>w_store = empty_store, w_queue = empty_queue, w_plane = ()\<rparr>"

definition run_created :: "unit world" where
  "run_created = run_start\<lparr>w_store := snd (get_or_create_session (\<lambda>_. ''t0'') ''s1'' (w_store run_start))\<rparr>"

definition run_swept :: "unit world" where
  "run_swept = snd (sweep_one id (\<lambda>_. None) (\<lambda>_. None) (run_doc, 0) run_created)"

lemma run_created_store:
  "w_store run_created = \<lparr>ss_docs = [(''s1'', run_doc)], ss_versions = [(''s1'', 0)], ss_results = []\<rparr>"
  by (simp add: run_created_def run_start_def run_doc_def get_or_create_session_def empty_store_def Let_def)

lemma run_swept_reached: "lsteps id {run_doc} (run_start, {}, {}) (run_swept, {}, {})"
proof -
  have "lsteps id {run_doc} (run_start, {}, {}) (run_created, {}, {})"
    unfolding run_created_def by (rule r_into_rtranclp) (rule lstep.create)
  moreover have "lsteps id {run_doc} (run_created, {}, {}) (run_swept, {}, {})"
    unfolding run_swept_def by (rule sweep_one_steps)
      (simp_all add: run_created_store, auto simp: store_wf_def dict_wf_def run_doc_def new_session_doc_def store_views)
  ultimately show ?thesis by (rule rtranclp_trans)
qed

lemma run_collision_free: "collision_free id {run_doc}"
  by (simp add: collision_free_def)

lemma run_swept_inv: "lifecycle_inv id {run_doc} (run_swept, {}, {})"
  by (rule lsteps_inv[OF run_swept_reached run_collision_free]) (simp add: run_start_def lifecycle_inv_init)

lemma run_swept_status: "status_of (w_store run_swept) ''s1'' = Some QUEUED"
proof -
  have "sd_session_id run_doc = ''s1''" "sd_learning_status run_doc = ACTIVE"
    by (simp_all add: run_doc_def new_session_doc_def)
  then show ?thesis
    by (simp add: run_swept_def sweep_one_def run_created_store Let_def transition_def valid_successors
        transition_learning_status_def version_of_def bump_version_def put_doc_def status_of_def doc_of_def
        dget_or_def split_def VALID_TRANSITIONS_def)
qed

text \<open>The cycle is handed the message of that session and finishes it.\<close>

theorem consumer_cycle_refines_witness:
  "status_of (w_store run_swept) ''s1'' = Some QUEUED \<and>
   (let out = consumer_run_once True \<lparr>cs_reclaim_min_idle_seconds = 60, cs_max_deliveries = 3, cs_batch_size = 10\<rparr>
      id (\<lambda>d dj st p. (Inr (), p)) (\<lambda>_ w. w) (\<lambda>_. ''t1'') (\<lambda>_. 0) (\<lambda>_. 0) run_swept
    in (\<exists>due over. lsteps id {run_doc} (run_swept, {}, {}) (snd out, due, over)) \<and>
       map_sum id cr_done (fst out) = Inr 1 \<and> status_of (w_store (snd out)) ''s1'' = Some DONE)"
  unfolding Let_def
proof (intro conjI)
  let ?s = "\<lparr>cs_reclaim_min_idle_seconds = 60, cs_max_deliveries = 3, cs_batch_size = 10\<rparr>"
  let ?out = "consumer_run_once True ?s id (\<lambda>d dj st p. (Inr (), p)) (\<lambda>_ w. w) (\<lambda>_. ''t1'') (\<lambda>_. 0) (\<lambda>_. 0) run_swept"
  show "status_of (w_store run_swept) ''s1'' = Some QUEUED" by (rule run_swept_status)
  show "\<exists>due over. lsteps id {run_doc} (run_swept, {}, {}) (snd ?out, due, over)"
    by (rule consumer_cycle_refines[OF run_collision_free env_ok_id run_swept_inv])
  show "map_sum id cr_done (fst ?out) = Inr 1" and "status_of (w_store (snd ?out)) ''s1'' = Some DONE"
    by code_simp+
qed



text \<open>
  The exception is real. A worker finishes \<open>s1\<close>, whose content has changed since it was swept; before
  its ack, a second worker that reclaimed the message finds \<open>done\<close> with another hash, claims the
  session again and fails. The ack of the first then removes the last message: \<open>s1\<close> stays in
  \<open>processing\<close> with no message on the stream.
\<close>

definition reclaiming_worker :: "nat \<Rightarrow> unit world \<Rightarrow> unit world" where
  "reclaiming_worker i w = (if i = 2
     then snd (process id (\<lambda>d dj st p. (Inl (OtherError ''work failed''), p)) (\<lambda>_ w. w) (\<lambda>_. ''t2'')
       (one_delivery\<lparr>dj_reclaimed := True, dj_delivery_count := 2\<rparr>) w)
     else w)"

theorem late_ack_strands:
  "case process id (\<lambda>d dj st p. (Inr (), p)) reclaiming_worker (\<lambda>_. ''t1'') one_delivery (one_world QUEUED) of
     (r, w) \<Rightarrow> r = Inr ''done'' \<and> status_of (w_store w) ''s1'' = Some PROCESSING \<and> lq_entries (w_queue w) = []"
  by code_simp

end
