(* ===== verification/LearningProgress.thy ===== *)
theory LearningProgress
  imports LearningLifecycle
begin

text \<open>
  Progress of the two learning workers: an undisturbed sweep queues an idle session, an
  undisturbed delivery of a claimable one finishes it, and a consumer cycle counts every
  delivery once.
\<close>

section \<open>Sweeping and processing succeed\<close>

text \<open>
  An undisturbed sweep of an idle session queues it: from \<open>active\<close> or \<open>pending\<close> it ends
  \<open>queued\<close> with the hash of its current content recorded and that hash marked on the queue, and
  the counters rise by one claim (from \<open>active\<close>) and one enqueue.
\<close>

theorem sweep_one_queues:
  assumes wf: "store_wf (w_store w)" and doc: "doc_of (w_store w) (sd_session_id d) = Some d"
    and ver: "ver_of (w_store w) (sd_session_id d) = Some cas"
    and st: "sd_learning_status d \<in> {ACTIVE, PENDING}" and ok: "xadd d = None"
  shows "fst (sweep_one digest xadd tp (d, cas) w) = (if sd_learning_status d = ACTIVE then 1 else 0, 1) \<and>
    (\<exists>d'. doc_of (w_store (snd (sweep_one digest xadd tp (d, cas) w))) (sd_session_id d) = Some d' \<and>
       sd_learning_status d' = QUEUED \<and> sd_learning_content_hash d' = Some (compute_content_hash digest d) \<and>
       compute_content_hash digest d' = compute_content_hash digest d) \<and>
    dget (lq_dedup (w_queue (snd (sweep_one digest xadd tp (d, cas) w)))) (compute_content_hash digest d) \<noteq> None"
proof -
  let ?sid = "sd_session_id d" let ?h = "compute_content_hash digest d"
  obtain cas1 st1 d1 where t1: "(if sd_learning_status d = ACTIVE
      then transition tls ?sid ACTIVE PENDING cas None True (w_store w) else (Inr cas, w_store w)) = (Inr cas1, st1)"
    and d1: "doc_of st1 ?sid = Some d1" "ver_of st1 ?sid = Some cas1" "sd_learning_status d1 = PENDING"
      "compute_content_hash digest d1 = ?h" "store_wf st1"
  proof (cases "sd_learning_status d = ACTIVE")
    case True
    let ?d1 = "d\<lparr>sd_learning_status := PENDING, sd_learning_content_hash := sd_learning_content_hash d\<rparr>"
    have "transition tls ?sid ACTIVE PENDING cas None True (w_store w) =
        (Inr (cas + 1), bump_version ?sid (put_doc ?sid ?d1 (w_store w)))"
      using doc ver True
      by (simp add: transition_def valid_successors transition_status_cases[OF wf] status_of_def Let_def)
    with True ver show thesis
      by (intro that[of "cas + 1" "bump_version ?sid (put_doc ?sid ?d1 (w_store w))" ?d1])
        (simp_all add: store_wf_write[OF wf])
  next
    case False
    with st doc ver wf show thesis by (intro that[of cas "w_store w" d]) simp_all
  qed
  let ?d2 = "d1\<lparr>sd_learning_status := QUEUED, sd_learning_content_hash := Some ?h\<rparr>"
  have t2: "transition tls ?sid PENDING QUEUED cas1 (Some ?h) True st1 =
      (Inr (cas1 + 1), bump_version ?sid (put_doc ?sid ?d2 st1))"
    using d1 by (simp add: transition_def valid_successors transition_status_cases[OF d1(5)] status_of_def Let_def)
  obtain m q1 where e: "enqueue (job_from_doc d ?h (Some cas1) (tp d)) (w_queue w) = (m, q1)" by fastforce
  have "dget (lq_dedup q1) ?h \<noteq> None" using enqueue_mark_set[OF e] by (simp add: job_from_doc_def)
  then show ?thesis using t1 t2 e ok d1 by (simp add: sweep_one_def Let_def)
qed

theorem sweep_one_queues_witness:
  "fst (sweep_one id (\<lambda>_. None) (\<lambda>_. None) (run_doc, 0) run_created) = (1, 1) \<and>
   status_of (w_store run_swept) ''s1'' = Some QUEUED"
proof -
  have sid: "sd_session_id run_doc = ''s1''" and act: "sd_learning_status run_doc = ACTIVE"
    by (simp_all add: run_doc_def new_session_doc_def)
  have wf: "store_wf (w_store run_created)"
    by (auto simp: run_created_store store_wf_def dict_wf_def sid)
  have doc: "doc_of (w_store run_created) (sd_session_id run_doc) = Some run_doc"
    and ver: "ver_of (w_store run_created) (sd_session_id run_doc) = Some 0"
    by (simp_all add: run_created_store sid store_views)
  have st: "sd_learning_status run_doc \<in> {ACTIVE, PENDING}" by (simp add: act)
  note q = sweep_one_queues[where xadd = "\<lambda>_. None" and digest = id and tp = "\<lambda>_. None", OF wf doc ver st refl]
  from q have "\<exists>d'. doc_of (w_store run_swept) ''s1'' = Some d' \<and> sd_learning_status d' = QUEUED"
    unfolding sid run_swept_def by blast
  then have "status_of (w_store run_swept) ''s1'' = Some QUEUED" by (auto simp: status_of_def)
  moreover from q have "fst (sweep_one id (\<lambda>_. None) (\<lambda>_. None) (run_doc, 0) run_created) = (1, 1)"
    unfolding act by simp
  ultimately show ?thesis by blast
qed

text \<open>
  C31: an undisturbed delivery of a claimable session finishes: from \<open>queued\<close>, from \<open>processing\<close>
  when the delivery is a reclaim (a crashed owner's work), or from \<open>done\<close> with other content, the
  outcome is \<open>done\<close>, the session records the hash of what was processed, and the message is acked.
\<close>

theorem process_reaches_done:
  assumes wf: "store_wf (w_store w)" and doc: "doc_of (w_store w) (lj_session_id (dj_job dj)) = Some d"
    and st: "sd_learning_status d = QUEUED \<or> (sd_learning_status d = PROCESSING \<and> dj_reclaimed dj) \<or>
        (sd_learning_status d = DONE \<and> sd_learning_content_hash d \<noteq> Some (lj_content_hash (dj_job dj)))"
    and work: "\<And>st p. fst (work d dj st p) = Inr ()"
  shows "fst (process digest work (\<lambda>_ s. s) clk dj w) = Inr ''done'' \<and>
    (\<exists>d'. doc_of (w_store (snd (process digest work (\<lambda>_ s. s) clk dj w))) (lj_session_id (dj_job dj)) = Some d' \<and>
       sd_learning_status d' = DONE \<and> sd_learning_content_hash d' = Some (compute_content_hash digest d)) \<and>
    live_job (w_queue (snd (process digest work (\<lambda>_ s. s) clk dj w))) (dj_message_id dj) = None"
proof -
  let ?sid = "lj_session_id (dj_job dj)" let ?st = "w_store w"
  obtain v where v: "ver_of ?st ?sid = Some v" using store_wf_version[OF wf doc] by blast
  have sid: "sd_session_id d = ?sid" using wf doc by (simp add: store_wf_def doc_of_def)
  have g: "get_session_with_cas clk ?sid ?st = (Inr (d, v), ?st)"
    using doc v by (simp add: get_session_with_cas_def get_or_create_session_def version_of_def store_views)
  define cl where "cl = fst (claim_decision (sd_learning_status d) (dj_reclaimed dj))"
  have cl: "cl = (if sd_learning_status d = QUEUED then Forward else Recover)"
    using st by (auto simp: cl_def claim_decision_def)
  let ?d1 = "d\<lparr>sd_learning_status := PROCESSING, sd_learning_content_hash := sd_learning_content_hash d\<rparr>"
  let ?st1 = "bump_version ?sid (put_doc ?sid ?d1 ?st)"
  have t1: "(if cl = Forward then transition tls ?sid QUEUED PROCESSING v None True ?st
      else recover_to_processing tls ?sid (sd_learning_status d) v ?st) = (Inr (v + 1), ?st1)"
    using st doc v unfolding cl
    by (auto simp: transition_def recover_to_processing_def valid_successors recovery_sources
        transition_status_cases[OF wf] status_of_def Let_def)
  have wf1: "store_wf ?st1" using sid by (simp add: store_wf_write[OF wf])
  let ?d2 = "?d1\<lparr>sd_learning_status := DONE, sd_learning_content_hash := Some (compute_content_hash digest d)\<rparr>"
  have p1: "status_of ?st1 ?sid = Some PROCESSING" "ver_of ?st1 ?sid = Some (v + 1)" "doc_of ?st1 ?sid = Some ?d1"
    using v by (simp_all add: status_of_def)
  have t2: "transition tls ?sid PROCESSING DONE (v + 1) (Some (compute_content_hash digest d)) True ?st1 =
      (Inr (v + 2), bump_version ?sid (put_doc ?sid ?d2 ?st1))"
    unfolding transition_def transition_status_cases[OF wf1] p1 by (simp add: valid_successors Let_def)
  obtain pl where wk: "work d dj ?st1 (w_plane w) = (Inr (), pl)"
    using work[of ?st1 "w_plane w"] by (metis prod.collapse)
  have nd: "\<not> (sd_learning_status d = DONE \<and> sd_learning_content_hash d = Some (lj_content_hash (dj_job dj)))"
    using st by auto
  obtain rs where cd: "claim_decision (sd_learning_status d) (dj_reclaimed dj) = (cl, rs)"
    by (metis cl_def prod.collapse)
  have cl2: "cl \<noteq> Terminal" "cl \<noteq> Refuse" using cl by (auto split: if_splits)
  have "process digest work (\<lambda>_ s. s) clk dj w = (Inr ''done'', w\<lparr>w_store := bump_version ?sid (put_doc ?sid ?d2 ?st1),
      w_plane := pl, w_queue := ack (dj_message_id dj) (w_queue w)\<rparr>)"
    unfolding process_def Let_def g prod.case sum.case if_not_P[OF nd] cd if_not_P[OF cl2(1)] if_not_P[OF cl2(2)]
    by (cases "cl = Forward") (use t1 t2 wk in \<open>simp_all add: acked_def\<close>)
  then show ?thesis by (simp add: live_job_def ack_def)
qed

theorem process_reaches_done_witness:
  "fst (process id (\<lambda>d dj st p. (Inr (), p)) (\<lambda>_ s. s) (\<lambda>_. ''t1'') one_delivery (one_world QUEUED)) = Inr ''done''"
  using process_reaches_done[of "one_world QUEUED" one_delivery
      "(new_session_doc ''s1'' ''t0'')\<lparr>sd_learning_status := QUEUED\<rparr>" "\<lambda>d dj st p. (Inr (), p)" id "\<lambda>_. ''t1''"]
  by (simp add: one_session_doc one_delivery_def sample_job_def)

definition tally_sum :: "tally \<Rightarrow> nat" where
  "tally_sum t = t_done t + t_dedup t + t_dead t + t_skipped t"

lemma tally_dispatch: "tally_sum (fst (dispatch digest work env clk dj tw)) = tally_sum (fst tw) + 1"
proof -
  obtain t w where tw: "tw = (t, w)" by fastforce
  obtain r w' where x: "(if dj_dead_lettered dj then handle_dead_letter env clk dj w
      else process digest work env clk dj w) = (r, w')" by fastforce
  show ?thesis unfolding dispatch_def tw prod.case x
    by (cases r) (auto simp: tally_sum_def tally_record_def)
qed

lemma tally_fold:
  "tally_sum (fst (fold (dispatch digest work env clk) ds tw)) = tally_sum (fst tw) + length ds"
  by (induction ds arbitrary: tw) (simp_all add: tally_dispatch)

text \<open>
  The counters of a consumer cycle account for every delivery: each one handed out, reclaimed
  or new, is counted exactly once as done, dedup skip, dead letter or skipped.
\<close>

theorem consumer_cycle_tally:
  assumes "consumer_run_once True s digest work env clk now now' w = (Inr r, w')"
  shows "\<exists>reclaimed batch q wq. reclaim_stale (of_int (cs_reclaim_min_idle_seconds s * 1000))
      (cs_max_deliveries s) (now 0) (w_queue w) = (reclaimed, q) \<and>
    fst (consume (cs_batch_size s) now' wq) = Inr batch \<and>
    cr_done r + cr_dedup_skips r + cr_dead_letters r + cr_skipped r = length reclaimed + length batch"
proof -
  define mi where "mi = (of_int (cs_reclaim_min_idle_seconds s * 1000) :: rat)"
  obtain rs q1 where r: "reclaim_stale mi (cs_max_deliveries s) (now 0) (w_queue w) = (rs, q1)" by fastforce
  obtain t1 w1 where f1: "fold (dispatch digest work env clk) rs (zero_tally, w\<lparr>w_queue := q1\<rparr>) = (t1, w1)" by fastforce
  obtain rb q2 where c: "consume (cs_batch_size s) now' (w_queue w1) = (rb, q2)" by fastforce
  note d = assms[unfolded consumer_run_once_def mi_def[symmetric] r f1 c Let_def prod.case, simplified]
  obtain ds where ds: "rb = Inr ds" using d by (cases rb) auto
  obtain t2 w3 where f2: "fold (dispatch digest work env clk) ds (t1, w1\<lparr>w_queue := q2\<rparr>) = (t2, w3)" by fastforce
  have "tally_sum t1 = length rs"
    using tally_fold[of digest work env clk rs "(zero_tally, w\<lparr>w_queue := q1\<rparr>)"] f1
    by (simp add: tally_sum_def zero_tally_def)
  moreover have "tally_sum t2 = tally_sum t1 + length ds"
    using tally_fold[of digest work env clk ds "(t1, w1\<lparr>w_queue := q2\<rparr>)"] f2 by simp
  moreover have "cr_done r + cr_dedup_skips r + cr_dead_letters r + cr_skipped r = tally_sum t2"
    using d ds f2 by (auto simp: tally_sum_def)
  ultimately show ?thesis using r c ds by (metis fst_conv mi_def)
qed

theorem consumer_cycle_tally_witness:
  "\<exists>r w'. consumer_run_once True
     \<lparr>cs_reclaim_min_idle_seconds = 60, cs_max_deliveries = 3, cs_batch_size = 10\<rparr>
     id (\<lambda>d dj st p. (Inr (), p)) (\<lambda>_ st. st) (\<lambda>_. ''t1'') (\<lambda>_. 0) (\<lambda>_. 0)
     \<lparr>w_store = one_session QUEUED, w_queue = empty_queue, w_plane = ()\<rparr> = (Inr r, w') \<and>
   cr_done r + cr_dedup_skips r + cr_dead_letters r + cr_skipped r = 0"
proof -
  let ?s = "\<lparr>cs_reclaim_min_idle_seconds = 60, cs_max_deliveries = 3, cs_batch_size = 10\<rparr>"
  let ?w = "\<lparr>w_store = one_session QUEUED, w_queue = empty_queue, w_plane = ()\<rparr>"
  have run: "consumer_run_once True ?s id (\<lambda>d dj st p. (Inr (), p)) (\<lambda>_ st. st) (\<lambda>_. ''t1'') (\<lambda>_. 0) (\<lambda>_. 0) ?w
      = (Inr \<lparr>cr_done = 0, cr_dedup_skips = 0, cr_dead_letters = 0, cr_skipped = 0, cr_disabled = False\<rparr>, ?w)"
    by (simp add: consumer_run_once_def reclaim_stale_def empty_queue_def consume_def zero_tally_def)
  from consumer_cycle_tally[OF run] show ?thesis using run by auto
qed

end
