(* ===== verification/PyText.thy ===== *)
theory PyText
  imports PyVal "HOL-Library.Sublist"
begin

text \<open>
  The text operations the runtime uses on untrusted text: \<^verbatim>\<open>str.strip\<close>, \<^verbatim>\<open>str.split\<close> on
  whitespace, and \<^verbatim>\<open>sanitize_text\<close> of \<^verbatim>\<open>runtime/sanitize.py\<close>. Characters are code points below
  256, so the whitespace and control classes are those of that range.
\<close>

definition code :: "char \<Rightarrow> nat" where
  "code c = of_char c"

text \<open>\<^verbatim>\<open>str.isspace\<close>: tab to carriage return, the separators 28 to 31, space, NEL, no-break space.\<close>

definition py_space :: "char \<Rightarrow> bool" where
  "py_space c \<longleftrightarrow> (9 \<le> code c \<and> code c \<le> 13) \<or> (28 \<le> code c \<and> code c \<le> 32) \<or> code c = 133 \<or> code c = 160"

definition py_lstrip :: "string \<Rightarrow> string" where
  "py_lstrip s = dropWhile py_space s"

definition py_strip :: "string \<Rightarrow> string" where
  "py_strip s = rev (py_lstrip (rev (py_lstrip s)))"

declare dropWhile_eq_Nil_conv [simp del]

lemma dropWhile_subset: "set (dropWhile P xs) \<subseteq> set xs"
  by (auto dest: set_dropWhileD)

lemma py_strip_subset: "set (py_strip s) \<subseteq> set s"
  using dropWhile_subset[of py_space "rev (dropWhile py_space s)"] dropWhile_subset[of py_space s]
  by (simp add: py_strip_def py_lstrip_def)

lemma dropWhile_id: "xs = [] \<or> \<not> P (hd xs) \<Longrightarrow> dropWhile P xs = xs"
  by (cases xs) auto

lemma py_strip_ends: "py_strip s \<noteq> [] \<Longrightarrow> \<not> py_space (hd (py_strip s)) \<and> \<not> py_space (last (py_strip s))"
proof -
  assume ne: "py_strip s \<noteq> []"
  let ?l = "dropWhile py_space s" let ?r = "dropWhile py_space (rev ?l)"
  have r: "?r \<noteq> []" using ne by (simp add: py_strip_def py_lstrip_def)
  then have l: "?l \<noteq> []" by auto
  have "\<not> py_space (hd ?r)" using r by (rule hd_dropWhile)
  then have last: "\<not> py_space (last (rev ?r))" using r by (simp add: last_rev)
  have "suffix ?r (rev ?l)" by (rule suffix_dropWhile)
  then have "prefix (rev ?r) ?l" by (simp add: suffix_to_prefix)
  then obtain zs where zs: "?l = rev ?r @ zs" by (auto simp: prefix_def)
  have "hd ?l = hd (rev ?r @ zs)" by (subst zs) (rule refl)
  then have "hd (rev ?r) = hd ?l" using r by simp
  moreover have "\<not> py_space (hd ?l)" using l by (rule hd_dropWhile)
  ultimately show ?thesis using last by (simp add: py_strip_def py_lstrip_def)
qed

lemma py_strip_idem [simp]: "py_strip (py_strip s) = py_strip s"
proof (cases "py_strip s = []")
  case True
  then show ?thesis by (simp only: py_strip_def py_lstrip_def) simp
next
  case False
  let ?t = "py_strip s"
  from py_strip_ends[OF False] have "dropWhile py_space ?t = ?t" "dropWhile py_space (rev ?t) = rev ?t"
    using False by (auto intro!: dropWhile_id simp: hd_rev)
  then show ?thesis by (simp add: py_strip_def[of ?t] py_lstrip_def)
qed

text \<open>\<^verbatim>\<open>s.split()\<close>: the maximal runs of characters that are not whitespace.\<close>

function py_split :: "string \<Rightarrow> string list" where
  "py_split s = (let t = dropWhile py_space s
     in if t = [] then [] else takeWhile (\<lambda>c. \<not> py_space c) t # py_split (dropWhile (\<lambda>c. \<not> py_space c) t))"
  by pat_completeness auto
termination
proof (relation "measure length", simp, goal_cases)
  case (1 s t)
  then obtain c u where t: "t = c # u" by (metis list.exhaust)
  then have "\<not> py_space c" using 1 hd_dropWhile[of py_space s] by simp
  then have "length (dropWhile (\<lambda>c. \<not> py_space c) t) < length t"
    using length_dropWhile_le[of "\<lambda>c. \<not> py_space c" u] by (simp add: t)
  moreover have "length t \<le> length s" using 1 by (simp add: length_dropWhile_le)
  ultimately show ?case by simp
qed

declare py_split.simps [simp del]

lemma py_split_words: "w \<in> set (py_split s) \<Longrightarrow> w \<noteq> [] \<and> set w \<subseteq> {c \<in> set s. \<not> py_space c}"
proof (induction s rule: py_split.induct)
  case (1 s)
  let ?t = "dropWhile py_space s"
  show ?case
  proof (cases "?t = []")
    case True
    with 1(2) show ?thesis by (subst (asm) py_split.simps) simp
  next
    case False
    have sub: "set (dropWhile (\<lambda>c. \<not> py_space c) ?t) \<subseteq> set s"
      by (meson set_dropWhileD subsetI)
    from 1(2) False consider "w = takeWhile (\<lambda>c. \<not> py_space c) ?t" | "w \<in> set (py_split (dropWhile (\<lambda>c. \<not> py_space c) ?t))"
      by (subst (asm) py_split.simps) (auto simp: Let_def)
    then show ?thesis
    proof cases
      case 1
      have "\<not> py_space (hd ?t)" using False by (rule hd_dropWhile)
      then have "w \<noteq> []" using False 1 by (cases ?t) auto
      then show ?thesis unfolding 1 by (auto dest: set_takeWhileD set_dropWhileD)
    next
      case 2
      from "1.IH"[OF refl False 2] sub show ?thesis by auto
    qed
  qed
qed

section \<open>Sanitised fields\<close>

definition MAX_FIELD_CHARS :: nat where
  "MAX_FIELD_CHARS = 500"

definition ws_control :: "char \<Rightarrow> bool" where
  "ws_control c \<longleftrightarrow> 9 \<le> code c \<and> code c \<le> 13"

text \<open>Unicode category \<open>Cc\<close>.\<close>

definition control_char :: "char \<Rightarrow> bool" where
  "control_char c \<longleftrightarrow> code c < 32 \<or> (127 \<le> code c \<and> code c \<le> 159)"

fun join_words :: "string list \<Rightarrow> string" where
  "join_words [] = []"
| "join_words [w] = w"
| "join_words (w # v # ws) = w @ '' '' @ join_words (v # ws)"

definition sanitize_text :: "string \<Rightarrow> nat \<Rightarrow> string" where
  "sanitize_text s cap =
     take cap (join_words (py_split (concat (map (\<lambda>c. if ws_control c then '' '' else if control_char c then [] else [c]) s))))"

lemma join_words_chars: "c \<in> set (join_words ws) \<Longrightarrow> c = CHR '' '' \<or> (\<exists>w \<in> set ws. c \<in> set w)"
  by (induction ws rule: join_words.induct) auto

fun no_double_space :: "string \<Rightarrow> bool" where
  "no_double_space (a # b # s) \<longleftrightarrow> \<not> (py_space a \<and> py_space b) \<and> no_double_space (b # s)"
| "no_double_space _ \<longleftrightarrow> True"

lemma no_double_append:
  "no_double_space xs \<Longrightarrow> no_double_space ys \<Longrightarrow> xs = [] \<or> ys = [] \<or> \<not> py_space (last xs) \<or> \<not> py_space (hd ys) \<Longrightarrow>
     no_double_space (xs @ ys)"
proof (induction xs)
  case (Cons a xs)
  then show ?case by (cases xs; cases ys) auto
qed auto

lemma no_double_word: "\<forall>c \<in> set w. \<not> py_space c \<Longrightarrow> no_double_space w"
  by (induction w rule: no_double_space.induct) auto

lemma no_double_join:
  "\<forall>w \<in> set ws. w \<noteq> [] \<and> (\<forall>c \<in> set w. \<not> py_space c) \<Longrightarrow>
     no_double_space (join_words ws) \<and> (ws \<noteq> [] \<longrightarrow> join_words ws \<noteq> [] \<and> \<not> py_space (hd (join_words ws)))"
proof (induction ws rule: join_words.induct)
  case (3 w v ws)
  then have IH: "no_double_space (join_words (v # ws))" "\<not> py_space (hd (join_words (v # ws)))"
    and w: "w \<noteq> []" "\<forall>c \<in> set w. \<not> py_space c" by auto
  have "no_double_space (CHR '' '' # join_words (v # ws))"
    using no_double_append[of "'' ''" "join_words (v # ws)"] IH by simp
  moreover have "\<not> py_space (last w)" using w by simp
  ultimately have "no_double_space (w @ CHR '' '' # join_words (v # ws))"
    using w by (intro no_double_append) (simp_all add: no_double_word)
  moreover have "\<not> py_space (hd w)" using w by simp
  ultimately show ?case using w by simp
qed (auto intro: no_double_word)

lemma no_double_take: "no_double_space s \<Longrightarrow> no_double_space (take n s)"
proof (induction s arbitrary: n rule: no_double_space.induct)
  case (1 a b s)
  show ?case
  proof (cases n)
    case (Suc m)
    with 1(1)[of m] 1(2) show ?thesis by (cases m) auto
  qed simp
qed (auto simp: take_Cons')

text \<open>
  Sanitised text cannot forge the structure of the message it lands in: it holds no control
  character (so no line break), no two adjacent blanks, and at most the cap's characters.
\<close>

theorem sanitize_text_structural:
  "set (sanitize_text s cap) \<inter> Collect control_char = {} \<and> no_double_space (sanitize_text s cap) \<and>
   length (sanitize_text s cap) \<le> cap"
proof -
  let ?m = "concat (map (\<lambda>c. if ws_control c then '' '' else if control_char c then [] else [c]) s)"
  have words: "\<forall>w \<in> set (py_split ?m). w \<noteq> [] \<and> (\<forall>c \<in> set w. \<not> py_space c) \<and> set w \<subseteq> set ?m"
    using py_split_words by blast
  have m: "c \<in> set ?m \<Longrightarrow> \<not> control_char c" for c
    by (auto simp: control_char_def code_def split: if_splits)
  have "\<not> control_char c" if "c \<in> set (join_words (py_split ?m))" for c
    using join_words_chars[OF that] words m by (auto simp: control_char_def code_def)
  then have "\<forall>c \<in> set (sanitize_text s cap). \<not> control_char c"
    unfolding sanitize_text_def by (auto dest: in_set_takeD)
  moreover have "no_double_space (sanitize_text s cap)"
    unfolding sanitize_text_def using no_double_join words by (intro no_double_take) blast
  ultimately show ?thesis by (auto simp: sanitize_text_def)
qed

section \<open>Repr and str\<close>

text \<open>
  \<^verbatim>\<open>repr\<close> of a text: double quotes only when it holds a single quote and no double one, the
  usual escapes, and hexadecimal for the code points of this range that do not print.
\<close>

definition quoted :: "string \<Rightarrow> string" where
  "quoted s = [CHR 0x27] @ s @ [CHR 0x27]"

definition repr_unprintable :: "char \<Rightarrow> bool" where
  "repr_unprintable c \<longleftrightarrow> code c < 32 \<or> (127 \<le> code c \<and> code c \<le> 160) \<or> code c = 173"

definition repr_char :: "char \<Rightarrow> char \<Rightarrow> string" where
  "repr_char q c =
     (if c = q \<or> code c = 92 then [CHR 0x5C, c]
      else if code c = 10 then CHR 0x5C # ''n''
      else if code c = 13 then CHR 0x5C # ''r''
      else if code c = 9 then CHR 0x5C # ''t''
      else if repr_unprintable c then [CHR 0x5C, CHR 0x78, hex_digit (code c div 16), hex_digit (code c mod 16)]
      else [c])"

definition repr_str :: "string \<Rightarrow> string" where
  "repr_str s =
     (let q = (if CHR 0x27 \<in> set s \<and> CHR 0x22 \<notin> set s then CHR 0x22 else CHR 0x27)
      in [q] @ concat (map (repr_char q) s) @ [q])"

primrec py_repr :: "pyval \<Rightarrow> string" where
  "py_repr PNone = ''None''"
| "py_repr (PBool b) = (if b then ''True'' else ''False'')"
| "py_repr (PInt i) = show_int i"
| "py_repr (PFloat r) = r"
| "py_repr (PStr s) = repr_str s"
| "py_repr (PList xs) = ''['' @ join '', '' (map py_repr xs) @ '']''"
| "py_repr (PDict kvs) =
     ''{'' @ join '', '' (map (\<lambda>(k, t). repr_str k @ '': '' @ t) (map (map_prod id py_repr) kvs)) @ ''}''"

definition py_str :: "pyval \<Rightarrow> string" where
  "py_str v = (case v of PStr s \<Rightarrow> s | _ \<Rightarrow> py_repr v)"

definition repr_strs :: "string list \<Rightarrow> string" where
  "repr_strs xs = py_repr (PList (map PStr xs))"

end
