(* ===== verification/BlueprintWhen.thy ===== *)
theory BlueprintWhen
  imports PyText Complex_Main
begin

text \<open>
  The declarative \<open>when\<close> clause of \<^verbatim>\<open>runtime/blueprint/when.py\<close>: the reference rewrite, the
  grammar check and the evaluator. The expression is the tree that Python's own \<^verbatim>\<open>ast.parse\<close>
  returns for the rewritten text, which is the parameter \<open>parse\<close> (\<open>None\<close> is a syntax error).
  Numbers are rationals: an int, a float and a bool compare by value, and nan is not modelled.
\<close>

section \<open>Trees and values\<close>

datatype when_val =
    WNone
  | WBool bool
  | WNum rat
  | WStr string
  | WSeq "when_val list"
  | WDict "(string \<times> when_val) list"

datatype cmp_op = Gt | GtE | Lt | LtE | Eq | NotEq | In | NotIn | OtherCmp

datatype when_expr =
    BoolOp bool "when_expr list"
  | NotOp when_expr
  | Compare when_expr "cmp_op list" "when_expr list"
  | Call when_expr "when_expr list" bool
  | Name string
  | Constant when_val
  | LiteralSeq "when_expr list"
  | OtherExpr

section \<open>References\<close>

definition REF_PREFIX :: string where
  "REF_PREFIX = ''__bpref_''"

definition ident_start :: "char \<Rightarrow> bool" where
  "ident_start c \<longleftrightarrow> (65 \<le> code c \<and> code c \<le> 90) \<or> (97 \<le> code c \<and> code c \<le> 122) \<or> code c = 95"

definition ident_char :: "char \<Rightarrow> bool" where
  "ident_char c \<longleftrightarrow> ident_start c \<or> is_digit c"

text \<open>
  \<^verbatim>\<open>_REF.sub(_normalize_ref, s)\<close>: every leftmost \<^verbatim>\<open>$N\<close> or \<^verbatim>\<open>$N.field\<close>, digits and field as
  long as they go.
\<close>

fun field_of :: "string \<Rightarrow> string \<times> string" where
  "field_of (d # f # r) = (if d = CHR ''.'' \<and> ident_start f
     then (f # takeWhile ident_char r, dropWhile ident_char r) else ([], d # f # r))"
| "field_of r = ([], r)"

lemma field_of_length: "length (snd (field_of r)) \<le> length r"
  by (induction r rule: field_of.induct) (simp_all add: length_dropWhile_le le_SucI)

function sub_refs :: "string \<Rightarrow> string" where
  "sub_refs [] = []"
| "sub_refs (c # s) =
     (if c = CHR ''$'' \<and> takeWhile is_digit s \<noteq> [] then
        (let node = takeWhile is_digit s; (fld, rest) = field_of (dropWhile is_digit s)
         in REF_PREFIX @ node @ (if fld \<noteq> [] then CHR ''_'' # fld else []) @ sub_refs rest)
      else c # sub_refs s)"
  by pat_completeness auto
termination
proof (relation "measure length", simp, goal_cases)
  case (1 c s node x fld rest)
  have "length rest \<le> length (dropWhile is_digit s)"
    using field_of_length[of "dropWhile is_digit s"] 1 by (metis snd_conv)
  also have "\<dots> \<le> length s" by (rule length_dropWhile_le)
  finally show ?case by simp
qed simp

definition canonical_ref :: "string \<Rightarrow> string" where
  "canonical_ref key = (if prefix REF_PREFIX key then key else sub_refs key)"

definition parse_when :: "(string \<Rightarrow> when_expr option) \<Rightarrow> string \<Rightarrow> when_expr result" where
  "parse_when parse expr = (case parse (sub_refs expr) of
     None \<Rightarrow> Inl (WhenClauseError ''when.expr is not a valid expression'') | Some t \<Rightarrow> Inr t)"

fun is_ref_name :: "when_expr \<Rightarrow> bool" where
  "is_ref_name (Name i) = prefix REF_PREFIX i"
| "is_ref_name _ = False"

section \<open>The grammar check\<close>

definition reject_when :: "string \<Rightarrow> unit result" where
  "reject_when m = Inl (WhenClauseError m)"

definition check_call :: "when_expr \<Rightarrow> when_expr list \<Rightarrow> bool \<Rightarrow> unit result" where
  "check_call func args keywords =
     (if func \<notin> {Name ''empty'', Name ''count''} then reject_when ''when.expr may only call empty or count''
      else case args of
        [a] \<Rightarrow> if keywords then reject_when ''takes exactly one output reference''
               else if is_ref_name a then Inr ()
               else reject_when ''argument must be a node output reference''
      | _ \<Rightarrow> reject_when ''takes exactly one output reference'')"

fun check_operand :: "when_expr \<Rightarrow> unit result" where
  "check_operand (Name i) = (if prefix REF_PREFIX i then Inr () else reject_when ''unsupported operand'')"
| "check_operand (Call f args kw) = check_call f args kw"
| "check_operand (Constant (WBool b)) = Inr ()"
| "check_operand (Constant (WNum n)) = Inr ()"
| "check_operand (Constant (WStr s)) = reject_when ''when.expr compares against a string literal''"
| "check_operand _ = reject_when ''unsupported operand''"

fun is_number :: "when_expr \<Rightarrow> bool" where
  "is_number (Constant (WNum n)) = True"
| "is_number (Constant (WBool b)) = True"
| "is_number _ = False"

fun check_membership_set :: "when_expr \<Rightarrow> unit result" where
  "check_membership_set (LiteralSeq elts) =
     (if list_all is_number elts then Inr () else reject_when ''membership sets must contain only numeric constants'')"
| "check_membership_set _ = reject_when ''membership requires a literal set/tuple/list''"

definition check_compare :: "when_expr \<Rightarrow> cmp_op list \<Rightarrow> when_expr list \<Rightarrow> unit result" where
  "check_compare left ops comparators = (case (ops, comparators) of
     ([op], [right]) \<Rightarrow>
       if op = OtherCmp then reject_when ''unsupported comparison operator''
       else if op = In \<or> op = NotIn
       then rbind (check_operand left) (\<lambda>_. check_membership_set right)
       else rbind (check_operand left) (\<lambda>_. check_operand right)
   | _ \<Rightarrow> reject_when ''comparisons must be a single binary comparison'')"

fun check_when :: "when_expr \<Rightarrow> unit result" and check_all :: "when_expr list \<Rightarrow> unit result" where
  "check_when (BoolOp is_and vs) = check_all vs"
| "check_when (NotOp e) = check_when e"
| "check_when (Compare l ops rs) = check_compare l ops rs"
| "check_when (Call f args kw) = check_call f args kw"
| "check_when (Name i) = (if prefix REF_PREFIX i then Inr () else reject_when ''unsupported construct'')"
| "check_when (Constant v) = (case v of WBool b \<Rightarrow> Inr () | _ \<Rightarrow> reject_when ''unsupported construct'')"
| "check_when (LiteralSeq es) = reject_when ''unsupported construct''"
| "check_when OtherExpr = reject_when ''unsupported construct''"
| "check_all [] = Inr ()"
| "check_all (v # vs) = rbind (check_when v) (\<lambda>_. check_all vs)"

definition validate_when :: "(string \<Rightarrow> when_expr option) \<Rightarrow> string \<Rightarrow> unit result" where
  "validate_when parse expr = rbind (parse_when parse expr) check_when"

section \<open>Evaluation\<close>

fun truthy :: "when_val \<Rightarrow> bool" where
  "truthy WNone = False"
| "truthy (WBool b) = b"
| "truthy (WNum n) = (n \<noteq> 0)"
| "truthy (WStr s) = (s \<noteq> [])"
| "truthy (WSeq xs) = (xs \<noteq> [])"
| "truthy (WDict d) = (d \<noteq> [])"

definition wget :: "(string \<times> when_val) list \<Rightarrow> string \<Rightarrow> when_val" where
  "wget d k = (case map_of d k of None \<Rightarrow> WNone | Some v \<Rightarrow> v)"

fun is_empty_val :: "when_val \<Rightarrow> bool" where
  "is_empty_val WNone = True"
| "is_empty_val (WDict d) =
     (if map_of d ''row_count'' \<noteq> None then \<not> truthy (wget d ''row_count'')
      else if map_of d ''rows'' \<noteq> None then \<not> truthy (wget d ''rows'')
      else d = [])"
| "is_empty_val (WSeq xs) = (xs = [])"
| "is_empty_val (WStr s) = (s = [])"
| "is_empty_val _ = False"

fun to_float :: "when_val \<Rightarrow> when_val result" where
  "to_float (WNum n) = Inr (WNum n)"
| "to_float (WBool b) = Inr (WNum (if b then 1 else 0))"
| "to_float (WStr s) = Inl (IllTyped ''float of a text'')"
| "to_float _ = Inl TypeError"

fun len_val :: "when_val \<Rightarrow> when_val result" where
  "len_val (WSeq xs) = Inr (WNum (of_nat (length xs)))"
| "len_val (WStr s) = Inr (WNum (of_nat (length s)))"
| "len_val (WDict d) = Inr (WNum (of_nat (length d)))"
| "len_val _ = Inl TypeError"

definition or_else :: "when_val \<Rightarrow> when_val \<Rightarrow> when_val" where
  "or_else v d = (if truthy v then v else d)"

fun count_val :: "when_val \<Rightarrow> when_val result" where
  "count_val (WDict d) =
     (if map_of d ''row_count'' \<noteq> None then to_float (or_else (wget d ''row_count'') (WNum 0))
      else if map_of d ''rows'' \<noteq> None then len_val (or_else (wget d ''rows'') (WSeq []))
      else Inl (WhenClauseError ''count cannot be applied''))"
| "count_val (WSeq xs) = Inr (WNum (of_nat (length xs)))"
| "count_val (WStr s) = Inr (WNum (of_nat (length s)))"
| "count_val (WBool b) = Inr (WNum (if b then 1 else 0))"
| "count_val (WNum n) = Inr (WNum n)"
| "count_val WNone = Inl (WhenClauseError ''count cannot be applied'')"

type_synonym when_env = "(string, when_val) dict"

fun lookup_ref :: "when_expr \<Rightarrow> when_env \<Rightarrow> when_val result" where
  "lookup_ref (Name i) env = (case dget env i of
     None \<Rightarrow> Inl (WhenClauseError ''when.expr references an unknown node output'') | Some v \<Rightarrow> Inr v)"
| "lookup_ref _ env = Inl (OtherError ''AttributeError'')"

definition eval_call :: "when_expr \<Rightarrow> when_expr list \<Rightarrow> when_env \<Rightarrow> when_val result" where
  "eval_call func args env = (case args of
     [] \<Rightarrow> Inl (OtherError ''IndexError'')
   | a # _ \<Rightarrow> rbind (lookup_ref a env) (\<lambda>v.
       if func = Name ''empty'' then Inr (WBool (is_empty_val v)) else count_val v))"

fun eval_operand :: "when_expr \<Rightarrow> when_env \<Rightarrow> when_val result" where
  "eval_operand (Name i) env = lookup_ref (Name i) env"
| "eval_operand (Call f args kw) env = eval_call f args env"
| "eval_operand (Constant v) env = Inr v"
| "eval_operand _ env = Inl (WhenClauseError ''unsupported operand'')"

fun num_of :: "when_val \<Rightarrow> rat option" where
  "num_of (WNum n) = Some n"
| "num_of (WBool b) = Some (if b then 1 else 0)"
| "num_of _ = None"

text \<open>Python's equality: numbers and bools by value, containers element by element.\<close>

fun val_eq :: "when_val \<Rightarrow> when_val \<Rightarrow> bool" where
  "val_eq (WSeq xs) (WSeq ys) = list_all2 val_eq xs ys"
| "val_eq (WDict d) (WDict e) =
     (length d = length e \<and> list_all (\<lambda>(k, v). case map_of e k of None \<Rightarrow> False | Some w \<Rightarrow> val_eq v w) d)"
| "val_eq a b = (case (num_of a, num_of b) of (Some m, Some n) \<Rightarrow> m = n | (None, None) \<Rightarrow> a = b | _ \<Rightarrow> False)"

text \<open>\<^verbatim>\<open>a < b\<close>: numbers by value, texts by code points; other types raise (sequences are not modelled).\<close>

definition val_less :: "when_val \<Rightarrow> when_val \<Rightarrow> bool result" where
  "val_less a b = (case (num_of a, num_of b) of
     (Some m, Some n) \<Rightarrow> Inr (m < n)
   | _ \<Rightarrow> (case (a, b) of
       (WStr s, WStr t) \<Rightarrow> Inr (s < t)
     | (WSeq _, WSeq _) \<Rightarrow> Inl (IllTyped ''order of sequences'')
     | _ \<Rightarrow> Inl TypeError))"

fun hashable_val :: "when_val \<Rightarrow> bool" where
  "hashable_val (WSeq _) = False"
| "hashable_val (WDict _) = False"
| "hashable_val _ = True"

fun const_of :: "when_expr \<Rightarrow> when_val" where
  "const_of (Constant v) = v"
| "const_of _ = WNone"

fun literal_elements :: "when_expr \<Rightarrow> when_expr list" where
  "literal_elements (LiteralSeq es) = es"
| "literal_elements _ = []"

definition eval_compare :: "when_expr \<Rightarrow> cmp_op list \<Rightarrow> when_expr list \<Rightarrow> when_env \<Rightarrow> when_val result" where
  "eval_compare left ops comparators env = (case (ops, comparators) of
     (op # _, right # _) \<Rightarrow>
       rbind (eval_operand left env) (\<lambda>l.
         if op = In \<or> op = NotIn then
           (if \<not> hashable_val l then Inl TypeError
            else let present = list_ex (\<lambda>e. val_eq l (const_of e)) (literal_elements right)
                 in Inr (WBool (if op = In then present else \<not> present)))
         else rbind (eval_operand right env) (\<lambda>r.
           map_sum id WBool (case op of
             Gt \<Rightarrow> val_less r l
           | GtE \<Rightarrow> (case (num_of l, num_of r) of
               (Some m, Some n) \<Rightarrow> Inr (n \<le> m)
             | _ \<Rightarrow> rbind (val_less l r) (\<lambda>b. Inr (\<not> b)))
           | Lt \<Rightarrow> val_less l r
           | LtE \<Rightarrow> (case (num_of l, num_of r) of
               (Some m, Some n) \<Rightarrow> Inr (m \<le> n)
             | _ \<Rightarrow> rbind (val_less r l) (\<lambda>b. Inr (\<not> b)))
           | Eq \<Rightarrow> Inr (val_eq l r)
           | _ \<Rightarrow> Inr (\<not> val_eq l r))))
   | _ \<Rightarrow> Inl (OtherError ''IndexError''))"

fun eval_when :: "when_expr \<Rightarrow> when_env \<Rightarrow> when_val result"
and eval_all :: "bool \<Rightarrow> when_expr list \<Rightarrow> when_env \<Rightarrow> when_val result" where
  "eval_when (BoolOp is_and vs) env = eval_all is_and vs env"
| "eval_when (NotOp e) env = rbind (eval_when e env) (\<lambda>v. Inr (WBool (\<not> truthy v)))"
| "eval_when (Compare l ops rs) env = eval_compare l ops rs env"
| "eval_when (Call f args kw) env = eval_call f args env"
| "eval_when (Name i) env = (if prefix REF_PREFIX i then lookup_ref (Name i) env
     else Inl (WhenClauseError ''unsupported construct''))"
| "eval_when (Constant v) env = Inr v"
| "eval_when (LiteralSeq es) env = Inl (WhenClauseError ''unsupported construct'')"
| "eval_when OtherExpr env = Inl (WhenClauseError ''unsupported construct'')"
| "eval_all is_and [] env = Inr (WBool is_and)"
| "eval_all is_and (v # vs) env = rbind (eval_when v env) (\<lambda>x.
     if truthy x = is_and then eval_all is_and vs env else Inr (WBool (\<not> is_and)))"

definition evaluate_when :: "(string \<Rightarrow> when_expr option) \<Rightarrow> string \<Rightarrow> when_env \<Rightarrow> bool result" where
  "evaluate_when parse expr outputs =
     rbind (parse_when parse expr) (\<lambda>node.
     rbind (check_when node) (\<lambda>_.
     rbind (eval_when node (fold (\<lambda>(k, v). dset (canonical_ref k) v) outputs [])) (\<lambda>v. Inr (truthy v))))"

section \<open>What validation buys\<close>

fun literals :: "when_expr \<Rightarrow> when_val list" where
  "literals (BoolOp c vs) = concat (map literals vs)"
| "literals (NotOp e) = literals e"
| "literals (Compare l ops rs) = literals l @ concat (map literals rs)"
| "literals (Call f args kw) = literals f @ concat (map literals args)"
| "literals (Constant v) = [v]"
| "literals (LiteralSeq es) = concat (map literals es)"
| "literals _ = []"

fun ref_names :: "when_expr \<Rightarrow> string list" where
  "ref_names (BoolOp c vs) = concat (map ref_names vs)"
| "ref_names (NotOp e) = ref_names e"
| "ref_names (Compare l ops rs) = ref_names l @ concat (map ref_names rs)"
| "ref_names (Call f args kw) = concat (map ref_names args)"
| "ref_names (Name i) = [i]"
| "ref_names (LiteralSeq es) = concat (map ref_names es)"
| "ref_names _ = []"

lemma check_call_ok:
  "check_call f args kw = Inr u \<longleftrightarrow> f \<in> {Name ''empty'', Name ''count''} \<and> \<not> kw \<and>
     (\<exists>i. args = [Name i] \<and> prefix REF_PREFIX i)"
proof -
  have "is_ref_name a \<longleftrightarrow> (\<exists>i. a = Name i \<and> prefix REF_PREFIX i)" for a by (cases a) auto
  then show ?thesis by (auto simp: check_call_def reject_when_def split: list.splits if_splits)
qed

lemma check_operand_ok:
  "check_operand e = Inr u \<longleftrightarrow> (\<exists>i. e = Name i \<and> prefix REF_PREFIX i) \<or>
     (\<exists>f args kw. e = Call f args kw \<and> check_call f args kw = Inr ()) \<or>
     (\<exists>b. e = Constant (WBool b)) \<or> (\<exists>n. e = Constant (WNum n))"
  by (cases e rule: check_operand.cases) (auto simp: reject_when_def)

lemma is_number_iff: "is_number e \<longleftrightarrow> (\<exists>b. e = Constant (WBool b)) \<or> (\<exists>n. e = Constant (WNum n))"
  by (cases e rule: is_number.cases) auto

lemma check_membership_ok:
  "check_membership_set r = Inr u \<longleftrightarrow> (\<exists>es. r = LiteralSeq es \<and> list_all is_number es)"
  by (cases r) (auto simp: reject_when_def)

lemma check_compare_ok:
  assumes "check_compare l ops rs = Inr u"
  obtains op r where "check_operand l = Inr ()" "ops = [op]" "rs = [r]" "op \<noteq> OtherCmp"
    "if op = In \<or> op = NotIn then \<exists>es. r = LiteralSeq es \<and> list_all is_number es else check_operand r = Inr ()"
proof -
  from assms obtain op r where o: "ops = [op]" "rs = [r]"
    by (auto simp: check_compare_def reject_when_def split: list.splits)
  have neq: "op \<noteq> OtherCmp" using assms by (auto simp: check_compare_def reject_when_def o)
  show thesis
  proof (cases "op = In \<or> op = NotIn")
    case True
    with assms neq have "check_operand l = Inr ()" "check_membership_set r = Inr ()"
      by (auto simp: check_compare_def o rbind_eq_Inr)
    with True show thesis by (intro that[OF _ o neq]) (simp_all add: check_membership_ok)
  next
    case False
    with assms neq have "check_operand l = Inr ()" "check_operand r = Inr ()"
      by (auto simp: check_compare_def o rbind_eq_Inr)
    with False show thesis by (intro that[OF _ o neq]) simp_all
  qed
qed

definition entity_free :: "when_val list \<Rightarrow> bool" where
  "entity_free vs \<longleftrightarrow> (\<forall>v \<in> set vs. (\<exists>n. v = WNum n) \<or> (\<exists>b. v = WBool b))"

lemma operand_entity_free: "check_operand e = Inr u \<Longrightarrow> entity_free (literals e)"
  by (auto simp: check_operand_ok check_call_ok entity_free_def)

lemma compare_entity_free:
  assumes "check_compare l ops rs = Inr u"
  shows "entity_free (literals (Compare l ops rs))"
proof (rule check_compare_ok[OF assms])
  fix op r assume c: "check_operand l = Inr ()" "rs = [r]"
    "if op = In \<or> op = NotIn then \<exists>es. r = LiteralSeq es \<and> list_all is_number es else check_operand r = Inr ()"
  have "entity_free (literals r)"
  proof (cases "op = In \<or> op = NotIn")
    case True
    with c(3) obtain es where r: "r = LiteralSeq es" "list_all is_number es" by auto
    have "is_number x \<Longrightarrow> entity_free (literals x)" for x by (auto simp: is_number_iff entity_free_def)
    with r show ?thesis by (auto simp: entity_free_def list_all_iff)
  next
    case False
    with c(3) show ?thesis by (simp add: operand_entity_free)
  qed
  with operand_entity_free[OF c(1)] c(2) show ?thesis by (auto simp: entity_free_def)
qed

lemma checked_entity_free:
  shows "check_when e = Inr u \<Longrightarrow> entity_free (literals e)"
    and "check_all es = Inr u \<Longrightarrow> entity_free (concat (map literals es))"
proof (induction e and es rule: check_when_check_all.induct)
  case (3 l ops rs)
  then show ?case using compare_entity_free[of l ops rs u] by simp
qed (auto simp: check_call_ok reject_when_def rbind_eq_Inr entity_free_def split: when_val.splits if_splits)

text \<open>
  A validated \<open>when\<close> clause names no entity: every literal anywhere in it is a number or a
  truth value, never a text.
\<close>

theorem validated_when_entity_free:
  assumes "validate_when parse expr = Inr u" and "parse (sub_refs expr) = Some e"
  shows "\<forall>v \<in> set (literals e). (\<exists>n. v = WNum n) \<or> (\<exists>b. v = WBool b)"
  using checked_entity_free(1)[of e u] assms by (simp add: validate_when_def parse_when_def entity_free_def)

definition scalar :: "when_val \<Rightarrow> bool" where
  "scalar v \<longleftrightarrow> num_of v \<noteq> None"

definition bound :: "when_env \<Rightarrow> when_expr \<Rightarrow> bool" where
  "bound env e \<longleftrightarrow> (\<forall>i \<in> set (ref_names e). \<exists>v. dget env i = Some v \<and> scalar v)"

lemma scalar_cases: "scalar v \<longleftrightarrow> (\<exists>n. v = WNum n) \<or> (\<exists>b. v = WBool b)"
  by (cases v) (auto simp: scalar_def)

lemma eval_call_scalar:
  assumes "check_call f args kw = Inr ()" and "\<forall>i \<in> set (concat (map ref_names args)). \<exists>v. dget env i = Some v \<and> scalar v"
  shows "\<exists>v. eval_call f args env = Inr v \<and> scalar v"
proof -
  from assms(1) obtain i where a: "args = [Name i]" by (auto simp: check_call_ok)
  with assms(2) obtain v where v: "dget env i = Some v" "scalar v" by auto
  then have "\<exists>w. count_val v = Inr w \<and> scalar w" by (auto simp: scalar_cases)
  with a v(1) show ?thesis by (auto simp: eval_call_def scalar_cases)
qed

lemma eval_operand_scalar:
  assumes "check_operand e = Inr ()" and "bound env e"
  shows "\<exists>v. eval_operand e env = Inr v \<and> scalar v"
proof -
  from assms(1) consider i where "e = Name i" | f args kw where "e = Call f args kw" "check_call f args kw = Inr ()"
    | b where "e = Constant (WBool b)" | n where "e = Constant (WNum n)"
    by (auto simp: check_operand_ok)
  then show ?thesis
  proof cases
    case 1
    with assms(2) show ?thesis by (auto simp: bound_def)
  next
    case 2
    with assms(2) eval_call_scalar[of f args kw env] show ?thesis by (simp add: bound_def)
  qed (auto simp: scalar_cases)
qed

lemma val_less_scalar: "scalar a \<Longrightarrow> scalar b \<Longrightarrow> \<exists>x. val_less a b = Inr x"
  by (auto simp: val_less_def scalar_def)

lemma eval_compare_total:
  assumes "check_compare l ops rs = Inr ()" and "bound env (Compare l ops rs)"
  shows "\<exists>v. eval_compare l ops rs env = Inr v"
proof (rule check_compare_ok[OF assms(1)])
  fix op r assume c: "check_operand l = Inr ()" "ops = [op]" "rs = [r]" "op \<noteq> OtherCmp"
    "if op = In \<or> op = NotIn then \<exists>es. r = LiteralSeq es \<and> list_all is_number es else check_operand r = Inr ()"
  have bl: "bound env l" and br: "bound env r" using assms(2) c(3) by (auto simp: bound_def)
  obtain lv where lv: "eval_operand l env = Inr lv" "scalar lv" using eval_operand_scalar[OF c(1) bl] by blast
  show ?thesis
  proof (cases "op = In \<or> op = NotIn")
    case True
    have "hashable_val lv" using lv(2) by (auto simp: scalar_cases)
    with True lv(1) c(2,3) show ?thesis by (auto simp: eval_compare_def Let_def)
  next
    case False
    with c(5) have "check_operand r = Inr ()" by simp
    from eval_operand_scalar[OF this br] obtain rv where rv: "eval_operand r env = Inr rv" "scalar rv" by blast
    from val_less_scalar[OF lv(2) rv(2)] val_less_scalar[OF rv(2) lv(2)] False lv rv c(2,3)
    show ?thesis by (cases op) (auto simp: eval_compare_def scalar_def)
  qed
qed

lemma eval_total:
  shows "check_when e = Inr () \<Longrightarrow> bound env e \<Longrightarrow> \<exists>v. eval_when e env = Inr v"
    and "check_all es = Inr () \<Longrightarrow> \<forall>e \<in> set es. bound env e \<Longrightarrow> \<forall>c. \<exists>v. eval_all c es env = Inr v"
proof (induction e and es rule: check_when_check_all.induct)
  case (3 l ops rs)
  then show ?case using eval_compare_total[of l ops rs env] by simp
next
  case (4 f args kw)
  then show ?case using eval_call_scalar[of f args kw env] by (auto simp: bound_def)
next
  case (10 v vs)
  from 10 obtain x where "eval_when v env = Inr x" by (auto simp: rbind_eq_Inr)
  with 10 show ?case by (simp add: rbind_eq_Inr)
qed (auto simp: bound_def reject_when_def rbind_eq_Inr split: when_val.splits if_splits)

text \<open>
  Validation makes evaluation total: a clause that passes the check, over outputs that bind
  each of its references to a number or a truth value, always evaluates to a truth value, and a
  clause that fails it is never evaluated: the error of the check is the result.
\<close>

theorem evaluate_when_total:
  assumes "parse (sub_refs expr) = Some e"
    and "bound (fold (\<lambda>(k, v). dset (canonical_ref k) v) outputs []) e"
  shows "(validate_when parse expr = Inr () \<longrightarrow> (\<exists>b. evaluate_when parse expr outputs = Inr b)) \<and>
    (\<forall>err. validate_when parse expr = Inl err \<longrightarrow> evaluate_when parse expr outputs = Inl err)"
proof -
  have "check_when e = Inr () \<Longrightarrow> \<exists>v. eval_when e (fold (\<lambda>(k, v). dset (canonical_ref k) v) outputs []) = Inr v"
    using eval_total(1) assms(2) by blast
  then show ?thesis
    using assms(1) by (cases "check_when e") (auto simp: validate_when_def evaluate_when_def parse_when_def)
qed

definition sample_when :: when_expr where
  "sample_when = BoolOp True [Compare (Call (Name ''count'') [Name ''__bpref_1''] False) [Gt] [Constant (WNum 50)],
     NotOp (Call (Name ''empty'') [Name ''__bpref_1''] False)]"

lemma sample_refs: "sub_refs ''count($1) > 50 and not empty($1)'' = ''count(__bpref_1) > 50 and not empty(__bpref_1)''"
  "canonical_ref ''$1'' = ''__bpref_1''"
  by code_simp+

theorem evaluate_when_total_witness:
  "\<exists>b. evaluate_when (\<lambda>s. if s = ''count(__bpref_1) > 50 and not empty(__bpref_1)'' then Some sample_when else None)
     ''count($1) > 50 and not empty($1)'' [(''$1'', WNum 60)] = Inr b"
proof -
  let ?parse = "\<lambda>s. if s = ''count(__bpref_1) > 50 and not empty(__bpref_1)'' then Some sample_when else None"
  have p: "?parse (sub_refs ''count($1) > 50 and not empty($1)'') = Some sample_when" by (simp only: sample_refs) simp
  have b: "bound (fold (\<lambda>(k, v). dset (canonical_ref k) v) [(''$1'', WNum 60)] []) sample_when"
    by (simp add: bound_def sample_when_def sample_refs scalar_def)
  have "check_when sample_when = Inr ()"
    by (simp add: sample_when_def check_compare_def check_call_def REF_PREFIX_def)
  then have "validate_when ?parse ''count($1) > 50 and not empty($1)'' = Inr ()"
    by (simp only: validate_when_def parse_when_def p option.case rbind_Inr)
  with evaluate_when_total[where parse = ?parse, OF p b] show ?thesis by blast
qed

theorem validated_when_entity_free_witness:
  "set (literals sample_when) \<subseteq> range WNum \<union> range WBool"
proof -
  have "check_when sample_when = Inr ()"
    by (simp add: sample_when_def check_compare_def check_call_def REF_PREFIX_def)
  then have "validate_when (\<lambda>_. Some sample_when) ''x'' = Inr ()"
    by (simp add: validate_when_def parse_when_def)
  from validated_when_entity_free[OF this refl] show ?thesis by auto
qed

end
