(* ===== verification/BlueprintRules.thy ===== *)
theory BlueprintRules
  imports BlueprintWhen SessionModels
begin

text \<open>
  \<^verbatim>\<open>runtime/blueprint/rules.py\<close>, the expansion of a dynamic rule into a code list with its
  gap cut and confidence floor, and \<^verbatim>\<open>runtime/blueprint/verify.py\<close>, the deterministic gate on a
  blueprint result. A score is a rational; the value resolver is the parameter \<open>resolve\<close>, and
  \<open>rnd\<close> the rounding of the telemetry gap.
\<close>

section \<open>Parsing a rule\<close>

definition skip_space :: "string \<Rightarrow> string" where
  "skip_space s = dropWhile py_space s"

definition expect :: "string \<Rightarrow> string \<Rightarrow> string option" where
  "expect lit s = (if prefix lit s then Some (drop (length lit) s) else None)"

definition scan_identifier :: "string \<Rightarrow> (string \<times> string) option" where
  "scan_identifier s = (case s of c # r \<Rightarrow>
     if ident_start c then Some (c # takeWhile ident_char r, dropWhile ident_char r) else None | [] \<Rightarrow> None)"

text \<open>
  \<^verbatim>\<open>(['"])(.+?)\2\s*\)\s*$\<close>: the shortest non-empty run without a line feed that is followed by
  the same quote and a closing parenthesis at the end.
\<close>

definition closes :: "char \<Rightarrow> string \<Rightarrow> bool" where
  "closes quote s = (case s of c # r \<Rightarrow> c = quote \<and>
     (case expect '')'' (skip_space r) of Some t \<Rightarrow> skip_space t = [] | None \<Rightarrow> False) | [] \<Rightarrow> False)"

definition quoted_concept :: "string \<Rightarrow> string option" where
  "quoted_concept s = (case s of
     quote # r \<Rightarrow>
       if quote = CHR 0x27 \<or> quote = CHR 0x22
       then map_option (\<lambda>k. take k r)
         (find (\<lambda>k. closes quote (drop k r) \<and> list_all (\<lambda>c. code c \<noteq> 10) (take k r)) [1..<Suc (length r)])
       else None
   | [] \<Rightarrow> None)"

definition match_resolve_via :: "string \<Rightarrow> (string \<times> string) option" where
  "match_resolve_via s =
     Option.bind (expect ''resolveValues'' (skip_space s)) (\<lambda>s1.
     Option.bind (expect ''('' (skip_space s1)) (\<lambda>s2.
     Option.bind (scan_identifier (skip_space s2)) (\<lambda>(column, s3).
     Option.bind (expect '','' (skip_space s3)) (\<lambda>s4.
     Option.bind (quoted_concept (skip_space s4)) (\<lambda>concept. Some (column, concept))))))"

text \<open>\<^verbatim>\<open>SLOT_TOKEN.findall\<close>: the names of the \<^verbatim>\<open>{identifier}\<close> tokens, left to right.\<close>

fun slot_token_at :: "string \<Rightarrow> (string \<times> string) option" where
  "slot_token_at (b # s) = (if b = CHR ''{'' then
     (case scan_identifier s of
        Some (name, c # r) \<Rightarrow> if c = CHR ''}'' then Some (name, r) else None
      | _ \<Rightarrow> None) else None)"
| "slot_token_at [] = None"

lemma scan_identifier_length: "scan_identifier s = Some (i, r) \<Longrightarrow> length r < length s"
  by (cases s) (auto simp: scan_identifier_def less_Suc_eq_le length_dropWhile_le split: if_splits)

lemma slot_token_length: "slot_token_at s = Some (n, r) \<Longrightarrow> length r < length s"
  by (cases s) (auto split: if_splits option.splits list.splits dest!: scan_identifier_length)

function find_slot_tokens :: "string \<Rightarrow> string list" where
  "find_slot_tokens s = (case s of [] \<Rightarrow> []
     | c # rest \<Rightarrow> (case slot_token_at s of
         Some (name, r) \<Rightarrow> name # find_slot_tokens r | None \<Rightarrow> find_slot_tokens rest))"
  by pat_completeness auto
termination
  by (relation "measure length") (auto simp del: slot_token_at.simps dest: slot_token_length)

declare find_slot_tokens.simps [simp del]

record resolved_rule =
  rr_rule_id :: string
  rr_table :: string
  rr_column :: string
  rr_concept :: string
  rr_binds :: string

fun non_empty_text :: "pyval \<Rightarrow> string option" where
  "non_empty_text (PStr s) = (if s = [] then None else Some s)"
| "non_empty_text _ = None"

definition rule_binds :: "pydict \<Rightarrow> string option" where
  "rule_binds raw = (case non_empty_text (getv raw ''binds'') of
     Some b \<Rightarrow> Some b
   | None \<Rightarrow> (case (case getv raw ''predicate'' of PStr p \<Rightarrow> find_slot_tokens p | _ \<Rightarrow> []) of
       [tok] \<Rightarrow> Some tok | _ \<Rightarrow> None))"

definition parse_rule :: "pyval \<Rightarrow> resolved_rule option" where
  "parse_rule v = (case v of
     PDict raw \<Rightarrow>
       (case getv raw ''resolve_via'' of
          PStr via \<Rightarrow>
            Option.bind (match_resolve_via via) (\<lambda>(column, concept).
            Option.bind (non_empty_text (getv raw ''table'')) (\<lambda>table.
            Option.bind (rule_binds raw) (\<lambda>binds.
            Some \<lparr>rr_rule_id = (case non_empty_text (getv raw ''id'') of Some i \<Rightarrow> i | None \<Rightarrow> binds),
                  rr_table = table, rr_column = column, rr_concept = concept, rr_binds = binds\<rparr>)))
        | _ \<Rightarrow> None)
   | _ \<Rightarrow> None)"

section \<open>Expanding a rule\<close>

record ranked_value =
  rv_value :: string
  rv_score :: rat

record resolve_outcome =
  ro_status :: string
  ro_values :: "ranked_value list"
  ro_degraded :: bool
  ro_provenance :: "prov option"
  ro_error_code :: "string option"
  ro_user_message :: "string option"
  ro_retryable :: "bool option"

record rule_binding =
  rb_binds :: string
  rb_values :: "string list"
  rb_provenance :: "prov option"
  rb_selected_count :: nat
  rb_dropped_count :: nat
  rb_top_score :: "rat option"
  rb_cut_gap :: "rat option"

record rule_fallback =
  rf_rule_id :: string
  rf_reason :: string
  rf_provenance :: "prov option"
  rf_error_code :: "string option"
  rf_user_message :: "string option"
  rf_retryable :: "bool option"

datatype rule_expansion = Binding rule_binding | Fallback rule_fallback

definition GAP_THRESHOLD :: rat where
  "GAP_THRESHOLD = 15 / 100"

definition MIN_CONFIDENCE :: rat where
  "MIN_CONFIDENCE = 3 / 10"

fun cut_after_gap :: "rat \<Rightarrow> ranked_value list \<Rightarrow> nat" where
  "cut_after_gap gap [] = 0"
| "cut_after_gap gap [v] = 1"
| "cut_after_gap gap (v # w # vs) =
     (if gap < rv_score v - rv_score w then 1 else Suc (cut_after_gap gap (w # vs)))"

definition select_subset :: "ranked_value list \<Rightarrow> rat \<Rightarrow> rat \<Rightarrow> ranked_value list" where
  "select_subset vs gap conf =
     (let candidate = take (cut_after_gap gap vs) vs;
          confident = filter (\<lambda>v. conf \<le> rv_score v) candidate
      in if confident \<noteq> [] then confident else take 1 vs)"

definition plain_fallback :: "resolved_rule \<Rightarrow> string \<Rightarrow> prov option \<Rightarrow> rule_expansion" where
  "plain_fallback rule reason p = Fallback \<lparr>rf_rule_id = rr_rule_id rule, rf_reason = reason, rf_provenance = p,
     rf_error_code = None, rf_user_message = None, rf_retryable = None\<rparr>"

definition expand_rule :: "(resolved_rule \<Rightarrow> resolve_outcome) \<Rightarrow> (rat \<Rightarrow> rat) \<Rightarrow> rat \<Rightarrow> rat \<Rightarrow> resolved_rule \<Rightarrow> rule_expansion" where
  "expand_rule resolve rnd gap conf rule =
     (let out = resolve rule; vs = ro_values out
      in if ro_status out \<noteq> ''ok''
         then Fallback \<lparr>rf_rule_id = rr_rule_id rule, rf_reason = ''denied'', rf_provenance = ro_provenance out,
                rf_error_code = ro_error_code out, rf_user_message = ro_user_message out, rf_retryable = ro_retryable out\<rparr>
         else if ro_degraded out then plain_fallback rule ''degraded'' (ro_provenance out)
         else (case vs of
           [] \<Rightarrow> plain_fallback rule ''empty'' (ro_provenance out)
         | best # _ \<Rightarrow>
             if rv_score best < conf then plain_fallback rule ''low_confidence'' (ro_provenance out)
             else let selected = select_subset vs gap conf;
                      dropped = length vs - length selected
                  in Binding \<lparr>rb_binds = rr_binds rule, rb_values = map rv_value selected,
                       rb_provenance = ro_provenance out, rb_selected_count = length selected,
                       rb_dropped_count = dropped, rb_top_score = Some (rv_score best),
                       rb_cut_gap = (if dropped \<noteq> 0
                         then Some (rnd (rv_score (vs ! (length selected - 1)) - rv_score (vs ! length selected)))
                         else None)\<rparr>))"

section \<open>What an expansion binds\<close>

definition descending :: "ranked_value list \<Rightarrow> bool" where
  "descending vs \<longleftrightarrow> sorted_wrt (\<lambda>a b. rv_score b \<le> rv_score a) vs"

lemma cut_bounds: "vs \<noteq> [] \<Longrightarrow> 1 \<le> cut_after_gap gap vs \<and> cut_after_gap gap vs \<le> length vs"
  by (induction gap vs rule: cut_after_gap.induct) auto

lemma cut_no_gap_inside:
  "Suc i < cut_after_gap gap vs \<Longrightarrow> rv_score (vs ! i) - rv_score (vs ! Suc i) \<le> gap"
proof (induction gap vs arbitrary: i rule: cut_after_gap.induct)
  case (3 gap v w vs)
  then show ?case by (cases i) (auto split: if_splits)
qed simp_all

lemma cut_gap_at:
  "cut_after_gap gap vs < length vs \<Longrightarrow>
     gap < rv_score (vs ! (cut_after_gap gap vs - 1)) - rv_score (vs ! cut_after_gap gap vs)"
proof (induction gap vs rule: cut_after_gap.induct)
  case (3 gap v w vs)
  have "1 \<le> cut_after_gap gap (w # vs)" using cut_bounds[of "w # vs" gap] by simp
  then obtain m where m: "cut_after_gap gap (w # vs) = Suc m" by (cases "cut_after_gap gap (w # vs)") auto
  from 3 show ?case by (auto simp: m)
qed simp_all

lemma filter_descending:
  "descending vs \<Longrightarrow> filter (\<lambda>v. conf \<le> rv_score v) vs = takeWhile (\<lambda>v. conf \<le> rv_score v) vs"
proof (induction vs)
  case (Cons v vs)
  show ?case
  proof (cases "conf \<le> rv_score v")
    case False
    with Cons.prems have "\<forall>w \<in> set vs. \<not> conf \<le> rv_score w" by (fastforce simp: descending_def)
    with False show ?thesis by simp
  qed (use Cons in \<open>simp add: descending_def\<close>)
qed simp

lemma descending_take: "descending vs \<Longrightarrow> descending (take n vs)"
  unfolding descending_def by (rule sorted_wrt_take)

lemma select_subset_prefix:
  assumes "descending vs" and "vs \<noteq> []" and "conf \<le> rv_score (hd vs)"
  shows "prefix (select_subset vs gap conf) vs \<and> select_subset vs gap conf \<noteq> [] \<and>
    (\<forall>v \<in> set (select_subset vs gap conf). conf \<le> rv_score v) \<and>
    length (select_subset vs gap conf) \<le> cut_after_gap gap vs"
proof -
  let ?c = "take (cut_after_gap gap vs) vs"
  let ?s = "takeWhile (\<lambda>v. conf \<le> rv_score v) ?c"
  have confs: "filter (\<lambda>v. conf \<le> rv_score v) ?c = ?s"
    by (rule filter_descending[OF descending_take[OF assms(1)]])
  have "hd ?c = hd vs" "?c \<noteq> []" using cut_bounds[OF assms(2), of gap] assms(2) by (cases vs; cases "cut_after_gap gap vs"; simp)+
  then have ne: "?s \<noteq> []" using assms(3) by (cases ?c) auto
  have sel: "select_subset vs gap conf = ?s" using ne by (simp add: select_subset_def confs)
  have "prefix ?s ?c" by (rule takeWhile_is_prefix)
  moreover have "prefix ?c vs" by (rule take_is_prefix)
  moreover have "length ?s \<le> length ?c" by (rule length_takeWhile_le)
  ultimately show ?thesis using ne by (auto simp: sel dest: set_takeWhileD intro: prefix_order.trans)
qed

text \<open>
  A rule never binds a guess and never drops its filter in silence: when the resolver ranks its
  values by descending score, an expansion is a binding only of a clean, non-degraded, non-empty
  outcome, and it binds a non-empty prefix of the ranking in which every code reaches the
  confidence floor and no two neighbours are further apart than the gap; every other outcome is a
  fall back to the raw loop that names its reason.
\<close>

theorem expand_rule_binds_confident_prefix:
  assumes "descending (ro_values (resolve rule))"
  shows "case expand_rule resolve rnd gap conf rule of
     Binding b \<Rightarrow> ro_status (resolve rule) = ''ok'' \<and> \<not> ro_degraded (resolve rule) \<and>
       (\<exists>n. 1 \<le> n \<and> n \<le> length (ro_values (resolve rule)) \<and> rb_selected_count b = n \<and>
          rb_dropped_count b = length (ro_values (resolve rule)) - n \<and>
          rb_values b = map rv_value (take n (ro_values (resolve rule))) \<and>
          (\<forall>v \<in> set (take n (ro_values (resolve rule))). conf \<le> rv_score v) \<and>
          (\<forall>i. Suc i < n \<longrightarrow> rv_score (ro_values (resolve rule) ! i) - rv_score (ro_values (resolve rule) ! Suc i) \<le> gap))
   | Fallback f \<Rightarrow> rf_reason f \<in> {''denied'', ''degraded'', ''empty'', ''low_confidence''} \<and>
       (ro_status (resolve rule) \<noteq> ''ok'' \<or> ro_degraded (resolve rule) \<or> ro_values (resolve rule) = [] \<or>
        rv_score (hd (ro_values (resolve rule))) < conf)"
proof (cases "ro_status (resolve rule) = ''ok'' \<and> \<not> ro_degraded (resolve rule) \<and> ro_values (resolve rule) \<noteq> [] \<and>
    conf \<le> rv_score (hd (ro_values (resolve rule)))")
  case False
  then show ?thesis
    by (cases "ro_values (resolve rule)") (auto simp: expand_rule_def plain_fallback_def Let_def)
next
  case True
  let ?vs = "ro_values (resolve rule)" let ?s = "select_subset ?vs gap conf"
  note sel = select_subset_prefix[OF assms, of conf gap]
  from True sel have p: "prefix ?s ?vs" "?s \<noteq> []" "\<forall>v \<in> set ?s. conf \<le> rv_score v" "length ?s \<le> cut_after_gap gap ?vs"
    by auto
  have s: "?s = take (length ?s) ?vs" using p(1) by (metis append_eq_conv_conj prefix_def)
  have len: "1 \<le> length ?s" "length ?s \<le> length ?vs"
    using p(1,2) by (auto simp: Suc_le_eq prefix_length_le)
  have gaps: "rv_score (?vs ! i) - rv_score (?vs ! Suc i) \<le> gap" if "Suc i < length ?s" for i
    using cut_no_gap_inside[of i gap ?vs] that p(4) by simp
  obtain b where b: "expand_rule resolve rnd gap conf rule = Binding b" "rb_selected_count b = length ?s"
      "rb_dropped_count b = length ?vs - length ?s" "rb_values b = map rv_value ?s"
    using True by (cases ?vs) (auto simp: expand_rule_def Let_def)
  have "\<exists>n. 1 \<le> n \<and> n \<le> length ?vs \<and> rb_selected_count b = n \<and> rb_dropped_count b = length ?vs - n \<and>
      rb_values b = map rv_value (take n ?vs) \<and> (\<forall>v \<in> set (take n ?vs). conf \<le> rv_score v) \<and>
      (\<forall>i. Suc i < n \<longrightarrow> rv_score (?vs ! i) - rv_score (?vs ! Suc i) \<le> gap)"
    using b len gaps p(3) s by (intro exI[of _ "length ?s"]) metis
  with b(1) True show ?thesis by simp
qed

definition earn_outcome :: "resolved_rule \<Rightarrow> resolve_outcome" where
  "earn_outcome _ = \<lparr>ro_status = ''ok'', ro_values = [\<lparr>rv_value = ''EARN'', rv_score = 3 / 4\<rparr>, \<lparr>rv_value = ''DDUCT'', rv_score = 35 / 100\<rparr>],
     ro_degraded = False, ro_provenance = None, ro_error_code = None, ro_user_message = None, ro_retryable = None\<rparr>"

definition earn_rule :: resolved_rule where
  "earn_rule = \<lparr>rr_rule_id = ''r'', rr_table = ''d.t'', rr_column = ''RegisterType'', rr_concept = ''earnings'', rr_binds = ''codes''\<rparr>"

theorem expand_rule_binds_confident_prefix_witness:
  "\<exists>b. expand_rule earn_outcome (\<lambda>x. x) GAP_THRESHOLD MIN_CONFIDENCE earn_rule = Binding b \<and>
     rb_values b = [''EARN''] \<and> rb_selected_count b \<ge> 1"
proof -
  have d: "descending (ro_values (earn_outcome earn_rule))" by (simp add: earn_outcome_def descending_def)
  obtain b where b: "expand_rule earn_outcome (\<lambda>x. x) GAP_THRESHOLD MIN_CONFIDENCE earn_rule = Binding b" "rb_values b = [''EARN'']"
    by (simp add: expand_rule_def earn_outcome_def select_subset_def GAP_THRESHOLD_def MIN_CONFIDENCE_def Let_def)
  with expand_rule_binds_confident_prefix[where resolve = earn_outcome and rule = earn_rule and rnd = "\<lambda>x. x" and gap = GAP_THRESHOLD and conf = MIN_CONFIDENCE, OF d]
  show ?thesis by auto
qed

section \<open>The deterministic gate\<close>

record result_grain =
  rg_columns :: "string list"
  rg_verifiable :: bool

record verify_outcome =
  vo_passed :: bool
  vo_grain_ok :: bool
  vo_grain_checked :: bool
  vo_signature_ok :: bool
  vo_reason :: "string option"

definition check_signature :: "string list \<Rightarrow> string list option \<Rightarrow> bool \<times> string option" where
  "check_signature columns expected = (case expected of
     None \<Rightarrow> (True, None)
   | Some e \<Rightarrow> if columns = e then (True, None) else (False, Some ''signature_mismatch''))"

definition verify_result :: "result_grain \<Rightarrow> int \<Rightarrow> int option \<Rightarrow> string list \<Rightarrow> string list option \<Rightarrow> verify_outcome" where
  "verify_result grain row_count distinct_grain_count columns expected =
     (let (signature_ok, sig_reason) = check_signature columns expected;
          grain_checked = (rg_columns grain \<noteq> [] \<and> rg_verifiable grain)
      in if \<not> grain_checked
         then \<lparr>vo_passed = signature_ok, vo_grain_ok = True, vo_grain_checked = False, vo_signature_ok = signature_ok,
               vo_reason = (if signature_ok then None else sig_reason)\<rparr>
         else (case distinct_grain_count of
           None \<Rightarrow> \<lparr>vo_passed = False, vo_grain_ok = False, vo_grain_checked = True, vo_signature_ok = signature_ok,
                    vo_reason = Some ''grain_probe_missing''\<rparr>
         | Some n \<Rightarrow>
             let grain_ok = (row_count = n)
             in \<lparr>vo_passed = (grain_ok \<and> signature_ok), vo_grain_ok = grain_ok, vo_grain_checked = True,
                 vo_signature_ok = signature_ok,
                 vo_reason = (if \<not> grain_ok then Some ''grain_mismatch''
                              else if \<not> signature_ok then sig_reason else None)\<rparr>))"

text \<open>
  The gate fails closed: a result passes exactly when its columns match the declared signature,
  if there is one, and, for a declared verifiable grain, the probe ran and the row count equals
  the count of distinct grain values; a failure always names a reason and a pass never does.
\<close>

theorem verify_result_fail_closed:
  "(vo_passed (verify_result grain n d columns expected) \<longleftrightarrow>
      (expected = None \<or> expected = Some columns) \<and>
      \<not> (rg_columns grain \<noteq> [] \<and> rg_verifiable grain \<and> d \<noteq> Some n)) \<and>
   (vo_passed (verify_result grain n d columns expected) \<longleftrightarrow> vo_reason (verify_result grain n d columns expected) = None)"
  by (auto simp: verify_result_def check_signature_def Let_def split: option.splits if_splits prod.splits)

end
