(* ===== verification/BlueprintModels.thy ===== *)
theory BlueprintModels
  imports BlueprintRules "HOL-Library.List_Lexorder" "HOL-Library.Char_ord"
begin

text \<open>
  \<^verbatim>\<open>runtime/blueprint/models.py\<close>: the typed parse layer over a stored blueprint. Each \<^verbatim>\<open>parse\<close> is a
  function from a decoded JSON value to the record or to \<open>BlueprintParseError\<close> with its message.
\<close>

section \<open>Closed sets\<close>

definition SLOT_TYPES :: "string list" where
  "SLOT_TYPES = [''string'', ''entity'', ''enum'', ''period'', ''as_of_date'', ''list'', ''relative_window'', ''period_range'']"

definition NODE_KINDS :: "string list" where
  "NODE_KINDS = [''query'', ''approval'']"

definition DEFAULT_NODE_KIND :: string where
  "DEFAULT_NODE_KIND = ''query''"

definition ON_VIOLATION :: "string list" where
  "ON_VIOLATION = [''abort'', ''skip'', ''ask'']"

definition NODE_OUTPUT_KINDS :: "string list" where
  "NODE_OUTPUT_KINDS = [''scalar'', ''table'']"

definition NODE_REF_KEY :: string where
  "NODE_REF_KEY = ''ref''"

definition RELATIVE_WINDOW_FLOOR :: int where
  "RELATIVE_WINDOW_FLOOR = 1"

definition RELATIVE_WINDOW_CEILING :: int where
  "RELATIVE_WINDOW_CEILING = 120"

definition MAX_SLOTS :: nat where
  "MAX_SLOTS = 16"

definition parse_error :: "string \<Rightarrow> 'a result" where
  "parse_error m = Inl (BlueprintParseError m)"

definition check_that :: "bool \<Rightarrow> string \<Rightarrow> unit result" where
  "check_that b m = (if b then Inr () else parse_error m)"

lemma check_that_ok [simp]: "check_that b m = Inr u \<longleftrightarrow> b"
  by (simp add: check_that_def parse_error_def)

text \<open>\<^verbatim>\<open>type(v).__name__\<close>\<close>

fun py_type_name :: "pyval \<Rightarrow> string" where
  "py_type_name PNone = ''NoneType''"
| "py_type_name (PBool b) = ''bool''"
| "py_type_name (PInt i) = ''int''"
| "py_type_name (PFloat r) = ''float''"
| "py_type_name (PStr s) = ''str''"
| "py_type_name (PList xs) = ''list''"
| "py_type_name (PDict kvs) = ''dict''"

definition get_default :: "pydict \<Rightarrow> string \<Rightarrow> pyval \<Rightarrow> pyval" where
  "get_default d k v = (case map_of d k of None \<Rightarrow> v | Some w \<Rightarrow> w)"

text \<open>\<^verbatim>\<open>x or default\<close>\<close>

definition or_value :: "pyval \<Rightarrow> pyval \<Rightarrow> pyval" where
  "or_value v d = (if py_truthy v then v else d)"

fun texts_of :: "pyval list \<Rightarrow> string list option" where
  "texts_of [] = Some []"
| "texts_of (PStr s # xs) = map_option (Cons s) (texts_of xs)"
| "texts_of _ = None"

fun ints_of :: "pyval list \<Rightarrow> int list option" where
  "ints_of [] = Some []"
| "ints_of (PInt i # xs) = map_option (Cons i) (ints_of xs)"
| "ints_of _ = None"

text \<open>An optional text: absent or null, a text, or anything else (an error with this message).\<close>

fun opt_text_field :: "pyval \<Rightarrow> string \<Rightarrow> string option result" where
  "opt_text_field PNone m = Inr None"
| "opt_text_field (PStr s) m = Inr (Some s)"
| "opt_text_field _ m = parse_error m"

fun opt_int_field :: "pyval \<Rightarrow> string \<Rightarrow> int option result" where
  "opt_int_field PNone m = Inr None"
| "opt_int_field (PInt i) m = Inr (Some i)"
| "opt_int_field _ m = parse_error m"

section \<open>Glosses and the window note\<close>

definition SLOT_TYPE_GLOSS :: "(string \<times> string) list" where
  "SLOT_TYPE_GLOSS =
    [(''string'', ''a named value (e.g. a specific department).''),
     (''entity'', ''a named value (e.g. a specific department or employee).''),
     (''enum'', ''one value from a fixed, closed set of allowed options.''),
     (''period'', ''a warehouse pay-period key, NOT a free calendar date.''),
     (''as_of_date'', ''a warehouse pay-period key to evaluate as of, NOT a free calendar date.''),
     (''list'', ''a set of values, matched as IN(...).''),
     (''relative_window'', ''a whole number N of units (e.g. '' @ [CHR 0x22] @ ''last N months'' @ [CHR 0x22] @
        '' -> pass the integer 6, '' @ ''not '' @ [CHR 0x22] @ ''6 months'' @ [CHR 0x22] @ '').''),
     (''period_range'', ''an explicit {start, end} date range.'')]"

definition GENERIC_SLOT_TYPE_GLOSS :: string where
  "GENERIC_SLOT_TYPE_GLOSS = ''a value for this slot.''"

definition slot_type_gloss :: "pyval \<Rightarrow> string" where
  "slot_type_gloss v = (case v of
     PStr s \<Rightarrow> (case map_of SLOT_TYPE_GLOSS s of Some g \<Rightarrow> g | None \<Rightarrow> GENERIC_SLOT_TYPE_GLOSS)
   | _ \<Rightarrow> GENERIC_SLOT_TYPE_GLOSS)"

definition WINDOW_ANCHOR_GLOSS :: "(string \<times> string) list" where
  "WINDOW_ANCHOR_GLOSS =
    [(''data'', ''this blueprint's window counts back from the latest data on record, not '' @ ''from today's date.''),
     (''calendar'', ''this blueprint's window is bound to the calendar dates you supply, not to '' @
        ''the latest data on record.'')]"

definition WINDOW_ANCHORS :: "string list" where
  "WINDOW_ANCHORS = map fst WINDOW_ANCHOR_GLOSS"

definition DATA_WINDOW_ANCHOR :: string where
  "DATA_WINDOW_ANCHOR = ''data''"

definition window_anchor_declaration :: "pyval \<Rightarrow> string option" where
  "window_anchor_declaration v = (case v of
     PStr a \<Rightarrow> (case map_of WINDOW_ANCHOR_GLOSS a of Some g \<Rightarrow> Some (a @ '' '' @ em_dash @ '' '' @ g) | None \<Rightarrow> None)
   | _ \<Rightarrow> None)"

definition DATA_ANCHORED_RESULT_NOTE :: string where
  "DATA_ANCHORED_RESULT_NOTE =
     ''Window is data-anchored: it counts back from the latest data on record, not '' @
     ''from today's date. Present it as 'as of the latest data' '' @ em_dash @ '' do not re-derive '' @
     ''with a calendar-anchored query.''"

text \<open>\<^verbatim>\<open>YYYY-MM-DD\<close> by shape, then by the calendar: \<^verbatim>\<open>date.fromisoformat\<close> takes exactly the dates of
  the proleptic Gregorian calendar from year 1.\<close>

definition digits_of :: "nat \<Rightarrow> string \<Rightarrow> bool" where
  "digits_of n s \<longleftrightarrow> length s = n \<and> list_all is_digit s"

definition iso_date_shape :: "string \<Rightarrow> bool" where
  "iso_date_shape s \<longleftrightarrow> length s = 10 \<and> digits_of 4 (take 4 s) \<and> s ! 4 = CHR ''-'' \<and>
     digits_of 2 (take 2 (drop 5 s)) \<and> s ! 7 = CHR ''-'' \<and> digits_of 2 (drop 8 s)"

definition leap_year :: "nat \<Rightarrow> bool" where
  "leap_year y \<longleftrightarrow> 4 dvd y \<and> (\<not> 100 dvd y \<or> 400 dvd y)"

definition days_in_month :: "nat \<Rightarrow> nat \<Rightarrow> nat" where
  "days_in_month y m = (if m = 2 then (if leap_year y then 29 else 28) else if m \<in> {4, 6, 9, 11} then 30 else 31)"

definition real_date :: "string \<Rightarrow> bool" where
  "real_date s = (let y = read_nat (take 4 s); m = read_nat (take 2 (drop 5 s)); d = read_nat (take 2 (drop 8 s)) in
     1 \<le> y \<and> 1 \<le> m \<and> m \<le> 12 \<and> 1 \<le> d \<and> d \<le> days_in_month y m)"

definition data_anchored_result_note :: "pyval \<Rightarrow> string" where
  "data_anchored_result_note v = (case v of
     PStr w \<Rightarrow>
       if iso_date_shape w \<and> real_date w
       then ''Window is data-anchored: it counts back from the latest data on record, which '' @
         ''ends '' @ w @ '' '' @ em_dash @ '' not from today's date. Present it as 'as of the latest data '' @
         ''('' @ w @ '')' and state in prose when that differs from the calendar period the '' @
         ''user asked about; do not re-derive with a calendar-anchored query.''
       else DATA_ANCHORED_RESULT_NOTE
   | _ \<Rightarrow> DATA_ANCHORED_RESULT_NOTE)"

section \<open>Slots\<close>

record slot_spec =
  sl_name :: string
  sl_type :: string
  sl_required :: bool
  sl_binds_to :: "string option"
  sl_enum_values :: "string list option"
  sl_optional_pattern :: "string option"
  sl_min_value :: "int option"
  sl_max_value :: "int option"

definition window_lo :: "int option \<Rightarrow> int" where
  "window_lo v = (case v of None \<Rightarrow> RELATIVE_WINDOW_FLOOR | Some x \<Rightarrow> x)"

definition window_hi :: "int option \<Rightarrow> int" where
  "window_hi v = (case v of None \<Rightarrow> RELATIVE_WINDOW_CEILING | Some x \<Rightarrow> x)"

fun opt_int_repr :: "int option \<Rightarrow> string" where
  "opt_int_repr None = ''None''"
| "opt_int_repr (Some i) = show_int i"

definition bounds_ok :: "int option \<Rightarrow> int option \<Rightarrow> bool" where
  "bounds_ok mn mx \<longleftrightarrow> (mn = None \<and> mx = None) \<or>
     (RELATIVE_WINDOW_FLOOR \<le> window_lo mn \<and> window_lo mn \<le> window_hi mx \<and> window_hi mx \<le> RELATIVE_WINDOW_CEILING)"

definition parse_slot_name :: "pydict \<Rightarrow> string result" where
  "parse_slot_name raw = (case getv raw ''name'' of
     PStr s \<Rightarrow> if s = [] then parse_error (''slot is missing a non-empty '' @ quoted ''name'') else Inr s
   | _ \<Rightarrow> parse_error (''slot is missing a non-empty '' @ quoted ''name''))"

definition parse_closed :: "pyval \<Rightarrow> string list \<Rightarrow> string \<Rightarrow> string result" where
  "parse_closed v allowed m = (case v of
     PStr s \<Rightarrow> if s \<in> set allowed then Inr s else parse_error m | _ \<Rightarrow> parse_error m)"

definition parse_enum_values :: "string \<Rightarrow> pyval \<Rightarrow> string list option result" where
  "parse_enum_values name v = (case v of
     PNone \<Rightarrow> Inr None
   | PList xs \<Rightarrow> (case texts_of xs of
       Some ts \<Rightarrow> Inr (Some ts)
     | None \<Rightarrow> parse_error (''slot '' @ repr_str name @ '' 'enum_values' must be a list of strings''))
   | _ \<Rightarrow> parse_error (''slot '' @ repr_str name @ '' 'enum_values' must be a list of strings''))"

definition parse_slot_shape :: "string \<Rightarrow> pydict \<Rightarrow> (string \<times> bool \<times> string option \<times> string list option) result" where
  "parse_slot_shape name raw = (let slot = ''slot '' @ repr_str name in
       rbind (parse_closed (getv raw ''type'') SLOT_TYPES (slot @ '' has unknown type '' @ py_repr (getv raw ''type'') @
         '' (allowed: '' @ repr_strs (sort SLOT_TYPES) @ '')'')) (\<lambda>ty.
       rbind (case get_default raw ''required'' (PBool True) of
           PBool b \<Rightarrow> Inr b | _ \<Rightarrow> parse_error (slot @ '' 'required' must be a boolean'')) (\<lambda>required.
       rbind (opt_text_field (getv raw ''binds_to'') (slot @ '' 'binds_to' must be a string'')) (\<lambda>binds_to.
       rbind (check_that (binds_to = None \<or> ty \<notin> {''relative_window'', ''period_range''})
         (slot @ '' of type '' @ repr_str ty @ '' must not declare 'binds_to' '' @ em_dash @ '' a '' @
          ''windowed-period slot consumes no domain (it would fire a useless probe)'')) (\<lambda>_.
       rbind (parse_enum_values name (getv raw ''enum_values'')) (\<lambda>enums.
       rbind (check_that (ty \<noteq> ''enum'' \<or> (enums \<noteq> None \<and> enums \<noteq> Some []))
         (''enum slot '' @ repr_str name @ '' requires non-empty '' @ quoted ''enum_values'')) (\<lambda>_.
       Inr (ty, required, binds_to, enums))))))))"

definition parse_slot_bounds :: "string \<Rightarrow> pydict \<Rightarrow> (int option \<times> int option) result" where
  "parse_slot_bounds name raw = (let slot = ''slot '' @ repr_str name in
       rbind (opt_int_field (getv raw ''min_value'') (slot @ '' 'min_value' must be an integer'')) (\<lambda>mn.
       rbind (opt_int_field (getv raw ''max_value'') (slot @ '' 'max_value' must be an integer'')) (\<lambda>mx.
       rbind (check_that (bounds_ok mn mx)
         (slot @ '' bounds must satisfy '' @ show_int RELATIVE_WINDOW_FLOOR @ '' <= min_value <= max_value <= '' @
          show_int RELATIVE_WINDOW_CEILING @ '', got min='' @ opt_int_repr mn @ '' max='' @ opt_int_repr mx)) (\<lambda>_.
       Inr (mn, mx)))))"

definition parse_slot :: "pyval \<Rightarrow> slot_spec result" where
  "parse_slot v = (case v of
     PDict raw \<Rightarrow>
       rbind (parse_slot_name raw) (\<lambda>name.
       rbind (parse_slot_shape name raw) (\<lambda>(ty, required, binds_to, enums).
       rbind (opt_text_field (getv raw ''optional_pattern'')
         (''slot '' @ repr_str name @ '' 'optional_pattern' must be a string'')) (\<lambda>pat.
       rbind (parse_slot_bounds name raw) (\<lambda>(mn, mx).
       Inr \<lparr>sl_name = name, sl_type = ty, sl_required = required, sl_binds_to = binds_to,
            sl_enum_values = enums, sl_optional_pattern = pat, sl_min_value = mn, sl_max_value = mx\<rparr>))))
   | _ \<Rightarrow> parse_error (''slot must be an object, got '' @ py_type_name v))"

section \<open>Nodes\<close>

record when_clause =
  wc_expr :: string
  wc_on_violation :: string
  wc_message :: "string option"

definition parse_when_clause :: "pyval \<Rightarrow> when_clause result" where
  "parse_when_clause v = (case v of
     PDict raw \<Rightarrow>
       rbind (case getv raw ''expr'' of
           PStr s \<Rightarrow> if py_strip s = [] then parse_error (quoted ''when'' @ '' requires a non-empty '' @ quoted ''expr'') else Inr s
         | _ \<Rightarrow> parse_error (quoted ''when'' @ '' requires a non-empty '' @ quoted ''expr'')) (\<lambda>expr.
       rbind (parse_closed (getv raw ''on_violation'') ON_VIOLATION
         (quoted ''when.on_violation'' @ '' must be one of '' @ repr_strs (sort ON_VIOLATION) @ '', got '' @
          py_repr (getv raw ''on_violation''))) (\<lambda>ov.
       rbind (opt_text_field (getv raw ''message'') (quoted ''when.message'' @ '' must be a string'')) (\<lambda>m.
       Inr \<lparr>wc_expr = expr, wc_on_violation = ov, wc_message = m\<rparr>)))
   | _ \<Rightarrow> parse_error (quoted ''when'' @ '' must be an object''))"

record node =
  nd_order :: int
  nd_kind :: string
  nd_feeds_from :: "int list"
  nd_consumes :: pydict
  nd_output :: "(string \<times> string) list"
  nd_template :: "string option"
  nd_when :: "when_clause option"
  nd_approval :: "pydict option"

text \<open>The output map: names to kinds of the closed set.\<close>

fun outputs_of :: "pydict \<Rightarrow> (string \<times> string) list option" where
  "outputs_of [] = Some []"
| "outputs_of ((k, PStr s) # d) =
     (if s \<in> set NODE_OUTPUT_KINDS then map_option (Cons (k, s)) (outputs_of d) else None)"
| "outputs_of _ = None"

definition parse_order :: "pydict \<Rightarrow> int result" where
  "parse_order raw = (case getv raw ''order'' of
     PInt i \<Rightarrow> Inr i | _ \<Rightarrow> parse_error (''compose node requires an integer '' @ quoted ''order''))"

definition parse_feeds :: "string \<Rightarrow> pyval \<Rightarrow> int list result" where
  "parse_feeds nd v = (case (case v of PList xs \<Rightarrow> ints_of xs | _ \<Rightarrow> None) of
     Some is \<Rightarrow> Inr is | None \<Rightarrow> parse_error (nd @ '' 'feeds_from' must be a list of integers''))"

definition parse_object :: "pyval \<Rightarrow> string \<Rightarrow> pydict result" where
  "parse_object v m = (case v of PDict d \<Rightarrow> Inr d | _ \<Rightarrow> parse_error m)"

definition parse_output :: "string \<Rightarrow> pyval \<Rightarrow> (string \<times> string) list result" where
  "parse_output nd v = (case (case v of PDict d \<Rightarrow> outputs_of d | _ \<Rightarrow> None) of
     Some os \<Rightarrow> Inr os
   | None \<Rightarrow> parse_error (nd @ '' 'output' must map names '' @ arrow @ '' '' @
       join ''|'' (map repr_str (sort NODE_OUTPUT_KINDS))))"

definition parse_when_field :: "pyval \<Rightarrow> when_clause option result" where
  "parse_when_field v = (if v = PNone then Inr None else rbind (parse_when_clause v) (\<lambda>w. Inr (Some w)))"

definition parse_approval :: "string \<Rightarrow> pyval \<Rightarrow> pydict option result" where
  "parse_approval nd v = (case v of
     PNone \<Rightarrow> Inr None | PDict d \<Rightarrow> Inr (Some d)
   | _ \<Rightarrow> parse_error (nd @ '' 'requires_approval' must be an object''))"

definition parse_node :: "pyval \<Rightarrow> node result" where
  "parse_node v = (case v of
     PDict raw \<Rightarrow>
       rbind (parse_order raw) (\<lambda>order.
       let nd = ''node '' @ show_int order; kind = get_default raw ''node_kind'' (PStr DEFAULT_NODE_KIND) in
       rbind (parse_closed kind NODE_KINDS (nd @ '' has unknown node_kind '' @ py_repr kind @
         '' (allowed: '' @ repr_strs (sort NODE_KINDS) @ '')'')) (\<lambda>nk.
       rbind (parse_feeds nd (or_value (getv raw ''feeds_from'') (PList []))) (\<lambda>feeds.
       rbind (parse_object (or_value (getv raw ''consumes'') (PDict [])) (nd @ '' 'consumes' must be an object'')) (\<lambda>consumes.
       rbind (parse_output nd (or_value (getv raw ''output'') (PDict []))) (\<lambda>os.
       rbind (check_that (NODE_REF_KEY \<notin> set (dkeys raw))
         (nd @ '' carries an unresolved blueprint reference ('' @ repr_str NODE_REF_KEY @ ''='' @
          py_repr (getv raw NODE_REF_KEY) @ '') '' @ em_dash @ '' references are inlined at '' @
          ''corpus load; a node reaching the parse layer with one would execute as '' @ ''an empty step'')) (\<lambda>_.
       rbind (opt_text_field (getv raw ''sql_template'') (nd @ '' 'sql_template' must be a string'')) (\<lambda>tpl.
       rbind (parse_when_field (getv raw ''when'')) (\<lambda>wn.
       rbind (parse_approval nd (getv raw ''requires_approval'')) (\<lambda>ra.
       Inr \<lparr>nd_order = order, nd_kind = nk, nd_feeds_from = feeds, nd_consumes = consumes, nd_output = os,
            nd_template = tpl, nd_when = wn, nd_approval = ra\<rparr>)))))))))
   | _ \<Rightarrow> parse_error ''compose node must be an object'')"

section \<open>Grain and blueprint\<close>

definition parse_grain_columns :: "pyval \<Rightarrow> string list result" where
  "parse_grain_columns v = (case (case v of PList xs \<Rightarrow> texts_of xs | _ \<Rightarrow> None) of
     Some cs \<Rightarrow> if [] \<in> set cs then parse_error ''result_grain columns must be a list of non-empty strings'' else Inr cs
   | None \<Rightarrow> parse_error ''result_grain columns must be a list of non-empty strings'')"

definition parse_grain :: "pyval \<Rightarrow> result_grain result" where
  "parse_grain v = (case v of
     PNone \<Rightarrow> Inr \<lparr>rg_columns = [], rg_verifiable = True\<rparr>
   | PList xs \<Rightarrow> rbind (parse_grain_columns v) (\<lambda>cs. Inr \<lparr>rg_columns = cs, rg_verifiable = True\<rparr>)
   | PDict raw \<Rightarrow>
       rbind (case get_default raw ''verifiable'' (PBool True) of
           PBool b \<Rightarrow> Inr b | _ \<Rightarrow> parse_error (''result_grain 'verifiable' must be a boolean'')) (\<lambda>ver.
       rbind (parse_grain_columns (or_value (get_default raw ''columns'' (PList [])) (PList []))) (\<lambda>cs.
       Inr \<lparr>rg_columns = cs, rg_verifiable = ver\<rparr>))
   | _ \<Rightarrow> parse_error ''result_grain must be a list or an object'')"

record blueprint =
  bp_id :: string
  bp_intent :: string
  bp_resolves :: "(string \<times> string) list"
  bp_slots :: "slot_spec list"
  bp_rules :: "pyval list"
  bp_template :: "string option"
  bp_composes :: "node list"
  bp_grain :: result_grain
  bp_anchor :: "string option"

fun text_map :: "pydict \<Rightarrow> (string \<times> string) list option" where
  "text_map [] = Some []"
| "text_map ((k, PStr s) # d) = map_option (Cons (k, s)) (text_map d)"
| "text_map _ = None"

definition parse_resolves :: "pyval \<Rightarrow> (string \<times> string) list result" where
  "parse_resolves v = (if v = PNone then Inr []
     else case (case v of PDict d \<Rightarrow> text_map d | _ \<Rightarrow> None) of
       Some m \<Rightarrow> Inr m
     | None \<Rightarrow> parse_error (quoted ''resolves'' @ '' must be an object of string'' @ arrow @ ''string''))"

text \<open>An array property: null counts as empty; \<open>types\<close> is the text of the accepted types.\<close>

definition parse_array :: "string \<Rightarrow> string \<Rightarrow> pyval \<Rightarrow> pyval list result" where
  "parse_array label types v = (case v of
     PNone \<Rightarrow> Inr [] | PList xs \<Rightarrow> Inr xs
   | _ \<Rightarrow> parse_error (quoted label @ '' must be a '' @ types @ '', got '' @ py_type_name v))"

fun distinct_names :: "slot_spec list \<Rightarrow> string list \<Rightarrow> unit result" where
  "distinct_names [] seen = Inr ()"
| "distinct_names (s # ss) seen =
     (if sl_name s \<in> set seen then parse_error (''duplicate slot name '' @ repr_str (sl_name s))
      else distinct_names ss (sl_name s # seen))"

record stored_blueprint =
  sb_id :: string
  sb_intent :: string
  sb_resolves :: pyval
  sb_slots :: pyval
  sb_uses_rules :: pyval
  sb_sql_template :: pyval
  sb_composes :: pyval
  sb_result_grain :: pyval
  sb_window_anchor :: pyval

definition parse_blueprint :: "stored_blueprint \<Rightarrow> blueprint result" where
  "parse_blueprint b =
     rbind (parse_resolves (sb_resolves b)) (\<lambda>resolves.
     rbind (parse_array ''slots'' ''list or tuple'' (sb_slots b)) (\<lambda>slots_raw.
     rbind (parse_array ''composes'' ''list or tuple'' (sb_composes b)) (\<lambda>composes_raw.
     rbind (parse_array ''uses_rules'' ''list'' (sb_uses_rules b)) (\<lambda>rules.
     rbind (check_that (length slots_raw \<le> MAX_SLOTS)
       (''blueprint declares '' @ show_nat (length slots_raw) @ '' slots, exceeding the '' @ show_nat MAX_SLOTS @
        ''-slot '' @ ''cap (each binds_to slot can fire an inner probe; a Phase-1 blueprint is small)'')) (\<lambda>_.
     rbind (mapM_r parse_slot slots_raw) (\<lambda>specs.
     rbind (distinct_names specs []) (\<lambda>_.
     rbind (opt_text_field (sb_sql_template b) (quoted ''sql_template'' @ '' must be a string'')) (\<lambda>tpl.
     rbind (if sb_window_anchor b = PNone then Inr None
            else rbind (parse_closed (sb_window_anchor b) WINDOW_ANCHORS (quoted ''window_anchor'' @ '' must be one of '' @
              repr_strs (sort WINDOW_ANCHORS) @ '' when declared, '' @ ''got '' @ py_repr (sb_window_anchor b))) (\<lambda>a. Inr (Some a))) (\<lambda>anchor.
     rbind (mapM_r parse_node composes_raw) (\<lambda>nodes.
     rbind (parse_grain (sb_result_grain b)) (\<lambda>grain.
     Inr \<lparr>bp_id = sb_id b, bp_intent = sb_intent b, bp_resolves = resolves, bp_slots = specs, bp_rules = rules,
          bp_template = tpl, bp_composes = nodes, bp_grain = grain, bp_anchor = anchor\<rparr>)))))))))))"

definition slot_named :: "blueprint \<Rightarrow> string \<Rightarrow> slot_spec option" where
  "slot_named b n = find (\<lambda>s. sl_name s = n) (bp_slots b)"

definition is_single_node :: "blueprint \<Rightarrow> bool" where
  "is_single_node b \<longleftrightarrow> bp_template b \<noteq> None \<and> bp_template b \<noteq> Some [] \<and> bp_composes b = []"

section \<open>Well-formed blueprints\<close>

definition slot_ok :: "slot_spec \<Rightarrow> bool" where
  "slot_ok s \<longleftrightarrow> sl_name s \<noteq> [] \<and> sl_type s \<in> set SLOT_TYPES \<and>
     (sl_type s = ''enum'' \<longrightarrow> (\<exists>v vs. sl_enum_values s = Some (v # vs))) \<and>
     (sl_type s \<in> {''relative_window'', ''period_range''} \<longrightarrow> sl_binds_to s = None) \<and>
     (\<forall>m. sl_min_value s = Some m \<longrightarrow> 1 \<le> m) \<and> (\<forall>m. sl_max_value s = Some m \<longrightarrow> 1 \<le> m \<and> m \<le> 120) \<and>
     (\<forall>m n. sl_min_value s = Some m \<longrightarrow> sl_max_value s = Some n \<longrightarrow> m \<le> n)"

definition node_ok :: "node \<Rightarrow> bool" where
  "node_ok n \<longleftrightarrow> nd_kind n \<in> set NODE_KINDS \<and> (\<forall>(k, s) \<in> set (nd_output n). s \<in> set NODE_OUTPUT_KINDS) \<and>
     (\<forall>w. nd_when n = Some w \<longrightarrow> py_strip (wc_expr w) \<noteq> [] \<and> wc_on_violation w \<in> set ON_VIOLATION)"

definition blueprint_ok :: "blueprint \<Rightarrow> bool" where
  "blueprint_ok b \<longleftrightarrow> (\<forall>s \<in> set (bp_slots b). slot_ok s) \<and> distinct (map sl_name (bp_slots b)) \<and>
     length (bp_slots b) \<le> 16 \<and> (\<forall>n \<in> set (bp_composes b). node_ok n) \<and> [] \<notin> set (rg_columns (bp_grain b)) \<and>
     (\<forall>a. bp_anchor b = Some a \<longrightarrow> a \<in> set WINDOW_ANCHORS)"

lemma parse_closed_ok: "parse_closed v allowed m = Inr s \<Longrightarrow> s \<in> set allowed"
  by (auto simp: parse_closed_def parse_error_def split: pyval.splits if_splits)

lemma parse_slot_shape_ok:
  "parse_slot_shape n raw = Inr (ty, req, b, es) \<Longrightarrow>
     ty \<in> set SLOT_TYPES \<and> (ty = ''enum'' \<longrightarrow> es \<noteq> None \<and> es \<noteq> Some []) \<and>
     (ty \<in> {''relative_window'', ''period_range''} \<longrightarrow> b = None)"
  by (auto simp: parse_slot_shape_def rbind_eq_Inr Let_def dest: parse_closed_ok)

lemma parse_slot_bounds_ok: "parse_slot_bounds n raw = Inr (mn, mx) \<Longrightarrow> bounds_ok mn mx"
  by (auto simp: parse_slot_bounds_def rbind_eq_Inr Let_def)

lemma bounds_ok_spec:
  "bounds_ok mn mx \<Longrightarrow> (\<forall>m. mn = Some m \<longrightarrow> 1 \<le> m) \<and> (\<forall>m. mx = Some m \<longrightarrow> 1 \<le> m \<and> m \<le> 120) \<and>
     (\<forall>m n. mn = Some m \<longrightarrow> mx = Some n \<longrightarrow> m \<le> n)"
  by (auto simp: bounds_ok_def window_lo_def window_hi_def RELATIVE_WINDOW_FLOOR_def RELATIVE_WINDOW_CEILING_def
    split: option.splits)

lemma parse_slot_ok:
  assumes "parse_slot v = Inr s"
  shows "slot_ok s"
proof -
  obtain raw name ty req b es pat mn mx where
    p: "parse_slot_name raw = Inr name" "parse_slot_shape name raw = Inr (ty, req, b, es)"
       "parse_slot_bounds name raw = Inr (mn, mx)"
    and s: "s = \<lparr>sl_name = name, sl_type = ty, sl_required = req, sl_binds_to = b, sl_enum_values = es,
                sl_optional_pattern = pat, sl_min_value = mn, sl_max_value = mx\<rparr>"
    using assms by (cases v) (auto simp: parse_slot_def rbind_eq_Inr parse_error_def)
  have "name \<noteq> []"
    using p(1) by (auto simp: parse_slot_name_def parse_error_def split: pyval.splits if_splits)
  then show ?thesis
    using parse_slot_shape_ok[OF p(2)] bounds_ok_spec[OF parse_slot_bounds_ok[OF p(3)]] s
    by (cases es) (auto simp: slot_ok_def neq_Nil_conv)
qed

lemma outputs_ok: "outputs_of d = Some os \<Longrightarrow> (k, s) \<in> set os \<Longrightarrow> s \<in> set NODE_OUTPUT_KINDS"
  by (induction d arbitrary: os rule: outputs_of.induct) (auto split: if_splits)

lemma parse_when_ok:
  "parse_when_clause v = Inr w \<Longrightarrow> py_strip (wc_expr w) \<noteq> [] \<and> wc_on_violation w \<in> set ON_VIOLATION"
  by (cases v) (auto simp: parse_when_clause_def rbind_eq_Inr parse_error_def split: pyval.splits if_splits dest: parse_closed_ok)

lemma parse_output_ok: "parse_output nd v = Inr os \<Longrightarrow> (k, s) \<in> set os \<Longrightarrow> s \<in> set NODE_OUTPUT_KINDS"
  by (auto simp: parse_output_def parse_error_def split: option.splits pyval.splits dest: outputs_ok)

lemma parse_when_field_ok:
  "parse_when_field v = Inr (Some w) \<Longrightarrow> py_strip (wc_expr w) \<noteq> [] \<and> wc_on_violation w \<in> set ON_VIOLATION"
  by (auto simp: parse_when_field_def rbind_eq_Inr split: if_splits dest: parse_when_ok)

lemma parse_node_ok: "parse_node v = Inr n \<Longrightarrow> node_ok n"
  by (cases v)
    (auto simp: parse_node_def rbind_eq_Inr Let_def node_ok_def parse_error_def
      dest: parse_closed_ok parse_when_field_ok parse_output_ok)

lemma distinct_names_ok:
  "distinct_names ss seen = Inr u \<Longrightarrow> distinct (map sl_name ss) \<and> sl_name ` set ss \<inter> set seen = {}"
  by (induction ss arbitrary: seen) (fastforce simp: parse_error_def split: if_splits)+

lemma parse_grain_ok: "parse_grain v = Inr g \<Longrightarrow> [] \<notin> set (rg_columns g)"
  by (cases v)
    (auto simp: parse_grain_def parse_grain_columns_def rbind_eq_Inr parse_error_def split: pyval.splits if_splits option.splits)

lemma mapM_r_all: "mapM_r f xs = Inr ys \<Longrightarrow> (\<And>x y. f x = Inr y \<Longrightarrow> P y) \<Longrightarrow> y \<in> set ys \<Longrightarrow> P y"
  by (induction xs arbitrary: ys) (auto simp: rbind_eq_Inr)

text \<open>
  What a stored node says, against the parsed one: no unresolved reference to another blueprint is
  left in it, and its number, its feeds, its inputs and its query are the stored ones.
\<close>

definition node_from :: "pyval \<Rightarrow> node \<Rightarrow> bool" where
  "node_from v n = (case v of
     PDict raw \<Rightarrow> NODE_REF_KEY \<notin> set (dkeys raw) \<and> getv raw ''order'' = PInt (nd_order n) \<and>
       or_value (getv raw ''feeds_from'') (PList []) = PList (map PInt (nd_feeds_from n)) \<and>
       or_value (getv raw ''consumes'') (PDict []) = PDict (nd_consumes n) \<and>
       getv raw ''sql_template'' = (case nd_template n of None \<Rightarrow> PNone | Some t \<Rightarrow> PStr t)
   | _ \<Rightarrow> False)"

lemma ints_of_map: "ints_of xs = Some is \<Longrightarrow> xs = map PInt is"
  by (induction xs arbitrary: "is" rule: ints_of.induct) auto

lemma parse_feeds_ok: "parse_feeds nd v = Inr is \<Longrightarrow> v = PList (map PInt is)"
  by (auto simp: parse_feeds_def parse_error_def ints_of_map split: option.splits pyval.splits)

lemma parse_object_ok: "parse_object v m = Inr d \<Longrightarrow> v = PDict d"
  by (auto simp: parse_object_def parse_error_def split: pyval.splits)

lemma opt_text_ok: "opt_text_field v m = Inr t \<Longrightarrow> v = (case t of None \<Rightarrow> PNone | Some s \<Rightarrow> PStr s)"
  by (cases v) (auto simp: parse_error_def)

lemma parse_order_ok: "parse_order raw = Inr i \<Longrightarrow> getv raw ''order'' = PInt i"
  by (auto simp: parse_order_def parse_error_def split: pyval.splits)

lemma parse_node_from: "parse_node v = Inr n \<Longrightarrow> node_from v n"
  by (cases v)
    (auto simp: parse_node_def rbind_eq_Inr Let_def node_from_def parse_error_def
      dest!: parse_order_ok parse_feeds_ok parse_object_ok opt_text_ok)

lemma mapM_r_rel: "mapM_r f xs = Inr ys \<Longrightarrow> (\<And>x y. f x = Inr y \<Longrightarrow> R x y) \<Longrightarrow> list_all2 R xs ys"
  by (induction xs arbitrary: ys) (auto simp: rbind_eq_Inr)

lemma parse_array_ok: "parse_array l ts v = Inr xs \<Longrightarrow> or_value v (PList []) = PList xs"
  by (auto simp: parse_array_def parse_error_def or_value_def split: pyval.splits)

lemma parse_blueprint_nodes:
  "parse_blueprint b = Inr bp \<Longrightarrow>
     \<exists>raws. or_value (sb_composes b) (PList []) = PList raws \<and> list_all2 node_from raws (bp_composes bp)"
  by (fastforce simp: parse_blueprint_def rbind_eq_Inr dest: parse_array_ok mapM_r_rel[OF _ parse_node_from])

lemma parse_blueprint_wf: "parse_blueprint b = Inr bp \<Longrightarrow> blueprint_ok bp"
  by (auto simp: parse_blueprint_def rbind_eq_Inr blueprint_ok_def MAX_SLOTS_def parse_error_def
    dest: mapM_r_length mapM_r_all[OF _ parse_slot_ok] mapM_r_all[OF _ parse_node_ok] distinct_names_ok parse_grain_ok parse_closed_ok
    split: if_splits)

text \<open>
  C14: whatever the corpus stored, a blueprint that leaves the parse layer is well formed: at most
  sixteen slots with distinct non-empty names and closed-set types, an enum slot with values, no
  domain on a windowed slot, window bounds within 1 and 120 and not inverted, nodes of the closed
  kinds with typed outputs and a usable precondition, and non-empty grain columns. Its nodes are the
  stored ones, one by one and in order: none of them carries an unresolved reference to another
  blueprint, and number, feeds, inputs and query are those stored.
\<close>

theorem parse_blueprint_ok:
  assumes "parse_blueprint b = Inr bp"
  shows "blueprint_ok bp \<and>
    (\<exists>raws. or_value (sb_composes b) (PList []) = PList raws \<and> list_all2 node_from raws (bp_composes bp))"
  using parse_blueprint_wf[OF assms] parse_blueprint_nodes[OF assms] by blast

section \<open>A sample\<close>

definition sample_stored :: stored_blueprint where
  "sample_stored = \<lparr>sb_id = ''bp-hires'', sb_intent = ''hires'', sb_resolves = PNone,
     sb_slots = PList [PDict [(''name'', PStr ''n''), (''type'', PStr ''relative_window''), (''max_value'', PInt 24)]],
     sb_uses_rules = PNone, sb_sql_template = PNone,
     sb_composes = PList [PDict [(''order'', PInt 1), (''sql_template'', PStr ''SELECT 1''),
       (''output'', PDict [(''total'', PStr ''scalar'')])]],
     sb_result_grain = PList [PStr ''month''], sb_window_anchor = PStr ''data''\<rparr>"

definition sample_blueprint :: blueprint where
  "sample_blueprint = \<lparr>bp_id = ''bp-hires'', bp_intent = ''hires'', bp_resolves = [],
     bp_slots = [\<lparr>sl_name = ''n'', sl_type = ''relative_window'', sl_required = True, sl_binds_to = None,
       sl_enum_values = None, sl_optional_pattern = None, sl_min_value = None, sl_max_value = Some 24\<rparr>],
     bp_rules = [], bp_template = None,
     bp_composes = [\<lparr>nd_order = 1, nd_kind = ''query'', nd_feeds_from = [], nd_consumes = [],
       nd_output = [(''total'', ''scalar'')], nd_template = Some ''SELECT 1'', nd_when = None, nd_approval = None\<rparr>],
     bp_grain = \<lparr>rg_columns = [''month''], rg_verifiable = True\<rparr>, bp_anchor = Some ''data''\<rparr>"

lemma sample_parse: "parse_blueprint sample_stored = Inr sample_blueprint"
  by code_simp

theorem parse_blueprint_ok_witness:
  "parse_blueprint sample_stored = Inr sample_blueprint \<and> blueprint_ok sample_blueprint \<and>
   (\<exists>raw. sb_composes sample_stored = PList [raw] \<and> node_from raw (hd (bp_composes sample_blueprint)))"
  using parse_blueprint_ok[OF sample_parse] sample_parse
  by (auto simp: sample_stored_def sample_blueprint_def or_value_def)

end
