(* ===== verification/BlueprintSlots.thy ===== *)
theory BlueprintSlots
  imports BlueprintModels
begin

text \<open>
  \<^verbatim>\<open>runtime/blueprint/slots.py\<close>: the deterministic per-type slot resolvers. A resolution binds a
  value, omits an absent optional slot, or asks the user; the only exception a resolver can raise
  is the \<open>ValueError\<close> of \<^verbatim>\<open>int\<close> on a text that \<^verbatim>\<open>str.isdigit\<close> accepts. Characters are code
  points below 256, on which \<^verbatim>\<open>casefold\<close> lowers letters and writes the sharp s as two.
\<close>

section \<open>Text classes\<close>

definition fold_char :: "char \<Rightarrow> string" where
  "fold_char c = (if (65 \<le> code c \<and> code c \<le> 90) \<or> (192 \<le> code c \<and> code c \<le> 222 \<and> code c \<noteq> 215)
     then [char_of (code c + 32)] else if code c = 223 then ''ss'' else [c])"

definition casefold :: "string \<Rightarrow> string" where
  "casefold s = concat (map fold_char s)"

text \<open>\<^verbatim>\<open>str.isdigit\<close> also accepts the superscripts two, three and one, which \<^verbatim>\<open>int\<close> refuses.\<close>

definition isdigit_char :: "char \<Rightarrow> bool" where
  "isdigit_char c \<longleftrightarrow> is_digit c \<or> code c \<in> {178, 179, 185}"

definition py_isdigit :: "string \<Rightarrow> bool" where
  "py_isdigit s \<longleftrightarrow> s \<noteq> [] \<and> list_all isdigit_char s"

definition py_int_of_text :: "string \<Rightarrow> int result" where
  "py_int_of_text s = (if s \<noteq> [] \<and> list_all is_digit s then Inr (int (read_nat s))
     else Inl (ValueError (''invalid literal for int() with base 10: '' @ repr_str s)))"

definition iso_time_shape :: "string \<Rightarrow> bool" where
  "iso_time_shape s \<longleftrightarrow> length s = 9 \<and> s ! 0 = CHR ''T'' \<and> digits_of 2 (take 2 (drop 1 s)) \<and> s ! 3 = CHR '':'' \<and>
     digits_of 2 (take 2 (drop 4 s)) \<and> s ! 6 = CHR '':'' \<and> digits_of 2 (drop 7 s)"

definition iso_shape :: "string \<Rightarrow> bool" where
  "iso_shape s \<longleftrightarrow> iso_date_shape (take 10 s) \<and> (length s = 10 \<or> iso_time_shape (drop 10 s))"

definition real_time :: "string \<Rightarrow> bool" where
  "real_time s \<longleftrightarrow> read_nat (take 2 (drop 1 s)) < 24 \<and> read_nat (take 2 (drop 4 s)) < 60 \<and> read_nat (take 2 (drop 7 s)) < 60"

definition is_valid_iso_calendar :: "string \<Rightarrow> bool" where
  "is_valid_iso_calendar s \<longleftrightarrow> real_date s \<and> (CHR ''T'' \<in> set s \<longrightarrow> real_time (drop 10 s))"

section \<open>Resolutions\<close>

datatype slot_value = Raw pyval | PeriodRange string string

record slot_binding =
  bd_name :: string
  bd_value :: slot_value
  bd_resolved_from :: string

record ask_user =
  au_slot :: string
  au_reason :: string
  au_question :: string
  au_options :: "string list"

datatype slot_resolution =
    SlotBinding slot_binding
  | OmitSlot string "string option"
  | AskUser ask_user

definition DEICTIC_PERIOD_TOKENS :: "string list" where
  "DEICTIC_PERIOD_TOKENS = [''latest'', ''current'', ''last'', ''recent'', ''this'', ''next'', ''previous'', ''prior'']"

definition bind_slot :: "slot_spec \<Rightarrow> slot_value \<Rightarrow> string \<Rightarrow> slot_resolution" where
  "bind_slot sp v via = SlotBinding \<lparr>bd_name = sl_name sp, bd_value = v, bd_resolved_from = via\<rparr>"

definition ask :: "slot_spec \<Rightarrow> string \<Rightarrow> string \<Rightarrow> string list \<Rightarrow> slot_resolution" where
  "ask sp reason q opts = AskUser \<lparr>au_slot = sl_name sp, au_reason = reason, au_question = q, au_options = opts\<rparr>"

fun normalize :: "pyval \<Rightarrow> pyval" where
  "normalize (PStr s) = PStr (py_strip s)"
| "normalize v = v"

fun is_absent :: "pyval \<Rightarrow> bool" where
  "is_absent PNone \<longleftrightarrow> True"
| "is_absent (PStr s) \<longleftrightarrow> py_strip s = []"
| "is_absent _ \<longleftrightarrow> False"

definition domain_matches :: "string \<Rightarrow> string list \<Rightarrow> string list" where
  "domain_matches v dmn = (if v \<in> set dmn then [v] else filter (\<lambda>d. casefold d = casefold v) dmn)"

definition resolve_scalar :: "pyval \<Rightarrow> slot_spec \<Rightarrow> string list option \<Rightarrow> string \<Rightarrow> slot_resolution" where
  "resolve_scalar raw sp dmn via = (case normalize raw of
     PStr v \<Rightarrow> (case dmn of
         None \<Rightarrow> bind_slot sp (Raw (PStr v)) ''direct''
       | Some ds \<Rightarrow> (case domain_matches v ds of
           [m] \<Rightarrow> bind_slot sp (Raw (PStr m)) via
         | [] \<Rightarrow> ask sp ''no_match'' (''I couldn't find '' @ quoted v @ '' for '' @ quoted (sl_name sp) @ ''. Which did you mean?'') (sort ds)
         | ms \<Rightarrow> ask sp ''multi_match'' (quoted v @ '' matches several values for '' @ quoted (sl_name sp) @
             ''. Which did you mean?'') (sort ms)))
   | v \<Rightarrow> bind_slot sp (Raw (PStr (py_str v))) ''direct'')"

definition resolve_enum :: "pyval \<Rightarrow> slot_spec \<Rightarrow> slot_resolution" where
  "resolve_enum raw sp = (let allowed = (case sl_enum_values sp of Some vs \<Rightarrow> vs | None \<Rightarrow> []);
       refuse = ask sp ''no_match'' (quoted (py_str raw) @ '' is not a valid value for '' @ quoted (sl_name sp) @
         ''. Choose one:'') allowed in
     (case normalize raw of
       PStr v \<Rightarrow>
         if v \<in> set allowed then bind_slot sp (Raw (PStr v)) ''enum''
         else (case filter (\<lambda>a. casefold a = casefold v) allowed of
             [a] \<Rightarrow> bind_slot sp (Raw (PStr a)) ''enum''
           | _ \<Rightarrow> refuse)
     | _ \<Rightarrow> refuse))"

definition resolve_period :: "pyval \<Rightarrow> slot_spec \<Rightarrow> string list option \<Rightarrow> slot_resolution" where
  "resolve_period raw sp dmn = (let value = normalize raw; q = ''Which specific period do you mean for '' @ quoted (sl_name sp) @ ''?'' in
     if (case value of PStr v \<Rightarrow> casefold v \<in> set DEICTIC_PERIOD_TOKENS | _ \<Rightarrow> False)
     then ask sp ''fuzzy'' q (case dmn of Some ds \<Rightarrow> sort ds | None \<Rightarrow> [])
     else (case dmn of
         None \<Rightarrow> ask sp ''fuzzy'' q []
       | Some ds \<Rightarrow> (let v = py_str value in
           (case domain_matches v ds of
             [m] \<Rightarrow> bind_slot sp (Raw (PStr m)) ''domain''
           | [] \<Rightarrow> ask sp ''no_match'' (''I couldn't find the period '' @ quoted v @ '' for '' @ quoted (sl_name sp) @ ''.'') (sort ds)
           | ms \<Rightarrow> ask sp ''multi_match'' (quoted v @ '' maps to several periods for '' @ quoted (sl_name sp) @ ''. Which one?'')
               (sort ms)))))"

text \<open>Each element like a scalar; the first that asks is the answer of the whole list.\<close>

fun resolve_elements :: "pyval list \<Rightarrow> slot_spec \<Rightarrow> string list option \<Rightarrow> pyval list \<Rightarrow> slot_resolution" where
  "resolve_elements [] sp dmn acc = bind_slot sp (Raw (PList acc)) ''list''"
| "resolve_elements (x # xs) sp dmn acc = (case resolve_scalar x sp dmn ''list'' of
     AskUser a \<Rightarrow> AskUser a
   | SlotBinding b \<Rightarrow> resolve_elements xs sp dmn (case bd_value b of Raw v \<Rightarrow> acc @ [v] | PeriodRange _ _ \<Rightarrow> acc)
   | OmitSlot _ _ \<Rightarrow> resolve_elements xs sp dmn acc)"

definition resolve_list :: "pyval \<Rightarrow> slot_spec \<Rightarrow> string list option \<Rightarrow> slot_resolution" where
  "resolve_list raw sp dmn = (let elements = (case raw of PList xs \<Rightarrow> xs | _ \<Rightarrow> [raw]) in
     if elements = [] then ask sp ''no_match'' (quoted (sl_name sp) @ '' needs at least one value.'') []
     else resolve_elements elements sp dmn [])"

definition window_limits :: "slot_spec \<Rightarrow> int \<times> int" where
  "window_limits sp = (max (window_lo (sl_min_value sp)) RELATIVE_WINDOW_FLOOR,
     min (window_hi (sl_max_value sp)) RELATIVE_WINDOW_CEILING)"

definition bind_window :: "int \<Rightarrow> slot_spec \<Rightarrow> slot_resolution" where
  "bind_window n sp = (case window_limits sp of (lo, hi) \<Rightarrow>
     if lo \<le> n \<and> n \<le> hi then bind_slot sp (Raw (PInt n)) ''direct''
     else ask sp ''invalid'' (quoted (sl_name sp) @ '' must be a whole number between '' @ show_int lo @ '' and '' @
       show_int hi @ ''.'') [])"

definition resolve_relative_window :: "pyval \<Rightarrow> slot_spec \<Rightarrow> slot_resolution result" where
  "resolve_relative_window raw sp = (case normalize raw of
     PBool b \<Rightarrow> Inr (ask sp ''invalid'' (quoted (sl_name sp) @ '' expects a whole number of periods (e.g. 6).'') [])
   | PInt n \<Rightarrow> Inr (bind_window n sp)
   | v \<Rightarrow> (case (case v of PStr s \<Rightarrow> if py_isdigit s then Some s else None | _ \<Rightarrow> None) of
       Some s \<Rightarrow> rbind (py_int_of_text s) (\<lambda>n. Inr (bind_window n sp))
     | None \<Rightarrow> Inr (ask sp ''invalid'' (quoted (sl_name sp) @
         '' expects a plain whole number of periods (e.g. 6), no unit.'') [])))"

definition ask_range :: "slot_spec \<Rightarrow> string \<Rightarrow> string \<Rightarrow> slot_resolution" where
  "ask_range sp reason rest = ask sp reason (quoted (sl_name sp) @ rest) []"

definition check_range :: "slot_spec \<Rightarrow> string \<Rightarrow> string \<Rightarrow> slot_resolution" where
  "check_range sp a b =
     (if \<not> iso_shape a \<or> \<not> iso_shape b
      then ask_range sp ''fuzzy'' ('' needs explicit start and end dates in YYYY-MM-DD form '' @ ''(e.g. 2026-01-01), not relative words.'')
      else if \<not> is_valid_iso_calendar a \<or> \<not> is_valid_iso_calendar b
      then ask_range sp ''invalid'' '' start/end must be real calendar dates (e.g. 2026-01-31).''
      else if (CHR ''T'' \<in> set a) \<noteq> (CHR ''T'' \<in> set b)
      then ask_range sp ''invalid'' '' start and end must be the same date shape (both date, or both datetime).''
      else if \<not> a < b then ask_range sp ''invalid'' '' start date must be before its end date.''
      else bind_slot sp (PeriodRange a b) ''direct'')"

definition resolve_period_range :: "pyval \<Rightarrow> slot_spec \<Rightarrow> slot_resolution" where
  "resolve_period_range raw sp =
     (case (case raw of PDict d \<Rightarrow> Some (getv d ''start'', getv d ''end'') | PList [x, y] \<Rightarrow> Some (x, y) | _ \<Rightarrow> None) of
       None \<Rightarrow> ask_range sp ''invalid'' ('' needs explicit start and end dates '' @ ''(e.g. {'' @ [CHR 0x22] @ ''start'' @ [CHR 0x22] @
         '': '' @ [CHR 0x22] @ ''2026-01-01'' @ [CHR 0x22] @ '', '' @ [CHR 0x22] @ ''end'' @ [CHR 0x22] @ '': '' @ [CHR 0x22] @
         ''2026-03-31'' @ [CHR 0x22] @ ''}).'')
     | Some (x, y) \<Rightarrow> (case (normalize x, normalize y) of
         (PStr a, PStr b) \<Rightarrow> check_range sp a b
       | _ \<Rightarrow> ask_range sp ''invalid'' '' needs explicit start and end dates as ISO strings.''))"

definition resolve_slot :: "pyval \<Rightarrow> slot_spec \<Rightarrow> string list option \<Rightarrow> slot_resolution result" where
  "resolve_slot raw sp dmn =
     (if is_absent raw then
        Inr (if sl_required sp then ask sp ''missing'' (''What value should I use for '' @ quoted (sl_name sp) @ ''?'') []
             else OmitSlot (sl_name sp) (sl_optional_pattern sp))
      else if sl_type sp = ''relative_window'' then resolve_relative_window raw sp
      else if sl_type sp = ''period_range'' then Inr (resolve_period_range raw sp)
      else if sl_type sp \<in> {''string'', ''entity''} then
        Inr (case raw of
            PList _ \<Rightarrow> ask sp ''invalid'' (quoted (sl_name sp) @ '' expects a single value, not a list or object.'') []
          | PDict _ \<Rightarrow> ask sp ''invalid'' (quoted (sl_name sp) @ '' expects a single value, not a list or object.'') []
          | _ \<Rightarrow> resolve_scalar raw sp dmn ''domain'')
      else if sl_type sp = ''enum'' then Inr (resolve_enum raw sp)
      else if sl_type sp \<in> {''period'', ''as_of_date''} then Inr (resolve_period raw sp dmn)
      else if sl_type sp = ''list'' then Inr (resolve_list raw sp dmn)
      else Inr (ask sp ''invalid'' (''I can't resolve the '' @ quoted (sl_name sp) @ '' value automatically.'') []))"

text \<open>The tokens a slot binds in a template, and the expansion of its value to them.\<close>

definition slot_token_names :: "slot_spec \<Rightarrow> string list" where
  "slot_token_names sp = (if sl_type sp = ''period_range'' then [sl_name sp @ ''_start'', sl_name sp @ ''_end''] else [sl_name sp])"

definition expand_binding :: "slot_spec \<Rightarrow> slot_value \<Rightarrow> (string \<times> slot_value) list" where
  "expand_binding sp v = (case v of
     PeriodRange a b \<Rightarrow>
       if sl_type sp = ''period_range'' then [(sl_name sp @ ''_start'', Raw (PStr a)), (sl_name sp @ ''_end'', Raw (PStr b))]
       else [(sl_name sp, v)]
   | _ \<Rightarrow> [(sl_name sp, v)])"

section \<open>What a binding is\<close>

text \<open>
  The contract of a resolution for a slot whose domain is \<open>dmn\<close>: the bound value comes from the
  closed set, the domain or the bounds the slot declares, and it is the one the proposal names.
\<close>

text \<open>
  The value of \<open>ds\<close> that a text names: itself if it is one, otherwise the only one equal up to case.
\<close>

definition picks :: "string list \<Rightarrow> string \<Rightarrow> string \<Rightarrow> bool" where
  "picks ds t s \<longleftrightarrow> s \<in> set ds \<and>
     (if t \<in> set ds then s = t else casefold s = casefold t \<and> (\<forall>x \<in> set ds. casefold x = casefold t \<longrightarrow> x = s))"

text \<open>
  A scalar: a text names a domain value, or is bound trimmed when there is no domain. A proposal that
  is no text (a number, or null inside a list) is bound as its text, whatever the domain.
\<close>

definition scalar_ok :: "string list option \<Rightarrow> pyval \<Rightarrow> pyval \<Rightarrow> bool" where
  "scalar_ok dmn raw v \<longleftrightarrow> (case raw of
     PStr t \<Rightarrow> (case dmn of
         None \<Rightarrow> v = PStr (py_strip t)
       | Some ds \<Rightarrow> \<exists>s. v = PStr s \<and> picks ds (py_strip t) s)
   | _ \<Rightarrow> v = PStr (py_str raw))"

definition single_ok :: "string list option \<Rightarrow> pyval \<Rightarrow> slot_value \<Rightarrow> bool" where
  "single_ok dmn raw v \<longleftrightarrow> (\<exists>w. v = Raw w \<and> scalar_ok dmn raw w) \<and> (\<forall>xs d. raw \<noteq> PList xs \<and> raw \<noteq> PDict d)"

definition enum_ok :: "slot_spec \<Rightarrow> pyval \<Rightarrow> slot_value \<Rightarrow> bool" where
  "enum_ok sp raw v \<longleftrightarrow>
     (\<exists>t s vs. raw = PStr t \<and> v = Raw (PStr s) \<and> sl_enum_values sp = Some vs \<and> picks vs (py_strip t) s)"

text \<open>A period is named explicitly: never by a deictic word, whatever the domain holds.\<close>

definition period_ok :: "string list option \<Rightarrow> pyval \<Rightarrow> slot_value \<Rightarrow> bool" where
  "period_ok dmn raw v \<longleftrightarrow> (\<exists>ds s. dmn = Some ds \<and> v = Raw (PStr s) \<and> picks ds (py_str (normalize raw)) s) \<and>
     (\<forall>t. raw = PStr t \<longrightarrow>
        casefold (py_strip t) \<notin> {''latest'', ''current'', ''last'', ''recent'', ''this'', ''next'', ''previous'', ''prior''})"

text \<open>A number of periods: an integer, or a text that is a decimal number and nothing else.\<close>

definition reads_number :: "pyval \<Rightarrow> int \<Rightarrow> bool" where
  "reads_number raw n \<longleftrightarrow> raw = PInt n \<or>
     (\<exists>t. raw = PStr t \<and> py_strip t \<noteq> [] \<and> (\<forall>c \<in> set (py_strip t). is_digit c) \<and> n = int (read_nat (py_strip t)))"

definition names_range :: "pyval \<Rightarrow> string \<Rightarrow> string \<Rightarrow> bool" where
  "names_range raw a b \<longleftrightarrow> (\<exists>s t. a = py_strip s \<and> b = py_strip t \<and>
     (raw = PList [PStr s, PStr t] \<or> (\<exists>d. raw = PDict d \<and> getv d ''start'' = PStr s \<and> getv d ''end'' = PStr t)))"

definition window_bound :: "slot_spec \<Rightarrow> int \<Rightarrow> bool" where
  "window_bound sp n \<longleftrightarrow> 1 \<le> n \<and> n \<le> 120 \<and> (\<forall>m. sl_min_value sp = Some m \<longrightarrow> m \<le> n) \<and> (\<forall>m. sl_max_value sp = Some m \<longrightarrow> n \<le> m)"

definition range_bound :: "string \<Rightarrow> string \<Rightarrow> bool" where
  "range_bound a b \<longleftrightarrow> iso_shape a \<and> iso_shape b \<and> real_date a \<and> real_date b \<and> length a = length b \<and> a < b"

definition binding_ok :: "slot_spec \<Rightarrow> string list option \<Rightarrow> pyval \<Rightarrow> slot_value \<Rightarrow> bool" where
  "binding_ok sp dmn raw v \<longleftrightarrow>
     (sl_type sp \<in> {''string'', ''entity''} \<longrightarrow> single_ok dmn raw v) \<and>
     (sl_type sp = ''enum'' \<longrightarrow> enum_ok sp raw v) \<and>
     (sl_type sp \<in> {''period'', ''as_of_date''} \<longrightarrow> period_ok dmn raw v) \<and>
     (sl_type sp = ''list'' \<longrightarrow> (\<exists>xs ws. v = Raw (PList ws) \<and> ws \<noteq> [] \<and> (raw = PList xs \<or> xs = [raw]) \<and> list_all2 (scalar_ok dmn) xs ws)) \<and>
     (sl_type sp = ''relative_window'' \<longrightarrow> (\<exists>n. v = Raw (PInt n) \<and> reads_number raw n \<and> window_bound sp n)) \<and>
     (sl_type sp = ''period_range'' \<longrightarrow> (\<exists>a b. v = PeriodRange a b \<and> names_range raw a b \<and> range_bound a b))"

lemma bind_slot_is [simp]: "bind_slot sp v f = SlotBinding b \<longleftrightarrow> b = \<lparr>bd_name = sl_name sp, bd_value = v, bd_resolved_from = f\<rparr>"
  by (auto simp: bind_slot_def)

lemma bind_slot_not_ask [simp]: "bind_slot sp v f \<noteq> AskUser a" "ask sp r q os \<noteq> SlotBinding b"
  by (auto simp: bind_slot_def ask_def)

lemma filter_one: "filter P ds = [m] \<Longrightarrow> m \<in> set ds \<and> P m \<and> (\<forall>x \<in> set ds. P x \<longrightarrow> x = m)"
  using set_filter[of P ds] by auto

lemma picks_exact: "t \<in> set ds \<Longrightarrow> picks ds t t"
  by (simp add: picks_def)

lemma picks_casefold: "t \<notin> set ds \<Longrightarrow> filter (\<lambda>d. casefold d = casefold t) ds = [m] \<Longrightarrow> picks ds t m"
  using filter_one[of "\<lambda>d. casefold d = casefold t" ds m] by (simp add: picks_def)

lemma domain_matches_picks: "domain_matches t ds = [m] \<Longrightarrow> picks ds t m"
  by (auto simp: domain_matches_def intro: picks_exact picks_casefold split: if_splits)

lemma resolve_scalar_sound:
  "resolve_scalar raw sp dmn f = SlotBinding b \<Longrightarrow> \<exists>w. bd_value b = Raw w \<and> scalar_ok dmn raw w"
  by (cases raw)
    (auto simp: resolve_scalar_def scalar_ok_def dest: domain_matches_picks split: option.splits list.splits)

lemma resolve_scalar_not_omit: "resolve_scalar raw sp dmn f \<noteq> OmitSlot n p"
  by (auto simp: resolve_scalar_def bind_slot_def ask_def split: pyval.splits option.splits list.splits)

lemma resolve_elements_sound:
  "resolve_elements xs sp dmn acc = SlotBinding b \<Longrightarrow>
     \<exists>ws. bd_value b = Raw (PList (acc @ ws)) \<and> list_all2 (scalar_ok dmn) xs ws"
proof (induction xs arbitrary: acc)
  case (Cons x xs)
  obtain c where c: "resolve_scalar x sp dmn ''list'' = SlotBinding c"
    using Cons.prems resolve_scalar_not_omit by (auto split: slot_resolution.splits)
  then obtain w where w: "bd_value c = Raw w" "scalar_ok dmn x w" using resolve_scalar_sound by blast
  then have "resolve_elements xs sp dmn (acc @ [w]) = SlotBinding b" using Cons.prems c by simp
  from Cons.IH[OF this] w(2) show ?case by force
qed simp

lemma resolve_list_sound:
  assumes "resolve_list raw sp dmn = SlotBinding b"
  shows "\<exists>xs ws. bd_value b = Raw (PList ws) \<and> ws \<noteq> [] \<and> (raw = PList xs \<or> xs = [raw]) \<and> list_all2 (scalar_ok dmn) xs ws"
proof -
  define xs where "xs = (case raw of PList xs \<Rightarrow> xs | _ \<Rightarrow> [raw])"
  have raw: "raw = PList xs \<or> xs = [raw]" by (simp add: xs_def split: pyval.splits)
  have ne: "xs \<noteq> []" and r: "resolve_elements xs sp dmn [] = SlotBinding b"
    using assms by (auto simp: resolve_list_def xs_def[symmetric] split: if_splits)
  obtain ws where ws: "bd_value b = Raw (PList ws)" "list_all2 (scalar_ok dmn) xs ws"
    using resolve_elements_sound[OF r] by auto
  moreover have "ws \<noteq> []" using ws(2) ne by auto
  ultimately show ?thesis using raw by blast
qed

lemma resolve_enum_sound:
  "resolve_enum raw sp = SlotBinding b \<Longrightarrow> enum_ok sp raw (bd_value b)"
  by (cases raw; cases "sl_enum_values sp")
    (auto simp: resolve_enum_def Let_def enum_ok_def intro: picks_exact picks_casefold split: if_splits list.splits)

lemma resolve_period_sound:
  "resolve_period raw sp dmn = SlotBinding b \<Longrightarrow> period_ok dmn raw (bd_value b)"
  by (cases raw)
    (auto simp: resolve_period_def Let_def period_ok_def DEICTIC_PERIOD_TOKENS_def dest: domain_matches_picks
      split: if_splits option.splits list.splits)

lemma bind_window_sound:
  "bind_window n sp = SlotBinding b \<Longrightarrow> bd_value b = Raw (PInt n) \<and> window_bound sp n"
  by (auto simp: bind_window_def window_limits_def window_bound_def window_lo_def window_hi_def RELATIVE_WINDOW_FLOOR_def
    RELATIVE_WINDOW_CEILING_def split: if_splits option.splits)

lemma resolve_relative_window_sound:
  "resolve_relative_window raw sp = Inr (SlotBinding b) \<Longrightarrow>
     \<exists>n. bd_value b = Raw (PInt n) \<and> reads_number raw n \<and> window_bound sp n"
  by (cases raw)
    (auto simp: resolve_relative_window_def rbind_eq_Inr reads_number_def py_int_of_text_def list_all_iff
      dest: bind_window_sound split: option.splits if_splits)

lemma nat_list_char_T: "\<not> is_digit (CHR ''T'')"
  by (simp add: is_digit_def)

lemma iso_date_split:
  "length s = 10 \<Longrightarrow> s = take 4 s @ [s ! 4] @ take 2 (drop 5 s) @ [s ! 7] @ drop 8 s"
  by (auto simp: numeral_eq_Suc length_Suc_conv)

lemma iso_date_no_time: "iso_date_shape s \<Longrightarrow> CHR ''T'' \<notin> set s"
  using nat_list_char_T by (subst iso_date_split) (auto simp: iso_date_shape_def digits_of_def list_all_iff)

lemma iso_shape_length:
  assumes "iso_shape a"
  shows "length a = (if CHR ''T'' \<in> set a then 19 else 10)"
proof (cases "length a = 10")
  case True
  then show ?thesis using assms iso_date_no_time[of a] by (simp add: iso_shape_def)
next
  case False
  then have t: "iso_time_shape (drop 10 a)" using assms by (simp add: iso_shape_def)
  then have l: "length (drop 10 a) = 9" "drop 10 a ! 0 = CHR ''T''" by (simp_all add: iso_time_shape_def)
  then have "CHR ''T'' \<in> set (drop 10 a)" by (metis nth_mem zero_less_numeral)
  then have "CHR ''T'' \<in> set a" by (rule in_set_dropD)
  then show ?thesis using l by simp
qed

lemma check_range_sound:
  assumes "check_range sp a b = SlotBinding c"
  shows "bd_value c = PeriodRange a b \<and> range_bound a b"
proof -
  have *: "iso_shape a" "iso_shape b" "is_valid_iso_calendar a" "is_valid_iso_calendar b"
      "(CHR ''T'' \<in> set a) = (CHR ''T'' \<in> set b)" "a < b" "bd_value c = PeriodRange a b"
    using assms by (auto simp: check_range_def ask_range_def split: if_splits)
  then show ?thesis
    using iso_shape_length[OF *(1)] iso_shape_length[OF *(2)] by (simp add: range_bound_def is_valid_iso_calendar_def)
qed

lemma normalize_text: "normalize v = PStr s \<Longrightarrow> \<exists>t. v = PStr t \<and> s = py_strip t"
  by (cases v) auto

lemma resolve_period_range_sound:
  assumes "resolve_period_range raw sp = SlotBinding b"
  shows "\<exists>x y. bd_value b = PeriodRange x y \<and> names_range raw x y \<and> range_bound x y"
proof -
  obtain x y where xy: "raw = PList [x, y] \<or> (\<exists>d. raw = PDict d \<and> x = getv d ''start'' \<and> y = getv d ''end'')"
    and r: "(case (normalize x, normalize y) of
         (PStr a, PStr b) \<Rightarrow> check_range sp a b
       | _ \<Rightarrow> ask_range sp ''invalid'' '' needs explicit start and end dates as ISO strings.'') = SlotBinding b"
    using assms by (auto simp: resolve_period_range_def ask_range_def split: option.splits pyval.splits list.splits)
  then obtain a c where n: "normalize x = PStr a" "normalize y = PStr c" and "check_range sp a c = SlotBinding b"
    by (auto simp: ask_range_def split: pyval.splits)
  then have "bd_value b = PeriodRange a c \<and> range_bound a c" using check_range_sound by blast
  moreover have "names_range raw a c"
    using xy normalize_text[OF n(1)] normalize_text[OF n(2)] unfolding names_range_def by metis
  ultimately show ?thesis by blast
qed

lemma resolve_elements_name:
  "resolve_elements xs sp dmn acc = SlotBinding b \<Longrightarrow> bd_name b = sl_name sp"
  by (induction xs arbitrary: acc) (auto split: slot_resolution.splits)

lemma resolve_list_name: "resolve_list raw sp dmn = SlotBinding b \<Longrightarrow> bd_name b = sl_name sp"
  unfolding resolve_list_def Let_def by (metis resolve_elements_name bind_slot_not_ask(2))

lemma bind_window_name: "bind_window n sp = SlotBinding b \<Longrightarrow> bd_name b = sl_name sp"
  by (auto simp: bind_window_def split: prod.splits if_splits)

lemma resolve_slot_name:
  "resolve_slot raw sp dmn = Inr (SlotBinding b) \<Longrightarrow> bd_name b = sl_name sp"
  by (auto simp: resolve_slot_def resolve_relative_window_def resolve_period_range_def check_range_def
      ask_range_def resolve_scalar_def resolve_enum_def resolve_period_def Let_def rbind_eq_Inr
    dest: resolve_list_name bind_window_name split: if_splits pyval.splits list.splits option.splits prod.splits)


section \<open>Samples\<close>

definition window_slot :: slot_spec where
  "window_slot = \<lparr>sl_name = ''n'', sl_type = ''relative_window'', sl_required = True, sl_binds_to = None,
     sl_enum_values = None, sl_optional_pattern = None, sl_min_value = None, sl_max_value = Some 24\<rparr>"

definition range_slot :: slot_spec where
  "range_slot = window_slot\<lparr>sl_name := ''w'', sl_type := ''period_range'', sl_max_value := None\<rparr>"

definition list_slot :: slot_spec where
  "list_slot = window_slot\<lparr>sl_name := ''dept'', sl_type := ''list'', sl_max_value := None\<rparr>"

lemma sample_list:
  "resolve_slot (PList [PStr '' sales'', PStr ''HR'']) list_slot (Some [''Sales'', ''HR'']) =
     Inr (SlotBinding \<lparr>bd_name = ''dept'', bd_value = Raw (PList [PStr ''Sales'', PStr ''HR'']), bd_resolved_from = ''list''\<rparr>)"
  by code_simp


text \<open>
  What the executor binds in a template is exactly the tokens the slot owns, and never a date
  pair: a bound range becomes its two bounds.
\<close>

theorem expanded_binding_owns_tokens:
  assumes "resolve_slot raw sp dmn = Inr (SlotBinding b)"
  shows "map fst (expand_binding sp (bd_value b)) = slot_token_names sp \<and>
         snd ` set (expand_binding sp (bd_value b)) \<subseteq> range Raw"
proof (cases "sl_type sp = ''period_range''")
  case True
  then obtain x y where "bd_value b = PeriodRange x y"
    using assms by (auto simp: resolve_slot_def dest: resolve_period_range_sound split: if_splits)
  then show ?thesis using True by (simp add: expand_binding_def slot_token_names_def)
next
  case False
  have "\<exists>w. bd_value b = Raw w"
    using assms False unfolding resolve_slot_def
    by (auto simp: enum_ok_def period_ok_def split: if_splits pyval.splits dest!: resolve_scalar_sound
      resolve_enum_sound resolve_period_sound resolve_list_sound resolve_relative_window_sound)
  then show ?thesis using False by (auto simp: expand_binding_def slot_token_names_def)
qed

lemma sample_range:
  "resolve_slot (PDict [(''start'', PStr ''2024-02-29''), (''end'', PStr ''2026-01-01'')]) range_slot None =
     Inr (SlotBinding \<lparr>bd_name = ''w'', bd_value = PeriodRange ''2024-02-29'' ''2026-01-01'', bd_resolved_from = ''direct''\<rparr>)"
  by code_simp

theorem expanded_binding_owns_tokens_witness:
  "map fst (expand_binding range_slot (PeriodRange ''2024-02-29'' ''2026-01-01'')) = [''w_start'', ''w_end'']"
  using expanded_binding_owns_tokens[OF sample_range] by (simp add: slot_token_names_def range_slot_def window_slot_def)

text \<open>
  The resolvers never raise, with one exception that the code does not intend: a window text of
  digits in the sense of \<^verbatim>\<open>str.isdigit\<close> that are not all decimal digits (a superscript) reaches
  \<^verbatim>\<open>int\<close> and raises \<open>ValueError\<close> instead of asking the user.
\<close>

theorem resolve_slot_raises_iff:
  "(\<exists>e. resolve_slot raw sp dmn = Inl e) \<longleftrightarrow>
     sl_type sp = ''relative_window'' \<and> (\<exists>s. raw = PStr s \<and> py_isdigit (py_strip s) \<and> \<not> list_all is_digit (py_strip s))"
  by (cases raw) (auto simp: resolve_slot_def resolve_relative_window_def py_int_of_text_def py_isdigit_def)

lemma superscript_window_raises:
  "resolve_slot (PStr [CHR 0xB2]) window_slot None =
     Inl (ValueError (''invalid literal for int() with base 10: '' @ repr_str [CHR 0xB2]))"
  by code_simp

end
