(* ===== verification/BlueprintTemplate.thy ===== *)
theory BlueprintTemplate
  imports BlueprintSlots
begin

text \<open>
  \<^verbatim>\<open>runtime/blueprint/template.py\<close> and \<^verbatim>\<open>grain_probe.py\<close>: binding of slot values as typed literal
  nodes of the parsed query, never as text. The SQL library is the parameter \<open>sqlglot\<close>: its parser,
  its printer, its class test and the output names of a query; its trees are the datatype \<open>sql\<close>, whose
  nodes carry the class name and, for the classes the code looks into, their name fields.
\<close>

section \<open>Syntax trees\<close>

datatype literal = LBoolean bool | LNumber string | LString string | LTuple "literal list"

datatype sql =
    Placeholder "string option"
  | Table string string "sql list"
  | Lit literal
  | Op string "sql list"

record sqlglot =
  sg_parse :: "string \<Rightarrow> sql option"
  sg_render :: "sql \<Rightarrow> string"
  sg_is :: "string \<Rightarrow> string \<Rightarrow> bool"
  sg_named_selects :: "sql \<Rightarrow> string list"

fun lit_class :: "literal \<Rightarrow> string" where
  "lit_class (LBoolean b) = ''Boolean''"
| "lit_class (LTuple ls) = ''Tuple''"
| "lit_class _ = ''Literal''"

fun sql_class :: "sql \<Rightarrow> string" where
  "sql_class (Placeholder n) = ''Placeholder''"
| "sql_class (Table n d as) = ''Table''"
| "sql_class (Lit l) = lit_class l"
| "sql_class (Op c as) = c"

fun sql_args :: "sql \<Rightarrow> sql list" where
  "sql_args (Table n d as) = as"
| "sql_args (Op c as) = as"
| "sql_args _ = []"

definition instance_of :: "sqlglot \<Rightarrow> sql \<Rightarrow> string list \<Rightarrow> bool" where
  "instance_of sg t cs \<longleftrightarrow> list_ex (sg_is sg (sql_class t)) cs"

text \<open>\<^verbatim>\<open>tree.walk()\<close>: the node and everything below it.\<close>

primrec walk :: "sql \<Rightarrow> sql list" where
  "walk (Placeholder n) = [Placeholder n]"
| "walk (Table n d as) = Table n d as # concat (map walk as)"
| "walk (Lit l) = [Lit l]"
| "walk (Op c as) = Op c as # concat (map walk as)"

section \<open>Read-only templates\<close>

definition FORBIDDEN_STATEMENTS :: "string list" where
  "FORBIDDEN_STATEMENTS = [''Block'', ''Insert'', ''Update'', ''Delete'', ''Drop'', ''Create'', ''Alter'', ''Command'', ''Set'',
     ''Use'', ''TruncateTable'', ''Merge'']"

definition READ_ONLY_ROOTS :: "string list" where
  "READ_ONLY_ROOTS = [''Select'', ''Union'', ''Intersect'', ''Except'']"

definition bind_error :: "string \<Rightarrow> 'a result" where
  "bind_error m = Inl (TemplateBindError m)"

definition require :: "bool \<Rightarrow> string \<Rightarrow> unit result" where
  "require b m = (if b then Inr () else bind_error m)"

lemma require_ok [simp]: "require b m = Inr u \<longleftrightarrow> b"
  by (simp add: require_def bind_error_def)

definition assert_read_only_select :: "sqlglot \<Rightarrow> sql \<Rightarrow> unit result" where
  "assert_read_only_select sg t = (case find (\<lambda>n. instance_of sg n FORBIDDEN_STATEMENTS) (walk t) of
     Some n \<Rightarrow> bind_error (''template contains a non-read-only or multi-statement construct '' @
       ''('' @ sql_class n @ ''); a blueprint must be a single read-only SELECT'')
   | None \<Rightarrow> require (instance_of sg t READ_ONLY_ROOTS)
       (''template root must be a SELECT (or a set-operation of SELECTs), '' @ ''got '' @ sql_class t))"

definition contains_star :: "sqlglot \<Rightarrow> sql \<Rightarrow> bool" where
  "contains_star sg t \<longleftrightarrow> list_ex (\<lambda>n. instance_of sg n [''Star'']) (walk t)"

definition referenced_slots :: "string \<Rightarrow> string list" where
  "referenced_slots s = remdups (find_slot_tokens s)"

text \<open>\<^verbatim>\<open>_SLOT_TOKEN.sub\<close>: every token \<^verbatim>\<open>{name}\<close> as \<^verbatim>\<open>:name\<close>.\<close>

function placeholder_sql :: "string \<Rightarrow> string" where
  "placeholder_sql s = (case s of [] \<Rightarrow> []
     | c # rest \<Rightarrow> (case slot_token_at s of
         Some (name, r) \<Rightarrow> CHR '':'' # name @ placeholder_sql r | None \<Rightarrow> c # placeholder_sql rest))"
  by pat_completeness auto
termination
  by (relation "measure length") (auto simp del: slot_token_at.simps dest: slot_token_length)

declare placeholder_sql.simps [simp del]

definition parse_template :: "sqlglot \<Rightarrow> string \<Rightarrow> sql result" where
  "parse_template sg s = (case sg_parse sg (placeholder_sql s) of
     Some t \<Rightarrow> Inr t | None \<Rightarrow> bind_error ''template does not parse under ClickHouse dialect'')"

section \<open>Typed literals\<close>

text \<open>The texts of a float that is not finite.\<close>

definition NON_FINITE :: "string list" where
  "NON_FINITE = [''inf'', ''-inf'', ''nan'']"

primrec to_literal :: "string \<Rightarrow> pyval \<Rightarrow> literal result" where
  "to_literal name PNone = bind_error (''slot '' @ repr_str name @ '' bound to an unbindable value of type NoneType'')"
| "to_literal name (PBool b) = Inr (LBoolean b)"
| "to_literal name (PInt i) = Inr (LNumber (show_int i))"
| "to_literal name (PFloat r) = (if r \<in> set NON_FINITE
     then bind_error (''slot '' @ repr_str name @ '' bound to a non-finite float '' @ r) else Inr (LNumber r))"
| "to_literal name (PStr s) = Inr (LString s)"
| "to_literal name (PList xs) = (if xs = [] then bind_error (''slot '' @ repr_str name @ '' bound to an empty list '' @ em_dash @
       '' cannot form an IN set'')
     else rbind (mapM_r (\<lambda>r. r) (map (to_literal name) xs)) (\<lambda>ls. Inr (LTuple ls)))"
| "to_literal name (PDict d) = bind_error (''slot '' @ repr_str name @ '' bound to an unbindable value of type dict'')"

section \<open>Table placeholders\<close>

definition SCRATCH_DB :: string where
  "SCRATCH_DB = ''scratch''"

text \<open>A tree transformation visits a node before its arguments and does not enter a replaced node.\<close>

primrec rewrite_scratch_tables :: "(string \<times> string) list \<Rightarrow> sql \<Rightarrow> sql result" where
  "rewrite_scratch_tables tb (Placeholder n) = Inr (Placeholder n)"
| "rewrite_scratch_tables tb (Lit l) = Inr (Lit l)"
| "rewrite_scratch_tables tb (Table n d as) =
     (if d = SCRATCH_DB then
        (case map_of tb n of
          None \<Rightarrow> bind_error (''scratch table placeholder '' @ repr_str n @ '' has no materialized '' @ ''binding '' @ em_dash @
            '' the upstream table intermediate was not produced'')
        | Some m \<Rightarrow> Inr (Table m d as))
      else rbind (mapM_r (\<lambda>r. r) (map (rewrite_scratch_tables tb) as)) (\<lambda>bs. Inr (Table n d bs)))"
| "rewrite_scratch_tables tb (Op c as) =
     rbind (mapM_r (\<lambda>r. r) (map (rewrite_scratch_tables tb) as)) (\<lambda>bs. Inr (Op c bs))"

section \<open>Optional patterns\<close>

fun opt_repr :: "string option \<Rightarrow> string" where
  "opt_repr None = ''None''"
| "opt_repr (Some s) = repr_str s"

definition PREDICATE_BOUNDARY :: "string list" where
  "PREDICATE_BOUNDARY = [''And'', ''Or'', ''Not'', ''Where'', ''PreWhere'', ''Having'', ''Qualify'']"

definition CLAUSE_BOUNDARY :: "string list" where
  "CLAUSE_BOUNDARY = [''Where'', ''PreWhere'', ''Having'', ''Qualify'']"

primrec is_boolean_condition :: "sqlglot \<Rightarrow> sql \<Rightarrow> bool" where
  "is_boolean_condition sg (Placeholder n) =
     (instance_of sg (Placeholder n) [''Condition''] \<and> \<not> instance_of sg (Placeholder n) [''Literal'', ''Column''] \<and>
      \<not> (instance_of sg (Placeholder n) [''Binary''] \<and> \<not> instance_of sg (Placeholder n) [''Predicate'', ''Connector'']))"
| "is_boolean_condition sg (Table n d as) =
     (instance_of sg (Table n d as) [''Condition''] \<and> \<not> instance_of sg (Table n d as) [''Literal'', ''Column''] \<and>
      \<not> (instance_of sg (Table n d as) [''Binary''] \<and> \<not> instance_of sg (Table n d as) [''Predicate'', ''Connector'']))"
| "is_boolean_condition sg (Lit l) =
     (instance_of sg (Lit l) [''Condition''] \<and> \<not> instance_of sg (Lit l) [''Literal'', ''Column''] \<and>
      \<not> (instance_of sg (Lit l) [''Binary''] \<and> \<not> instance_of sg (Lit l) [''Predicate'', ''Connector'']))"
| "is_boolean_condition sg (Op c as) =
     (if \<not> instance_of sg (Op c as) [''Condition''] then False
      else if instance_of sg (Op c as) [''Literal'', ''Column''] then False
      else if instance_of sg (Op c as) [''Paren'']
      then (case map (is_boolean_condition sg) as of b # _ \<Rightarrow> b | [] \<Rightarrow> False)
      else \<not> (instance_of sg (Op c as) [''Binary''] \<and> \<not> instance_of sg (Op c as) [''Predicate'', ''Connector'']))"

text \<open>
  Positions are lists of argument indexes. \<^verbatim>\<open>find_all\<close> goes level by level: the positions in
  document order, sorted by depth.
\<close>

primrec positions :: "sql \<Rightarrow> nat list list" where
  "positions (Placeholder n) = [[]]"
| "positions (Lit l) = [[]]"
| "positions (Table n d as) = [] # concat (map (\<lambda>(i, ps). map (Cons i) ps) (enumerate 0 (map positions as)))"
| "positions (Op c as) = [] # concat (map (\<lambda>(i, ps). map (Cons i) ps) (enumerate 0 (map positions as)))"

fun node_at :: "sql \<Rightarrow> nat list \<Rightarrow> sql option" where
  "node_at t [] = Some t"
| "node_at t (i # p) = (if i < length (sql_args t) then node_at (sql_args t ! i) p else None)"

fun with_args :: "sql \<Rightarrow> sql list \<Rightarrow> sql" where
  "with_args (Table n d as) bs = Table n d bs"
| "with_args (Op c as) bs = Op c bs"
| "with_args t bs = t"

fun replace_at :: "sql \<Rightarrow> nat list \<Rightarrow> sql \<Rightarrow> sql" where
  "replace_at t [] u = u"
| "replace_at t (i # p) u = (if i < length (sql_args t)
     then with_args t ((sql_args t)[i := replace_at (sql_args t ! i) p u]) else t)"

definition is_placeholder :: "sql option \<Rightarrow> bool" where
  "is_placeholder t = (case t of Some (Placeholder n) \<Rightarrow> True | _ \<Rightarrow> False)"

definition placeholder_name :: "sql option \<Rightarrow> string option" where
  "placeholder_name t = (case t of Some (Placeholder n) \<Rightarrow> n | _ \<Rightarrow> None)"

definition find_placeholders :: "sql \<Rightarrow> nat list list" where
  "find_placeholders t = sort_key length (filter (\<lambda>p. is_placeholder (node_at t p)) (positions t))"

definition names_of :: "sql \<Rightarrow> string option list" where
  "names_of t = map (\<lambda>p. placeholder_name (node_at t p)) (find_placeholders t)"

text \<open>The ancestors of a position, nearest first.\<close>

definition ancestors :: "nat list \<Rightarrow> nat list list" where
  "ancestors p = map (\<lambda>n. take n p) (rev [0..<length p])"

definition at_class :: "sqlglot \<Rightarrow> sql \<Rightarrow> nat list \<Rightarrow> string list \<Rightarrow> bool" where
  "at_class sg t p cs = (case node_at t p of Some n \<Rightarrow> instance_of sg n cs | None \<Rightarrow> False)"

definition under_not :: "sqlglot \<Rightarrow> sql \<Rightarrow> nat list \<Rightarrow> bool" where
  "under_not sg t p \<longleftrightarrow>
     list_ex (\<lambda>q. at_class sg t q [''Not'']) (takeWhile (\<lambda>q. \<not> at_class sg t q CLAUSE_BOUNDARY) (ancestors p))"

definition enclosing_predicate :: "sqlglot \<Rightarrow> sql \<Rightarrow> nat list \<Rightarrow> nat list result" where
  "enclosing_predicate sg t p =
     rbind (require (\<not> under_not sg t p) (''optional_pattern for slot '' @ opt_repr (placeholder_name (node_at t p)) @
       '' sits under a NOT '' @ em_dash @ '' applying it '' @ ''would invert the filter's polarity; fail closed'')) (\<lambda>_.
     Inr (last (p # takeWhile (\<lambda>q. \<not> at_class sg t q PREDICATE_BOUNDARY) (ancestors p))))"

definition parse_optional_pattern :: "sqlglot \<Rightarrow> string \<Rightarrow> string \<Rightarrow> sql result" where
  "parse_optional_pattern sg name pattern = (case sg_parse sg pattern of
     None \<Rightarrow> bind_error (''optional_pattern for slot '' @ repr_str name @ '' does not parse under ClickHouse '' @ ''dialect'')
   | Some t \<Rightarrow>
       rbind (require (is_boolean_condition sg t) (''optional_pattern for slot '' @ repr_str name @ '' must be a boolean SQL condition '' @
         ''(e.g. 'TRUE'), got '' @ sql_class t)) (\<lambda>_.
       rbind (require (find_placeholders t = [] \<and> referenced_slots pattern = [])
         (''optional_pattern for slot '' @ repr_str name @ '' must not contain a slot token or '' @
          ''placeholder '' @ em_dash @ '' it must be a self-contained boolean fragment'')) (\<lambda>_. Inr t)))"

fun first_applicable :: "(string \<times> 'p) list \<Rightarrow> sql \<Rightarrow> (nat list \<times> string \<times> 'p) option" where
  "first_applicable pats t =
     (case List.map_filter (\<lambda>p. Option.bind (placeholder_name (node_at t p)) (\<lambda>n. map_option (\<lambda>u. (p, n, u)) (map_of pats n)))
        (find_placeholders t) of x # _ \<Rightarrow> Some x | [] \<Rightarrow> None)"

definition applicable_names :: "(string \<times> 'p) list \<Rightarrow> sql \<Rightarrow> string list" where
  "applicable_names pats t = filter (\<lambda>n. map_of pats n \<noteq> None) (List.map_filter (\<lambda>n. n) (names_of t))"

fun foreign_name :: "string option \<Rightarrow> string" where
  "foreign_name (Some n) = ''{'' @ n @ ''}''"
| "foreign_name None = ''?''"

definition foreign_sites :: "sql \<Rightarrow> string \<Rightarrow> string list" where
  "foreign_sites t name = sort (remdups (map foreign_name (filter (\<lambda>n. n \<noteq> Some name) (names_of t))))"

definition apply_pattern :: "sqlglot \<Rightarrow> sql \<Rightarrow> nat list \<Rightarrow> string \<Rightarrow> sql \<Rightarrow> sql result" where
  "apply_pattern sg t p name pattern =
     rbind (enclosing_predicate sg t p) (\<lambda>q.
     rbind (require (q \<noteq> [] \<and> at_class sg t q [''Condition'']) (''optional_pattern for slot '' @ repr_str name @
       '' could not locate an enclosing '' @ ''boolean predicate to replace'')) (\<lambda>_.
     case node_at t q of
       None \<Rightarrow> Inl (IllTyped ''no such node'')
     | Some predicate \<Rightarrow>
         rbind (require (foreign_sites predicate name = []) (''optional_pattern for slot '' @ repr_str name @
           '' shares its predicate with other '' @ ''bind site(s) '' @ repr_strs (foreign_sites predicate name) @
           ''; replacing it would drop them '' @ em_dash @ '' fail closed'')) (\<lambda>_. Inr (replace_at t q pattern))))"

fun apply_loop :: "nat \<Rightarrow> sqlglot \<Rightarrow> (string \<times> sql) list \<Rightarrow> sql \<Rightarrow> sql result" where
  "apply_loop 0 sg pats t = Inr t"
| "apply_loop (Suc n) sg pats t = (case first_applicable pats t of
     None \<Rightarrow> Inr t
   | Some (p, name, pattern) \<Rightarrow> rbind (apply_pattern sg t p name pattern) (apply_loop n sg pats))"

definition apply_optional_patterns :: "sqlglot \<Rightarrow> (string \<times> string) list \<Rightarrow> sql \<Rightarrow> sql result" where
  "apply_optional_patterns sg patterns t = (let present = remdups (applicable_names patterns t) in
     if present = [] then Inr t
     else rbind (mapM_r (\<lambda>n. rbind (parse_optional_pattern sg n (the (map_of patterns n))) (\<lambda>u. Inr (n, u))) present) (\<lambda>pats.
       rbind (apply_loop (length (applicable_names pats t)) sg pats t) (\<lambda>u.
       rbind (require (applicable_names pats u = [])
         (''optional_pattern application did not converge '' @ em_dash @ '' fail closed'')) (\<lambda>_. Inr u))))"

section \<open>Binding\<close>

primrec bind_tree :: "(string \<times> pyval) list \<Rightarrow> sql \<Rightarrow> sql result" where
  "bind_tree b (Placeholder n) = (case n of
     None \<Rightarrow> bind_error ''unbound placeholder None in template''
   | Some name \<Rightarrow> (case map_of b name of
       None \<Rightarrow> bind_error (''unbound placeholder '' @ repr_str name @ '' in template'')
     | Some v \<Rightarrow> rbind (to_literal name v) (\<lambda>l. Inr (Lit l))))"
| "bind_tree b (Lit l) = Inr (Lit l)"
| "bind_tree b (Table n d as) = rbind (mapM_r (\<lambda>r. r) (map (bind_tree b) as)) (\<lambda>bs. Inr (Table n d bs))"
| "bind_tree b (Op c as) = rbind (mapM_r (\<lambda>r. r) (map (bind_tree b) as)) (\<lambda>bs. Inr (Op c bs))"

text \<open>The tree to bind: everything that happens before a value is looked at.\<close>

definition prepare_template :: "sqlglot \<Rightarrow> string \<Rightarrow> (string \<times> string) list \<Rightarrow> (string \<times> string) list \<Rightarrow> sql result" where
  "prepare_template sg template tables patterns =
     rbind (parse_template sg template) (\<lambda>t.
     rbind (if tables = [] then Inr t else rewrite_scratch_tables tables t) (\<lambda>t'.
     if patterns = [] then Inr t' else apply_optional_patterns sg patterns t'))"

definition bind_template :: "sqlglot \<Rightarrow> string \<Rightarrow> (string \<times> pyval) list \<Rightarrow> (string \<times> string) list \<Rightarrow> (string \<times> string) list \<Rightarrow> string result" where
  "bind_template sg template bindings tables patterns =
     (let referenced = referenced_slots template; provided = map fst bindings;
          missing = filter (\<lambda>n. n \<notin> set provided \<and> n \<notin> set (map fst patterns)) referenced;
          extra = filter (\<lambda>n. n \<notin> set referenced) provided in
     rbind (require (missing = []) (''template references slot(s) with no binding: '' @ repr_strs (sort missing))) (\<lambda>_.
     rbind (require (extra = []) (''binding(s) for slot(s) the template does not reference: '' @ repr_strs (sort extra))) (\<lambda>_.
     rbind (prepare_template sg template tables patterns) (\<lambda>t.
     rbind (bind_tree bindings t) (\<lambda>u. Inr (sg_render sg u))))))"

section \<open>Non-interference of values with the query\<close>

text \<open>The shape of a tree: every bind site and every literal is the same hole.\<close>

primrec shape :: "sql \<Rightarrow> sql" where
  "shape (Placeholder n) = Placeholder None"
| "shape (Lit l) = Placeholder None"
| "shape (Table n d as) = Table n d (map shape as)"
| "shape (Op c as) = Op c (map shape as)"

primrec closed_sql :: "sql \<Rightarrow> bool" where
  "closed_sql (Placeholder n) \<longleftrightarrow> False"
| "closed_sql (Lit l) \<longleftrightarrow> True"
| "closed_sql (Table n d as) \<longleftrightarrow> list_all (\<lambda>b. b) (map closed_sql as)"
| "closed_sql (Op c as) \<longleftrightarrow> list_all (\<lambda>b. b) (map closed_sql as)"

lemma mapM_id: "mapM_r (\<lambda>r. r) rs = Inr ys \<longleftrightarrow> rs = map Inr ys"
  by (induction rs arbitrary: ys) (auto simp: rbind_eq_Inr Cons_eq_map_conv)

lemma bind_args:
  "(\<And>a u. a \<in> set as \<Longrightarrow> bind_tree b a = Inr u \<Longrightarrow> shape u = shape a \<and> closed_sql u) \<Longrightarrow>
     map (bind_tree b) as = map Inr bs \<Longrightarrow> map shape bs = map shape as \<and> list_all closed_sql bs"
proof (induction as arbitrary: bs)
  case (Cons a as)
  then obtain u us where bs: "bs = u # us" "bind_tree b a = Inr u" "map (bind_tree b) as = map Inr us"
    by (auto simp: Cons_eq_map_conv)
  have "map shape us = map shape as \<and> list_all closed_sql us"
    by (rule Cons.IH[OF _ bs(3)]) (use Cons.prems(1) in auto)
  with Cons.prems(1)[OF _ bs(2)] bs(1) show ?case by simp
qed simp

lemma bind_tree_shape: "bind_tree b t = Inr u \<Longrightarrow> shape u = shape t \<and> closed_sql u"
proof (induction t arbitrary: u)
  case (Placeholder n)
  then show ?case by (auto simp: bind_error_def rbind_eq_Inr split: option.splits)
next
  case (Table n d as)
  then obtain bs where "u = Table n d bs" "map (bind_tree b) as = map Inr bs" by (auto simp: rbind_eq_Inr mapM_id)
  then show ?case using bind_args[of as b bs] Table.IH by (auto simp: list.pred_map comp_def)
next
  case (Op c as)
  then obtain bs where "u = Op c bs" "map (bind_tree b) as = map Inr bs" by (auto simp: rbind_eq_Inr mapM_id)
  then show ?case using bind_args[of as b bs] Op.IH by (auto simp: list.pred_map comp_def)
qed auto

lemma referenced_slots_set [simp]: "set (referenced_slots s) = set (find_slot_tokens s)"
  by (simp add: referenced_slots_def)

text \<open>
  A number in SQL: digits with a sign, a point and an exponent, and no other letter. The text of a
  float is such a number or names one of the three values that are not finite.
\<close>

definition number_text :: "string \<Rightarrow> bool" where
  "number_text s \<longleftrightarrow> (\<exists>c \<in> set s. is_digit c) \<and> (\<forall>c \<in> set s. is_digit c \<or> c \<in> set ''+-.e'')"

primrec float_texts :: "pyval \<Rightarrow> bool" where
  "float_texts PNone \<longleftrightarrow> True"
| "float_texts (PBool b) \<longleftrightarrow> True"
| "float_texts (PInt i) \<longleftrightarrow> True"
| "float_texts (PFloat r) \<longleftrightarrow> number_text r \<or> r \<in> {''inf'', ''-inf'', ''nan''}"
| "float_texts (PStr s) \<longleftrightarrow> True"
| "float_texts (PList xs) \<longleftrightarrow> list_all (\<lambda>b. b) (map float_texts xs)"
| "float_texts (PDict d) \<longleftrightarrow> True"

text \<open>The literal that stands for a value: of its type, with its content, and a number is a number.\<close>

primrec denotes :: "pyval \<Rightarrow> literal \<Rightarrow> bool" where
  "denotes PNone l \<longleftrightarrow> False"
| "denotes (PBool b) l \<longleftrightarrow> l = LBoolean b"
| "denotes (PInt i) l \<longleftrightarrow> l = LNumber (show_int i) \<and> number_text (show_int i)"
| "denotes (PFloat r) l \<longleftrightarrow> l = LNumber r \<and> number_text r"
| "denotes (PStr s) l \<longleftrightarrow> l = LString s"
| "denotes (PList xs) l \<longleftrightarrow> xs \<noteq> [] \<and> (\<exists>ls. l = LTuple ls \<and> list_all2 (\<lambda>f. f) (map denotes xs) ls)"
| "denotes (PDict d) l \<longleftrightarrow> False"

text \<open>The second tree is the first with every bind site filled by the value of its own name.\<close>

primrec filled :: "(string \<times> pyval) list \<Rightarrow> sql \<Rightarrow> sql \<Rightarrow> bool" where
  "filled b (Placeholder n) u \<longleftrightarrow>
     (\<exists>name v l. n = Some name \<and> map_of b name = Some v \<and> u = Lit l \<and> denotes v l)"
| "filled b (Lit l) u \<longleftrightarrow> u = Lit l"
| "filled b (Table n d as) u \<longleftrightarrow> (\<exists>bs. u = Table n d bs \<and> list_all2 (\<lambda>f. f) (map (filled b) as) bs)"
| "filled b (Op c as) u \<longleftrightarrow> (\<exists>bs. u = Op c bs \<and> list_all2 (\<lambda>f. f) (map (filled b) as) bs)"

lemma show_int_number: "number_text (show_int i)"
proof -
  have "number_text (show_nat n)" for n
    using show_nat_digits[of _ n] show_nat_not_empty[of n] by (cases "show_nat n") (auto simp: number_text_def)
  then show ?thesis by (auto simp: show_int_def number_text_def)
qed

lemma to_literal_denotes: "float_texts v \<Longrightarrow> to_literal name v = Inr l \<Longrightarrow> denotes v l"
proof (induction v arbitrary: l)
  case (PList xs)
  then obtain ls where l: "l = LTuple ls" "map (to_literal name) xs = map Inr ls" "xs \<noteq> []"
    by (auto simp: bind_error_def rbind_eq_Inr mapM_id split: if_splits)
  have "list_all2 (\<lambda>f. f) (map denotes xs) ls"
    unfolding list_all2_conv_all_nth
  proof (intro conjI allI impI)
    show len: "length (map denotes xs) = length ls" using l(2) by (metis length_map)
    fix i assume "i < length (map denotes xs)"
    with l(2) len have "xs ! i \<in> set xs" "to_literal name (xs ! i) = Inr (ls ! i)" by (simp_all add: list_eq_iff_nth_eq)
    moreover from this PList.prems(1) have "float_texts (xs ! i)" by (auto simp: list_all_iff)
    ultimately show "(map denotes xs ! i) (ls ! i)" using PList.IH \<open>i < length (map denotes xs)\<close> by simp
  qed
  with l show ?case by simp
qed (auto simp: bind_error_def NON_FINITE_def show_int_number split: if_splits)

lemma filled_args:
  assumes "\<And>a u. a \<in> set as \<Longrightarrow> bind_tree b a = Inr u \<Longrightarrow> filled b a u" and "map (bind_tree b) as = map Inr bs"
  shows "list_all2 (\<lambda>f. f) (map (filled b) as) bs"
  unfolding list_all2_conv_all_nth
proof (intro conjI allI impI)
  show len: "length (map (filled b) as) = length bs" using assms(2) by (metis length_map)
  fix i assume i: "i < length (map (filled b) as)"
  with assms(2) len have "bind_tree b (as ! i) = Inr (bs ! i)" by (simp add: list_eq_iff_nth_eq)
  with assms(1)[of "as ! i"] i show "(map (filled b) as ! i) (bs ! i)" by simp
qed

lemma bind_tree_filled:
  assumes "\<forall>(n, v) \<in> set b. float_texts v"
  shows "bind_tree b t = Inr u \<Longrightarrow> filled b t u"
proof (induction t arbitrary: u)
  case (Placeholder n)
  then obtain name v l where "n = Some name" "map_of b name = Some v" "to_literal name v = Inr l" "u = Lit l"
    by (auto simp: bind_error_def rbind_eq_Inr split: option.splits)
  with assms to_literal_denotes[of v name l] map_of_SomeD[of b name v] show ?case by auto
next
  case (Table n d as)
  then obtain bs where "u = Table n d bs" "map (bind_tree b) as = map Inr bs" by (auto simp: rbind_eq_Inr mapM_id)
  with filled_args[of as b bs] Table.IH show ?case by simp
next
  case (Op c as)
  then obtain bs where "u = Op c bs" "map (bind_tree b) as = map Inr bs" by (auto simp: rbind_eq_Inr mapM_id)
  with filled_args[of as b bs] Op.IH show ?case by simp
qed simp

text \<open>
  C13: slot values cannot inject: the query that is emitted prints the prepared template, in which no
  value took part, with every bind site filled by a literal of the value bound to its own token and
  with nothing else changed. The literal is of the value's type and content, a list one of literals;
  a number is a number, so a float that is not finite is never emitted. And the token sets agree: no
  token is left unbound and no value is dropped.
\<close>

theorem bind_template_injection_free:
  assumes "bind_template sg template bindings tables patterns = Inr out"
    and "\<forall>(n, v) \<in> set bindings. float_texts v"
  shows "\<exists>t u. prepare_template sg template tables patterns = Inr t \<and> out = sg_render sg u \<and>
    filled bindings t u \<and> shape u = shape t \<and> closed_sql u \<and>
    set (map fst bindings) \<subseteq> set (find_slot_tokens template) \<and>
    set (find_slot_tokens template) \<subseteq> set (map fst bindings) \<union> set (map fst patterns)"
proof -
  obtain t u where tu: "prepare_template sg template tables patterns = Inr t" "bind_tree bindings t = Inr u"
      "out = sg_render sg u"
    and m: "filter (\<lambda>n. n \<notin> set (map fst bindings) \<and> n \<notin> set (map fst patterns)) (referenced_slots template) = []"
    and e: "filter (\<lambda>n. n \<notin> set (referenced_slots template)) (map fst bindings) = []"
    using assms(1) by (auto simp: bind_template_def Let_def rbind_eq_Inr)
  have "set (map fst bindings) \<subseteq> set (find_slot_tokens template)"
    using e unfolding filter_empty_conv by simp blast
  moreover have "set (find_slot_tokens template) \<subseteq> set (map fst bindings) \<union> set (map fst patterns)"
    using m unfolding filter_empty_conv by simp blast
  ultimately show ?thesis using tu bind_tree_shape[OF tu(2)] bind_tree_filled[OF assms(2) tu(2)] by blast
qed

section \<open>The grain probe\<close>

definition casefold_candidates :: "string list \<Rightarrow> string \<Rightarrow> string list" where
  "casefold_candidates outputs col = remdups (filter (\<lambda>n. casefold n = casefold col) outputs)"

fun map_columns :: "string list \<Rightarrow> string list \<Rightarrow> string list option" where
  "map_columns outputs [] = Some []"
| "map_columns outputs (col # cols) =
     (if col \<in> set outputs then map_option (Cons col) (map_columns outputs cols)
      else (case casefold_candidates outputs col of
          [m] \<Rightarrow> map_option (Cons m) (map_columns outputs cols)
        | _ \<Rightarrow> None))"

definition map_grain_columns :: "sqlglot \<Rightarrow> string \<Rightarrow> string list \<Rightarrow> string list option" where
  "map_grain_columns sg template cols = (case parse_template sg template of
     Inl e \<Rightarrow> None | Inr t \<Rightarrow> map_columns (sg_named_selects sg t) cols)"

definition ident :: "string \<Rightarrow> sql" where
  "ident n = Op ''Identifier'' [Lit (LString n)]"

definition build_grain_probe_sql :: "sqlglot \<Rightarrow> string \<Rightarrow> string list \<Rightarrow> string result" where
  "build_grain_probe_sql sg final_sql cols = (case sg_parse sg final_sql of
     None \<Rightarrow> Inl (OtherError ''ParseError'')
   | Some inner \<Rightarrow> rbind (assert_read_only_select sg inner) (\<lambda>_. Inr (sg_render sg (Op ''Select''
       [Op ''Alias'' [Op ''Count'' [Op ''Star'' []], ident ''__bp_n''],
        Op ''Alias'' [Op ''Count'' [Op ''Distinct'' (map (\<lambda>c. Op ''Column'' [ident c]) cols)], ident ''__bp_d''],
        Op ''From'' [Op ''Subquery'' [inner, Op ''TableAlias'' [ident ''__bp_sub'']]]]))))"

text \<open>\<^verbatim>\<open>int(x)\<close> of a cell; the digits of a float and underscores in a text are outside the model.\<close>

definition int_of_text :: "string \<Rightarrow> int result" where
  "int_of_text s = (let t = py_strip s; (neg, d) = (case t of c # r \<Rightarrow> if c = CHR ''-'' then (True, r)
       else if c = CHR ''+'' then (False, r) else (False, t) | [] \<Rightarrow> (False, [])) in
     if CHR ''_'' \<in> set t then Inl (IllTyped ''underscores in a number'')
     else rbind (py_int_of_text d) (\<lambda>n. Inr (if neg then - n else n)))"

fun int_of_cell :: "pyval \<Rightarrow> int result" where
  "int_of_cell (PStr s) = int_of_text s"
| "int_of_cell v = py_int v"

definition grain_probe_rows :: "pyval \<Rightarrow> pyval list list" where
  "grain_probe_rows raw = (case raw of
     PDict d \<Rightarrow> (case getv d ''rows'' of PList rs \<Rightarrow> List.map_filter (\<lambda>r. case r of PList cs \<Rightarrow> Some cs | _ \<Rightarrow> None) rs | _ \<Rightarrow> [])
   | _ \<Rightarrow> [])"

definition unpack_grain_probe :: "pyval \<Rightarrow> (int option \<times> int option) result" where
  "unpack_grain_probe raw = (case grain_probe_rows raw of
     (a # b # _) # _ \<Rightarrow>
       (case rbind (int_of_cell a) (\<lambda>m. rbind (int_of_cell b) (\<lambda>n. Inr (Some m, Some n))) of
          Inl TypeError \<Rightarrow> Inr (None, None)
        | Inl (ValueError m) \<Rightarrow> Inr (None, None)
        | r \<Rightarrow> r)
   | _ \<Rightarrow> Inr (None, None))"

text \<open>
  The grain probe counts no guessed column: every mapped column is an output of the template,
  and it is either the declared name itself or the only output that equals it up to case.
\<close>

theorem map_grain_columns_unambiguous:
  assumes "map_grain_columns sg template cols = Some ms"
  shows "\<exists>t. parse_template sg template = Inr t \<and> length ms = length cols \<and>
    (\<forall>(c, m) \<in> set (zip cols ms). m \<in> set (sg_named_selects sg t) \<and>
       (m = c \<or> c \<notin> set (sg_named_selects sg t) \<and> (\<forall>n \<in> set (sg_named_selects sg t). casefold n = casefold c \<longleftrightarrow> n = m)))"
proof -
  have cand: "m \<in> set os \<and> (\<forall>n \<in> set os. casefold n = casefold c \<longleftrightarrow> n = m)" if "casefold_candidates os c = [m]" for os c m
  proof -
    have "{n \<in> set os. casefold n = casefold c} = {m}"
      using arg_cong[OF that, of set] by (simp add: casefold_candidates_def)
    then show ?thesis by blast
  qed
  have "map_columns os cs = Some zs \<Longrightarrow> length zs = length cs \<and> (\<forall>(c, m) \<in> set (zip cs zs). m \<in> set os \<and>
      (m = c \<or> c \<notin> set os \<and> (\<forall>n \<in> set os. casefold n = casefold c \<longleftrightarrow> n = m)))" for os cs zs
  proof (induction cs arbitrary: zs)
    case (Cons c cs)
    then obtain m ms where ms: "zs = m # ms" "map_columns os cs = Some ms"
      and m: "c \<in> set os \<and> m = c \<or> c \<notin> set os \<and> casefold_candidates os c = [m]"
      by (auto split: if_splits list.splits)
    with cand[of os c m] Cons.IH[OF ms(2)] show ?case by auto
  qed simp
  then show ?thesis using assms by (auto simp: map_grain_columns_def split: sum.splits)
qed

section \<open>Samples\<close>

definition region_tree :: sql where
  "region_tree = Op ''Select'' [Op ''Column'' [ident ''total''],
     Op ''Where'' [Op ''EQ'' [Op ''Column'' [ident ''region''], Placeholder (Some ''region'')]]]"

primrec print_sql :: "sql \<Rightarrow> string" where
  "print_sql (Placeholder n) = ''?''"
| "print_sql (Lit l) = (case l of LString s \<Rightarrow> repr_str s | LNumber n \<Rightarrow> n | _ \<Rightarrow> [])"
| "print_sql (Table n d as) = d @ ''.'' @ n"
| "print_sql (Op c as) = c @ ''('' @ join '', '' (map print_sql as) @ '')''"

definition sample_glot :: sqlglot where
  "sample_glot = \<lparr>sg_parse = (\<lambda>s. if s = ''SELECT total FROM t WHERE region = :region'' then Some region_tree else None),
     sg_render = print_sql, sg_is = (=), sg_named_selects = (\<lambda>t. [''total'', ''Dept''])\<rparr>"

definition region_template :: string where
  "region_template = ''SELECT total FROM t WHERE region = {region}''"

text \<open>Two bind sites, one value that would be an injection as text and a list of numbers.\<close>

definition floor_tree :: sql where
  "floor_tree = Op ''And'' [region_tree, Op ''In'' [Op ''Column'' [ident ''total''], Placeholder (Some ''totals'')]]"

definition floor_template :: string where
  "floor_template = ''SELECT total FROM t WHERE region = {region} AND total IN {totals}''"

definition floor_glot :: sqlglot where
  "floor_glot = sample_glot\<lparr>sg_parse := (\<lambda>s.
     if s = ''SELECT total FROM t WHERE region = :region AND total IN :totals'' then Some floor_tree else None)\<rparr>"

definition floor_bindings :: "(string \<times> pyval) list" where
  "floor_bindings = [(''region'', PStr ''x' OR 1''), (''totals'', PList [PFloat ''2.5'', PInt (- 3)])]"

lemma sample_bind:
  "bind_template floor_glot floor_template floor_bindings [] [] =
     Inr (print_sql (Op ''And'' [Op ''Select'' [Op ''Column'' [ident ''total''],
       Op ''Where'' [Op ''EQ'' [Op ''Column'' [ident ''region''], Lit (LString ''x' OR 1'')]]],
       Op ''In'' [Op ''Column'' [ident ''total''], Lit (LTuple [LNumber ''2.5'', LNumber ''-3''])]]))"
  by code_simp

theorem bind_template_injection_free_witness:
  "\<exists>u. filled floor_bindings floor_tree u \<and> closed_sql u \<and> shape u = shape floor_tree"
proof -
  have t: "prepare_template floor_glot floor_template [] [] = Inr floor_tree" by code_simp
  have "number_text ''2.5''" by code_simp
  then have "\<forall>(n, v) \<in> set floor_bindings. float_texts v" by (simp add: floor_bindings_def)
  from bind_template_injection_free[OF sample_bind this] t show ?thesis by auto
qed

text \<open>A float that is not finite is refused.\<close>

lemma non_finite_refused:
  "bind_template floor_glot floor_template [(''region'', PStr ''x''), (''totals'', PFloat ''nan'')] [] [] =
     bind_error (''slot '' @ repr_str ''totals'' @ '' bound to a non-finite float nan'')"
  by code_simp

lemma sample_grain: "map_grain_columns sample_glot region_template [''dept''] = Some [''Dept'']"
  by code_simp

theorem map_grain_columns_unambiguous_witness:
  "\<exists>t. parse_template sample_glot region_template = Inr t \<and> length [''Dept''] = length [''dept'']"
  using map_grain_columns_unambiguous[OF sample_grain] by auto

end
