(* ===== verification/BlueprintDag.thy ===== *)
theory BlueprintDag
  imports BlueprintTemplate
begin

text \<open>
  The pure helpers of \<^verbatim>\<open>runtime/blueprint/executor.py\<close>: the topological order of the nodes, the
  unpacking of a query result, the scalar and table outputs of a node, its bindings, the approval
  decision and the union of provenances.
\<close>

section \<open>Topological order\<close>

definition orders :: "node list \<Rightarrow> int list" where
  "orders nodes = map nd_order nodes"

definition by_order :: "node list \<Rightarrow> int \<Rightarrow> node option" where
  "by_order nodes k = find (\<lambda>n. nd_order n = k) nodes"

definition in_degree :: "node list \<Rightarrow> int \<Rightarrow> nat" where
  "in_degree nodes k = (case by_order nodes k of Some n \<Rightarrow> length (nd_feeds_from n) | None \<Rightarrow> 0)"

definition children :: "node list \<Rightarrow> int \<Rightarrow> int list" where
  "children nodes p = concat (map (\<lambda>n. map (\<lambda>_. nd_order n) (filter (\<lambda>q. q = p) (nd_feeds_from n))) nodes)"

definition relax :: "int \<Rightarrow> (int \<Rightarrow> nat) \<times> int list \<Rightarrow> (int \<Rightarrow> nat) \<times> int list" where
  "relax c st = (case st of (deg, ready) \<Rightarrow>
     (deg(c := deg c - 1), if deg c - 1 = 0 then ready @ [c] else ready))"

text \<open>The loop takes at most one step per node, which is its fuel.\<close>

fun kahn :: "nat \<Rightarrow> node list \<Rightarrow> (int \<Rightarrow> nat) \<Rightarrow> int list \<Rightarrow> int list \<Rightarrow> int list" where
  "kahn 0 nodes deg ready ordered = ordered"
| "kahn (Suc f) nodes deg [] ordered = ordered"
| "kahn (Suc f) nodes deg (c # ready) ordered = (case fold relax (children nodes c) (deg, ready) of
     (deg', ready') \<Rightarrow> kahn f nodes deg' (sort ready') (ordered @ [c]))"

definition topo_order :: "node list \<Rightarrow> node list option" where
  "topo_order nodes =
     (if \<not> distinct (orders nodes) then None
      else if \<exists>n \<in> set nodes. \<not> set (nd_feeds_from n) \<subseteq> set (orders nodes) then None
      else let ks = kahn (length nodes) nodes (in_degree nodes) (sort (filter (\<lambda>k. in_degree nodes k = 0) (orders nodes))) []
           in if length ks \<noteq> length nodes then None else Some (map (\<lambda>k. the (by_order nodes k)) ks))"

section \<open>Kahn's order is topological\<close>

definition parents :: "node list \<Rightarrow> int \<Rightarrow> int list" where
  "parents nodes k = (case by_order nodes k of Some n \<Rightarrow> nd_feeds_from n | None \<Rightarrow> [])"

fun grounded :: "node list \<Rightarrow> int list \<Rightarrow> int set \<Rightarrow> bool" where
  "grounded nodes [] seen \<longleftrightarrow> True"
| "grounded nodes (k # ks) seen \<longleftrightarrow> set (parents nodes k) \<subseteq> seen \<and> grounded nodes ks (insert k seen)"

lemma grounded_append: "grounded nodes (xs @ ys) seen \<longleftrightarrow> grounded nodes xs seen \<and> grounded nodes ys (seen \<union> set xs)"
  by (induction xs arbitrary: seen) auto

lemma by_order_some: "by_order nodes k = Some n \<Longrightarrow> n \<in> set nodes \<and> nd_order n = k"
  by (auto simp: by_order_def find_Some_iff)

lemma by_order_mem: "distinct (orders nodes) \<Longrightarrow> n \<in> set nodes \<Longrightarrow> by_order nodes (nd_order n) = Some n"
  unfolding by_order_def orders_def
proof (induction nodes)
  case (Cons m nodes)
  then show ?case by (cases "n = m") (auto simp: rev_image_eqI)
qed simp

lemma by_order_defined: "k \<in> set (orders nodes) \<longleftrightarrow> by_order nodes k \<noteq> None"
  by (auto simp: by_order_def orders_def find_None_iff)

lemma in_degree_parents: "in_degree nodes k = length (parents nodes k)"
  by (simp add: in_degree_def parents_def split: option.splits)

lemma count_filter_const: "count_list (map (\<lambda>_. a) xs) b = (if a = b then length xs else 0)"
  by (induction xs) auto

lemma count_filter_eq: "length (filter (\<lambda>q. q = p) xs) = count_list xs p"
  by (induction xs) auto

lemma count_children_none: "k \<notin> set (orders nodes) \<Longrightarrow> count_list (children nodes p) k = 0"
  by (induction nodes) (auto simp: children_def orders_def count_list_append count_filter_const)

lemma count_children: "distinct (orders nodes) \<Longrightarrow> count_list (children nodes p) k = count_list (parents nodes k) p"
proof (induction nodes)
  case (Cons n nodes)
  have step: "count_list (children (n # nodes) p) k =
      (if nd_order n = k then count_list (nd_feeds_from n) p else 0) + count_list (children nodes p) k"
    by (simp add: children_def count_list_append count_filter_const count_filter_eq)
  show ?case
  proof (cases "nd_order n = k")
    case True
    then have "k \<notin> set (orders nodes)" using Cons.prems by (auto simp: orders_def)
    then show ?thesis using True step count_children_none by (simp add: parents_def by_order_def)
  next
    case False
    then show ?thesis using Cons step by (simp add: parents_def by_order_def orders_def)
  qed
qed (simp add: children_def parents_def by_order_def)

lemma relax_all:
  "(\<And>k. count_list cs k \<le> deg k) \<Longrightarrow> fold relax cs (deg, ready) = (deg', ready') \<Longrightarrow>
     (\<forall>k. deg' k = deg k - count_list cs k) \<and> set ready' = set ready \<union> {k \<in> set cs. deg k = count_list cs k} \<and>
     (distinct ready \<longrightarrow> set ready \<inter> set cs = {} \<longrightarrow> distinct ready')"
proof (induction cs arbitrary: deg ready)
  case (Cons c cs)
  let ?deg = "deg(c := deg c - 1)" let ?ready = "if deg c - 1 = 0 then ready @ [c] else ready"
  have pos: "1 \<le> deg c" "count_list cs c \<le> deg c - 1" using Cons.prems(1)[of c] by auto
  have le: "count_list cs k \<le> ?deg k" for k using Cons.prems(1)[of k] pos by (auto split: if_splits)
  have r: "relax c (deg, ready) = (?deg, ?ready)" by (simp only: relax_def prod.case)
  have f: "fold relax cs (?deg, ?ready) = (deg', ready')" using Cons.prems(2) by (simp only: fold_simps r)
  note ih = Cons.IH[OF le f]
  have d: "\<forall>k. deg' k = deg k - count_list (c # cs) k" using ih by simp
  have in_cs: "deg c - 1 = 0 \<Longrightarrow> c \<notin> set cs" using pos(2) by (simp add: count_list_0_iff)
  have s: "set ready' = set ready \<union> {k \<in> set (c # cs). deg k = count_list (c # cs) k}"
  proof (rule set_eqI)
    fix k
    have m: "k \<in> set ready' \<longleftrightarrow> k \<in> set ?ready \<or> k \<in> set cs \<and> ?deg k = count_list cs k" using ih by blast
    show "k \<in> set ready' \<longleftrightarrow> k \<in> set ready \<union> {k \<in> set (c # cs). deg k = count_list (c # cs) k}"
    proof (cases "k = c")
      case True
      then show ?thesis using m pos in_cs by (cases "c \<in> set cs") (auto simp: count_list_0_iff)
    next
      case False
      then show ?thesis using m by simp
    qed
  qed
  have "distinct ready \<longrightarrow> set ready \<inter> set (c # cs) = {} \<longrightarrow> distinct ready'"
    using ih in_cs by auto
  with d s show ?case by blast
qed simp

text \<open>
  The loop invariant: the degree of a node counts its parents that are not ordered yet, the ready
  list holds exactly the unordered nodes of degree zero, and what is ordered rests on its parents.
\<close>

definition open_parents :: "node list \<Rightarrow> int list \<Rightarrow> int \<Rightarrow> int list" where
  "open_parents nodes ordered k = filter (\<lambda>p. p \<notin> set ordered) (parents nodes k)"

definition kahn_inv :: "node list \<Rightarrow> (int \<Rightarrow> nat) \<Rightarrow> int list \<Rightarrow> int list \<Rightarrow> bool" where
  "kahn_inv nodes deg ready ordered \<longleftrightarrow>
     distinct (ordered @ ready) \<and> set (ordered @ ready) \<subseteq> set (orders nodes) \<and>
     (\<forall>k. deg k = length (open_parents nodes ordered k)) \<and>
     (\<forall>k \<in> set (orders nodes). k \<notin> set ordered \<longrightarrow> (k \<in> set ready \<longleftrightarrow> deg k = 0)) \<and>
     grounded nodes ordered {}"

lemma open_parents_step:
  "c \<notin> set ordered \<Longrightarrow>
     length (open_parents nodes (ordered @ [c]) k) = length (open_parents nodes ordered k) - count_list (parents nodes k) c \<and>
     count_list (parents nodes k) c \<le> length (open_parents nodes ordered k)"
proof -
  assume c: "c \<notin> set ordered"
  have "length (filter (\<lambda>p. p \<notin> set ordered) ps) = length (filter (\<lambda>p. p \<notin> set (ordered @ [c])) ps) + count_list ps c" for ps
    using c by (induction ps) auto
  then show ?thesis unfolding open_parents_def by (metis add_diff_cancel_right' le_add2)
qed

lemma parents_closed_none: "k \<notin> set (orders nodes) \<Longrightarrow> parents nodes k = []"
  by (simp add: parents_def by_order_defined)

lemma kahn_inv_init:
  "distinct (orders nodes) \<Longrightarrow>
     kahn_inv nodes (in_degree nodes) (sort (filter (\<lambda>k. in_degree nodes k = 0) (orders nodes))) []"
  by (auto simp: kahn_inv_def in_degree_parents open_parents_def)

lemma kahn_inv_step:
  assumes inv: "kahn_inv nodes deg (c # ready) ordered" and dist: "distinct (orders nodes)"
    and f: "fold relax (children nodes c) (deg, ready) = (deg', ready')"
  shows "kahn_inv nodes deg' (sort ready') (ordered @ [c])"
proof -
  have c: "c \<notin> set ordered" "c \<in> set (orders nodes)" "c \<notin> set ready" "deg c = 0"
    using inv by (auto simp: kahn_inv_def)
  have deg: "deg k = length (open_parents nodes ordered k)" for k using inv by (simp add: kahn_inv_def)
  note cnt = count_children[OF dist, of c]
  have le: "count_list (children nodes c) k \<le> deg k" for k
    using open_parents_step[OF c(1), of nodes k] by (simp add: deg cnt)
  note r = relax_all[OF le f]
  have deg': "deg' k = length (open_parents nodes (ordered @ [c]) k)" for k
    using r open_parents_step[OF c(1), of nodes k] by (simp add: deg cnt)
  have ch: "set (children nodes c) \<subseteq> set (orders nodes)" by (auto simp: children_def orders_def)
  have ready0: "k \<in> set ready \<Longrightarrow> deg k = 0" for k using inv by (auto simp: kahn_inv_def)
  have no_child: "k \<in> set (children nodes c) \<Longrightarrow> 1 \<le> deg k" for k
    using le[of k] by (metis count_list_0_iff less_one not_le order_trans)
  have new: "k \<in> set ready' \<longleftrightarrow> k \<in> set ready \<or> k \<in> set (children nodes c) \<and> deg k = count_list (children nodes c) k" for k
    using r by blast
  have d: "distinct ready'" using r inv ready0 no_child by (fastforce simp: kahn_inv_def)
  have disj: "set ready' \<inter> set (ordered @ [c]) = {}"
  proof -
    have "k \<notin> set ordered" if "k \<in> set (children nodes c)" for k
    proof
      assume k: "k \<in> set ordered"
      have "set (parents nodes k) \<subseteq> set ordered"
      proof -
        obtain xs ys where xs: "ordered = xs @ k # ys" using k by (meson split_list)
        then have "set (parents nodes k) \<subseteq> set xs" using inv by (simp add: kahn_inv_def grounded_append)
        then show ?thesis using xs by auto
      qed
      then have "deg k = 0" by (auto simp: deg open_parents_def filter_empty_conv)
      then show False using no_child[OF that] by simp
    qed
    moreover have "c \<notin> set (children nodes c)" using no_child[of c] c(4) by auto
    ultimately show ?thesis using inv new c(3) by (fastforce simp: kahn_inv_def)
  qed
  have iff: "k \<in> set ready' \<longleftrightarrow> deg' k = 0" if "k \<in> set (orders nodes)" "k \<notin> set (ordered @ [c])" for k
  proof -
    have k: "k \<in> set ready \<longleftrightarrow> deg k = 0" using inv that by (auto simp: kahn_inv_def)
    have dk: "deg' k = deg k - count_list (children nodes c) k" using r by blast
    show ?thesis
      using k dk le[of k] new[of k] by (cases "k \<in> set (children nodes c)") (auto simp: count_list_0_iff)
  qed
  have "open_parents nodes ordered c = []" using c(4) deg[of c] by simp
  then have "grounded nodes (ordered @ [c]) {}"
    using inv by (auto simp: kahn_inv_def grounded_append open_parents_def filter_empty_conv)
  then show ?thesis
    using d disj iff inv deg' new ch c(2) by (auto simp: kahn_inv_def)
qed

text \<open>The fuel is enough: when the loop stops, no node is ready.\<close>

lemma kahn_ends:
  "kahn_inv nodes deg ready ordered \<Longrightarrow> distinct (orders nodes) \<Longrightarrow> length nodes \<le> f + length ordered \<Longrightarrow>
     \<exists>deg'. kahn_inv nodes deg' [] (kahn f nodes deg ready ordered)"
proof (induction f nodes deg ready ordered rule: kahn.induct)
  case (1 nodes deg ready ordered)
  have "length (ordered @ ready) \<le> length (orders nodes)"
    using 1 by (metis card_mono distinct_card kahn_inv_def List.finite_set)
  then have "length ready = 0" using 1(3) by (simp only: length_append orders_def length_map)
  then have "ready = []" by (simp only: length_0_conv)
  then show ?case using 1 by auto
next
  case (3 f nodes deg c ready ordered)
  obtain deg' ready' where f: "fold relax (children nodes c) (deg, ready) = (deg', ready')" by fastforce
  then show ?case using 3 kahn_inv_step[OF 3(2,3) f] by simp
qed auto

definition topological :: "node list \<Rightarrow> node list \<Rightarrow> bool" where
  "topological nodes ns \<longleftrightarrow> mset ns = mset nodes \<and>
     (\<forall>i < length ns. set (nd_feeds_from (ns ! i)) \<subseteq> set (orders (take i ns)))"

lemma grounded_nth: "grounded nodes ks seen \<Longrightarrow> i < length ks \<Longrightarrow> set (parents nodes (ks ! i)) \<subseteq> seen \<union> set (take i ks)"
proof (induction ks arbitrary: seen i)
  case (Cons k ks)
  then show ?case by (cases i) fastforce+
qed simp

lemma topo_sound:
  assumes d: "distinct (orders nodes)" and inv: "kahn_inv nodes deg [] ks" and len: "length ks = length nodes"
  shows "topological nodes (map (\<lambda>k. the (by_order nodes k)) ks)"
proof -
  let ?ns = "map (\<lambda>k. the (by_order nodes k)) ks"
  have k: "distinct ks" "set ks \<subseteq> set (orders nodes)" "grounded nodes ks {}" using inv by (auto simp: kahn_inv_def)
  have "set ks = set (orders nodes)"
  proof (rule card_subset_eq)
    show "card (set ks) = card (set (orders nodes))"
      using distinct_card[OF k(1)] distinct_card[OF d] len by (simp only: orders_def length_map)
  qed (use k in simp_all)
  then have "mset ks = mset (orders nodes)" using k(1) d by (simp add: set_eq_iff_mset_eq_distinct)
  then have "mset ?ns = image_mset (\<lambda>k. the (by_order nodes k)) (mset (orders nodes))" by simp
  also have "\<dots> = image_mset (\<lambda>n. the (by_order nodes (nd_order n))) (mset nodes)"
    by (simp add: orders_def image_mset.compositionality comp_def)
  also have "\<dots> = image_mset (\<lambda>n. n) (mset nodes)"
    by (rule image_mset_cong) (simp add: by_order_mem[OF d])
  also have "\<dots> = mset nodes" by simp
  finally have m: "mset ?ns = mset nodes" .
  have ord: "orders (map (\<lambda>k. the (by_order nodes k)) xs) = xs" if "set xs \<subseteq> set ks" for xs
    using that
  proof (induction xs)
    case (Cons x xs)
    obtain n where "by_order nodes x = Some n" using Cons.prems k(2) by_order_defined[of x nodes] by fastforce
    then show ?case using Cons by_order_some[of nodes x n] by (simp add: orders_def)
  qed (simp add: orders_def)
  have "set (nd_feeds_from (?ns ! i)) \<subseteq> set (orders (take i ?ns))" if "i < length ?ns" for i
  proof -
    have "by_order nodes (ks ! i) \<noteq> None" using that k(2) nth_mem[of i ks] by_order_defined[of "ks ! i" nodes] by (simp add: subset_iff)
    then have "nd_feeds_from (?ns ! i) = parents nodes (ks ! i)" using that by (auto simp: parents_def)
    moreover have "orders (take i ?ns) = take i ks" using ord[of "take i ks"] set_take_subset[of i ks] by (simp add: take_map)
    ultimately show ?thesis using grounded_nth[OF k(3), of i] that by simp
  qed
  with m show ?thesis by (simp add: topological_def)
qed

lemma topo_complete:
  assumes d: "distinct (orders nodes)" and inv: "kahn_inv nodes deg [] ks" and top: "topological nodes ns"
  shows "length ks = length nodes"
proof (rule ccontr)
  assume ne: "length ks \<noteq> length nodes"
  have k: "distinct ks" "set ks \<subseteq> set (orders nodes)" using inv by (auto simp: kahn_inv_def)
  have "\<not> set (orders nodes) \<subseteq> set ks"
    using ne k d by (metis distinct_card equalityI length_map orders_def)
  moreover have set_ns: "set ns = set nodes" using top by (metis topological_def set_mset_mset)
  ultimately obtain n where n: "n \<in> set ns" "nd_order n \<notin> set ks" by (auto simp: orders_def)
  let ?P = "\<lambda>i. i < length ns \<and> nd_order (ns ! i) \<notin> set ks"
  define i where "i = (LEAST i. ?P i)"
  have "\<exists>i. ?P i" using n by (metis in_set_conv_nth)
  then have "?P i" unfolding i_def by (rule LeastI_ex)
  then have i: "i < length ns" "nd_order (ns ! i) \<notin> set ks" by simp_all
  have min: "nd_order (ns ! j) \<in> set ks" if "j < i" for j
    using not_less_Least[of j ?P] that i(1) by (simp add: i_def)
  have mem: "ns ! i \<in> set nodes" using i(1) set_ns nth_mem by blast
  have "parents nodes (nd_order (ns ! i)) = nd_feeds_from (ns ! i)"
    by (simp add: parents_def by_order_mem[OF d mem])
  moreover have "set (nd_feeds_from (ns ! i)) \<subseteq> set ks"
  proof -
    have "set (orders (take i ns)) \<subseteq> set ks" using min i(1) by (auto simp: orders_def in_set_conv_nth)
    then show ?thesis using top i(1) by (auto simp: topological_def)
  qed
  ultimately have "open_parents nodes ks (nd_order (ns ! i)) = []"
    by (auto simp: open_parents_def filter_empty_conv)
  then show False using inv i(2) mem by (auto simp: kahn_inv_def orders_def)
qed

lemma kahn_final:
  assumes d: "distinct (orders nodes)"
  obtains deg where "kahn_inv nodes deg [] (kahn (length nodes) nodes (in_degree nodes)
      (sort (filter (\<lambda>k. in_degree nodes k = 0) (orders nodes))) [])"
proof -
  have "length nodes \<le> length nodes + length ([] :: int list)" by simp
  from kahn_ends[OF kahn_inv_init[OF d] d this] show thesis using that by blast
qed

lemma topological_closed:
  assumes "topological nodes ns" and "n \<in> set nodes"
  shows "set (nd_feeds_from n) \<subseteq> set (orders nodes)"
proof -
  have s: "set ns = set nodes" using assms(1) by (metis topological_def set_mset_mset)
  then obtain i where i: "i < length ns" "ns ! i = n" using assms(2) by (metis in_set_conv_nth)
  then have "set (nd_feeds_from n) \<subseteq> set (orders (take i ns))" using assms(1) by (auto simp: topological_def)
  then show ?thesis using s by (auto simp: orders_def dest!: subsetD dest: in_set_takeD)
qed

lemma topo_order_sound: "topo_order nodes = Some ns \<Longrightarrow> topological nodes ns \<and> distinct (orders nodes)"
proof -
  assume t: "topo_order nodes = Some ns"
  then have d: "distinct (orders nodes)" by (auto simp: topo_order_def split: if_splits)
  obtain deg where "kahn_inv nodes deg [] (kahn (length nodes) nodes (in_degree nodes)
      (sort (filter (\<lambda>k. in_degree nodes k = 0) (orders nodes))) [])" using kahn_final[OF d] .
  from topo_sound[OF d this] t d show ?thesis by (auto simp: topo_order_def Let_def split: if_splits)
qed

text \<open>
  C21: the executor's order is right and complete: it is a permutation of the nodes in which every
  node comes after all the nodes it feeds from, and it is refused only when two nodes share an
  order or no such permutation exists (a cycle or a dangling reference).
\<close>

theorem topo_order_correct:
  "case topo_order nodes of
     Some ns \<Rightarrow> topological nodes ns
   | None \<Rightarrow> \<not> (distinct (orders nodes) \<and> (\<exists>ns. topological nodes ns))"
proof (cases "distinct (orders nodes)")
  case d: True
  obtain deg where inv: "kahn_inv nodes deg [] (kahn (length nodes) nodes (in_degree nodes)
      (sort (filter (\<lambda>k. in_degree nodes k = 0) (orders nodes))) [])" using kahn_final[OF d] .
  show ?thesis
  proof (cases "topo_order nodes")
    case None
    have False if top: "topological nodes ns" for ns
    proof -
      have "\<not> (\<exists>n \<in> set nodes. \<not> set (nd_feeds_from n) \<subseteq> set (orders nodes))"
        using topological_closed[OF top] by blast
      with None d topo_complete[OF d inv top] show False by (simp add: topo_order_def Let_def)
    qed
    with None show ?thesis by auto
  qed (simp add: topo_order_sound)
qed (simp add: topo_order_def)

end
