(* ===== verification/BlueprintNodes.thy ===== *)
theory BlueprintNodes
  imports BlueprintDag
begin

text \<open>
  The node helpers of \<^verbatim>\<open>runtime/blueprint/executor.py\<close>: outcomes, the unpacking of a query result,
  a node's outputs and bindings, the approval decision, the checkpoint payload and the union of
  provenances. Dictionaries that the code keys by node are association lists in insertion order.
\<close>

section \<open>Outcomes\<close>

record exec_completed =
  ec_result_full :: pydict
  ec_preview :: result_preview
  ec_provenance :: "prov option"

record exec_paused =
  ep_reason :: string
  ep_pending_question :: pydict
  ep_blueprint_id :: string
  ep_slot_bindings_json :: "string option"
  ep_completed_nodes_json :: "string option"
  ep_awaiting_node :: "int option"

record exec_failed =
  ef_error_code :: string
  ef_user_message :: string
  ef_retryable :: bool
  ef_provenance :: "prov option"

datatype exec_outcome = ExecCompleted exec_completed | ExecPaused exec_paused | ExecFailed exec_failed

definition fails :: "string \<Rightarrow> string \<Rightarrow> bool \<Rightarrow> exec_outcome" where
  "fails err msg retry = ExecFailed \<lparr>ef_error_code = err, ef_user_message = msg, ef_retryable = retry, ef_provenance = None\<rparr>"

definition not_found :: exec_outcome where
  "not_found = fails ''RUN_BLUEPRINT_NOT_FOUND'' ''That blueprint is not available. Search for one with searchBlueprints.'' True"

definition UNSUPPORTED_CODE :: string where
  "UNSUPPORTED_CODE = ''RUN_BLUEPRINT_UNSUPPORTED''"

definition UNSUPPORTED_MESSAGE :: string where
  "UNSUPPORTED_MESSAGE = ''This blueprint can't run on the fast path yet '' @ em_dash @ '' answer it with the raw tools '' @
     ''(getTableSchema / runQuery).''"

definition unsupported :: "bool \<Rightarrow> exec_outcome" where
  "unsupported retry = fails UNSUPPORTED_CODE UNSUPPORTED_MESSAGE retry"

definition verify_failed :: exec_outcome where
  "verify_failed = fails ''RUN_BLUEPRINT_VERIFY_FAILED''
     (''The fast path produced a result that failed verification, so it was not returned. '' @
      ''Answer this from the raw tools (getTableSchema / runQuery) instead.'') True"

definition slot_invalid :: exec_outcome where
  "slot_invalid = fails ''RUN_BLUEPRINT_SLOT_INVALID''
     ''A value for this blueprint could not be used. Please rephrase or retry.'' True"

definition aborted :: exec_outcome where
  "aborted = fails ''RUN_BLUEPRINT_ABORTED''
     (''The fast path stopped before producing an answer '' @ em_dash @ '' answer this from the raw '' @
      ''tools (getTableSchema / runQuery) instead.'') True"

section \<open>Query results\<close>

record query_result =
  qr_columns :: "pyval list"
  qr_rows :: "pyval list list"
  qr_row_count :: int
  qr_truncated :: bool

definition rows_of :: "pyval \<Rightarrow> pyval list list" where
  "rows_of v = (case v of PList rs \<Rightarrow> List.map_filter (\<lambda>r. case r of PList cs \<Rightarrow> Some cs | _ \<Rightarrow> None) rs | _ \<Rightarrow> [])"

definition unpack_result :: "pyval \<Rightarrow> query_result" where
  "unpack_result raw = (case raw of
     PDict d \<Rightarrow> (let rows = rows_of (getv d ''rows'') in
       \<lparr>qr_columns = (case getv d ''columns'' of PList cs \<Rightarrow> cs | _ \<Rightarrow> []), qr_rows = rows,
        qr_row_count = (case getv d ''row_count'' of PInt n \<Rightarrow> n | _ \<Rightarrow> int (length rows)),
        qr_truncated = py_truthy (get_default d ''truncated'' (PBool False))\<rparr>)
   | _ \<Rightarrow> \<lparr>qr_columns = [], qr_rows = [], qr_row_count = 0, qr_truncated = False\<rparr>)"

definition is_present :: "pyval \<Rightarrow> bool" where
  "is_present v \<longleftrightarrow> \<not> (v = PNone \<or> (case v of PStr s \<Rightarrow> py_strip s = [] | _ \<Rightarrow> False))"

definition iso_date_part :: "pyval \<Rightarrow> string option" where
  "iso_date_part v = (case v of
     PStr s \<Rightarrow> (let t = py_strip s; rest = drop 10 t in
       if iso_date_shape (take 10 t) \<and> (rest = [] \<or> (hd rest \<in> {CHR '' '', CHR ''T''} \<and> CHR 0x0A \<notin> set rest)) \<and>
          real_date (take 10 t)
       then Some (take 10 t) else None)
   | _ \<Rightarrow> None)"

fun cells_at :: "nat \<Rightarrow> pyval list list \<Rightarrow> string list option" where
  "cells_at i [] = Some []"
| "cells_at i (r # rs) = (if length r \<le> i then None
     else Option.bind (iso_date_part (r ! i)) (\<lambda>d. map_option (Cons d) (cells_at i rs)))"

fun index_of :: "'a list \<Rightarrow> 'a \<Rightarrow> nat option" where
  "index_of [] x = None"
| "index_of (y # ys) x = (if x = y then Some 0 else map_option Suc (index_of ys x))"

definition data_window_bounds :: "sqlglot \<Rightarrow> blueprint \<Rightarrow> string \<Rightarrow> query_result \<Rightarrow> (string \<times> string) option" where
  "data_window_bounds sg bp template q =
     (if length (rg_columns (bp_grain bp)) \<noteq> 1 \<or> qr_truncated q \<or> qr_rows q = [] then None
      else case map_grain_columns sg template (rg_columns (bp_grain bp)) of
        Some [m] \<Rightarrow> Option.bind (index_of (qr_columns q) (PStr m)) (\<lambda>i.
          map_option (\<lambda>ds. (Min (set ds), Max (set ds))) (cells_at i (qr_rows q)))
      | _ \<Rightarrow> None)"

definition stamp_window_anchor :: "sqlglot \<Rightarrow> pydict \<Rightarrow> blueprint \<Rightarrow> string \<Rightarrow> query_result \<Rightarrow> pydict" where
  "stamp_window_anchor sg full bp template q = (case bp_anchor bp of
     None \<Rightarrow> full
   | Some a \<Rightarrow> (let full' = dset ''window_anchor'' (PStr a) full in
       if a \<noteq> DATA_WINDOW_ANCHOR then full'
       else case data_window_bounds sg bp template q of
         None \<Rightarrow> full'
       | Some (lo, hi) \<Rightarrow> dset ''window_end'' (PStr hi) (dset ''window_start'' (PStr lo) full')))"

definition verify_block :: "verify_outcome \<Rightarrow> int \<Rightarrow> pydict" where
  "verify_block vo n = (let b = [(''grain_ok'', PBool (vo_grain_ok vo)), (''grain_checked'', PBool (vo_grain_checked vo)),
       (''signature_ok'', PBool (vo_signature_ok vo)), (''signature_checked'', PBool False)] in
     if n = 0 then dset ''empty_result'' (PBool True) (dset ''grain_checked'' (PBool False) b) else b)"

definition union_provenance :: "prov option list \<Rightarrow> prov option" where
  "union_provenance ps = (if None \<in> set ps then None
     else Some (fold (\<lambda>p acc. acc |\<union>| ffilter (\<lambda>(t, c). \<not> prefix ''scratch.'' t) (case p of Some s \<Rightarrow> s | None \<Rightarrow> {||})) ps {||}))"

section \<open>Tables between nodes\<close>

definition has_table_intermediate :: "node list \<Rightarrow> bool" where
  "has_table_intermediate nodes \<longleftrightarrow>
     list_ex (\<lambda>n. list_ex (\<lambda>m. nd_order n \<in> set (nd_feeds_from m)) nodes \<and> ''table'' \<in> snd ` set (nd_output n)) nodes"

text \<open>\<^verbatim>\<open>^\$(\d+)$\<close>; the end anchor of \<^verbatim>\<open>match\<close> also accepts one final line feed.\<close>

definition table_ref :: "pyval \<Rightarrow> int option" where
  "table_ref v = (case py_str v of
     c # s \<Rightarrow> (let d = takeWhile is_digit s; rest = dropWhile is_digit s in
       if c = CHR ''$'' \<and> d \<noteq> [] \<and> (rest = [] \<or> rest = [CHR 0x0A]) then Some (int (read_nat d)) else None)
   | [] \<Rightarrow> None)"

definition table_consumed_orders :: "node list \<Rightarrow> int list" where
  "table_consumed_orders nodes = concat (map (\<lambda>n. List.map_filter (\<lambda>(k, v). table_ref v) (nd_consumes n)) nodes)"

definition bare_name :: "string \<Rightarrow> string" where
  "bare_name full = (if CHR ''.'' \<in> set full then tl (dropWhile (\<lambda>c. c \<noteq> CHR ''.'') full) else full)"

fun node_table_bindings :: "pydict \<Rightarrow> (int, string) dict \<Rightarrow> (string \<times> string) list \<Rightarrow> exec_outcome + (string \<times> string) list" where
  "node_table_bindings [] materialized acc = Inr acc"
| "node_table_bindings ((k, v) # cs) materialized acc = (case table_ref v of
     None \<Rightarrow> node_table_bindings cs materialized acc
   | Some n \<Rightarrow> (case dget materialized n of
       None \<Rightarrow> Inl slot_invalid
     | Some full \<Rightarrow> node_table_bindings cs materialized (dset k (bare_name full) acc)))"

fun is_pbool :: "pyval \<Rightarrow> bool" where
  "is_pbool (PBool b) = True"
| "is_pbool v = False"

fun is_pint :: "pyval \<Rightarrow> bool" where
  "is_pint (PInt i) = True"
| "is_pint v = False"

fun is_pnum :: "pyval \<Rightarrow> bool" where
  "is_pnum (PInt i) = True"
| "is_pnum (PFloat r) = True"
| "is_pnum v = False"

definition infer_ch_type :: "pyval list \<Rightarrow> string" where
  "infer_ch_type vs =
     (if vs = [] then ''String''
      else if list_all is_pbool vs then ''Bool''
      else if list_all is_pint vs then ''Int64''
      else if list_all is_pnum vs then ''Float64''
      else ''String'')"

definition infer_scratch_columns :: "pyval list \<Rightarrow> pyval list list \<Rightarrow> (pyval \<times> string) list" where
  "infer_scratch_columns columns rows = map (\<lambda>(i, name).
     (let cells = map (\<lambda>r. r ! i) (filter (\<lambda>r. i < length r) rows); non_null = filter (\<lambda>v. v \<noteq> PNone) cells;
          base = infer_ch_type non_null in
      (name, if length non_null \<noteq> length cells then ''Nullable('' @ base @ '')'' else base))) (enumerate 0 columns)"

section \<open>Outputs and bindings of a node\<close>

definition ref_key :: "int \<Rightarrow> string" where
  "ref_key n = CHR ''$'' # show_int n"

definition ref_field :: "int \<Rightarrow> string \<Rightarrow> string" where
  "ref_field n name = ref_key n @ ''.'' @ name"

definition all_referenced_slots :: "blueprint \<Rightarrow> string list" where
  "all_referenced_slots bp =
     (if bp_composes bp \<noteq> []
      then concat (map (\<lambda>n. case nd_template n of Some t \<Rightarrow> referenced_slots t | None \<Rightarrow> []) (bp_composes bp))
      else case bp_template bp of Some t \<Rightarrow> referenced_slots t | None \<Rightarrow> [])"

text \<open>\<^verbatim>\<open>{c: i for i, c in enumerate(columns)}\<close>: the last index of a column.\<close>

definition col_index :: "pyval list \<Rightarrow> string \<Rightarrow> nat option" where
  "col_index columns name = map_option (\<lambda>i. length columns - 1 - i) (index_of (rev columns) (PStr name))"

fun named_cells :: "string list \<Rightarrow> pyval list \<Rightarrow> pyval list \<Rightarrow> pydict option" where
  "named_cells [] columns row = Some []"
| "named_cells (s # ss) columns row = Option.bind (col_index columns s) (\<lambda>i.
     if row ! i = PNone then None else map_option (Cons (s, row ! i)) (named_cells ss columns row))"

definition scalar_names :: "node \<Rightarrow> string list" where
  "scalar_names n = map fst (filter (\<lambda>(k, t). t = ''scalar'') (nd_output n))"

definition extract_scalar_output :: "node \<Rightarrow> pyval \<Rightarrow> pydict option result" where
  "extract_scalar_output n raw = (let scalars = scalar_names n; q = unpack_result raw in
     if scalars = [] then Inr (Some [])
     else (case qr_rows q of
       [first] \<Rightarrow>
         if length (qr_columns q) \<noteq> length scalars \<or> length first \<noteq> length scalars then Inr None
         else if \<not> list_all hashable (qr_columns q) then Inl TypeError
         else (case scalars of
           [s] \<Rightarrow> (let i = (case col_index (qr_columns q) s of Some i \<Rightarrow> i | None \<Rightarrow> 0) in
             Inr (if first ! i = PNone then None else Some [(s, first ! i)]))
         | _ \<Rightarrow> Inr (named_cells scalars (qr_columns q) first))
     | _ \<Rightarrow> Inr None))"

definition record_output :: "node \<Rightarrow> pydict \<Rightarrow> pyval \<Rightarrow> pydict \<Rightarrow> pydict" where
  "record_output n scalars full outputs =
     fold (\<lambda>(k, v). dset (ref_field (nd_order n) k) v) scalars (dset (ref_key (nd_order n)) full outputs)"

definition record_empty_output :: "node \<Rightarrow> pydict \<Rightarrow> pydict" where
  "record_empty_output n outputs =
     fold (\<lambda>(k, t). dset (ref_field (nd_order n) k) PNone) (nd_output n)
       (dset (ref_key (nd_order n)) (PDict [(''row_count'', PInt 0), (''rows'', PList [])]) outputs)"

fun consume_bindings :: "string list \<Rightarrow> pydict \<Rightarrow> pydict \<Rightarrow> pydict \<Rightarrow> exec_outcome + pydict" where
  "consume_bindings refs [] outputs acc = Inr acc"
| "consume_bindings refs ((k, v) # cs) outputs acc =
     (if k \<notin> set refs then consume_bindings refs cs outputs acc
      else (case v of
          PStr r \<Rightarrow> (case dget outputs r of
              None \<Rightarrow> Inl slot_invalid
            | Some w \<Rightarrow> if w = PNone then Inl slot_invalid else consume_bindings refs cs outputs (dset k w acc))
        | _ \<Rightarrow> Inl slot_invalid))"

text \<open>A date pair never gets here (it is expanded); as a value it would be unbindable, like a dictionary.\<close>

fun bindable :: "slot_value \<Rightarrow> pyval" where
  "bindable (Raw v) = v"
| "bindable (PeriodRange a b) = PDict []"

fun token_bindings :: "string list \<Rightarrow> (string, slot_value) dict \<Rightarrow> pydict \<Rightarrow> (string, string) dict \<Rightarrow> pydict \<Rightarrow> exec_outcome + pydict" where
  "token_bindings [] slots rules omitted acc = Inr acc"
| "token_bindings (r # rs) slots rules omitted acc =
     (if dget acc r \<noteq> None then token_bindings rs slots rules omitted acc
      else (case (dget slots r, dget rules r, dget omitted r) of
          (Some v, _, _) \<Rightarrow> token_bindings rs slots rules omitted (dset r (bindable v) acc)
        | (None, Some v, _) \<Rightarrow> token_bindings rs slots rules omitted (dset r v acc)
        | (None, None, Some p) \<Rightarrow> token_bindings rs slots rules omitted acc
        | (None, None, None) \<Rightarrow> Inl slot_invalid))"

definition node_bindings :: "node \<Rightarrow> (string, slot_value) dict \<Rightarrow> pydict \<Rightarrow> pydict \<Rightarrow> (string, string) dict \<Rightarrow> exec_outcome + pydict" where
  "node_bindings n slots rules outputs omitted =
     (let refs = referenced_slots (case nd_template n of Some t \<Rightarrow> t | None \<Rightarrow> []) in
     (case consume_bindings refs (nd_consumes n) outputs [] of
        Inl e \<Rightarrow> Inl e | Inr acc \<Rightarrow> token_bindings refs slots rules omitted acc))"

definition upstream_show :: "node \<Rightarrow> pydict \<Rightarrow> pydict" where
  "upstream_show n outputs = fold (\<lambda>p acc. fold (\<lambda>(k, v) a.
     if prefix (ref_key p @ ''.'') k \<and> v \<noteq> PNone then dset k v a else a) outputs acc) (nd_feeds_from n) []"

section \<open>Approval\<close>

definition approval_question :: "node \<Rightarrow> string" where
  "approval_question n = (case getv (case nd_approval n of Some d \<Rightarrow> d | None \<Rightarrow> []) ''prompt'' of
     PStr p \<Rightarrow> if py_strip p \<noteq> [] then p else ''This step needs your approval before I continue. Proceed?''
   | _ \<Rightarrow> ''This step needs your approval before I continue. Proceed?'')"

definition APPROVAL_NEGATIVES :: "string list" where
  "APPROVAL_NEGATIVES = [''no'', ''not'', ''n't'', ''deny'', ''denied'', ''decline'', ''never'', ''reject'',
     ''cancel'', ''stop'', ''abort'', ''rather not'', ''won't'', ''wont'']"

definition APPROVAL_AFFIRMATIVES :: "string list" where
  "APPROVAL_AFFIRMATIVES = [''approve'', ''approved'', ''yes'', ''yep'', ''yeah'', ''ok'', ''okay'', ''proceed'',
     ''continue'', ''confirm'', ''confirmed'', ''go ahead'', ''sure'', ''affirm'', ''do it'']"

datatype decision = Approve | Deny | Repause

definition approval_decision :: "string option \<Rightarrow> decision" where
  "approval_decision answer = (case answer of
     None \<Rightarrow> Repause
   | Some a \<Rightarrow> (let t = casefold (py_strip a) in
       if t = [] then Repause
       else if list_ex (\<lambda>m. sublist m t) APPROVAL_NEGATIVES then Deny
       else if list_ex (\<lambda>m. prefix m t) APPROVAL_AFFIRMATIVES then Approve
       else Repause))"

section \<open>The checkpoint payload\<close>

record node_record =
  nr_output :: pydict
  nr_provenance :: "prov option"
  nr_sql :: "string option"

definition empty_record :: node_record where
  "empty_record = \<lparr>nr_output = [], nr_provenance = Some {||}, nr_sql = None\<rparr>"

definition prov_to_jsonable :: "prov option \<Rightarrow> pyval" where
  "prov_to_jsonable p = (case p of None \<Rightarrow> PNone
     | Some s \<Rightarrow> PList (map (\<lambda>(t, c). PList [PStr t, PStr c]) (sorted_list_of_fset s)))"

fun json_pair :: "pyval \<Rightarrow> (string \<times> string) option" where
  "json_pair (PList [a, b]) = Some (py_str a, py_str b)"
| "json_pair _ = None"

fun json_pairs :: "pyval list \<Rightarrow> (string \<times> string) list option" where
  "json_pairs [] = Some []"
| "json_pairs (x # xs) = Option.bind (json_pair x) (\<lambda>p. map_option (Cons p) (json_pairs xs))"

definition prov_from_jsonable :: "pyval \<Rightarrow> prov option" where
  "prov_from_jsonable v = (case v of PList xs \<Rightarrow> map_option fset_of_list (json_pairs xs) | _ \<Rightarrow> None)"

definition completed_entry :: "int \<times> node_record \<Rightarrow> pyval" where
  "completed_entry e = (case e of (n, r) \<Rightarrow> PDict [(''order'', PInt n), (''output'', PDict (nr_output r)),
     (''provenance'', prov_to_jsonable (nr_provenance r)), (''sql'', opt_str (nr_sql r))])"

definition dumps_completed :: "(int, node_record) dict \<Rightarrow> string option" where
  "dumps_completed running = Some (json_dumps_sorted (PList (map completed_entry (sort_key fst running))))"

definition rehydrate_entry :: "pyval \<Rightarrow> (int, node_record) dict \<Rightarrow> (int, node_record) dict" where
  "rehydrate_entry v acc = (case v of
     PDict d \<Rightarrow> (case getv d ''order'' of
         PInt n \<Rightarrow> dset n \<lparr>nr_output = (case getv d ''output'' of PDict o' \<Rightarrow> o' | _ \<Rightarrow> []),
           nr_provenance = prov_from_jsonable (getv d ''provenance''),
           nr_sql = (case getv d ''sql'' of PStr s \<Rightarrow> Some s | _ \<Rightarrow> None)\<rparr> acc
       | _ \<Rightarrow> acc)
   | _ \<Rightarrow> acc)"

text \<open>\<open>loads\<close> is the JSON reader: \<open>None\<close> when the text does not parse.\<close>

definition rehydrate_completed :: "(string \<Rightarrow> pyval option) \<Rightarrow> string option \<Rightarrow> (int, node_record) dict" where
  "rehydrate_completed loads j = (case j of
     None \<Rightarrow> []
   | Some s \<Rightarrow> if s = [] then [] else (case loads s of Some (PList es) \<Rightarrow> fold rehydrate_entry es [] | _ \<Rightarrow> []))"

definition load_completed_into_outputs :: "(int, node_record) dict \<Rightarrow> pydict \<Rightarrow> pydict" where
  "load_completed_into_outputs completed outputs = fold (\<lambda>(n, r) acc.
     fold (\<lambda>(k, v). dset (ref_field n k) v) (nr_output r)
       (dset (ref_key n) (PDict [(''row_count'', PInt (if list_ex (\<lambda>(k, v). v \<noteq> PNone) (nr_output r) then 1 else 0)),
         (''rows'', PList [])]) acc)) completed outputs"

end
