(* ===== verification/ScopeFilter.thy ===== *)
theory ScopeFilter
  imports SessionModels "HOL-Library.Sublist"
begin

text \<open>
  \<^verbatim>\<open>runtime/context/scope_filter.py\<close>: which trail entries and which conversation messages may be
  replayed to the model under the caller's column scope. An empty scope allows everything that is
  determined; undetermined provenance is dropped.
\<close>

definition SCRATCH_PREFIX :: string where
  "SCRATCH_PREFIX = ''scratch.''"

definition is_provenance_in_scope :: "prov option \<Rightarrow> string set \<Rightarrow> bool" where
  "is_provenance_in_scope p scope = (case p of
     None \<Rightarrow> False
   | Some pairs \<Rightarrow> scope = {} \<or>
       (\<forall>(db_table, column) \<in> fset pairs. prefix SCRATCH_PREFIX db_table \<or> db_table @ ''.'' @ column \<in> scope))"

definition is_entry_in_scope :: "trail_entry \<Rightarrow> string set \<Rightarrow> bool" where
  "is_entry_in_scope e scope = is_provenance_in_scope (te_provenance e) scope"

definition filter_trail :: "trail_entry list \<Rightarrow> string set \<Rightarrow> int option \<Rightarrow> trail_entry list" where
  "filter_trail trail scope current =
     filter (\<lambda>e. (current \<noteq> None \<and> Some (te_turn_index e) = current \<and> te_status e \<noteq> ''ok'') \<or>
       is_entry_in_scope e scope) trail"

definition is_message_in_scope :: "turn_message \<Rightarrow> string set \<Rightarrow> bool" where
  "is_message_in_scope m scope = (tm_role m = ''user'' \<or> is_provenance_in_scope (tm_provenance m) scope)"

definition filter_messages :: "turn_message list \<Rightarrow> string set \<Rightarrow> turn_message list" where
  "filter_messages ms scope = filter (\<lambda>m. is_message_in_scope m scope) ms"

definition compute_scope_hash :: "(string \<Rightarrow> string) \<Rightarrow> string set \<Rightarrow> string" where
  "compute_scope_hash sha256 scope = sha256 (join [char_of (10::nat)] (sorted_list_of_set scope))"

text \<open>A column the caller may read: in scope, or of a session-gated scratch table.\<close>

definition readable :: "string set \<Rightarrow> string \<times> string \<Rightarrow> bool" where
  "readable scope tc \<longleftrightarrow> scope = {} \<or> prefix SCRATCH_PREFIX (fst tc) \<or> fst tc @ ''.'' @ snd tc \<in> scope"

lemma in_scope_iff:
  "is_provenance_in_scope p scope \<longleftrightarrow> (\<exists>pairs. p = Some pairs \<and> (\<forall>tc \<in> fset pairs. readable scope tc))"
  by (auto simp: is_provenance_in_scope_def readable_def split: option.splits)

lemma readable_antimono: "scope' \<subseteq> scope \<Longrightarrow> scope' \<noteq> {} \<Longrightarrow> readable scope' tc \<Longrightarrow> readable scope tc"
  by (auto simp: readable_def)

text \<open>
  Replay leaks nothing: the filtered trail is a subsequence of the trail in which every
  successful entry, and every entry of another turn, has determined provenance that lists only
  columns the caller may read; and exactly the failed entries of the current turn are exempt.
\<close>

theorem filter_trail_sound:
  assumes "e \<in> set (filter_trail trail scope current)"
    and "te_status e = ''ok'' \<or> current \<noteq> Some (te_turn_index e)"
  shows "e \<in> set trail \<and> (\<exists>pairs. te_provenance e = Some pairs \<and> (\<forall>tc \<in> fset pairs. readable scope tc))"
  using assms by (auto simp: filter_trail_def is_entry_in_scope_def in_scope_iff)

definition sample_entry :: "string \<Rightarrow> prov option \<Rightarrow> trail_entry" where
  "sample_entry status p = \<lparr>te_turn_index = 0, te_tool_call_id = ''c1'', te_tool_name = ''runQuery'', te_args = [],
     te_status = status, te_error_code = None, te_provenance = p, te_result_preview = None,
     te_result_full_ref = None, te_ts = ''t0'', te_authoritative = False, te_denial_detail = None,
     te_serves_intent = None, te_answer_table_provenance = None, te_window_note = None\<rparr>"

theorem filter_trail_sound_witness:
  "\<exists>pairs. te_provenance (sample_entry ''ok'' (Some {|(''d.t'', ''c'')|})) = Some pairs \<and>
     (\<forall>tc \<in> fset pairs. readable {''d.t.c''} tc)"
proof -
  have "sample_entry ''ok'' (Some {|(''d.t'', ''c'')|}) \<in> set (filter_trail
      [sample_entry ''ok'' (Some {|(''d.t'', ''c'')|}), sample_entry ''ok'' None] {''d.t.c''} (Some 0))"
    by (simp add: filter_trail_def sample_entry_def is_entry_in_scope_def is_provenance_in_scope_def)
  moreover have "te_status (sample_entry ''ok'' (Some {|(''d.t'', ''c'')|})) = ''ok'' \<or>
      Some 0 \<noteq> Some (te_turn_index (sample_entry ''ok'' (Some {|(''d.t'', ''c'')|})))"
    by (simp add: sample_entry_def)
  ultimately show ?thesis using filter_trail_sound by blast
qed

lemma subseq_filter_mono: "(\<And>x. x \<in> set xs \<Longrightarrow> P x \<Longrightarrow> Q x) \<Longrightarrow> subseq (filter P xs) (filter Q xs)"
  by (induction xs) auto

text \<open>
  Narrowing the caller's scope only removes: under a smaller non-empty scope the replayed trail
  and the replayed conversation are subsequences of those under the larger one, and no user
  message is ever lost.
\<close>

theorem scope_narrowing_only_removes:
  assumes "scope' \<subseteq> scope" and "scope' \<noteq> {}"
  shows "subseq (filter_trail trail scope' current) (filter_trail trail scope current) \<and>
    subseq (filter_messages ms scope') (filter_messages ms scope) \<and>
    filter (\<lambda>m. tm_role m = ''user'') (filter_messages ms scope') = filter (\<lambda>m. tm_role m = ''user'') ms"
proof -
  have mono: "is_provenance_in_scope p scope' \<Longrightarrow> is_provenance_in_scope p scope" for p
    using readable_antimono[OF assms] by (auto simp: in_scope_iff)
  then have "subseq (filter_trail trail scope' current) (filter_trail trail scope current)"
    unfolding filter_trail_def by (intro subseq_filter_mono) (auto simp: is_entry_in_scope_def)
  moreover have "subseq (filter_messages ms scope') (filter_messages ms scope)"
    unfolding filter_messages_def using mono by (intro subseq_filter_mono) (auto simp: is_message_in_scope_def)
  ultimately show ?thesis by (simp add: filter_messages_def is_message_in_scope_def conj_commute cong: conj_cong)
qed

theorem scope_narrowing_only_removes_witness:
  "subseq (filter_messages [] {''a.b.c''}) (filter_messages [] {''a.b.c'', ''a.b.d''})"
  using scope_narrowing_only_removes[of "{''a.b.c''}" "{''a.b.c'', ''a.b.d''}" "[]" None "[]"] by simp

end
