(* ===== verification/LoopGuards.thy ===== *)
theory LoopGuards
  imports PyVal Complex_Main
begin

text \<open>
  Two window-scoped guards of the agent loop. \<^verbatim>\<open>runtime/loop/budget_guard.py\<close>: the ceilings on
  round trips, token spend and elapsed time. \<^verbatim>\<open>runtime/loop/read_guard.py\<close>: the guard against
  repeated idempotent reads with its capped exemption for results the model can no longer read;
  the observer is the list of the events emitted, last event last. A dash in a literal is its
  three UTF-8 bytes.
\<close>

section \<open>Budget window\<close>

record budget_guard =
  bg_max_iterations :: int
  bg_max_wall_clock_seconds :: rat
  bg_max_token_spend :: "int option"
  bg_start :: rat
  bg_iterations :: int
  bg_token_spend :: int

record budget_usage =
  bu_iterations :: int
  bu_token_spend :: int
  bu_elapsed_seconds :: rat
  bu_max_iterations :: int
  bu_max_token_spend :: "int option"
  bu_max_wall_clock_seconds :: rat

definition new_budget_guard :: "int \<Rightarrow> rat \<Rightarrow> int option \<Rightarrow> rat \<Rightarrow> budget_guard" where
  "new_budget_guard mi mw mt now = \<lparr>bg_max_iterations = mi, bg_max_wall_clock_seconds = mw,
     bg_max_token_spend = mt, bg_start = now, bg_iterations = 0, bg_token_spend = 0\<rparr>"

definition record_iteration :: "int \<Rightarrow> budget_guard \<Rightarrow> budget_guard" where
  "record_iteration tokens_used g = g\<lparr>bg_iterations := bg_iterations g + 1,
     bg_token_spend := bg_token_spend g + max 0 tokens_used\<rparr>"

definition exceeded :: "rat \<Rightarrow> budget_guard \<Rightarrow> bool" where
  "exceeded now g = (if bg_max_iterations g \<le> bg_iterations g then True
     else if (case bg_max_token_spend g of None \<Rightarrow> False | Some m \<Rightarrow> m \<le> bg_token_spend g) then True
     else bg_max_wall_clock_seconds g \<le> now - bg_start g)"

definition usage :: "rat \<Rightarrow> budget_guard \<Rightarrow> budget_usage" where
  "usage now g = \<lparr>bu_iterations = bg_iterations g, bu_token_spend = bg_token_spend g,
     bu_elapsed_seconds = now - bg_start g, bu_max_iterations = bg_max_iterations g,
     bu_max_token_spend = bg_max_token_spend g, bu_max_wall_clock_seconds = bg_max_wall_clock_seconds g\<rparr>"

text \<open>A loop that checks the guard before each round trip: how many round trips it makes.\<close>

fun window_rounds :: "(nat \<Rightarrow> rat) \<Rightarrow> int list \<Rightarrow> budget_guard \<Rightarrow> nat" where
  "window_rounds clock [] g = 0"
| "window_rounds clock (t # ts) g =
     (if exceeded (clock 0) g then 0 else Suc (window_rounds (\<lambda>i. clock (Suc i)) ts (record_iteration t g)))"

lemma fold_record_iteration:
  "bg_iterations (fold record_iteration ts g) = bg_iterations g + int (length ts)"
  "bg_token_spend (fold record_iteration ts g) = bg_token_spend g + sum_list (map (max 0) ts)"
  "bg_max_iterations (fold record_iteration ts g) = bg_max_iterations g"
  "bg_max_token_spend (fold record_iteration ts g) = bg_max_token_spend g"
  "bg_max_wall_clock_seconds (fold record_iteration ts g) = bg_max_wall_clock_seconds g"
  "bg_start (fold record_iteration ts g) = bg_start g"
  by (induction ts arbitrary: g) (simp_all add: record_iteration_def)

lemma sum_max_nonneg: "0 \<le> sum_list (map (max (0::int)) ts)"
  by (induction ts) auto

lemma exceeded_stays:
  "exceeded now g \<Longrightarrow> now \<le> now' \<Longrightarrow> exceeded now' (fold record_iteration ts g)"
  using sum_max_nonneg[of ts]
  by (auto simp: exceeded_def fold_record_iteration split: option.splits if_splits)

lemma window_rounds_le: "0 \<le> bg_max_iterations g - bg_iterations g \<Longrightarrow>
    int (window_rounds clock ts g) \<le> bg_max_iterations g - bg_iterations g"
proof (induction clock ts g rule: window_rounds.induct)
  case (2 clock t ts g)
  then show ?case by (auto simp: exceeded_def record_iteration_def split: if_splits)
qed simp

lemma window_rounds_prefix:
  "i < window_rounds clock ts g \<Longrightarrow> \<not> exceeded (clock i) (fold record_iteration (take i ts) g)"
proof (induction clock ts g arbitrary: i rule: window_rounds.induct)
  case (2 clock t ts g)
  then show ?case by (cases i) (auto split: if_splits)
qed simp

text \<open>
  One budget window is bounded: a loop that checks the guard before each round trip makes at
  most \<open>max_iterations\<close> of them whatever the tokens and the clock, every one of them started below
  the spend ceiling, and once the guard says exceeded no later reading takes it back.
\<close>

theorem budget_window_bounded:
  assumes "0 \<le> mi"
  shows "int (window_rounds clock ts (new_budget_guard mi mw mt t0)) \<le> mi \<and>
    (\<forall>i m. i < window_rounds clock ts (new_budget_guard mi mw mt t0) \<and> mt = Some m \<longrightarrow>
       sum_list (map (max 0) (take i ts)) < m) \<and>
    (\<forall>now now' us. exceeded now (fold record_iteration us (new_budget_guard mi mw mt t0)) \<and> now \<le> now' \<longrightarrow>
       exceeded now' (fold record_iteration ts (fold record_iteration us (new_budget_guard mi mw mt t0))))"
proof -
  let ?g = "new_budget_guard mi mw mt t0"
  have "int (window_rounds clock ts ?g) \<le> mi"
    using window_rounds_le[of ?g clock ts] assms by (simp add: new_budget_guard_def)
  moreover have "sum_list (map (max 0) (take i ts)) < m" if "i < window_rounds clock ts ?g" "mt = Some m" for i m
    using window_rounds_prefix[OF that(1)] that(2)
    by (auto simp: exceeded_def fold_record_iteration new_budget_guard_def split: if_splits)
  ultimately show ?thesis using exceeded_stays by blast
qed

theorem budget_window_bounded_witness:
  "int (window_rounds (\<lambda>_. 0) [5, 5, 5] (new_budget_guard 2 60 None 0)) \<le> 2"
  using budget_window_bounded[of 2 "\<lambda>_. 0" "[5, 5, 5]" 60 None 0] by simp

section \<open>Repeated reads\<close>

type_synonym read_signature = "string \<times> string"

definition IDEMPOTENT_READ_TOOLS :: "string list" where
  "IDEMPOTENT_READ_TOOLS = [''getTableSchema'', ''listTables'', ''listDatabases'', ''explainQuery'', ''getBlueprint'']"

definition MAX_TRIMMED_READ_REFETCHES :: int where
  "MAX_TRIMMED_READ_REFETCHES = 2"

definition idempotent_read_signature :: "string \<Rightarrow> pydict \<Rightarrow> read_signature" where
  "idempotent_read_signature tool args = (tool, json_dumps_sorted (PDict args))"

text \<open>\<^verbatim>\<open>x if isinstance(x, str) and x else None\<close>\<close>

fun text_arg :: "pyval \<Rightarrow> string option" where
  "text_arg (PStr s) = (if s = [] then None else Some s)"
| "text_arg _ = None"

definition read_target_attrs :: "string \<Rightarrow> pydict \<Rightarrow> string \<times> pydict" where
  "read_target_attrs tool args =
     (let db = text_arg (getv args ''database'');
          tbl = text_arg (getv args ''table'');
          bp = (if tool = ''getBlueprint'' then text_arg (getv args ''id'') else None);
          target = (case (db, tbl) of
              (Some d, Some t) \<Rightarrow> d @ ''.'' @ t
            | (None, Some t) \<Rightarrow> t
            | (Some d, None) \<Rightarrow> d
            | (None, None) \<Rightarrow> (case bp of Some b \<Rightarrow> b | None \<Rightarrow> []));
          attr = (\<lambda>k v. case v of None \<Rightarrow> [] | Some s \<Rightarrow> [(k, PStr s)])
      in (target, attr ''database'' db @ attr ''table'' tbl @ attr ''blueprint_id'' bp))"

definition repeated_read_guard_event :: "string \<Rightarrow> string \<Rightarrow> pydict \<Rightarrow> pydict" where
  "repeated_read_guard_event tool call_id args = (case read_target_attrs tool args of (target, attrs) \<Rightarrow>
     [(''tool_name'', PStr tool),
      (''tool_call_id'', PStr call_id),
      (''deduped'', PBool True),
      (''guard_reason'', PStr ''already_served_and_still_readable''),
      (''dedup_target'', PStr target),
      (''note'', PStr (''duplicate '' @ tool @ ''('' @ target @ '') '' @ em_dash @
         '' already served this turn and its result is still readable above; not re-dispatched''))] @ attrs)"

definition trimmed_read_refetch_event :: "string \<Rightarrow> pydict \<Rightarrow> int \<Rightarrow> string \<Rightarrow> pydict" where
  "trimmed_read_refetch_event tool args granted reason = (case read_target_attrs tool args of (target, attrs) \<Rightarrow>
     [(''tool_name'', PStr tool),
      (''deduped'', PBool False),
      (''dedup_target'', PStr target),
      (''reason'', PStr reason),
      (''refetch_count'', PInt granted),
      (''refetch_cap'', PInt MAX_TRIMMED_READ_REFETCHES),
      (''note'', PStr (tool @ ''('' @ target @ '') was already served this turn, but its result is no '' @
         ''longer readable in the rebuilt window'' @
         (if granted < MAX_TRIMMED_READ_REFETCHES then ''; re-dispatched''
          else ''; re-fetch cap reached, deduping instead (the turn is thrashing)'')))] @ attrs)"

record read_decision =
  rd_signature :: "read_signature option"
  rd_declined :: bool

definition is_idempotent_read :: "read_decision \<Rightarrow> bool" where
  "is_idempotent_read d \<longleftrightarrow> rd_signature d \<noteq> None"

record read_guard =
  rg_seen :: "read_signature set"
  rg_served_call_ids :: "(read_signature, string) dict"
  rg_refetch_exemptions :: "(read_signature, int) dict"
  rg_served_this_round :: "read_signature set"
  rg_readable :: "string set"
  rg_events :: "(string \<times> pydict) list"

definition new_read_guard :: read_guard where
  "new_read_guard = \<lparr>rg_seen = {}, rg_served_call_ids = [], rg_refetch_exemptions = [],
     rg_served_this_round = {}, rg_readable = {}, rg_events = []\<rparr>"

definition observe_prior_read :: "string \<Rightarrow> pydict \<Rightarrow> string \<Rightarrow> bool \<Rightarrow> read_guard \<Rightarrow> read_guard" where
  "observe_prior_read tool args call_id data_free g =
     (if tool \<notin> set IDEMPOTENT_READ_TOOLS then g
      else let sig = idempotent_read_signature tool args;
               g1 = g\<lparr>rg_seen := insert sig (rg_seen g)\<rparr>
           in if data_free then g1
              else g1\<lparr>rg_served_call_ids := dset sig call_id (rg_served_call_ids g1)\<rparr>)"

definition seed_emulation :: "read_signature set \<Rightarrow> (read_signature, string) dict \<Rightarrow> read_guard \<Rightarrow> read_guard" where
  "seed_emulation sigs served g = g\<lparr>rg_seen := rg_seen g \<union> sigs,
     rg_served_call_ids := foldl (\<lambda>d (k, v). dset k v d) (rg_served_call_ids g) served\<rparr>"

definition begin_round :: "string set \<Rightarrow> read_guard \<Rightarrow> read_guard" where
  "begin_round readable g = g\<lparr>rg_readable := readable, rg_served_this_round := {}\<rparr>"

definition classify :: "string \<Rightarrow> pydict \<Rightarrow> read_guard \<Rightarrow> read_decision \<times> read_guard" where
  "classify tool args g =
     (if tool \<notin> set IDEMPOTENT_READ_TOOLS then (\<lparr>rd_signature = None, rd_declined = False\<rparr>, g)
      else let sig = idempotent_read_signature tool args;
               declined = (sig \<in> rg_seen g);
               served_by = dget (rg_served_call_ids g) sig
           in if declined \<and> sig \<notin> rg_served_this_round g \<and>
                 (case served_by of None \<Rightarrow> True | Some c \<Rightarrow> c \<notin> rg_readable g)
              then let granted = dget_or (rg_refetch_exemptions g) sig 0;
                       allowed = (granted < MAX_TRIMMED_READ_REFETCHES);
                       event = (if allowed then ''loop_trimmed_read_refetch_allowed''
                                else ''loop_trimmed_read_refetch_capped'');
                       g1 = (if allowed
                             then g\<lparr>rg_refetch_exemptions := dset sig (granted + 1) (rg_refetch_exemptions g)\<rparr>
                             else g);
                       payload = trimmed_read_refetch_event tool args granted
                         (if served_by \<noteq> None then ''result_not_readable_in_window'' else ''no_readable_source'')
                   in (\<lparr>rd_signature = Some sig, rd_declined = \<not> allowed\<rparr>,
                       g1\<lparr>rg_events := rg_events g1 @ [(event, payload)]\<rparr>)
              else (\<lparr>rd_signature = Some sig, rd_declined = declined\<rparr>, g))"

definition record_served :: "read_decision \<Rightarrow> string \<Rightarrow> read_guard \<Rightarrow> read_guard" where
  "record_served d call_id g = (case rd_signature d of
     None \<Rightarrow> g
   | Some sig \<Rightarrow> g\<lparr>rg_seen := insert sig (rg_seen g),
       rg_served_call_ids := dset sig call_id (rg_served_call_ids g),
       rg_served_this_round := insert sig (rg_served_this_round g)\<rparr>)"

section \<open>What the read guard promises\<close>

text \<open>One window: the guard's operations in the order the loop makes them.\<close>

datatype guard_op =
    Observe string pydict string bool
  | Seed "read_signature set" "(read_signature, string) dict"
  | Begin "string set"
  | Classify string pydict
  | Served read_decision string

fun guard_step :: "guard_op \<Rightarrow> read_guard \<Rightarrow> read_guard" where
  "guard_step (Observe tool args c f) g = observe_prior_read tool args c f g"
| "guard_step (Seed sigs served) g = seed_emulation sigs served g"
| "guard_step (Begin readable) g = begin_round readable g"
| "guard_step (Classify tool args) g = snd (classify tool args g)"
| "guard_step (Served d c) g = record_served d c g"

text \<open>A repeat that is let through: already seen, and not declined.\<close>

fun exempted :: "read_signature \<Rightarrow> guard_op \<Rightarrow> read_guard \<Rightarrow> bool" where
  "exempted sig (Classify tool args) g \<longleftrightarrow> (let d = fst (classify tool args g) in
     rd_signature d = Some sig \<and> sig \<in> rg_seen g \<and> \<not> rd_declined d)"
| "exempted sig _ g \<longleftrightarrow> False"

fun exemptions :: "read_signature \<Rightarrow> guard_op list \<Rightarrow> read_guard \<Rightarrow> nat" where
  "exemptions sig [] g = 0"
| "exemptions sig (c # cs) g = (if exempted sig c g then 1 else 0) + exemptions sig cs (guard_step c g)"

definition granted_to :: "read_guard \<Rightarrow> read_signature \<Rightarrow> int" where
  "granted_to g sig = dget_or (rg_refetch_exemptions g) sig 0"

lemma granted_step:
  assumes "granted_to g sig \<le> MAX_TRIMMED_READ_REFETCHES"
  shows "granted_to (guard_step c g) sig = granted_to g sig + (if exempted sig c g then 1 else 0) \<and>
    granted_to (guard_step c g) sig \<le> MAX_TRIMMED_READ_REFETCHES"
  using assms
  by (cases c) (auto simp: granted_to_def observe_prior_read_def seed_emulation_def begin_round_def record_served_def
      classify_def Let_def split: option.splits if_splits)

lemma granted_run:
  "granted_to g sig \<le> MAX_TRIMMED_READ_REFETCHES \<Longrightarrow>
     granted_to g sig + int (exemptions sig cs g) \<le> MAX_TRIMMED_READ_REFETCHES"
proof (induction cs arbitrary: g)
  case (Cons c cs)
  from granted_step[OF Cons.prems, of c] Cons.IH[of "guard_step c g"] show ?case by auto
qed simp

text \<open>
  C34: thrashing is bounded: in one window, whatever the order of seeds, rounds, calls and served
  results, one read signature is re-fetched past the guard at most twice.
\<close>

theorem refetch_exemptions_capped: "int (exemptions sig cs new_read_guard) \<le> MAX_TRIMMED_READ_REFETCHES"
  using granted_run[of new_read_guard sig cs]
  by (simp add: granted_to_def new_read_guard_def dget_or_def MAX_TRIMMED_READ_REFETCHES_def)

text \<open>
  A repeat is declined exactly when the model can still read the first result, or the refetch
  allowance of its signature is spent; a result served in this very round counts as readable. A
  call that is no idempotent read, or whose signature was never served, always goes through.
\<close>

theorem classify_declines_iff:
  "rd_declined (fst (classify tool args g)) \<longleftrightarrow>
     tool \<in> set IDEMPOTENT_READ_TOOLS \<and> idempotent_read_signature tool args \<in> rg_seen g \<and>
     (idempotent_read_signature tool args \<in> rg_served_this_round g \<or>
      (\<exists>c. dget (rg_served_call_ids g) (idempotent_read_signature tool args) = Some c \<and> c \<in> rg_readable g) \<or>
      MAX_TRIMMED_READ_REFETCHES \<le> dget_or (rg_refetch_exemptions g) (idempotent_read_signature tool args) 0)"
  by (auto simp: classify_def Let_def split: option.splits)

fun records :: "read_signature \<Rightarrow> guard_op \<Rightarrow> bool" where
  "records sig (Observe tool args c f) \<longleftrightarrow> tool \<in> set IDEMPOTENT_READ_TOOLS \<and> idempotent_read_signature tool args = sig"
| "records sig (Seed sigs served) \<longleftrightarrow> sig \<in> sigs"
| "records sig (Served d c) \<longleftrightarrow> rd_signature d = Some sig"
| "records sig _ \<longleftrightarrow> False"

lemma seen_step: "sig \<in> rg_seen (guard_step c g) \<longleftrightarrow> sig \<in> rg_seen g \<or> records sig c"
  by (cases c) (auto simp: observe_prior_read_def seed_emulation_def begin_round_def record_served_def
      classify_def Let_def split: option.splits if_splits)

lemma seen_run: "sig \<in> rg_seen (fold guard_step cs g) \<longleftrightarrow> sig \<in> rg_seen g \<or> (\<exists>c \<in> set cs. records sig c)"
  by (induction cs arbitrary: g) (auto simp: seen_step)

text \<open>
  The guard never suppresses a first read or a retry after a failure: a call is declined only
  if its signature was seeded or recorded as served earlier in the window.
\<close>

theorem declined_was_served:
  assumes "rd_declined (fst (classify tool args (fold guard_step cs new_read_guard)))"
  shows "\<exists>c \<in> set cs. records (idempotent_read_signature tool args) c"
proof -
  from assms have "idempotent_read_signature tool args \<in> rg_seen (fold guard_step cs new_read_guard)"
    by (auto simp: classify_def Let_def split: if_splits)
  then show ?thesis by (simp add: seen_run new_read_guard_def)
qed

theorem declined_was_served_witness:
  "\<exists>c \<in> set [Observe ''listTables'' [] ''c1'' False, Begin {''c1''}].
     records (idempotent_read_signature ''listTables'' []) c"
proof -
  have "rd_declined (fst (classify ''listTables'' []
      (fold guard_step [Observe ''listTables'' [] ''c1'' False, Begin {''c1''}] new_read_guard)))"
    by (simp add: classify_def observe_prior_read_def begin_round_def new_read_guard_def IDEMPOTENT_READ_TOOLS_def Let_def)
  then show ?thesis by (rule declined_was_served)
qed

text \<open>
  A read that succeeds is remembered at once: the same call later in the same batch is declined
  without an event, although its result cannot be in the window yet, and the order in which the
  model writes the arguments does not matter.
\<close>

theorem same_batch_duplicate_declined:
  assumes "tool \<in> set IDEMPOTENT_READ_TOOLS" and "mset args = mset args'" and "distinct (map fst args)"
  shows "classify tool args' (record_served (fst (classify tool args g)) call_id (snd (classify tool args g))) =
    (\<lparr>rd_signature = Some (idempotent_read_signature tool args), rd_declined = True\<rparr>,
     record_served (fst (classify tool args g)) call_id (snd (classify tool args g)))"
proof -
  have sig: "idempotent_read_signature tool args' = idempotent_read_signature tool args"
    using sort_dicts_perm[OF assms(2,3)] by (simp add: idempotent_read_signature_def json_dumps_sorted_def)
  have "rd_signature (fst (classify tool args g)) = Some (idempotent_read_signature tool args)"
    using assms(1) by (simp add: classify_def Let_def)
  then show ?thesis using assms(1) sig by (simp add: classify_def[of tool args'] record_served_def Let_def)
qed

theorem same_batch_duplicate_declined_witness:
  "rd_declined (fst (classify ''getTableSchema'' [(''table'', PStr ''t''), (''database'', PStr ''d'')]
     (record_served (fst (classify ''getTableSchema'' [(''database'', PStr ''d''), (''table'', PStr ''t'')] new_read_guard))
        ''c1'' (snd (classify ''getTableSchema'' [(''database'', PStr ''d''), (''table'', PStr ''t'')] new_read_guard)))))"
proof -
  have m: "mset [(''database'', PStr ''d''), (''table'', PStr ''t'')] = mset [(''table'', PStr ''t''), (''database'', PStr ''d'')]"
    by simp
  have t: "''getTableSchema'' \<in> set IDEMPOTENT_READ_TOOLS" by (simp add: IDEMPOTENT_READ_TOOLS_def)
  have d: "distinct (map fst [(''database'', PStr ''d''), (''table'', PStr ''t'')])" by simp
  show ?thesis using same_batch_duplicate_declined[OF t m d, of new_read_guard "''c1''"] by simp
qed

end
