(* ===== verification/AnswerTables.thy ===== *)
theory AnswerTables
  imports ScopeFilter PyText LoopGuards
begin

text \<open>
  \<^verbatim>\<open>runtime/composite/answer_with_table.py\<close> and \<^verbatim>\<open>runtime/composite/record_assumptions.py\<close>: how
  one \<^verbatim>\<open>answerWithTable\<close> call designates tables, how a blueprint run's badge is built, attached and
  rolled up, and how recorded assumptions are cleaned and folded. A method call on a value of the
  wrong type raises as in the source; the tools' confirmations are data-free results.
\<close>

section \<open>Cleaning\<close>

definition MAX_INTENTS :: nat where
  "MAX_INTENTS = 8"

definition MAX_ANSWER_TABLES :: nat where
  "MAX_ANSWER_TABLES = MAX_INTENTS"

definition MAX_SQL_LEN :: nat where
  "MAX_SQL_LEN = 20000"

definition MAX_ANSWER_LEN :: nat where
  "MAX_ANSWER_LEN = 20000"

definition clean_text :: "nat \<Rightarrow> pyval \<Rightarrow> string option" where
  "clean_text cap raw = (case raw of
     PStr s \<Rightarrow> (let text = py_strip s in if text \<noteq> [] then Some (take cap text) else None)
   | _ \<Rightarrow> None)"

definition clean_answer_sql :: "pyval \<Rightarrow> string option" where
  "clean_answer_sql raw = clean_text MAX_SQL_LEN raw"

definition clean_answer_text :: "pyval \<Rightarrow> string option" where
  "clean_answer_text raw = clean_text MAX_ANSWER_LEN raw"

definition clean_blueprint_id :: "pyval \<Rightarrow> string option" where
  "clean_blueprint_id raw = clean_text 200 raw"

section \<open>Blueprint runs and their badge\<close>

record blueprint_run =
  br_terminal_sql :: string
  br_verification :: "pydict option"
  br_slots :: pydict

definition VERIFICATION_EMPTY_STATUS :: string where
  "VERIFICATION_EMPTY_STATUS = ''empty '' @ em_dash @ '' unverifiable''"

definition is_zero_row_count :: "pyval \<Rightarrow> bool" where
  "is_zero_row_count v = (case v of PInt i \<Rightarrow> i = 0 | _ \<Rightarrow> False)"

text \<open>\<^verbatim>\<open>(d.get("verify") or {}).get(k)\<close>: a truthy value that is no dictionary has no \<^verbatim>\<open>get\<close>.\<close>

definition verify_get :: "pydict \<Rightarrow> string \<Rightarrow> pyval result" where
  "verify_get rf k = (let v = getv rf ''verify'' in
     if \<not> py_truthy v then Inr PNone
     else case v of PDict d \<Rightarrow> Inr (getv d k) | _ \<Rightarrow> Inl (OtherError ''AttributeError''))"

definition is_empty_blueprint_result :: "pydict \<Rightarrow> bool result" where
  "is_empty_blueprint_result rf = rbind (verify_get rf ''empty_result'') (\<lambda>v.
     Inr (v = PBool True \<or> is_zero_row_count (getv rf ''row_count'')))"

definition empty_badge :: pydict where
  "empty_badge = [(''passed'', PBool False), (''method'', PStr ''blueprint_gate''), (''grain_checked'', PBool False),
     (''empty_result'', PBool True), (''status'', PStr VERIFICATION_EMPTY_STATUS)]"

definition passed_badge :: "bool \<Rightarrow> pydict" where
  "passed_badge grain_checked = [(''passed'', PBool True), (''method'', PStr ''blueprint_gate''),
     (''grain_checked'', PBool grain_checked)]"

definition blueprint_verification :: "pyval \<Rightarrow> pydict option result" where
  "blueprint_verification result_full = (case result_full of
     PDict rf \<Rightarrow>
       if getv rf ''status'' \<noteq> PStr ''verified'' then Inr None
       else rbind (is_empty_blueprint_result rf) (\<lambda>empty.
         if empty then Inr (Some empty_badge)
         else rbind (verify_get rf ''grain_checked'') (\<lambda>g. Inr (Some (passed_badge (py_truthy g)))))
   | _ \<Rightarrow> Inr None)"

definition blueprint_run_from_result :: "pyval \<Rightarrow> pyval \<Rightarrow> (string \<times> blueprint_run) option result" where
  "blueprint_run_from_result result_full slots = (case result_full of
     PDict rf \<Rightarrow>
       (case (getv rf ''blueprint_id'', getv rf ''terminal_sql'') of
          (PStr bid, PStr sql) \<Rightarrow>
            if py_strip sql = [] then Inr None
            else rbind (blueprint_verification result_full) (\<lambda>v.
                 rbind (if py_truthy slots then py_dict slots else Inr []) (\<lambda>s.
                 Inr (Some (bid, \<lparr>br_terminal_sql = sql, br_verification = v, br_slots = s\<rparr>))))
        | _ \<Rightarrow> Inr None)
   | _ \<Rightarrow> Inr None)"

definition terminal_sql_by_id :: "(string, blueprint_run) dict \<Rightarrow> (string, string) dict" where
  "terminal_sql_by_id runs = map (\<lambda>(i, r). (i, br_terminal_sql r)) runs"

section \<open>Designation\<close>

definition resolve_designation :: "pyval \<Rightarrow> (string, string) dict \<Rightarrow> string option" where
  "resolve_designation args terminal_by_id = (case args of
     PDict a \<Rightarrow>
       (case clean_answer_sql (getv a ''sql'') of
          Some sql \<Rightarrow> Some sql
        | None \<Rightarrow> (case clean_blueprint_id (getv a ''blueprint_id'') of
            Some bid \<Rightarrow> dget terminal_by_id bid | None \<Rightarrow> None))
   | _ \<Rightarrow> None)"

record designation_item =
  di_sql :: "string option"
  di_caption :: "string option"
  di_blueprint_id :: "string option"
  di_named_blueprint :: "string option"

definition item_get :: "pyval \<Rightarrow> string \<Rightarrow> pyval" where
  "item_get item k = (case item of PDict d \<Rightarrow> getv d k | _ \<Rightarrow> PNone)"

definition clean_caption :: "pyval \<Rightarrow> string option" where
  "clean_caption raw = (case raw of
     PStr s \<Rightarrow> (let c = sanitize_text s MAX_FIELD_CHARS in if c = [] then None else Some c) | _ \<Rightarrow> None)"

definition resolve_item :: "pyval \<Rightarrow> (string, string) dict \<Rightarrow> designation_item" where
  "resolve_item item terminal_by_id =
     (let raw_sql = clean_answer_sql (item_get item ''sql'');
          named = clean_blueprint_id (item_get item ''blueprint_id'');
          resolved = resolve_designation item terminal_by_id
      in \<lparr>di_sql = resolved, di_caption = clean_caption (item_get item ''caption''),
          di_blueprint_id = (if resolved \<noteq> None \<and> raw_sql = None then named else None),
          di_named_blueprint = named\<rparr>)"

record designation =
  dg_items :: "designation_item list"
  dg_from_tables_array :: bool
  dg_dropped_unresolvable :: nat

definition is_dict :: "pyval \<Rightarrow> bool" where
  "is_dict v = (case v of PDict _ \<Rightarrow> True | _ \<Rightarrow> False)"

definition designates :: "designation_item \<Rightarrow> bool" where
  "designates i \<longleftrightarrow> di_sql i \<noteq> None \<or> di_named_blueprint i \<noteq> None"

definition resolve_designations :: "pyval \<Rightarrow> (string, string) dict \<Rightarrow> designation" where
  "resolve_designations args terminal_by_id = (case args of
     PDict a \<Rightarrow>
       (let raw_tables = (case getv a ''tables'' of PList xs \<Rightarrow> xs | _ \<Rightarrow> []);
            candidates = filter is_dict raw_tables;
            dropped_non_dict = length raw_tables - length candidates;
            resolved = map (\<lambda>i. resolve_item i terminal_by_id) candidates;
            designating = filter designates resolved;
            dropped = length resolved - length designating + dropped_non_dict;
            single = resolve_item args terminal_by_id
        in if designating \<noteq> []
           then \<lparr>dg_items = designating, dg_from_tables_array = True, dg_dropped_unresolvable = dropped\<rparr>
           else if di_sql single = None \<and> di_named_blueprint single = None
           then \<lparr>dg_items = [], dg_from_tables_array = False, dg_dropped_unresolvable = dropped\<rparr>
           else \<lparr>dg_items = [single], dg_from_tables_array = False, dg_dropped_unresolvable = dropped\<rparr>)
   | _ \<Rightarrow> \<lparr>dg_items = [], dg_from_tables_array = False, dg_dropped_unresolvable = 0\<rparr>)"

record designated_table =
  dt_sql :: string
  dt_caption :: "string option"
  dt_blueprint_id :: "string option"

record finalized =
  fz_tables :: "designated_table list"
  fz_seen :: "string set"
  fz_dropped_duplicate :: nat
  fz_dropped_over_cap :: nat

definition finalize_one :: "designation_item \<Rightarrow> finalized \<Rightarrow> finalized" where
  "finalize_one item f = (case di_sql item of
     None \<Rightarrow> f
   | Some sql \<Rightarrow>
       if sql \<in> fz_seen f then f\<lparr>fz_dropped_duplicate := fz_dropped_duplicate f + 1\<rparr>
       else let f1 = f\<lparr>fz_seen := insert sql (fz_seen f)\<rparr>
            in if MAX_ANSWER_TABLES \<le> length (fz_tables f1)
               then f1\<lparr>fz_dropped_over_cap := fz_dropped_over_cap f1 + 1\<rparr>
               else f1\<lparr>fz_tables := fz_tables f1 @
                  [\<lparr>dt_sql = sql, dt_caption = di_caption item, dt_blueprint_id = di_blueprint_id item\<rparr>]\<rparr>)"

definition finalize_designations :: "designation_item list \<Rightarrow> finalized" where
  "finalize_designations items =
     fold finalize_one items \<lparr>fz_tables = [], fz_seen = {}, fz_dropped_duplicate = 0, fz_dropped_over_cap = 0\<rparr>"

record answer_table =
  at_sql :: string
  at_caption :: "string option"
  at_blueprint_use :: "pydict option"
  at_verification :: "pydict option"
  at_provenance :: "prov option"

text \<open>\<^verbatim>\<open>dict(x) if x else None\<close>\<close>

definition non_empty :: "pydict option \<Rightarrow> pydict option" where
  "non_empty d = (case d of Some [] \<Rightarrow> None | _ \<Rightarrow> d)"

definition doc_or_none :: "pydict option \<Rightarrow> pyval" where
  "doc_or_none d = (case non_empty d of None \<Rightarrow> PNone | Some kvs \<Rightarrow> PDict kvs)"

definition answer_table_to_doc :: "answer_table \<Rightarrow> pyval" where
  "answer_table_to_doc t = PDict
     [(''sql'', PStr (at_sql t)), (''caption'', opt_str (at_caption t)),
      (''blueprint_use'', doc_or_none (at_blueprint_use t)), (''verification'', doc_or_none (at_verification t))]"

definition enrich_table :: "designated_table \<Rightarrow> (string, blueprint_run) dict \<Rightarrow> prov option \<Rightarrow> answer_table" where
  "enrich_table t runs p =
     (case (case dt_blueprint_id t of None \<Rightarrow> None | Some bid \<Rightarrow> dget runs bid) of
        None \<Rightarrow> \<lparr>at_sql = dt_sql t, at_caption = dt_caption t, at_blueprint_use = None, at_verification = None,
                at_provenance = p\<rparr>
      | Some run \<Rightarrow> \<lparr>at_sql = dt_sql t, at_caption = dt_caption t,
          at_blueprint_use = Some [(''blueprint_id'', opt_str (dt_blueprint_id t)), (''slots'', PDict (br_slots run))],
          at_verification = non_empty (br_verification run), at_provenance = p\<rparr>)"

text \<open>\<^verbatim>\<open>(table.verification or {}).get(k)\<close>\<close>

definition badge_get :: "answer_table \<Rightarrow> string \<Rightarrow> pyval" where
  "badge_get t k = getv (case at_verification t of None \<Rightarrow> [] | Some d \<Rightarrow> d) k"

definition rollup_verification :: "answer_table list \<Rightarrow> pydict option" where
  "rollup_verification tables =
     (let empty = map (\<lambda>t. py_truthy (badge_get t ''empty_result'')) tables
      in if tables = [] then None
         else if list_ex (\<lambda>t. at_verification t = None) tables then None
         else if list_all id empty then Some empty_badge
         else if list_ex id empty then None
         else Some (passed_badge (list_all (\<lambda>t. py_truthy (badge_get t ''grain_checked'')) tables)))"

definition is_answer_table_in_scope :: "prov option \<Rightarrow> string set \<Rightarrow> bool" where
  "is_answer_table_in_scope p scope = (case p of None \<Rightarrow> True | Some _ \<Rightarrow> is_provenance_in_scope p scope)"

section \<open>Tool results\<close>

text \<open>A tool result, less the pause that only other tools set.\<close>

record tool_result =
  tr_status :: string
  tr_tool_name :: string
  tr_error_code :: "string option"
  tr_retryable :: "bool option"
  tr_user_message :: "string option"
  tr_provenance :: "prov option"
  tr_result_preview :: "result_preview option"
  tr_result_full :: pyval
  tr_authoritative :: bool
  tr_denial_detail :: "string option"
  tr_window_note :: "string option"

definition data_free_ok :: "string \<Rightarrow> string list \<Rightarrow> pyval list \<Rightarrow> tool_result" where
  "data_free_ok tool columns row = \<lparr>tr_status = ''ok'', tr_tool_name = tool, tr_error_code = None,
     tr_retryable = None, tr_user_message = None, tr_provenance = Some {||},
     tr_result_preview = Some \<lparr>rp_columns = map PStr columns, rp_row_count = 1, rp_truncated = False,
       rp_preview_rows = [row]\<rparr>, tr_result_full = PNone, tr_authoritative = False,
     tr_denial_detail = None, tr_window_note = None\<rparr>"

definition answer_with_table_run :: "pyval \<Rightarrow> tool_result" where
  "answer_with_table_run arguments =
     (let args = (if is_dict arguments then arguments else PDict []);
          answered = (clean_answer_text (item_get args ''answer'') \<noteq> None);
          designated = (dg_items (resolve_designations args []) \<noteq> [])
      in data_free_ok ''answerWithTable'' [''answered'', ''table_designated''] [PBool answered, PBool designated])"

section \<open>Assumptions\<close>

definition MAX_ASSUMPTIONS :: nat where
  "MAX_ASSUMPTIONS = 50"

definition MAX_ASSUMPTION_LEN :: nat where
  "MAX_ASSUMPTION_LEN = 2000"

fun clean_assumptions_loop :: "pyval list \<Rightarrow> string list \<Rightarrow> string list" where
  "clean_assumptions_loop [] cleaned = cleaned"
| "clean_assumptions_loop (item # raw) cleaned = (case item of
     PStr s \<Rightarrow>
       (let text = take MAX_ASSUMPTION_LEN (py_strip s)
        in if py_strip s = [] \<or> text \<in> set cleaned then clean_assumptions_loop raw cleaned
           else if MAX_ASSUMPTIONS \<le> length (cleaned @ [text]) then cleaned @ [text]
           else clean_assumptions_loop raw (cleaned @ [text]))
   | _ \<Rightarrow> clean_assumptions_loop raw cleaned)"

definition clean_assumptions :: "pyval \<Rightarrow> string list" where
  "clean_assumptions raw = (case raw of PList xs \<Rightarrow> clean_assumptions_loop xs [] | _ \<Rightarrow> [])"

definition fold_assumptions :: "string list \<Rightarrow> pyval \<Rightarrow> string list" where
  "fold_assumptions target raw = foldl add_new target (clean_assumptions raw)"

definition record_assumptions_run :: "pyval \<Rightarrow> tool_result" where
  "record_assumptions_run arguments = data_free_ok ''recordAssumptions'' [''recorded'']
     [PInt (int (length (clean_assumptions (item_get arguments ''assumptions''))))]"

definition clean_one :: "pyval \<Rightarrow> string option" where
  "clean_one item = (case item of
     PStr s \<Rightarrow> if py_strip s = [] then None else Some (take MAX_ASSUMPTION_LEN (py_strip s)) | _ \<Rightarrow> None)"

lemma clean_one_bounds: "clean_one item = Some t \<Longrightarrow> t \<noteq> [] \<and> length t \<le> MAX_ASSUMPTION_LEN"
  by (auto simp: clean_one_def MAX_ASSUMPTION_LEN_def split: pyval.splits if_splits)

lemma clean_step: "clean_assumptions_loop (item # raw) acc = (case clean_one item of
     None \<Rightarrow> clean_assumptions_loop raw acc
   | Some t \<Rightarrow> if t \<in> set acc then clean_assumptions_loop raw acc
       else if MAX_ASSUMPTIONS \<le> Suc (length acc) then acc @ [t] else clean_assumptions_loop raw (acc @ [t]))"
  by (cases item) (simp_all add: clean_one_def Let_def)

definition clean_list :: "string list \<Rightarrow> bool" where
  "clean_list xs \<longleftrightarrow> distinct xs \<and> length xs \<le> MAX_ASSUMPTIONS \<and> (\<forall>s \<in> set xs. s \<noteq> [] \<and> length s \<le> MAX_ASSUMPTION_LEN)"

lemma clean_list_add:
  "clean_list acc \<Longrightarrow> Suc (length acc) \<le> MAX_ASSUMPTIONS \<Longrightarrow> t \<notin> set acc \<Longrightarrow> clean_one item = Some t \<Longrightarrow> clean_list (acc @ [t])"
  using clean_one_bounds[of item t] by (simp add: clean_list_def)

lemma clean_loop_inv: "clean_list acc \<Longrightarrow> Suc (length acc) \<le> MAX_ASSUMPTIONS \<Longrightarrow> clean_list (clean_assumptions_loop raw acc)"
proof (induction raw arbitrary: acc)
  case (Cons item raw)
  show ?case
  proof (cases "clean_one item")
    case None
    with Cons show ?thesis by (simp only: clean_step option.case)
  next
    case (Some t)
    show ?thesis
    proof (cases "t \<in> set acc")
      case True
      with Some Cons show ?thesis by (simp only: clean_step option.case if_True)
    next
      case False
      have add: "clean_list (acc @ [t])" by (rule clean_list_add[OF Cons.prems False Some])
      have len: "Suc (length (acc @ [t])) = Suc (Suc (length acc))" by simp
      show ?thesis
        using Cons.IH[OF add] add False unfolding clean_step Some option.case len
        by (cases "MAX_ASSUMPTIONS \<le> Suc (length acc)") simp_all
    qed
  qed
qed simp

text \<open>
  Recorded assumptions are bounded and clean whatever the model sends: at most fifty, all
  different, none blank, none longer than the cap; folding them into a list keeps what is there,
  in place, and folding the same call again changes nothing.
\<close>

theorem clean_assumptions_spec:
  "distinct (clean_assumptions raw) \<and> length (clean_assumptions raw) \<le> MAX_ASSUMPTIONS \<and>
   set (clean_assumptions raw) \<subseteq> {s. s \<noteq> [] \<and> length s \<le> MAX_ASSUMPTION_LEN} \<and>
   prefix xs (fold_assumptions xs raw) \<and> fold_assumptions (fold_assumptions xs raw) raw = fold_assumptions xs raw"
proof -
  have again: "set ys \<subseteq> set zs \<Longrightarrow> foldl add_new zs ys = zs" for zs ys :: "string list"
    by (induction ys) (auto simp: add_new_def)
  have "foldl add_new (foldl add_new xs (clean_assumptions raw)) (clean_assumptions raw) =
      foldl add_new xs (clean_assumptions raw)"
    by (rule again) simp
  moreover have "prefix xs (foldl add_new xs (clean_assumptions raw))"
    using foldl_add_new_prefix[of xs "clean_assumptions raw"] by (auto simp: prefix_def)
  moreover have "clean_list []" "Suc (length []) \<le> MAX_ASSUMPTIONS" by (simp_all add: clean_list_def MAX_ASSUMPTIONS_def)
  from clean_loop_inv[OF this] \<open>clean_list []\<close> have "clean_list (clean_assumptions raw)"
    by (cases raw) (simp_all add: clean_assumptions_def del: clean_assumptions_loop.simps)
  ultimately show ?thesis unfolding clean_list_def fold_assumptions_def by blast
qed

end
