(* ===== verification/Flow.thy ===== *)
theory Flow
  imports PyVal
begin

text \<open>
  The control flow of an imperative Python method as a state passing program: it goes on with a
  value, leaves the method with a result, or raises. Two ways to reason about such programs: the
  relations that every run of a program keeps between its first and its last state, passed through
  sequencing by the locale \<open>step_relation\<close>, and the triple \<open>valid\<close> with a condition for each way
  to end.
\<close>

datatype ('r, 'a) flow = Next 'a | Return 'r | Raise exc

type_synonym ('s, 'r, 'a) prog = "'s \<Rightarrow> ('r, 'a) flow \<times> 's"

definition and_then :: "('s, 'r, 'a) prog \<Rightarrow> ('a \<Rightarrow> ('s, 'r, 'b) prog) \<Rightarrow> ('s, 'r, 'b) prog" where
  "and_then m f s = (case m s of
     (Next a, s') \<Rightarrow> f a s' | (Return r, s') \<Rightarrow> (Return r, s') | (Raise e, s') \<Rightarrow> (Raise e, s'))"

definition pure :: "'a \<Rightarrow> ('s, 'r, 'a) prog" where
  "pure a s = (Next a, s)"

definition return :: "'r \<Rightarrow> ('s, 'r, 'a) prog" where
  "return r s = (Return r, s)"

definition raising :: "exc \<Rightarrow> ('s, 'r, 'a) prog" where
  "raising e s = (Raise e, s)"

definition modify :: "('s \<Rightarrow> 's) \<Rightarrow> ('s, 'r, unit) prog" where
  "modify f s = (Next (), f s)"

definition read :: "('s \<Rightarrow> 'a) \<Rightarrow> ('s, 'r, 'a) prog" where
  "read f s = (Next (f s), s)"

definition lift :: "'a result \<Rightarrow> ('s, 'r, 'a) prog" where
  "lift x s = (case x of Inl e \<Rightarrow> (Raise e, s) | Inr a \<Rightarrow> (Next a, s))"

definition or_return :: "'r + 'a \<Rightarrow> ('s, 'r, 'a) prog" where
  "or_return x s = (case x of Inl r \<Rightarrow> (Return r, s) | Inr a \<Rightarrow> (Next a, s))"

text \<open>\<^verbatim>\<open>try: ... except Exception\<close>: the exception as a value, the state as it was left.\<close>

definition catching :: "('s, 'r, 'a) prog \<Rightarrow> ('s, 'r, 'a result) prog" where
  "catching m s = (case m s of
     (Next a, s') \<Rightarrow> (Next (Inr a), s') | (Raise e, s') \<Rightarrow> (Next (Inl e), s') | (Return r, s') \<Rightarrow> (Return r, s'))"

text \<open>A call: what the method returns is the value the caller goes on with.\<close>

definition calling :: "('s, 'a, 'a) prog \<Rightarrow> ('s, 'r, 'a) prog" where
  "calling m s = (case m s of (Next a, s') \<Rightarrow> (Next a, s') | (Return a, s') \<Rightarrow> (Next a, s') | (Raise e, s') \<Rightarrow> (Raise e, s'))"

lemma and_then_next: "and_then m f s = (Next b, s') \<longleftrightarrow> (\<exists>a v. m s = (Next a, v) \<and> f a v = (Next b, s'))"
  by (auto simp: and_then_def split: prod.splits flow.splits)

lemma and_then_nextE:
  assumes "and_then m f s = (Next b, s')"
  obtains a v where "m s = (Next a, v)" "f a v = (Next b, s')"
  using assms by (auto simp: and_then_next)

lemma and_then_return: "and_then m f s = (Return r, s') \<longleftrightarrow>
    m s = (Return r, s') \<or> (\<exists>a t. m s = (Next a, t) \<and> f a t = (Return r, s'))"
  by (auto simp: and_then_def split: prod.splits flow.splits)

lemma plain_runs:
  "pure a s = (Next b, s') \<longleftrightarrow> b = a \<and> s' = s" "pure a s \<noteq> (Return r, s')"
  "return q s = (Return r, s') \<longleftrightarrow> r = q \<and> s' = s" "return q s \<noteq> (Next b, s')"
  "lift x s = (Next b, s') \<longleftrightarrow> x = Inr b \<and> s' = s" "lift x s \<noteq> (Return r, s')"
  "raising e s \<noteq> (Next b, s')" "raising e s \<noteq> (Return r, s')"
  by (auto simp: pure_def return_def lift_def raising_def split: sum.splits)

lemma and_thenE:
  assumes "and_then m f s = (r, s')"
  obtains (stop) q where "m s = (q, s')" "\<And>a. q \<noteq> Next a" | (go) a t where "m s = (Next a, t)" "f a t = (r, s')"
proof (cases "m s")
  case (Pair q t)
  then show ?thesis using assms stop go by (cases q) (auto simp: and_then_def)
qed

text \<open>The values with which a program may go on.\<close>

definition possible :: "('s, 'r, 'a) prog \<Rightarrow> 'a \<Rightarrow> bool" where
  "possible m a \<longleftrightarrow> (\<exists>s s'. m s = (Next a, s'))"

lemma possible_run: "m s = (Next a, s') \<Longrightarrow> possible m a"
  by (auto simp: possible_def)

lemma possible_and_then: "possible (and_then m f) b \<Longrightarrow> \<exists>a. possible m a \<and> possible (f a) b"
  by (auto simp: possible_def and_then_next)

lemma possible_plain [simp]:
  "possible (pure a) b \<longleftrightarrow> b = a" "possible (lift x) b \<longleftrightarrow> x = Inr b" "\<not> possible (return r) b" "\<not> possible (raising e) b"
  by (auto simp: possible_def plain_runs)

lemma possible_catching: "possible (catching m) r \<Longrightarrow> case r of Inl _ \<Rightarrow> True | Inr a \<Rightarrow> possible m a"
proof -
  assume "possible (catching m) r"
  then obtain s s' where run: "catching m s = (Next r, s')" by (auto simp: possible_def)
  obtain q t where m: "m s = (q, t)" by fastforce
  show ?thesis using run m by (cases q) (auto simp: catching_def intro: possible_run)
qed

section \<open>Relations kept by every run\<close>

definition preserves :: "('s \<Rightarrow> 's \<Rightarrow> bool) \<Rightarrow> ('s, 'r, 'a) prog \<Rightarrow> bool" where
  "preserves R m \<longleftrightarrow> (\<forall>s. R s (snd (m s)))"

lemma preserves_modify: "(\<And>s. R s (f s)) \<Longrightarrow> preserves R (modify f)"
  by (simp add: preserves_def modify_def)

text \<open>A program that keeps the relation and does not leave the method.\<close>

definition stays :: "('s \<Rightarrow> 's \<Rightarrow> bool) \<Rightarrow> ('s, 'r, 'a) prog \<Rightarrow> bool" where
  "stays R m \<longleftrightarrow> (\<forall>s. R s (snd (m s)) \<and> (\<forall>r. fst (m s) \<noteq> Return r))"

lemma stays_preserves: "stays R m \<Longrightarrow> preserves R m"
  by (simp add: stays_def preserves_def)

lemma stays_no_return: "stays R m \<Longrightarrow> m s \<noteq> (Return r, s')"
  by (auto simp: stays_def dest: spec [of _ s])

lemma preserves_mono: "preserves R m \<Longrightarrow> (\<And>s t. R s t \<Longrightarrow> R' s t) \<Longrightarrow> preserves R' m"
  by (simp add: preserves_def)

lemma stays_mono: "stays R m \<Longrightarrow> (\<And>s t. R s t \<Longrightarrow> R' s t) \<Longrightarrow> stays R' m"
  by (simp add: stays_def)

lemma stays_modify: "(\<And>s. R s (f s)) \<Longrightarrow> stays R (modify f)"
  by (simp add: stays_def modify_def)

text \<open>The interface of such a relation: a preorder, so that it passes through sequencing.\<close>

locale step_relation =
  fixes R :: "'s \<Rightarrow> 's \<Rightarrow> bool"
  assumes same: "R s s" and sequel: "R s t \<Longrightarrow> R t u \<Longrightarrow> R s u"
begin

lemma and_then: "preserves R m \<Longrightarrow> (\<And>a. preserves R (f a)) \<Longrightarrow> preserves R (and_then m f)"
  unfolding preserves_def and_then_def
  by (auto split: prod.splits flow.splits) (metis snd_conv sequel)+

lemma case_option: "preserves R a \<Longrightarrow> (\<And>y. preserves R (f y)) \<Longrightarrow> preserves R (case x of None \<Rightarrow> a | Some y \<Rightarrow> f y)"
  by (cases x) auto

lemma case_prod: "(\<And>a b. preserves R (f a b)) \<Longrightarrow> preserves R (case x of (a, b) \<Rightarrow> f a b)"
  by (cases x) auto

lemma case_bool: "preserves R a \<Longrightarrow> preserves R b \<Longrightarrow> preserves R (if c then a else b)"
  by auto

lemma case_result:
  "(\<And>e. preserves R (f e)) \<Longrightarrow> (\<And>a. preserves R (g a)) \<Longrightarrow> preserves R (case r of Inl e \<Rightarrow> f e | Inr a \<Rightarrow> g a)"
  by (cases r) auto

lemma plain:
  "preserves R (pure a)" "preserves R (return r)" "preserves R (raising e)" "preserves R (read f)"
  "preserves R (lift x)" "preserves R (or_return y)"
  by (auto simp: preserves_def pure_def return_def raising_def read_def lift_def or_return_def same split: sum.splits)

lemma catching: "preserves R m \<Longrightarrow> preserves R (Flow.catching m)"
  by (auto simp: preserves_def catching_def split: prod.splits flow.splits) (metis snd_conv)+

lemma calling: "preserves R m \<Longrightarrow> preserves R (Flow.calling m)"
  by (auto simp: preserves_def calling_def split: prod.splits flow.splits) (metis snd_conv)+

lemma and_then_known: "preserves R m \<Longrightarrow> (\<And>a. possible m a \<Longrightarrow> preserves R (f a)) \<Longrightarrow> preserves R (Flow.and_then m f)"
  unfolding preserves_def and_then_def
  by (auto split: prod.splits flow.splits) (metis snd_conv sequel possible_run)+

lemma and_then_lift: "(\<And>a. x = Inr a \<Longrightarrow> preserves R (f a)) \<Longrightarrow> preserves R (Flow.and_then (lift x) f)"
  by (cases x) (auto simp: preserves_def and_then_def lift_def same)

lemma cases_known:
  "(x = None \<Longrightarrow> preserves R a) \<Longrightarrow> (\<And>y. x = Some y \<Longrightarrow> preserves R (f y)) \<Longrightarrow> preserves R (case x of None \<Rightarrow> a | Some y \<Rightarrow> f y)"
  "(c \<Longrightarrow> preserves R m) \<Longrightarrow> (\<not> c \<Longrightarrow> preserves R n) \<Longrightarrow> preserves R (if c then m else n)"
  by (auto split: option.split)

lemmas rules = and_then case_option case_prod case_bool case_result plain catching calling

lemmas known_rules = and_then_known cases_known case_prod case_result plain catching calling

lemma stays_and_then: "stays R m \<Longrightarrow> (\<And>a. stays R (f a)) \<Longrightarrow> stays R (Flow.and_then m f)"
  unfolding stays_def Flow.and_then_def
  by (auto split: prod.splits flow.splits) (metis fst_conv snd_conv sequel flow.distinct)+

lemma stays_cases:
  "stays R a \<Longrightarrow> (\<And>y. stays R (f y)) \<Longrightarrow> stays R (case x of None \<Rightarrow> a | Some y \<Rightarrow> f y)"
  "(\<And>b c. stays R (g b c)) \<Longrightarrow> stays R (case p of (b, c) \<Rightarrow> g b c)"
  "stays R m \<Longrightarrow> stays R n \<Longrightarrow> stays R (if c then m else n)"
  "(\<And>e. stays R (h e)) \<Longrightarrow> (\<And>b. stays R (k b)) \<Longrightarrow> stays R (case r of Inl e \<Rightarrow> h e | Inr b \<Rightarrow> k b)"
  by (auto split: option.split prod.split sum.split)

lemma stays_plain: "stays R (pure a)" "stays R (raising e)" "stays R (read f)" "stays R (lift x)"
  by (auto simp: stays_def pure_def raising_def read_def lift_def same split: sum.splits)

lemma stays_caught: "stays R m \<Longrightarrow> stays R (Flow.catching m)"
  by (auto simp: stays_def catching_def split: prod.splits flow.splits) (metis snd_conv fst_conv)+

lemmas stay_rules = stays_and_then stays_cases stays_plain stays_caught

end

section \<open>Triples\<close>

text \<open>From a state with \<open>P\<close>: a condition where the program goes on, one where it leaves with a result.\<close>

definition valid :: "('s \<Rightarrow> bool) \<Rightarrow> ('s, 'r, 'a) prog \<Rightarrow> ('a \<Rightarrow> 's \<Rightarrow> bool) \<Rightarrow> ('r \<Rightarrow> 's \<Rightarrow> bool) \<Rightarrow> bool" where
  "valid P m Q E \<longleftrightarrow> (\<forall>s. P s \<longrightarrow> (case m s of (Next a, s') \<Rightarrow> Q a s' | (Return r, s') \<Rightarrow> E r s' | (Raise e, s') \<Rightarrow> True))"

lemma validI:
  "(\<And>s a s'. P s \<Longrightarrow> m s = (Next a, s') \<Longrightarrow> Q a s') \<Longrightarrow> (\<And>s r s'. P s \<Longrightarrow> m s = (Return r, s') \<Longrightarrow> E r s') \<Longrightarrow> valid P m Q E"
  by (auto simp: valid_def split: prod.split flow.split)

lemma valid_next: "valid P m Q E \<Longrightarrow> P s \<Longrightarrow> m s = (Next a, s') \<Longrightarrow> Q a s'"
  and valid_return: "valid P m Q E \<Longrightarrow> P s \<Longrightarrow> m s = (Return r, s') \<Longrightarrow> E r s'"
  by (force simp: valid_def)+

lemma valid_and_then:
  assumes "valid P m Q E" and "\<And>a. valid (Q a) (f a) Q' E"
  shows "valid P (and_then m f) Q' E"
proof (rule validI)
  fix s a s' assume P: "P s" and r: "and_then m f s = (Next a, s')"
  then obtain b t where "m s = (Next b, t)" and f: "f b t = (Next a, s')"
    by (auto simp: and_then_def split: prod.splits flow.splits)
  then have "Q b t" using valid_next [OF assms(1) P] by simp
  then show "Q' a s'" using f by (rule valid_next [OF assms(2)])
next
  fix s r s' assume P: "P s" and "and_then m f s = (Return r, s')"
  then consider "m s = (Return r, s')" | b t where "m s = (Next b, t)" "f b t = (Return r, s')"
    by (auto simp: and_then_def split: prod.splits flow.splits)
  then show "E r s'"
  proof cases
    case 1 then show ?thesis using valid_return [OF assms(1) P] by simp
  next
    case (2 b t)
    have "Q b t" using valid_next [OF assms(1) P 2(1)] .
    then show ?thesis using 2(2) by (rule valid_return [OF assms(2)])
  qed
qed

lemma valid_weaken:
  assumes "valid P m Q E" "\<And>s. P' s \<Longrightarrow> P s" "\<And>a s. Q a s \<Longrightarrow> Q' a s" "\<And>r s. E r s \<Longrightarrow> E' r s"
  shows "valid P' m Q' E'"
  by (rule validI) (use assms valid_next [OF assms(1)] valid_return [OF assms(1)] in blast)+

text \<open>Backwards, from what is to hold at the end: \<open>wp_start\<close>, then \<open>wp_flow\<close> until the condition at the start is known.\<close>

lemma wp_and_then: "(\<And>a. valid (R a) (f a) Q E) \<Longrightarrow> valid P m R E \<Longrightarrow> valid P (and_then m f) Q E"
  by (rule valid_and_then)

lemma wp_pure: "valid (Q a) (pure a) Q E"
  by (simp add: valid_def pure_def)

lemma wp_read: "valid (\<lambda>s. Q (g s) s) (read g) Q E"
  by (simp add: valid_def read_def)

lemma wp_modify: "valid (\<lambda>s. Q () (f s)) (modify f) Q E"
  by (simp add: valid_def modify_def)

lemma wp_lift: "valid (\<lambda>s. \<forall>a. x = Inr a \<longrightarrow> Q a s) (lift x) Q E"
  by (auto simp: valid_def lift_def split: sum.splits)

lemma wp_if: "valid P m Q E \<Longrightarrow> valid P' n Q E \<Longrightarrow> valid (\<lambda>s. if b then P s else P' s) (if b then m else n) Q E"
  by simp

lemma wp_option:
  "valid P m Q E \<Longrightarrow> (\<And>y. valid (P' y) (f y) Q E) \<Longrightarrow>
     valid (\<lambda>s. case x of None \<Rightarrow> P s | Some y \<Rightarrow> P' y s) (case x of None \<Rightarrow> m | Some y \<Rightarrow> f y) Q E"
  by (cases x) auto

lemma wp_prod: "(\<And>a b. valid (P a b) (f a b) Q E) \<Longrightarrow> valid (\<lambda>s. case x of (a, b) \<Rightarrow> P a b s) (case x of (a, b) \<Rightarrow> f a b) Q E"
  by (cases x) auto

lemma wp_start: "valid P' m Q E \<Longrightarrow> (\<And>s. P s \<Longrightarrow> P' s) \<Longrightarrow> valid P m Q E"
  by (erule valid_weaken)

lemma wp_return: "valid (E r) (return r) Q E"
  by (simp add: valid_def return_def)

lemma wp_raising: "valid (\<lambda>_. True) (raising e) Q E"
  by (simp add: valid_def raising_def)

lemmas wp_flow = wp_and_then wp_if wp_option wp_prod wp_pure wp_read wp_modify wp_lift wp_return wp_raising

lemma valid_stays: "stays R m \<Longrightarrow> (\<And>s s'. P s \<Longrightarrow> R s s' \<Longrightarrow> Q s') \<Longrightarrow> valid P m (\<lambda>_. Q) E"
  by (rule validI) (fastforce simp: stays_def dest: spec)+

end
