(* ===== verification/BlueprintExec.thy ===== *)
theory BlueprintExec
  imports BlueprintNodes AnswerTables Flow
begin

text \<open>
  \<^verbatim>\<open>BlueprintExecutor\<close> of \<^verbatim>\<open>runtime/blueprint/executor.py\<close> and the outcome mapping of
  \<^verbatim>\<open>runtime/blueprint/tool.py\<close>: the walk of the nodes with its slot resolution, rule expansion,
  gates, dispatches, materialisations, checkpoint and final verification. What the executor is
  given is the record \<open>exec_env\<close>: the dispatcher, the blueprint store, the value resolver and the
  scratch client as functions of a state \<open>'w\<close> of their own, the SQL library, Python's expression
  parser and JSON reader, and the settings. A step is a function of the walk state that goes on,
  returns an outcome or raises.
\<close>

section \<open>The environment and the walk state\<close>

record blueprint_detail =
  bl_stored :: stored_blueprint
  bl_uses :: "string fset option"

record 'w exec_env =
  ee_glot :: sqlglot
  ee_when :: "string \<Rightarrow> when_expr option"
  ee_rat :: "string \<Rightarrow> rat"
  ee_loads :: "string \<Rightarrow> pyval option"
  ee_dispatch :: "string \<Rightarrow> int option \<Rightarrow> 'w \<Rightarrow> tool_result \<times> 'w"
  ee_get_blueprint :: "string \<Rightarrow> 'w \<Rightarrow> blueprint_detail option \<times> 'w"
  ee_resolve :: "(resolved_rule \<Rightarrow> 'w \<Rightarrow> resolve_outcome \<times> 'w) option"
  ee_scratch :: "((pyval \<times> string) list \<Rightarrow> pyval list list \<Rightarrow> 'w \<Rightarrow> (string + string) \<times> 'w) option"
  ee_probe_sql :: "string \<Rightarrow> string \<Rightarrow> string"
  ee_preview_other :: "pyval \<Rightarrow> result_preview"
  ee_round :: "rat \<Rightarrow> rat"
  ee_gap :: rat
  ee_confidence :: rat
  ee_scope :: "string fset"
  ee_query_limit :: "int option"
  ee_preview_rows :: nat
  ee_max_rows :: nat
  ee_max_columns :: nat

type_synonym step_event = "string \<times> pydict"

record 'w walk_state =
  wk_running :: "(int, node_record) dict"
  wk_outputs :: pydict
  wk_materialized :: "(int, string) dict"
  wk_provs :: "prov option list"
  wk_sqls :: "string list"
  wk_terminal :: "(string \<times> string \<times> pyval) option"
  wk_events :: "step_event list"
  wk_world :: 'w

type_synonym ('w, 'a) step = "('w walk_state, exec_outcome, 'a) prog"

definition observe :: "string \<Rightarrow> pydict \<Rightarrow> ('w, unit) step" where
  "observe name attrs = modify (\<lambda>w. w\<lparr>wk_events := wk_events w @ [(name, attrs)]\<rparr>)"

definition dispatch_sql :: "'w exec_env \<Rightarrow> string \<Rightarrow> int option \<Rightarrow> ('w, tool_result) step" where
  "dispatch_sql env sql limit w = (case ee_dispatch env sql limit (wk_world w) of (r, s) \<Rightarrow> (Next r, w\<lparr>wk_world := s\<rparr>))"

definition add_provs :: "prov option list \<Rightarrow> ('w, unit) step" where
  "add_provs ps = modify (\<lambda>w. w\<lparr>wk_provs := wk_provs w @ ps\<rparr>)"

definition dumps :: "pydict \<Rightarrow> string option" where
  "dumps d = Some (json_dumps_sorted (PDict d))"

section \<open>Slots and rules\<close>

definition DOMAIN_PROBE_LIMIT :: int where
  "DOMAIN_PROBE_LIMIT = 500"

text \<open>\<^verbatim>\<open>rpartition('.')\<close>, when both sides are there.\<close>

definition split_column :: "string \<Rightarrow> (string \<times> string) option" where
  "split_column s = (let column = rev (takeWhile (\<lambda>c. c \<noteq> CHR ''.'') (rev s));
       table = rev (drop 1 (dropWhile (\<lambda>c. c \<noteq> CHR ''.'') (rev s))) in
     if CHR ''.'' \<in> set s \<and> table \<noteq> [] \<and> column \<noteq> [] then Some (table, column) else None)"

definition probe_domain :: "'w exec_env \<Rightarrow> string \<Rightarrow> ('w, string list option \<times> prov option list) step" where
  "probe_domain env binds_to = (case split_column binds_to of
     None \<Rightarrow> pure (None, [])
   | Some (table, column) \<Rightarrow>
       and_then (dispatch_sql env (ee_probe_sql env table column) None) (\<lambda>probe.
       if tr_status probe \<noteq> ''ok'' then pure (None, [])
       else pure (Some (List.map_filter (\<lambda>r. case r of v # _ \<Rightarrow> if v = PNone then None else Some (py_str v) | [] \<Rightarrow> None)
           (qr_rows (unpack_result (tr_result_full probe)))), [tr_provenance probe])))"

definition slot_domain :: "'w exec_env \<Rightarrow> slot_spec \<Rightarrow> pyval \<Rightarrow> ('w, string list option) step" where
  "slot_domain env sp raw = (case sl_binds_to sp of
     None \<Rightarrow> pure None
   | Some b \<Rightarrow> if is_present raw \<and> b \<noteq> []
       then and_then (probe_domain env b) (\<lambda>(dmn, ps). and_then (add_provs ps) (\<lambda>_. pure dmn))
       else pure None)"

definition slot_pause :: "blueprint \<Rightarrow> pydict \<Rightarrow> ask_user \<Rightarrow> exec_outcome" where
  "slot_pause bp slots a = ExecPaused \<lparr>ep_reason = ''blueprint_slot'',
     ep_pending_question = [(''question'', PStr (au_question a)), (''options'', PList (map PStr (au_options a)))],
     ep_blueprint_id = bp_id bp, ep_slot_bindings_json = dumps slots, ep_completed_nodes_json = None, ep_awaiting_node = None\<rparr>"

type_synonym slot_maps = "(string, slot_value) dict \<times> (string, string) dict"

definition resolve_one_slot :: "'w exec_env \<Rightarrow> blueprint \<Rightarrow> pydict \<Rightarrow> string list \<Rightarrow> slot_spec \<Rightarrow> slot_maps \<Rightarrow> ('w, slot_maps) step" where
  "resolve_one_slot env bp slots referenced sp maps = (case maps of (vals, omitted) \<Rightarrow>
     (let raw = getv slots (sl_name sp) in
     and_then (slot_domain env sp raw) (\<lambda>dmn.
     and_then (lift (resolve_slot raw sp dmn)) (\<lambda>outcome.
     case outcome of
       AskUser a \<Rightarrow> return (slot_pause bp slots a)
     | OmitSlot n p \<Rightarrow> pure (vals, case p of
           None \<Rightarrow> omitted
         | Some pattern \<Rightarrow> fold (\<lambda>t. dset t pattern) (filter (\<lambda>t. t \<in> set referenced) (slot_token_names sp)) omitted)
     | SlotBinding b \<Rightarrow>
         if set (slot_token_names sp) \<subseteq> set referenced
         then pure (fold (\<lambda>(k, v). dset k v) (expand_binding sp (bd_value b)) vals, omitted)
         else return slot_invalid))))"

fun resolve_slots :: "'w exec_env \<Rightarrow> blueprint \<Rightarrow> pydict \<Rightarrow> string list \<Rightarrow> slot_spec list \<Rightarrow> slot_maps \<Rightarrow> ('w, slot_maps) step" where
  "resolve_slots env bp slots referenced [] maps = pure maps"
| "resolve_slots env bp slots referenced (sp # sps) maps =
     and_then (resolve_one_slot env bp slots referenced sp maps) (resolve_slots env bp slots referenced sps)"

definition resolve_all_slots :: "'w exec_env \<Rightarrow> blueprint \<Rightarrow> pydict \<Rightarrow> ('w, slot_maps) step" where
  "resolve_all_slots env bp slots =
     and_then (observe ''blueprint_step'' [(''blueprint_id'', PStr (bp_id bp)), (''step'', PStr ''resolving_slots'')]) (\<lambda>_.
     resolve_slots env bp slots (all_referenced_slots bp) (bp_slots bp) ([], []))"

definition rule_denied :: "rule_fallback \<Rightarrow> exec_outcome" where
  "rule_denied f = ExecFailed \<lparr>
     ef_error_code = (case rf_error_code f of Some c \<Rightarrow> if c = [] then UNSUPPORTED_CODE else c | None \<Rightarrow> UNSUPPORTED_CODE),
     ef_user_message = (case rf_user_message f of Some m \<Rightarrow> if m = [] then UNSUPPORTED_MESSAGE else m | None \<Rightarrow> UNSUPPORTED_MESSAGE),
     ef_retryable = (rf_retryable f = Some True), ef_provenance = rf_provenance f\<rparr>"

text \<open>The counts of the telemetry event; its two scores are floats and left out.\<close>

definition rule_resolved_event :: "resolved_rule \<Rightarrow> rule_binding \<Rightarrow> pydict" where
  "rule_resolved_event rule b = [(''rule_id'', PStr (rr_rule_id rule)), (''selected_count'', PInt (int (rb_selected_count b))),
     (''dropped_count'', PInt (int (rb_dropped_count b)))]"

fun expand_rules :: "'w exec_env \<Rightarrow> blueprint \<Rightarrow> pyval list \<Rightarrow> pydict \<Rightarrow> ('w, pydict) step" where
  "expand_rules env bp [] acc = pure acc"
| "expand_rules env bp (raw # raws) acc = (case parse_rule raw of
     None \<Rightarrow> expand_rules env bp raws acc
   | Some rule \<Rightarrow> (case ee_resolve env of
       None \<Rightarrow> return (unsupported False)
     | Some resolve \<Rightarrow>
         and_then (observe ''blueprint_step'' [(''blueprint_id'', PStr (bp_id bp)), (''step'', PStr ''resolving_rule'')]) (\<lambda>_.
         and_then (\<lambda>w. case resolve rule (wk_world w) of (out, s) \<Rightarrow> (Next out, w\<lparr>wk_world := s\<rparr>)) (\<lambda>out.
         case expand_rule (\<lambda>_. out) (ee_round env) (ee_gap env) (ee_confidence env) rule of
           Binding b \<Rightarrow>
             and_then (add_provs [rb_provenance b]) (\<lambda>_.
             and_then (observe ''blueprint_rule_resolved'' (rule_resolved_event rule b)) (\<lambda>_.
             expand_rules env bp raws (dset (rb_binds b) (PList (map PStr (rb_values b))) acc)))
         | Fallback f \<Rightarrow>
             and_then (add_provs (if rf_provenance f = None then [] else [rf_provenance f])) (\<lambda>_.
             return (if rf_reason f = ''denied'' then rule_denied f else unsupported True))))))"

section \<open>The gates of a node\<close>

definition pause_at :: "blueprint \<Rightarrow> pydict \<Rightarrow> int \<Rightarrow> string \<Rightarrow> string \<Rightarrow> string list \<Rightarrow> pydict option \<Rightarrow> ('w, 'a) step" where
  "pause_at bp slots n reason question options show w = (Return (ExecPaused \<lparr>ep_reason = reason,
     ep_pending_question = [(''question'', PStr question), (''options'', PList (map PStr options))] @
       (case show of None \<Rightarrow> [] | Some d \<Rightarrow> [(''show'', PDict d)]),
     ep_blueprint_id = bp_id bp, ep_slot_bindings_json = dumps slots,
     ep_completed_nodes_json = dumps_completed (wk_running w), ep_awaiting_node = Some n\<rparr>), w)"

definition mark_done :: "node \<Rightarrow> node_record \<Rightarrow> ('w, unit) step" where
  "mark_done n r = modify (\<lambda>w. w\<lparr>wk_running := dset (nd_order n) r (wk_running w)\<rparr>)"

definition empty_output :: "node \<Rightarrow> ('w, unit) step" where
  "empty_output n = modify (\<lambda>w. w\<lparr>wk_outputs := record_empty_output n (wk_outputs w)\<rparr>)"

definition skip_node :: "node \<Rightarrow> ('w, unit) step" where
  "skip_node n = and_then (mark_done n empty_record) (\<lambda>_. empty_output n)"

definition is_approval_node :: "node \<Rightarrow> bool" where
  "is_approval_node n \<longleftrightarrow> nd_kind n = ''approval'' \<or> (nd_approval n \<noteq> None \<and> nd_approval n \<noteq> Some [])"

definition when_question :: "when_clause \<Rightarrow> string" where
  "when_question c = (case wc_message c of
     Some m \<Rightarrow> if m = [] then ''This step's precondition wasn't met '' @ em_dash @ '' should I continue?'' else m
   | None \<Rightarrow> ''This step's precondition wasn't met '' @ em_dash @ '' should I continue?'')"

primrec when_val_of :: "(string \<Rightarrow> rat) \<Rightarrow> pyval \<Rightarrow> when_val" where
  "when_val_of rt PNone = WNone"
| "when_val_of rt (PBool b) = WBool b"
| "when_val_of rt (PInt i) = WNum (of_int i)"
| "when_val_of rt (PFloat r) = WNum (rt r)"
| "when_val_of rt (PStr s) = WStr s"
| "when_val_of rt (PList xs) = WSeq (map (when_val_of rt) xs)"
| "when_val_of rt (PDict d) = WDict (map (\<lambda>(k, v). (k, v)) (map (map_prod id (when_val_of rt)) d))"

definition when_env_of :: "(string \<Rightarrow> rat) \<Rightarrow> pydict \<Rightarrow> when_env" where
  "when_env_of rt outputs = map (\<lambda>(k, v). (k, when_val_of rt v)) outputs"

text \<open>Goes on with whether the node runs; \<open>answer\<close> is the reply for the awaited node.\<close>

definition when_gate :: "'w exec_env \<Rightarrow> blueprint \<Rightarrow> pydict \<Rightarrow> int option \<Rightarrow> string option \<Rightarrow> node \<Rightarrow> ('w, bool) step" where
  "when_gate env bp slots awaiting answer n = (case nd_when n of
     None \<Rightarrow> pure True
   | Some c \<Rightarrow>
       (let ask = pause_at bp slots (nd_order n) ''blueprint_when_ask'' (when_question c) [''yes'', ''no''] None;
            skip = and_then (skip_node n) (\<lambda>_. pure False) in
       if awaiting = Some (nd_order n) \<and> answer \<noteq> None \<and> \<not> is_approval_node n
       then (case approval_decision answer of Deny \<Rightarrow> skip | Repause \<Rightarrow> ask | Approve \<Rightarrow> pure True)
       else and_then (read wk_outputs) (\<lambda>outputs.
         case evaluate_when (ee_when env) (wc_expr c) (when_env_of (ee_rat env) outputs) of
           Inl (WhenClauseError m) \<Rightarrow> return (unsupported False)
         | Inl e \<Rightarrow> raising e
         | Inr passes \<Rightarrow>
             if passes then pure True
             else if wc_on_violation c = ''skip'' then skip
             else if wc_on_violation c = ''abort'' then return aborted
             else ask)))"

definition has_template :: "node \<Rightarrow> bool" where
  "has_template n \<longleftrightarrow> nd_template n \<noteq> None \<and> nd_template n \<noteq> Some []"

definition approval_gate :: "blueprint \<Rightarrow> pydict \<Rightarrow> int option \<Rightarrow> string option \<Rightarrow> node \<Rightarrow> ('w, bool) step" where
  "approval_gate bp slots awaiting answer n =
     (if \<not> is_approval_node n then pure True
      else (case (if awaiting = Some (nd_order n) \<and> answer \<noteq> None then approval_decision answer else Repause) of
          Deny \<Rightarrow> return aborted
        | Repause \<Rightarrow> and_then (read wk_outputs) (\<lambda>outputs. pause_at bp slots (nd_order n) ''blueprint_approval''
            (approval_question n) [''approve'', ''deny''] (Some (upstream_show n outputs)))
        | Approve \<Rightarrow> and_then (mark_done n empty_record) (\<lambda>_.
            if has_template n then pure True else and_then (empty_output n) (\<lambda>_. pure False))))"

section \<open>A query node\<close>

definition denied_result :: "tool_result \<Rightarrow> exec_outcome" where
  "denied_result r = ExecFailed \<lparr>
     ef_error_code = (case tr_error_code r of Some c \<Rightarrow> if c = [] then UNSUPPORTED_CODE else c | None \<Rightarrow> UNSUPPORTED_CODE),
     ef_user_message = (case tr_user_message r of Some m \<Rightarrow> if m = [] then UNSUPPORTED_MESSAGE else m | None \<Rightarrow> UNSUPPORTED_MESSAGE),
     ef_retryable = (tr_retryable r = Some True), ef_provenance = tr_provenance r\<rparr>"

definition materialize_node :: "'w exec_env \<Rightarrow> blueprint \<Rightarrow> node \<Rightarrow> pyval \<Rightarrow> ('w, string) step" where
  "materialize_node env bp n full = (let q = unpack_result full in
     if qr_columns q = [] \<or> qr_truncated q \<or> ee_max_rows env < length (qr_rows q) \<or> ee_max_columns env < length (qr_columns q)
     then return (unsupported False)
     else (case ee_scratch env of
         None \<Rightarrow> raising (OtherError ''AssertionError'')
       | Some materialize \<Rightarrow>
           and_then (observe ''blueprint_step'' [(''blueprint_id'', PStr (bp_id bp)), (''step'', PStr ''materializing''),
             (''node'', PInt (nd_order n))]) (\<lambda>_ w.
           case materialize (infer_scratch_columns (qr_columns q) (qr_rows q)) (qr_rows q) (wk_world w) of
             (Inl err, s) \<Rightarrow> (Return (unsupported False), w\<lparr>wk_world := s\<rparr>)
           | (Inr table, s) \<Rightarrow> (Next table, w\<lparr>wk_world := s\<rparr>))))"

definition bind_node :: "'w exec_env \<Rightarrow> slot_maps \<Rightarrow> pydict \<Rightarrow> node \<Rightarrow> ('w, string) step" where
  "bind_node env maps rules n = (case maps of (vals, omitted) \<Rightarrow>
     and_then (read wk_outputs) (\<lambda>outputs.
     and_then (or_return (node_bindings n vals rules outputs omitted)) (\<lambda>bindings.
     and_then (read wk_materialized) (\<lambda>materialized.
     and_then (or_return (node_table_bindings (nd_consumes n) materialized [])) (\<lambda>tables.
     case bind_template (ee_glot env) (case nd_template n of Some t \<Rightarrow> t | None \<Rightarrow> []) bindings tables omitted of
       Inl (TemplateBindError m) \<Rightarrow> return slot_invalid
     | Inl e \<Rightarrow> raising e
     | Inr sql \<Rightarrow> pure sql)))))"

definition keep_scalar :: "node \<Rightarrow> string \<Rightarrow> tool_result \<Rightarrow> ('w, unit) step" where
  "keep_scalar n sql r =
     and_then (lift (extract_scalar_output n (tr_result_full r))) (\<lambda>out. case out of
       None \<Rightarrow> return slot_invalid
     | Some scalars \<Rightarrow>
         and_then (mark_done n \<lparr>nr_output = scalars, nr_provenance = tr_provenance r, nr_sql = Some sql\<rparr>) (\<lambda>_.
         modify (\<lambda>w. w\<lparr>wk_outputs := record_output n scalars (tr_result_full r) (wk_outputs w),
           wk_terminal := Some (case nd_template n of Some t \<Rightarrow> t | None \<Rightarrow> [], sql, tr_result_full r)\<rparr>)))"

definition keep_table :: "'w exec_env \<Rightarrow> blueprint \<Rightarrow> node \<Rightarrow> string \<Rightarrow> tool_result \<Rightarrow> ('w, unit) step" where
  "keep_table env bp n sql r =
     and_then (materialize_node env bp n (tr_result_full r)) (\<lambda>table.
     and_then (modify (\<lambda>w. w\<lparr>wk_materialized := dset (nd_order n) table (wk_materialized w)\<rparr>)) (\<lambda>_.
     and_then (mark_done n \<lparr>nr_output = [], nr_provenance = tr_provenance r, nr_sql = Some sql\<rparr>) (\<lambda>_. empty_output n)))"

definition query_node :: "'w exec_env \<Rightarrow> blueprint \<Rightarrow> slot_maps \<Rightarrow> pydict \<Rightarrow> int list \<Rightarrow> node \<Rightarrow> ('w, unit) step" where
  "query_node env bp maps rules consumed n =
     (if \<not> has_template n then skip_node n
      else and_then (bind_node env maps rules n) (\<lambda>sql.
        and_then (observe ''blueprint_step'' [(''blueprint_id'', PStr (bp_id bp)), (''step'', PStr ''executing_node''),
          (''node'', PInt (nd_order n))]) (\<lambda>_.
        and_then (dispatch_sql env sql (ee_query_limit env)) (\<lambda>r.
        if tr_status r \<noteq> ''ok'' then return (denied_result r)
        else
          and_then (modify (\<lambda>w. w\<lparr>wk_provs := wk_provs w @ [tr_provenance r], wk_sqls := wk_sqls w @ [sql]\<rparr>)) (\<lambda>_.
          if nd_order n \<in> set consumed then keep_table env bp n sql r else keep_scalar n sql r)))))"

definition walk_node :: "'w exec_env \<Rightarrow> blueprint \<Rightarrow> pydict \<Rightarrow> slot_maps \<Rightarrow> pydict \<Rightarrow> int list \<Rightarrow> int option \<Rightarrow> string option \<Rightarrow> node \<Rightarrow> ('w, unit) step" where
  "walk_node env bp slots maps rules consumed awaiting answer n =
     and_then (read wk_running) (\<lambda>running.
     if dget running (nd_order n) \<noteq> None then pure ()
     else and_then (when_gate env bp slots awaiting answer n) (\<lambda>go.
       if \<not> go then pure ()
       else and_then (approval_gate bp slots awaiting answer n) (\<lambda>run.
         if \<not> run then pure () else query_node env bp maps rules consumed n)))"

fun walk_nodes :: "'w exec_env \<Rightarrow> blueprint \<Rightarrow> pydict \<Rightarrow> slot_maps \<Rightarrow> pydict \<Rightarrow> int list \<Rightarrow> int option \<Rightarrow> string option \<Rightarrow> node list \<Rightarrow> ('w, unit) step" where
  "walk_nodes env bp slots maps rules consumed awaiting answer [] = pure ()"
| "walk_nodes env bp slots maps rules consumed awaiting answer (n # ns) =
     and_then (walk_node env bp slots maps rules consumed awaiting answer n) (\<lambda>_.
       walk_nodes env bp slots maps rules consumed awaiting answer ns)"

section \<open>Verification and the answer\<close>

definition verify_node :: "'w exec_env \<Rightarrow> blueprint \<Rightarrow> string \<Rightarrow> string \<Rightarrow> pyval \<Rightarrow> ('w, verify_outcome option) step" where
  "verify_node env bp template sql full =
     (let grain = bp_grain bp; q = unpack_result full; n = int (length (qr_rows q)); columns = map py_str (qr_columns q) in
     if rg_columns grain = [] \<or> \<not> rg_verifiable grain then pure (Some (verify_result grain n None columns None))
     else (case map_grain_columns (ee_glot env) template (rg_columns grain) of
         None \<Rightarrow> pure (Some (verify_result grain n None columns None))
       | Some cols \<Rightarrow>
           and_then (lift (build_grain_probe_sql (ee_glot env) sql cols)) (\<lambda>probe_sql.
           and_then (dispatch_sql env probe_sql None) (\<lambda>probe.
           if tr_status probe \<noteq> ''ok'' then pure None
           else
             and_then (add_provs [tr_provenance probe]) (\<lambda>_.
             and_then (lift (unpack_grain_probe (tr_result_full probe))) (\<lambda>counts. case counts of
               (Some all_rows, Some distincts) \<Rightarrow> pure (Some (verify_result grain all_rows (Some distincts) columns None))
             | _ \<Rightarrow> pure (Some (verify_result grain n None columns None))))))))"

text \<open>\<^verbatim>\<open>_build_preview\<close> of the dispatcher on a tabular result; other shapes are the parameter.\<close>

definition build_preview :: "'w exec_env \<Rightarrow> pyval \<Rightarrow> result_preview result" where
  "build_preview env raw = (case raw of
     PDict d \<Rightarrow>
       if dget d ''rows'' = None \<or> dget d ''columns'' = None then Inr (ee_preview_other env raw)
       else rbind (py_list (getv d ''rows'')) (\<lambda>rows.
         rbind (py_list (getv d ''columns'')) (\<lambda>columns.
         rbind (py_int (get_default d ''row_count'' (PInt (int (length rows))))) (\<lambda>row_total.
         rbind (mapM_r py_list (take (ee_preview_rows env) rows)) (\<lambda>preview.
         Inr \<lparr>rp_columns = columns, rp_row_count = row_total,
              rp_truncated = (py_truthy (get_default d ''truncated'' (PBool False)) \<or> ee_preview_rows env < length rows),
              rp_preview_rows = preview\<rparr>))))
   | _ \<Rightarrow> Inr (ee_preview_other env raw))"

definition result_document :: "'w exec_env \<Rightarrow> blueprint \<Rightarrow> string list \<Rightarrow> string \<Rightarrow> query_result \<Rightarrow> verify_outcome \<Rightarrow> pydict" where
  "result_document env bp sqls sql q vo =
     [(''blueprint_id'', PStr (bp_id bp)), (''status'', PStr ''verified''), (''columns'', PList (qr_columns q)),
      (''row_count'', PInt (qr_row_count q)), (''truncated'', PBool (qr_truncated q)),
      (''preview_rows'', PList (map PList (take (ee_preview_rows env) (qr_rows q)))), (''sql'', PList (map PStr sqls)),
      (''terminal_sql'', PStr sql), (''verify'', PDict (verify_block vo (qr_row_count q)))]"

definition finalize :: "'w exec_env \<Rightarrow> blueprint \<Rightarrow> string \<times> string \<times> pyval \<Rightarrow> ('w, exec_outcome) step" where
  "finalize env bp terminal = (case terminal of (template, sql, full) \<Rightarrow>
     and_then (observe ''blueprint_step'' [(''blueprint_id'', PStr (bp_id bp)), (''step'', PStr ''verifying'')]) (\<lambda>_.
     and_then (verify_node env bp template sql full) (\<lambda>verdict. case verdict of
       None \<Rightarrow> return verify_failed
     | Some vo \<Rightarrow>
         if \<not> vo_passed vo then return verify_failed
         else
           and_then (lift (build_preview env full)) (\<lambda>preview.
           and_then (read (\<lambda>w. (wk_sqls w, wk_provs w))) (\<lambda>(sqls, provs).
           let q = unpack_result full in
           pure (ExecCompleted \<lparr>
             ec_result_full = stamp_window_anchor (ee_glot env) (result_document env bp sqls sql q vo) bp template q,
             ec_preview = preview, ec_provenance = union_provenance provs\<rparr>))))))"

section \<open>The run\<close>

text \<open>A template that does not parse passes here and fails at its bind.\<close>

definition template_admitted :: "'w exec_env \<Rightarrow> node \<Rightarrow> bool" where
  "template_admitted env n = (case nd_template n of
     None \<Rightarrow> True
   | Some t \<Rightarrow> t = [] \<or> (case parse_template (ee_glot env) t of
       Inl e \<Rightarrow> True | Inr tree \<Rightarrow> assert_read_only_select (ee_glot env) tree = Inr ()))"

definition seed_walk :: "(int, node_record) dict \<Rightarrow> ('w, unit) step" where
  "seed_walk completed = modify (\<lambda>w. w\<lparr>
     wk_outputs := load_completed_into_outputs completed [],
     wk_running := completed,
     wk_provs := wk_provs w @ map (nr_provenance \<circ> snd) (sort_key fst completed),
     wk_sqls := List.map_filter (nr_sql \<circ> snd) (sort_key fst completed)\<rparr>)"

definition execute_dag :: "'w exec_env \<Rightarrow> blueprint \<Rightarrow> pydict \<Rightarrow> (int, node_record) dict \<Rightarrow> int option \<Rightarrow> string option \<Rightarrow> ('w, exec_outcome) step" where
  "execute_dag env bp slots completed awaiting answer = (case topo_order (bp_composes bp) of
     None \<Rightarrow> return (unsupported False)
   | Some topo \<Rightarrow>
       (let consumed = table_consumed_orders (bp_composes bp) in
       if \<not> list_all (template_admitted env) topo then return (unsupported False)
       else if consumed \<noteq> [] \<and> ee_scratch env = None then return (unsupported False)
       else if has_table_intermediate (bp_composes bp) \<and> consumed = [] then return (unsupported False)
       else
         and_then (resolve_all_slots env bp slots) (\<lambda>maps.
         and_then (expand_rules env bp (bp_rules bp) []) (\<lambda>rules.
         and_then (seed_walk completed) (\<lambda>_.
         and_then (walk_nodes env bp slots maps rules consumed awaiting answer topo) (\<lambda>_.
         and_then (read wk_terminal) (\<lambda>terminal. case terminal of
           None \<Rightarrow> return aborted
         | Some t \<Rightarrow> finalize env bp t)))))))"

definition is_blueprint_in_scope :: "string fset option \<Rightarrow> string fset \<Rightarrow> bool" where
  "is_blueprint_in_scope uses scope = (case uses of None \<Rightarrow> False | Some u \<Rightarrow> scope = {||} \<or> u |\<subseteq>| scope)"

definition leaf_as_dag :: "blueprint \<Rightarrow> blueprint" where
  "leaf_as_dag bp = (if is_single_node bp
     then bp\<lparr>bp_template := None, bp_composes := [\<lparr>nd_order = 0, nd_kind = DEFAULT_NODE_KIND, nd_feeds_from = [], nd_consumes = [],
       nd_output = [], nd_template = bp_template bp, nd_when = None, nd_approval = None\<rparr>]\<rparr>
     else bp)"

definition fetch :: "'w exec_env \<Rightarrow> string \<Rightarrow> ('w, blueprint) step" where
  "fetch env bid =
     and_then (\<lambda>w. case ee_get_blueprint env bid (wk_world w) of (d, s) \<Rightarrow> (Next d, w\<lparr>wk_world := s\<rparr>)) (\<lambda>d. case d of
       None \<Rightarrow> return not_found
     | Some detail \<Rightarrow>
         if \<not> is_blueprint_in_scope (bl_uses detail) (ee_scope env) then return not_found
         else (case parse_blueprint (bl_stored detail) of
             Inl (BlueprintParseError m) \<Rightarrow> return (unsupported False)
           | Inl e \<Rightarrow> raising e
           | Inr bp \<Rightarrow> pure bp))"

definition execute :: "'w exec_env \<Rightarrow> string \<Rightarrow> pydict \<Rightarrow> ('w, exec_outcome) step" where
  "execute env bid slots =
     and_then (fetch env bid) (\<lambda>bp. execute_dag env (leaf_as_dag bp) slots [] None None)"

definition resume :: "'w exec_env \<Rightarrow> string \<Rightarrow> pydict \<Rightarrow> string option \<Rightarrow> int \<Rightarrow> string \<Rightarrow> ('w, exec_outcome) step" where
  "resume env bid slots completed_json awaiting answer =
     and_then (fetch env bid) (\<lambda>bp.
       if is_single_node bp then return (unsupported False)
       else execute_dag env bp slots (rehydrate_completed (ee_loads env) completed_json) (Some awaiting) (Some answer))"

definition start :: "'w \<Rightarrow> 'w walk_state" where
  "start s = \<lparr>wk_running = [], wk_outputs = [], wk_materialized = [], wk_provs = [], wk_sqls = [], wk_terminal = None,
     wk_events = [], wk_world = s\<rparr>"

text \<open>A run ends with an outcome, returned early or at the end, or with an exception.\<close>

definition outcome_of :: "(exec_outcome, exec_outcome) flow \<times> 'w walk_state \<Rightarrow> exec_outcome result" where
  "outcome_of r = (case fst r of Next o' \<Rightarrow> Inr o' | Return o' \<Rightarrow> Inr o' | Raise e \<Rightarrow> Inl e)"

section \<open>The tool result\<close>

definition dict_at :: "pyval \<Rightarrow> string \<Rightarrow> pyval" where
  "dict_at v k = (case v of PDict d \<Rightarrow> getv d k | _ \<Rightarrow> PNone)"

definition is_verified_blueprint_result :: "pyval \<Rightarrow> bool" where
  "is_verified_blueprint_result full \<longleftrightarrow> dict_at full ''status'' = PStr ''verified'' \<and>
     py_truthy (dict_at (dict_at full ''verify'') ''grain_ok'') \<and> py_truthy (dict_at (dict_at full ''verify'') ''signature_ok'')"

definition window_note_for_result :: "pyval \<Rightarrow> string option" where
  "window_note_for_result full = (if dict_at full ''window_anchor'' = PStr DATA_WINDOW_ANCHOR
     then Some (data_anchored_result_note (dict_at full ''window_end'')) else None)"

definition blueprint_outcome_to_tool_result :: "exec_outcome \<Rightarrow> tool_result \<times> exec_paused option" where
  "blueprint_outcome_to_tool_result out = (case out of
     ExecCompleted c \<Rightarrow> (\<lparr>tr_status = ''ok'', tr_tool_name = ''runBlueprint'', tr_error_code = None, tr_retryable = None,
       tr_user_message = None, tr_provenance = ec_provenance c, tr_result_preview = Some (ec_preview c),
       tr_result_full = PDict (ec_result_full c), tr_authoritative = is_verified_blueprint_result (PDict (ec_result_full c)),
       tr_denial_detail = None, tr_window_note = window_note_for_result (PDict (ec_result_full c))\<rparr>, None)
   | ExecPaused p \<Rightarrow> (\<lparr>tr_status = ''ok'', tr_tool_name = ''runBlueprint'', tr_error_code = None, tr_retryable = None,
       tr_user_message = None, tr_provenance = Some {||}, tr_result_preview = None, tr_result_full = PNone,
       tr_authoritative = False, tr_denial_detail = None, tr_window_note = None\<rparr>, Some p)
   | ExecFailed f \<Rightarrow> (\<lparr>tr_status = ''error'', tr_tool_name = ''runBlueprint'', tr_error_code = Some (ef_error_code f),
       tr_retryable = Some (ef_retryable f), tr_user_message = Some (ef_user_message f), tr_provenance = ef_provenance f,
       tr_result_preview = None, tr_result_full = PNone, tr_authoritative = False, tr_denial_detail = None,
       tr_window_note = None\<rparr>, None))"

definition invalid_args :: tool_result where
  "invalid_args = \<lparr>tr_status = ''error'', tr_tool_name = ''runBlueprint'', tr_error_code = Some ''RUN_BLUEPRINT_INVALID_ARGS'',
     tr_retryable = Some True, tr_user_message = Some (''runBlueprint needs a blueprint 'id' and a 'slot_bindings' object.''),
     tr_provenance = None, tr_result_preview = None, tr_result_full = PNone, tr_authoritative = False,
     tr_denial_detail = None, tr_window_note = None\<rparr>"

definition run_blueprint_tool :: "'w exec_env \<Rightarrow> pydict \<Rightarrow> 'w \<Rightarrow> (tool_result \<times> exec_paused option) result \<times> 'w" where
  "run_blueprint_tool env args s = (case (getv args ''id'', get_default args ''slot_bindings'' (PDict [])) of
     (PStr bid, slots) \<Rightarrow>
       if py_strip bid = [] then (Inr (invalid_args, None), s)
       else (case (if slots = PNone then PDict [] else slots) of
           PDict d \<Rightarrow> (let r = execute env (py_strip bid) d (start s) in
             (map_sum id blueprint_outcome_to_tool_result (outcome_of r), wk_world (snd r)))
         | _ \<Rightarrow> (Inr (invalid_args, None), s))
   | _ \<Rightarrow> (Inr (invalid_args, None), s))"

end
