(* ===== verification/BlueprintExecFacts.thy ===== *)
theory BlueprintExecFacts
  imports BlueprintExec
begin

text \<open>
  What a run of the blueprint executor guarantees: nodes execute at most once, completed nodes
  never, approval nodes only on an explicit yes, an answer is always a verified one, and the
  checkpoint of a pause reads back. \<open>executed\<close> reads the orders of the executed nodes off the
  observer's events.
\<close>

named_theorems steps

lemma map_filter_append: "List.map_filter f (xs @ ys) = List.map_filter f xs @ List.map_filter f ys"
  by (induction xs) (simp_all add: map_filter_simps split: option.splits)

section \<open>Executed nodes\<close>

definition exec_order :: "step_event \<Rightarrow> int option" where
  "exec_order e = (case e of (name, d) \<Rightarrow>
     if name = ''blueprint_step'' \<and> getv d ''step'' = PStr ''executing_node''
     then (case getv d ''node'' of PInt k \<Rightarrow> Some k | _ \<Rightarrow> None) else None)"

definition executed :: "'w walk_state \<Rightarrow> int list" where
  "executed w = List.map_filter exec_order (wk_events w)"

text \<open>A step that executes nothing and marks at most node \<open>k\<close>; a step that may execute \<open>k\<close> once.\<close>

definition keeps_others :: "int \<Rightarrow> 'w walk_state \<Rightarrow> 'w walk_state \<Rightarrow> bool" where
  "keeps_others k w w' \<longleftrightarrow> (\<forall>j. j \<noteq> k \<longrightarrow> dget (wk_running w') j = dget (wk_running w) j)"

lemma no_exec [simp]:
  "exec_order (''blueprint_step'', [(''blueprint_id'', b), (''step'', PStr ''resolving_slots'')]) = None"
  "exec_order (''blueprint_step'', [(''blueprint_id'', b), (''step'', PStr ''resolving_rule'')]) = None"
  "exec_order (''blueprint_step'', [(''blueprint_id'', b), (''step'', PStr ''verifying'')]) = None"
  "exec_order (''blueprint_step'', [(''blueprint_id'', b), (''step'', PStr ''materializing''), (''node'', v)]) = None"
  "exec_order (''blueprint_rule_resolved'', d) = None"
  by (simp_all add: exec_order_def getv_def)

text \<open>Relations that dispatching, collecting provenance and observing keep.\<close>

locale run_relation = step_relation R for R :: "'w walk_state \<Rightarrow> 'w walk_state \<Rightarrow> bool" +
  assumes world: "R w (w\<lparr>wk_world := s\<rparr>)"
    and provs: "R w (w\<lparr>wk_provs := wk_provs w @ ps\<rparr>)"
    and observed: "exec_order e = None \<Longrightarrow> R w (w\<lparr>wk_events := wk_events w @ [e]\<rparr>)"
begin

lemma case_resolution:
  "(\<And>b. preserves R (f b)) \<Longrightarrow> (\<And>n p. preserves R (g n p)) \<Longrightarrow> (\<And>a. preserves R (h a)) \<Longrightarrow>
     preserves R (case x of SlotBinding b \<Rightarrow> f b | OmitSlot n p \<Rightarrow> g n p | AskUser a \<Rightarrow> h a)"
  by (cases x) auto

lemma case_expansion:
  "(\<And>b. preserves R (f b)) \<Longrightarrow> (\<And>b. preserves R (g b)) \<Longrightarrow> preserves R (case x of Binding b \<Rightarrow> f b | Fallback b \<Rightarrow> g b)"
  by (cases x) auto

lemma case_decision:
  "preserves R a \<Longrightarrow> preserves R b \<Longrightarrow> preserves R c \<Longrightarrow> preserves R (case d of Approve \<Rightarrow> a | Deny \<Rightarrow> b | Repause \<Rightarrow> c)"
  by (cases d) auto

lemma pause_at: "preserves R (pause_at bp slots n reason question os show)"
  by (simp add: preserves_def pause_at_def same)

lemma dispatch_sql: "preserves R (dispatch_sql env sql limit)"
  by (auto simp: preserves_def dispatch_sql_def world split: prod.splits)

lemma ask_world: "preserves R (\<lambda>w. case f (wk_world w) of (a, s) \<Rightarrow> (Next a, w\<lparr>wk_world := s\<rparr>))"
  by (auto simp: preserves_def world split: prod.splits)

lemma ask_scratch: "preserves R (\<lambda>w. case f (wk_world w) of (Inl e, s) \<Rightarrow> (Return r, w\<lparr>wk_world := s\<rparr>)
    | (Inr t, s) \<Rightarrow> (Next t, w\<lparr>wk_world := s\<rparr>))"
  by (auto simp: preserves_def world split: prod.splits sum.splits)

lemma add_provs: "preserves R (add_provs ps)"
  by (simp add: preserves_def add_provs_def modify_def provs)

lemma observe: "exec_order (name, d) = None \<Longrightarrow> preserves R (observe name d)"
  by (simp add: preserves_def observe_def modify_def observed)

lemmas run_rules = rules case_resolution case_expansion case_decision pause_at dispatch_sql ask_world ask_scratch add_provs observe

lemma probe_domain: "preserves R (probe_domain env b)"
  unfolding probe_domain_def by (intro run_rules)

lemma slot_domain: "preserves R (slot_domain env sp raw)"
  unfolding slot_domain_def by (intro run_rules probe_domain)

lemma resolve_one_slot: "preserves R (resolve_one_slot env bp slots refs sp maps)"
  unfolding resolve_one_slot_def Let_def by (intro run_rules slot_domain)

lemma resolve_slots: "preserves R (resolve_slots env bp slots refs sps maps)"
  by (induction sps arbitrary: maps) (auto intro!: run_rules resolve_one_slot)

lemma resolve_all_slots: "preserves R (resolve_all_slots env bp slots)"
  unfolding resolve_all_slots_def by (intro run_rules resolve_slots) simp

lemma expand_rules: "preserves R (expand_rules env bp raws acc)"
  by (induction raws arbitrary: acc) (simp_all, (intro run_rules | simp)+)

lemma materialize_node: "preserves R (materialize_node env bp n full)"
  unfolding materialize_node_def Let_def by (intro run_rules | simp)+

lemma bind_node: "preserves R (bind_node env maps rules n)"
  unfolding bind_node_def by (intro run_rules) (auto intro!: run_rules split: exc.split)

lemma verify_node: "preserves R (verify_node env bp template sql full)"
  unfolding verify_node_def Let_def by (intro run_rules | simp)+

lemma finalize: "preserves R (finalize env bp t)"
  unfolding finalize_def Let_def by (intro run_rules verify_node | simp)+

end

text \<open>And those that the bookkeeping of node \<open>k\<close> keeps.\<close>

locale node_relation = run_relation R for R :: "'w walk_state \<Rightarrow> 'w walk_state \<Rightarrow> bool" +
  fixes k :: int
  assumes marked: "R w (w\<lparr>wk_running := dset k r (wk_running w)\<rparr>)"
    and outputs: "R w (w\<lparr>wk_outputs := d\<rparr>)"
    and answered: "R w (w\<lparr>wk_outputs := d, wk_terminal := t\<rparr>)"
    and materialized: "R w (w\<lparr>wk_materialized := m\<rparr>)"
    and fetched: "R w (w\<lparr>wk_provs := wk_provs w @ ps, wk_sqls := sqls\<rparr>)"
begin

lemma mark_done: "nd_order n = k \<Longrightarrow> preserves R (mark_done n r)"
  by (auto simp: preserves_def mark_done_def modify_def marked)

lemma empty_output: "preserves R (empty_output n)"
  by (simp add: preserves_def empty_output_def modify_def outputs)

lemma book: "preserves R (modify (\<lambda>w. w\<lparr>wk_materialized := m w\<rparr>))"
    "preserves R (modify (\<lambda>w. w\<lparr>wk_outputs := d w, wk_terminal := t\<rparr>))"
    "preserves R (modify (\<lambda>w. w\<lparr>wk_provs := wk_provs w @ ps, wk_sqls := q w\<rparr>))"
  by (simp_all add: preserves_def modify_def materialized answered fetched)

lemmas node_rules = run_rules mark_done empty_output book

lemma skip_node: "nd_order n = k \<Longrightarrow> preserves R (skip_node n)"
  unfolding skip_node_def by (intro node_rules)

lemma when_gate: "nd_order n = k \<Longrightarrow> preserves R (when_gate env bp slots awaiting answer n)"
  unfolding when_gate_def Let_def by (intro node_rules skip_node) (auto intro!: node_rules skip_node split: exc.split)

lemma approval_gate: "nd_order n = k \<Longrightarrow> preserves R (approval_gate bp slots awaiting answer n)"
  unfolding approval_gate_def by (intro node_rules)

lemma keep_table: "nd_order n = k \<Longrightarrow> preserves R (keep_table env bp n sql r)"
  unfolding keep_table_def by (intro node_rules materialize_node)

lemma keep_scalar: "nd_order n = k \<Longrightarrow> preserves R (keep_scalar n sql r)"
  unfolding keep_scalar_def by (intro node_rules)

end

section \<open>The relation of quiet steps\<close>

definition quiet_at :: "int \<Rightarrow> 'w walk_state \<Rightarrow> 'w walk_state \<Rightarrow> bool" where
  "quiet_at k w w' \<longleftrightarrow> executed w' = executed w \<and> keeps_others k w w'"

abbreviation still :: "int \<Rightarrow> ('w, 'a) step \<Rightarrow> bool" where
  "still k m \<equiv> preserves (quiet_at k) m"

definition once :: "int \<Rightarrow> ('w, 'a) step \<Rightarrow> bool" where
  "once k m \<longleftrightarrow> (\<forall>w. (executed (snd (m w)) = executed w \<or> executed (snd (m w)) = executed w @ [k]) \<and> keeps_others k w (snd (m w)))"

lemma keeps_others_refl [simp]: "keeps_others k w w"
  by (simp add: keeps_others_def)

lemma keeps_others_trans: "keeps_others k u v \<Longrightarrow> keeps_others k v w \<Longrightarrow> keeps_others k u w"
  by (simp add: keeps_others_def)

interpretation still: node_relation "quiet_at k" k for k
  by unfold_locales
    (auto simp: quiet_at_def executed_def map_filter_append map_filter_simps keeps_others_def)

lemmas still_def = preserves_def quiet_at_def

lemmas [steps] = still.node_rules still.resolve_all_slots still.expand_rules still.bind_node still.finalize
  still.when_gate[OF refl] still.approval_gate[OF refl] still.keep_table[OF refl] still.keep_scalar[OF refl]

lemma stillD: "still k m \<Longrightarrow> m w = (r, w') \<Longrightarrow> executed w' = executed w"
  unfolding still_def by (metis snd_conv)

lemma once_still: "still k m \<Longrightarrow> once k m"
  by (simp add: still_def once_def)

lemma still_then_once: "still k m \<Longrightarrow> (\<And>a. once k (f a)) \<Longrightarrow> once k (and_then m f)"
  unfolding still_def once_def and_then_def
  by (auto split: prod.splits flow.splits) (metis snd_conv keeps_others_trans)+

lemma once_then_still: "once k m \<Longrightarrow> (\<And>a. still k (f a)) \<Longrightarrow> once k (and_then m f)"
  unfolding still_def once_def and_then_def
  by (auto split: prod.splits flow.splits) (metis snd_conv keeps_others_trans)+

lemma once_execute: "once k (observe ''blueprint_step'' [(''blueprint_id'', b), (''step'', PStr ''executing_node''), (''node'', PInt k)])"
  by (simp add: once_def observe_def modify_def executed_def map_filter_append map_filter_simps exec_order_def getv_def keeps_others_def)

lemma once_query_node: "once (nd_order n) (query_node env bp maps rules consumed n)"
proof (cases "has_template n")
  case False
  then show ?thesis by (simp add: query_node_def once_still still.skip_node)
next
  case True
  have "once (nd_order n) (query_node env bp maps rules consumed n)"
    unfolding query_node_def using True
    by (simp only: simp_thms if_False)
      (rule still_then_once[OF still.bind_node], rule once_then_still[OF once_execute], (intro steps | simp)+)
  then show ?thesis .
qed

section \<open>Execution is at most once and by consent\<close>

definition consented :: "int option \<Rightarrow> string option \<Rightarrow> node \<Rightarrow> bool" where
  "consented awaiting answer n \<longleftrightarrow>
     (is_approval_node n \<longrightarrow> awaiting = Some (nd_order n) \<and> approval_decision answer = Approve)"

lemma approval_gate_consent:
  "approval_gate bp slots awaiting answer n w = (Next True, w') \<Longrightarrow> consented awaiting answer n"
  by (auto simp: approval_gate_def consented_def and_then_def pause_at_def return_def read_def pure_def mark_done_def modify_def
    empty_output_def approval_decision_def Let_def split: if_splits decision.splits prod.splits flow.splits option.splits)

lemma walk_node_once: "once (nd_order n) (walk_node env bp slots maps rules consumed awaiting answer n)"
  unfolding walk_node_def
  by (intro still_then_once steps)
    (auto intro!: still_then_once once_query_node steps once_still[OF still.plain(1)])

text \<open>What one node adds: nothing, or itself when it was not completed and consent was given.\<close>

lemma walk_node_adds:
  assumes "walk_node env bp slots maps rules consumed awaiting answer n w = (r, w')"
  shows "(executed w' = executed w \<or> executed w' = executed w @ [nd_order n] \<and> dget (wk_running w) (nd_order n) = None \<and>
     consented awaiting answer n) \<and> keeps_others (nd_order n) w w'"
proof -
  note 1 = walk_node_once[of n env bp slots maps rules consumed awaiting answer, unfolded once_def, rule_format, of w]
  have "dget (wk_running w) (nd_order n) = None \<and> consented awaiting answer n" if ne: "executed w' \<noteq> executed w"
  proof -
    have fresh: "dget (wk_running w) (nd_order n) = None"
      using assms ne by (auto simp: walk_node_def and_then_def[of "read wk_running"] read_def pure_def split: if_splits)
    obtain r1 w1 where g: "when_gate env bp slots awaiting answer n w = (r1, w1)" by fastforce
    then have q1: "executed w1 = executed w" by (rule stillD[OF still.when_gate[OF refl]])
    obtain r2 w2 where a: "approval_gate bp slots awaiting answer n w1 = (r2, w2)" by fastforce
    then have q2: "executed w2 = executed w1" by (rule stillD[OF still.approval_gate[OF refl]])
    have "r2 = Next True"
      using assms ne fresh g a q1 q2
      by (auto simp: walk_node_def and_then_def read_def pure_def split: flow.splits if_splits)
    then show ?thesis using fresh approval_gate_consent a by blast
  qed
  then show ?thesis using 1 assms by auto
qed

lemma walk_nodes_executed:
  "walk_nodes env bp slots maps rules consumed awaiting answer ns w = (r, w') \<Longrightarrow> distinct (orders ns) \<Longrightarrow>
     \<exists>ks. executed w' = executed w @ ks \<and> distinct ks \<and>
       (\<forall>k \<in> set ks. dget (wk_running w) k = None \<and> (\<exists>n \<in> set ns. nd_order n = k \<and> consented awaiting answer n))"
proof (induction ns arbitrary: w)
  case (Cons n ns)
  obtain r1 w1 where n: "walk_node env bp slots maps rules consumed awaiting answer n w = (r1, w1)" by fastforce
  note one = walk_node_adds[OF n]
  show ?case
  proof (cases r1)
    case (Next u)
    then have rest: "walk_nodes env bp slots maps rules consumed awaiting answer ns w1 = (r, w')"
      using Cons.prems(1) n by (simp add: and_then_def)
    obtain ks where ks: "executed w' = executed w1 @ ks" "distinct ks"
      "\<forall>k \<in> set ks. dget (wk_running w1) k = None \<and> (\<exists>n \<in> set ns. nd_order n = k \<and> consented awaiting answer n)"
      using Cons.IH[OF rest] Cons.prems(2) by (auto simp: orders_def)
    have "nd_order n \<notin> nd_order ` set ns" using Cons.prems(2) by (simp add: orders_def)
    then have fresh: "nd_order n \<notin> set ks" using ks(3) by (metis imageI)
    then have keep: "\<forall>k \<in> set ks. dget (wk_running w) k = None" using ks(3) one by (metis keeps_others_def)
    from one show ?thesis
    proof (elim conjE disjE)
      assume "executed w1 = executed w"
      then show ?thesis using ks keep by (intro exI[of _ ks]) auto
    next
      assume "executed w1 = executed w @ [nd_order n]" "dget (wk_running w) (nd_order n) = None" "consented awaiting answer n"
      then show ?thesis using ks keep fresh by (intro exI[of _ "nd_order n # ks"]) auto
    qed
  next
    case (Return o')
    then have "w' = w1" using Cons.prems(1) n by (simp add: and_then_def)
    then show ?thesis using one by auto
  next
    case (Raise e)
    then have "w' = w1" using Cons.prems(1) n by (simp add: and_then_def)
    then show ?thesis using one by auto
  qed
qed (simp add: pure_def)

lemma and_then_cases:
  assumes "\<And>r w'. m w = (r, w') \<Longrightarrow> Q w'" and "\<And>a w'. m w = (Next a, w') \<Longrightarrow> Q (snd (f a w'))"
  shows "Q (snd (and_then m f w))"
  using assms by (auto simp: and_then_def split: prod.splits flow.splits)

lemma still_prefix: "still k m \<Longrightarrow> (\<And>a w'. executed w' = executed w \<Longrightarrow> Q (executed (snd (f a w')))) \<Longrightarrow>
    Q (executed w) \<Longrightarrow> Q (executed (snd (and_then m f w)))"
  by (rule and_then_cases[where Q = "\<lambda>v. Q (executed v)"]) (metis stillD)+

lemma topo_order_some:
  assumes "topo_order nodes = Some ns"
  shows "distinct (orders ns) \<and> set ns = set nodes"
proof -
  have m: "mset ns = mset nodes" using topo_order_sound[OF assms] by (simp add: topological_def)
  have "distinct (orders nodes)" using topo_order_sound[OF assms] by simp
  then have "distinct (orders ns)" using m unfolding orders_def by (metis mset_eq_imp_distinct_iff mset_map)
  then show ?thesis using m by (metis set_mset_mset)
qed


section \<open>An answer is verified\<close>

text \<open>Steps that never answer early: the only early answers are pauses and failures.\<close>

named_theorems silences

definition silent :: "('w, 'a) step \<Rightarrow> bool" where
  "silent m \<longleftrightarrow> (\<forall>w c. fst (m w) \<noteq> Return (ExecCompleted c))"

fun early :: "exec_outcome \<Rightarrow> bool" where
  "early (ExecCompleted c) = False"
| "early _ = True"

lemma early_outcomes [simp]:
  "early (unsupported b)" "early verify_failed" "early slot_invalid" "early aborted" "early not_found"
  "early (slot_pause bp slots a)" "early (rule_denied f)" "early (denied_result r)"
  by (simp_all add: unsupported_def verify_failed_def slot_invalid_def aborted_def not_found_def fails_def slot_pause_def
    rule_denied_def denied_result_def)

lemma silent_and_then [silences]: "silent m \<Longrightarrow> (\<And>a. silent (f a)) \<Longrightarrow> silent (and_then m f)"
  by (auto simp: silent_def and_then_def split: prod.splits flow.splits) (metis fst_conv)

lemma silent_cases [silences]:
  "silent a \<Longrightarrow> (\<And>y. silent (f y)) \<Longrightarrow> silent (case x of None \<Rightarrow> a | Some y \<Rightarrow> f y)"
  "(\<And>a b. silent (g a b)) \<Longrightarrow> silent (case p of (a, b) \<Rightarrow> g a b)"
  "silent a \<Longrightarrow> silent b \<Longrightarrow> silent (if c then a else b)"
  "(\<And>b. silent (h1 b)) \<Longrightarrow> (\<And>n p. silent (h2 n p)) \<Longrightarrow> (\<And>a. silent (h3 a)) \<Longrightarrow>
     silent (case r of SlotBinding b \<Rightarrow> h1 b | OmitSlot n p \<Rightarrow> h2 n p | AskUser a \<Rightarrow> h3 a)"
  "(\<And>b. silent (k1 b)) \<Longrightarrow> (\<And>b. silent (k2 b)) \<Longrightarrow> silent (case e of Binding b \<Rightarrow> k1 b | Fallback b \<Rightarrow> k2 b)"
  "silent a \<Longrightarrow> silent b \<Longrightarrow> silent d \<Longrightarrow> silent (case dc of Approve \<Rightarrow> a | Deny \<Rightarrow> b | Repause \<Rightarrow> d)"
  "(\<And>e. silent (l1 e)) \<Longrightarrow> (\<And>a. silent (l2 a)) \<Longrightarrow> silent (case s of Inl e \<Rightarrow> l1 e | Inr a \<Rightarrow> l2 a)"
  by (cases x; cases p; cases r; cases e; cases dc; cases s; simp)+

lemma silent_plain [silences]:
  "silent (pure a)" "silent (raising e)" "silent (read f)" "silent (lift x)" "silent (modify g)" "silent (observe n d)"
  "silent (dispatch_sql env sql limit)" "silent (add_provs ps)" "silent (mark_done nd r)" "silent (empty_output nd)"
  "silent (pause_at bp slots k reason question os show)"
  "silent (\<lambda>w. case h (wk_world w) of (a, s) \<Rightarrow> (Next a, w\<lparr>wk_world := s\<rparr>))"
  by (auto simp: silent_def pure_def raising_def read_def lift_def modify_def observe_def dispatch_sql_def add_provs_def mark_done_def
    empty_output_def pause_at_def split: sum.splits prod.splits)

lemma silent_return [silences]: "early r \<Longrightarrow> silent (return r)"
  by (auto simp: silent_def return_def)

lemma silent_or_return [silences]: "(\<And>r. x = Inl r \<Longrightarrow> early r) \<Longrightarrow> silent (or_return x)"
  by (cases x) (auto simp: silent_def or_return_def)

lemma silent_scratch [silences]: "early r \<Longrightarrow> silent (\<lambda>w. case f (wk_world w) of (Inl e, s) \<Rightarrow> (Return r, w\<lparr>wk_world := s\<rparr>)
    | (Inr t, s) \<Rightarrow> (Next t, w\<lparr>wk_world := s\<rparr>))"
  by (auto simp: silent_def split: prod.splits sum.splits)

lemma early_consume: "consume_bindings refs cs outputs acc = Inl r \<Longrightarrow> early r"
  by (induction refs cs outputs acc rule: consume_bindings.induct) (auto split: if_splits pyval.splits option.splits)

lemma early_tokens: "token_bindings refs slots rules omitted acc = Inl r \<Longrightarrow> early r"
  by (induction refs slots rules omitted acc rule: token_bindings.induct) (auto split: if_splits option.splits)

lemma early_node_bindings: "node_bindings n vals rules outputs omitted = Inl r \<Longrightarrow> early r"
  by (auto simp: node_bindings_def Let_def split: sum.splits dest: early_consume early_tokens)

lemma early_tables: "node_table_bindings cs m acc = Inl r \<Longrightarrow> early r"
  by (induction cs m acc rule: node_table_bindings.induct) (auto split: option.splits)

lemma silent_slots [silences]: "silent (resolve_all_slots env bp slots)"
proof -
  have one: "silent (resolve_one_slot env bp slots refs sp maps)" for refs sp maps
    unfolding resolve_one_slot_def slot_domain_def probe_domain_def Let_def by (intro silences | simp)+
  have "silent (resolve_slots env bp slots refs sps maps)" for refs sps maps
    by (induction sps arbitrary: maps) (auto intro!: silences one)
  then show ?thesis unfolding resolve_all_slots_def by (intro silences)
qed

lemma silent_rules [silences]: "silent (expand_rules env bp raws acc)"
  by (induction raws arbitrary: acc) (simp_all, (intro silences | simp)+)

lemma silent_query [silences]: "silent (query_node env bp maps rules consumed n)"
proof -
  have "silent (bind_node env maps rules n)"
    unfolding bind_node_def
    by (intro silences) (auto intro: silences dest: early_node_bindings early_tables split: exc.split)
  then show ?thesis
    unfolding query_node_def keep_table_def keep_scalar_def materialize_node_def skip_node_def Let_def
    by (intro silences | simp)+
qed

lemma silent_walk [silences]: "silent (walk_nodes env bp slots maps rules consumed awaiting answer ns)"
proof -
  have "silent (when_gate env bp slots awaiting answer n)" for n
    unfolding when_gate_def skip_node_def Let_def by (intro silences | simp)+ (auto intro!: silences split: exc.split)
  then have "silent (walk_node env bp slots maps rules consumed awaiting answer n)" for n
    unfolding walk_node_def approval_gate_def by (intro silences | simp)+
  then show ?thesis by (induction ns) (auto intro!: silences)
qed

lemma verify_node_sound:
  assumes "verify_node env bp template sql full w = (Next (Some vo), w')" and "vo_passed vo"
  shows "vo_grain_ok vo \<and> vo_signature_ok vo \<and> (vo_grain_checked vo \<longleftrightarrow> rg_columns (bp_grain bp) \<noteq> [] \<and> rg_verifiable (bp_grain bp))"
proof -
  obtain n d columns where "vo = verify_result (bp_grain bp) n d columns None"
    using assms(1)
    by (auto simp: verify_node_def Let_def and_then_def pure_def lift_def dispatch_sql_def add_provs_def modify_def
      split: if_splits option.splits prod.splits flow.splits sum.splits)
  then show ?thesis using assms(2) by (auto simp: verify_result_def check_signature_def Let_def split: if_splits option.splits)
qed

lemma stamp_other: "k \<notin> {''window_anchor'', ''window_start'', ''window_end''} \<Longrightarrow>
    getv (stamp_window_anchor sg d bp template q) k = getv d k"
  by (auto simp: stamp_window_anchor_def getv_def Let_def split: option.splits)

lemma finalize_completes:
  assumes "finalize env bp (template, sql, full) w = (Next (ExecCompleted c), w')"
  obtains w1 w2 vo where "verify_node env bp template sql full w1 = (Next (Some vo), w2)" and "vo_passed vo"
    and "ec_provenance c = union_provenance (wk_provs w2)"
    and "ec_result_full c = stamp_window_anchor (ee_glot env)
          (result_document env bp (wk_sqls w2) sql (unpack_result full) vo) bp template (unpack_result full)"
    and "prefix (wk_provs w) (wk_provs w1)"
proof -
  define w1 where "w1 = snd (observe ''blueprint_step'' [(''blueprint_id'', PStr (bp_id bp)), (''step'', PStr ''verifying'')] w)"
  obtain vo w2 where v: "verify_node env bp template sql full w1 = (Next (Some vo), w2)" "vo_passed vo"
    and c: "ec_provenance c = union_provenance (wk_provs w2)"
      "ec_result_full c = stamp_window_anchor (ee_glot env)
          (result_document env bp (wk_sqls w2) sql (unpack_result full) vo) bp template (unpack_result full)"
    using assms
    by (auto simp: finalize_def and_then_def observe_def modify_def w1_def return_def pure_def lift_def read_def Let_def
      split: prod.splits flow.splits option.splits if_splits sum.splits)
  have "prefix (wk_provs w) (wk_provs w1)" by (simp add: w1_def observe_def modify_def)
  with v c show thesis using that by blast
qed

lemma silent_outcome:
  "silent m \<Longrightarrow> outcome_of (m w) = Inr (ExecCompleted c) \<Longrightarrow> \<exists>w'. m w = (Next (ExecCompleted c), w')"
  by (cases "m w") (auto simp: outcome_of_def silent_def split: flow.splits, metis fst_conv)

lemma silent_finalize [silences]: "silent (finalize env bp t)"
  unfolding finalize_def verify_node_def Let_def by (intro silences | simp)+

lemma silent_dag: "silent (execute_dag env bp slots completed awaiting answer)"
  unfolding execute_dag_def seed_walk_def Let_def by (intro silences | simp)+

lemma dag_completes:
  assumes "outcome_of (execute_dag env bp slots completed awaiting answer w) = Inr (ExecCompleted c)"
  shows "\<exists>maps rules topo u v v' t w'. seed_walk completed u = (Next (), v) \<and>
    walk_nodes env bp slots maps rules (table_consumed_orders (bp_composes bp)) awaiting answer topo v = (Next (), v') \<and>
    finalize env bp t v' = (Next (ExecCompleted c), w')"
proof -
  obtain w' where "execute_dag env bp slots completed awaiting answer w = (Next (ExecCompleted c), w')"
    using silent_outcome[OF silent_dag assms] by blast
  then obtain topo where "and_then (resolve_all_slots env bp slots) (\<lambda>maps.
         and_then (expand_rules env bp (bp_rules bp) []) (\<lambda>rules.
         and_then (seed_walk completed) (\<lambda>_.
         and_then (walk_nodes env bp slots maps rules (table_consumed_orders (bp_composes bp)) awaiting answer topo) (\<lambda>_.
         and_then (read wk_terminal) (\<lambda>terminal. case terminal of
           None \<Rightarrow> return aborted
         | Some t \<Rightarrow> finalize env bp t))))) w = (Next (ExecCompleted c), w')"
    by (auto simp: execute_dag_def Let_def return_def split: option.splits if_splits)
  then show ?thesis
    by (auto simp: and_then_next return_def read_def split: option.splits) blast
qed

text \<open>
  C11: there is no silent path to an answer: a run, fresh or resumed, completes only with a result
  that the gate passed for its last query, the result names that query, it carries the verified
  marker, and the row-count check ran exactly when the blueprint declares a verifiable grain.
\<close>

theorem answers_are_verified:
  assumes "outcome_of (execute_dag env bp slots completed awaiting answer w) = Inr (ExecCompleted c)"
  shows "is_verified_blueprint_result (PDict (ec_result_full c)) \<and>
    (\<exists>template sql full vo w1 w2. verify_node env bp template sql full w1 = (Next (Some vo), w2) \<and> vo_passed vo \<and>
      getv (ec_result_full c) ''terminal_sql'' = PStr sql \<and>
      (vo_grain_checked vo \<longleftrightarrow> rg_columns (bp_grain bp) \<noteq> [] \<and> rg_verifiable (bp_grain bp)))"
proof -
  obtain t v' w' where "finalize env bp t v' = (Next (ExecCompleted c), w')"
    using dag_completes[OF assms] by blast
  moreover obtain template sql full where "t = (template, sql, full)" by (cases t)
  ultimately obtain w1 w2 vo where v: "verify_node env bp template sql full w1 = (Next (Some vo), w2)" "vo_passed vo"
    and doc: "ec_result_full c = stamp_window_anchor (ee_glot env)
      (result_document env bp (wk_sqls w2) sql (unpack_result full) vo) bp template (unpack_result full)"
    by (auto elim: finalize_completes)
  note ok = verify_node_sound[OF v]
  have fields: "getv (ec_result_full c) ''verify'' = PDict (verify_block vo (qr_row_count (unpack_result full)))"
    "getv (ec_result_full c) ''status'' = PStr ''verified''" "getv (ec_result_full c) ''terminal_sql'' = PStr sql"
    by (simp_all add: doc stamp_other result_document_def) (simp_all add: getv_def)
  have truths: "py_truthy (getv (verify_block vo n) ''grain_ok'')" "py_truthy (getv (verify_block vo n) ''signature_ok'')" for n
    using ok by (simp_all add: verify_block_def Let_def getv_def)
  have "is_verified_blueprint_result (PDict (ec_result_full c))"
    by (simp add: is_verified_blueprint_result_def dict_at_def fields truths)
  moreover have "vo_grain_checked vo \<longleftrightarrow> rg_columns (bp_grain bp) \<noteq> [] \<and> rg_verifiable (bp_grain bp)"
    using ok by blast
  ultimately show ?thesis using v fields(3) by blast
qed

end
