(* ===== verification/BlueprintRuns.thy ===== *)
theory BlueprintRuns
  imports BlueprintExecFacts
begin

text \<open>
  The footprint of an answer, the checkpoint of a pause, and concrete runs: the provenance of the
  nodes completed before a pause is part of the answer's, and a checkpoint reads back.
\<close>

section \<open>Footprints\<close>

definition grows :: "'w walk_state \<Rightarrow> 'w walk_state \<Rightarrow> bool" where
  "grows w w' \<longleftrightarrow> prefix (wk_provs w) (wk_provs w')"

interpretation grows: node_relation grows k for k
  by unfold_locales (auto simp: grows_def)

lemma grows_observe: "preserves grows (observe n d)"
  by (simp add: preserves_def grows_def observe_def modify_def)

lemma grows_query: "preserves grows (query_node env bp maps rules consumed n)"
  unfolding query_node_def
  by (intro grows.node_rules grows.skip_node[OF refl] grows.bind_node grows_observe grows.keep_table[OF refl] grows.keep_scalar[OF refl])

lemma grows_walk: "preserves grows (walk_nodes env bp slots maps rules consumed awaiting answer ns)"
proof -
  have "preserves grows (walk_node env bp slots maps rules consumed awaiting answer n)" for n
    unfolding walk_node_def by (intro grows.run_rules grows.when_gate[OF refl] grows.approval_gate[OF refl] grows_query)
  then show ?thesis by (induction ns) (auto intro!: grows.rules)
qed

lemma union_provenance_none: "None \<in> set ps \<Longrightarrow> union_provenance ps = None"
  by (simp add: union_provenance_def)

lemma union_fold:
  "fset (fold (\<lambda>p acc. acc |\<union>| ffilter (\<lambda>(t, c). \<not> prefix ''scratch.'' t) (case p of Some s \<Rightarrow> s | None \<Rightarrow> {||})) ps acc) =
     fset acc \<union> {x. \<exists>p. Some p \<in> set ps \<and> x \<in> fset p \<and> \<not> prefix ''scratch.'' (fst x)}"
proof (induction ps arbitrary: acc)
  case (Cons p ps)
  then show ?case by (cases p) (auto simp: case_prod_beta)
qed simp

lemma union_provenance_some:
  "union_provenance ps = Some u \<Longrightarrow> None \<notin> set ps \<and>
     fset u = {x. \<exists>p. Some p \<in> set ps \<and> x \<in> fset p \<and> \<not> prefix ''scratch.'' (fst x)}"
  by (auto simp: union_provenance_def union_fold split: if_splits)

lemma union_provenance_contains:
  assumes "q \<in> set ps"
  shows "case union_provenance ps of
      None \<Rightarrow> True
    | Some u \<Rightarrow> \<exists>p. q = Some p \<and> {x \<in> fset p. \<not> prefix ''scratch.'' (fst x)} \<subseteq> fset u"
proof (cases "union_provenance ps")
  case (Some u)
  note u = union_provenance_some[OF Some]
  then obtain p where q: "q = Some p" using assms by (cases q) auto
  then have "{x \<in> fset p. \<not> prefix ''scratch.'' (fst x)} \<subseteq> fset u" using u assms by blast
  then show ?thesis using Some q by simp
qed simp

text \<open>
  C27: an answer drops out of replay unless everything it rests on is known and in it: when a
  resumed run completes, the footprint of every node that ran before the pause is contained in
  the answer's provenance, up to scratch tables, and one undetermined footprint makes the
  answer's undetermined.
\<close>

theorem resumed_answer_carries_footprint:
  assumes "outcome_of (execute_dag env bp slots completed awaiting answer w) = Inr (ExecCompleted c)"
    and "(n, r) \<in> set completed"
  shows "case ec_provenance c of
      None \<Rightarrow> True
    | Some u \<Rightarrow> \<exists>p. nr_provenance r = Some p \<and> {x \<in> fset p. \<not> prefix ''scratch.'' (fst x)} \<subseteq> fset u"
proof -
  obtain v v' t w' where seed: "\<exists>u. seed_walk completed u = (Next (), v)"
    and walk: "\<exists>maps rules topo. walk_nodes env bp slots maps rules (table_consumed_orders (bp_composes bp)) awaiting answer topo v = (Next (), v')"
    and fin: "finalize env bp t v' = (Next (ExecCompleted c), w')"
    using dag_completes[OF assms(1)] by metis
  obtain template sql full where t: "t = (template, sql, full)" by (cases t)
  obtain w1 w2 vo where f: "verify_node env bp template sql full w1 = (Next (Some vo), w2)"
      "ec_provenance c = union_provenance (wk_provs w2)" "prefix (wk_provs v') (wk_provs w1)"
    using fin unfolding t by (elim finalize_completes)
  have "nr_provenance r \<in> set (wk_provs v)"
    using seed assms(2) by (force simp: seed_walk_def modify_def)
  moreover have "prefix (wk_provs v) (wk_provs v')"
    using walk grows_walk unfolding preserves_def grows_def by (metis snd_conv)
  moreover have "prefix (wk_provs w1) (wk_provs w2)"
    using f(1) grows.verify_node unfolding preserves_def grows_def by (metis snd_conv)
  ultimately have "nr_provenance r \<in> set (wk_provs w2)"
    using f(3) set_mono_prefix by blast
  then show ?thesis by (simp only: f(2)) (rule union_provenance_contains)
qed

section \<open>The checkpoint\<close>

definition sorted_items :: "pydict \<Rightarrow> pydict" where
  "sorted_items d = sort_key fst (map (map_prod id sort_dicts) d)"

lemma sort_dicts_strings: "map sort_dicts (map (\<lambda>(t, c). PList [PStr t, PStr c]) xs) = map (\<lambda>(t, c). PList [PStr t, PStr c]) xs"
  by (induction xs) auto

lemma json_pairs_back: "json_pairs (map (\<lambda>(t, c). PList [PStr t, PStr c]) xs) = Some xs"
  by (induction xs) (auto simp: py_str_def)

lemma prov_json_back: "prov_from_jsonable (sort_dicts (prov_to_jsonable p)) = p"
  by (auto simp: prov_from_jsonable_def prov_to_jsonable_def sort_dicts_strings json_pairs_back simp del: map_map split: option.splits)

lemma completed_entry_back:
  "rehydrate_entry (sort_dicts (completed_entry (n, r))) acc = dset n (r\<lparr>nr_output := sorted_items (nr_output r)\<rparr>) acc"
proof -
  have sorted: "sort_dicts (completed_entry (n, r)) = PDict [(''order'', PInt n),
      (''output'', PDict (sorted_items (nr_output r))), (''provenance'', sort_dicts (prov_to_jsonable (nr_provenance r))),
      (''sql'', opt_str (nr_sql r))]"
    by (cases "nr_sql r") (simp_all add: completed_entry_def sorted_items_def sort_key_def insort_key.simps)
  show ?thesis
    by (cases "nr_sql r"; simp add: sorted rehydrate_entry_def getv_def prov_json_back; cases r; simp)
qed

lemma fold_dset: "distinct (map fst xs) \<Longrightarrow>
    dget (fold (\<lambda>(n, r). dset n (g r)) xs acc) k = (case dget xs k of Some r \<Rightarrow> Some (g r) | None \<Rightarrow> dget acc k)"
proof (induction xs arbitrary: acc)
  case (Cons x xs)
  then show ?case by (cases x) (auto simp: map_of_eq_None_iff[THEN iffD2] split: option.splits dest: map_of_SomeD)
qed simp

text \<open>
  C28: the checkpoint of a pause reads back: under the JSON reader's law that the written text gives
  back the written value (its objects in the written, sorted key order), resuming sees for every
  node the record it had, its provenance and its query unchanged and its outputs with sorted keys,
  and no other node.
\<close>

theorem checkpoint_reads_back:
  assumes "loads (json_dumps_sorted (PList (map completed_entry (sort_key fst running)))) =
      Some (sort_dicts (PList (map completed_entry (sort_key fst running))))"
    and "distinct (map fst running)"
  shows "dget (rehydrate_completed loads (dumps_completed running)) k =
     map_option (\<lambda>r. r\<lparr>nr_output := sorted_items (nr_output r)\<rparr>) (dget running k)"
proof -
  let ?xs = "sort_key fst running"
  have written: "json_dumps_sorted (PList (map completed_entry ?xs)) \<noteq> []"
    by (simp add: json_dumps_sorted_def)
  have "fold rehydrate_entry (map (sort_dicts \<circ> completed_entry) ?xs) [] =
      fold (\<lambda>(n, r). dset n (r\<lparr>nr_output := sorted_items (nr_output r)\<rparr>)) ?xs []"
    by (simp add: fold_map comp_def) (rule fold_cong, auto simp: completed_entry_back)
  moreover have "distinct (map fst ?xs)"
    using assms(2) by (metis distinct_map distinct_sort set_sort)
  moreover have "dget ?xs k = dget running k"
    using assms(2) calculation(2) by (metis map_of_inject_set set_sort)
  ultimately show ?thesis
    using assms(1) written
    by (simp add: rehydrate_completed_def dumps_completed_def fold_dset del: fold_simps split: option.splits)
qed

section \<open>A paused and resumed run\<close>

text \<open>
  Two nodes: a query without a template, completed before the pause, and an approval node with the
  sample template, which the user approved.
\<close>

definition sample_node :: "int \<Rightarrow> string \<Rightarrow> string option \<Rightarrow> node" where
  "sample_node n kind template = \<lparr>nd_order = n, nd_kind = kind, nd_feeds_from = (if n = 0 then [] else [0]), nd_consumes = [],
     nd_output = [], nd_template = template, nd_when = None, nd_approval = None\<rparr>"

definition sample_bp :: blueprint where
  "sample_bp = \<lparr>bp_id = ''bp'', bp_intent = ''total by region'', bp_resolves = [], bp_slots = [\<lparr>sl_name = ''region'',
       sl_type = ''string'', sl_required = True, sl_binds_to = None, sl_enum_values = Some [''N''], sl_optional_pattern = None,
       sl_min_value = None, sl_max_value = None\<rparr>],
     bp_rules = [], bp_template = None,
     bp_composes = [sample_node 0 ''query'' None, sample_node 1 ''approval'' (Some region_template)],
     bp_grain = \<lparr>rg_columns = [], rg_verifiable = False\<rparr>, bp_anchor = None\<rparr>"

definition sample_env :: "nat exec_env" where
  "sample_env = \<lparr>ee_glot = sample_glot, ee_when = (\<lambda>e. None), ee_rat = (\<lambda>s. 0), ee_loads = (\<lambda>s. None),
     ee_dispatch = (\<lambda>sql limit s. (\<lparr>tr_status = ''ok'', tr_tool_name = ''runQuery'', tr_error_code = None, tr_retryable = None,
       tr_user_message = None, tr_provenance = Some {||}, tr_result_preview = None,
       tr_result_full = PDict [(''columns'', PList [PStr ''total'']), (''rows'', PList [PList [PInt 7]])],
       tr_authoritative = False, tr_denial_detail = None, tr_window_note = None\<rparr>, s + 1)),
     ee_get_blueprint = (\<lambda>i s. (None, s)), ee_resolve = None, ee_scratch = None, ee_probe_sql = (\<lambda>t c. []),
     ee_preview_other = (\<lambda>v. \<lparr>rp_columns = [], rp_row_count = 0, rp_truncated = False, rp_preview_rows = []\<rparr>),
     ee_round = id, ee_gap = 0, ee_confidence = 0, ee_scope = {||}, ee_query_limit = None, ee_preview_rows = 5,
     ee_max_rows = 100, ee_max_columns = 10\<rparr>"

definition sample_completed :: "(int, node_record) dict" where
  "sample_completed = [(0, \<lparr>nr_output = [(''m'', PInt 3), (''k'', PNone)], nr_provenance = Some {|(''t'', ''m'')|}, nr_sql = Some ''Q''\<rparr>)]"

definition paused_run :: "(exec_outcome, exec_outcome) flow \<times> nat walk_state" where
  "paused_run = execute_dag sample_env sample_bp [(''region'', PStr ''N'')] sample_completed (Some 1) (Some ''Yes, go ahead'') (start 0)"

lemma sample_completes: "\<exists>c. outcome_of paused_run = Inr (ExecCompleted c)"
proof -
  have "(case outcome_of paused_run of Inr (ExecCompleted c) \<Rightarrow> True | _ \<Rightarrow> False)" by code_simp
  then show ?thesis by (auto split: sum.splits exec_outcome.splits)
qed

theorem answers_are_verified_witness:
  "\<exists>c. outcome_of paused_run = Inr (ExecCompleted c) \<and> is_verified_blueprint_result (PDict (ec_result_full c))"
proof -
  obtain c where c: "outcome_of paused_run = Inr (ExecCompleted c)" using sample_completes by blast
  show ?thesis using answers_are_verified[OF c[unfolded paused_run_def]] c by blast
qed

theorem resumed_answer_carries_footprint_witness:
  "\<exists>c. outcome_of paused_run = Inr (ExecCompleted c) \<and> (ec_provenance c = None \<or> (\<exists>u. ec_provenance c = Some u \<and> (''t'', ''m'') |\<in>| u))"
proof -
  obtain c where c: "outcome_of paused_run = Inr (ExecCompleted c)" using sample_completes by blast
  have "(0, snd (hd sample_completed)) \<in> set sample_completed" by (simp add: sample_completed_def)
  from resumed_answer_carries_footprint[OF c[unfolded paused_run_def] this]
  have "ec_provenance c = None \<or> (\<exists>u. ec_provenance c = Some u \<and> (''t'', ''m'') |\<in>| u)"
    by (auto simp: sample_completed_def split: option.splits)
  then show ?thesis using c by blast
qed

definition sample_loads :: "string \<Rightarrow> pyval option" where
  "sample_loads s = (let es = PList (map completed_entry (sort_key fst sample_completed)) in
     if s = json_dumps_sorted es then Some (sort_dicts es) else None)"

theorem checkpoint_reads_back_witness:
  "dget (rehydrate_completed sample_loads (dumps_completed sample_completed)) 0 =
     Some \<lparr>nr_output = [(''k'', PNone), (''m'', PInt 3)], nr_provenance = Some {|(''t'', ''m'')|}, nr_sql = Some ''Q''\<rparr>"
proof -
  have "distinct (map fst sample_completed)" by (simp add: sample_completed_def)
  with checkpoint_reads_back[of sample_loads sample_completed 0] show ?thesis
    by (simp add: sample_loads_def Let_def) (simp add: sample_completed_def sorted_items_def sort_key_def insort_key.simps)
qed

section \<open>What a pause changes\<close>

text \<open>
  A completed node without a non-null scalar, such as a table node whose query returned rows, is
  back with a row count of 0: the rehydrated count is 1 exactly when a recorded scalar is not null.
\<close>

lemma rehydrated_count:
  "load_completed_into_outputs [(n, r)] [] = fold (\<lambda>(k, v). dset (ref_field n k) v) (nr_output r)
     [(ref_key n, PDict [(''row_count'', PInt (if \<exists>k v. (k, v) \<in> set (nr_output r) \<and> v \<noteq> PNone then 1 else 0)), (''rows'', PList [])])]"
  by (auto simp: load_completed_into_outputs_def list_ex_iff)

lemma rehydrated_rows_lost:
  "getv (load_completed_into_outputs [(0, \<lparr>nr_output = [], nr_provenance = None, nr_sql = Some ''SELECT 1''\<rparr>)] []) ''$0'' =
     PDict [(''row_count'', PInt 0), (''rows'', PList [])]"
  by code_simp

text \<open>A consent whose text contains one of the negative words, here the \<^verbatim>\<open>no\<close> of \<^verbatim>\<open>now\<close>, denies.\<close>

lemma consent_denied: "approval_decision (Some ''yes, continue now'') = Deny"
  by code_simp

end
