(* ===== verification/AnalysisLedger.thy ===== *)
theory AnalysisLedger
  imports AnswerTables SessionStore
begin

text \<open>
  The \<^verbatim>\<open>updateAnalysisState\<close> tool of \<^verbatim>\<open>runtime/composite/analysis_state.py\<close>: the evidence
  validators over the trail, the call-time intent tag, the resolution of an intent's evidence
  (tag first, backstop second), the two payload shapes, the merge by id and the tool itself with
  its envelope. A rejection is the exception \<open>AnalysisStateRejectedError\<close> with its reason and its
  model-facing text.
\<close>

section \<open>Constants\<close>

definition UPDATE_TOOL_NAME :: string where
  "UPDATE_TOOL_NAME = ''updateAnalysisState''"

definition ANALYSIS_STATE_INVALID_CODE :: string where
  "ANALYSIS_STATE_INVALID_CODE = ''ANALYSIS_STATE_INVALID''"

definition ANALYSIS_STATE_LATE_INIT_CODE :: string where
  "ANALYSIS_STATE_LATE_INIT_CODE = ''ANALYSIS_STATE_LATE_INIT''"

definition ALREADY_SERVED_CODE :: string where
  "ALREADY_SERVED_CODE = ''IDEMPOTENT_READ_ALREADY_SERVED''"

definition MAX_DESCRIPTION_CHARS :: nat where
  "MAX_DESCRIPTION_CHARS = 500"

definition MAX_STATE_CALLS :: nat where
  "MAX_STATE_CALLS = 2"

definition SUBSTANTIVE_TOOLS :: "string list" where
  "SUBSTANTIVE_TOOLS = [''runQuery'', ''runBlueprint'', ''sampleRows'', ''resolveValues'']"

definition COMPLETION_EVIDENCE_TOOLS :: "string list" where
  "COMPLETION_EVIDENCE_TOOLS = [''runQuery'', ''runBlueprint'', ''getTableSchema'']"

definition SERVES_INTENT_ARG :: string where
  "SERVES_INTENT_ARG = ''serves_intent''"

definition NO_ACCESS_ERROR_CODES :: "string list" where
  "NO_ACCESS_ERROR_CODES = [''COLUMN_SCOPE_VIOLATION'', ''SCRATCH_SESSION_VIOLATION'']"

definition DERIVABLE_REASON_CODES :: "string list" where
  "DERIVABLE_REASON_CODES = sort MODEL_REASON_CODES"

definition TAGGED :: string where
  "TAGGED = ''tagged''"

definition AUTO_BOUND :: string where
  "AUTO_BOUND = ''auto_bound''"

section \<open>Evidence validators\<close>

text \<open>A validator answers \<open>None\<close> when the call is acceptable, otherwise the reason.\<close>

definition find_entry :: "string \<Rightarrow> trail_entry list \<Rightarrow> int \<Rightarrow> trail_entry option" where
  "find_entry tid trail ti = find (\<lambda>e. te_tool_call_id e = tid \<and> te_turn_index e = ti) trail"

definition missing_entry_reason :: "string \<Rightarrow> trail_entry list \<Rightarrow> int \<Rightarrow> string" where
  "missing_entry_reason tid trail ti =
     (if \<exists>e \<in> set trail. te_tool_call_id e = tid
      then ''tool call '' @ quoted tid @ '' belongs to an earlier turn, not this one. '' @
        ''Evidence must come from a call made while answering the current question.''
      else ''no tool call '' @ quoted tid @ '' has been dispatched yet on this turn. If you '' @
        ''are citing a call you made in this same message, it has not run yet '' @ em_dash @ '' state '' @
        ''updates are dispatched before everything else, so cite it in your NEXT '' @
        ''message. If you did not make that call, the id is unknown: cite a call that '' @
        ''actually ran.'')"

definition find_deduped_original_id :: "trail_entry \<Rightarrow> trail_entry list \<Rightarrow> string option" where
  "find_deduped_original_id e trail =
     (let sig = idempotent_read_signature (te_tool_name e) (te_args e)
      in map_option te_tool_call_id (find (\<lambda>c.
           te_turn_index c = te_turn_index e \<and> te_status c = ''ok'' \<and>
           te_error_code c \<noteq> Some ALREADY_SERVED_CODE \<and> te_tool_name c = te_tool_name e \<and>
           idempotent_read_signature (te_tool_name c) (te_args c) = sig) trail))"

definition deduped_original_reason :: "trail_entry \<Rightarrow> trail_entry list \<Rightarrow> string" where
  "deduped_original_reason e trail = (case find_deduped_original_id e trail of
     Some original \<Rightarrow>
       ''tool call '' @ quoted (te_tool_call_id e) @ '' was a duplicate read that was not '' @
       ''re-dispatched, so it fetched nothing. Cite '' @ quoted original @ '' '' @ em_dash @ '' the call '' @
       ''that actually served this result.''
   | None \<Rightarrow>
       ''tool call '' @ quoted (te_tool_call_id e) @ '' was a duplicate read that was not '' @
       ''re-dispatched, so it fetched nothing. Cite the earlier call that actually '' @
       ''served this result.'')"

definition validate_completion_evidence :: "string \<Rightarrow> trail_entry list \<Rightarrow> int \<Rightarrow> string option" where
  "validate_completion_evidence tid trail ti =
     (if py_strip tid = [] then Some ''a tool call id is required to complete an intent.''
      else case find_entry tid trail ti of
        None \<Rightarrow> Some (missing_entry_reason tid trail ti)
      | Some e \<Rightarrow>
          (if te_status e \<noteq> ''ok''
           then Some (''tool call '' @ quoted tid @ '' did not succeed (status='' @ te_status e @ ''). '' @
             ''Completing an intent needs a successful call; a failed one can only '' @
             ''support a blocked intent.'')
           else if te_tool_name e \<notin> set COMPLETION_EVIDENCE_TOOLS
           then Some (''a '' @ te_tool_name e @ '' result is not evidence that an intent was answered. '' @
             ''Cite a runQuery, a verified runBlueprint, or a getTableSchema.'')
           else if te_tool_name e = ''runBlueprint'' \<and> \<not> te_authoritative e
           then Some (''blueprint run '' @ quoted tid @ '' did not pass verification, so it is not '' @
             ''an authoritative answer. Re-run it or answer from the raw tools.'')
           else if te_error_code e = Some ALREADY_SERVED_CODE
           then Some (deduped_original_reason e trail)
           else None))"

definition opt_text :: "string option \<Rightarrow> string" where
  "opt_text x = (case x of None \<Rightarrow> ''None'' | Some s \<Rightarrow> s)"

definition validate_block_evidence :: "string \<Rightarrow> string \<Rightarrow> trail_entry list \<Rightarrow> int \<Rightarrow> string option" where
  "validate_block_evidence tid reason_code trail ti =
     (if reason_code \<notin> set MODEL_REASON_CODES
      then Some (quoted reason_code @ '' is not a reason you may declare. Block an intent only as '' @
        join '' or '' (sort MODEL_REASON_CODES) @ '', each backed by the call that '' @ ''shows it.'')
      else if py_strip tid = [] then Some ''a tool call id is required to block an intent.''
      else case find_entry tid trail ti of
        None \<Rightarrow> Some (missing_entry_reason tid trail ti)
      | Some e \<Rightarrow>
          (if reason_code = ''NO_ACCESS'' then
             (if te_status e = ''ok''
              then Some (''tool call '' @ quoted tid @ '' succeeded, so it does not show that access '' @ ''was denied.'')
              else if (case te_error_code e of None \<Rightarrow> True | Some c \<Rightarrow> c \<notin> set NO_ACCESS_ERROR_CODES)
              then Some (''tool call '' @ quoted tid @ '' failed with '' @ opt_text (te_error_code e) @
                '', which is not '' @ ''an access denial '' @ em_dash @ '' it is a call you can correct and retry. NO_ACCESS '' @
                ''needs a call refused for permissions.'')
              else None)
           else if te_status e \<noteq> ''ok''
           then Some (''tool call '' @ quoted tid @ '' did not succeed, so it does not show that the '' @
             ''data is absent. REQUIRED_DATA_UNAVAILABLE needs a successful query that '' @ ''returned no rows.'')
           else if te_error_code e = Some ALREADY_SERVED_CODE then Some (deduped_original_reason e trail)
           else case te_result_preview e of
             None \<Rightarrow> Some (''tool call '' @ quoted tid @ '' returned no result at all, so it cannot show '' @
               ''that the data is absent.'')
           | Some p \<Rightarrow>
               (if rp_row_count p \<noteq> 0
                then Some (''tool call '' @ quoted tid @ '' returned '' @ show_int (rp_row_count p) @
                  '' row(s), so the data is not unavailable.'')
                else None)))"

definition classify_block_evidence :: "string \<Rightarrow> trail_entry list \<Rightarrow> int \<Rightarrow> string option" where
  "classify_block_evidence tid trail ti =
     find (\<lambda>code. validate_block_evidence tid code trail ti = None) DERIVABLE_REASON_CODES"

section \<open>The call-time tag\<close>

fun carries_no_information :: "pyval \<Rightarrow> bool" where
  "carries_no_information PNone = True"
| "carries_no_information (PStr s) = (py_strip s = [])"
| "carries_no_information _ = False"

text \<open>The arguments less the tag, the tag, and why a tag was dropped.\<close>

definition split_serves_intent :: "string \<Rightarrow> pyval \<Rightarrow> analysis_state option \<Rightarrow>
    pyval \<times> string option \<times> string option" where
  "split_serves_intent tool arguments live = (case arguments of
     PDict kvs \<Rightarrow>
       (if tool \<notin> set COMPLETION_EVIDENCE_TOOLS then (arguments, None, None)
        else case dget kvs SERVES_INTENT_ARG of
          None \<Rightarrow> (arguments, None, None)
        | Some raw \<Rightarrow>
            (let cleaned = PDict (filter (\<lambda>(k, v). k \<noteq> SERVES_INTENT_ARG) kvs)
             in if carries_no_information raw then (cleaned, None, None)
                else case raw of
                  PStr s \<Rightarrow>
                    (case live of
                       None \<Rightarrow> (cleaned, None, Some ''no_live_state'')
                     | Some a \<Rightarrow>
                         (if py_strip s \<notin> set (map ti_intent_id (as_intents a))
                          then (cleaned, None, Some ''unknown_intent_id'')
                          else (cleaned, Some (py_strip s), None)))
                | _ \<Rightarrow> (cleaned, None, Some ''not_a_string'')))
   | _ \<Rightarrow> (arguments, None, None))"

definition tagged_entries :: "string \<Rightarrow> trail_entry list \<Rightarrow> int \<Rightarrow> trail_entry list" where
  "tagged_entries iid trail ti =
     filter (\<lambda>e. te_turn_index e = ti \<and> te_serves_intent e = Some iid) trail"

definition or_empty :: "string option \<Rightarrow> string" where
  "or_empty x = (case x of None \<Rightarrow> [] | Some s \<Rightarrow> s)"

definition tagged_failure_reason :: "trail_entry \<Rightarrow> string \<Rightarrow> trail_entry list \<Rightarrow> int \<Rightarrow> string" where
  "tagged_failure_reason e status trail ti =
     (if status = ''completed'' then or_empty (validate_completion_evidence (te_tool_call_id e) trail ti)
      else or_empty (validate_block_evidence (te_tool_call_id e)
        (if te_status e \<noteq> ''ok'' then ''NO_ACCESS'' else ''REQUIRED_DATA_UNAVAILABLE'') trail ti))"

definition auto_bind_candidates :: "string \<Rightarrow> trail_entry list \<Rightarrow> int \<Rightarrow> trail_entry list" where
  "auto_bind_candidates status trail ti =
     (if status = ''completed''
      then filter (\<lambda>e. te_turn_index e = ti \<and> te_tool_name e \<in> set SUBSTANTIVE_TOOLS \<and>
             validate_completion_evidence (te_tool_call_id e) trail ti = None) trail
      else filter (\<lambda>e. te_turn_index e = ti \<and>
             (case classify_block_evidence (te_tool_call_id e) trail ti of
                None \<Rightarrow> False
              | Some derived \<Rightarrow> \<not> (derived = ''REQUIRED_DATA_UNAVAILABLE'' \<and>
                                    te_tool_name e \<notin> set SUBSTANTIVE_TOOLS))) trail)"

definition reject :: "string \<Rightarrow> string \<Rightarrow> 'a result" where
  "reject reason detail = Inl (AnalysisStateRejectedError reason detail)"

definition unbindable :: "string \<Rightarrow> string \<Rightarrow> trail_entry list \<Rightarrow> string \<times> string" where
  "unbindable iid status candidates =
     (if candidates \<noteq> []
      then (''ambiguous_evidence'',
        ''intent '' @ quoted iid @ '': no call on this turn is tagged for it, and more than '' @
        ''one call could have served it, so the runtime will not guess which. Tag the '' @
        ''call that served this intent with serves_intent='' @ quoted iid @ '' and mark it '' @
        status @ '' in your NEXT message.'')
      else if status = ''completed''
      then (''unresolved_evidence'',
        ''intent '' @ quoted iid @ '': no call on this turn is tagged for it and nothing this '' @
        ''turn answered it. Run the runQuery, runBlueprint or getTableSchema that '' @
        ''answers it with serves_intent='' @ quoted iid @ '', then mark it completed in your '' @
        ''NEXT message.'')
      else (''unresolved_evidence'',
        ''intent '' @ quoted iid @ '': no call on this turn is tagged for it, and nothing this '' @
        ''turn was refused for permissions or came back empty. Tag the call that shows why '' @
        ''it cannot be done with serves_intent='' @ quoted iid @ '' and mark it blocked in your '' @
        ''NEXT message.''))"

text \<open>Newest tagged call that qualifies, else the backstop's two rules, else a refusal.\<close>

fun newest_qualifying :: "string \<Rightarrow> trail_entry list \<Rightarrow> trail_entry list \<Rightarrow> int \<Rightarrow> (string \<times> string option) option" where
  "newest_qualifying status [] trail ti = None"
| "newest_qualifying status (e # es) trail ti =
     (if status = ''completed'' then
        (if validate_completion_evidence (te_tool_call_id e) trail ti = None
         then Some (te_tool_call_id e, None) else newest_qualifying status es trail ti)
      else case classify_block_evidence (te_tool_call_id e) trail ti of
        Some derived \<Rightarrow> Some (te_tool_call_id e, Some derived)
      | None \<Rightarrow> newest_qualifying status es trail ti)"

definition resolve_evidence :: "string \<Rightarrow> string \<Rightarrow> trail_entry list \<Rightarrow> int \<Rightarrow>
    (string \<times> string option \<times> string) result" where
  "resolve_evidence iid status trail ti =
     (let tagged = tagged_entries iid trail ti
      in if tagged \<noteq> [] then
           (case newest_qualifying status (rev tagged) trail ti of
              Some (tid, reason) \<Rightarrow> Inr (tid, reason, TAGGED)
            | None \<Rightarrow> reject ''unresolved_evidence''
                (''intent '' @ quoted iid @ '': the work you tagged for it does not support that. '' @
                 tagged_failure_reason (last tagged) status trail ti))
         else
           (let candidates = auto_bind_candidates status trail ti;
                untagged = filter (\<lambda>e. te_serves_intent e = None) candidates;
                bound = (\<lambda>e. Inr (te_tool_call_id e,
                  (if status = ''completed'' then None else classify_block_evidence (te_tool_call_id e) trail ti),
                  AUTO_BOUND))
            in (case untagged of
                  [e] \<Rightarrow> bound e
                | _ \<Rightarrow> (case candidates of
                     [e] \<Rightarrow> bound e
                   | _ \<Rightarrow> (case unbindable iid status candidates of (r, d) \<Rightarrow> reject r d)))))"

definition find_locking_tool :: "trail_entry list \<Rightarrow> int \<Rightarrow> string option" where
  "find_locking_tool trail ti = map_option te_tool_name
     (find (\<lambda>e. te_turn_index e = ti \<and> te_tool_name e \<in> set SUBSTANTIVE_TOOLS) trail)"

section \<open>The payload\<close>

definition TOP_LEVEL_KEYS :: "string list" where
  "TOP_LEVEL_KEYS = [''intents'']"

definition INIT_ITEM_KEYS :: "string list" where
  "INIT_ITEM_KEYS = [''description'']"

definition UPDATE_ITEM_KEYS :: "string list" where
  "UPDATE_ITEM_KEYS = [''intent_id'', ''status'']"

definition LEGACY_ITEM_KEYS :: "string list" where
  "LEGACY_ITEM_KEYS = [''evidence_tool_call_id'', ''reason_code'']"

definition KNOWN_ITEM_KEYS :: "string list" where
  "KNOWN_ITEM_KEYS = INIT_ITEM_KEYS @ UPDATE_ITEM_KEYS"

definition ENUM_ITEM_KEYS :: "string list" where
  "ENUM_ITEM_KEYS = [''status'']"

definition drop_legacy_fields :: "pydict list \<Rightarrow> pydict list" where
  "drop_legacy_fields items = map (filter (\<lambda>(k, v). k \<notin> set LEGACY_ITEM_KEYS)) items"

definition elide_empty_fields :: "pydict list \<Rightarrow> pydict list" where
  "elide_empty_fields items =
     map (filter (\<lambda>(k, v). \<not> (k \<in> set KNOWN_ITEM_KEYS \<and> carries_no_information v))) items"

text \<open>The keys of a dictionary outside an allowed set, sorted.\<close>

definition unknown_keys :: "pydict \<Rightarrow> string list \<Rightarrow> string list" where
  "unknown_keys d allowed = sort (remdups (filter (\<lambda>k. k \<notin> set allowed) (dkeys d)))"

definition declaration_fields :: "pydict \<Rightarrow> pydict result" where
  "declaration_fields item =
     (let status = getv item ''status''
      in if status \<noteq> PNone \<and> status \<noteq> PStr ''pending''
         then reject ''status_on_initialize''
           (''a newly declared intent cannot already be '' @ quoted (py_str status) @ '' '' @ em_dash @
            '' every intent starts '' @ ''pending. Declare them, then update their status by '' @
            quoted ''intent_id'' @ '' once you '' @ ''have the evidence.'')
         else Inr (filter (\<lambda>(k, v). k \<notin> set ENUM_ITEM_KEYS) item))"

fun dict_items :: "pyval \<Rightarrow> pydict" where
  "dict_items (PDict kvs) = kvs"
| "dict_items _ = []"

definition require_intent_items :: "pyval \<Rightarrow> pydict list result" where
  "require_intent_items model_args = (case model_args of
     PDict args \<Rightarrow>
       (let unknown = unknown_keys args TOP_LEVEL_KEYS
        in if unknown \<noteq> []
           then reject ''unknown_top_level_key'' (''unknown argument(s) '' @ repr_strs unknown @
             ''. updateAnalysisState takes only '' @ quoted ''intents'' @ ''.'')
           else case getv args ''intents'' of
             PList raw \<Rightarrow>
               (if \<not> list_all is_dict raw
                then reject ''malformed_arguments'' (quoted ''intents'' @ '' must be a list of objects.'')
                else if raw = []
                then reject ''empty_intents'' (quoted ''intents'' @ '' must contain at least one intent.'')
                else if MAX_INTENTS < length raw
                then reject ''too_many_intents'' (show_nat (length raw) @ '' intents were supplied but at most '' @
                  show_nat MAX_INTENTS @ '' may be tracked. '' @
                  ''Track the distinct deliverables the user asked for, not every sub-step.'')
                else Inr (elide_empty_fields (drop_legacy_fields (map dict_items raw))))
           | _ \<Rightarrow> reject ''malformed_arguments'' (quoted ''intents'' @ '' must be a list of objects.''))
   | _ \<Rightarrow> reject ''malformed_arguments''
       (''updateAnalysisState takes an object with one key, '' @ quoted ''intents'' @ ''.''))"

definition validate_initialize_item :: "pydict \<Rightarrow> string result" where
  "validate_initialize_item raw_item =
     rbind (declaration_fields raw_item) (\<lambda>item.
       let unknown = unknown_keys item INIT_ITEM_KEYS;
           missing = reject ''missing_description''
             (''every intent needs a non-empty '' @ quoted ''description'' @ '' '' @ em_dash @
              '' one short sentence naming '' @ ''the deliverable, in the user'' @ [CHR 0x27] @ ''s own terms.'')
       in if ''intent_id'' \<in> set unknown
          then reject ''model_supplied_intent_id''
            (''intent ids are assigned by the runtime '' @ em_dash @ '' do not supply '' @ quoted ''intent_id'' @
             '' when '' @ ''you first declare the intents. The result of this call tells you the ids.'')
          else if unknown \<noteq> []
          then reject ''unknown_item_key'' (''unknown field(s) '' @ repr_strs unknown @
            '' when declaring intents. Declaring an intent '' @ ''takes only '' @ quoted ''description'' @
            ''; statuses come in a later call, once you know '' @ ''the ids.'')
          else case getv item ''description'' of
            PStr s \<Rightarrow>
              (if py_strip s = [] then missing
               else if MAX_DESCRIPTION_CHARS < length (py_strip s)
               then reject ''description_too_long''
                 (''an intent description is '' @ show_nat (length (py_strip s)) @ '' characters; the limit is '' @
                  show_nat MAX_DESCRIPTION_CHARS @ ''. Shorten it '' @ em_dash @ '' one sentence naming the '' @
                  ''deliverable.'')
               else Inr (py_strip s))
          | _ \<Rightarrow> missing)"

definition validate_initialize_items :: "pydict list \<Rightarrow> string list result" where
  "validate_initialize_items items = mapM_r validate_initialize_item items"

record intent_update =
  iu_intent_id :: string
  iu_status :: string
  iu_evidence :: "string option"
  iu_reason_code :: "string option"

text \<open>A list or a dictionary as status is unhashable: the membership test itself raises.\<close>

definition check_status :: "pyval \<Rightarrow> string result" where
  "check_status status =
     (if \<not> hashable status then Inl TypeError
      else case status of
        PStr s \<Rightarrow> (if s \<in> set INTENT_STATUSES then Inr s
          else reject ''invalid_status'' (quoted s @ '' is not a status. Use one of '' @
            join '', '' (sort INTENT_STATUSES) @ ''.''))
      | _ \<Rightarrow> reject ''invalid_status'' (quoted (py_str status) @ '' is not a status. Use one of '' @
            join '', '' (sort INTENT_STATUSES) @ ''.''))"

fun validate_updates :: "pydict list \<Rightarrow> string list \<Rightarrow> intent_update list result" where
  "validate_updates [] seen = Inr []"
| "validate_updates (item # items) seen =
     (let unknown = unknown_keys item UPDATE_ITEM_KEYS;
          missing = reject ''missing_intent_id''
            (''every update needs the '' @ quoted ''intent_id'' @ '' of an intent you already declared.'')
      in if ''description'' \<in> set unknown
         then reject ''description_rewrite''
           (''an intent'' @ [CHR 0x27] @ ''s description is fixed once declared and cannot be rewritten. '' @
            ''Send only '' @ quoted ''intent_id'' @ '' and the new '' @ quoted ''status'' @ ''.'')
         else if unknown \<noteq> []
         then reject ''unknown_item_key'' (''unknown field(s) '' @ repr_strs unknown @ ''. An update takes '' @
           quoted ''intent_id'' @ '' and '' @ quoted ''status'' @ '', '' @ ''and nothing else '' @ em_dash @
           '' the runtime finds the call that evidences the intent '' @
           ''and, for a blocked one, works out the reason from it.'')
         else case getv item ''intent_id'' of
           PStr raw \<Rightarrow>
             (let iid = py_strip raw
              in if iid = [] then missing
                 else if iid \<in> set seen
                 then reject ''duplicate_intent_id'' (''intent '' @ quoted iid @ '' appears twice in one call '' @
                   em_dash @ '' send one update per '' @ ''intent.'')
                 else rbind (check_status (getv item ''status'')) (\<lambda>status.
                      rbind (validate_updates items (iid # seen)) (\<lambda>rest.
                      Inr (\<lparr>iu_intent_id = iid, iu_status = status, iu_evidence = None, iu_reason_code = None\<rparr> # rest))))
         | _ \<Rightarrow> missing)"

definition second_initialize :: "'a result" where
  "second_initialize = reject ''second_initialize''
     (''the intents for this question are already declared and cannot be '' @ ''re-declared. Update them by '' @
      quoted ''intent_id'' @ '' instead.'')"

definition validate_update_items :: "pydict list \<Rightarrow> intent_update list result" where
  "validate_update_items items =
     (if list_all (\<lambda>item. ''description'' \<in> set (dkeys item) \<and> ''intent_id'' \<notin> set (dkeys item)) items
      then second_initialize
      else validate_updates items [])"

section \<open>Binding and merging\<close>

text \<open>\<^verbatim>\<open>{intent.intent_id: intent for intent in ...}\<close>\<close>

definition by_id :: "tracked_intent list \<Rightarrow> (string, tracked_intent) dict" where
  "by_id is = fold (\<lambda>i. dset (ti_intent_id i) i) is []"

definition truthy_text :: "string option \<Rightarrow> bool" where
  "truthy_text x \<longleftrightarrow> x \<noteq> None \<and> x \<noteq> Some []"

definition bind_one :: "trail_entry list \<Rightarrow> int \<Rightarrow> analysis_state \<Rightarrow> intent_update \<Rightarrow>
    (intent_update \<times> string option) result" where
  "bind_one trail ti live u =
     (if iu_status u \<notin> {''completed'', ''blocked''} then Inr (u, None)
      else let resolved = rbind (resolve_evidence (iu_intent_id u) (iu_status u) trail ti)
             (\<lambda>(tid, reason, binding). Inr (u\<lparr>iu_evidence := Some tid, iu_reason_code := reason\<rparr>, Some binding))
      in case dget (by_id (as_intents live)) (iu_intent_id u) of
           None \<Rightarrow> resolved
         | Some current \<Rightarrow>
             (if ti_status current = iu_status u \<and> truthy_text (ti_evidence current)
              then Inr (u\<lparr>iu_evidence := ti_evidence current, iu_reason_code := ti_reason_code current\<rparr>, None)
              else resolved))"

definition bind_evidence :: "trail_entry list \<Rightarrow> int \<Rightarrow> analysis_state \<Rightarrow> intent_update list \<Rightarrow>
    (intent_update list \<times> (string, string) dict) result" where
  "bind_evidence trail ti live us =
     rbind (mapM_r (bind_one trail ti live) us) (\<lambda>bs.
       Inr (map fst bs,
            fold (\<lambda>(u, b) d. case b of None \<Rightarrow> d | Some x \<Rightarrow> dset (iu_intent_id u) x d) bs []))"

definition apply_update :: "analysis_state \<Rightarrow> intent_update \<Rightarrow> (string, tracked_intent) dict \<Rightarrow>
    (string, tracked_intent) dict result" where
  "apply_update live u d = (case dget d (iu_intent_id u) of
     None \<Rightarrow> reject ''unknown_intent_id'' (''there is no intent '' @ quoted (iu_intent_id u) @
       ''. The intents you declared are: '' @ join '', '' (map ti_intent_id (as_intents live)) @ ''.'')
   | Some current \<Rightarrow> Inr (dset (iu_intent_id u)
       \<lparr>ti_intent_id = ti_intent_id current, ti_description = ti_description current,
        ti_status = iu_status u, ti_evidence = iu_evidence u, ti_reason_code = iu_reason_code u\<rparr> d))"

fun apply_updates :: "analysis_state \<Rightarrow> intent_update list \<Rightarrow> (string, tracked_intent) dict \<Rightarrow>
    (string, tracked_intent) dict result" where
  "apply_updates live [] d = Inr d"
| "apply_updates live (u # us) d = rbind (apply_update live u d) (apply_updates live us)"

definition merged_intents :: "analysis_state \<Rightarrow> intent_update list \<Rightarrow> tracked_intent list result" where
  "merged_intents live us =
     rbind (apply_updates live us (by_id (as_intents live))) (\<lambda>d.
       mapM_r (\<lambda>i. case dget d (ti_intent_id i) of None \<Rightarrow> Inl (KeyError (ti_intent_id i)) | Some j \<Rightarrow> Inr j)
         (as_intents live))"

fun block_evidence_distinct :: "tracked_intent list \<Rightarrow> (string, string) dict \<Rightarrow> unit result" where
  "block_evidence_distinct [] seen = Inr ()"
| "block_evidence_distinct (i # is) seen =
     (if ti_status i \<noteq> ''blocked'' \<or> \<not> truthy_text (ti_evidence i) then block_evidence_distinct is seen
      else let ev = or_empty (ti_evidence i)
      in case dget seen ev of
           Some owner \<Rightarrow> reject ''block_evidence_reused''
             (''tool call '' @ quoted ev @ '' is already the evidence that '' @ ''blocked intent '' @ quoted owner @
              ''. One denial does not block a different '' @ ''deliverable '' @ em_dash @
              '' show separately why '' @ quoted (ti_intent_id i) @ '' cannot be done.'')
         | None \<Rightarrow> block_evidence_distinct is (dset ev (ti_intent_id i) seen))"

definition check_block_evidence_distinct :: "tracked_intent list \<Rightarrow> unit result" where
  "check_block_evidence_distinct is = block_evidence_distinct is []"

section \<open>The tool\<close>

type_synonym event = "string \<times> pydict"

definition error_result :: "string \<Rightarrow> string \<Rightarrow> bool \<Rightarrow> tool_result" where
  "error_result error_code detail retryable =
     \<lparr>tr_status = ''error'', tr_tool_name = UPDATE_TOOL_NAME, tr_error_code = Some error_code,
      tr_retryable = Some retryable, tr_user_message = Some detail, tr_provenance = Some {||},
      tr_result_preview = None, tr_result_full = PNone, tr_authoritative = False,
      tr_denial_detail = Some detail, tr_window_note = None\<rparr>"

definition surplus_state_call_rejected :: tool_result where
  "surplus_state_call_rejected = error_result ANALYSIS_STATE_INVALID_CODE
     (''only '' @ show_nat MAX_STATE_CALLS @ '' updateAnalysisState calls are accepted per message, '' @
      ''and this one is beyond that. Batch every intent you want to change into a '' @ ''single call.'') True"

definition state_result :: "analysis_state \<Rightarrow> tool_result" where
  "state_result a =
     \<lparr>tr_status = ''ok'', tr_tool_name = UPDATE_TOOL_NAME, tr_error_code = None, tr_retryable = None,
      tr_user_message = None, tr_provenance = Some {||},
      tr_result_preview = Some
        \<lparr>rp_columns = map PStr [''intent_id'', ''description'', ''status'', ''evidence_tool_call_id'', ''reason_code''],
         rp_row_count = int (length (as_intents a)), rp_truncated = False,
         rp_preview_rows = map (\<lambda>i. [PStr (ti_intent_id i), PStr (ti_description i), PStr (ti_status i),
           opt_str (ti_evidence i), opt_str (ti_reason_code i)]) (as_intents a)\<rparr>,
      tr_result_full = PDict
        [(''turn_index'', PInt (as_turn_index a)), (''intent_count'', PInt (int (length (as_intents a)))),
         (''intents'', PList (map tracked_intent_to_doc (as_intents a)))],
      tr_authoritative = False, tr_denial_detail = None, tr_window_note = None\<rparr>"

definition initial_state :: "int \<Rightarrow> string list \<Rightarrow> analysis_state" where
  "initial_state ti descriptions = \<lparr>as_turn_index = ti,
     as_intents = map (\<lambda>(n, d). \<lparr>ti_intent_id = ''i'' @ show_nat n, ti_description = d, ti_status = ''pending'',
       ti_evidence = None, ti_reason_code = None\<rparr>) (enumerate 1 descriptions)\<rparr>"

text \<open>The result or the exception, the events emitted, and the store afterwards.\<close>

type_synonym tool_run = "tool_result result \<times> event list \<times> session_store"

definition initialize :: "clock \<Rightarrow> string \<Rightarrow> int \<Rightarrow> pydict list \<Rightarrow> trail_entry list \<Rightarrow> session_store \<Rightarrow> tool_run" where
  "initialize clk sid ti items trail st = (case validate_initialize_items items of
     Inl e \<Rightarrow> (Inl e, [], st)
   | Inr descriptions \<Rightarrow> (case find_locking_tool trail ti of
       Some tool \<Rightarrow> (Inr (error_result ANALYSIS_STATE_LATE_INIT_CODE
           (''the analysis is already under way ('' @ tool @ '' has run), so the '' @
            ''intents cannot be declared now. Declare them before you start '' @
            ''querying. You proposed: '' @
            join ''; '' (map (\<lambda>d. sanitize_text d MAX_DESCRIPTION_CHARS) descriptions)) False),
         [(''loop_analysis_state_late_init_rejected'',
           [(''proposed_count'', PInt (int (length descriptions))), (''blocking_tool_name'', PStr tool)])], st)
     | None \<Rightarrow>
         (case apply_analysis_state clk sid ti (\<lambda>current.
              case current of Some _ \<Rightarrow> second_initialize | None \<Rightarrow> Inr (initial_state ti descriptions)) st of
            (Inl e, st') \<Rightarrow> (Inl e, [], st')
          | (Inr a, st') \<Rightarrow> (Inr (state_result a),
              [(''loop_analysis_state_initialized'',
                [(''intent_count'', PInt (int (length (as_intents a)))), (''turn_index'', PInt ti)])], st'))))"

definition merge_update :: "int \<Rightarrow> intent_update list \<Rightarrow> analysis_state option \<Rightarrow> analysis_state result" where
  "merge_update ti us current = (case current of
     None \<Rightarrow> reject ''unknown_intent_id'' (''there are no declared intents to update '' @ em_dash @ '' declare them first.'')
   | Some a \<Rightarrow>
       rbind (merged_intents a us) (\<lambda>merged.
       rbind (check_block_evidence_distinct merged) (\<lambda>_.
       Inr \<lparr>as_turn_index = ti, as_intents = merged\<rparr>)))"

text \<open>What the merge saw: the telemetry compares the written state with it.\<close>

definition snapshot :: "clock \<Rightarrow> string \<Rightarrow> int \<Rightarrow> session_store \<Rightarrow> tracked_intent list" where
  "snapshot clk sid ti st = (case live_analysis_state (fst (get_or_create_session clk sid st)) ti of
     None \<Rightarrow> [] | Some a \<Rightarrow> as_intents a)"

definition reused :: "tracked_intent list \<Rightarrow> tracked_intent \<Rightarrow> bool" where
  "reused is i \<longleftrightarrow> 1 < length (filter (\<lambda>j. truthy_text (ti_evidence j) \<and> ti_evidence j = ti_evidence i) is)"

definition intent_events :: "(string, tracked_intent) dict \<Rightarrow> analysis_state \<Rightarrow> (string, trail_entry) dict \<Rightarrow>
    (string, string) dict \<Rightarrow> tracked_intent \<Rightarrow> event list" where
  "intent_events previous a entries bindings i =
     (let before = dget previous (ti_intent_id i);
          iid = (''intent_id'', PStr (ti_intent_id i));
          entry = dget entries (or_empty (ti_evidence i));
          tool = opt_str (map_option te_tool_name entry);
          binding = opt_str (dget bindings (ti_intent_id i));
          zero_rows = (case entry of None \<Rightarrow> False | Some e \<Rightarrow>
            (case te_result_preview e of None \<Rightarrow> False | Some p \<Rightarrow> rp_row_count p = 0))
      in if map_option ti_status before = Some (ti_status i) then []
         else [(''loop_analysis_state_transition'',
             [iid, (''from_status'', opt_str (map_option ti_status before)), (''to_status'', PStr (ti_status i)),
              (''reason_code'', opt_str (ti_reason_code i))])]
           @ (if ti_status i = ''completed'' then
                [(''loop_intent_completed'', [iid, (''evidence_tool_name'', tool), (''evidence_binding'', binding)])]
                @ (if map_option te_tool_name entry = Some ''getTableSchema''
                   then [(''loop_metadata_evidence_completion'', [iid])] else [])
                @ (if zero_rows then [(''loop_zero_row_completion'', [iid])] else [])
              else if ti_status i = ''blocked'' then
                [(''loop_intent_blocked'', [iid, (''reason_code'', opt_str (ti_reason_code i)),
                   (''evidence_tool_name'', tool), (''evidence_binding'', binding)])]
                @ (if zero_rows then [(''loop_zero_row_block'', [iid])] else [])
              else [])
           @ (if ti_status i = ''completed'' \<and> truthy_text (ti_evidence i) \<and> reused (as_intents a) i
              then [(''loop_evidence_reused'', [iid, (''tool_call_id'', opt_str (ti_evidence i))])] else []))"

definition transition_events :: "tracked_intent list \<Rightarrow> analysis_state \<Rightarrow> trail_entry list \<Rightarrow> int \<Rightarrow>
    (string, string) dict \<Rightarrow> event list" where
  "transition_events previous a trail ti bindings =
     (let entries = fold (\<lambda>e. dset (te_tool_call_id e) e) (filter (\<lambda>e. te_turn_index e = ti) trail) []
      in concat (map (intent_events (by_id previous) a entries bindings) (as_intents a)))"

definition update_state :: "clock \<Rightarrow> string \<Rightarrow> int \<Rightarrow> pydict list \<Rightarrow> trail_entry list \<Rightarrow> analysis_state \<Rightarrow>
    session_store \<Rightarrow> tool_run" where
  "update_state clk sid ti items trail live st = (case validate_update_items items of
     Inl e \<Rightarrow> (Inl e, [], st)
   | Inr us0 \<Rightarrow> (case bind_evidence trail ti live us0 of
       Inl e \<Rightarrow> (Inl e, [], st)
     | Inr (us, bindings) \<Rightarrow>
         (case apply_analysis_state clk sid ti (merge_update ti us) st of
            (Inl e, st') \<Rightarrow> (Inl e, [], st')
          | (Inr a, st') \<Rightarrow> (Inr (state_result a),
              map (\<lambda>iid. (''loop_analysis_state_auto_bound'', [(''intent_id'', PStr iid)]))
                (sort (map fst (filter (\<lambda>(i, b). b = AUTO_BOUND) bindings)))
              @ transition_events (snapshot clk sid ti st) a trail ti bindings, st'))))"

definition safe_intent_count :: "pyval \<Rightarrow> int" where
  "safe_intent_count model_args = (case model_args of
     PDict d \<Rightarrow> (case getv d ''intents'' of PList xs \<Rightarrow> int (length xs) | _ \<Rightarrow> 0) | _ \<Rightarrow> 0)"

definition rejected_event :: "string \<Rightarrow> pyval \<Rightarrow> event" where
  "rejected_event reason model_args = (''loop_analysis_state_rejected'',
     [(''reason'', PStr reason), (''intent_count'', PInt (safe_intent_count model_args))])"

definition INTERNAL_ERROR_CODE :: string where
  "INTERNAL_ERROR_CODE = ''RUNTIME_TOOL_INTERNAL_ERROR''"

definition execute_update_tool :: "clock \<Rightarrow> string \<Rightarrow> int option \<Rightarrow> pyval \<Rightarrow> session_store \<Rightarrow> tool_run" where
  "execute_update_tool clk sid turn model_args st = (case turn of
     None \<Rightarrow> (Inr (error_result INTERNAL_ERROR_CODE
         ''Tracking the analysis state is not available on this turn.'' False),
       [rejected_event ''no_turn_context'' model_args], st)
   | Some ti \<Rightarrow> (case require_intent_items model_args of
       Inl e \<Rightarrow> (Inl e, [], st)
     | Inr items \<Rightarrow>
         (let (doc, st1) = get_or_create_session clk sid st;
              trail = sd_tool_trail doc
          in case live_analysis_state doc ti of
               None \<Rightarrow> initialize clk sid ti items trail st1
             | Some live \<Rightarrow> update_state clk sid ti items trail live st1)))"

text \<open>The envelope: a rejection becomes the tool's own error, anything else the internal one.\<close>

definition guarded :: "pyval \<Rightarrow> tool_run \<Rightarrow> tool_result \<times> event list \<times> session_store" where
  "guarded model_args r = (case r of
     (Inr res, evs, st) \<Rightarrow> (res, evs, st)
   | (Inl (AnalysisStateRejectedError reason detail), evs, st) \<Rightarrow>
       (error_result ANALYSIS_STATE_INVALID_CODE detail True, evs @ [rejected_event reason model_args], st)
   | (Inl _, evs, st) \<Rightarrow>
       (error_result INTERNAL_ERROR_CODE ''Tracking the analysis state hit an internal error.'' False, evs, st))"

definition update_tool_run :: "clock \<Rightarrow> string \<Rightarrow> int option \<Rightarrow> pyval \<Rightarrow> session_store \<Rightarrow>
    tool_result \<times> event list \<times> session_store" where
  "update_tool_run clk sid turn model_args st =
     (case guarded model_args (execute_update_tool clk sid turn model_args st) of
        (res, evs, st') \<Rightarrow> (res,
          [(''tool_dispatch_start'', [(''tool_name'', PStr UPDATE_TOOL_NAME)])] @ evs @
          [if tr_status res = ''ok'' then (''tool_dispatch_ok'', [(''tool_name'', PStr UPDATE_TOOL_NAME)])
           else (''tool_dispatch_error'', [(''tool_name'', PStr UPDATE_TOOL_NAME),
                   (''error_code'', opt_str (tr_error_code res))])], st'))"

end
