(* ===== verification/EntryRender.thy ===== *)
theory EntryRender
  imports AnalysisLedger BlueprintModels
begin

text \<open>
  What the model reads of a session: the denial table of \<^verbatim>\<open>dispatch/denial_mapping.py\<close>, the rendering of
  one trail entry (\<^verbatim>\<open>context/budget.py::_render_entry\<close>), the data-free sentinel, the date anchor and the
  analysis-state block of \<^verbatim>\<open>context/assembly.py\<close>, and the retrieved-context block of
  \<^verbatim>\<open>retrieval/render.py\<close>. A render item is a JSON object.
\<close>

section \<open>Denials\<close>

datatype denial_kind = Gate | WorkJudged | InfraFailed

record denial_info =
  dn_code :: string
  dn_retryable :: bool
  dn_kind :: denial_kind
  dn_user_message :: string

definition denial :: "string \<Rightarrow> bool \<Rightarrow> denial_kind \<Rightarrow> string \<Rightarrow> string \<times> denial_info" where
  "denial err retry kind msg = (err, \<lparr>dn_code = err, dn_retryable = retry, dn_kind = kind, dn_user_message = msg\<rparr>)"

definition DENIAL_TABLE :: "(string, denial_info) dict" where
  "DENIAL_TABLE = [
     denial ''COLUMN_SCOPE_VIOLATION'' False WorkJudged (
        ''This needs access to columns outside your current permissions.''),
     denial ''SCRATCH_SESSION_VIOLATION'' False WorkJudged (
        ''That data isn't available in this session.''),
     denial ''ANSWER_TABLE_BLUEPRINT_NOT_RUN'' True Gate (
        ''You referenced a blueprint you have not run in this turn, so there is '' @
        ''no table to show. Call runBlueprint with that blueprint first, then call '' @ ''answerWithTable again.''),
     denial ''ANSWER_TABLE_NO_TABLE_DESIGNATED'' True Gate (
        ''Your answerWithTable named no table, so there is nothing for the user '' @
        ''to look at. Every table goes in `tables`, one entry per part of your answer: '' @ ''`tables: [{sql: '' @
        [CHR 0x22] @ ''SELECT '' @ ellipsis @ [CHR 0x22] @
        ''}]` for a query you wrote, or `tables: [{blueprint_id: '' @ [CHR 0x22] @ ''bp-'' @ ellipsis @ [CHR 0x22] @
        ''}]` for a blueprint you ran this turn. Send your answer again with the '' @ ''table in it.''),
     denial ''BLUEPRINT_DEFINITION_NOT_READ'' True Gate (
        ''You have not read that blueprint in this turn, so you do not know what '' @
        ''it measures. Call getBlueprint with that blueprint id first, check what '' @
        ''it actually does, then run it.''),
     denial ''ANALYSIS_STATE_INVALID'' True Gate (
        ''That analysis-state update was rejected. Send one updateAnalysisState '' @
        ''call listing each intent by the id you were given and its new status, '' @ ''and nothing else '' @ em_dash @
        '' tag the call that serves an intent with serves_intent when you make it, '' @
        ''and the runtime finds it for you.''),
     denial ''ANALYSIS_STATE_LATE_INIT'' False Gate (
        ''The intents for this question can no longer be declared '' @ em_dash @
        '' the analysis is already under way. Continue and answer everything the '' @ ''user asked.''),
     denial ''FINALIZATION_BLOCKED_PENDING_INTENTS'' True Gate (
        ''You still have intents that are neither completed nor blocked, so this '' @
        ''cannot be the final answer yet. Resolve each one with updateAnalysisState '' @ em_dash @
        '' mark it completed if a call answered it, or blocked if a call for it '' @
        ''was refused or came back empty '' @ em_dash @ '' then answer again.''),
     denial ''ANSWER_JUDGE_REJECTED'' True Gate (
        ''That answer was reviewed against this turn and sent back. Re-read the '' @
        ''question and the results you have, then answer again.''),
     denial ''PARSE_FAILED_CLOSED'' True WorkJudged (
        ''I couldn't validate that query safely '' @ em_dash @ '' let me try explainQuery first.''),
     denial ''DATABASE_NOT_ALLOWED'' True WorkJudged (
        ''That database isn't available. Let me check what's accessible.''),
     denial ''TABLE_NOT_FOUND'' True WorkJudged (
        ''I couldn't find that table. Let me verify the table name.''),
     denial ''CARTESIAN_JOIN_FORBIDDEN'' True WorkJudged (
        ''That query cross-joins two tables without a join condition. Add an ON '' @
        ''or USING clause, or wrap a constant side in a subquery.''),
     denial ''CLICKHOUSE_QUERY_ERROR'' True WorkJudged (
        ''That query didn't run correctly. Let me fix it and try again.''),
     denial ''CLICKHOUSE_UNAVAILABLE'' False InfraFailed (
        ''The data warehouse is temporarily unavailable.''),
     denial ''RESOLVE_VALUES_UNKNOWN_TARGET'' True WorkJudged (
        ''That table or column isn't available. Check the exact name with getTableSchema '' @ ''and try again.''),
     denial ''RESOLVE_VALUES_INTERNAL_ERROR'' False InfraFailed (
        ''Something went wrong resolving those values. Please try again.''),
     denial ''RESOLVE_VALUES_UNAVAILABLE'' False InfraFailed (
        ''Value resolution is not available right now.''),
     denial ''RETRIEVAL_TOOL_INVALID_ARGS'' True Gate (
        ''That search request was malformed. Check the arguments and try again.''),
     denial ''RETRIEVAL_TOOL_UNAVAILABLE'' False InfraFailed (
        ''Blueprint and knowledge search is not available right now.''),
     denial ''RETRIEVAL_TOOL_INTERNAL_ERROR'' False InfraFailed (
        ''Blueprint/knowledge search hit an internal error. Please try again.''),
     denial ''RUNTIME_TOOL_INTERNAL_ERROR'' False InfraFailed (
        ''That tool hit an internal error. Please try again.''),
     denial ''RUN_BLUEPRINT_NOT_FOUND'' True WorkJudged (
        ''That blueprint is not available. Search for one with searchBlueprints.''),
     denial ''RUN_BLUEPRINT_SLOT_INVALID'' True WorkJudged (
        ''A value for this blueprint could not be used. Please rephrase or retry.''),
     denial ''RUN_BLUEPRINT_UNSUPPORTED'' False Gate (
        ''This blueprint can't run on the fast path yet '' @ em_dash @
        '' answer it with the raw tools (getTableSchema / runQuery).''),
     denial ''RUN_BLUEPRINT_VERIFY_FAILED'' True WorkJudged (
        ''The fast path produced a result that failed verification, so it was not '' @
        ''returned. Answer this from the raw tools (getTableSchema / runQuery) instead.''),
     denial ''RUN_BLUEPRINT_ABORTED'' True Gate (
        ''The fast path stopped before producing an answer '' @ em_dash @
        '' answer this from the raw tools (getTableSchema / runQuery) instead.''),
     denial ''INTERNAL_TRANSPORT_ERROR'' False InfraFailed (
        ''Something went wrong reaching the data warehouse. Please try again.'')]"

definition is_enforcement :: "denial_info \<Rightarrow> bool" where
  "is_enforcement i \<longleftrightarrow> dn_kind i = Gate"

definition KNOWN_DENIAL_CODES :: "string list" where
  "KNOWN_DENIAL_CODES = map fst DENIAL_TABLE"

definition ENFORCEMENT_DENIAL_CODES :: "string list" where
  "ENFORCEMENT_DENIAL_CODES = map fst (filter (is_enforcement \<circ> snd) DENIAL_TABLE)"

definition INFRA_FAILURE_CODES :: "string list" where
  "INFRA_FAILURE_CODES = map fst (filter (\<lambda>d. dn_kind (snd d) = InfraFailed) DENIAL_TABLE)"

definition classify_denial :: "string option \<Rightarrow> denial_info" where
  "classify_denial err = (case Option.bind err (dget DENIAL_TABLE) of
     Some i \<Rightarrow> i
   | None \<Rightarrow> \<lparr>dn_code = (if truthy_text err then or_empty err else ''UNKNOWN_ERROR''), dn_retryable = False,
       dn_kind = WorkJudged, dn_user_message = ''Something went wrong processing that request.''\<rparr>)"

section \<open>One trail entry\<close>

definition render_preview :: "nat \<Rightarrow> result_preview \<Rightarrow> pyval" where
  "render_preview n p = (let rows = take n (rp_preview_rows p) in PDict
     [(''columns'', PList (rp_columns p)), (''row_count'', PInt (rp_row_count p)),
      (''truncated'', PBool (rp_truncated p \<or> length rows < length (rp_preview_rows p))),
      (''preview_rows'', PList (map PList rows))])"

definition denial_text :: "trail_entry \<Rightarrow> string option" where
  "denial_text e = (if te_status e = ''ok'' then None
     else Some (if truthy_text (te_denial_detail e) then or_empty (te_denial_detail e)
                else dn_user_message (classify_denial (te_error_code e))))"

definition render_entry :: "nat \<Rightarrow> trail_entry \<Rightarrow> pydict" where
  "render_entry n e =
     [(''role'', PStr ''tool''), (''tool_call_id'', PStr (te_tool_call_id e)), (''tool_name'', PStr (te_tool_name e)),
      (''args'', PDict (te_args e)), (''status'', PStr (te_status e)), (''error_code'', opt_str (te_error_code e)),
      (''user_message'', opt_str (denial_text e)),
      (''result_preview'', (case te_result_preview e of None \<Rightarrow> PNone | Some p \<Rightarrow> render_preview n p))]
     @ (if te_authoritative e then [(''authoritative'', PBool True)] else [])
     @ (if truthy_text (te_window_note e) then [(''window_note'', opt_str (te_window_note e))] else [])"

definition WITHHELD_PROVENANCE_SENTINEL :: string where
  "WITHHELD_PROVENANCE_SENTINEL =
     ''result withheld: provenance could not be determined for this call, so its '' @
     ''result cannot be shown. Do not retry the identical call '' @ em_dash @ '' it will be withheld '' @
     ''again. Try a different query or approach, or ask the user.''"

definition REPEATED_IDEMPOTENT_READ_NUDGE :: string where
  "REPEATED_IDEMPOTENT_READ_NUDGE =
     ''Duplicate read: you already made this exact call this turn, and its result is in '' @
     ''the messages above (this response is not a new fetch). Re-requesting it does '' @
     ''nothing '' @ em_dash @ '' find that earlier result, use it, and take the next step of your '' @
     ''analysis.''"

definition build_withheld_sentinel_message :: "trail_entry \<Rightarrow> pydict" where
  "build_withheld_sentinel_message e =
     [(''role'', PStr ''tool''), (''tool_call_id'', PStr (te_tool_call_id e)), (''tool_name'', PStr (te_tool_name e)),
      (''args'', PDict (te_args e)), (''withheld_sentinel'', PBool True),
      (''content'', PStr (if te_error_code e = Some ALREADY_SERVED_CODE then REPEATED_IDEMPOTENT_READ_NUDGE
         else WITHHELD_PROVENANCE_SENTINEL))]"

section \<open>The date anchor\<close>

text \<open>
  \<^verbatim>\<open>date.fromisoformat\<close>: seven, eight or ten characters, of which the parser reads a calendar date or
  an ISO week date, with or without separators, and leaves what follows unread.
\<close>

definition weekday_of_new_year :: "nat \<Rightarrow> nat" where
  "weekday_of_new_year y = (365 * (y - 1) + (y - 1) div 4 - (y - 1) div 100 + (y - 1) div 400 + 1) mod 7"

definition real_iso_week :: "nat \<Rightarrow> nat \<Rightarrow> nat \<Rightarrow> bool" where
  "real_iso_week y w d \<longleftrightarrow> 1 \<le> y \<and> 1 \<le> d \<and> d \<le> 7 \<and> 1 \<le> w \<and>
     (w \<le> 52 \<or> (w = 53 \<and> (weekday_of_new_year y = 4 \<or> (weekday_of_new_year y = 3 \<and> leap_year y)))) \<and>
     \<not> (y = 9999 \<and> w = 52 \<and> 5 < d)"

definition from_iso_date :: "string \<Rightarrow> bool" where
  "from_iso_date s \<longleftrightarrow> length s \<in> {7, 8, 10} \<and> digits_of 4 (take 4 s) \<and>
     (let y = read_nat (take 4 s); sep = (take 1 (drop 4 s) = ''-''); p = (if sep then 5 else 4) in
      if take 1 (drop p s) = ''W''
      then digits_of 2 (take 2 (drop (p + 1) s)) \<and>
        (let w = read_nat (take 2 (drop (p + 1) s)); q = p + 3 in
         if length s \<le> q then real_iso_week y w 1
         else (let r = (if sep then q + 1 else q) in
           (sep \<longrightarrow> take 1 (drop q s) = ''-'') \<and> digits_of 1 (take 1 (drop r s)) \<and>
           real_iso_week y w (read_nat (take 1 (drop r s)))))
      else (let r = (if sep then p + 3 else p + 2); m = read_nat (take 2 (drop p s)); d = read_nat (take 2 (drop r s)) in
        digits_of 2 (take 2 (drop p s)) \<and> (sep \<longrightarrow> take 1 (drop (p + 2) s) = ''-'') \<and> digits_of 2 (take 2 (drop r s)) \<and>
        1 \<le> y \<and> 1 \<le> m \<and> m \<le> 12 \<and> 1 \<le> d \<and> d \<le> days_in_month y m))"

definition turn_date_anchor_day :: "turn_message list \<Rightarrow> int \<Rightarrow> string option" where
  "turn_date_anchor_day ms ti = (case find (\<lambda>m. tm_turn_index m = ti \<and> tm_role m = ''user'') ms of
     None \<Rightarrow> None
   | Some m \<Rightarrow> (if from_iso_date (take 10 (tm_ts m)) then Some (take 10 (tm_ts m)) else None))"

definition user_item :: "string \<Rightarrow> pydict" where
  "user_item s = [(''role'', PStr ''user''), (''content'', PStr s)]"

definition DATE_ANCHOR_PREFIX :: string where
  "DATE_ANCHOR_PREFIX = ''Today's date is ''"

definition turn_date_anchor :: "turn_message list \<Rightarrow> int \<Rightarrow> pydict option" where
  "turn_date_anchor ms ti = map_option (\<lambda>day. user_item (DATE_ANCHOR_PREFIX @ day @ ''.'')) (turn_date_anchor_day ms ti)"

section \<open>The analysis-state block\<close>

definition nl :: string where
  "nl = [CHR 0x0A]"

definition intent_line :: "tracked_intent \<Rightarrow> string" where
  "intent_line i =
     (let detail = ti_status i
            @ (if truthy_text (ti_reason_code i) then '': '' @ or_empty (ti_reason_code i) else [])
            @ (if truthy_text (ti_evidence i) then '', evidence '' @ or_empty (ti_evidence i) else [])
      in ''- '' @ ti_intent_id i @ '' ['' @ detail @ ''] '' @ sanitize_text (ti_description i) MAX_FIELD_CHARS)"

definition analysis_state_lines :: "analysis_state \<Rightarrow> string list" where
  "analysis_state_lines a =
     [''[Analysis state '' @ em_dash @ '' the deliverables you are tracking for the current question]'', [],
      ''Update these with updateAnalysisState as you resolve them. Every intent must '' @
      ''end completed or blocked before you give your final answer.'']
     @ map intent_line (as_intents a)"

definition render_analysis_state_block :: "analysis_state \<Rightarrow> pydict" where
  "render_analysis_state_block a = user_item (join nl (analysis_state_lines a))"

section \<open>The retrieved-context block\<close>

record slot_summary =
  ss_name :: string
  ss_type :: string
  ss_required :: bool

text \<open>A card, a knowledge hit and a memory item, less the scores the renderer does not read.\<close>

record thin_card =
  tc_id :: string
  tc_intent :: string
  tc_slots_summary :: string
  tc_resolves :: "(string \<times> string) list option"
  tc_slots :: "slot_summary list option"
  tc_result_grain :: "string list option"
  tc_slots_omitted :: int

record knowledge_hit =
  kh_text :: string
  kh_title :: "string option"

record user_memory_item =
  um_kind :: string
  um_text :: string

record retrieved_context =
  rc_thin_cards :: "thin_card list"
  rc_knowledge_hits :: "knowledge_hit list"
  rc_user_memory :: "user_memory_item list"

definition retrieved_is_empty :: "retrieved_context \<Rightarrow> bool" where
  "retrieved_is_empty c \<longleftrightarrow> rc_thin_cards c = [] \<and> rc_knowledge_hits c = [] \<and> rc_user_memory c = []"

definition USER_CONTEXT_PREFIX :: string where
  "USER_CONTEXT_PREFIX = ''[Retrieved context '' @ em_dash @ '' candidate blueprints/knowledge for this question]'' @ nl @ nl"

definition RETRIEVAL_HEADER :: string where
  "RETRIEVAL_HEADER = ''Relevant context retrieved for this request (pre-injected; you may ignore anything not helpful):''"

definition CARD_FIELD_CHARS :: nat where
  "CARD_FIELD_CHARS = 500"

definition MAX_CHUNK_CHARS :: nat where
  "MAX_CHUNK_CHARS = 2000"

definition field_text :: "string \<Rightarrow> string" where
  "field_text s = sanitize_text s CARD_FIELD_CHARS"

definition slot_text :: "slot_summary \<Rightarrow> string" where
  "slot_text s = (let requirement = (if ss_required s then ''required'' else ''optional''); ty = field_text (ss_type s) in
     field_text (ss_name s) @ '' ('' @ (if ty = [] then requirement else ty @ '', '' @ requirement) @ '')'')"

definition card_detail_lines :: "thin_card \<Rightarrow> string list" where
  "card_detail_lines c =
     (case tc_slots c of None \<Rightarrow> [] | Some slots \<Rightarrow> if slots = [] then [] else
        [''  slots: '' @ join '', '' (map slot_text slots) @
         (if 0 < tc_slots_omitted c then '' (+'' @ show_int (tc_slots_omitted c) @ '' more)'' else [])])
     @ (case tc_resolves c of None \<Rightarrow> [] | Some r \<Rightarrow> if r = [] then [] else
        [''  resolves: '' @ join ''; '' (map (\<lambda>(t, col). field_text t @ '' -> '' @ field_text col) (sort r))])
     @ (case tc_result_grain c of None \<Rightarrow> [] | Some g \<Rightarrow> if g = [] then [] else
        [''  result grain: '' @ join '', '' (map field_text g)])"

definition card_lines :: "thin_card \<Rightarrow> string list" where
  "card_lines c = (let slots = field_text (tc_slots_summary c) in
     (''- '' @ field_text (tc_id c) @ '': '' @ field_text (tc_intent c) @
       (if slots = [] then [] else '' [slots: '' @ slots @ '']'')) # card_detail_lines c)"

definition hit_line :: "knowledge_hit \<Rightarrow> string" where
  "hit_line h = (let title = (if truthy_text (kh_title h) then field_text (or_empty (kh_title h)) else []) in
     ''- '' @ (if title = [] then [] else title @ '': '') @ sanitize_text (kh_text h) MAX_CHUNK_CHARS)"

definition memory_line :: "user_memory_item \<Rightarrow> string" where
  "memory_line m = ''- ('' @ field_text (um_kind m) @ '') '' @ field_text (um_text m)"

definition retrieved_lines :: "retrieved_context \<Rightarrow> string list" where
  "retrieved_lines c = [RETRIEVAL_HEADER]
     @ (if rc_thin_cards c = [] then [] else
        [[], ''Candidate blueprints (analysis templates you can run):''] @ concat (map card_lines (rc_thin_cards c)))
     @ (if rc_knowledge_hits c = [] then [] else [[], ''Relevant knowledge:''] @ map hit_line (rc_knowledge_hits c))
     @ (if rc_user_memory c = [] then [] else [[], ''What we remember about you:''] @ map memory_line (rc_user_memory c))"

definition render_retrieved_context :: "retrieved_context \<Rightarrow> pydict option" where
  "render_retrieved_context c = (if retrieved_is_empty c then None
     else Some (user_item (USER_CONTEXT_PREFIX @ join nl (retrieved_lines c))))"

section \<open>A field cannot forge a line\<close>

fun text_lines :: "string \<Rightarrow> string list" where
  "text_lines [] = [[]]"
| "text_lines (c # s) = (if c = CHR 0x0A then [] # text_lines s
     else (case text_lines s of l # ls \<Rightarrow> (c # l) # ls | [] \<Rightarrow> [[c]]))"

definition one_line :: "string \<Rightarrow> bool" where
  "one_line s \<longleftrightarrow> CHR 0x0A \<notin> set s"

lemma text_lines_one: "one_line l \<Longrightarrow> text_lines l = [l]"
  by (induction l) (auto simp: one_line_def)

lemma text_lines_append: "one_line l \<Longrightarrow> text_lines (l @ CHR 0x0A # s) = l # text_lines s"
  by (induction l) (auto simp: one_line_def)

lemma text_lines_join: "ls \<noteq> [] \<Longrightarrow> list_all one_line ls \<Longrightarrow> text_lines (join nl ls) = ls"
  by (induction nl ls rule: join.induct) (auto simp: nl_def text_lines_one text_lines_append)

lemma one_line_simps [simp]: "one_line []" "one_line (c # s) \<longleftrightarrow> c \<noteq> CHR 0x0A \<and> one_line s"
  by (auto simp: one_line_def)

lemma one_line_append [simp]: "one_line (s @ t) \<longleftrightarrow> one_line s \<and> one_line t"
  by (auto simp: one_line_def)

lemma one_line_join: "one_line sep \<Longrightarrow> list_all one_line ls \<Longrightarrow> one_line (join sep ls)"
  by (induction sep ls rule: join.induct) (auto simp: one_line_def)

lemma one_line_sanitized [simp]: "one_line (sanitize_text s n)"
proof -
  have "control_char (CHR 0x0A)" by (simp add: control_char_def code_def)
  then show ?thesis using sanitize_text_structural[of s n] by (auto simp: one_line_def)
qed

lemma one_line_number [simp]: "one_line (show_int i)"
proof -
  have "CHR 0x0A \<notin> set (show_nat n)" for n using show_nat_digits[of "CHR 0x0A" n] by (auto simp: is_digit_def)
  then show ?thesis by (auto simp: one_line_def show_int_def)
qed

lemma one_line_fields [simp]: "one_line (field_text s)"
  by (simp add: field_text_def)

lemma one_line_slot [simp]: "one_line (slot_text s)"
  by (simp add: slot_text_def Let_def)

lemma card_detail_one_line: "list_all one_line (card_detail_lines c)"
  by (auto simp: card_detail_lines_def list_all_iff split: option.splits intro!: one_line_join)

lemma retrieved_lines_one_line: "list_all one_line (retrieved_lines c)"
  using card_detail_one_line
  by (auto simp: retrieved_lines_def RETRIEVAL_HEADER_def card_lines_def hit_line_def memory_line_def list_all_iff Let_def)

definition content_lines :: "pydict \<Rightarrow> string list" where
  "content_lines m = (case getv m ''content'' of PStr s \<Rightarrow> text_lines s | _ \<Rightarrow> [])"

text \<open>
  C35: retrieved text cannot forge the structure of the block the model reads: split at its line breaks,
  the block is its title, a blank line and the lines the renderer laid out (header, section titles,
  one bullet per card, hit and memory, the card's own detail lines), whatever the corpus holds; and
  there is no block exactly when nothing was retrieved.
\<close>

theorem retrieved_block_unforgeable:
  "map_option content_lines (render_retrieved_context c) = (if retrieved_is_empty c then None
     else Some ((''[Retrieved context '' @ em_dash @ '' candidate blueprints/knowledge for this question]'')
       # [] # retrieved_lines c))"
proof -
  let ?title = "''[Retrieved context '' @ em_dash @ '' candidate blueprints/knowledge for this question]''"
  have "retrieved_lines c \<noteq> []" by (simp add: retrieved_lines_def)
  then have "text_lines (join nl (retrieved_lines c)) = retrieved_lines c"
    using text_lines_join retrieved_lines_one_line by blast
  moreover have "one_line ?title" by (simp add: em_dash_def)
  ultimately have "text_lines (?title @ CHR 0x0A # CHR 0x0A # join nl (retrieved_lines c)) = ?title # [] # retrieved_lines c"
    using text_lines_append[of ?title] text_lines_append[of "[]"] by simp
  then show ?thesis
    by (simp add: render_retrieved_context_def USER_CONTEXT_PREFIX_def nl_def content_lines_def user_item_def getv_def)
qed

end
