(* ===== verification/ContextBudget.thy ===== *)
theory ContextBudget
  imports PyVal "HOL-Library.Sublist" "HOL-Library.Product_Lexorder"
begin

text \<open>
  The send-seam token budget of \<^verbatim>\<open>runtime/context/budget.py\<close>: the canonical request is cut into
  units (a tool call with its results, or one message), every unit is pinned or given a drop
  tier, and units are dropped by tier and age until the estimate fits. A message is a JSON
  object. The two text prefixes that mark a retrieval block and a compaction summary are the
  arguments \<open>rp\<close> and \<open>sp\<close>: the first holds a dash beyond the code points modelled here.
\<close>

type_synonym message = pydict

section \<open>Estimates and units\<close>

definition estimate_tokens :: "string \<Rightarrow> int" where
  "estimate_tokens text = max 1 (int (length text div 4))"

definition estimate_message_tokens :: "message \<Rightarrow> int" where
  "estimate_message_tokens m = estimate_tokens (json_dumps (PDict m))"

definition has_role :: "message \<Rightarrow> string \<Rightarrow> bool" where
  "has_role m r \<longleftrightarrow> getv m ''role'' = PStr r"

definition announces :: "message \<Rightarrow> bool" where
  "announces m \<longleftrightarrow> has_role m ''assistant'' \<and> py_truthy (getv m ''tool_calls'')"

definition slice :: "'a list \<Rightarrow> nat \<Rightarrow> nat \<Rightarrow> 'a list" where
  "slice xs s e = take (e - s) (drop s xs)"

text \<open>The end of the run of tool results that starts at \<open>j\<close>.\<close>

function tool_end :: "message list \<Rightarrow> nat \<Rightarrow> nat \<Rightarrow> nat" where
  "tool_end ms j t = (if j < t \<and> has_role (ms ! j) ''tool'' then tool_end ms (Suc j) t else j)"
  by pat_completeness auto
termination by (relation "measure (\<lambda>(ms, j, t). t - j)") auto

declare tool_end.simps [simp del]

lemma tool_end_ge: "j \<le> tool_end ms j t"
proof (induction ms j t rule: tool_end.induct)
  case (1 ms j t)
  then show ?case by (subst tool_end.simps) (auto dest: Suc_leD)
qed

function fit_units :: "message list \<Rightarrow> nat \<Rightarrow> nat \<Rightarrow> (nat \<times> nat) list" where
  "fit_units ms i t = (if i < t
     then if announces (ms ! i)
          then (i, tool_end ms (Suc i) t) # fit_units ms (tool_end ms (Suc i) t) t
          else (i, Suc i) # fit_units ms (Suc i) t
     else [])"
  by pat_completeness auto
termination
proof (relation "measure (\<lambda>(ms, i, t). t - i)")
  show "((ms, tool_end ms (Suc i) t, t), (ms, i, t)) \<in> measure (\<lambda>(ms, i, t). t - i)" if "i < t" for ms i t
    using that tool_end_ge[of "Suc i" ms t] by simp
qed auto

declare fit_units.simps [simp del]

datatype unit_kind = Conversation | Trail | Summary | Retrieval

fun drop_priority :: "unit_kind \<Rightarrow> nat" where
  "drop_priority Conversation = 0"
| "drop_priority Trail = 0"
| "drop_priority Summary = 1"
| "drop_priority Retrieval = 1"

definition tier_current_older_trail :: nat where
  "tier_current_older_trail = 2"

definition unit_kind_of :: "string \<Rightarrow> string \<Rightarrow> message list \<Rightarrow> nat \<Rightarrow> nat \<Rightarrow> unit_kind" where
  "unit_kind_of rp sp ms s e =
     (if announces (ms ! s) then Trail
      else if has_role (ms ! s) ''user'' \<and> e - s = 1 then
        (case getv (ms ! s) ''content'' of
           PStr content \<Rightarrow> if prefix rp content then Retrieval
                           else if prefix sp content then Summary else Conversation
         | _ \<Rightarrow> Conversation)
      else Conversation)"

text \<open>
  The current turn begins at the first user message after the last plain assistant answer, or
  at \<open>n\<close> when there is none.
\<close>

definition plain_answer :: "message \<Rightarrow> bool" where
  "plain_answer m \<longleftrightarrow> has_role m ''assistant'' \<and> \<not> py_truthy (getv m ''tool_calls'')"

definition after_last_answer :: "message list \<Rightarrow> nat \<Rightarrow> nat \<Rightarrow> nat" where
  "after_last_answer ms h n =
     (case find (\<lambda>i. plain_answer (ms ! i)) (rev [h..<n]) of None \<Rightarrow> h | Some i \<Rightarrow> Suc i)"

definition current_turn_start :: "message list \<Rightarrow> nat \<Rightarrow> nat \<Rightarrow> nat" where
  "current_turn_start ms h n =
     (case find (\<lambda>i. has_role (ms ! i) ''user'') [after_last_answer ms h n..<n] of
        None \<Rightarrow> n | Some i \<Rightarrow> i)"

section \<open>Classification\<close>

text \<open>
  \<^verbatim>\<open>any(messages[k].get("tool_call_id") in pinned_ids ...)\<close>: set membership of an unhashable
  value raises.
\<close>

fun any_pinned :: "string list \<Rightarrow> message list \<Rightarrow> bool result" where
  "any_pinned ids [] = Inr False"
| "any_pinned ids (m # ms) =
     (case getv m ''tool_call_id'' of
        PList _ \<Rightarrow> Inl TypeError
      | PDict _ \<Rightarrow> Inl TypeError
      | PStr s \<Rightarrow> if s \<in> set ids then Inr True else any_pinned ids ms
      | _ \<Rightarrow> any_pinned ids ms)"

datatype unit_class = Pinned | Droppable nat

definition current_tool_units :: "message list \<Rightarrow> nat \<Rightarrow> (nat \<times> nat) list \<Rightarrow> nat list" where
  "current_tool_units ms ts us =
     filter (\<lambda>u. ts \<le> fst (us ! u) \<and> announces (ms ! fst (us ! u))) [0..<length us]"

definition pinned_recent :: "int \<Rightarrow> nat list \<Rightarrow> nat list" where
  "pinned_recent k cur = (if 0 < k then drop (length cur - nat k) cur else [])"

definition classify_unit :: "string list \<Rightarrow> message list \<Rightarrow> nat \<Rightarrow> nat list \<Rightarrow> unit_kind list \<Rightarrow>
    (nat \<times> nat) list \<Rightarrow> nat \<Rightarrow> unit_class result" where
  "classify_unit ids ms ts recent kinds us u =
     (let (s, e) = us ! u;
          is_current = (ts \<le> s);
          is_tool_pair = announces (ms ! s)
      in rbind (if ids \<noteq> [] then any_pinned ids (slice ms s e) else Inr False) (\<lambda>pin.
         Inr (if pin then Pinned
              else if is_current \<and> \<not> is_tool_pair then Pinned
              else if is_current \<and> is_tool_pair then
                (if u \<in> set recent then Pinned else Droppable tier_current_older_trail)
              else Droppable (drop_priority (kinds ! u)))))"

section \<open>Dropping\<close>

record drop_state =
  ds_keep :: "bool list"
  ds_running :: int
  ds_units :: nat
  ds_messages :: nat
  ds_tokens :: int
  ds_by_kind :: "(unit_kind, nat) dict"

definition drop_unit :: "(nat \<times> nat) list \<Rightarrow> int list \<Rightarrow> unit_kind list \<Rightarrow> nat \<Rightarrow> drop_state \<Rightarrow> drop_state" where
  "drop_unit us sizes kinds u st = (case us ! u of (s, e) \<Rightarrow>
     st\<lparr>ds_keep := (ds_keep st)[u := False],
        ds_running := ds_running st - sizes ! u,
        ds_tokens := ds_tokens st + sizes ! u,
        ds_messages := ds_messages st + (e - s),
        ds_units := ds_units st + 1,
        ds_by_kind := dset (kinds ! u) (dget_or (ds_by_kind st) (kinds ! u) 0 + 1) (ds_by_kind st)\<rparr>)"

fun drop_loop :: "int \<Rightarrow> (nat \<times> nat) list \<Rightarrow> int list \<Rightarrow> unit_kind list \<Rightarrow> nat list \<Rightarrow> drop_state \<Rightarrow> drop_state" where
  "drop_loop budget us sizes kinds [] st = st"
| "drop_loop budget us sizes kinds (u # order) st =
     (if ds_running st \<le> budget then st
      else drop_loop budget us sizes kinds order (drop_unit us sizes kinds u st))"

record request_fit =
  rf_messages :: "message list"
  rf_dropped_units :: nat
  rf_dropped_messages :: nat
  rf_dropped_tokens :: int
  rf_kept_tokens :: int
  rf_dropped_by_kind :: "(unit_kind, nat) dict"

definition head_end :: "message list \<Rightarrow> nat" where
  "head_end ms = length (takeWhile (\<lambda>m. has_role m ''system'') ms)"

fun droppable_tier :: "unit_class \<Rightarrow> nat option" where
  "droppable_tier Pinned = None"
| "droppable_tier (Droppable t) = Some t"

definition drop_order :: "unit_class list \<Rightarrow> nat list" where
  "drop_order cs = sort_key (\<lambda>u. (the (droppable_tier (cs ! u)), u))
     (filter (\<lambda>u. droppable_tier (cs ! u) \<noteq> None) [0..<length cs])"

definition unit_sizes :: "int list \<Rightarrow> (nat \<times> nat) list \<Rightarrow> int list" where
  "unit_sizes sizes us = map (\<lambda>(s, e). sum_list (map ((!) sizes) [s..<e])) us"

definition fitted_messages :: "message list \<Rightarrow> (nat \<times> nat) list \<Rightarrow> bool list \<Rightarrow> message list" where
  "fitted_messages ms us keep = take (head_end ms) ms @
     concat (map (\<lambda>u. case us ! u of (s, e) \<Rightarrow> slice ms s e) (filter ((!) keep) [0..<length us]))"

definition unit_classes :: "message list \<Rightarrow> string \<Rightarrow> string \<Rightarrow> int \<Rightarrow> string list \<Rightarrow> unit_class list result" where
  "unit_classes ms rp sp k ids =
     (let us = fit_units ms (head_end ms) (length ms);
          ts = current_turn_start ms (head_end ms) (length ms);
          kinds = map (\<lambda>(s, e). unit_kind_of rp sp ms s e) us;
          recent = pinned_recent k (current_tool_units ms ts us)
      in mapM_r (classify_unit ids ms ts recent kinds us) [0..<length us])"

definition fit_request_to_budget :: "string \<Rightarrow> string \<Rightarrow> message list \<Rightarrow> int \<Rightarrow> int \<Rightarrow> string list \<Rightarrow> request_fit result" where
  "fit_request_to_budget rp sp ms budget k ids =
     (let sizes = map estimate_message_tokens ms;
          total = sum_list sizes;
          us = fit_units ms (head_end ms) (length ms);
          kinds = map (\<lambda>(s, e). unit_kind_of rp sp ms s e) us
      in if total \<le> budget \<or> length ms = 0
         then Inr \<lparr>rf_messages = ms, rf_dropped_units = 0, rf_dropped_messages = 0, rf_dropped_tokens = 0,
                   rf_kept_tokens = total, rf_dropped_by_kind = []\<rparr>
         else rbind (unit_classes ms rp sp k ids) (\<lambda>cs.
           let st = drop_loop budget us (unit_sizes sizes us) kinds (drop_order cs)
                 \<lparr>ds_keep = replicate (length us) True, ds_running = total, ds_units = 0, ds_messages = 0,
                  ds_tokens = 0, ds_by_kind = []\<rparr>
           in Inr \<lparr>rf_messages = fitted_messages ms us (ds_keep st), rf_dropped_units = ds_units st,
                   rf_dropped_messages = ds_messages st, rf_dropped_tokens = ds_tokens st,
                   rf_kept_tokens = ds_running st, rf_dropped_by_kind = ds_by_kind st\<rparr>))"

section \<open>Units tile the request\<close>

lemma slice_append:
  assumes "s \<le> m" and "m \<le> e"
  shows "slice xs s m @ slice xs m e = slice xs s e"
proof -
  have "e - s = (m - s) + (e - m)" using assms by simp
  moreover have "drop m xs = drop (m - s) (drop s xs)" using assms by simp
  ultimately show ?thesis by (simp only: slice_def take_add)
qed

lemma slice_nth: "e \<le> length xs \<Longrightarrow> map ((!) xs) [s..<e] = slice xs s e"
  by (auto simp: slice_def intro!: nth_equalityI)

lemma slice_Cons:
  assumes "s < e" and "e \<le> length xs"
  shows "slice xs s e = xs ! s # slice xs (Suc s) e"
proof -
  have "e - s = Suc (e - Suc s)" using assms by simp
  moreover have "drop s xs = xs ! s # drop (Suc s) xs" using assms by (simp add: Cons_nth_drop_Suc)
  ultimately show ?thesis by (simp add: slice_def)
qed

lemma slice_to_end: "slice xs s (length xs) = drop s xs"
  by (simp add: slice_def)

lemma slice_empty [simp]: "slice xs s s = []"
  by (simp add: slice_def)

fun chain :: "nat \<Rightarrow> (nat \<times> nat) list \<Rightarrow> nat \<Rightarrow> bool" where
  "chain a [] b \<longleftrightarrow> a = b"
| "chain a ((s, e) # us) b \<longleftrightarrow> s = a \<and> s < e \<and> chain e us b"

lemma chain_le: "chain a us b \<Longrightarrow> a \<le> b"
  by (induction a us b rule: chain.induct) auto

lemma chain_bounds: "chain a us b \<Longrightarrow> (s, e) \<in> set us \<Longrightarrow> a \<le> s \<and> s < e \<and> e \<le> b"
  by (induction a us b rule: chain.induct) (auto dest: chain_le)

lemma tool_end_le: "j \<le> t \<Longrightarrow> tool_end ms j t \<le> t"
proof (induction ms j t rule: tool_end.induct)
  case (1 ms j t)
  then show ?case by (subst tool_end.simps) auto
qed

lemma tool_end_tools: "j \<le> i \<Longrightarrow> i < tool_end ms j t \<Longrightarrow> has_role (ms ! i) ''tool''"
proof (induction ms j t rule: tool_end.induct)
  case (1 ms j t)
  then show ?case
    by (subst (asm) (2) tool_end.simps) (auto split: if_splits simp: le_less_Suc_eq Suc_le_eq dest: le_imp_less_or_eq)
qed

lemma tool_end_stops: "tool_end ms j t < t \<Longrightarrow> \<not> has_role (ms ! tool_end ms j t) ''tool''"
proof (induction ms j t rule: tool_end.induct)
  case (1 ms j t)
  show ?case
  proof (cases "j < t \<and> has_role (ms ! j) ''tool''")
    case True
    then have "tool_end ms j t = tool_end ms (Suc j) t" by (subst tool_end.simps) simp
    with 1 True show ?thesis by simp
  next
    case False
    then have "tool_end ms j t = j" by (subst tool_end.simps) auto
    with 1(2) False show ?thesis by simp
  qed
qed

lemma fit_units_chain: "i \<le> t \<Longrightarrow> chain i (fit_units ms i t) t"
proof (induction ms i t rule: fit_units.induct)
  case (1 ms i t)
  have "Suc i \<le> tool_end ms (Suc i) t" by (rule tool_end_ge)
  moreover have "i < t \<Longrightarrow> tool_end ms (Suc i) t \<le> t" by (rule tool_end_le) simp
  ultimately show ?case using 1 by (subst fit_units.simps) auto
qed

lemma chain_concat:
  "chain a us b \<Longrightarrow> concat (map (\<lambda>(s, e). slice ms s e) us) = slice ms a b"
  by (induction a us b rule: chain.induct) (auto simp: slice_append dest: chain_le)

section \<open>What the drop loop does\<close>

lemma drop_loop_take:
  "\<exists>j \<le> length order. drop_loop budget us sizes kinds order st = fold (drop_unit us sizes kinds) (take j order) st \<and>
     (j < length order \<longrightarrow> ds_running (fold (drop_unit us sizes kinds) (take j order) st) \<le> budget) \<and>
     (\<forall>i < j. budget < ds_running (fold (drop_unit us sizes kinds) (take i order) st))"
proof (induction order arbitrary: st)
  case Nil
  then show ?case by simp
next
  case (Cons u order)
  show ?case
  proof (cases "ds_running st \<le> budget")
    case True
    then show ?thesis by (intro exI[of _ 0]) simp
  next
    case False
    let ?st = "drop_unit us sizes kinds u st"
    obtain j where j: "j \<le> length order"
        "drop_loop budget us sizes kinds order ?st = fold (drop_unit us sizes kinds) (take j order) ?st"
        "j < length order \<longrightarrow> ds_running (fold (drop_unit us sizes kinds) (take j order) ?st) \<le> budget"
        "\<forall>i < j. budget < ds_running (fold (drop_unit us sizes kinds) (take i order) ?st)"
      using Cons.IH by blast
    have "budget < ds_running (fold (drop_unit us sizes kinds) (take i (u # order)) st)" if "i < Suc j" for i
      using that False j(4) by (cases i) auto
    with False j(1-3) show ?thesis by (intro exI[of _ "Suc j"]) simp
  qed
qed

lemma drop_unit_fields [simp]:
  "ds_running (drop_unit us sizes kinds u st) = ds_running st - sizes ! u"
  "ds_tokens (drop_unit us sizes kinds u st) = ds_tokens st + sizes ! u"
  "ds_units (drop_unit us sizes kinds u st) = Suc (ds_units st)"
  "ds_messages (drop_unit us sizes kinds u st) = ds_messages st + (snd (us ! u) - fst (us ! u))"
  "ds_keep (drop_unit us sizes kinds u st) = (ds_keep st)[u := False]"
  "ds_by_kind (drop_unit us sizes kinds u st) =
     dset (kinds ! u) (dget_or (ds_by_kind st) (kinds ! u) 0 + 1) (ds_by_kind st)"
  by (simp_all add: drop_unit_def split_def)

lemma drop_fold_counts:
  "ds_running (fold (drop_unit us sizes kinds) D st) = ds_running st - sum_list (map ((!) sizes) D)"
  "ds_tokens (fold (drop_unit us sizes kinds) D st) = ds_tokens st + sum_list (map ((!) sizes) D)"
  "ds_units (fold (drop_unit us sizes kinds) D st) = ds_units st + length D"
  "ds_messages (fold (drop_unit us sizes kinds) D st) =
     ds_messages st + sum_list (map (\<lambda>u. snd (us ! u) - fst (us ! u)) D)"
  "dget_or (ds_by_kind (fold (drop_unit us sizes kinds) D st)) k 0 =
     dget_or (ds_by_kind st) k 0 + length (filter (\<lambda>u. kinds ! u = k) D)"
  by (induction D arbitrary: st) simp_all

lemma drop_fold_keep:
  "length (ds_keep (fold (drop_unit us sizes kinds) D st)) = length (ds_keep st) \<and>
   (\<forall>i < length (ds_keep st). ds_keep (fold (drop_unit us sizes kinds) D st) ! i \<longleftrightarrow> ds_keep st ! i \<and> i \<notin> set D)"
proof (induction D arbitrary: st)
  case Nil
  then show ?case by simp
next
  case (Cons u D)
  have "(ds_keep st)[u := False] ! i \<longleftrightarrow> ds_keep st ! i \<and> i \<noteq> u" if "i < length (ds_keep st)" for i
    using that by (cases "u < length (ds_keep st)") (auto simp: nth_list_update list_update_beyond)
  with Cons[of "drop_unit us sizes kinds u st"] show ?case by auto
qed

lemma drop_order_set: "set (drop_order cs) = {u. u < length cs \<and> cs ! u \<noteq> Pinned}"
proof -
  have "droppable_tier c \<noteq> None \<longleftrightarrow> c \<noteq> Pinned" for c by (cases c) auto
  then show ?thesis by (auto simp: drop_order_def)
qed

lemma drop_order_distinct: "distinct (drop_order cs)"
  by (simp add: drop_order_def)

definition request_units :: "message list \<Rightarrow> (nat \<times> nat) list" where
  "request_units ms = fit_units ms (head_end ms) (length ms)"

definition request_size :: "message list \<Rightarrow> int" where
  "request_size ms = sum_list (map estimate_message_tokens ms)"

definition kept_request :: "message list \<Rightarrow> nat list \<Rightarrow> message list" where
  "kept_request ms D = take (head_end ms) ms @
     concat (map (\<lambda>u. case request_units ms ! u of (s, e) \<Rightarrow> slice ms s e)
       (filter (\<lambda>u. u \<notin> set D) [0..<length (request_units ms)]))"

lemma head_end_le: "head_end ms \<le> length ms"
  by (simp add: head_end_def length_takeWhile_le)

lemma request_chain: "chain (head_end ms) (request_units ms) (length ms)"
  by (simp add: request_units_def fit_units_chain head_end_le)

lemma unit_bounds:
  assumes "u < length (request_units ms)" and "request_units ms ! u = (s, e)"
  shows "head_end ms \<le> s \<and> s < e \<and> e \<le> length ms"
  using chain_bounds[OF request_chain, of s e] assms by (metis nth_mem)

lemma request_size_append [simp]: "request_size (xs @ ys) = request_size xs + request_size ys"
  by (simp add: request_size_def)

lemma request_size_concat: "request_size (concat xss) = sum_list (map request_size xss)"
  by (induction xss) (simp_all, simp add: request_size_def)

lemma unit_sizes_nth:
  assumes "u < length (request_units ms)" and "request_units ms ! u = (s, e)"
  shows "unit_sizes (map estimate_message_tokens ms) (request_units ms) ! u = request_size (slice ms s e)"
proof -
  have b: "e \<le> length ms" using unit_bounds[OF assms] by simp
  have "map ((!) (map estimate_message_tokens ms)) [s..<e] = map estimate_message_tokens (map ((!) ms) [s..<e])"
    using b by simp
  also have "\<dots> = map estimate_message_tokens (slice ms s e)" by (simp only: slice_nth[OF b])
  finally show ?thesis using assms by (simp add: unit_sizes_def request_size_def)
qed

lemma unit_classes_length: "unit_classes ms rp sp k ids = Inr cs \<Longrightarrow> length cs = length (request_units ms)"
  by (auto simp: unit_classes_def request_units_def Let_def dest: mapM_r_length)

lemma dget_or_Nil: "dget_or [] x v = v"
  by (simp add: dget_or_def)

text \<open>An over-budget request drops the shortest prefix of the drop order that is enough.\<close>

lemma fit_drops:
  assumes "fit_request_to_budget rp sp ms budget k ids = Inr r" and "budget < request_size ms" and "ms \<noteq> []"
  obtains cs D j where "unit_classes ms rp sp k ids = Inr cs" "D = take j (drop_order cs)" "j \<le> length (drop_order cs)"
    "rf_messages r = kept_request ms D"
    "rf_kept_tokens r = request_size ms - rf_dropped_tokens r"
    "rf_dropped_tokens r = sum_list (map (\<lambda>u. case request_units ms ! u of (s, e) \<Rightarrow> request_size (slice ms s e)) D)"
    "rf_dropped_units r = length D"
    "rf_dropped_messages r = sum_list (map (\<lambda>u. snd (request_units ms ! u) - fst (request_units ms ! u)) D)"
    "\<And>x. dget_or (rf_dropped_by_kind r) x 0 =
       length (filter (\<lambda>u. (case request_units ms ! u of (s, e) \<Rightarrow> unit_kind_of rp sp ms s e) = x) D)"
    "j < length (drop_order cs) \<longrightarrow> rf_kept_tokens r \<le> budget"
    "\<forall>i < j. budget < request_size ms - sum_list (map (\<lambda>u. case request_units ms ! u of (s, e) \<Rightarrow>
       request_size (slice ms s e)) (take i (drop_order cs)))"
proof -
  let ?us = "request_units ms"
  let ?sizes = "unit_sizes (map estimate_message_tokens ms) ?us"
  let ?kinds = "map (\<lambda>(s, e). unit_kind_of rp sp ms s e) ?us"
  let ?st = "\<lparr>ds_keep = replicate (length ?us) True, ds_running = request_size ms, ds_units = 0, ds_messages = 0,
                  ds_tokens = 0, ds_by_kind = []\<rparr>"
  obtain cs where cs: "unit_classes ms rp sp k ids = Inr cs"
    using assms by (auto simp: fit_request_to_budget_def Let_def request_size_def rbind_eq_Inr split: if_splits)
  note len = unit_classes_length[OF cs]
  obtain j where j: "j \<le> length (drop_order cs)"
      "drop_loop budget ?us ?sizes ?kinds (drop_order cs) ?st = fold (drop_unit ?us ?sizes ?kinds) (take j (drop_order cs)) ?st"
      "j < length (drop_order cs) \<longrightarrow> ds_running (fold (drop_unit ?us ?sizes ?kinds) (take j (drop_order cs)) ?st) \<le> budget"
      "\<forall>i < j. budget < ds_running (fold (drop_unit ?us ?sizes ?kinds) (take i (drop_order cs)) ?st)"
    using drop_loop_take[of "drop_order cs" budget ?us ?sizes ?kinds ?st] by blast
  let ?D = "take j (drop_order cs)"
  let ?F = "fold (drop_unit ?us ?sizes ?kinds) ?D ?st"
  have in_us: "u < length ?us" if "u \<in> set (take i (drop_order cs))" for u i
    using that len drop_order_set[of cs] by (auto dest: in_set_takeD)
  have sz: "map ((!) ?sizes) (take i (drop_order cs)) =
      map (\<lambda>u. case ?us ! u of (s, e) \<Rightarrow> request_size (slice ms s e)) (take i (drop_order cs))" for i
    using in_us by (intro map_cong refl) (auto split: prod.splits intro: unit_sizes_nth)
  have kd: "filter (\<lambda>u. ?kinds ! u = x) ?D = filter (\<lambda>u. (case ?us ! u of (s, e) \<Rightarrow> unit_kind_of rp sp ms s e) = x) ?D" for x
    using in_us by (intro filter_cong refl) simp
  have r: "r = \<lparr>rf_messages = fitted_messages ms ?us (ds_keep ?F), rf_dropped_units = ds_units ?F,
        rf_dropped_messages = ds_messages ?F, rf_dropped_tokens = ds_tokens ?F,
        rf_kept_tokens = ds_running ?F, rf_dropped_by_kind = ds_by_kind ?F\<rparr>"
    using assms cs j(2)
    by (auto simp: fit_request_to_budget_def Let_def request_size_def request_units_def split: if_splits)
  have "fitted_messages ms ?us (ds_keep ?F) = kept_request ms ?D"
    using drop_fold_keep[of ?us ?sizes ?kinds ?D ?st]
    by (auto simp: fitted_messages_def kept_request_def intro!: arg_cong[where f = concat] arg_cong[where f = "map _"] filter_cong)
  then show thesis
    using j(1,3,4) by (intro that[OF cs refl j(1)]) (simp_all add: r drop_fold_counts sz kd dget_or_Nil)
qed

lemma fit_fits:
  "request_size ms \<le> budget \<or> ms = [] \<Longrightarrow> fit_request_to_budget rp sp ms budget k ids =
     Inr \<lparr>rf_messages = ms, rf_dropped_units = 0, rf_dropped_messages = 0, rf_dropped_tokens = 0,
          rf_kept_tokens = request_size ms, rf_dropped_by_kind = []\<rparr>"
  by (auto simp: fit_request_to_budget_def request_size_def Let_def)

lemma kept_request_nil: "kept_request ms [] = ms"
proof -
  have "map (\<lambda>u. case request_units ms ! u of (s, e) \<Rightarrow> slice ms s e) [0..<length (request_units ms)]
      = map (\<lambda>(s, e). slice ms s e) (request_units ms)"
    by (rule nth_equalityI) simp_all
  then have "kept_request ms [] = take (head_end ms) ms @ concat (map (\<lambda>(s, e). slice ms s e) (request_units ms))"
    by (simp add: kept_request_def)
  then show ?thesis by (simp add: chain_concat[OF request_chain] slice_to_end)
qed

text \<open>Every result is the request less some of its droppable units.\<close>

lemma fit_kept:
  assumes "fit_request_to_budget rp sp ms budget k ids = Inr r"
  obtains D where "rf_messages r = kept_request ms D" "distinct D" "\<And>u. u \<in> set D \<Longrightarrow> u < length (request_units ms)"
    "\<And>cs u. unit_classes ms rp sp k ids = Inr cs \<Longrightarrow> u \<in> set D \<Longrightarrow> cs ! u \<noteq> Pinned"
    "D \<noteq> [] \<longrightarrow> (\<exists>cs. unit_classes ms rp sp k ids = Inr cs)"
proof (cases "request_size ms \<le> budget \<or> ms = []")
  case True
  with assms have "rf_messages r = ms" by (auto simp: fit_fits)
  then show thesis by (intro that[of "[]"]) (simp_all add: kept_request_nil)
next
  case False
  then have "budget < request_size ms" "ms \<noteq> []" by auto
  from fit_drops[OF assms this] obtain cs D j where d: "unit_classes ms rp sp k ids = Inr cs"
      "D = take j (drop_order cs)" "rf_messages r = kept_request ms D" by metis
  have "set D \<subseteq> {u. u < length (request_units ms) \<and> cs ! u \<noteq> Pinned}"
    using d(2) drop_order_set[of cs] unit_classes_length[OF d(1)] by (auto dest: in_set_takeD)
  with d show thesis by (intro that[of D]) (auto simp: distinct_take drop_order_distinct)
qed

section \<open>What the send seam keeps\<close>

lemma subseq_concat_map: "subseq xs ys \<Longrightarrow> subseq (concat (map f xs)) (concat (map f ys))"
  by (induction rule: list_emb.induct) (auto intro: list_emb_append2 list_emb_append_mono)

lemma kept_subseq: "subseq (kept_request ms D) ms"
proof -
  have "subseq (kept_request ms D) (kept_request ms [])"
    unfolding kept_request_def
    by (intro list_emb_append_mono subseq_order.order_refl subseq_concat_map) (simp add: subseq_filter_left)
  then show ?thesis by (simp add: kept_request_nil)
qed

lemma take_head: "take (head_end ms) ms = takeWhile (\<lambda>m. has_role m ''system'') ms"
  unfolding head_end_def by (rule takeWhile_eq_take[symmetric])

text \<open>
  Fitting a request never touches the base prompt and never reorders: the result starts with
  the whole leading run of system messages and is a subsequence of the request.
\<close>

theorem fit_pins_system_head:
  assumes "fit_request_to_budget rp sp ms budget k ids = Inr r"
  shows "prefix (takeWhile (\<lambda>m. has_role m ''system'') ms) (rf_messages r) \<and> subseq (rf_messages r) ms"
proof -
  obtain D where r: "rf_messages r = kept_request ms D" using fit_kept[OF assms] by metis
  have "prefix (takeWhile (\<lambda>m. has_role m ''system'') ms) (kept_request ms D)"
    unfolding kept_request_def take_head by (rule prefixI) (rule refl)
  then show ?thesis unfolding r using kept_subseq by blast
qed

lemma sum_kept_dropped:
  fixes f :: "nat \<Rightarrow> 'a::comm_monoid_add"
  assumes "distinct D" and "\<And>u. u \<in> set D \<Longrightarrow> u < n"
  shows "sum_list (map f (filter (\<lambda>u. u \<notin> set D) [0..<n])) + sum_list (map f D) = sum_list (map f [0..<n])"
proof -
  have "sum_list (map f (filter (\<lambda>u. u \<notin> set D) [0..<n])) = sum f ({0..<n} - set D)"
    by (subst sum_list_distinct_conv_sum_set) (auto intro: sum.cong)
  moreover have "sum_list (map f D) = sum f (set D)"
    using assms(1) by (rule sum_list_distinct_conv_sum_set)
  moreover have "sum_list (map f [0..<n]) = sum f {0..<n}"
    by (subst sum_list_distinct_conv_sum_set) auto
  moreover have "set D \<subseteq> {0..<n}" using assms(2) by auto
  ultimately show ?thesis by (simp add: sum.subset_diff)
qed

lemma kept_measure:
  assumes "distinct D" and "\<And>u. u \<in> set D \<Longrightarrow> u < length (request_units ms)"
    and app: "\<And>xs ys. h (xs @ ys) = h xs + h ys" and nil: "h [] = (0::'a::ab_group_add)"
  shows "h (kept_request ms D) + sum_list (map (\<lambda>u. case request_units ms ! u of (s, e) \<Rightarrow> h (slice ms s e)) D) = h ms"
proof -
  let ?g = "\<lambda>u. case request_units ms ! u of (s, e) \<Rightarrow> slice ms s e"
  let ?f = "\<lambda>u. case request_units ms ! u of (s, e) \<Rightarrow> h (slice ms s e)"
  have cc: "h (concat xss) = sum_list (map h xss)" for xss by (induction xss) (simp_all add: app nil)
  have g: "h \<circ> ?g = ?f" by (auto simp: fun_eq_iff split: prod.splits)
  have "h (kept_request ms E) = h (take (head_end ms) ms) +
      sum_list (map ?f (filter (\<lambda>u. u \<notin> set E) [0..<length (request_units ms)]))" for E
    by (simp only: kept_request_def app cc map_map g)
  from this[of D] this[of "[]"] sum_kept_dropped[OF assms(1,2), of ?f] show ?thesis
    by (simp add: kept_request_nil)
qed

lemma dropped_lengths:
  assumes "\<And>u. u \<in> set D \<Longrightarrow> u < length (request_units ms)"
  shows "int (sum_list (map (\<lambda>u. snd (request_units ms ! u) - fst (request_units ms ! u)) D)) =
    sum_list (map (\<lambda>u. case request_units ms ! u of (s, e) \<Rightarrow> int (length (slice ms s e))) D)"
proof -
  have "snd (request_units ms ! u) - fst (request_units ms ! u) =
      (case request_units ms ! u of (s, e) \<Rightarrow> length (slice ms s e))" if "u \<in> set D" for u
  proof -
    obtain s e where u: "request_units ms ! u = (s, e)" by fastforce
    then show ?thesis using unit_bounds[OF assms[OF that] u] by (auto simp: slice_def min_def)
  qed
  then have "map (\<lambda>u. int (snd (request_units ms ! u) - fst (request_units ms ! u))) D =
      map (\<lambda>u. case request_units ms ! u of (s, e) \<Rightarrow> int (length (slice ms s e))) D"
    by (intro map_cong refl) (simp split: prod.splits)
  then have "sum_list (map (\<lambda>u. int (snd (request_units ms ! u) - fst (request_units ms ! u))) D) =
      sum_list (map (\<lambda>u. case request_units ms ! u of (s, e) \<Rightarrow> int (length (slice ms s e))) D)" by (simp only:)
  moreover have "int (sum_list (map f D)) = sum_list (map (\<lambda>u. int (f u)) D)" for f :: "nat \<Rightarrow> nat"
    by (induction D) simp_all
  ultimately show ?thesis by (simp only:)
qed

lemma kinds_sum:
  "length (filter (\<lambda>u. g u = Conversation) D) + length (filter (\<lambda>u. g u = Trail) D) +
   length (filter (\<lambda>u. g u = Summary) D) + length (filter (\<lambda>u. g u = Retrieval) D) = length D"
proof (induction D)
  case (Cons u D)
  then show ?case by (cases "g u") simp_all
qed simp

lemma fit_counts:
  assumes "fit_request_to_budget rp sp ms budget k ids = Inr r"
  shows "rf_kept_tokens r = request_size (rf_messages r) \<and>
    rf_kept_tokens r + rf_dropped_tokens r = request_size ms \<and>
    length (rf_messages r) + rf_dropped_messages r = length ms \<and>
    dget_or (rf_dropped_by_kind r) Conversation 0 + dget_or (rf_dropped_by_kind r) Trail 0 +
      dget_or (rf_dropped_by_kind r) Summary 0 + dget_or (rf_dropped_by_kind r) Retrieval 0 = rf_dropped_units r"
proof (cases "request_size ms \<le> budget \<or> ms = []")
  case True
  with assms show ?thesis by (auto simp: fit_fits dget_or_Nil)
next
  case False
  then have "budget < request_size ms" "ms \<noteq> []" by auto
  note d = fit_drops[OF assms this]
  show ?thesis
  proof (rule d)
    fix cs D j
    assume a: "unit_classes ms rp sp k ids = Inr cs" "D = take j (drop_order cs)"
      "rf_messages r = kept_request ms D" "rf_kept_tokens r = request_size ms - rf_dropped_tokens r"
      "rf_dropped_tokens r = sum_list (map (\<lambda>u. case request_units ms ! u of (s, e) \<Rightarrow> request_size (slice ms s e)) D)"
      "rf_dropped_units r = length D"
      "rf_dropped_messages r = sum_list (map (\<lambda>u. snd (request_units ms ! u) - fst (request_units ms ! u)) D)"
      "\<And>x. dget_or (rf_dropped_by_kind r) x 0 =
         length (filter (\<lambda>u. (case request_units ms ! u of (s, e) \<Rightarrow> unit_kind_of rp sp ms s e) = x) D)"
    have D: "distinct D" "\<And>u. u \<in> set D \<Longrightarrow> u < length (request_units ms)"
      using a(2) drop_order_set[of cs] unit_classes_length[OF a(1)] drop_order_distinct[of cs]
      by (auto dest: in_set_takeD simp: distinct_take)
    have "request_size (kept_request ms D) + rf_dropped_tokens r = request_size ms"
      unfolding a(5) by (rule kept_measure[OF D]) (simp_all add: request_size_def)
    moreover have "int (length (kept_request ms D)) + int (rf_dropped_messages r) = int (length ms)"
      using kept_measure[OF D, of "\<lambda>xs. int (length xs)"] dropped_lengths[of D ms] D(2) a(7) by simp
    then have "length (kept_request ms D) + rf_dropped_messages r = length ms" by linarith
    ultimately show ?thesis using a(3,4) by (simp add: a(6,8) kinds_sum)
  qed
qed

text \<open>
  The counters of a fit are exact: the kept estimate is the estimate of the returned list, kept
  and dropped add up to the request, in tokens and in messages, and the breakdown by kind adds up
  to the dropped units.
\<close>

theorem fit_accounting:
  assumes "fit_request_to_budget rp sp ms budget k ids = Inr r"
  shows "rf_kept_tokens r = request_size (rf_messages r) \<and>
    rf_kept_tokens r + rf_dropped_tokens r = request_size ms \<and>
    length (rf_messages r) + rf_dropped_messages r = length ms \<and>
    dget_or (rf_dropped_by_kind r) Conversation 0 + dget_or (rf_dropped_by_kind r) Trail 0 +
      dget_or (rf_dropped_by_kind r) Summary 0 + dget_or (rf_dropped_by_kind r) Retrieval 0 = rf_dropped_units r"
  using assms by (rule fit_counts)

lemma kept_request_cong: "set D = set E \<Longrightarrow> kept_request ms D = kept_request ms E"
  by (simp add: kept_request_def)

lemma kept_take_size:
  assumes "unit_classes ms rp sp k ids = Inr cs"
  shows "request_size (kept_request ms (take i (drop_order cs))) = request_size ms -
    sum_list (map (\<lambda>u. case request_units ms ! u of (s, e) \<Rightarrow> request_size (slice ms s e)) (take i (drop_order cs)))"
proof -
  have "distinct (take i (drop_order cs))" by (simp add: distinct_take drop_order_distinct)
  moreover have "\<And>u. u \<in> set (take i (drop_order cs)) \<Longrightarrow> u < length (request_units ms)"
    using drop_order_set[of cs] unit_classes_length[OF assms] by (auto dest: in_set_takeD)
  ultimately have "request_size (kept_request ms (take i (drop_order cs))) +
    sum_list (map (\<lambda>u. case request_units ms ! u of (s, e) \<Rightarrow> request_size (slice ms s e)) (take i (drop_order cs))) = request_size ms"
    by (rule kept_measure) (simp_all add: request_size_def)
  then show ?thesis by linarith
qed

lemma drop_order_sorted:
  assumes "a < b" and "b < length (drop_order cs)"
  shows "(the (droppable_tier (cs ! (drop_order cs ! a))), drop_order cs ! a) <
    (the (droppable_tier (cs ! (drop_order cs ! b))), drop_order cs ! b)"
proof -
  let ?f = "\<lambda>u. (the (droppable_tier (cs ! u)), u)"
  have "sorted (map ?f (drop_order cs))" by (simp add: drop_order_def)
  with assms have "map ?f (drop_order cs) ! a \<le> map ?f (drop_order cs) ! b"
    by (intro sorted_nth_mono) simp_all
  moreover have "drop_order cs ! a \<noteq> drop_order cs ! b"
    using assms drop_order_distinct[of cs] by (simp add: nth_eq_iff_index_eq)
  ultimately show ?thesis using assms by (simp add: less_prod_def' less_eq_prod_def) linarith
qed

text \<open>
  C33: an over-budget request loses exactly the droppable units it must: the shortest prefix of the
  drop order that brings the estimate within the budget, or all droppable units when even that
  is not enough. The drop order lists exactly the units that are not pinned, lower tiers first
  and, within a tier, older units first.
\<close>

theorem fit_drops_by_priority:
  assumes "fit_request_to_budget rp sp ms budget k ids = Inr r" and "budget < request_size ms" and "ms \<noteq> []"
  shows "\<exists>cs j. unit_classes ms rp sp k ids = Inr cs \<and>
    rf_messages r = kept_request ms (take j (drop_order cs)) \<and>
    (rf_kept_tokens r \<le> budget \<or> j = length (drop_order cs)) \<and>
    (\<forall>i < j. budget < request_size (kept_request ms (take i (drop_order cs)))) \<and>
    set (drop_order cs) = {u. u < length cs \<and> cs ! u \<noteq> Pinned} \<and>
    (\<forall>b < length (drop_order cs). \<forall>a < b.
       (the (droppable_tier (cs ! (drop_order cs ! a))), drop_order cs ! a) <
       (the (droppable_tier (cs ! (drop_order cs ! b))), drop_order cs ! b))"
proof (rule fit_drops[OF assms], goal_cases)
  case (1 cs D j)
  then show ?thesis
    using kept_take_size[OF 1(1)] drop_order_set[of cs] drop_order_sorted[of _ _ cs]
    by (intro exI[of _ cs] exI[of _ j]) auto
qed

lemma unit_of_kept:
  assumes "u < length (request_units ms)" and "u \<notin> set D" and "request_units ms ! u = (s, e)"
  shows "sublist (slice ms s e) (kept_request ms D)"
proof -
  let ?g = "\<lambda>u. case request_units ms ! u of (s, e) \<Rightarrow> slice ms s e"
  have "u \<in> set (filter (\<lambda>u. u \<notin> set D) [0..<length (request_units ms)])" using assms by simp
  then obtain xs ys where x: "filter (\<lambda>u. u \<notin> set D) [0..<length (request_units ms)] = xs @ u # ys"
    by (meson split_list)
  have "kept_request ms D = (take (head_end ms) ms @ concat (map ?g xs)) @ slice ms s e @ concat (map ?g ys)"
    unfolding kept_request_def x using assms(3) by simp
  then show ?thesis unfolding sublist_def by blast
qed

lemma mapM_r_nth: "mapM_r f xs = Inr ys \<Longrightarrow> i < length xs \<Longrightarrow> f (xs ! i) = Inr (ys ! i)"
proof (induction xs arbitrary: ys i)
  case (Cons x xs)
  then show ?case by (cases i) (auto simp: rbind_eq_Inr)
qed simp

lemma any_pinned_hit:
  "any_pinned ids ms = Inr b \<Longrightarrow> m \<in> set ms \<Longrightarrow> getv m ''tool_call_id'' = PStr c \<Longrightarrow> c \<in> set ids \<Longrightarrow> b"
  by (induction ids ms rule: any_pinned.induct) (auto split: pyval.splits if_splits)

definition request_turn_start :: "message list \<Rightarrow> nat" where
  "request_turn_start ms = current_turn_start ms (head_end ms) (length ms)"

definition request_recent_pairs :: "message list \<Rightarrow> int \<Rightarrow> nat list" where
  "request_recent_pairs ms k = pinned_recent k (current_tool_units ms (request_turn_start ms) (request_units ms))"

lemma unit_class_nth:
  assumes "unit_classes ms rp sp k ids = Inr cs" and "u < length (request_units ms)"
  shows "classify_unit ids ms (request_turn_start ms) (request_recent_pairs ms k)
    (map (\<lambda>(s, e). unit_kind_of rp sp ms s e) (request_units ms)) (request_units ms) u = Inr (cs ! u)"
  using mapM_r_nth[of _ "[0..<length (request_units ms)]" cs u] assms
  by (simp add: unit_classes_def request_units_def request_turn_start_def request_recent_pairs_def Let_def)

lemma recent_pairs_current:
  "u \<in> set (request_recent_pairs ms k) \<Longrightarrow> request_turn_start ms \<le> fst (request_units ms ! u) \<and>
     announces (ms ! fst (request_units ms ! u))"
  by (auto simp: request_recent_pairs_def pinned_recent_def current_tool_units_def split: if_splits dest: in_set_dropD)

lemma pinned_class:
  assumes "unit_classes ms rp sp k ids = Inr cs" and "u < length (request_units ms)" and u: "request_units ms ! u = (s, e)"
    and "u \<in> set (request_recent_pairs ms k) \<or> (request_turn_start ms \<le> s \<and> \<not> announces (ms ! s)) \<or>
      (\<exists>m \<in> set (slice ms s e). \<exists>c \<in> set ids. getv m ''tool_call_id'' = PStr c)"
  shows "cs ! u = Pinned"
proof -
  obtain pin where pin: "(if ids \<noteq> [] then any_pinned ids (slice ms s e) else Inr False) = Inr pin"
    and c: "cs ! u = (if pin then Pinned else if request_turn_start ms \<le> s \<and> \<not> announces (ms ! s) then Pinned
        else if request_turn_start ms \<le> s \<and> announces (ms ! s)
          then (if u \<in> set (request_recent_pairs ms k) then Pinned else Droppable tier_current_older_trail)
        else Droppable (drop_priority (map (\<lambda>(s, e). unit_kind_of rp sp ms s e) (request_units ms) ! u)))"
    using unit_class_nth[OF assms(1,2)] unfolding classify_unit_def Let_def u prod.case rbind_eq_Inr
    by (auto split del: if_split)
  have "pin" if "\<exists>m \<in> set (slice ms s e). \<exists>c \<in> set ids. getv m ''tool_call_id'' = PStr c"
    using that pin any_pinned_hit by (auto split: if_splits)
  then show ?thesis using assms(4) c recent_pairs_current[of u ms k] u by auto
qed

lemma fit_keeps_units:
  assumes "fit_request_to_budget rp sp ms budget k ids = Inr r"
    and "u < length (request_units ms)" and "request_units ms ! u = (s, e)"
    and "u \<in> set (request_recent_pairs ms k) \<or> (request_turn_start ms \<le> s \<and> \<not> announces (ms ! s)) \<or>
      (\<exists>m \<in> set (slice ms s e). \<exists>c \<in> set ids. getv m ''tool_call_id'' = PStr c)"
  shows "sublist (slice ms s e) (rf_messages r)"
proof (rule fit_kept[OF assms(1)])
  fix D assume D: "rf_messages r = kept_request ms D"
    "\<And>cs u. unit_classes ms rp sp k ids = Inr cs \<Longrightarrow> u \<in> set D \<Longrightarrow> cs ! u \<noteq> Pinned"
    "D \<noteq> [] \<longrightarrow> (\<exists>cs. unit_classes ms rp sp k ids = Inr cs)"
  have "u \<notin> set D"
  proof
    assume u: "u \<in> set D"
    then have "D \<noteq> []" by auto
    with D(3) obtain cs where cs: "unit_classes ms rp sp k ids = Inr cs" by blast
    with D(2)[OF cs u] pinned_class[OF cs assms(2-4)] show False by simp
  qed
  then show ?thesis unfolding D(1) by (rule unit_of_kept[OF assms(2) _ assms(3)])
qed

section \<open>Pairs stay together\<close>

text \<open>
  A request is paired when every run of tool messages follows the assistant message that
  announces the calls.
\<close>

fun paired :: "bool \<Rightarrow> message list \<Rightarrow> bool" where
  "paired opened [] = True"
| "paired opened (m # ms) = (if has_role m ''tool'' then opened \<and> paired opened ms else paired (announces m) ms)"

fun unit_block :: "message list \<Rightarrow> bool" where
  "unit_block [] = True"
| "unit_block (m # ts) = (\<not> has_role m ''tool'' \<and> (\<forall>t \<in> set ts. has_role t ''tool'') \<and> (ts \<noteq> [] \<longrightarrow> announces m))"

lemma paired_tools: "\<forall>t \<in> set ts. has_role t ''tool'' \<Longrightarrow> opened \<or> ts = [] \<Longrightarrow> paired opened ms \<Longrightarrow> paired opened (ts @ ms)"
  by (induction ts) auto

lemma paired_blocks: "\<forall>b \<in> set bs. unit_block b \<Longrightarrow> paired opened (concat bs)"
proof (induction bs arbitrary: opened)
  case (Cons b bs)
  then have "paired x (concat bs)" for x by simp
  with Cons.prems show ?case by (cases b) (auto intro!: paired_tools)
qed simp

lemma paired_append: "\<forall>m \<in> set xs. has_role m ''system'' \<Longrightarrow> paired False (xs @ ys) = paired False ys"
  by (induction xs) (auto simp: has_role_def announces_def)

lemma paired_rest: "\<forall>t \<in> set ts. has_role t ''tool'' \<Longrightarrow> paired opened (ts @ ms) \<Longrightarrow> paired opened ms"
  by (induction ts) auto

lemma paired_closed: "paired opened ms \<Longrightarrow> ms = [] \<or> \<not> has_role (hd ms) ''tool'' \<Longrightarrow> paired False ms"
  by (cases ms) auto

lemma units_are_blocks:
  "paired False (drop i ms) \<Longrightarrow> i \<le> length ms \<Longrightarrow> (s, e) \<in> set (fit_units ms i (length ms)) \<Longrightarrow> unit_block (slice ms s e)"
proof (induction ms i "length ms" rule: fit_units.induct)
  case (1 ms i)
  show ?case
  proof (cases "i < length ms")
    case False
    with "1.prems" show ?thesis by (subst (asm) fit_units.simps) simp
  next
    case True
    note d = Cons_nth_drop_Suc[OF True, symmetric]
    with "1.prems"(1) have nt: "\<not> has_role (ms ! i) ''tool''" and p: "paired (announces (ms ! i)) (drop (Suc i) ms)"
      by (auto simp: d split: if_splits)
    show ?thesis
    proof (cases "announces (ms ! i)")
      case a: True
      let ?j = "tool_end ms (Suc i) (length ms)"
      have j: "Suc i \<le> ?j" "?j \<le> length ms" using True tool_end_ge tool_end_le by simp_all
      have tools: "\<forall>t \<in> set (slice ms (Suc i) ?j). has_role t ''tool''"
        unfolding slice_nth[OF j(2), symmetric] by (auto intro: tool_end_tools)
      have sp: "drop (Suc i) ms = slice ms (Suc i) ?j @ drop ?j ms"
        using slice_append[OF j, of ms] by (simp add: slice_to_end)
      have "paired True (drop ?j ms)" using paired_rest[OF tools] p a unfolding sp by simp
      moreover have "drop ?j ms = [] \<or> \<not> has_role (hd (drop ?j ms)) ''tool''"
        using tool_end_stops[of ms "Suc i" "length ms"] by (auto simp: hd_drop_conv_nth)
      ultimately have IH: "(s, e) \<in> set (fit_units ms ?j (length ms)) \<Longrightarrow> unit_block (slice ms s e)"
        using "1.hyps"(1)[OF True a] paired_closed j(2) by simp
      have "unit_block (slice ms i ?j)"
        using nt tools a j by (simp add: slice_Cons)
      with IH "1.prems"(3) True a show ?thesis by (subst (asm) (2) fit_units.simps) auto
    next
      case a: False
      then have "paired False (drop (Suc i) ms)" using p by simp
      then have IH: "(s, e) \<in> set (fit_units ms (Suc i) (length ms)) \<Longrightarrow> unit_block (slice ms s e)"
        using "1.hyps"(2)[OF True a] True by simp
      have "unit_block (slice ms i (Suc i))" using nt True by (simp add: slice_Cons)
      with IH "1.prems"(3) True a show ?thesis by (subst (asm) (2) fit_units.simps) auto
    qed
  qed
qed

lemma head_all_system: "m \<in> set (take (head_end ms) ms) \<Longrightarrow> has_role m ''system''"
  by (auto simp: take_head dest: set_takeWhileD)

text \<open>
  Fitting never orphans a tool result: a request in which every tool message follows the
  assistant message that announced it is fitted to one with the same property.
\<close>

theorem fit_keeps_pairs:
  assumes "fit_request_to_budget rp sp ms budget k ids = Inr r" and "paired False ms"
  shows "paired False (rf_messages r)"
proof (rule fit_kept[OF assms(1)])
  fix D assume D: "rf_messages r = kept_request ms D"
  let ?g = "\<lambda>u. case request_units ms ! u of (s, e) \<Rightarrow> slice ms s e"
  let ?us = "filter (\<lambda>u. u \<notin> set D) [0..<length (request_units ms)]"
  have "paired False (take (head_end ms) ms @ drop (head_end ms) ms)" using assms(2) by simp
  then have p: "paired False (drop (head_end ms) ms)"
    using paired_append head_all_system by blast
  have "unit_block (?g u)" if "u \<in> set ?us" for u
  proof -
    obtain s e where u: "request_units ms ! u = (s, e)" by fastforce
    moreover have "u < length (request_units ms)" using that by simp
    ultimately have "(s, e) \<in> set (fit_units ms (head_end ms) (length ms))"
      unfolding request_units_def by (metis nth_mem)
    from units_are_blocks[OF p head_end_le this] show ?thesis by (simp add: u)
  qed
  then have "paired False (concat (map ?g ?us))" by (intro paired_blocks) simp
  then show ?thesis unfolding D kept_request_def
    using paired_append head_all_system by blast
qed

section \<open>The current turn and totality\<close>

lemma find_rev_upt:
  "find P (rev [h..<n]) = Some i \<Longrightarrow> h \<le> i \<and> i < n \<and> P i \<and> (\<forall>j. i < j \<and> j < n \<longrightarrow> \<not> P j)"
proof (induction n)
  case (Suc n)
  show ?case
  proof (cases "P n \<and> h \<le> n")
    case True
    with Suc.prems show ?thesis by (auto split: if_splits)
  next
    case False
    with Suc.prems have "find P (rev [h..<n]) = Some i" by (auto split: if_splits)
    with Suc.IH False show ?thesis by (auto simp: less_Suc_eq)
  qed
qed simp

lemma after_last_answer_spec:
  assumes "h \<le> n"
  shows "h \<le> after_last_answer ms h n \<and> after_last_answer ms h n \<le> n \<and>
    (\<forall>j. after_last_answer ms h n \<le> j \<and> j < n \<longrightarrow> \<not> plain_answer (ms ! j)) \<and>
    (h < after_last_answer ms h n \<longrightarrow> plain_answer (ms ! (after_last_answer ms h n - 1)))"
proof (cases "find (\<lambda>i. plain_answer (ms ! i)) (rev [h..<n])")
  case None
  then have "after_last_answer ms h n = h" by (simp add: after_last_answer_def)
  moreover from None have "\<forall>j. h \<le> j \<and> j < n \<longrightarrow> \<not> plain_answer (ms ! j)" by (auto simp: find_None_iff)
  ultimately show ?thesis using assms by simp
next
  case (Some i)
  from find_rev_upt[OF this] Some show ?thesis by (auto simp: after_last_answer_def)
qed

lemma find_upt:
  "find P [a..<n] = Some i \<Longrightarrow> a \<le> i \<and> i < n \<and> P i \<and> (\<forall>j. a \<le> j \<and> j < i \<longrightarrow> \<not> P j)"
proof (induction "n - a" arbitrary: a)
  case (Suc x)
  then have "[a..<n] = a # [Suc a..<n]" by (simp add: upt_rec)
  note up = this
  show ?case
  proof (cases "P a")
    case True
    with up Suc show ?thesis by auto
  next
    case False
    with up Suc.prems have "find P [Suc a..<n] = Some i" by simp
    moreover have "x = n - Suc a" using Suc(2) by simp
    ultimately have "Suc a \<le> i \<and> i < n \<and> P i \<and> (\<forall>j. Suc a \<le> j \<and> j < i \<longrightarrow> \<not> P j)"
      using Suc(1)[of "Suc a"] by blast
    with False show ?thesis by (metis Suc_leD Suc_leI le_neq_implies_less)
  qed
qed simp

text \<open>
  The current turn is found by position: it starts at a user message, no completed answer
  follows it, and it is the first such message: every earlier user message is followed by an
  answer before the turn.
\<close>

theorem current_turn_start_spec:
  assumes "current_turn_start ms h n = t" and "h \<le> n" and "t < n"
  shows "h \<le> t \<and> has_role (ms ! t) ''user'' \<and> (\<forall>j. t \<le> j \<and> j < n \<longrightarrow> \<not> plain_answer (ms ! j)) \<and>
    (\<forall>i. h \<le> i \<and> i < t \<and> has_role (ms ! i) ''user'' \<longrightarrow> (\<exists>j. i \<le> j \<and> j < t \<and> plain_answer (ms ! j)))"
proof -
  let ?a = "after_last_answer ms h n"
  note a = after_last_answer_spec[OF assms(2), of ms]
  from assms(1,3) have "find (\<lambda>i. has_role (ms ! i) ''user'') [?a..<n] = Some t"
    by (auto simp: current_turn_start_def split: option.splits)
  note t = find_upt[OF this]
  have "\<exists>j. i \<le> j \<and> j < t \<and> plain_answer (ms ! j)" if "h \<le> i" "i < t" "has_role (ms ! i) ''user''" for i
  proof -
    have "i < ?a" using that t by (meson leI)
    with that a t show ?thesis by (intro exI[of _ "?a - 1"]) auto
  qed
  with a t show ?thesis by (meson le_trans)
qed

section \<open>What is kept, seen from the messages\<close>

text \<open>
  The block of a message: an assistant message that announces calls goes with the tool messages that
  directly follow it, every other message stands alone.
\<close>

definition message_block :: "message list \<Rightarrow> nat \<Rightarrow> message list" where
  "message_block ms s = ms ! s #
     (if announces (ms ! s) then takeWhile (\<lambda>m. has_role m ''tool'') (drop (Suc s) ms) else [])"

text \<open>A message of the turn in progress: a user message at or before it has not been answered since.\<close>

definition in_current_turn :: "message list \<Rightarrow> nat \<Rightarrow> bool" where
  "in_current_turn ms s \<longleftrightarrow>
     (\<exists>i \<le> s. has_role (ms ! i) ''user'' \<and> (\<forall>j < length ms. i \<le> j \<longrightarrow> \<not> plain_answer (ms ! j)))"

text \<open>How many calls were announced after a message.\<close>

definition later_calls :: "message list \<Rightarrow> nat \<Rightarrow> nat" where
  "later_calls ms s = length (filter announces (drop (Suc s) ms))"

lemma tool_end_slice: "j \<le> length ms \<Longrightarrow> slice ms j (tool_end ms j (length ms)) = takeWhile (\<lambda>m. has_role m ''tool'') (drop j ms)"
proof (induction ms j "length ms" rule: tool_end.induct)
  case (1 ms j)
  show ?case
  proof (cases "j < length ms \<and> has_role (ms ! j) ''tool''")
    case True
    then have e: "tool_end ms j (length ms) = tool_end ms (Suc j) (length ms)" by (subst tool_end.simps) simp
    have "Suc j \<le> tool_end ms (Suc j) (length ms)" "tool_end ms (Suc j) (length ms) \<le> length ms"
      using True tool_end_ge tool_end_le by simp_all
    with True 1 show ?thesis
      unfolding e by (simp add: slice_Cons[of j] Cons_nth_drop_Suc[symmetric])
  next
    case False
    then have "tool_end ms j (length ms) = j" by (subst tool_end.simps) auto
    with False "1.prems" show ?thesis by (cases "drop j ms") (auto simp: nth_via_drop)
  qed
qed

lemma message_block_slice:
  assumes "s < length ms"
  shows "message_block ms s = slice ms s (if announces (ms ! s) then tool_end ms (Suc s) (length ms) else Suc s)"
proof (cases "announces (ms ! s)")
  case True
  have "Suc s \<le> tool_end ms (Suc s) (length ms)" "tool_end ms (Suc s) (length ms) \<le> length ms"
    using assms tool_end_ge tool_end_le by simp_all
  then show ?thesis using True assms tool_end_slice[of "Suc s" ms] by (simp add: message_block_def slice_Cons[of s])
next
  case False
  then show ?thesis using assms by (simp add: message_block_def slice_Cons[of s])
qed

lemma unit_starts_at:
  "i \<le> s \<Longrightarrow> s < t \<Longrightarrow> \<not> has_role (ms ! s) ''tool'' \<Longrightarrow>
     (s, if announces (ms ! s) then tool_end ms (Suc s) t else Suc s) \<in> set (fit_units ms i t)"
proof (induction ms i t rule: fit_units.induct)
  case (1 ms i t)
  show ?case
  proof (cases "s = i")
    case True
    with "1.prems" show ?thesis by (subst fit_units.simps) simp
  next
    case False
    have "tool_end ms (Suc i) t \<le> s" if "announces (ms ! i)"
    proof (rule ccontr)
      assume "\<not> tool_end ms (Suc i) t \<le> s"
      with tool_end_tools[of "Suc i" s ms t] False "1.prems" show False by simp
    qed
    with False "1.prems" "1.IH" show ?thesis by (subst fit_units.simps) auto
  qed
qed

lemma chain_starts: "chain a us b \<Longrightarrow> i < j \<Longrightarrow> j < length us \<Longrightarrow> fst (us ! i) < fst (us ! j)"
proof (induction a us b arbitrary: i j rule: chain.induct)
  case (2 a s e us b)
  then obtain j' where j: "j = Suc j'" by (cases j) auto
  have "e \<le> fst (us ! j')" using 2 j chain_bounds[of e us b "fst (us ! j')" "snd (us ! j')"] by simp
  with 2 j show ?case by (cases i) auto
qed simp

lemma current_turn_starts:
  assumes "in_current_turn ms s" and "s < length ms"
  shows "request_turn_start ms \<le> s"
proof -
  obtain i where i: "i \<le> s" "has_role (ms ! i) ''user''" "\<And>j. j < length ms \<Longrightarrow> i \<le> j \<Longrightarrow> \<not> plain_answer (ms ! j)"
    using assms(1) unfolding in_current_turn_def by blast
  have h: "head_end ms \<le> i"
  proof (rule ccontr)
    assume "\<not> head_end ms \<le> i"
    then have "has_role (ms ! i) ''system''"
      using set_takeWhileD[of "ms ! i" "\<lambda>m. has_role m ''system''" ms] takeWhile_nth[of i "\<lambda>m. has_role m ''system''" ms]
      by (metis head_end_def not_le_imp_less nth_mem)
    with i(2) show False by (simp add: has_role_def)
  qed
  let ?a = "after_last_answer ms (head_end ms) (length ms)"
  have a: "?a \<le> i"
  proof (rule ccontr)
    assume "\<not> ?a \<le> i"
    moreover have "head_end ms < ?a \<longrightarrow> plain_answer (ms ! (?a - 1))" "?a \<le> length ms" "head_end ms \<le> ?a"
      using after_last_answer_spec[OF head_end_le, of ms] by auto
    moreover have "0 < ?a" using \<open>\<not> ?a \<le> i\<close> by simp
    ultimately have "?a - 1 < length ms" "i \<le> ?a - 1" "plain_answer (ms ! (?a - 1))" using h by linarith+
    with i(3) show False by blast
  qed
  have "find (\<lambda>i. has_role (ms ! i) ''user'') [?a..<length ms] \<noteq> None"
    unfolding find_None_iff using a i assms(2) by force
  then obtain t where t: "find (\<lambda>i. has_role (ms ! i) ''user'') [?a..<length ms] = Some t" by blast
  note t' = find_upt[OF t]
  have "t \<le> i" using t' a i(2) by (meson not_le_imp_less)
  with t i(1) show ?thesis by (simp add: request_turn_start_def current_turn_start_def)
qed

text \<open>A pair with fewer than \<open>k\<close> calls after it is among the last \<open>k\<close> of the turn.\<close>

lemma last_of_filter:
  assumes "u < n" and "P u" and "card {v. u < v \<and> v < n \<and> P v} < m"
  shows "u \<in> set (drop (length (filter P [0..<n]) - m) (filter P [0..<n]))"
proof -
  have n: "[0..<n] = [0..<u] @ u # [Suc u..<n]"
    using assms(1) upt_add_eq_append[of 0 u "n - u"] by (simp add: upt_conv_Cons)
  have "set (filter P [Suc u..<n]) = {v. u < v \<and> v < n \<and> P v}" by auto
  then have "length (filter P [Suc u..<n]) = card {v. u < v \<and> v < n \<and> P v}"
    using distinct_card[of "filter P [Suc u..<n]"] by simp
  with assms(2,3) show ?thesis unfolding n by (simp add: drop_Cons')
qed

lemma recent_pairs_newest:
  assumes u: "u < length (request_units ms)" "request_units ms ! u = (s, e)"
    and s: "request_turn_start ms \<le> s" "announces (ms ! s)" and k: "int (later_calls ms s) < k"
  shows "u \<in> set (request_recent_pairs ms k)"
proof -
  let ?us = "request_units ms"
  let ?P = "\<lambda>v. request_turn_start ms \<le> fst (?us ! v) \<and> announces (ms ! fst (?us ! v))"
  have "card {v. u < v \<and> v < length ?us \<and> ?P v} \<le> card {j. s < j \<and> j < length ms \<and> announces (ms ! j)}"
  proof (rule card_inj_on_le)
    have "fst (?us ! v) < length ms" if "v < length ?us" for v
      using that unit_bounds[of v ms "fst (?us ! v)" "snd (?us ! v)"] by simp
    then show "(\<lambda>v. fst (?us ! v)) ` {v. u < v \<and> v < length ?us \<and> ?P v} \<subseteq> {j. s < j \<and> j < length ms \<and> announces (ms ! j)}"
      using chain_starts[OF request_chain[of ms], of u] u by fastforce
    show "inj_on (\<lambda>v. fst (?us ! v)) {v. u < v \<and> v < length ?us \<and> ?P v}"
      by (rule inj_onI) (use chain_starts[OF request_chain[of ms]] in \<open>auto, metis less_irrefl linorder_neqE_nat\<close>)
  qed simp
  also have "\<dots> = later_calls ms s"
  proof -
    have "card {j. s < j \<and> j < length ms \<and> announces (ms ! j)} = card ((\<lambda>i. Suc s + i) ` {i. i < length (drop (Suc s) ms) \<and> announces (drop (Suc s) ms ! i)})"
      by (rule arg_cong[of _ _ card]) (force simp: image_iff Suc_le_eq dest: less_imp_Suc_add)
    also have "\<dots> = card {i. i < length (drop (Suc s) ms) \<and> announces (drop (Suc s) ms ! i)}"
      by (rule card_image) (simp add: inj_on_def)
    finally show ?thesis by (simp only: later_calls_def length_filter_conv_card)
  qed
  finally have "card {v. u < v \<and> v < length ?us \<and> ?P v} < nat k" using k by simp
  from last_of_filter[of u "length ?us" ?P, OF u(1) _ this] u(2) s k show ?thesis
    by (simp add: request_recent_pairs_def pinned_recent_def current_tool_units_def)
qed

text \<open>
  C26: what the model still needs survives, however small the budget. Of the turn in progress (the
  messages from a user message on that no plain answer follows) every message that is neither a call
  nor a result is kept, and every call with fewer than \<open>k\<close> calls announced after it is kept together
  with the results that follow it; and so is, of any turn, a call or message whose block holds a
  result with a pinned tool call id.
\<close>

theorem fit_keeps_pinned:
  assumes "fit_request_to_budget rp sp ms budget k ids = Inr r"
    and "s < length ms" and "\<not> has_role (ms ! s) ''tool''"
    and "in_current_turn ms s \<and> (announces (ms ! s) \<longrightarrow> int (later_calls ms s) < k) \<or>
      (\<exists>m \<in> set (message_block ms s). \<exists>c \<in> set ids. getv m ''tool_call_id'' = PStr c)"
  shows "sublist (message_block ms s) (rf_messages r)"
proof (cases "head_end ms \<le> s")
  case False
  then have "ms ! s \<in> set (take (head_end ms) ms)"
    using assms(2) by (metis in_set_conv_nth length_take min_less_iff_conj not_le_imp_less nth_take)
  then have sys: "has_role (ms ! s) ''system''" "ms ! s \<in> set (take (head_end ms) ms)" using head_all_system by auto
  then have "message_block ms s = [ms ! s]" by (auto simp: message_block_def announces_def has_role_def)
  moreover obtain xs where "rf_messages r = take (head_end ms) ms @ xs"
    using fit_kept[OF assms(1)] unfolding kept_request_def by metis
  moreover obtain ys zs where "take (head_end ms) ms = ys @ ms ! s # zs" using split_list[OF sys(2)] by blast
  ultimately have "rf_messages r = ys @ message_block ms s @ (zs @ xs)" by simp
  then show ?thesis unfolding sublist_def by blast
next
  case True
  let ?e = "if announces (ms ! s) then tool_end ms (Suc s) (length ms) else Suc s"
  from unit_starts_at[OF True assms(2,3)] obtain u where
    u: "u < length (request_units ms)" "request_units ms ! u = (s, ?e)"
    unfolding request_units_def by (metis in_set_conv_nth)
  show ?thesis unfolding message_block_slice[OF assms(2)]
  proof (rule fit_keeps_units[OF assms(1) u])
    show "u \<in> set (request_recent_pairs ms k) \<or> (request_turn_start ms \<le> s \<and> \<not> announces (ms ! s)) \<or>
      (\<exists>m \<in> set (slice ms s ?e). \<exists>c \<in> set ids. getv m ''tool_call_id'' = PStr c)"
      using assms(4) current_turn_starts[of ms s] assms(2) recent_pairs_newest[OF u, of k]
      unfolding message_block_slice[OF assms(2), symmetric] by blast
  qed
qed

lemma any_pinned_total:
  "(\<And>m. m \<in> set ms \<Longrightarrow> (\<forall>x. getv m ''tool_call_id'' \<noteq> PList x) \<and> (\<forall>x. getv m ''tool_call_id'' \<noteq> PDict x)) \<Longrightarrow>
     \<exists>b. any_pinned ids ms = Inr b"
proof (induction ms)
  case (Cons m ms)
  then obtain b where "any_pinned ids ms = Inr b" by auto
  with Cons.prems[of m] show ?case by (cases "getv m ''tool_call_id''") auto
qed (intro exI[of _ False], simp)

lemma mapM_r_total: "(\<And>x. x \<in> set xs \<Longrightarrow> \<exists>y. f x = Inr y) \<Longrightarrow> \<exists>ys. mapM_r f xs = Inr ys"
proof (induction xs)
  case (Cons x xs)
  then obtain y ys where "f x = Inr y" "mapM_r f xs = Inr ys" by (meson list.set_intros)
  then show ?case by simp
qed simp

lemma fit_total:
  assumes "\<And>m. m \<in> set ms \<Longrightarrow> (\<forall>x. getv m ''tool_call_id'' \<noteq> PList x) \<and> (\<forall>x. getv m ''tool_call_id'' \<noteq> PDict x)"
  shows "\<exists>r. fit_request_to_budget rp sp ms budget k ids = Inr r"
proof -
  have "\<exists>c. classify_unit ids ms ts recent kinds us u = Inr c" for ts recent kinds us u
  proof -
    obtain s e where u: "us ! u = (s, e)" by fastforce
    have "set (slice ms s e) \<subseteq> set ms" by (auto simp: slice_def dest: in_set_takeD in_set_dropD)
    then obtain b where "any_pinned ids (slice ms s e) = Inr b"
      using any_pinned_total[of "slice ms s e" ids] assms by blast
    then show ?thesis by (simp add: classify_unit_def u Let_def)
  qed
  then have "\<exists>cs. unit_classes ms rp sp k ids = Inr cs"
    unfolding unit_classes_def Let_def by (intro mapM_r_total) blast
  then show ?thesis by (auto simp: fit_request_to_budget_def Let_def)
qed

section \<open>A request over its budget\<close>

definition say :: "string \<Rightarrow> string \<Rightarrow> message" where
  "say role content = [(''role'', PStr role), (''content'', PStr content)]"

definition call :: "string \<Rightarrow> message" where
  "call c = [(''role'', PStr ''assistant''), (''tool_calls'', PList [PDict [(''id'', PStr c)]])]"

definition tool_message :: "string \<Rightarrow> message" where
  "tool_message c = [(''role'', PStr ''tool''), (''tool_call_id'', PStr c)]"

definition sample_request :: "message list" where
  "sample_request = [say ''system'' ''base'', say ''user'' ''q1'', say ''assistant'' ''a1'',
     say ''user'' ''q2'', call ''c1'', tool_message ''c1'', call ''c2'', tool_message ''c2'']"

lemmas sample_request_defs = say_def call_def tool_message_def getv_def has_role_def announces_def plain_answer_def

lemma sample_request_fits: "\<exists>r. fit_request_to_budget rp sp sample_request budget k ids = Inr r"
  by (rule fit_total) (auto simp: sample_request_def sample_request_defs split: if_splits)

lemma request_size_pos: "ms \<noteq> [] \<Longrightarrow> 0 < request_size ms"
proof (induction ms)
  case (Cons m ms)
  have "0 < estimate_message_tokens m" by (simp add: estimate_message_tokens_def estimate_tokens_def)
  with Cons show ?case by (cases ms) (auto simp: request_size_def)
qed simp

lemma sample_head: "head_end sample_request = 1"
  by (simp add: head_end_def sample_request_def sample_request_defs)

lemma sample_length: "length sample_request = 8"
  by (simp add: sample_request_def)

lemma sample_units: "request_units sample_request = [(1, 2), (2, 3), (3, 4), (4, 6), (6, 8)]"
proof -
  have "fit_units sample_request 1 8 = [(1, 2), (2, 3), (3, 4), (4, 6), (6, 8)]"
    by (simp add: fit_units.simps tool_end.simps sample_request_def sample_request_defs)
  then show ?thesis by (simp only: request_units_def sample_head sample_length)
qed

lemma sample_turn: "current_turn_start sample_request 1 8 = 3"
  by code_simp

theorem fit_pins_system_head_witness:
  "\<exists>r. fit_request_to_budget ''R'' ''S'' sample_request 0 1 [] = Inr r \<and>
     prefix [say ''system'' ''base''] (rf_messages r) \<and> subseq (rf_messages r) sample_request"
proof -
  obtain r where r: "fit_request_to_budget ''R'' ''S'' sample_request 0 1 [] = Inr r"
    using sample_request_fits by blast
  have "takeWhile (\<lambda>m. has_role m ''system'') sample_request = [say ''system'' ''base'']"
    by (simp add: sample_request_def sample_request_defs)
  with fit_pins_system_head[OF r] r show ?thesis by auto
qed

theorem fit_accounting_witness:
  "\<exists>r. fit_request_to_budget ''R'' ''S'' sample_request 0 1 [] = Inr r \<and>
     length (rf_messages r) + rf_dropped_messages r = 8"
proof -
  obtain r where r: "fit_request_to_budget ''R'' ''S'' sample_request 0 1 [] = Inr r"
    using sample_request_fits by blast
  with fit_accounting[OF r] show ?thesis by (simp add: sample_request_def)
qed

theorem fit_drops_by_priority_witness:
  "\<exists>r cs j. fit_request_to_budget ''R'' ''S'' sample_request 0 1 [] = Inr r \<and>
     rf_messages r = kept_request sample_request (take j (drop_order cs)) \<and> j = length (drop_order cs)"
proof -
  obtain r where r: "fit_request_to_budget ''R'' ''S'' sample_request 0 1 [] = Inr r"
    using sample_request_fits by blast
  have ne: "sample_request \<noteq> []" by (simp add: sample_request_def)
  obtain cs j where c: "rf_messages r = kept_request sample_request (take j (drop_order cs))"
      "rf_kept_tokens r \<le> 0 \<or> j = length (drop_order cs)"
    using fit_drops_by_priority[OF r request_size_pos[OF ne] ne] by blast
  have "rf_messages r \<noteq> []" unfolding c(1) by (simp add: kept_request_def sample_head ne)
  then have "\<not> rf_kept_tokens r \<le> 0"
    using fit_counts[OF r] request_size_pos[of "rf_messages r"] by simp
  with r c show ?thesis by blast
qed

theorem fit_keeps_pinned_witness:
  "\<exists>r. fit_request_to_budget ''R'' ''S'' sample_request 0 1 [] = Inr r \<and>
     sublist [call ''c2'', tool_message ''c2''] (rf_messages r) \<and> sublist [say ''user'' ''q2''] (rf_messages r)"
proof -
  obtain r where r: "fit_request_to_budget ''R'' ''S'' sample_request 0 1 [] = Inr r"
    using sample_request_fits by blast
  have turn: "in_current_turn sample_request s" if "3 \<le> s" for s
    unfolding in_current_turn_def
    by (rule exI[of _ 3]) (use that in \<open>auto simp: sample_request_def sample_request_defs nth_Cons' split: if_splits\<close>)
  have "sublist (message_block sample_request 6) (rf_messages r)"
    by (rule fit_keeps_pinned[OF r _ _ disjI1])
      (use turn[of 6] in \<open>simp_all add: sample_length later_calls_def\<close>, simp_all add: sample_request_def sample_request_defs)
  moreover have "sublist (message_block sample_request 3) (rf_messages r)"
    by (rule fit_keeps_pinned[OF r _ _ disjI1])
      (use turn[of 3] in \<open>simp_all add: sample_length\<close>, simp_all add: sample_request_def sample_request_defs)
  moreover have "message_block sample_request 6 = [call ''c2'', tool_message ''c2'']"
      "message_block sample_request 3 = [say ''user'' ''q2'']"
    by (simp_all add: message_block_def sample_request_def sample_request_defs)
  ultimately show ?thesis using r by auto
qed

theorem fit_keeps_pairs_witness:
  "\<exists>r. fit_request_to_budget ''R'' ''S'' sample_request 0 1 [] = Inr r \<and> paired False (rf_messages r)"
proof -
  obtain r where r: "fit_request_to_budget ''R'' ''S'' sample_request 0 1 [] = Inr r"
    using sample_request_fits by blast
  have "paired False sample_request" by (simp add: sample_request_def sample_request_defs)
  from fit_keeps_pairs[OF r this] r show ?thesis by blast
qed

theorem current_turn_start_spec_witness:
  "has_role (sample_request ! 3) ''user'' \<and> \<not> plain_answer (sample_request ! 6)"
proof -
  have "(1::nat) \<le> 8" "(3::nat) < 8" by simp_all
  from current_turn_start_spec[OF sample_turn this] show ?thesis by simp
qed

end
