(* ===== verification/ContextAssembly.thy ===== *)
theory ContextAssembly
  imports EntryRender ScopeFilter ContextBudget Flow
begin

text \<open>
  The request of one round trip: \<^verbatim>\<open>context/assembly.py\<close> (the scope-filtered trail and conversation merged in
  time order, withheld results replaced by data-free sentinels, the date anchor, the retrieved block
  and the analysis state inserted before the question, the base prompt in front) and its translation
  to the canonical messages of the model client (\<^verbatim>\<open>AgentLoop._build_canonical_messages\<close> with
  \<^verbatim>\<open>_assembled_to_canonical\<close> and \<^verbatim>\<open>_tool_trail_entry_to_canonical\<close>). The retrieval pipeline and the digest
  are parameters; the tracing span and the log lines are left out.
\<close>

section \<open>State and parameters\<close>

record 'w request_state =
  rq_store :: session_store
  rq_world :: 'w
  rq_events :: "event list"
  rq_memo :: "(string \<times> string, retrieved_context) dict"
  rq_withheld :: "string list"

record 'w request_config =
  am_session :: string
  am_scope :: "string set"
  am_now :: "'w \<Rightarrow> clock \<times> 'w"
  am_preview_rows :: nat
  am_retrieval :: "(string \<Rightarrow> string set \<Rightarrow> 'w \<Rightarrow> (retrieved_context \<times> event list) \<times> 'w) option"
  am_base_prompt :: "string option"
  am_sha256 :: "string \<Rightarrow> string"
  am_token_budget :: "int option"
  am_pinned_pairs :: int

type_synonym ('w, 'z, 'r, 'a) action = "(('w, 'z) request_state_scheme, 'r, 'a) prog"

definition consult :: "('w \<Rightarrow> 'a \<times> 'w) \<Rightarrow> ('w, 'z, 'r, 'a) action" where
  "consult f s = (case f (rq_world s) of (a, w) \<Rightarrow> (Next a, s\<lparr>rq_world := w\<rparr>))"

definition emit :: "event list \<Rightarrow> ('w, 'z, 'r, unit) action" where
  "emit evs = modify (\<lambda>s. s\<lparr>rq_events := rq_events s @ evs\<rparr>)"

definition on_store :: "(session_store \<Rightarrow> 'a \<times> session_store) \<Rightarrow> ('w, 'z, 'r, 'a) action" where
  "on_store f s = (case f (rq_store s) of (a, st) \<Rightarrow> (Next a, s\<lparr>rq_store := st\<rparr>))"

definition session_of :: "('w, 'm) request_config_scheme \<Rightarrow> ('w, 'z, 'r, session_doc) action" where
  "session_of cf = and_then (consult (am_now cf)) (\<lambda>clk. on_store (get_or_create_session clk (am_session cf)))"

section \<open>Merging the streams\<close>

definition STALE_CROSS_TURN_TOOLS :: "string list" where
  "STALE_CROSS_TURN_TOOLS = [''recordAssumptions'', ''updateAnalysisState'']"

definition STALE_CROSS_TURN_ERROR_CODES :: "string list" where
  "STALE_CROSS_TURN_ERROR_CODES =
     [''FINALIZATION_BLOCKED_PENDING_INTENTS'', ''ANSWER_TABLE_NO_TABLE_DESIGNATED'', ''ANSWER_JUDGE_REJECTED'']"

definition is_stale_model_text_entry :: "trail_entry \<Rightarrow> int option \<Rightarrow> bool" where
  "is_stale_model_text_entry e current =
     (if te_tool_name e \<notin> set STALE_CROSS_TURN_TOOLS \<and> te_error_code e \<notin> Some ` set STALE_CROSS_TURN_ERROR_CODES
      then False else current \<noteq> Some (te_turn_index e))"

definition is_stranded :: "trail_entry list \<Rightarrow> int option \<Rightarrow> trail_entry \<Rightarrow> bool" where
  "is_stranded in_scope current e \<longleftrightarrow> current = Some (te_turn_index e) \<and> te_status e = ''ok'' \<and>
     te_provenance e = None \<and> e \<notin> set in_scope"

definition trail_item :: "nat \<Rightarrow> trail_entry list \<Rightarrow> int option \<Rightarrow> trail_entry \<Rightarrow> pydict option" where
  "trail_item n in_scope current e =
     (if is_stale_model_text_entry e current then None
      else if e \<in> set in_scope then Some (render_entry n e)
      else if is_stranded in_scope current e then Some (build_withheld_sentinel_message e)
      else None)"

type_synonym stream_item = "int \<times> string \<times> nat \<times> pydict"

definition message_item :: "turn_message \<Rightarrow> stream_item" where
  "message_item m = (tm_turn_index m, tm_ts m, (if tm_role m = ''user'' then 0 else 2),
     [(''role'', PStr (tm_role m)), (''content'', PStr (tm_content m))])"

definition trail_items :: "nat \<Rightarrow> trail_entry list \<Rightarrow> trail_entry list \<Rightarrow> int option \<Rightarrow> stream_item list" where
  "trail_items n trail in_scope current = concat (map (\<lambda>e. case trail_item n in_scope current e of
     None \<Rightarrow> [] | Some d \<Rightarrow> [(te_turn_index e, te_ts e, 1, d)]) trail)"

definition render_of :: "stream_item \<Rightarrow> pydict" where
  "render_of it = (case it of (t, ts, r, d) \<Rightarrow> d)"

definition interleave :: "nat \<Rightarrow> trail_entry list \<Rightarrow> turn_message list \<Rightarrow> trail_entry list \<Rightarrow> int option \<Rightarrow> pydict list" where
  "interleave n in_scope ms trail current =
     map render_of (sort_key (\<lambda>(t, ts, r, d). (t, ts, r)) (map message_item ms @ trail_items n trail in_scope current))"

text \<open>The diagnostic of a withheld result, once per call id and window.\<close>

definition withheld_event :: "trail_entry \<Rightarrow> event" where
  "withheld_event e = (''loop_result_withheld_provenance'',
     [(''tool_name'', PStr (te_tool_name e)), (''turn_index'', PInt (te_turn_index e)),
      (''tool_call_id'', PStr (te_tool_call_id e)),
      (''blueprint_id'', (if te_tool_name e = ''runBlueprint'' then getv (te_args e) ''id'' else PNone)),
      (''reason'', PStr ''provenance_undetermined'')])"

definition emit_withheld_provenance_event :: "trail_entry \<Rightarrow> string list \<times> event list \<Rightarrow> string list \<times> event list" where
  "emit_withheld_provenance_event e acc = (case acc of (withheld, evs) \<Rightarrow>
     if te_error_code e = Some ALREADY_SERVED_CODE \<or> te_tool_name e = ''recordAssumptions'' \<or> te_tool_call_id e \<in> set withheld
     then acc else (withheld @ [te_tool_call_id e], evs @ [withheld_event e]))"

definition withheld_entries :: "trail_entry list \<Rightarrow> trail_entry list \<Rightarrow> int option \<Rightarrow> trail_entry list" where
  "withheld_entries trail in_scope current =
     filter (\<lambda>e. \<not> is_stale_model_text_entry e current \<and> is_stranded in_scope current e) trail"

section \<open>Assembly\<close>

definition last_user_index :: "pydict list \<Rightarrow> nat" where
  "last_user_index ms = (case find (\<lambda>i. has_role (ms ! i) ''user'') (rev [0..<length ms]) of
     None \<Rightarrow> length ms | Some i \<Rightarrow> i)"

definition insert_before_question :: "pydict option \<Rightarrow> pydict list \<Rightarrow> pydict list" where
  "insert_before_question x ms = (case x of None \<Rightarrow> ms
     | Some m \<Rightarrow> take (last_user_index ms) ms @ m # drop (last_user_index ms) ms)"

definition retrieved :: "('w, 'm) request_config_scheme \<Rightarrow> string option \<Rightarrow> ('w, 'z, 'r, retrieved_context option) action" where
  "retrieved cf question = (case (am_retrieval cf, question) of
     (Some pipeline, Some q) \<Rightarrow>
       (let key = (q, compute_scope_hash (am_sha256 cf) (am_scope cf)) in
        and_then (read (\<lambda>s. dget (rq_memo s) key)) (\<lambda>hit. case hit of
          Some c \<Rightarrow> pure (Some c)
        | None \<Rightarrow>
            and_then (consult (pipeline q (am_scope cf))) (\<lambda>(c, evs).
            and_then (emit evs) (\<lambda>_.
            and_then (modify (\<lambda>s. s\<lparr>rq_memo := dset key c (rq_memo s)\<rparr>)) (\<lambda>_. pure (Some c))))))
   | _ \<Rightarrow> pure None)"

definition state_block :: "session_doc \<Rightarrow> int \<Rightarrow> pydict option" where
  "state_block doc ti = (case live_analysis_state doc ti of
     None \<Rightarrow> None | Some a \<Rightarrow> if as_intents a = [] then None else Some (render_analysis_state_block a))"

definition assembled :: "('w, 'm) request_config_scheme \<Rightarrow> session_doc \<Rightarrow> int \<Rightarrow> retrieved_context option \<Rightarrow> pydict list" where
  "assembled cf doc ti block =
     (let in_scope = filter_trail (sd_tool_trail doc) (am_scope cf) (Some ti);
          ms0 = interleave (am_preview_rows cf) in_scope (filter_messages (sd_messages doc) (am_scope cf)) (sd_tool_trail doc) (Some ti);
          ms1 = insert_before_question (turn_date_anchor (sd_messages doc) ti) ms0;
          ms2 = insert_before_question (Option.bind block render_retrieved_context) ms1;
          ms3 = insert_before_question (state_block doc ti) ms2
      in (if truthy_text (am_base_prompt cf) then [[(''role'', PStr ''system''), (''content'', opt_str (am_base_prompt cf))]] else [])
         @ ms3)"

text \<open>The conversation is read once: the interleaved streams, then the three blocks, then the prompt.\<close>

definition assemble :: "('w, 'm) request_config_scheme \<Rightarrow> int \<Rightarrow> string option \<Rightarrow> ('w, 'z, 'r, pydict list) action" where
  "assemble cf ti question =
     and_then (session_of cf) (\<lambda>doc.
     and_then (modify (\<lambda>s. case fold emit_withheld_provenance_event
         (withheld_entries (sd_tool_trail doc) (filter_trail (sd_tool_trail doc) (am_scope cf) (Some ti)) (Some ti))
         (rq_withheld s, []) of (withheld, evs) \<Rightarrow> s\<lparr>rq_withheld := withheld, rq_events := rq_events s @ evs\<rparr>)) (\<lambda>_.
     and_then (retrieved cf question) (\<lambda>block. pure (assembled cf doc ti block))))"

section \<open>Canonical messages\<close>

definition INTENT_TAG_DROPPED_NOTE :: string where
  "INTENT_TAG_DROPPED_NOTE =
     ''Note: your serves_intent tag was ignored '' @ em_dash @ '' no intents are declared yet. Call '' @
     ''updateAnalysisState to declare your intents before your next substantive call '' @
     ''(runQuery/runBlueprint), or the turn will finish untracked.''"

definition or_empty_dict :: "pyval \<Rightarrow> pyval" where
  "or_empty_dict v = (if py_truthy v then v else PDict [])"

definition authoritative_note :: "pydict \<Rightarrow> string" where
  "authoritative_note entry =
     (if is_zero_row_count (case or_empty_dict (getv entry ''result_preview'') of PDict p \<Rightarrow> getv p ''row_count'' | _ \<Rightarrow> PNone)
      then ''Blueprint result '' @ em_dash @ '' authoritative; do not re-derive with '' @
           ''additional queries. It returned NO ROWS, so nothing was '' @
           ''verified: report the empty result as the answer, and do not '' @
           ''describe it as verified.''
      else ''Verified blueprint result '' @ em_dash @ '' authoritative; do not re-derive with '' @ ''additional queries.'')"

definition tool_content :: "pydict \<Rightarrow> string list \<Rightarrow> pydict" where
  "tool_content entry notes =
     [(''status'', getv entry ''status''), (''error_code'', getv entry ''error_code''),
      (''user_message'', getv entry ''user_message''), (''result_preview'', getv entry ''result_preview'')]
     @ (if py_truthy (getv entry ''authoritative'')
        then [(''authoritative'', PBool True), (''note'', PStr (authoritative_note entry))] else [])
     @ (if py_truthy (getv entry ''window_note'') then [(''window_note'', getv entry ''window_note'')] else [])
     @ (if getv entry ''tool_call_id'' \<in> PStr ` set notes then [(''runtime_note'', PStr INTENT_TAG_DROPPED_NOTE)] else [])"

definition call_message :: "pydict \<Rightarrow> message" where
  "call_message entry = [(''role'', PStr ''assistant''), (''content'', PNone), (''tool_calls'', PList [PDict
     [(''id'', getv entry ''tool_call_id''), (''type'', PStr ''function''),
      (''function'', PDict [(''name'', getv entry ''tool_name''),
         (''arguments'', PStr (json_dumps (or_empty_dict (getv entry ''args''))))])]])]"

definition result_message :: "pydict \<Rightarrow> string list \<Rightarrow> message" where
  "result_message entry notes = [(''role'', PStr ''tool''), (''tool_call_id'', getv entry ''tool_call_id''),
     (''content'', if py_truthy (getv entry ''withheld_sentinel'') then getv entry ''content''
                   else PStr (json_dumps (PDict (tool_content entry notes))))]"

definition tool_trail_entry_to_canonical :: "pydict \<Rightarrow> string list \<Rightarrow> message list" where
  "tool_trail_entry_to_canonical entry notes = [call_message entry, result_message entry notes]"

definition spoken :: "pydict \<Rightarrow> message" where
  "spoken m = [(''role'', getv m ''role''), (''content'', getv m ''content'')]"

fun assembled_to_canonical :: "string list \<Rightarrow> pydict list \<Rightarrow> pyval list \<Rightarrow> message list result" where
  "assembled_to_canonical notes [] seen = Inr []"
| "assembled_to_canonical notes (m # ms) seen =
     (if getv m ''role'' \<in> PStr ` {''system'', ''user'', ''assistant''}
      then rbind (assembled_to_canonical notes ms seen) (\<lambda>cs. Inr (spoken m # cs))
      else if getv m ''role'' = PStr ''tool'' then
        (case getv m ''tool_call_id'' of
           PStr c \<Rightarrow> if PStr c \<in> set seen then assembled_to_canonical notes ms seen
             else rbind (assembled_to_canonical notes ms (PStr c # seen)) (\<lambda>cs. Inr (tool_trail_entry_to_canonical m notes @ cs))
         | _ \<Rightarrow> rbind (assembled_to_canonical notes ms seen) (\<lambda>cs. Inr (tool_trail_entry_to_canonical m notes @ cs)))
      else Inl (ValueError ''Unexpected assembled-context message role''))"

section \<open>The emulated discovery and the nudge\<close>

definition tool_ids :: "message list \<Rightarrow> pyval list" where
  "tool_ids ms = map (\<lambda>m. getv m ''tool_call_id'') (filter (\<lambda>m. has_role m ''tool'') ms)"

fun fresh_pairs :: "pyval list \<Rightarrow> message list \<Rightarrow> message list" where
  "fresh_pairs taken (a # b # ms) =
     (let c = (case find (\<lambda>m. has_role m ''tool'') [a, b] of None \<Rightarrow> PNone | Some m \<Rightarrow> getv m ''tool_call_id'') in
      (if c \<in> set taken then [] else [a, b]) @ fresh_pairs taken ms)"
| "fresh_pairs taken ms =
     (let c = (case find (\<lambda>m. has_role m ''tool'') ms of None \<Rightarrow> PNone | Some m \<Rightarrow> getv m ''tool_call_id'') in
      if c \<in> set taken then [] else ms)"

definition splice_index :: "message list \<Rightarrow> nat" where
  "splice_index ms = (case find (\<lambda>i. has_role (ms ! i) ''user'') [0..<length ms] of
     Some i \<Rightarrow> i + length (takeWhile (\<lambda>m. has_role m ''user'') (drop i ms))
   | None \<Rightarrow> length (takeWhile (\<lambda>m. has_role m ''system'') ms))"

definition splice_discovery :: "message list \<Rightarrow> message list \<Rightarrow> message list" where
  "splice_discovery discovery ms = (if discovery = [] then ms
     else take (splice_index ms) ms @ fresh_pairs (tool_ids ms) discovery @ drop (splice_index ms) ms)"

definition with_nudge :: "string option \<Rightarrow> message list \<Rightarrow> message list" where
  "with_nudge nudge ms = (if truthy_text nudge then ms @ [[(''role'', PStr ''user''), (''content'', opt_str nudge)]] else ms)"

section \<open>The request\<close>

record canonical_request =
  cq_messages :: "message list"
  cq_readable :: "string set"

definition SUMMARY_CONTEXT_PREFIX :: string where
  "SUMMARY_CONTEXT_PREFIX = ''[Earlier steps in this session were summarized to save space]'' @ nl @ nl"

definition kind_count :: "request_fit \<Rightarrow> unit_kind \<Rightarrow> pyval" where
  "kind_count f k = PInt (dget_or (rf_dropped_by_kind f) k 0)"

definition trimmed_event :: "int \<Rightarrow> request_fit \<Rightarrow> event" where
  "trimmed_event budget f = (''loop_request_budget_trimmed'',
     [(''dropped_units'', PInt (rf_dropped_units f)), (''dropped_messages'', PInt (int (rf_dropped_messages f))),
      (''dropped_tokens'', PInt (rf_dropped_tokens f)), (''dropped_conversation'', kind_count f Conversation),
      (''dropped_trail'', kind_count f Trail), (''dropped_retrieval'', kind_count f Retrieval),
      (''dropped_summary'', kind_count f Summary), (''kept_tokens'', PInt (rf_kept_tokens f)), (''budget'', PInt budget)])"

definition texts :: "pyval list \<Rightarrow> string list" where
  "texts vs = concat (map (\<lambda>v. case v of PStr s \<Rightarrow> [s] | _ \<Rightarrow> []) vs)"

definition sentinel_ids :: "pydict list \<Rightarrow> string set" where
  "sentinel_ids items = set (texts (map (\<lambda>m. getv m ''tool_call_id'')
     (filter (\<lambda>m. has_role m ''tool'' \<and> py_truthy (getv m ''withheld_sentinel'')) items)))"

definition fit_request :: "('w, 'm) request_config_scheme \<Rightarrow> message list \<Rightarrow> message list \<Rightarrow> (message list \<times> event list) result" where
  "fit_request cf discovery ms = (case am_token_budget cf of None \<Rightarrow> Inr (ms, [])
     | Some budget \<Rightarrow> rbind (fit_request_to_budget USER_CONTEXT_PREFIX SUMMARY_CONTEXT_PREFIX ms budget (am_pinned_pairs cf)
           (texts (tool_ids discovery))) (\<lambda>f.
         Inr (rf_messages f, if rf_dropped_messages f = 0 then [] else [trimmed_event budget f])))"

definition build_canonical_messages :: "('w, 'm) request_config_scheme \<Rightarrow> int \<Rightarrow> string option \<Rightarrow> message list \<Rightarrow> string option \<Rightarrow>
    string list \<Rightarrow> ('w, 'z, 'r, canonical_request) action" where
  "build_canonical_messages cf ti question discovery nudge notes =
     and_then (assemble cf ti question) (\<lambda>items.
     and_then (lift (assembled_to_canonical notes items [])) (\<lambda>ms.
     and_then (lift (fit_request cf discovery (with_nudge nudge (splice_discovery discovery ms)))) (\<lambda>(fitted, evs).
     and_then (emit evs) (\<lambda>_. pure \<lparr>cq_messages = fitted,
       cq_readable = set (texts (tool_ids fitted)) - sentinel_ids items\<rparr>))))"

end
