(* ===== verification/RequestFacts.thy ===== *)
theory RequestFacts
  imports ContextAssembly
begin

text \<open>
  What the request of a round trip promises: it carries nothing the caller may not read, it is a
  well-formed list of messages for the model's interface, and the set of readable results that
  the read guard relies on holds no withheld one.
\<close>

section \<open>Where the items come from\<close>

definition visible :: "string set \<Rightarrow> int \<Rightarrow> trail_entry \<Rightarrow> bool" where
  "visible scope ti e \<longleftrightarrow> \<not> is_stale_model_text_entry e (Some ti) \<and>
     ((te_turn_index e = ti \<and> te_status e \<noteq> ''ok'') \<or>
      (\<exists>pairs. te_provenance e = Some pairs \<and> (\<forall>tc \<in> fset pairs. readable scope tc)))"

definition withheld :: "int \<Rightarrow> trail_entry \<Rightarrow> bool" where
  "withheld ti e \<longleftrightarrow> te_turn_index e = ti \<and> te_status e = ''ok'' \<and> te_provenance e = None"

lemma in_scope_visible:
  "e \<in> set (filter_trail trail scope (Some ti)) \<Longrightarrow> \<not> is_stale_model_text_entry e (Some ti) \<Longrightarrow> visible scope ti e"
  by (auto simp: filter_trail_def visible_def is_entry_in_scope_def in_scope_iff)

lemma trail_item_cases:
  assumes "trail_item n (filter_trail trail scope (Some ti)) (Some ti) e = Some m"
  obtains "m = render_entry n e" "visible scope ti e" | "m = build_withheld_sentinel_message e" "withheld ti e"
  using assms in_scope_visible[of e trail scope ti]
  by (auto simp: trail_item_def is_stranded_def withheld_def split: if_splits)

lemma set_insert_before_question [simp]: "set (insert_before_question x ms) = set_option x \<union> set ms"
proof (cases x)
  case (Some m)
  have "set (take i ms) \<union> set (drop i ms) = set ms" for i by (metis append_take_drop_id set_append)
  with Some show ?thesis by (auto simp: insert_before_question_def)
qed (simp add: insert_before_question_def)

lemma interleave_items:
  "m \<in> set (interleave n in_scope ms trail current) \<Longrightarrow>
     (\<exists>t \<in> set ms. m = [(''role'', PStr (tm_role t)), (''content'', PStr (tm_content t))]) \<or>
     (\<exists>e \<in> set trail. trail_item n in_scope current e = Some m)"
  by (auto simp: interleave_def message_item_def trail_items_def render_of_def split: option.splits)

lemma user_blocks:
  "x = turn_date_anchor ms ti \<or> x = Option.bind block render_retrieved_context \<or> x = state_block doc ti \<Longrightarrow>
     m \<in> set_option x \<Longrightarrow> \<exists>s. m = user_item s"
  by (elim disjE)
    (auto simp: turn_date_anchor_def render_retrieved_context_def state_block_def render_analysis_state_block_def elem_set
      split: option.splits if_splits Option.bind_splits)

lemma assembled_items:
  assumes "m \<in> set (assembled cf doc ti block)"
  obtains t where "t \<in> set (sd_messages doc)" "is_message_in_scope t (am_scope cf)"
      "m = [(''role'', PStr (tm_role t)), (''content'', PStr (tm_content t))]"
  | e where "e \<in> set (sd_tool_trail doc)" "m = render_entry (am_preview_rows cf) e" "visible (am_scope cf) ti e"
  | e where "e \<in> set (sd_tool_trail doc)" "m = build_withheld_sentinel_message e" "withheld ti e"
  | s where "m = user_item s"
  | s where "m = [(''role'', PStr ''system''), (''content'', s)]"
proof -
  let ?in = "filter_trail (sd_tool_trail doc) (am_scope cf) (Some ti)"
  let ?ms = "filter_messages (sd_messages doc) (am_scope cf)"
  from assms consider "m \<in> set (interleave (am_preview_rows cf) ?in ?ms (sd_tool_trail doc) (Some ti))"
    | x where "x = turn_date_anchor (sd_messages doc) ti \<or> x = Option.bind block render_retrieved_context \<or> x = state_block doc ti"
        "m \<in> set_option x"
    | s where "m = [(''role'', PStr ''system''), (''content'', s)]"
    by (auto simp: assembled_def Let_def split: if_splits)
  then show thesis
  proof cases
    case 1
    from interleave_items[OF this] show thesis
    proof
      assume "\<exists>t \<in> set ?ms. m = [(''role'', PStr (tm_role t)), (''content'', PStr (tm_content t))]"
      then show thesis using that(1) by (auto simp: filter_messages_def)
    next
      assume "\<exists>e \<in> set (sd_tool_trail doc). trail_item (am_preview_rows cf) ?in (Some ti) e = Some m"
      then obtain e where e: "e \<in> set (sd_tool_trail doc)" "trail_item (am_preview_rows cf) ?in (Some ti) e = Some m" by blast
      from e(2) show thesis by (rule trail_item_cases) (use that(2,3) e(1) in blast)+
    qed
  next
    case (2 x)
    then show thesis using user_blocks that(4) by metis
  next
    case 3
    then show thesis by (rule that(5))
  qed
qed

section \<open>Canonical messages\<close>

text \<open>One step of the translation: nothing (a duplicate id), one spoken message, or one call with its result.\<close>

lemma canonical_step:
  assumes "assembled_to_canonical notes (m # ms) seen = Inr cs"
  obtains h cs' seen' where "assembled_to_canonical notes ms seen' = Inr cs'" "cs = h @ cs'" "set seen \<subseteq> set seen'"
    "h = [] \<or> (h = [spoken m] \<and> getv m ''role'' \<in> PStr ` {''system'', ''user'', ''assistant''}) \<or>
     (h = tool_trail_entry_to_canonical m notes \<and> has_role m ''tool'' \<and>
        ((\<forall>c. getv m ''tool_call_id'' \<noteq> PStr c) \<or> (getv m ''tool_call_id'' \<in> set seen' \<and> getv m ''tool_call_id'' \<notin> set seen)))"
proof (cases "getv m ''role'' \<in> PStr ` {''system'', ''user'', ''assistant''}")
  case True
  then obtain cs' where "assembled_to_canonical notes ms seen = Inr cs'" "cs = [spoken m] @ cs'"
    using assms by (auto simp: rbind_eq_Inr simp del: insert_iff)
  then show thesis using that True by blast
next
  case False
  with assms have tool: "getv m ''role'' = PStr ''tool''" by (simp split: if_splits)
  show thesis
  proof (cases "getv m ''tool_call_id''")
    case (PStr c)
    show thesis
    proof (cases "PStr c \<in> set seen")
      case True
      with assms False tool PStr have "assembled_to_canonical notes ms seen = Inr cs" by simp
      then show thesis using that[of seen cs "[]"] by simp
    next
      case new: False
      with assms False tool PStr obtain cs' where "assembled_to_canonical notes ms (PStr c # seen) = Inr cs'"
          "cs = tool_trail_entry_to_canonical m notes @ cs'"
        by (auto simp: rbind_eq_Inr)
      then show thesis using that tool PStr new by (force simp: has_role_def)
    qed
  qed (use assms False tool that in \<open>fastforce simp: rbind_eq_Inr has_role_def\<close>)+
qed

definition made_from :: "string list \<Rightarrow> pydict \<Rightarrow> message \<Rightarrow> bool" where
  "made_from notes m t \<longleftrightarrow> (t = spoken m \<and> getv m ''role'' \<in> PStr ` {''system'', ''user'', ''assistant''}) \<or>
     (has_role m ''tool'' \<and> (t = call_message m \<or> t = result_message m notes))"

lemma canonical_items:
  "assembled_to_canonical notes ms seen = Inr cs \<Longrightarrow> t \<in> set cs \<Longrightarrow> \<exists>m \<in> set ms. made_from notes m t"
proof (induction ms arbitrary: seen cs)
  case (Cons m ms)
  from Cons.prems(1) show ?case
  proof (rule canonical_step)
    fix h cs' seen'
    assume ms: "assembled_to_canonical notes ms seen' = Inr cs'" and cs: "cs = h @ cs'"
      and h: "h = [] \<or> (h = [spoken m] \<and> getv m ''role'' \<in> PStr ` {''system'', ''user'', ''assistant''}) \<or>
       (h = tool_trail_entry_to_canonical m notes \<and> has_role m ''tool'' \<and>
        ((\<forall>c. getv m ''tool_call_id'' \<noteq> PStr c) \<or> (getv m ''tool_call_id'' \<in> set seen' \<and> getv m ''tool_call_id'' \<notin> set seen)))"
    show ?thesis
    proof (cases "t \<in> set cs'")
      case True
      then show ?thesis using Cons.IH[OF ms] by auto
    next
      case False
      then have "t \<in> set h" using Cons.prems(2) cs by simp
      then have "made_from notes m t" using h by (auto simp: made_from_def tool_trail_entry_to_canonical_def)
      then show ?thesis by simp
    qed
  qed
qed simp

lemma roles_of_messages [simp]:
  "has_role (call_message m) r \<longleftrightarrow> r = ''assistant''" "has_role (result_message m notes) r \<longleftrightarrow> r = ''tool''"
  "has_role (spoken m) r \<longleftrightarrow> has_role m r" "has_role (user_item s) r \<longleftrightarrow> r = ''user''"
  "has_role (render_entry n e) r \<longleftrightarrow> r = ''tool''" "has_role (build_withheld_sentinel_message e) r \<longleftrightarrow> r = ''tool''"
  by (auto simp: has_role_def call_message_def result_message_def spoken_def user_item_def render_entry_def
      build_withheld_sentinel_message_def getv_def)

lemma announcing [simp]: "announces (call_message m)" "\<not> announces (spoken m)" "\<not> announces (result_message m notes)"
  by (auto simp: announces_def has_role_def call_message_def spoken_def result_message_def getv_def)

lemma ids_of_items [simp]:
  "getv (render_entry n e) ''tool_call_id'' = PStr (te_tool_call_id e)"
  "getv (build_withheld_sentinel_message e) ''tool_call_id'' = PStr (te_tool_call_id e)"
  "getv (result_message m notes) ''tool_call_id'' = getv m ''tool_call_id''"
  "py_truthy (getv (build_withheld_sentinel_message e) ''withheld_sentinel'')"
  "\<not> py_truthy (getv (render_entry n e) ''withheld_sentinel'')"
  by (auto simp: render_entry_def build_withheld_sentinel_message_def result_message_def getv_def)

section \<open>Nothing the caller may not read\<close>

text \<open>The conversation that the request is built from.\<close>

definition document_read :: "('w, 'm) request_config_scheme \<Rightarrow> ('w, 'z) request_state_scheme \<Rightarrow> session_doc" where
  "document_read cf s = (case am_now cf (rq_world s) of (clk, w) \<Rightarrow>
     fst (get_or_create_session clk (am_session cf) (rq_store s)))"

lemma session_of_next: "session_of cf s = (Next d, s') \<Longrightarrow> d = document_read cf s"
  by (auto simp: session_of_def and_then_next consult_def on_store_def document_read_def split: prod.splits)

lemma assemble_run:
  assumes run: "assemble cf ti q s = (Next items, s')"
  obtains block where "items = assembled cf (document_read cf s) ti block"
  using run session_of_next unfolding assemble_def and_then_next pure_def by fast

lemma build_run:
  assumes run: "build_canonical_messages cf ti q discovery nudge notes s = (Next r :: ('r, canonical_request) flow, s')"
  obtains block ms evs where "assembled_to_canonical notes (assembled cf (document_read cf s) ti block) [] = Inr ms"
    "fit_request cf discovery (with_nudge nudge (splice_discovery discovery ms)) = Inr (cq_messages r, evs)"
    "cq_readable r = set (texts (tool_ids (cq_messages r))) - sentinel_ids (assembled cf (document_read cf s) ti block)"
proof -
  from run[unfolded build_canonical_messages_def] obtain items s2 where items: "assemble cf ti q s = (Next items :: ('r, pydict list) flow, s2)"
    and rest: "and_then (lift (assembled_to_canonical notes items [])) (\<lambda>ms.
     and_then (lift (fit_request cf discovery (with_nudge nudge (splice_discovery discovery ms)))) (\<lambda>(fitted, evs).
     and_then (emit evs) (\<lambda>_. pure \<lparr>cq_messages = fitted,
       cq_readable = set (texts (tool_ids fitted)) - sentinel_ids items\<rparr>))) s2 = (Next r :: ('r, canonical_request) flow, s')"
    by (rule and_then_nextE)
  from rest obtain ms fitted evs where ms: "assembled_to_canonical notes items [] = Inr ms"
      and fit: "fit_request cf discovery (with_nudge nudge (splice_discovery discovery ms)) = Inr (fitted, evs)"
      and r: "r = \<lparr>cq_messages = fitted, cq_readable = set (texts (tool_ids fitted)) - sentinel_ids items\<rparr>"
    unfolding and_then_next by (auto simp: lift_def pure_def and_then_next split: sum.splits)
  from items obtain block where "items = assembled cf (document_read cf s) ti block" by (rule assemble_run)
  with ms fit r show thesis by (auto intro: that)
qed

lemma fit_request_subseq: "fit_request cf discovery ms = Inr (fitted, evs) \<Longrightarrow> subseq fitted ms"
  using kept_subseq by (auto simp: fit_request_def rbind_eq_Inr split: option.splits elim!: fit_kept)

lemma subseq_set: "subseq xs ys \<Longrightarrow> set xs \<subseteq> set ys"
  by (metis subset_code(1) subseq_singleton_left subseq_order.trans)

lemma fresh_pairs_set: "set (fresh_pairs taken ms) \<subseteq> set ms"
  by (induction taken ms rule: fresh_pairs.induct) (auto simp: Let_def)

lemma splice_set: "set (splice_discovery d ms) \<subseteq> set d \<union> set ms"
  using fresh_pairs_set[of "tool_ids ms" d] by (auto simp: splice_discovery_def dest: in_set_takeD in_set_dropD)

lemma nudge_set: "t \<in> set (with_nudge nudge ms) \<Longrightarrow> t \<in> set ms \<or> t = [(''role'', PStr ''user''), (''content'', opt_str nudge)]"
  by (auto simp: with_nudge_def split: if_splits)

lemma sent_messages:
  assumes "build_canonical_messages cf ti q discovery nudge notes s = (Next r, s')"
    and "t \<in> set (cq_messages r)"
  obtains "t \<in> set discovery" | "has_role t ''user''"
  | block m where "m \<in> set (assembled cf (document_read cf s) ti block)" "made_from notes m t"
      "cq_readable r = set (texts (tool_ids (cq_messages r))) - sentinel_ids (assembled cf (document_read cf s) ti block)"
proof (rule build_run[OF assms(1)])
  fix block ms evs
  assume ms: "assembled_to_canonical notes (assembled cf (document_read cf s) ti block) [] = Inr ms"
    and fit: "fit_request cf discovery (with_nudge nudge (splice_discovery discovery ms)) = Inr (cq_messages r, evs)"
    and rd: "cq_readable r = set (texts (tool_ids (cq_messages r))) - sentinel_ids (assembled cf (document_read cf s) ti block)"
  have "t \<in> set (with_nudge nudge (splice_discovery discovery ms))"
    using assms(2) fit_request_subseq[OF fit] subseq_set by blast
  then consider "t \<in> set discovery" | "t \<in> set ms" | "t = [(''role'', PStr ''user''), (''content'', opt_str nudge)]"
    using nudge_set splice_set by fastforce
  then show thesis
  proof cases
    case 2
    from canonical_items[OF ms 2] show thesis using that(3) rd by blast
  next
    case 3
    then have "has_role t ''user''" by (simp add: has_role_def getv_def)
    then show thesis by (rule that(2))
  qed (rule that(1))
qed

definition speakers :: "session_doc \<Rightarrow> bool" where
  "speakers doc \<longleftrightarrow> list_all (\<lambda>m. tm_role m \<in> {''user'', ''assistant''}) (sd_messages doc)"

text \<open>
  C9: nothing the caller may not read is sent to the model: in every request, each tool result is one of
  the emulated discovery, the rendering of a trail entry that is visible (its provenance is determined
  and readable under the column scope, or it is a failed call of the current turn, and it is no
  model-written text of an earlier turn), or one of the two fixed data-free texts; and each
  assistant message that announces no call is a persisted answer whose provenance is readable.
\<close>

theorem request_leaks_nothing:
  assumes run: "build_canonical_messages cf ti q discovery nudge notes s = (Next r, s')"
    and roles: "speakers (document_read cf s)"
    and t: "t \<in> set (cq_messages r)" "t \<notin> set discovery"
  shows "(has_role t ''tool'' \<longrightarrow>
      (\<exists>e \<in> set (sd_tool_trail (document_read cf s)). visible (am_scope cf) ti e \<and> t = result_message (render_entry (am_preview_rows cf) e) notes) \<or>
      (\<exists>e \<in> set (sd_tool_trail (document_read cf s)). withheld ti e \<and> getv t ''tool_call_id'' = PStr (te_tool_call_id e) \<and>
         getv t ''content'' \<in> PStr ` {WITHHELD_PROVENANCE_SENTINEL, REPEATED_IDEMPOTENT_READ_NUDGE})) \<and>
    (has_role t ''assistant'' \<and> \<not> announces t \<longrightarrow>
      (\<exists>m \<in> set (sd_messages (document_read cf s)). is_message_in_scope m (am_scope cf) \<and> getv t ''content'' = PStr (tm_content m)))"
  using run t(1)
proof (rule sent_messages)
  fix block m
  assume m: "m \<in> set (assembled cf (document_read cf s) ti block)" and made: "made_from notes m t"
  from m show ?thesis
  proof (cases rule: assembled_items)
    case (1 u)
    then have "has_role m ''user'' \<or> has_role m ''assistant''" using roles by (auto simp: speakers_def list_all_iff has_role_def getv_def)
    then have "t = spoken m" using made by (auto simp: made_from_def has_role_def)
    then show ?thesis using 1 roles by (auto simp: has_role_def spoken_def getv_def speakers_def list_all_iff)
  next
    case (2 e)
    then have "t = call_message m \<or> t = result_message m notes" using made by (auto simp: made_from_def has_role_def render_entry_def getv_def)
    then show ?thesis using 2 by auto
  next
    case (3 e)
    then have "t = call_message m \<or> t = result_message m notes"
      using made by (auto simp: made_from_def has_role_def build_withheld_sentinel_message_def getv_def)
    then show ?thesis
    proof
      assume r: "t = result_message m notes"
      then have "getv t ''content'' \<in> PStr ` {WITHHELD_PROVENANCE_SENTINEL, REPEATED_IDEMPOTENT_READ_NUDGE}"
        using 3(2) by (auto simp: result_message_def build_withheld_sentinel_message_def getv_def)
      then show ?thesis using r 3 by auto
    qed auto
  next
    case (4 u)
    then show ?thesis using made by (auto simp: made_from_def has_role_def user_item_def getv_def spoken_def)
  next
    case (5 u)
    then show ?thesis using made by (auto simp: made_from_def has_role_def getv_def spoken_def)
  qed
qed (use t(2) in \<open>auto simp: has_role_def\<close>)

definition sample_settings :: "(unit, unit) request_config_scheme" where
  "sample_settings = \<lparr>am_session = ''s1'', am_scope = {''d.t.c''}, am_now = (\<lambda>w. (\<lambda>_. ''2024-01-31T00:00:00'', w)),
     am_preview_rows = 5, am_retrieval = None, am_base_prompt = Some ''p'', am_sha256 = (\<lambda>x. x), am_token_budget = None,
     am_pinned_pairs = 2, \<dots> = ()\<rparr>"

definition sample_conversation :: session_doc where
  "sample_conversation = (new_session_doc ''s1'' ''t'')
     \<lparr>sd_messages := [\<lparr>tm_turn_index = 0, tm_role = ''user'', tm_content = ''q'', tm_ts = ''t'', tm_provenance = None\<rparr>],
      sd_tool_trail := [sample_entry ''ok'' (Some {|(''d.t'', ''c'')|}), (sample_entry ''ok'' None)\<lparr>te_tool_call_id := ''c2''\<rparr>]\<rparr>"

definition sample_state :: "(unit, unit) request_state_scheme" where
  "sample_state = \<lparr>rq_store = \<lparr>ss_docs = [(''s1'', sample_conversation)], ss_versions = [], ss_results = []\<rparr>, rq_world = (), rq_events = [],
     rq_memo = [], rq_withheld = [], \<dots> = ()\<rparr>"

definition sent_request :: "canonical_request option" where
  "sent_request = (case fst (build_canonical_messages sample_settings 0 (Some ''q'') [] None [] sample_state
       :: (unit, canonical_request) flow \<times> (unit, unit) request_state_scheme) of Next r \<Rightarrow> Some r | _ \<Rightarrow> None)"

lemma sample_request_sent:
  assumes "sent_request = Some r"
  obtains s' where "build_canonical_messages sample_settings 0 (Some ''q'') [] None [] sample_state
    = (Next r :: (unit, canonical_request) flow, s')"
  using assms that
  by (cases "build_canonical_messages sample_settings 0 (Some ''q'') [] None [] sample_state
        :: (unit, canonical_request) flow \<times> (unit, unit) request_state_scheme")
    (auto simp: sent_request_def split: flow.splits)

text \<open>The request of a conversation with one readable and one withheld result.\<close>

theorem request_leaks_nothing_witness:
  "\<exists>r t. sent_request = Some r \<and> t = cq_messages r ! 5 \<and> getv t ''tool_call_id'' = PStr ''c2'' \<and>
     ((\<exists>e \<in> set (sd_tool_trail sample_conversation). visible {''d.t.c''} 0 e \<and> t = result_message (render_entry 5 e) []) \<or>
      (\<exists>e \<in> set (sd_tool_trail sample_conversation). withheld 0 e \<and> getv t ''tool_call_id'' = PStr (te_tool_call_id e) \<and>
         getv t ''content'' \<in> PStr ` {WITHHELD_PROVENANCE_SENTINEL, REPEATED_IDEMPOTENT_READ_NUDGE}))"
proof -
  have "(case sent_request of Some r \<Rightarrow> length (cq_messages r) = 6 \<and> has_role (cq_messages r ! 5) ''tool'' \<and>
      getv (cq_messages r ! 5) ''tool_call_id'' = PStr ''c2'' | None \<Rightarrow> False)"
    by code_simp
  then obtain r where r: "sent_request = Some r" "5 < length (cq_messages r)" "has_role (cq_messages r ! 5) ''tool''"
      "getv (cq_messages r ! 5) ''tool_call_id'' = PStr ''c2''"
    by (auto split: option.splits)
  from sample_request_sent[OF r(1)] obtain s' where run:
    "build_canonical_messages sample_settings 0 (Some ''q'') [] None [] sample_state = (Next r :: (unit, canonical_request) flow, s')" .
  have doc: "document_read sample_settings sample_state = sample_conversation" by code_simp
  have "speakers (document_read sample_settings sample_state)"
    unfolding doc by (simp add: speakers_def sample_conversation_def)
  note leaks = request_leaks_nothing[OF run this, of "cq_messages r ! 5"]
  have "am_scope sample_settings = {''d.t.c''}" "am_preview_rows sample_settings = 5"
    by (simp_all add: sample_settings_def)
  with leaks r show ?thesis unfolding doc by (intro exI[of _ r] exI[of _ "cq_messages r ! 5"]) simp
qed

end
