(* ===== verification/Finalization.thy ===== *)
theory Finalization
  imports AnalysisLedger
begin

text \<open>
  The decision layer of finalization, \<^verbatim>\<open>runtime/loop/finalization.py\<close>: the refusals and nudges, the
  answer-shape counter, the gate that spends one forced re-round per window and kind, and the
  loop's forced blocking of surviving intents (\<^verbatim>\<open>AgentLoop._force_block_pending_intents\<close>). The gate
  is written over its store's claim operation, which may fail.
\<close>

section \<open>Answer shape\<close>

definition DATA_ANSWER_TOOLS :: "string list" where
  "DATA_ANSWER_TOOLS = [''runBlueprint'', ''runQuery'']"

definition ANSWER_TABLE_TOOL_NAME :: string where
  "ANSWER_TABLE_TOOL_NAME = ''answerWithTable''"

definition is_multi_row_answer_call :: "string \<Rightarrow> string \<Rightarrow> result_preview option \<Rightarrow> bool" where
  "is_multi_row_answer_call tool status preview \<longleftrightarrow>
     tool \<in> set DATA_ANSWER_TOOLS \<and> status = ''ok'' \<and>
     (case preview of None \<Rightarrow> False | Some p \<Rightarrow> 1 < rp_row_count p)"

record answer_shape =
  sh_multi_row_calls :: nat
  sh_table_succeeded :: bool

definition new_answer_shape :: "bool \<Rightarrow> answer_shape" where
  "new_answer_shape seeded = \<lparr>sh_multi_row_calls = 0, sh_table_succeeded = seeded\<rparr>"

definition armed :: "answer_shape \<Rightarrow> bool" where
  "armed c \<longleftrightarrow> sh_multi_row_calls c \<noteq> 0 \<and> \<not> sh_table_succeeded c"

definition note_call :: "string \<Rightarrow> string \<Rightarrow> result_preview option \<Rightarrow> answer_shape \<Rightarrow> answer_shape" where
  "note_call tool status preview c =
     (if is_multi_row_answer_call tool status preview
      then c\<lparr>sh_multi_row_calls := sh_multi_row_calls c + 1\<rparr> else c)"

definition observe_prior_entry :: "string \<Rightarrow> string \<Rightarrow> result_preview option \<Rightarrow> answer_shape \<Rightarrow> answer_shape" where
  "observe_prior_entry tool status preview c =
     (let c1 = note_call tool status preview c
      in if tool = ANSWER_TABLE_TOOL_NAME \<and> status = ''ok'' then c1\<lparr>sh_table_succeeded := True\<rparr> else c1)"

definition note_answer_succeeded :: "answer_shape \<Rightarrow> answer_shape" where
  "note_answer_succeeded c = c\<lparr>sh_table_succeeded := True\<rparr>"

section \<open>Pending intents and the refusals\<close>

definition pending_intents :: "analysis_state option \<Rightarrow> tracked_intent list" where
  "pending_intents state = (case state of None \<Rightarrow> []
     | Some a \<Rightarrow> filter (\<lambda>i. ti_status i = ''pending'') (as_intents a))"

definition describe_pending :: "tracked_intent list \<Rightarrow> string" where
  "describe_pending pending = join ''; '' (map (\<lambda>i. ti_intent_id i @ '' ('' @
     quoted (sanitize_text (ti_description i) MAX_FIELD_CHARS) @ '')'') pending)"

definition refusal :: "string \<Rightarrow> string \<Rightarrow> tool_result" where
  "refusal error_code detail =
     \<lparr>tr_status = ''error'', tr_tool_name = ANSWER_TABLE_TOOL_NAME, tr_error_code = Some error_code,
      tr_retryable = Some True, tr_user_message = Some detail, tr_provenance = Some {||},
      tr_result_preview = None, tr_result_full = PNone, tr_authoritative = False,
      tr_denial_detail = Some detail, tr_window_note = None\<rparr>"

definition finalization_blocked :: "tracked_intent list \<Rightarrow> tool_result" where
  "finalization_blocked pending = refusal ''FINALIZATION_BLOCKED_PENDING_INTENTS''
     (''You cannot finish yet: '' @ show_nat (length pending) @ '' intent(s) you are tracking are still '' @
      ''pending '' @ em_dash @ '' '' @ describe_pending pending @ ''. Resolve each one with '' @
      ''updateAnalysisState '' @ em_dash @ '' completed, citing the call that answered it, or '' @
      ''blocked, citing the call that shows it cannot be done '' @ em_dash @ '' then send this '' @
      ''answer again.'')"

definition answer_table_no_table_designated :: tool_result where
  "answer_table_no_table_designated = refusal ''ANSWER_TABLE_NO_TABLE_DESIGNATED''
     (''Your answerWithTable named no table, so there is nothing for the user to '' @
      ''look at. Every table goes in `tables`, one entry per part of your answer: '' @
      ''`tables: [{sql: '' @ [CHR 0x22] @ ''SELECT '' @ ellipsis @ [CHR 0x22] @ ''}]` for a query you wrote, or '' @
      ''`tables: [{blueprint_id: '' @ [CHR 0x22] @ ''bp-'' @ ellipsis @ [CHR 0x22] @ ''}]` for a blueprint you ran this turn. '' @
      ''Send your answer again with the table in it.'')"

definition answer_judge_rejected :: "string \<Rightarrow> tool_result" where
  "answer_judge_rejected feedback = refusal ''ANSWER_JUDGE_REJECTED''
     (''That answer was reviewed against this turn and sent back. '' @ feedback @ '' '' @
      ''Send your answer again with that fixed, the rest of it unchanged '' @ em_dash @ '' including '' @
      ''the tables you designated, which are still what the user needs to see.'')"

section \<open>Nudges\<close>

definition MAX_NUDGE_DRAFT_CHARS :: nat where
  "MAX_NUDGE_DRAFT_CHARS = 2000"

definition stripped_draft :: "string option \<Rightarrow> string" where
  "stripped_draft draft = (case draft of None \<Rightarrow> [] | Some d \<Rightarrow> py_strip d)"

definition lines_text :: "string list \<Rightarrow> string" where
  "lines_text ls = join [CHR 0x0A] ls"

definition finalization_nudge_text :: "string option \<Rightarrow> tracked_intent list \<Rightarrow> string" where
  "finalization_nudge_text draft pending = lines_text
     ((if stripped_draft draft = [] then []
       else [''You drafted: '' @ take MAX_NUDGE_DRAFT_CHARS (stripped_draft draft), []])
      @ [''That is not your final answer yet '' @ em_dash @ '' '' @ show_nat (length pending) @ '' intent(s) you are '' @
         ''tracking are still pending: '' @ describe_pending pending @ ''.'',
         ''Resolve each one with updateAnalysisState '' @ em_dash @ '' completed, citing the call that '' @
         ''answered it, or blocked, citing the call that shows it cannot be done '' @ em_dash @ '' then '' @
         ''re-send your final answer.''])"

definition answer_shape_nudge_text :: "string option \<Rightarrow> nat \<Rightarrow> string" where
  "answer_shape_nudge_text draft multi_row_calls = lines_text
     ((if stripped_draft draft = [] then []
       else let echo = take MAX_NUDGE_DRAFT_CHARS (stripped_draft draft)
         in [''You drafted: '' @ echo @ (if length echo < length (stripped_draft draft)
               then '' '' @ ellipsis @ ''[truncated]'' else []), []])
      @ [''That answer is not finished. This turn produced '' @ show_nat multi_row_calls @ '' multi-row '' @
         ''result(s), and a multi-row answer must be delivered through answerWithTable.'',
         ''The turn is NOT over and answerWithTable is still available to you: you can '' @
         ''and must call it in your NEXT response.'',
         ''Pass one table per part you answered '' @ em_dash @ '' blueprint_id for a result a blueprint '' @
         ''produced, sql otherwise '' @ em_dash @ '' and keep the prose you just wrote as the answer.'',
         ''If your answer really is a single figure or an empty result, re-send your '' @
         ''full answer with no tool call and it will be accepted.''])"

definition empty_answer_nudge_text :: "string option \<Rightarrow> string" where
  "empty_answer_nudge_text incomplete_reason = lines_text
     ([''Your last response was EMPTY '' @ em_dash @ '' no text and no tool call. The user saw a blank '' @
       ''answer, so nothing you may have intended to say reached them.'']
      @ (if truthy_text incomplete_reason
         then [''The provider reported that response as incomplete ('' @ or_empty incomplete_reason @ ''), '' @
               ''which usually means the answer was cut off before it began. Keep this one '' @
               ''SHORT: lead with the finding in a sentence or two.''] else [])
      @ [''The turn is NOT over and every tool is still available to you. Your next '' @
         ''response must be one of exactly two things: the final answer as TEXT, or a '' @
         ''tool call that gets you closer to it.'',
         ''If you cannot answer the question, say so in text and say what blocked you '' @ em_dash @ '' '' @
         ''that is a valid, complete answer. Silence is not.''])"

section \<open>Refreshing the live state\<close>

text \<open>
  A malformed result is no refresh: the source catches the three exceptions, and a value of the
  wrong type (\<open>IllTyped\<close>, which the records cannot hold) is treated alike.
\<close>

definition refreshed_analysis_state :: "tool_result \<Rightarrow> int \<Rightarrow> analysis_state option" where
  "refreshed_analysis_state r ti = (case tr_result_full r of
     PDict d \<Rightarrow>
       (if tr_status r \<noteq> ''ok'' then None
        else case analysis_state_from_doc d of
          Inl e \<Rightarrow> None
        | Inr a \<Rightarrow> (if as_turn_index a = ti then Some a else None))
   | _ \<Rightarrow> None)"

section \<open>The gate\<close>

record gate =
  fg_window :: int
  fg_turn_index :: int
  fg_refused_this_round :: bool
  fg_granted_kinds :: "string list"

definition new_gate :: "int \<Rightarrow> int \<Rightarrow> gate" where
  "new_gate ti window = \<lparr>fg_window = window, fg_turn_index = ti, fg_refused_this_round = False, fg_granted_kinds = []\<rparr>"

definition has_spent :: "string \<Rightarrow> gate \<Rightarrow> bool" where
  "has_spent kind g \<longleftrightarrow> kind \<in> set (fg_granted_kinds g)"

definition gate_begin_round :: "gate \<Rightarrow> gate" where
  "gate_begin_round g = g\<lparr>fg_refused_this_round := False\<rparr>"

text \<open>The claim of the store: granted or not, or an exception, and the store afterwards.\<close>

type_synonym 's claim_op = "int \<Rightarrow> int \<Rightarrow> string \<Rightarrow> 's \<Rightarrow> bool result \<times> 's"

definition may_refuse :: "'s claim_op \<Rightarrow> string \<Rightarrow> gate \<Rightarrow> 's \<Rightarrow> (bool \<times> event list) \<times> gate \<times> 's" where
  "may_refuse claim kind g s =
     (if fg_refused_this_round g then ((True, []), g, s)
      else case claim (fg_turn_index g) (fg_window g) kind s of
        (Inl e, s') \<Rightarrow> ((False, [(''loop_finalization_block_claim_failed'',
            [(''turn_index'', PInt (fg_turn_index g)), (''window'', PInt (fg_window g)),
             (''reason'', PStr ''store_error'')])]), g, s')
      | (Inr granted, s') \<Rightarrow>
          (if granted
           then ((True, [(''loop_finalization_block_spent'', [(''window'', PInt (fg_window g))])]),
                 g\<lparr>fg_refused_this_round := True, fg_granted_kinds := List.insert kind (fg_granted_kinds g)\<rparr>, s')
           else ((False, []), g, s')))"

section \<open>Forced blocking\<close>

text \<open>
  Surviving pending intents are blocked with a runtime code. Nothing pending: no write. Where the
  live state has vanished, or the store fails, the turn keeps the state it had.
\<close>

definition force_merge :: "int \<Rightarrow> string \<Rightarrow> analysis_state option \<Rightarrow> analysis_state result" where
  "force_merge ti reason_code current = (case current of
     None \<Rightarrow> Inl (OtherError ''_NoLiveStateToForceError'')
   | Some a \<Rightarrow> Inr \<lparr>as_turn_index = ti, as_intents =
       map (\<lambda>i. if ti_status i \<noteq> ''pending'' then i
                else i\<lparr>ti_status := ''blocked'', ti_reason_code := Some reason_code\<rparr>) (as_intents a)\<rparr>)"

definition forced_events :: "string \<Rightarrow> bool \<Rightarrow> string \<Rightarrow> event list" where
  "forced_events reason_code cap iid =
     [(''loop_analysis_state_transition'', [(''intent_id'', PStr iid), (''from_status'', PStr ''pending''),
        (''to_status'', PStr ''blocked''), (''reason_code'', PStr reason_code)]),
      (''loop_intent_force_blocked'', [(''intent_id'', PStr iid), (''reason_code'', PStr reason_code)]
        @ (if cap then [(''budget_cap_reached'', PBool True)] else []))]"

definition force_block_pending_intents :: "clock \<Rightarrow> string \<Rightarrow> int \<Rightarrow> analysis_state option \<Rightarrow> string \<Rightarrow> bool \<Rightarrow>
    session_store \<Rightarrow> analysis_state option \<times> event list \<times> session_store" where
  "force_block_pending_intents clk sid ti state reason_code cap st =
     (if pending_intents state = [] then (state, [], st)
      else let forced = map ti_intent_id (filter (\<lambda>i. ti_status i = ''pending'') (snapshot clk sid ti st))
      in case apply_analysis_state clk sid ti (force_merge ti reason_code) st of
           (Inl e, st') \<Rightarrow> (state, [], st')
         | (Inr a, st') \<Rightarrow> (Some a, concat (map (forced_events reason_code cap) forced), st'))"

end
