(* ===== verification/AnswerRules.thy ===== *)
theory AnswerRules
  imports Finalization BlueprintModels
begin

text \<open>
  The finish-time answer rules, \<^verbatim>\<open>runtime/loop/answer_rules.py\<close>: the figures a prose answer
  reports, markdown tables and SQL in it, the nudges and the first rule a finish trips. The regular
  expressions are written as scanners over code points below 256, whose word characters are those
  of Python's \<^verbatim>\<open>\w\<close> in that range.
\<close>

section \<open>Characters and words\<close>

definition word_char :: "char \<Rightarrow> bool" where
  "word_char c \<longleftrightarrow> c = CHR ''_'' \<or> is_digit c \<or> (65 \<le> code c \<and> code c \<le> 90) \<or> (97 \<le> code c \<and> code c \<le> 122) \<or>
     code c \<in> {170, 178, 179, 181, 185, 186, 188, 189, 190} \<or> (192 \<le> code c \<and> code c \<noteq> 215 \<and> code c \<noteq> 247)"

definition ascii_upper :: "char \<Rightarrow> char" where
  "ascii_upper c = (if 97 \<le> code c \<and> code c \<le> 122 then char_of (code c - 32) else c)"

definition starts_word :: "string \<Rightarrow> bool" where
  "starts_word s \<longleftrightarrow> (case s of [] \<Rightarrow> False | c # _ \<Rightarrow> word_char c)"

text \<open>\<^verbatim>\<open>\bkw\b\<close> at the head of the text, whose preceding character is a word character or not.\<close>

definition keyword_here :: "string \<Rightarrow> bool \<Rightarrow> string \<Rightarrow> bool" where
  "keyword_here kw after_word s \<longleftrightarrow> \<not> after_word \<and> prefix kw s \<and> \<not> starts_word (drop (length kw) s)"

fun keyword_within :: "nat \<Rightarrow> string \<Rightarrow> bool \<Rightarrow> string \<Rightarrow> bool" where
  "keyword_within n kw after_word [] \<longleftrightarrow> False"
| "keyword_within 0 kw after_word s \<longleftrightarrow> keyword_here kw after_word s"
| "keyword_within (Suc n) kw after_word (c # s) \<longleftrightarrow> keyword_here kw after_word (c # s) \<or> keyword_within n kw (word_char c) s"

text \<open>\<^verbatim>\<open>\bSELECT\b\<close> with \<^verbatim>\<open>\bFROM\b\<close> at most \<open>n\<close> characters after it.\<close>

fun select_from :: "nat \<Rightarrow> bool \<Rightarrow> string \<Rightarrow> bool" where
  "select_from n after_word [] \<longleftrightarrow> False"
| "select_from n after_word (c # s) \<longleftrightarrow>
     (keyword_here ''SELECT'' after_word (c # s) \<and> keyword_within n ''FROM'' True (drop 6 (c # s))) \<or>
     select_from n (word_char c) s"

section \<open>Reported figures\<close>

fun take_digits :: "nat \<Rightarrow> string \<Rightarrow> string option" where
  "take_digits 0 s = Some s"
| "take_digits (Suc n) [] = None"
| "take_digits (Suc n) (c # s) = (if is_digit c then take_digits n s else None)"

definition take_char :: "char \<Rightarrow> string \<Rightarrow> string option" where
  "take_char c s = (case s of [] \<Rightarrow> None | d # s' \<Rightarrow> if d = c then Some s' else None)"

definition iso_date_rest :: "string \<Rightarrow> string option" where
  "iso_date_rest s = Option.bind (take_digits 4 s) (\<lambda>s. Option.bind (take_char CHR ''-'' s) (\<lambda>s.
     Option.bind (take_digits 2 s) (\<lambda>s. Option.bind (take_char CHR ''-'' s) (take_digits 2))))"

text \<open>One or two digits and a slash: how many is decided by where the slash is.\<close>

definition slash_part :: "string \<Rightarrow> string option" where
  "slash_part s = (case Option.bind (take_digits 2 s) (take_char CHR ''/'') of
     Some r \<Rightarrow> Some r | None \<Rightarrow> Option.bind (take_digits 1 s) (take_char CHR ''/''))"

definition slash_date_rest :: "string \<Rightarrow> string option" where
  "slash_date_rest s = Option.bind (slash_part s) (\<lambda>s. Option.bind (slash_part s) (\<lambda>s.
     if take_digits 2 s = None then None
     else Some (drop (min 4 (length (takeWhile is_digit s))) s)))"

text \<open>\<^verbatim>\<open>_DATE_SHAPES.sub(" ", prose)\<close>; the fuel is the length of the text.\<close>

fun blank_dates :: "nat \<Rightarrow> string \<Rightarrow> string" where
  "blank_dates 0 s = []"
| "blank_dates (Suc n) [] = []"
| "blank_dates (Suc n) (c # s) = (case iso_date_rest (c # s) of
     Some r \<Rightarrow> CHR '' '' # blank_dates n r
   | None \<Rightarrow> (case slash_date_rest (c # s) of
       Some r \<Rightarrow> CHR '' '' # blank_dates n r
     | None \<Rightarrow> c # blank_dates n s))"

fun comma_groups :: "string \<Rightarrow> string" where
  "comma_groups (c # a # b # d # s) = (if c = CHR '','' \<and> is_digit a \<and> is_digit b \<and> is_digit d
     then c # a # b # d # comma_groups s else [])"
| "comma_groups _ = []"

definition fraction :: "string \<Rightarrow> string" where
  "fraction s = (case s of c # r \<Rightarrow> if c = CHR ''.'' \<and> takeWhile is_digit r \<noteq> [] then c # takeWhile is_digit r else [] | [] \<Rightarrow> [])"

text \<open>The match of \<^verbatim>\<open>_NUMERIC\<close> at the head of a text that starts with a digit.\<close>

definition numeric_match :: "string \<Rightarrow> string" where
  "numeric_match s = (let run = takeWhile is_digit s; groups = comma_groups (drop (length run) s);
       whole = (if length run \<le> 3 then run @ groups else run) in
     whole @ fraction (drop (length whole) s))"

fun numeric_tokens :: "nat \<Rightarrow> string \<Rightarrow> string list" where
  "numeric_tokens 0 s = []"
| "numeric_tokens (Suc n) [] = []"
| "numeric_tokens (Suc n) (c # s) = (if is_digit c
     then numeric_match (c # s) # numeric_tokens n (drop (length (numeric_match (c # s))) (c # s))
     else numeric_tokens n s)"

definition is_year :: "string \<Rightarrow> bool" where
  "is_year token \<longleftrightarrow> length token = 4 \<and> list_all is_digit token \<and> 1900 \<le> read_nat token \<and> read_nat token \<le> 2100"

definition strip_commas :: "string \<Rightarrow> string" where
  "strip_commas s = filter (\<lambda>c. c \<noteq> CHR '','') s"

definition is_figure :: "string \<Rightarrow> bool" where
  "is_figure token \<longleftrightarrow> \<not> is_year token \<and>
     (CHR '','' \<in> set token \<or> 3 \<le> length (filter (\<lambda>c. c \<noteq> CHR ''.'') (strip_commas token)))"

definition reported_figures :: "string \<Rightarrow> string list" where
  "reported_figures prose = (let text = blank_dates (length prose) prose in
     foldl add_new [] (map strip_commas (filter is_figure (numeric_tokens (length text) text))))"

definition asserts_quantity :: "string \<Rightarrow> bool" where
  "asserts_quantity prose \<longleftrightarrow> reported_figures prose \<noteq> []"

section \<open>Markdown tables\<close>

definition line_break :: "char \<Rightarrow> bool" where
  "line_break c \<longleftrightarrow> (10 \<le> code c \<and> code c \<le> 13) \<or> (28 \<le> code c \<and> code c \<le> 30) \<or> code c = 133"

text \<open>\<^verbatim>\<open>str.splitlines\<close>: a carriage return and its line feed are one break, a final break adds no line.\<close>

fun split_lines :: "string \<Rightarrow> string \<Rightarrow> string list" where
  "split_lines [] acc = (if acc = [] then [] else [rev acc])"
| "split_lines (c # s) acc = (if line_break c
     then rev acc # (case s of d # s' \<Rightarrow> if c = CHR 0x0D \<and> d = CHR 0x0A then split_lines s' [] else split_lines s []
                     | [] \<Rightarrow> [])
     else split_lines s (c # acc))"

definition is_separator :: "string \<Rightarrow> bool" where
  "is_separator l \<longleftrightarrow> list_all (\<lambda>c. py_space c \<or> c \<in> {CHR '':'', CHR ''|'', CHR ''-''}) l \<and> CHR ''-'' \<in> set l"

fun table_in_lines :: "string list \<Rightarrow> bool" where
  "table_in_lines (h # r # ls) \<longleftrightarrow>
     (2 \<le> count_list h CHR ''|'' \<and> CHR ''|'' \<in> set r \<and> is_separator r) \<or> table_in_lines (r # ls)"
| "table_in_lines _ \<longleftrightarrow> False"

definition has_markdown_table :: "string \<Rightarrow> bool" where
  "has_markdown_table prose \<longleftrightarrow> table_in_lines (split_lines prose [])"

section \<open>SQL in the answer\<close>

definition SQL_LEAD :: "string list" where
  "SQL_LEAD = [''SELECT'', ''WITH'', ''SHOW'', ''DESCRIBE'', ''DESC'', ''EXPLAIN'', ''CREATE'', ''INSERT'', ''UPDATE'',
     ''DELETE'', ''ALTER'', ''DROP'']"

definition backtick :: char where
  "backtick = CHR 0x60"

definition fence :: string where
  "fence = [backtick, backtick, backtick]"

definition keyword_start :: "string \<Rightarrow> string \<Rightarrow> bool" where
  "keyword_start kw s \<longleftrightarrow> prefix kw (map ascii_upper s) \<and> \<not> starts_word (drop (length kw) s)"

definition sql_fence :: "string \<Rightarrow> bool" where
  "sql_fence s \<longleftrightarrow> prefix fence s \<and> keyword_start ''SQL'' (dropWhile (\<lambda>c. c = CHR '' '' \<or> c = CHR 0x09) (drop 3 s))"

definition statement_fence :: "string \<Rightarrow> bool" where
  "statement_fence s \<longleftrightarrow> prefix fence s \<and>
     (case dropWhile (\<lambda>c. c \<noteq> CHR 0x0A \<and> c \<noteq> backtick) (drop 3 s) of
        c # r \<Rightarrow> c = CHR 0x0A \<and> list_ex (\<lambda>kw. keyword_start kw (dropWhile py_space r)) SQL_LEAD
      | [] \<Rightarrow> False)"

definition code_span :: "string \<Rightarrow> bool" where
  "code_span s \<longleftrightarrow> (case s of
     c # r \<Rightarrow> (let span = takeWhile (\<lambda>c. c \<noteq> backtick \<and> c \<noteq> CHR 0x0A) r in
       c = backtick \<and> take 1 (drop (length span) r) = [backtick] \<and>
       select_from (length span) False (map ascii_upper span))
   | [] \<Rightarrow> False)"

definition contains_sql :: "string \<Rightarrow> bool" where
  "contains_sql prose \<longleftrightarrow> list_ex (\<lambda>s. sql_fence s \<or> statement_fence s \<or> code_span s) (suffixes prose) \<or>
     select_from 400 False prose"

section \<open>The rules\<close>

definition draft_echo :: "string option \<Rightarrow> string list" where
  "draft_echo draft = (if stripped_draft draft = [] then []
     else [''You drafted: '' @ take MAX_NUDGE_DRAFT_CHARS (stripped_draft draft) @
         (if MAX_NUDGE_DRAFT_CHARS < length (stripped_draft draft) then '' '' @ ellipsis @ ''[truncated]'' else []), []])"

definition ungrounded_quantity_nudge :: "string option \<Rightarrow> string" where
  "ungrounded_quantity_nudge draft = lines_text (draft_echo draft @
     [''That answer reports a figure, but this turn executed no query '' @ em_dash @ '' no runQuery '' @
      ''result and no runBlueprint result stands behind it.'',
      ''The turn is NOT over and every tool is still available to you. Run the query '' @
      ''or blueprint that produces the figure, then answer from what it returns.'',
      ''If you cannot run one, say so in text and say what blocked you '' @ em_dash @ '' that is a '' @
      ''valid, complete answer. A figure you did not measure is not.''])"

definition markdown_table_nudge :: "string option \<Rightarrow> string" where
  "markdown_table_nudge draft = lines_text (draft_echo draft @
     [''That answer contains a markdown table. Rows are never delivered as markdown '' @ em_dash @ '' '' @
      ''the user's interface renders its own scrollable, paginated grid, and pasted '' @
      ''rows replace it with a truncated copy.'',
      ''The turn is NOT over and answerWithTable is still available to you: call it in '' @
      ''your NEXT response. Pass one table per part you answered '' @ em_dash @ '' blueprint_id for a '' @
      ''result a blueprint produced, sql otherwise '' @ em_dash @ '' and keep your prose as the '' @
      ''answer, with the rows taken out of it.''])"

definition sql_in_answer_nudge :: "string option \<Rightarrow> string" where
  "sql_in_answer_nudge draft = lines_text (draft_echo draft @
     [''That answer contains SQL. The query already reaches the user in full '' @ em_dash @ '' the '' @
      ''interface renders it in its own panel beside your answer, from what this turn '' @
      ''executed and from the table you designate '' @ em_dash @ '' so pasting it into the prose adds '' @
      ''nothing and is the one place it must never appear.'',
      ''The turn is NOT over. Re-send the SAME answer in your NEXT response with the '' @
      ''query taken out, in the user's own business language: no SQL, no table or '' @
      ''column names, no DDL. Describe what you measured, not how you measured it.''])"

record answer_rule =
  ar_name :: string
  ar_charges_to :: string
  ar_applies :: "string \<Rightarrow> pyval list \<Rightarrow> bool"
  ar_nudge :: "string option \<Rightarrow> string"

definition ANSWER_RULES :: "answer_rule list" where
  "ANSWER_RULES =
     [\<lparr>ar_name = ''ungrounded_quantity'', ar_charges_to = ''ungrounded_answer'',
        ar_applies = (\<lambda>prose sql. sql = [] \<and> asserts_quantity prose), ar_nudge = ungrounded_quantity_nudge\<rparr>,
      \<lparr>ar_name = ''sql_in_answer'', ar_charges_to = ''answer_shape'',
        ar_applies = (\<lambda>prose sql. contains_sql prose), ar_nudge = sql_in_answer_nudge\<rparr>,
      \<lparr>ar_name = ''markdown_table'', ar_charges_to = ''answer_shape'',
        ar_applies = (\<lambda>prose sql. has_markdown_table prose), ar_nudge = markdown_table_nudge\<rparr>]"

definition first_match :: "string option \<Rightarrow> pyval list option \<Rightarrow> answer_rule option" where
  "first_match prose turn_sql = (let t = stripped_draft prose in
     if t = [] then None
     else find (\<lambda>r. ar_applies r t (case turn_sql of None \<Rightarrow> [] | Some s \<Rightarrow> s)) ANSWER_RULES)"

section \<open>Examples\<close>

lemma figures_of_text:
  "reported_figures ''On 2026-03-31, in 2025, 9,184 of 412.5 and 40 (3/1/24) and 1,2345'' = [''9184'', ''412.5'', ''1234'']"
  by code_simp

lemma shapes_of_text:
  "has_markdown_table (''| a | b |'' @ [CHR 0x0D, CHR 0x0A] @ ''|---|:-:|'')"
  "\<not> has_markdown_table ''a | b | c''"
  "contains_sql ''Here: SELECT a FROM t''" "\<not> contains_sql ''select the rows FROM it, SELECTED''"
  "contains_sql (''x '' @ [CHR 0x60] @ ''select a from t'' @ [CHR 0x60])"
  "contains_sql (fence @ ''txt'' @ [CHR 0x0A] @ ''  with x'')"
  by code_simp+

end
