(* ===== verification/AnswerJudge.thy ===== *)
theory AnswerJudge
  imports AnswerRules
begin

text \<open>
  The answer judge, \<^verbatim>\<open>runtime/loop/answer_judge.py\<close>: the brief and its JSON payload, the fitting of
  the payload to a token budget, the guarded reading of the model's verdict and the review that
  wraps them. The provider call is a parameter: it times out, raises or answers. The fitting loop
  is a partial function, because it may not return.
\<close>

section \<open>Verdicts\<close>

datatype judge_site = ExitProse | ExitTable | AskUserSite

definition site_name :: "judge_site \<Rightarrow> string" where
  "site_name s = (case s of ExitProse \<Rightarrow> ''exit_prose'' | ExitTable \<Rightarrow> ''exit_table'' | AskUserSite \<Rightarrow> ''ask_user'')"

definition ANSWER_VIOLATIONS :: "string list" where
  "ANSWER_VIOLATIONS = [''unrecorded_assumption'', ''unexplained_gap'', ''contradicts_result'']"

definition ASK_USER_VIOLATIONS :: "string list" where
  "ASK_USER_VIOLATIONS = [''non_contextual_question'']"

definition violations_for_site :: "judge_site \<Rightarrow> string list" where
  "violations_for_site s = (if s = AskUserSite then ASK_USER_VIOLATIONS else ANSWER_VIOLATIONS)"

definition MAX_FEEDBACK_CHARS :: nat where
  "MAX_FEEDBACK_CHARS = 600"

record judge_verdict =
  jv_approved :: bool
  jv_violation :: string
  jv_feedback :: string

definition APPROVED :: judge_verdict where
  "APPROVED = \<lparr>jv_approved = True, jv_violation = [], jv_feedback = []\<rparr>"

section \<open>The brief\<close>

record judge_brief =
  jb_site :: judge_site
  jb_question :: "string option"
  jb_date_anchor :: "string option"
  jb_intents :: "(string \<times> string \<times> string \<times> string option) list"
  jb_assumptions :: "string list"
  jb_sql_executed :: "pyval list"
  jb_results :: "pydict list"
  jb_draft :: string
  jb_designated_tables :: "(string option \<times> string) list"
  jb_figure_corroborated :: "bool option"
  jb_pending_question :: string

definition payload :: "judge_brief \<Rightarrow> pydict" where
  "payload b = [(''question'', opt_str (jb_question b))]
     @ (case jb_date_anchor b of None \<Rightarrow> [] | Some d \<Rightarrow> if d = [] then [] else [(''today'', PStr d)])
     @ (if jb_site b = AskUserSite then [(''question_the_agent_wants_to_ask'', PStr (jb_pending_question b))]
        else [(''draft_answer'', PStr (jb_draft b))])
     @ (if jb_intents b = [] then [] else [(''tracked_parts'', PList (map (\<lambda>(i, d, s, r).
          PDict [(''id'', PStr i), (''part'', PStr d), (''status'', PStr s), (''reason'', opt_str r)]) (jb_intents b)))])
     @ [(''recorded_assumptions'', PList (map PStr (jb_assumptions b)))]
     @ (if jb_sql_executed b = [] then [] else [(''queries_run'', PList (jb_sql_executed b))])
     @ (if jb_designated_tables b = [] then [] else [(''tables_shown_to_the_user'', PList (map (\<lambda>(c, i).
          PDict [(''caption'', opt_str c), (''identified_by'', PStr i)]) (jb_designated_tables b)))])
     @ (case jb_figure_corroborated b of None \<Rightarrow> [] | Some f \<Rightarrow> [(''figures_found_in_results'', PBool f)])
     @ (if jb_results b = [] then [] else [(''results'', PList (map PDict (jb_results b)))])"

definition dump :: "pyval \<Rightarrow> string" where
  "dump v = json_text \<lparr>item_sep = '', '', key_sep = '': '', ensure_ascii = False\<rparr> v"

definition judge_tokens :: "string \<Rightarrow> nat" where
  "judge_tokens s = max 1 (length s div 4)"

section \<open>Fitting the payload\<close>

definition with_results :: "pydict \<Rightarrow> pydict list \<Rightarrow> pydict" where
  "with_results p rs = dset ''results'' (PList (map PDict rs)) p"

definition fits :: "nat \<Rightarrow> pydict \<Rightarrow> bool" where
  "fits budget p \<longleftrightarrow> judge_tokens (dump (PDict p)) \<le> budget"

text \<open>\<^verbatim>\<open>max(range(len(results)), key=...)\<close>: the first index of a largest entry.\<close>

definition fattest :: "pydict list \<Rightarrow> nat" where
  "fattest rs = (let sizes = map (judge_tokens \<circ> dump \<circ> PDict) rs in
     length (takeWhile (\<lambda>n. n \<noteq> fold max sizes 0) sizes))"

text \<open>The entry with its preview rows out, or nothing where there are none to take.\<close>

definition without_rows :: "pydict \<Rightarrow> pydict option" where
  "without_rows r = (case getv r ''result_preview'' of
     PDict p \<Rightarrow> if py_truthy (getv p ''preview_rows'')
       then Some (dset ''result_preview'' (PDict (dset ''truncated'' (PBool True) (dset ''preview_rows'' (PList []) p))) r)
       else None
   | _ \<Rightarrow> None)"

text \<open>The first pass: returned (left), or what the second pass starts from.\<close>

fun trim_rows :: "nat \<Rightarrow> nat \<Rightarrow> pydict \<Rightarrow> pydict list \<Rightarrow> pydict + pydict list" where
  "trim_rows 0 budget p rs = Inr rs"
| "trim_rows (Suc n) budget p rs =
     (if fits budget (with_results p rs) then Inl (with_results p rs)
      else case without_rows (rs ! fattest rs) of
        None \<Rightarrow> Inr rs
      | Some r \<Rightarrow> trim_rows n budget p (rs[fattest rs := r]))"

definition stub_of :: "pydict \<Rightarrow> pydict" where
  "stub_of r = [(''tool_name'', getv r ''tool_name''), (''status'', getv r ''status''),
     (''result_preview'', PNone), (''omitted_for_size'', PBool True)]"

definition omitted :: "pydict \<Rightarrow> bool" where
  "omitted r \<longleftrightarrow> py_truthy (getv r ''omitted_for_size'')"

text \<open>
  The second pass takes the head off and puts its stub back at the head, which is what the next
  round takes off again.
\<close>

partial_function (option) drop_entries :: "nat \<Rightarrow> pydict \<Rightarrow> pydict list \<Rightarrow> pydict option" where
  "drop_entries budget p rs =
     (if rs = [] \<or> fits budget (with_results p rs) then Some (with_results p rs)
      else if list_all omitted (stub_of (hd rs) # tl rs) then Some (with_results p (stub_of (hd rs) # tl rs))
      else drop_entries budget p (stub_of (hd rs) # tl rs))"

declare drop_entries.simps [code]

fun as_dicts :: "pyval list \<Rightarrow> pydict list" where
  "as_dicts [] = []"
| "as_dicts (v # vs) = (case v of PDict d \<Rightarrow> d # as_dicts vs | _ \<Rightarrow> as_dicts vs)"

definition results_of :: "pydict \<Rightarrow> pydict list" where
  "results_of p = (case getv p ''results'' of PList vs \<Rightarrow> as_dicts vs | _ \<Rightarrow> [])"

definition fit_payload :: "pydict \<Rightarrow> nat \<Rightarrow> pydict option" where
  "fit_payload p budget = (let rs = results_of p in
     if rs = [] \<or> fits budget p then Some p
     else (case trim_rows (length rs) budget p rs of
         Inl q \<Rightarrow> Some q
       | Inr rs' \<Rightarrow> drop_entries budget p rs'))"

section \<open>Reading the verdict\<close>

definition JUDGE_TOOL_NAME :: string where
  "JUDGE_TOOL_NAME = ''record_judgement''"

text \<open>A member of the reply's calls: its name, and its arguments when it has any.\<close>

record judge_call =
  jc_name :: "string option"
  jc_arguments :: "pyval option"

text \<open>The calls are \<open>None\<close> when the provider's reply holds no sequence.\<close>

record judge_reply =
  jr_tool_calls :: "judge_call list option"
  jr_total_tokens :: pyval

definition judgement :: "bool \<Rightarrow> judge_reply \<Rightarrow> pydict option" where
  "judgement need_arguments r = (case jr_tool_calls r of
     None \<Rightarrow> None
   | Some calls \<Rightarrow>
       Option.bind (find (\<lambda>c. jc_name c = Some JUDGE_TOOL_NAME \<and> (need_arguments \<longrightarrow> jc_arguments c \<noteq> None)) calls)
         (\<lambda>c. case jc_arguments c of Some (PDict d) \<Rightarrow> Some d | _ \<Rightarrow> None))"

definition usable_feedback :: "pyval \<Rightarrow> string" where
  "usable_feedback v = (case v of PStr s \<Rightarrow> sanitize_text s MAX_FEEDBACK_CHARS | _ \<Rightarrow> [])"

definition is_violation :: "judge_site \<Rightarrow> pyval \<Rightarrow> bool" where
  "is_violation site v \<longleftrightarrow> v \<in> PStr ` set (violations_for_site site)"

definition parse_verdict :: "judge_reply \<Rightarrow> judge_site \<Rightarrow> judge_verdict" where
  "parse_verdict r site = (case judgement True r of
     None \<Rightarrow> APPROVED
   | Some d \<Rightarrow>
       if getv d ''approved'' \<noteq> PBool False \<or> \<not> is_violation site (getv d ''violation'') \<or>
          usable_feedback (getv d ''feedback'') = []
       then APPROVED
       else \<lparr>jv_approved = False, jv_violation = py_str (getv d ''violation''),
             jv_feedback = usable_feedback (getv d ''feedback'')\<rparr>)"

definition looks_malformed :: "judge_reply \<Rightarrow> judge_site \<Rightarrow> bool" where
  "looks_malformed r site = (case judgement False r of
     None \<Rightarrow> True
   | Some d \<Rightarrow> (case getv d ''approved'' of
       PBool b \<Rightarrow> \<not> b \<and> (\<not> is_violation site (getv d ''violation'') \<or> usable_feedback (getv d ''feedback'') = [])
     | _ \<Rightarrow> True))"

section \<open>Nudges\<close>

definition answer_judge_nudge_text :: "string option \<Rightarrow> string \<Rightarrow> string" where
  "answer_judge_nudge_text draft feedback = lines_text (draft_echo draft @
     [''That answer was NOT sent. A review of it against this turn found:'',
      feedback,
      ''The turn is NOT over and every tool is still available to you. Send your answer '' @
      ''again with that fixed '' @ em_dash @ '' the rest of it unchanged. If the fix is an assumption '' @
      ''the user cannot see, call recordAssumptions first and state it in one plain '' @
      ''sentence; if part of the question went unanswered, say so in the answer itself.''])"

definition ask_user_judge_nudge_text :: "string \<Rightarrow> string \<Rightarrow> string" where
  "ask_user_judge_nudge_text question feedback =
     (let asked = sanitize_text question MAX_FEEDBACK_CHARS in
      lines_text ((if asked = [] then [] else [''You were about to ask: '' @ asked, []]) @
        [''That question was NOT sent. The user has not seen it, and they cannot answer it '' @
         ''as written: it asks them about the database rather than about their business.'',
         feedback,
         ''The turn is NOT over and every tool is still available to you. Ask the same '' @
         ''thing again in the user's own words '' @ em_dash @ '' what they want measured, never which '' @
         ''field, table or code to read '' @ em_dash @ '' or, if you can pick a sensible default, take it '' @
         ''and record it with recordAssumptions instead of asking.'']))"

section \<open>The review\<close>

datatype judge_send = TimedOut | Raised | Replied judge_reply

definition judge_failed :: "string \<Rightarrow> event" where
  "judge_failed reason = (''loop_answer_judge_failed'', [(''reason'', PStr reason)])"

text \<open>\<open>send\<close> is the provider call with the site's prompt and tool; \<open>None\<close>: the fitting does not return.\<close>

definition review :: "bool \<Rightarrow> nat \<Rightarrow> (judge_site \<Rightarrow> string \<Rightarrow> 'w \<Rightarrow> judge_send \<times> 'w) \<Rightarrow> judge_brief \<Rightarrow> 'w \<Rightarrow>
    ((judge_verdict \<times> event list) \<times> 'w) option" where
  "review enabled budget send b w =
     (if \<not> enabled then Some ((APPROVED, []), w)
      else map_option (\<lambda>fitted. case send (jb_site b) (dump (PDict fitted)) w of
          (TimedOut, w') \<Rightarrow> ((APPROVED, [judge_failed ''timeout'']), w')
        | (Raised, w') \<Rightarrow> ((APPROVED, [judge_failed ''provider_error'']), w')
        | (Replied r, w') \<Rightarrow>
            (let v = parse_verdict r (jb_site b);
                 called = (''loop_answer_judge_called'', [(''site'', PStr (site_name (jb_site b))),
                   (''tokens'', case jr_total_tokens r of PInt n \<Rightarrow> PInt n | PBool t \<Rightarrow> PBool t | _ \<Rightarrow> PInt 0)])
             in ((v, called # (if jv_approved v \<and> looks_malformed r (jb_site b) then [judge_failed ''malformed''] else [])), w')))
        (fit_payload (payload b) budget))"

section \<open>A rejection can be acted on\<close>

text \<open>
  C36: the judge fails open and a rejection is never empty: whatever the provider returns, the
  verdict is the one approval or a rejection that names a violation of its site and carries
  feedback that is not blank, within its cap and free of control characters.
\<close>

theorem rejection_is_actionable:
  "parse_verdict r site = APPROVED \<or>
   (jv_violation (parse_verdict r site) \<in> set (violations_for_site site) \<and> jv_feedback (parse_verdict r site) \<noteq> [] \<and>
    length (jv_feedback (parse_verdict r site)) \<le> MAX_FEEDBACK_CHARS \<and>
    set (jv_feedback (parse_verdict r site)) \<inter> Collect control_char = {})"
proof (cases "judgement True r")
  case (Some d)
  have clean: "length (usable_feedback v) \<le> MAX_FEEDBACK_CHARS \<and> set (usable_feedback v) \<inter> Collect control_char = {}" for v
    using sanitize_text_structural by (cases v) (auto simp: usable_feedback_def)
  have slug: "is_violation site v \<Longrightarrow> py_str v \<in> set (violations_for_site site)" for v
    by (auto simp: is_violation_def py_str_def)
  show ?thesis using clean slug Some by (simp add: parse_verdict_def)
qed (simp add: parse_verdict_def)

section \<open>The fitting loop\<close>

lemma stub_again: "stub_of (stub_of r) = stub_of r"
  by (simp add: stub_of_def getv_def)

lemma drop_entries_stuck:
  assumes "\<not> fits budget (with_results p (stub_of r # rs))" and "\<not> list_all omitted (stub_of r # rs)"
  shows "drop_entries budget p (stub_of r # rs) = None"
proof -
  let ?stuck = "\<lambda>b q xs. b = budget \<and> q = p \<and> xs = stub_of r # rs"
  have "\<not> ?stuck b q xs" if "drop_entries b q xs = Some y" for b q xs y
  proof (rule drop_entries.raw_induct[where P = "\<lambda>b q xs y. \<not> ?stuck b q xs", OF _ that])
    fix f b q xs y
    assume ih: "\<And>b q xs y. f b q xs = Some y \<Longrightarrow> \<not> ?stuck b q xs"
      and eq: "(if xs = [] \<or> fits b (with_results q xs) then Some (with_results q xs)
        else if list_all omitted (stub_of (hd xs) # tl xs) then Some (with_results q (stub_of (hd xs) # tl xs))
        else f b q (stub_of (hd xs) # tl xs)) = Some y"
    show "\<not> ?stuck b q xs"
    proof
      assume "?stuck b q xs"
      then show False using eq assms ih[of budget p "stub_of r # rs" y] by (simp add: stub_again split: if_splits)
    qed
  qed
  then show ?thesis by (cases "drop_entries budget p (stub_of r # rs)") auto
qed

lemma drop_entries_diverges:
  assumes "\<not> fits budget (with_results p (r # rs))" and "\<not> list_all omitted rs"
    and "\<not> fits budget (with_results p (stub_of r # rs))"
  shows "drop_entries budget p (r # rs) = None"
  using assms drop_entries_stuck[of budget p r rs] by (subst drop_entries.simps) simp

text \<open>
  C37: the second pass of the payload fitting returns only when it stops within one step: with two
  or more results it never returns as soon as replacing the first by its stub is not enough, since
  every round takes off the stub that the round before has put back. (The comment above the loop
  says it drops whole entries, oldest first.)
\<close>

theorem drop_entries_hangs_iff:
  "drop_entries budget p rs = None \<longleftrightarrow>
     rs \<noteq> [] \<and> \<not> fits budget (with_results p rs) \<and> \<not> list_all omitted (tl rs) \<and>
     \<not> fits budget (with_results p (stub_of (hd rs) # tl rs))"
proof (cases rs)
  case (Cons r ys)
  have head: "omitted (stub_of r)" by (simp add: omitted_def stub_of_def getv_def)
  show ?thesis
  proof (cases "fits budget (with_results p rs) \<or> list_all omitted ys")
    case True
    with Cons head show ?thesis by (subst drop_entries.simps) auto
  next
    case False
    have step: "drop_entries budget p rs = drop_entries budget p (stub_of r # ys)"
      using False Cons head by (subst drop_entries.simps) simp
    show ?thesis
    proof (cases "fits budget (with_results p (stub_of r # ys))")
      case True
      then show ?thesis using False Cons by (subst step, subst drop_entries.simps) simp
    next
      case stuck: False
      then show ?thesis using drop_entries_diverges[of budget p r ys] False Cons by simp
    qed
  qed
qed (simp add: drop_entries.simps)

text \<open>Two results without preview rows and a draft over the budget: the review does not return.\<close>

definition wide_brief :: judge_brief where
  "wide_brief = \<lparr>jb_site = ExitProse, jb_question = Some ''q'', jb_date_anchor = None, jb_intents = [], jb_assumptions = [],
     jb_sql_executed = [], jb_results = replicate 2 [(''tool_name'', PStr ''runQuery''), (''status'', PStr ''ok'')],
     jb_draft = replicate 100 CHR ''x'', jb_designated_tables = [], jb_figure_corroborated = None, jb_pending_question = []\<rparr>"

lemma review_hangs: "review True 20 send wide_brief w = None"
proof -
  let ?r = "[(''tool_name'', PStr ''runQuery''), (''status'', PStr ''ok'')]"
  have p: "results_of (payload wide_brief) = [?r, ?r]" "\<not> fits 20 (payload wide_brief)" by code_simp+
  have t: "trim_rows 2 20 (payload wide_brief) [?r, ?r] = Inr [?r, ?r]" by code_simp
  have o: "\<not> list_all omitted [?r]" by code_simp
  have f: "\<not> fits 20 (with_results (payload wide_brief) [?r, ?r])"
    "\<not> fits 20 (with_results (payload wide_brief) [stub_of ?r, ?r])"
    by code_simp+
  have "fit_payload (payload wide_brief) 20 = None"
    using drop_entries_diverges[OF f(1) o f(2)] p t by (simp add: fit_payload_def numeral_2_eq_2)
  then show ?thesis by (simp add: review_def)
qed

end
