(* ===== verification/AnswerDesignation.thy ===== *)
theory AnswerDesignation
  imports AnswerTables
begin

text \<open>
  The resolution of one \<^verbatim>\<open>answerWithTable\<close> call: \<^verbatim>\<open>hooks/answer_table.py\<close> and
  \<^verbatim>\<open>AgentLoop._resolve_answer_tables\<close>, and what \<open>AnswerTables\<close> promises. A hook is a function
  that may raise; the provenance the dispatcher extracts from a query (an SQL parser over the
  catalog) is the parameter \<open>prov_of\<close>. The observer events are part of the result; log lines are
  left out.
\<close>

section \<open>Hooks\<close>

record answer_table_event =
  ev_session_id_hash :: string
  ev_turn_index :: int
  ev_blueprint_id :: "string option"
  ev_sql :: "string option"

type_synonym hook = "answer_table_event \<Rightarrow> pyval result"

record answer_table_hooks =
  h_on_unresolved :: "hook list"
  h_on_ephemeral :: "hook list"

definition dormant :: answer_table_hooks where
  "dormant = \<lparr>h_on_unresolved = [], h_on_ephemeral = []\<rparr>"

definition lower_char :: "char \<Rightarrow> char" where
  "lower_char c = (if (65 \<le> code c \<and> code c \<le> 90) \<or> (192 \<le> code c \<and> code c \<le> 222 \<and> code c \<noteq> 215)
     then char_of (code c + 32) else c)"

definition references_scratch :: "string \<Rightarrow> bool" where
  "references_scratch sql \<longleftrightarrow> sql \<noteq> [] \<and> sublist ''scratch.'' (map lower_char sql)"

fun first_non_none :: "hook list \<Rightarrow> answer_table_event \<Rightarrow> string option" where
  "first_non_none [] ev = None"
| "first_non_none (h # hs) ev = (case h ev of
     Inl _ \<Rightarrow> first_non_none hs ev
   | Inr v \<Rightarrow> (case v of
       PStr s \<Rightarrow> if py_strip s \<noteq> [] then Some (py_strip s) else first_non_none hs ev
     | _ \<Rightarrow> first_non_none hs ev))"

definition resolve_unresolved :: "answer_table_hooks \<Rightarrow> answer_table_event \<Rightarrow> string option" where
  "resolve_unresolved h ev = first_non_none (h_on_unresolved h) ev"

definition resolve_ephemeral :: "answer_table_hooks \<Rightarrow> answer_table_event \<Rightarrow> string option" where
  "resolve_ephemeral h ev = first_non_none (h_on_ephemeral h) ev"

section \<open>Resolving one call\<close>

text \<open>
  One item: an unresolved blueprint asks the hooks and, without a replacement, is the call's
  refusal; a query over scratch tables may be replaced. A replaced query keeps no blueprint.
\<close>

definition resolve_one :: "answer_table_hooks \<Rightarrow> (string option \<Rightarrow> string option \<Rightarrow> answer_table_event) \<Rightarrow>
    designation_item \<Rightarrow> designation_item list \<times> string option \<Rightarrow> designation_item list \<times> string option" where
  "resolve_one h ev item acc = (case acc of (done_items, refused) \<Rightarrow>
     let unresolved = (di_sql item = None \<and> di_named_blueprint item \<noteq> None);
         replacement = (if unresolved then resolve_unresolved h (ev (di_named_blueprint item) None) else None)
     in if unresolved \<and> replacement = None
        then (done_items, if refused = None then di_named_blueprint item else refused)
        else let item1 = (if unresolved then item\<lparr>di_sql := replacement, di_blueprint_id := None\<rparr> else item)
             in (case di_sql item1 of
                   None \<Rightarrow> (done_items, refused)
                 | Some sql \<Rightarrow>
                     let durable = (if references_scratch sql
                           then resolve_ephemeral h (ev (di_named_blueprint item1) (Some sql)) else None)
                     in (done_items @ [case durable of None \<Rightarrow> item1
                           | Some d \<Rightarrow> item1\<lparr>di_sql := Some d, di_blueprint_id := None\<rparr>], refused)))"

record resolved_call =
  rc_tables :: "answer_table list"
  rc_unresolved :: "string option"
  rc_carried :: bool
  rc_events :: "(string \<times> pydict) list"

definition item_dropped :: "string \<Rightarrow> string \<times> pydict" where
  "item_dropped reason = (''loop_answer_table_item_dropped'', [(''reason'', PStr reason)])"

definition designated_event :: "answer_table list \<Rightarrow> string \<times> pydict" where
  "designated_event tables = (''loop_answer_tables_designated'',
     [(''table_count'', PInt (int (length tables))),
      (''blueprint_table_count'', PInt (int (length (filter (\<lambda>t. at_blueprint_use t \<noteq> None) tables)))),
      (''verified_table_count'', PInt (int (length (filter (\<lambda>t. badge_get t ''passed'' = PBool True) tables))))])"

definition resolve_answer_tables :: "answer_table_hooks \<Rightarrow> string \<Rightarrow> int \<Rightarrow> (string \<Rightarrow> prov option) \<Rightarrow> string set \<Rightarrow>
    (string, blueprint_run) dict \<Rightarrow> pyval \<Rightarrow> resolved_call" where
  "resolve_answer_tables h session_hash turn_index prov_of scope runs arguments =
     (let ev = (\<lambda>bid sql. \<lparr>ev_session_id_hash = session_hash, ev_turn_index = turn_index,
            ev_blueprint_id = bid, ev_sql = sql\<rparr>);
          dg = resolve_designations arguments (terminal_sql_by_id runs);
          carried = (dg_items dg \<noteq> []);
          (items, refused) = fold (resolve_one h ev) (dg_items dg) ([], None)
      in if refused \<noteq> None
         then \<lparr>rc_tables = [], rc_unresolved = refused, rc_carried = carried, rc_events = []\<rparr>
         else let f = finalize_designations items;
                  enriched = map (\<lambda>t. enrich_table t runs (prov_of (dt_sql t))) (fz_tables f);
                  ok = (\<lambda>t. is_answer_table_in_scope (at_provenance t) scope);
                  tables = filter ok enriched
              in \<lparr>rc_tables = tables, rc_unresolved = None, rc_carried = carried,
                  rc_events = replicate (dg_dropped_unresolvable dg) (item_dropped ''unresolvable'')
                    @ replicate (fz_dropped_duplicate f) (item_dropped ''duplicate'')
                    @ replicate (fz_dropped_over_cap f) (item_dropped ''over_cap'')
                    @ map (\<lambda>_. item_dropped ''out_of_scope'') (filter (Not \<circ> ok) enriched)
                    @ (if tables \<noteq> [] then [designated_event tables]
                       else if \<not> carried then [(''loop_answer_table_empty_designation'', [])] else [])\<rparr>)"

section \<open>At most eight tables, each query once\<close>

definition resolved_sqls :: "designation_item list \<Rightarrow> string list" where
  "resolved_sqls items = concat (map (\<lambda>i. case di_sql i of None \<Rightarrow> [] | Some s \<Rightarrow> [s]) items)"

lemma take_add_new: "take n (add_new xs x) = (if x \<in> set xs \<or> n \<le> length xs then take n xs else xs @ [x])"
  by (auto simp: add_new_def)

definition finalized_from :: "string list \<Rightarrow> designation_item list \<Rightarrow> nat \<Rightarrow> finalized \<Rightarrow> bool" where
  "finalized_from U src n f \<longleftrightarrow> distinct U \<and> fz_seen f = set U \<and> map dt_sql (fz_tables f) = take MAX_ANSWER_TABLES U \<and>
     fz_dropped_over_cap f = length U - MAX_ANSWER_TABLES \<and> length U + fz_dropped_duplicate f = n \<and>
     (\<forall>t \<in> set (fz_tables f). \<exists>i \<in> set src. di_sql i = Some (dt_sql t) \<and> dt_caption t = di_caption i \<and>
        dt_blueprint_id t = di_blueprint_id i)"

lemma finalize_one_step:
  assumes "finalized_from U src n f"
  shows "finalized_from (foldl add_new U (resolved_sqls [i])) (src @ [i]) (n + length (resolved_sqls [i])) (finalize_one i f)"
proof (cases "di_sql i")
  case None
  with assms show ?thesis by (auto simp: resolved_sqls_def finalize_one_def finalized_from_def)
next
  case (Some s)
  have len: "length (fz_tables f) = min (length U) MAX_ANSWER_TABLES"
    using assms by (metis finalized_from_def length_map length_take)
  show ?thesis
  proof (cases "s \<in> set U")
    case True
    with Some assms show ?thesis
      by (auto simp: resolved_sqls_def finalize_one_def finalized_from_def add_new_def)
  next
    case False
    have "take MAX_ANSWER_TABLES (U @ [s]) = (if MAX_ANSWER_TABLES \<le> length U then take MAX_ANSWER_TABLES U
        else take MAX_ANSWER_TABLES U @ [s])"
      by (auto simp: take_Cons')
    with False Some assms len show ?thesis
      by (auto simp: resolved_sqls_def finalize_one_def finalized_from_def add_new_def Let_def)
  qed
qed

lemma finalize_fold:
  "finalized_from U src n f \<Longrightarrow>
     finalized_from (foldl add_new U (resolved_sqls items)) (src @ items) (n + length (resolved_sqls items)) (fold finalize_one items f)"
proof (induction items arbitrary: U src n f)
  case Nil
  then show ?case by (simp add: resolved_sqls_def)
next
  case (Cons i items)
  have "resolved_sqls (i # items) = resolved_sqls [i] @ resolved_sqls items" by (simp add: resolved_sqls_def)
  with Cons.IH[OF finalize_one_step[OF Cons.prems, of i]] show ?case by (simp add: add.assoc)
qed

lemma finalize_facts:
  "finalized_from (foldl add_new [] (resolved_sqls items)) items (length (resolved_sqls items)) (finalize_designations items)"
proof -
  have "finalized_from [] [] 0 \<lparr>fz_tables = [], fz_seen = {}, fz_dropped_duplicate = 0, fz_dropped_over_cap = 0\<rparr>"
    by (simp add: finalized_from_def)
  from finalize_fold[OF this, of items] show ?thesis by (simp add: finalize_designations_def)
qed

text \<open>
  The designated tables are the first eight distinct queries in the order they were named, each
  with the caption and the blueprint of the item it comes from, and every other resolved item is
  counted as a duplicate or as over the cap.
\<close>

theorem finalize_designations_spec:
  "map dt_sql (fz_tables (finalize_designations items)) =
     take MAX_ANSWER_TABLES (foldl add_new [] (resolved_sqls items)) \<and>
   distinct (map dt_sql (fz_tables (finalize_designations items))) \<and>
   length (fz_tables (finalize_designations items)) \<le> MAX_ANSWER_TABLES \<and>
   length (fz_tables (finalize_designations items)) + fz_dropped_duplicate (finalize_designations items) +
     fz_dropped_over_cap (finalize_designations items) = length (resolved_sqls items)"
proof -
  note f = finalize_facts[of items, unfolded finalized_from_def]
  then have "length (fz_tables (finalize_designations items)) =
      min (length (foldl add_new [] (resolved_sqls items))) MAX_ANSWER_TABLES"
    by (metis length_map length_take)
  with f show ?thesis by (auto simp: distinct_take)
qed

section \<open>Badges are earned\<close>

lemma dget_terminal: "dget (terminal_sql_by_id runs) b = map_option br_terminal_sql (dget runs b)"
  by (induction runs) (auto simp: terminal_sql_by_id_def)

definition item_paired :: "(string, blueprint_run) dict \<Rightarrow> designation_item \<Rightarrow> bool" where
  "item_paired runs i \<longleftrightarrow> (\<forall>b. di_blueprint_id i = Some b \<longrightarrow>
     (\<exists>run. dget runs b = Some run \<and> di_sql i = Some (br_terminal_sql run)))"

lemma resolve_item_paired: "item_paired runs (resolve_item item (terminal_sql_by_id runs))"
  by (cases item) (auto simp: item_paired_def resolve_item_def resolve_designation_def item_get_def Let_def dget_terminal
      split: option.splits if_splits)

lemma designations_paired: "i \<in> set (dg_items (resolve_designations args (terminal_sql_by_id runs))) \<Longrightarrow> item_paired runs i"
  by (cases args) (auto simp: resolve_designations_def Let_def resolve_item_paired split: if_splits)

lemma resolve_one_paired:
  assumes "\<forall>j \<in> set (fst acc). item_paired runs j" and "item_paired runs i"
  shows "\<forall>j \<in> set (fst (resolve_one h ev i acc)). item_paired runs j"
  using assms unfolding resolve_one_def
  by (cases acc) (auto simp: Let_def item_paired_def split: option.splits if_splits)

lemma resolve_fold_paired:
  "\<forall>j \<in> set (fst acc). item_paired runs j \<Longrightarrow> \<forall>i \<in> set items. item_paired runs i \<Longrightarrow>
     \<forall>j \<in> set (fst (fold (resolve_one h ev) items acc)). item_paired runs j"
proof (induction items arbitrary: acc)
  case (Cons i items)
  have "\<forall>j \<in> set (fst (resolve_one h ev i acc)). item_paired runs j"
    by (rule resolve_one_paired) (use Cons.prems in simp_all)
  moreover have "\<forall>i \<in> set items. item_paired runs i" using Cons.prems by simp
  ultimately show ?case unfolding fold_simps by (rule Cons.IH)
qed simp

lemma resolved_tables_from:
  assumes "t \<in> set (rc_tables (resolve_answer_tables h sh ti prov_of scope runs args))"
  obtains d where "t = enrich_table d runs (prov_of (dt_sql d))" "is_answer_table_in_scope (at_provenance t) scope"
    "\<forall>b. dt_blueprint_id d = Some b \<longrightarrow> (\<exists>run. dget runs b = Some run \<and> dt_sql d = br_terminal_sql run)"
proof -
  let ?ev = "\<lambda>bid sql. \<lparr>ev_session_id_hash = sh, ev_turn_index = ti, ev_blueprint_id = bid, ev_sql = sql\<rparr>"
  let ?items = "dg_items (resolve_designations args (terminal_sql_by_id runs))"
  obtain items refused where f: "fold (resolve_one h ?ev) ?items ([], None) = (items, refused)" by fastforce
  have paired: "\<forall>j \<in> set items. item_paired runs j"
    using resolve_fold_paired[of "([], None)" runs ?items h ?ev] designations_paired f by fastforce
  from assms obtain d where d: "d \<in> set (fz_tables (finalize_designations items))"
      "t = enrich_table d runs (prov_of (dt_sql d))" "is_answer_table_in_scope (at_provenance t) scope"
    by (auto simp: resolve_answer_tables_def Let_def f split: if_splits)
  from d(1) finalize_facts[of items] obtain i where i: "i \<in> set items" "di_sql i = Some (dt_sql d)"
      "dt_blueprint_id d = di_blueprint_id i"
    unfolding finalized_from_def by blast
  with paired have "\<forall>b. dt_blueprint_id d = Some b \<longrightarrow> (\<exists>run. dget runs b = Some run \<and> dt_sql d = br_terminal_sql run)"
    by (fastforce simp: item_paired_def)
  with d that show thesis by blast
qed

lemma offered_tables_facts:
  assumes "t \<in> set (rc_tables (resolve_answer_tables h sh ti prov_of scope runs args))"
  shows "(at_verification t = None \<and> at_blueprint_use t = None \<or>
      (\<exists>b run. dget runs b = Some run \<and> at_sql t = br_terminal_sql run \<and>
         at_verification t = non_empty (br_verification run) \<and>
         at_blueprint_use t = Some [(''blueprint_id'', PStr b), (''slots'', PDict (br_slots run))])) \<and>
    (at_provenance t = None \<or> is_provenance_in_scope (at_provenance t) scope)"
proof (rule resolved_tables_from[OF assms])
  fix d assume d: "t = enrich_table d runs (prov_of (dt_sql d))" "is_answer_table_in_scope (at_provenance t) scope"
    "\<forall>b. dt_blueprint_id d = Some b \<longrightarrow> (\<exists>run. dget runs b = Some run \<and> dt_sql d = br_terminal_sql run)"
  from d(2) have "at_provenance t = None \<or> is_provenance_in_scope (at_provenance t) scope"
    by (auto simp: is_answer_table_in_scope_def split: option.splits)
  moreover have "at_verification t = None \<and> at_blueprint_use t = None \<or>
      (\<exists>b run. dget runs b = Some run \<and> at_sql t = br_terminal_sql run \<and>
         at_verification t = non_empty (br_verification run) \<and>
         at_blueprint_use t = Some [(''blueprint_id'', PStr b), (''slots'', PDict (br_slots run))])"
    using d(1,3) by (cases "dt_blueprint_id d") (auto simp: enrich_table_def split: option.splits)
  ultimately show ?thesis by blast
qed


definition sample_run :: blueprint_run where
  "sample_run = \<lparr>br_terminal_sql = ''SELECT 1'', br_verification = Some (passed_badge True), br_slots = []\<rparr>"

definition sample_call :: pyval where
  "sample_call = PDict [(''answer'', PStr ''a''), (''tables'', PList
     [PDict [(''sql'', PStr ''''), (''blueprint_id'', PStr ''b1'')]])]"

lemma sample_call_tables:
  "rc_tables (resolve_answer_tables dormant ''h'' 0 (\<lambda>_. None) {} [(''b1'', sample_run)] sample_call) =
     [\<lparr>at_sql = ''SELECT 1'', at_caption = None,
       at_blueprint_use = Some [(''blueprint_id'', PStr ''b1''), (''slots'', PDict [])],
       at_verification = Some (passed_badge True), at_provenance = None\<rparr>]"
  by code_simp


end
