(* ===== verification/AnswerScrub.thy ===== *)
theory AnswerScrub
  imports AnswerRules AnswerDesignation
begin

text \<open>
  The last-mile scrub of user-facing prose, \<^verbatim>\<open>runtime/answer_scrub.py\<close>: one left-to-right pass whose
  arms are tried in the order of the source's alternation (corpus id, quoted identifier, data file,
  qualified name, underscored token). An arm answers how many characters it matches. Where the
  regular expression backtracks, the candidate ends are listed in the order it tries them.
\<close>

section \<open>Arms\<close>

definition ascii_letter :: "char \<Rightarrow> bool" where
  "ascii_letter c \<longleftrightarrow> (65 \<le> code c \<and> code c \<le> 90) \<or> (97 \<le> code c \<and> code c \<le> 122)"

definition ascii_alnum :: "char \<Rightarrow> bool" where
  "ascii_alnum c \<longleftrightarrow> ascii_letter c \<or> is_digit c"

definition ident_char :: "char \<Rightarrow> bool" where
  "ident_char c \<longleftrightarrow> ascii_alnum c \<or> c = CHR ''_'' \<or> c = CHR ''$''"

definition head_is :: "(char \<Rightarrow> bool) \<Rightarrow> string \<Rightarrow> bool" where
  "head_is P s \<longleftrightarrow> (case s of [] \<Rightarrow> False | c # _ \<Rightarrow> P c)"

text \<open>\<^verbatim>\<open>\b\<close> after the first \<open>n\<close> characters, of which there is at least one.\<close>

definition boundary_at :: "nat \<Rightarrow> string \<Rightarrow> bool" where
  "boundary_at n s \<longleftrightarrow> word_char (s ! (n - 1)) \<noteq> starts_word (drop n s)"

text \<open>The hyphen-joined segments: the lengths of the text up to the end of each.\<close>

function segment_ends :: "string \<Rightarrow> nat list" where
  "segment_ends s = (let n = length (takeWhile ascii_alnum s) in
     if n = 0 then []
     else n # (if head_is (\<lambda>c. c = CHR ''-'') (drop n s) then map ((+) (Suc n)) (segment_ends (drop (Suc n) s)) else []))"
  by pat_completeness auto
termination
  by (relation "measure length") (auto simp: head_is_def intro!: diff_less split: list.splits)

declare segment_ends.simps [simp del]

definition corpus_match :: "bool \<Rightarrow> string \<Rightarrow> nat option" where
  "corpus_match after_word s =
     (let body = drop 3 s; run = takeWhile (\<lambda>c. ascii_alnum c \<or> c = CHR ''-'') body in
      if \<not> after_word \<and> map ascii_upper (take 3 s) \<in> {''BP-'', ''KN-''} \<and> list_ex ascii_letter run
      then map_option ((+) 3) (find (\<lambda>n. \<not> starts_word (drop n body)) (rev (segment_ends body)))
      else None)"

definition quoted_token :: "string \<Rightarrow> string option" where
  "quoted_token s = (case s of
     q # r \<Rightarrow> (let t = takeWhile (\<lambda>c. ascii_alnum c \<or> c = CHR ''$'') r in
       if (q = backtick \<or> q = CHR 0x22) \<and> head_is ascii_letter t \<and> head_is (\<lambda>c. c = q) (drop (length t) r)
       then Some t else None)
   | [] \<Rightarrow> None)"

definition DATA_EXTENSIONS :: "string list" where
  "DATA_EXTENSIONS = [''CSV'', ''TSV'', ''XLSX'', ''JSON'', ''PARQUET'']"

definition extension_here :: "string \<Rightarrow> nat option" where
  "extension_here s = (case s of
     c # r \<Rightarrow> if c = CHR ''.''
       then map_option (Suc \<circ> length) (find (\<lambda>e. keyword_start e r) DATA_EXTENSIONS) else None
   | [] \<Rightarrow> None)"

definition ident_length :: "string \<Rightarrow> nat" where
  "ident_length s = (if head_is (\<lambda>c. ascii_letter c \<or> c = CHR ''_'') s then length (takeWhile ident_char s) else 0)"

text \<open>After a segment: the furthest end at a data-file extension, later segments first.\<close>

function file_end :: "string \<Rightarrow> nat option" where
  "file_end s = (let n = ident_length (drop 1 s) in
     case (if head_is (\<lambda>c. c = CHR ''.'') s \<and> n \<noteq> 0 then map_option ((+) (Suc n)) (file_end (drop (Suc n) s)) else None) of
       Some e \<Rightarrow> Some e | None \<Rightarrow> extension_here s)"
  by pat_completeness auto
termination
  by (relation "measure length") (auto simp: head_is_def split: list.splits if_splits)

declare file_end.simps [simp del]

definition file_match :: "bool \<Rightarrow> string \<Rightarrow> nat option" where
  "file_match after_word s = (let n = ident_length s in
     if after_word \<or> n = 0 then None else map_option ((+) n) (file_end (drop n s)))"

text \<open>After a segment: every end of one or more further segments, in the order they are tried.\<close>

function qualified_ends :: "string \<Rightarrow> nat list" where
  "qualified_ends s = (let n = ident_length (drop 1 s) in
     if head_is (\<lambda>c. c = CHR ''.'') s \<and> 2 \<le> n
     then map ((+) (Suc n)) (qualified_ends (drop (Suc n) s)) @ map Suc (rev [2..<Suc n]) else [])"
  by pat_completeness auto
termination
  by (relation "measure length") (auto simp: head_is_def split: list.splits)

declare qualified_ends.simps [simp del]

definition qualified_match :: "bool \<Rightarrow> bool \<Rightarrow> string \<Rightarrow> nat option" where
  "qualified_match after_word after_at s = (let n = ident_length s in
     if after_word \<or> after_at \<or> n < 2 then None
     else find (\<lambda>e. boundary_at e s \<and> \<not> head_is (\<lambda>c. c = CHR ''@'') (drop e s)) (map ((+) n) (qualified_ends (drop n s))))"

definition underscored_match :: "bool \<Rightarrow> string \<Rightarrow> nat option" where
  "underscored_match after_word s =
     (let n = length (takeWhile (\<lambda>c. ascii_alnum c \<or> c = CHR ''$'') s);
          m = length (takeWhile ident_char (drop (Suc n) s)) in
      if \<not> after_word \<and> head_is ascii_letter s \<and> 4 \<le> length (takeWhile ident_char s) \<and>
         head_is (\<lambda>c. c = CHR ''_'') (drop n s)
      then find (\<lambda>e. boundary_at e s) (map ((+) (Suc n)) (rev [1..<Suc m]))
      else None)"

section \<open>The pass\<close>

definition SAVED_ANALYSIS_MARKER :: string where
  "SAVED_ANALYSIS_MARKER = ''[saved analysis]''"

definition SCHEMA_DETAIL_MARKER :: string where
  "SCHEMA_DETAIL_MARKER = ''[schema detail withheld]''"

definition last_part :: "string \<Rightarrow> string" where
  "last_part s = rev (takeWhile (\<lambda>c. c \<noteq> CHR ''.'') (rev s))"

definition provenance_names :: "prov option \<Rightarrow> string fset" where
  "provenance_names p = (case p of None \<Rightarrow> {||}
     | Some s \<Rightarrow> (\<lambda>(t, c). map lower_char c) |`| s |\<union>| (\<lambda>(t, c). map lower_char (last_part t)) |`| s)"

text \<open>What the pass does at one position: characters consumed, the replacement, and whether it counts.\<close>

definition arm :: "string fset \<Rightarrow> char option \<Rightarrow> string \<Rightarrow> (nat \<times> string \<times> bool) option" where
  "arm confirmed prev s =
     (let after_word = (case prev of None \<Rightarrow> False | Some c \<Rightarrow> word_char c);
          after_at = (prev = Some CHR ''@'') in
      case corpus_match after_word s of
        Some n \<Rightarrow> Some (n, SAVED_ANALYSIS_MARKER, True)
      | None \<Rightarrow> (case quoted_token s of
          Some t \<Rightarrow> (if hd s = CHR 0x22 \<and> map lower_char t |\<notin>| confirmed
            then Some (length t + 2, take (length t + 2) s, False)
            else Some (length t + 2, SCHEMA_DETAIL_MARKER, True))
        | None \<Rightarrow> (case file_match after_word s of
            Some n \<Rightarrow> Some (n, take n s, False)
          | None \<Rightarrow> (case qualified_match after_word after_at s of
              Some n \<Rightarrow> Some (n, SCHEMA_DETAIL_MARKER, True)
            | None \<Rightarrow> map_option (\<lambda>n. (n, SCHEMA_DETAIL_MARKER, True)) (underscored_match after_word s)))))"

text \<open>The fuel is the length of the text; every step takes at least one character.\<close>

fun scrub_from :: "nat \<Rightarrow> string fset \<Rightarrow> char option \<Rightarrow> string \<Rightarrow> string \<times> nat" where
  "scrub_from 0 confirmed prev s = (s, 0)"
| "scrub_from (Suc k) confirmed prev [] = ([], 0)"
| "scrub_from (Suc k) confirmed prev (c # s) = (case arm confirmed prev (c # s) of
     Some (Suc n, replacement, counted) \<Rightarrow>
       (case scrub_from k confirmed (Some ((c # s) ! n)) (drop n s) of
          (out, found) \<Rightarrow> (replacement @ out, (if counted then 1 else 0) + found))
   | _ \<Rightarrow> (case scrub_from k confirmed (Some c) s of (out, found) \<Rightarrow> (c # out, found)))"

definition scrub_answer_prose :: "string option \<Rightarrow> prov option \<Rightarrow> string option \<times> nat" where
  "scrub_answer_prose prose p = (case prose of
     None \<Rightarrow> (None, 0)
   | Some s \<Rightarrow> (case scrub_from (length s) (provenance_names p) None s of (out, found) \<Rightarrow> (Some out, found)))"

section \<open>Examples\<close>

text \<open>The table of the source's header, and the carve-outs it argues for.\<close>

lemma scrubbed_texts:
  "scrub_answer_prose (Some ''ab.cd'') None = (Some ''[schema detail withheld]'', 1)"
  "scrub_answer_prose (Some ''KN-9'') None = (Some ''KN-9'', 0)"
  "scrub_answer_prose (Some ''a@bc.de'') None = (Some ''a@bc.de'', 0)"
  "scrub_answer_prose (Some ''a_b.csv'') None = (Some ''a_b.csv'', 0)"
  by code_simp+

section \<open>What the scrub keeps\<close>

abbreviation blank :: "string \<Rightarrow> bool" where
  "blank s \<equiv> list_all py_space s"

lemma markers_visible [simp]: "\<not> blank SAVED_ANALYSIS_MARKER" "\<not> blank SCHEMA_DETAIL_MARKER"
  by code_simp+

lemma arm_replacement:
  "arm confirmed prev s = Some (n, replacement, counted) \<Longrightarrow>
     (counted \<and> (replacement = SAVED_ANALYSIS_MARKER \<or> replacement = SCHEMA_DETAIL_MARKER)) \<or>
     (\<not> counted \<and> replacement = take n s)"
  by (auto simp: arm_def Let_def split: option.splits if_splits)

text \<open>A text that says something still does, and a text in which nothing was found is unchanged.\<close>

lemma scrub_from_keeps:
  "scrub_from k confirmed prev s = (out, found) \<Longrightarrow> length s \<le> k \<Longrightarrow> (blank out \<longrightarrow> blank s) \<and> (found = 0 \<longrightarrow> out = s)"
proof (induction k arbitrary: prev s out found)
  case (Suc k prev t)
  show ?case
  proof (cases t)
    case Nil
    then show ?thesis using Suc.prems by simp
  next
    case (Cons c s)
    note prems = Suc.prems[unfolded Cons]
    have "(blank out \<longrightarrow> blank (c # s)) \<and> (found = 0 \<longrightarrow> out = c # s)"
  proof (cases "\<exists>n r b. arm confirmed prev (c # s) = Some (Suc n, r, b)")
    case True
    then obtain n r b where a: "arm confirmed prev (c # s) = Some (Suc n, r, b)" by blast
    obtain o1 f1 where rest: "scrub_from k confirmed (Some ((c # s) ! n)) (drop n s) = (o1, f1)" by fastforce
    have out: "out = r @ o1" "found = (if b then 1 else 0) + f1" using prems(1) a rest by simp_all
    have ih: "(blank o1 \<longrightarrow> blank (drop n s)) \<and> (f1 = 0 \<longrightarrow> o1 = drop n s)"
      using Suc.IH[OF rest] prems(2) by simp
    have whole: "blank (c # s) \<longleftrightarrow> blank (take (Suc n) (c # s)) \<and> blank (drop n s)"
      by (metis append_take_drop_id drop_Suc_Cons list_all_append)
    show ?thesis using arm_replacement[OF a] out ih whole by (cases b) auto
  next
    case False
    obtain o1 f1 where rest: "scrub_from k confirmed (Some c) s = (o1, f1)" by fastforce
    have "out = c # o1 \<and> found = f1" using prems(1) False rest
      by (auto split: option.splits nat.splits prod.splits)
    moreover have "(blank o1 \<longrightarrow> blank s) \<and> (f1 = 0 \<longrightarrow> o1 = s)"
      using Suc.IH[OF rest] prems(2) by simp
    ultimately show ?thesis by simp
  qed
    then show ?thesis using Cons by simp
  qed
qed simp

end
