(* ===== verification/TurnAccumulators.thy ===== *)
theory TurnAccumulators
  imports AnswerDesignation
begin

text \<open>
  \<^verbatim>\<open>runtime/loop/turn_accumulators.py\<close>: what one turn window gathers from its tool calls and the
  answer envelope it reads back out, and the way \<^verbatim>\<open>AgentLoop\<close> folds one drained tool call into it.
  The query list holds any truthy value the model sends as a query, as in the source. A fold
  that raises ends the window, so its state is not kept.
\<close>

section \<open>Envelope\<close>

record answer_envelope =
  ae_answer_sql :: "string option"
  ae_blueprint_use :: "pydict option"
  ae_verification :: "pydict option"
  ae_answer_tables :: "pyval list option"

definition answer_envelope_of :: "answer_table list \<Rightarrow> pydict option \<Rightarrow> pydict option \<Rightarrow> answer_envelope" where
  "answer_envelope_of tables blueprint_use verification = (case tables of
     [] \<Rightarrow> \<lparr>ae_answer_sql = None, ae_blueprint_use = blueprint_use, ae_verification = verification,
            ae_answer_tables = None\<rparr>
   | primary # _ \<Rightarrow> \<lparr>ae_answer_sql = Some (at_sql primary), ae_blueprint_use = non_empty (at_blueprint_use primary),
            ae_verification = rollup_verification tables,
            ae_answer_tables = Some (map answer_table_to_doc tables)\<rparr>)"

section \<open>Folds\<close>

text \<open>\<^verbatim>\<open>arguments.get("slot_bindings") or {}\<close>, and \<^verbatim>\<open>dict\<close> of it.\<close>

definition slot_bindings :: "pydict \<Rightarrow> pyval" where
  "slot_bindings args = (let v = getv args ''slot_bindings'' in if py_truthy v then v else PDict [])"

definition capture_terminal_sql :: "string \<Rightarrow> tool_result \<Rightarrow> pydict \<Rightarrow> (string, blueprint_run) dict \<Rightarrow>
    (string, blueprint_run) dict result" where
  "capture_terminal_sql tool r args runs =
     (if tr_status r \<noteq> ''ok'' \<or> tool \<noteq> ''runBlueprint'' then Inr runs
      else rbind (blueprint_run_from_result (tr_result_full r) (slot_bindings args)) (\<lambda>captured.
        Inr (case captured of None \<Rightarrow> runs | Some (bid, run) \<Rightarrow> dset bid run runs)))"

definition add_query :: "pyval list \<Rightarrow> pyval \<Rightarrow> pyval list" where
  "add_query sqls q = (if py_truthy q then add_new sqls q else sqls)"

text \<open>\<^verbatim>\<open>tool_result.result_full or {}\<close>, of which \<^verbatim>\<open>get\<close> is called.\<close>

definition result_dict :: "tool_result \<Rightarrow> pydict result" where
  "result_dict r = (if \<not> py_truthy (tr_result_full r) then Inr []
     else case tr_result_full r of PDict d \<Rightarrow> Inr d | _ \<Rightarrow> Inl (OtherError ''AttributeError''))"

definition accumulate_enrichment :: "string \<Rightarrow> pydict \<Rightarrow> tool_result \<Rightarrow> pyval list \<Rightarrow> pydict option \<Rightarrow> pydict option \<Rightarrow>
    (pyval list \<times> pydict option \<times> pydict option) result" where
  "accumulate_enrichment tool args r sqls blueprint_use verification =
     (if tr_status r \<noteq> ''ok'' then Inr (sqls, blueprint_use, verification)
      else if tool = ''runQuery'' then Inr (add_query sqls (getv args ''sql''), blueprint_use, verification)
      else if tool = ''runBlueprint'' then
        rbind (result_dict r) (\<lambda>rf.
        rbind (py_list (case dget rf ''sql'' of None \<Rightarrow> PList [] | Some v \<Rightarrow> v)) (\<lambda>queries.
        rbind (py_dict (slot_bindings args)) (\<lambda>slots.
        rbind (blueprint_verification (PDict rf)) (\<lambda>gate.
        Inr (foldl add_query sqls queries,
             Some [(''blueprint_id'', getv rf ''blueprint_id''), (''slots'', PDict slots)],
             if gate \<noteq> None then gate else verification)))))
      else Inr (sqls, blueprint_use, verification))"

record accumulators =
  ac_sql :: "pyval list"
  ac_answer_tables :: "answer_table list"
  ac_blueprint_runs :: "(string, blueprint_run) dict"
  ac_blueprint_use :: "pydict option"
  ac_verification :: "pydict option"
  ac_result_sql_by_call_id :: "(string, string) dict"
  ac_assumptions :: "string list"

definition new_accumulators :: "pyval list \<Rightarrow> answer_table list \<Rightarrow> (string, blueprint_run) dict \<Rightarrow> pydict option \<Rightarrow>
    pydict option \<Rightarrow> string list \<Rightarrow> accumulators" where
  "new_accumulators sql tables runs use verification assumptions =
     \<lparr>ac_sql = sql, ac_answer_tables = tables, ac_blueprint_runs = runs, ac_blueprint_use = use,
      ac_verification = verification, ac_result_sql_by_call_id = [], ac_assumptions = assumptions\<rparr>"

definition note_enrichment :: "string \<Rightarrow> pydict \<Rightarrow> tool_result \<Rightarrow> accumulators \<Rightarrow> accumulators result" where
  "note_enrichment tool args r a =
     rbind (accumulate_enrichment tool args r (ac_sql a) (ac_blueprint_use a) (ac_verification a)) (\<lambda>(s, u, v).
       Inr (a\<lparr>ac_sql := s, ac_blueprint_use := u, ac_verification := v\<rparr>))"

definition capture_blueprint_run :: "string \<Rightarrow> tool_result \<Rightarrow> pydict \<Rightarrow> accumulators \<Rightarrow> accumulators result" where
  "capture_blueprint_run tool r args a =
     rbind (capture_terminal_sql tool r args (ac_blueprint_runs a)) (\<lambda>runs. Inr (a\<lparr>ac_blueprint_runs := runs\<rparr>))"

definition note_result_sql :: "string \<Rightarrow> string \<Rightarrow> pydict \<Rightarrow> tool_result \<Rightarrow> accumulators \<Rightarrow> accumulators result" where
  "note_result_sql tool call_id args r a =
     (if tr_status r \<noteq> ''ok'' then Inr a
      else if tool = ''runQuery'' then
        (case getv args ''sql'' of
           PStr produced \<Rightarrow> Inr (if produced \<noteq> []
             then a\<lparr>ac_result_sql_by_call_id := dset call_id produced (ac_result_sql_by_call_id a)\<rparr> else a)
         | _ \<Rightarrow> Inr a)
      else if tool = ''runBlueprint'' then
        rbind (blueprint_run_from_result (tr_result_full r) PNone) (\<lambda>captured.
          Inr (case captured of None \<Rightarrow> a
             | Some (bid, run) \<Rightarrow> a\<lparr>ac_result_sql_by_call_id := dset call_id (br_terminal_sql run) (ac_result_sql_by_call_id a)\<rparr>))
      else Inr a)"

definition note_assumptions :: "string \<Rightarrow> pydict \<Rightarrow> tool_result \<Rightarrow> accumulators \<Rightarrow> accumulators" where
  "note_assumptions tool args r a =
     (if tr_status r \<noteq> ''ok'' \<or> tool \<noteq> ''recordAssumptions'' then a
      else a\<lparr>ac_assumptions := fold_assumptions (ac_assumptions a) (getv args ''assumptions'')\<rparr>)"

definition note_answer_tables :: "string \<Rightarrow> tool_result \<Rightarrow> answer_table list \<Rightarrow> accumulators \<Rightarrow> accumulators" where
  "note_answer_tables tool r resolved a =
     (if tr_status r \<noteq> ''ok'' \<or> tool \<noteq> ''answerWithTable'' then a
      else if resolved \<noteq> [] then a\<lparr>ac_answer_tables := resolved\<rparr> else a)"

definition sql_executed :: "accumulators \<Rightarrow> pyval list option" where
  "sql_executed a = (if ac_sql a = [] then None else Some (ac_sql a))"

definition assumptions_of :: "accumulators \<Rightarrow> string list option" where
  "assumptions_of a = (if ac_assumptions a = [] then None else Some (ac_assumptions a))"

definition envelope :: "accumulators \<Rightarrow> answer_envelope" where
  "envelope a = answer_envelope_of (ac_answer_tables a) (ac_blueprint_use a) (ac_verification a)"

definition has_answer_tables :: "accumulators \<Rightarrow> bool" where
  "has_answer_tables a \<longleftrightarrow> ac_answer_tables a \<noteq> []"

text \<open>
  One drained call, in the loop's order: the tables of an \<^verbatim>\<open>answerWithTable\<close> call are resolved
  against the runs captured so far, a refused call is rewritten to an error before the folds
  see it, then the five folds run. \<open>refuse\<close> says that a later gate rewrites the result.
\<close>

record drained =
  dc_tool :: string
  dc_call_id :: string
  dc_arguments :: pydict
  dc_result :: tool_result

definition drain_call :: "(accumulators \<Rightarrow> pyval \<Rightarrow> resolved_call) \<Rightarrow> (resolved_call \<Rightarrow> bool) \<Rightarrow> drained \<Rightarrow> accumulators \<Rightarrow>
    accumulators result" where
  "drain_call resolve refuse c a =
     (let designating = (dc_tool c = ''answerWithTable'' \<and> tr_status (dc_result c) = ''ok'');
          rc = resolve a (PDict (dc_arguments c));
          resolved = (if designating then rc_tables rc else []);
          r = (if designating \<and> (rc_unresolved rc \<noteq> None \<or> refuse rc)
               then (dc_result c)\<lparr>tr_status := ''error''\<rparr> else dc_result c)
      in rbind (note_enrichment (dc_tool c) (dc_arguments c) r a) (\<lambda>a1.
         rbind (capture_blueprint_run (dc_tool c) r (dc_arguments c) a1) (\<lambda>a2.
         rbind (note_result_sql (dc_tool c) (dc_call_id c) (dc_arguments c) r a2) (\<lambda>a3.
         Inr (note_answer_tables (dc_tool c) r resolved (note_assumptions (dc_tool c) (dc_arguments c) r a3))))))"

fun drain_all :: "(accumulators \<Rightarrow> pyval \<Rightarrow> resolved_call) \<Rightarrow> (resolved_call \<Rightarrow> bool) \<Rightarrow> drained list \<Rightarrow> accumulators \<Rightarrow>
    accumulators result" where
  "drain_all resolve refuse [] a = Inr a"
| "drain_all resolve refuse (c # cs) a = rbind (drain_call resolve refuse c a) (drain_all resolve refuse cs)"

section \<open>The verified badge of a turn\<close>

definition earned :: "drained list \<Rightarrow> string \<Rightarrow> blueprint_run \<Rightarrow> bool" where
  "earned cs b run \<longleftrightarrow> (\<exists>c \<in> set cs. \<exists>slots. dc_tool c = ''runBlueprint'' \<and> tr_status (dc_result c) = ''ok'' \<and>
     blueprint_run_from_result (tr_result_full (dc_result c)) slots = Inr (Some (b, run)))"

definition badges_earned :: "drained list \<Rightarrow> accumulators \<Rightarrow> bool" where
  "badges_earned cs a \<longleftrightarrow>
     (\<forall>b run. dget (ac_blueprint_runs a) b = Some run \<longrightarrow> earned cs b run) \<and>
     (\<forall>t \<in> set (ac_answer_tables a). at_verification t = None \<or>
        (\<exists>b run. earned cs b run \<and> at_sql t = br_terminal_sql run \<and> at_verification t = non_empty (br_verification run)))"

definition loop_resolve :: "answer_table_hooks \<Rightarrow> string \<Rightarrow> int \<Rightarrow> (string \<Rightarrow> prov option) \<Rightarrow> string set \<Rightarrow>
    accumulators \<Rightarrow> pyval \<Rightarrow> resolved_call" where
  "loop_resolve h sh ti prov_of scope a args = resolve_answer_tables h sh ti prov_of scope (ac_blueprint_runs a) args"

lemma note_enrichment_frame:
  "note_enrichment tool args r a = Inr a' \<Longrightarrow> ac_answer_tables a' = ac_answer_tables a \<and>
     ac_blueprint_runs a' = ac_blueprint_runs a \<and> ac_assumptions a' = ac_assumptions a"
  by (auto simp: note_enrichment_def rbind_eq_Inr)

lemma note_result_sql_frame:
  "note_result_sql tool cid args r a = Inr a' \<Longrightarrow> ac_answer_tables a' = ac_answer_tables a \<and>
     ac_blueprint_runs a' = ac_blueprint_runs a \<and> ac_assumptions a' = ac_assumptions a \<and> ac_sql a' = ac_sql a"
  by (auto simp: note_result_sql_def rbind_eq_Inr split: if_splits pyval.splits option.splits)

lemma capture_frame:
  "capture_blueprint_run tool r args a = Inr a' \<Longrightarrow> ac_answer_tables a' = ac_answer_tables a \<and>
     ac_assumptions a' = ac_assumptions a \<and> ac_sql a' = ac_sql a"
  by (auto simp: capture_blueprint_run_def rbind_eq_Inr)

lemma drain_call_cases:
  assumes "drain_call resolve refuse c a = Inr a'"
  obtains r a1 a2 a3 resolved where
    "r = dc_result c \<or> r = (dc_result c)\<lparr>tr_status := ''error''\<rparr> \<and> dc_tool c = ''answerWithTable''"
    "resolved \<noteq> [] \<longrightarrow> resolved = rc_tables (resolve a (PDict (dc_arguments c)))"
    "note_enrichment (dc_tool c) (dc_arguments c) r a = Inr a1"
    "capture_blueprint_run (dc_tool c) r (dc_arguments c) a1 = Inr a2"
    "note_result_sql (dc_tool c) (dc_call_id c) (dc_arguments c) r a2 = Inr a3"
    "a' = note_answer_tables (dc_tool c) r resolved (note_assumptions (dc_tool c) (dc_arguments c) r a3)"
proof -
  let ?des = "dc_tool c = ''answerWithTable'' \<and> tr_status (dc_result c) = ''ok''"
  let ?rc = "resolve a (PDict (dc_arguments c))"
  let ?resolved = "if ?des then rc_tables ?rc else []"
  let ?r = "if ?des \<and> (rc_unresolved ?rc \<noteq> None \<or> refuse ?rc)
    then (dc_result c)\<lparr>tr_status := ''error''\<rparr> else dc_result c"
  obtain a1 a2 a3 where s: "note_enrichment (dc_tool c) (dc_arguments c) ?r a = Inr a1"
      "capture_blueprint_run (dc_tool c) ?r (dc_arguments c) a1 = Inr a2"
      "note_result_sql (dc_tool c) (dc_call_id c) (dc_arguments c) ?r a2 = Inr a3"
      "a' = note_answer_tables (dc_tool c) ?r ?resolved (note_assumptions (dc_tool c) (dc_arguments c) ?r a3)"
    using assms unfolding drain_call_def Let_def rbind_eq_Inr by (auto split del: if_split)
  show thesis by (rule that[OF _ _ s]) (auto split: if_splits)
qed

lemma earned_mono: "earned cs b run \<Longrightarrow> earned (cs @ [c]) b run"
  by (auto simp: earned_def)

lemma drain_call_earned:
  assumes "drain_call (loop_resolve h sh ti prov_of scope) refuse c a = Inr a'" and "badges_earned cs a"
  shows "badges_earned (cs @ [c]) a'"
proof (rule drain_call_cases[OF assms(1)])
  fix r a1 a2 a3 resolved
  assume r: "r = dc_result c \<or> r = (dc_result c)\<lparr>tr_status := ''error''\<rparr> \<and> dc_tool c = ''answerWithTable''"
    and res: "resolved \<noteq> [] \<longrightarrow> resolved = rc_tables (loop_resolve h sh ti prov_of scope a (PDict (dc_arguments c)))"
    and s1: "note_enrichment (dc_tool c) (dc_arguments c) r a = Inr a1"
    and s2: "capture_blueprint_run (dc_tool c) r (dc_arguments c) a1 = Inr a2"
    and s3: "note_result_sql (dc_tool c) (dc_call_id c) (dc_arguments c) r a2 = Inr a3"
    and a': "a' = note_answer_tables (dc_tool c) r resolved (note_assumptions (dc_tool c) (dc_arguments c) r a3)"
  note frames = note_enrichment_frame[OF s1] capture_frame[OF s2] note_result_sql_frame[OF s3]
  have runs: "earned (cs @ [c]) b run" if "dget (ac_blueprint_runs a') b = Some run" for b run
  proof -
    have "dget (ac_blueprint_runs a2) b = Some run"
      using that frames a' by (auto simp: note_answer_tables_def note_assumptions_def split: if_splits)
    with s2 frames have "dget (ac_blueprint_runs a) b = Some run \<or>
        (dc_tool c = ''runBlueprint'' \<and> tr_status r = ''ok'' \<and>
         blueprint_run_from_result (tr_result_full r) (slot_bindings (dc_arguments c)) = Inr (Some (b, run)))"
      by (auto simp: capture_blueprint_run_def capture_terminal_sql_def rbind_eq_Inr split: if_splits option.splits)
    then show ?thesis
    proof
      assume "dget (ac_blueprint_runs a) b = Some run"
      then show ?thesis using assms(2) earned_mono by (auto simp: badges_earned_def)
    next
      assume "dc_tool c = ''runBlueprint'' \<and> tr_status r = ''ok'' \<and>
         blueprint_run_from_result (tr_result_full r) (slot_bindings (dc_arguments c)) = Inr (Some (b, run))"
      then show ?thesis using r by (auto simp: earned_def)
    qed
  qed
  have "at_verification t = None \<or> (\<exists>b run. earned (cs @ [c]) b run \<and> at_sql t = br_terminal_sql run \<and>
      at_verification t = non_empty (br_verification run))" if "t \<in> set (ac_answer_tables a')" for t
  proof -
    from that a' frames consider "t \<in> set (ac_answer_tables a)"
      | "t \<in> set (rc_tables (loop_resolve h sh ti prov_of scope a (PDict (dc_arguments c))))"
      using res by (auto simp: note_answer_tables_def note_assumptions_def split: if_splits)
    then show ?thesis
    proof cases
      case 1
      then show ?thesis using assms(2) earned_mono unfolding badges_earned_def by meson
    next
      case 2
      from offered_tables_facts[OF 2[unfolded loop_resolve_def]] assms(2) earned_mono
      show ?thesis unfolding badges_earned_def by meson
    qed
  qed
  with runs show ?thesis by (auto simp: badges_earned_def)
qed

lemma drain_all_earned:
  "drain_all (loop_resolve h sh ti prov_of scope) refuse cs a = Inr a' \<Longrightarrow> badges_earned ds a \<Longrightarrow> badges_earned (ds @ cs) a'"
proof (induction cs arbitrary: a ds)
  case (Cons c cs)
  then obtain a1 where "drain_call (loop_resolve h sh ti prov_of scope) refuse c a = Inr a1"
      "drain_all (loop_resolve h sh ti prov_of scope) refuse cs a1 = Inr a'"
    by (auto simp: rbind_eq_Inr)
  from Cons.IH[OF this(2) drain_call_earned[OF this(1) Cons.prems(2)]] show ?case by simp
qed simp

lemma run_badge:
  assumes "blueprint_run_from_result rfull slots = Inr (Some (b, run))" and "br_verification run = Some v"
  shows "\<exists>rf. rfull = PDict rf \<and> getv rf ''blueprint_id'' = PStr b \<and> getv rf ''terminal_sql'' = PStr (br_terminal_sql run) \<and>
    getv rf ''status'' = PStr ''verified'' \<and>
    (v = empty_badge \<and> is_empty_blueprint_result rf = Inr True \<or>
     (\<exists>g. v = passed_badge g) \<and> is_empty_blueprint_result rf = Inr False)"
  using assms
  by (auto simp: blueprint_run_from_result_def blueprint_verification_def rbind_eq_Inr
      split: pyval.splits if_splits)

lemma rollup_passed:
  assumes "rollup_verification tables = Some v" and "getv v ''passed'' = PBool True" and "t \<in> set tables"
  shows "at_verification t \<noteq> None \<and> \<not> py_truthy (badge_get t ''empty_result'')"
proof -
  have "getv empty_badge ''passed'' = PBool False" by (simp add: empty_badge_def getv_def)
  with assms show ?thesis
    by (auto simp: rollup_verification_def Let_def list_ex_iff list_all_iff split: if_splits)
qed

text \<open>
  C25: a turn's green badge is earned: when the answer envelope of a window that designated tables
  claims verification, every designated table pages the terminal query of a blueprint that ran
  successfully in this window, whose result was verified and was not empty, whatever else the
  window ran, designated, refused or let hooks rewrite.
\<close>

theorem verified_envelope_is_earned:
  assumes run: "drain_all (loop_resolve h sh ti prov_of scope) refuse cs (new_accumulators [] [] [] None None []) = Inr a"
    and tabs: "ae_answer_tables (envelope a) \<noteq> None"
    and v: "ae_verification (envelope a) = Some v" and passed: "getv v ''passed'' = PBool True"
    and t: "t \<in> set (ac_answer_tables a)"
  shows "\<exists>c \<in> set cs. \<exists>rf. dc_tool c = ''runBlueprint'' \<and> tr_status (dc_result c) = ''ok'' \<and>
    tr_result_full (dc_result c) = PDict rf \<and> getv rf ''terminal_sql'' = PStr (at_sql t) \<and>
    getv rf ''status'' = PStr ''verified'' \<and> is_empty_blueprint_result rf = Inr False"
proof -
  have "badges_earned [] (new_accumulators [] [] [] None None [])"
    by (simp add: badges_earned_def new_accumulators_def)
  from drain_all_earned[OF run this] have inv: "badges_earned cs a" by simp
  have "rollup_verification (ac_answer_tables a) = Some v"
    using tabs v by (auto simp: envelope_def answer_envelope_of_def split: list.splits)
  from rollup_passed[OF this passed t] have nv: "at_verification t \<noteq> None" "\<not> py_truthy (badge_get t ''empty_result'')"
    by auto
  from inv t nv(1) obtain b run where e: "earned cs b run" "at_sql t = br_terminal_sql run"
      "at_verification t = non_empty (br_verification run)"
    unfolding badges_earned_def by auto
  from e(1) obtain c slots where c: "c \<in> set cs" "dc_tool c = ''runBlueprint''" "tr_status (dc_result c) = ''ok''"
      "blueprint_run_from_result (tr_result_full (dc_result c)) slots = Inr (Some (b, run))"
    unfolding earned_def by blast
  from nv(1) e(3) obtain w where w: "br_verification run = Some w" "at_verification t = Some w"
    by (auto simp: non_empty_def split: option.splits list.splits)
  have "w \<noteq> empty_badge"
    using nv(2) w(2) by (auto simp: badge_get_def empty_badge_def getv_def)
  with run_badge[OF c(4) w(1)] c e(2) show ?thesis by auto
qed

section \<open>Assumptions\<close>

lemma drain_call_assumptions:
  assumes "drain_call resolve refuse c a = Inr a'"
  shows "ac_assumptions a' = (if dc_tool c = ''recordAssumptions'' \<and> tr_status (dc_result c) = ''ok''
    then fold_assumptions (ac_assumptions a) (getv (dc_arguments c) ''assumptions'') else ac_assumptions a)"
proof (rule drain_call_cases[OF assms])
  fix r a1 a2 a3 resolved
  assume r: "r = dc_result c \<or> r = (dc_result c)\<lparr>tr_status := ''error''\<rparr> \<and> dc_tool c = ''answerWithTable''"
    and s: "note_enrichment (dc_tool c) (dc_arguments c) r a = Inr a1"
      "capture_blueprint_run (dc_tool c) r (dc_arguments c) a1 = Inr a2"
      "note_result_sql (dc_tool c) (dc_call_id c) (dc_arguments c) r a2 = Inr a3"
    and a': "a' = note_answer_tables (dc_tool c) r resolved (note_assumptions (dc_tool c) (dc_arguments c) r a3)"
  from r a' note_enrichment_frame[OF s(1)] capture_frame[OF s(2)] note_result_sql_frame[OF s(3)]
  show ?thesis by (auto simp: note_answer_tables_def note_assumptions_def)
qed

lemma fold_assumptions_distinct: "distinct xs \<Longrightarrow> distinct (fold_assumptions xs raw)"
  by (simp add: fold_assumptions_def distinct_foldl_add_new)

lemma drain_all_assumptions:
  "drain_all resolve refuse cs a = Inr a' \<Longrightarrow>
     ac_assumptions a' = foldl fold_assumptions (ac_assumptions a)
       (map (\<lambda>c. getv (dc_arguments c) ''assumptions'')
         (filter (\<lambda>c. dc_tool c = ''recordAssumptions'' \<and> tr_status (dc_result c) = ''ok'') cs))"
proof (induction cs arbitrary: a)
  case (Cons c cs)
  then obtain a1 where "drain_call resolve refuse c a = Inr a1" "drain_all resolve refuse cs a1 = Inr a'"
    by (auto simp: rbind_eq_Inr)
  with Cons.IH drain_call_assumptions show ?case by fastforce
qed simp

text \<open>
  The live turn and the replayed history agree on the assumptions: they are the fold of the
  arguments of the successful \<open>recordAssumptions\<close> calls alone, in call order, without repetition.
\<close>

theorem turn_assumptions_replayable:
  assumes "drain_all resolve refuse cs (new_accumulators [] [] [] None None []) = Inr a"
  shows "ac_assumptions a = foldl fold_assumptions []
      (map (\<lambda>c. getv (dc_arguments c) ''assumptions'')
        (filter (\<lambda>c. dc_tool c = ''recordAssumptions'' \<and> tr_status (dc_result c) = ''ok'') cs)) \<and>
    distinct (ac_assumptions a)"
proof -
  have "distinct (foldl fold_assumptions xs rs)" if "distinct xs" for xs rs
    using that by (induction rs arbitrary: xs) (simp_all add: fold_assumptions_distinct)
  with drain_all_assumptions[OF assms] show ?thesis by (simp add: new_accumulators_def)
qed

section \<open>A window that designates a verified blueprint\<close>

definition verified_result :: tool_result where
  "verified_result = \<lparr>tr_status = ''ok'', tr_tool_name = ''runBlueprint'', tr_error_code = None, tr_retryable = None,
     tr_user_message = None, tr_provenance = None, tr_result_preview = None,
     tr_result_full = PDict [(''blueprint_id'', PStr ''b1''), (''terminal_sql'', PStr ''SELECT 1''),
       (''status'', PStr ''verified''), (''row_count'', PInt 3),
       (''verify'', PDict [(''grain_checked'', PBool True)])],
     tr_authoritative = True, tr_denial_detail = None, tr_window_note = None\<rparr>"

definition sample_blueprint_call :: drained where
  "sample_blueprint_call = \<lparr>dc_tool = ''runBlueprint'', dc_call_id = ''c1'', dc_arguments = [], dc_result = verified_result\<rparr>"

definition sample_assumptions_call :: drained where
  "sample_assumptions_call = \<lparr>dc_tool = ''recordAssumptions'', dc_call_id = ''c2'',
     dc_arguments = [(''assumptions'', PList [PStr '' a '', PStr ''a''])],
     dc_result = data_free_ok ''recordAssumptions'' [''recorded''] [PInt 1]\<rparr>"

definition sample_answer_call :: drained where
  "sample_answer_call = \<lparr>dc_tool = ''answerWithTable'', dc_call_id = ''c3'',
     dc_arguments = [(''answer'', PStr ''a''), (''tables'', PList
       [PDict [(''sql'', PStr []), (''blueprint_id'', PStr ''b1'')]])],
     dc_result = data_free_ok ''answerWithTable'' [''answered'', ''table_designated''] [PBool True, PBool True]\<rparr>"

definition sample_window :: "drained list" where
  "sample_window = [sample_blueprint_call, sample_assumptions_call, sample_answer_call]"

definition sample_after_run :: accumulators where
  "sample_after_run = (new_accumulators [] [] [(''b1'', sample_run)]
     (Some [(''blueprint_id'', PStr ''b1''), (''slots'', PDict [])]) (Some (passed_badge True)) [])
     \<lparr>ac_result_sql_by_call_id := [(''c1'', ''SELECT 1'')]\<rparr>"

definition sample_table :: answer_table where
  "sample_table = \<lparr>at_sql = ''SELECT 1'', at_caption = None,
       at_blueprint_use = Some [(''blueprint_id'', PStr ''b1''), (''slots'', PDict [])],
       at_verification = Some (passed_badge True), at_provenance = None\<rparr>"

definition sample_end :: accumulators where
  "sample_end = sample_after_run\<lparr>ac_assumptions := [''a''], ac_answer_tables := [sample_table]\<rparr>"

abbreviation sample_resolve :: "accumulators \<Rightarrow> pyval \<Rightarrow> resolved_call" where
  "sample_resolve \<equiv> loop_resolve dormant ''h'' 0 (\<lambda>_. None) {}"

lemma sample_texts: "py_strip ''SELECT 1'' = ''SELECT 1''"
  "clean_assumptions (PList [PStr '' a '', PStr ''a'']) = [''a'']"
  by code_simp+

lemma sample_verification: "blueprint_verification (tr_result_full verified_result) = Inr (Some (passed_badge True))"
  by (simp add: blueprint_verification_def is_empty_blueprint_result_def verify_get_def
      is_zero_row_count_def verified_result_def getv_def)

lemma sample_run_from_result:
  "py_truthy s = False \<or> s = PDict [] \<Longrightarrow>
     blueprint_run_from_result (tr_result_full verified_result) s = Inr (Some (''b1'', sample_run))"
  using sample_verification
  by (auto simp: blueprint_run_from_result_def verified_result_def getv_def sample_texts sample_run_def)

lemmas fold_defs = drain_call_def note_enrichment_def accumulate_enrichment_def capture_blueprint_run_def
  capture_terminal_sql_def note_result_sql_def note_assumptions_def note_answer_tables_def

lemma sample_step1:
  "drain_call sample_resolve (\<lambda>_. False) sample_blueprint_call (new_accumulators [] [] [] None None []) = Inr sample_after_run"
  using sample_verification sample_run_from_result[of PNone] sample_run_from_result[of "PDict []"]
  by (simp add: fold_defs sample_blueprint_call_def Let_def)
    (simp add: verified_result_def result_dict_def slot_bindings_def getv_def sample_after_run_def new_accumulators_def sample_run_def)

lemma sample_step2:
  "drain_call sample_resolve (\<lambda>_. False) sample_assumptions_call sample_after_run = Inr (sample_after_run\<lparr>ac_assumptions := [''a'']\<rparr>)"
  by (simp add: fold_defs sample_assumptions_call_def Let_def data_free_ok_def getv_def fold_assumptions_def sample_texts
      sample_after_run_def new_accumulators_def add_new_def)

lemma sample_step3:
  "drain_call sample_resolve (\<lambda>_. False) sample_answer_call (sample_after_run\<lparr>ac_assumptions := [''a'']\<rparr>) = Inr sample_end"
proof -
  let ?a = "sample_after_run\<lparr>ac_assumptions := [''a'']\<rparr>"
  let ?rc = "sample_resolve ?a (PDict (dc_arguments sample_answer_call))"
  have answer: "rc_tables ?rc = [sample_table]"
    using sample_call_tables
    by (simp add: loop_resolve_def sample_call_def sample_answer_call_def sample_table_def sample_after_run_def new_accumulators_def)
  then have "rc_unresolved ?rc = None"
    by (auto simp: loop_resolve_def resolve_answer_tables_def Let_def split: prod.splits if_splits)
  with answer show ?thesis
    by (simp add: fold_defs Let_def sample_end_def) (simp add: sample_answer_call_def data_free_ok_def)
qed

lemma sample_drain:
  "drain_all sample_resolve (\<lambda>_. False) sample_window (new_accumulators [] [] [] None None []) = Inr sample_end"
  by (simp add: sample_window_def sample_step1 sample_step2 sample_step3)

theorem verified_envelope_is_earned_witness:
  "\<exists>c \<in> set sample_window. \<exists>rf. tr_result_full (dc_result c) = PDict rf \<and> is_empty_blueprint_result rf = Inr False"
proof -
  have v: "ae_verification (envelope sample_end) = Some (passed_badge True)"
    and tabs: "ae_answer_tables (envelope sample_end) \<noteq> None" and t: "sample_table \<in> set (ac_answer_tables sample_end)"
    by (simp_all add: envelope_def answer_envelope_of_def sample_end_def sample_table_def rollup_verification_def
        badge_get_def passed_badge_def getv_def)
  have "getv (passed_badge True) ''passed'' = PBool True" by (simp add: passed_badge_def getv_def)
  from verified_envelope_is_earned[OF sample_drain tabs v this t] show ?thesis by blast
qed

theorem turn_assumptions_replayable_witness:
  "distinct (ac_assumptions sample_end) \<and> ac_assumptions sample_end = [''a'']"
proof
  show "distinct (ac_assumptions sample_end)"
    using turn_assumptions_replayable[OF sample_drain] by blast
  show "ac_assumptions sample_end = [''a'']" by (simp add: sample_end_def)
qed

end
