(* ===== verification/AnalysisLedgerFacts.thy ===== *)
theory AnalysisLedgerFacts
  imports AnalysisLedger
begin

text \<open>
  What \<open>updateAnalysisState\<close> guarantees: the validators in declarative form, soundness of the
  evidence resolution, the frozen merge, and the ledger invariant (every closed intent is backed
  by a qualifying call of its own turn, no denial blocks two intents), kept by every step of a turn.
\<close>

section \<open>The validators, declaratively\<close>

definition completion_evidence :: "trail_entry \<Rightarrow> bool" where
  "completion_evidence e \<longleftrightarrow> te_status e = ''ok'' \<and> te_tool_name e \<in> set COMPLETION_EVIDENCE_TOOLS \<and>
     (te_tool_name e = ''runBlueprint'' \<longrightarrow> te_authoritative e) \<and> te_error_code e \<noteq> Some ALREADY_SERVED_CODE"

definition no_access_evidence :: "trail_entry \<Rightarrow> bool" where
  "no_access_evidence e \<longleftrightarrow> te_status e \<noteq> ''ok'' \<and> (\<exists>c. te_error_code e = Some c \<and> c \<in> set NO_ACCESS_ERROR_CODES)"

definition unavailable_evidence :: "trail_entry \<Rightarrow> bool" where
  "unavailable_evidence e \<longleftrightarrow> te_status e = ''ok'' \<and> te_error_code e \<noteq> Some ALREADY_SERVED_CODE \<and>
     (\<exists>p. te_result_preview e = Some p \<and> rp_row_count p = 0)"

definition cited :: "string \<Rightarrow> trail_entry list \<Rightarrow> int \<Rightarrow> (trail_entry \<Rightarrow> bool) \<Rightarrow> bool" where
  "cited tid trail ti P \<longleftrightarrow> py_strip tid \<noteq> [] \<and> (\<exists>e. find_entry tid trail ti = Some e \<and> P e)"

lemma completion_iff: "validate_completion_evidence tid trail ti = None \<longleftrightarrow> cited tid trail ti completion_evidence"
  by (auto simp: validate_completion_evidence_def cited_def completion_evidence_def split: option.splits)

definition block_evidence :: "string \<Rightarrow> trail_entry \<Rightarrow> bool" where
  "block_evidence rc e \<longleftrightarrow> (rc = ''NO_ACCESS'' \<and> no_access_evidence e) \<or>
     (rc = ''REQUIRED_DATA_UNAVAILABLE'' \<and> unavailable_evidence e)"

lemma block_iff: "validate_block_evidence tid rc trail ti = None \<longleftrightarrow> cited tid trail ti (block_evidence rc)"
proof (cases "rc \<in> set MODEL_REASON_CODES \<and> py_strip tid \<noteq> []")
  case False
  then show ?thesis
    by (auto simp: validate_block_evidence_def cited_def block_evidence_def MODEL_REASON_CODES_def)
next
  case True
  then have rc: "rc = ''NO_ACCESS'' \<or> rc = ''REQUIRED_DATA_UNAVAILABLE''" by (simp add: MODEL_REASON_CODES_def)
  show ?thesis
  proof (cases "find_entry tid trail ti")
    case None
    with True show ?thesis by (simp add: validate_block_evidence_def cited_def)
  next
    case (Some e)
    with True rc show ?thesis
      by (auto simp: validate_block_evidence_def cited_def block_evidence_def no_access_evidence_def
          unavailable_evidence_def split: option.splits)
  qed
qed

lemma derivable_codes: "DERIVABLE_REASON_CODES = [''NO_ACCESS'', ''REQUIRED_DATA_UNAVAILABLE'']"
  by code_simp

text \<open>At most one rc is proved by a call, so the inversion is exact.\<close>

lemma block_exclusive: "block_evidence c e \<Longrightarrow> block_evidence c' e \<Longrightarrow> c = c'"
  by (auto simp: block_evidence_def no_access_evidence_def unavailable_evidence_def)

lemma classify_iff:
  "classify_block_evidence tid trail ti = Some rc \<longleftrightarrow> validate_block_evidence tid rc trail ti = None"
  unfolding classify_block_evidence_def derivable_codes block_iff
  by (auto simp: cited_def block_iff dest: block_exclusive)
    (auto simp: block_evidence_def)

text \<open>
  A block's derived reason is exactly what the trail proves: the code the runtime derives from
  a call is the one code its validator accepts for that call, no call proves two, and proof means a
  refusal for permissions or a successful call that returned no rows, made on this very turn.
\<close>

theorem derived_reason_is_proved:
  "(classify_block_evidence tid trail ti = Some rc \<longleftrightarrow> validate_block_evidence tid rc trail ti = None) \<and>
   (validate_block_evidence tid rc trail ti = None \<longleftrightarrow>
      py_strip tid \<noteq> [] \<and> (\<exists>e. find_entry tid trail ti = Some e \<and>
        (rc = ''NO_ACCESS'' \<and> te_status e \<noteq> ''ok'' \<and>
           te_error_code e \<in> {Some ''COLUMN_SCOPE_VIOLATION'', Some ''SCRATCH_SESSION_VIOLATION''} \<or>
         rc = ''REQUIRED_DATA_UNAVAILABLE'' \<and> te_status e = ''ok'' \<and>
           te_error_code e \<noteq> Some ''IDEMPOTENT_READ_ALREADY_SERVED'' \<and>
           map_option rp_row_count (te_result_preview e) = Some 0)))"
  by (auto simp: classify_iff block_iff cited_def block_evidence_def no_access_evidence_def
      unavailable_evidence_def NO_ACCESS_ERROR_CODES_def ALREADY_SERVED_CODE_def)

lemma find_append: "find P xs = Some x \<Longrightarrow> find P (xs @ ys) = Some x"
  by (induction xs) (auto split: if_splits)

lemma cited_append: "cited tid trail ti P \<Longrightarrow> cited tid (trail @ es) ti P"
  unfolding cited_def find_entry_def using find_append by fast

section \<open>Resolution\<close>

text \<open>What a closed status must rest on.\<close>

definition backed :: "trail_entry list \<Rightarrow> int \<Rightarrow> string \<Rightarrow> string option \<Rightarrow> string option \<Rightarrow> bool" where
  "backed trail ti status ev reason \<longleftrightarrow> (\<exists>tid. ev = Some tid \<and>
     (if status = ''completed'' then reason = None \<and> validate_completion_evidence tid trail ti = None
      else \<exists>rc. reason = Some rc \<and> validate_block_evidence tid rc trail ti = None))"

lemma backed_append: "backed trail ti s ev r \<Longrightarrow> backed (trail @ es) ti s ev r"
  by (auto simp: backed_def completion_iff block_iff cited_append split: if_splits)

definition qualifies :: "string \<Rightarrow> trail_entry list \<Rightarrow> int \<Rightarrow> trail_entry \<Rightarrow> bool" where
  "qualifies status trail ti e \<longleftrightarrow>
     (if status = ''completed'' then validate_completion_evidence (te_tool_call_id e) trail ti = None
      else classify_block_evidence (te_tool_call_id e) trail ti \<noteq> None)"

lemma newest_step:
  "newest_qualifying status (e # es) trail ti =
     (if qualifies status trail ti e
      then Some (te_tool_call_id e, if status = ''completed'' then None else classify_block_evidence (te_tool_call_id e) trail ti)
      else newest_qualifying status es trail ti)"
  by (cases "classify_block_evidence (te_tool_call_id e) trail ti") (simp_all add: qualifies_def)

lemma qualifies_backed:
  "qualifies status trail ti e \<Longrightarrow> backed trail ti status (Some (te_tool_call_id e))
     (if status = ''completed'' then None else classify_block_evidence (te_tool_call_id e) trail ti)"
  by (auto simp: qualifies_def backed_def classify_iff[symmetric] split: if_splits)

lemma newest_qualifying_Some:
  "newest_qualifying status es trail ti = Some (tid, r) \<Longrightarrow>
     \<exists>pre e post. es = pre @ e # post \<and> te_tool_call_id e = tid \<and> qualifies status trail ti e \<and>
       (\<forall>x \<in> set pre. \<not> qualifies status trail ti x) \<and> backed trail ti status (Some tid) r"
proof (induction es)
  case (Cons e es)
  show ?case
  proof (cases "qualifies status trail ti e")
    case True
    with Cons.prems qualifies_backed[OF True]
    have "te_tool_call_id e = tid" "backed trail ti status (Some tid) r" by (auto simp: newest_step simp del: newest_qualifying.simps)
    with True show ?thesis
      by (intro exI[of _ "[]"] exI[of _ e] exI[of _ es]) simp
  next
    case False
    with Cons.prems have "newest_qualifying status es trail ti = Some (tid, r)" by (simp add: newest_step del: newest_qualifying.simps)
    from Cons.IH[OF this] obtain pre x post where "es = pre @ x # post" "te_tool_call_id x = tid"
      "qualifies status trail ti x" "\<forall>x \<in> set pre. \<not> qualifies status trail ti x" "backed trail ti status (Some tid) r"
      by blast
    with False show ?thesis
      by (intro exI[of _ "e # pre"] exI[of _ x] exI[of _ post]) simp
  qed
qed simp

lemma candidate_backed:
  assumes "e \<in> set (auto_bind_candidates status trail ti)"
  shows "backed trail ti status (Some (te_tool_call_id e))
    (if status = ''completed'' then None else classify_block_evidence (te_tool_call_id e) trail ti) \<and>
    te_turn_index e = ti"
  using assms
  by (auto simp: auto_bind_candidates_def backed_def classify_iff split: if_splits option.splits)

lemma resolve_cases:
  assumes "resolve_evidence iid status trail ti = Inr (tid, reason, b)"
  obtains (tag) pre e post where "tagged_entries iid trail ti = pre @ e # post" "te_tool_call_id e = tid"
      "\<forall>x \<in> set post. \<not> qualifies status trail ti x" "backed trail ti status (Some tid) reason" "b = TAGGED"
  | (auto_) e where "tagged_entries iid trail ti = []" "te_tool_call_id e = tid" "b = AUTO_BOUND"
      "e \<in> set (auto_bind_candidates status trail ti)"
      "filter (\<lambda>e. te_serves_intent e = None) (auto_bind_candidates status trail ti) = [e] \<or>
       auto_bind_candidates status trail ti = [e]"
      "backed trail ti status (Some tid) reason"
proof (cases "tagged_entries iid trail ti = []")
  case False
  with assms have b: "b = TAGGED" and
    n: "newest_qualifying status (rev (tagged_entries iid trail ti)) trail ti = Some (tid, reason)"
    by (auto simp: resolve_evidence_def reject_def Let_def split: option.splits)
  from newest_qualifying_Some[OF n] obtain pre e post where
    es: "rev (tagged_entries iid trail ti) = pre @ e # post" and rest: "te_tool_call_id e = tid"
    "\<forall>x \<in> set pre. \<not> qualifies status trail ti x" "backed trail ti status (Some tid) reason" by blast
  from es have "tagged_entries iid trail ti = rev post @ e # rev pre"
    by (metis append.assoc append_Cons append_Nil rev.simps(2) rev_append rev_rev_ident)
  with rest b show ?thesis using tag by simp
next
  case True
  let ?c = "auto_bind_candidates status trail ti"
  let ?u = "filter (\<lambda>e. te_serves_intent e = None) ?c"
  from True assms obtain e where e: "?u = [e] \<or> ?c = [e]" "te_tool_call_id e = tid" "b = AUTO_BOUND"
    "reason = (if status = ''completed'' then None else classify_block_evidence (te_tool_call_id e) trail ti)"
    by (auto simp: resolve_evidence_def Let_def reject_def split: list.splits prod.splits)
  have "e \<in> set [e]" by simp
  with e(1) have "e \<in> set ?u \<or> e \<in> set ?c" by presburger
  then have "e \<in> set ?c" by auto
  with candidate_backed[OF this] e(2,4) have "backed trail ti status (Some tid) reason" by simp
  with True e(1,2,3) \<open>e \<in> set ?c\<close> show ?thesis by (intro auto_[of e]) simp_all
qed

text \<open>
  Evidence is never invented: whatever resolves an intent's closing is a call of this turn that
  its validator accepts. A tag wins, with the newest qualifying tagged call; only when nothing is
  tagged for the intent does the runtime bind by itself, and only a call it cannot confuse.
\<close>

theorem resolve_evidence_sound:
  assumes "resolve_evidence iid status trail ti = Inr (tid, reason, b)"
  shows "backed trail ti status (Some tid) reason \<and>
    (b = TAGGED \<and> (\<exists>pre e post. tagged_entries iid trail ti = pre @ e # post \<and> te_tool_call_id e = tid \<and>
        (\<forall>x \<in> set post. \<not> qualifies status trail ti x)) \<or>
     b = AUTO_BOUND \<and> tagged_entries iid trail ti = [] \<and> (\<exists>e. te_tool_call_id e = tid \<and>
        (filter (\<lambda>e. te_serves_intent e = None) (auto_bind_candidates status trail ti) = [e] \<or>
         auto_bind_candidates status trail ti = [e])))"
  using assms by (rule resolve_cases) blast+

end
