(* ===== verification/LedgerInvariant.thy ===== *)
theory LedgerInvariant
  imports AnalysisLedgerFacts Finalization
begin

text \<open>
  The ledger over a whole turn: the invariant of the live analysis state, that every store write of
  the turn keeps it (state calls, forced blocks, trail appends and the rest), and that the intents
  the model declared are never dropped, added or reworded.
\<close>

section \<open>The invariant\<close>

definition intent_ok :: "trail_entry list \<Rightarrow> int \<Rightarrow> tracked_intent \<Rightarrow> bool" where
  "intent_ok trail ti i \<longleftrightarrow> ti_status i \<in> set INTENT_STATUSES \<and>
     (ti_status i = ''pending'' \<longrightarrow> ti_evidence i = None \<and> ti_reason_code i = None) \<and>
     (ti_status i = ''completed'' \<longrightarrow> backed trail ti ''completed'' (ti_evidence i) (ti_reason_code i)) \<and>
     (ti_status i = ''blocked'' \<longrightarrow> backed trail ti ''blocked'' (ti_evidence i) (ti_reason_code i) \<or>
        ti_evidence i = None \<and> (\<exists>r \<in> set RUNTIME_REASON_CODES. ti_reason_code i = Some r))"

text \<open>The evidence ids the blocked intents rest on.\<close>

definition spent_denials :: "tracked_intent list \<Rightarrow> string list" where
  "spent_denials is = map (\<lambda>i. or_empty (ti_evidence i))
     (filter (\<lambda>i. ti_status i = ''blocked'' \<and> truthy_text (ti_evidence i)) is)"

definition ledger_ok :: "trail_entry list \<Rightarrow> int \<Rightarrow> analysis_state \<Rightarrow> bool" where
  "ledger_ok trail ti a \<longleftrightarrow> as_turn_index a = ti \<and> distinct (map ti_intent_id (as_intents a)) \<and>
     (\<forall>i \<in> set (as_intents a). intent_ok trail ti i) \<and> distinct (spent_denials (as_intents a))"

lemma intent_ok_append: "intent_ok trail ti i \<Longrightarrow> intent_ok (trail @ es) ti i"
  by (auto simp: intent_ok_def backed_append)

lemma ledger_ok_append: "ledger_ok trail ti a \<Longrightarrow> ledger_ok (trail @ es) ti a"
  by (auto simp: ledger_ok_def intent_ok_append)

lemma backed_truthy: "backed trail ti s ev r \<Longrightarrow> truthy_text ev"
  by (auto simp: backed_def truthy_text_def completion_iff block_iff cited_def py_strip_def py_lstrip_def split: if_splits)

section \<open>Merging by id\<close>

lemma by_id_keys: "dget (by_id is) k = Some j \<Longrightarrow> j \<in> set is \<and> ti_intent_id j = k"
proof -
  have "dget (fold (\<lambda>i. dset (ti_intent_id i) i) is d) k = Some j \<Longrightarrow>
      (j \<in> set is \<and> ti_intent_id j = k) \<or> dget d k = Some j" for d
    by (induction "is" arbitrary: d) (fastforce split: if_splits)+
  then show "dget (by_id is) k = Some j \<Longrightarrow> j \<in> set is \<and> ti_intent_id j = k" by (fastforce simp: by_id_def)
qed

lemma by_id_get: "distinct (map ti_intent_id is) \<Longrightarrow> i \<in> set is \<Longrightarrow> dget (by_id is) (ti_intent_id i) = Some i"
proof -
  have keep: "k \<notin> set (map ti_intent_id xs) \<Longrightarrow> dget (fold (\<lambda>i. dset (ti_intent_id i) i) xs d) k = dget d k" for k xs d
    by (induction xs arbitrary: d) auto
  have "distinct (map ti_intent_id is) \<Longrightarrow> i \<in> set is \<Longrightarrow>
      dget (fold (\<lambda>i. dset (ti_intent_id i) i) is d) (ti_intent_id i) = Some i" for d
  proof (induction "is" arbitrary: d)
    case (Cons x xs)
    show ?case
    proof (cases "i = x")
      case True
      with Cons.prems keep[of "ti_intent_id x" xs] show ?thesis by simp
    next
      case False
      with Cons show ?thesis by simp
    qed
  qed simp
  then show "distinct (map ti_intent_id is) \<Longrightarrow> i \<in> set is \<Longrightarrow> dget (by_id is) (ti_intent_id i) = Some i"
    by (simp add: by_id_def)
qed

text \<open>An intent after an update: the declaration kept, the disposition kept or taken from the update.\<close>

definition updated :: "intent_update list \<Rightarrow> tracked_intent \<Rightarrow> tracked_intent \<Rightarrow> bool" where
  "updated us i j \<longleftrightarrow> ti_intent_id j = ti_intent_id i \<and> ti_description j = ti_description i \<and>
     (j = i \<or> (\<exists>u \<in> set us. iu_intent_id u = ti_intent_id i \<and> ti_status j = iu_status u \<and>
        ti_evidence j = iu_evidence u \<and> ti_reason_code j = iu_reason_code u))"

lemma apply_updates_spec:
  assumes "apply_updates live us d = Inr d'" and "\<And>k i. dget d k = Some i \<Longrightarrow> ti_intent_id i = k"
    and "dget d k = Some i"
  shows "\<exists>j. dget d' k = Some j \<and> updated us i j"
  using assms
proof (induction us arbitrary: d i)
  case Nil
  then show ?case by (simp add: updated_def)
next
  case (Cons u us)
  from Cons.prems(1) obtain c where c: "dget d (iu_intent_id u) = Some c"
    and rest: "apply_updates live us (dset (iu_intent_id u)
        \<lparr>ti_intent_id = ti_intent_id c, ti_description = ti_description c, ti_status = iu_status u,
         ti_evidence = iu_evidence u, ti_reason_code = iu_reason_code u\<rparr> d) = Inr d'"
    by (auto simp: apply_update_def reject_def rbind_eq_Inr split: option.splits)
  let ?c = "\<lparr>ti_intent_id = ti_intent_id c, ti_description = ti_description c, ti_status = iu_status u,
         ti_evidence = iu_evidence u, ti_reason_code = iu_reason_code u\<rparr>"
  have ids: "ti_intent_id j = l" if "dget (dset (iu_intent_id u) ?c d) l = Some j" for l j
    using that c Cons.prems(2) by (auto split: if_splits)
  show ?case
  proof (cases "k = iu_intent_id u")
    case True
    with c Cons.prems(3) have "c = i" by simp
    from True Cons.IH[OF rest ids, of ?c] obtain j where j: "dget d' k = Some j" "updated us ?c j" by auto
    from True Cons.prems(2,3) have "ti_intent_id i = iu_intent_id u" by blast
    with j(2) \<open>c = i\<close> have "updated (u # us) i j" by (fastforce simp: updated_def)
    with j(1) show ?thesis by blast
  next
    case False
    with Cons.IH[OF rest ids, of i] Cons.prems(3) obtain j where "dget d' k = Some j" "updated us i j" by auto
    then show ?thesis by (auto simp: updated_def)
  qed
qed

lemma mapM_r_all2: "mapM_r f xs = Inr ys \<Longrightarrow> list_all2 (\<lambda>x y. f x = Inr y) xs ys"
  by (induction xs arbitrary: ys) (auto simp: rbind_eq_Inr)

lemma list_all2_right: "list_all2 P xs ys \<Longrightarrow> y \<in> set ys \<Longrightarrow> \<exists>x \<in> set xs. P x y"
  by (induction rule: list_all2_induct) auto

lemma merged_updated:
  assumes "merged_intents a us = Inr is" and "distinct (map ti_intent_id (as_intents a))"
  shows "list_all2 (updated us) (as_intents a) is"
proof -
  from assms(1) obtain d where d: "apply_updates a us (by_id (as_intents a)) = Inr d"
    and m: "mapM_r (\<lambda>i. case dget d (ti_intent_id i) of None \<Rightarrow> Inl (KeyError (ti_intent_id i)) | Some j \<Rightarrow> Inr j)
         (as_intents a) = Inr is"
    by (auto simp: merged_intents_def rbind_eq_Inr)
  have keys: "ti_intent_id i = k" if "dget (by_id (as_intents a)) k = Some i" for k i
    using by_id_keys[OF that] by simp
  have "updated us i j" if "i \<in> set (as_intents a)" "dget d (ti_intent_id i) = Some j" for i j
    using apply_updates_spec[OF d keys by_id_get[OF assms(2) that(1)]] that(2) by simp
  with mapM_r_all2[OF m] show ?thesis
    by (elim list.rel_mono_strong) (simp split: option.splits)
qed

lemma updated_declared: "list_all2 (updated us) is js \<Longrightarrow>
    map (\<lambda>i. (ti_intent_id i, ti_description i)) js = map (\<lambda>i. (ti_intent_id i, ti_description i)) is"
  by (induction rule: list_all2_induct) (simp_all add: updated_def)

lemma denials_distinct:
  "block_evidence_distinct is seen = Inr u \<Longrightarrow> distinct (spent_denials is) \<and> set (spent_denials is) \<inter> dom (dget seen) = {}"
proof (induction "is" seen rule: block_evidence_distinct.induct)
  case (2 i "is" seen)
  show ?case
  proof (cases "ti_status i \<noteq> ''blocked'' \<or> \<not> truthy_text (ti_evidence i)")
    case True
    with 2 show ?thesis by (auto simp: spent_denials_def)
  next
    case False
    with 2(3) have "dget seen (or_empty (ti_evidence i)) = None"
      "block_evidence_distinct is (dset (or_empty (ti_evidence i)) (ti_intent_id i) seen) = Inr u"
      by (auto simp: reject_def Let_def split: option.splits)
    with 2(2)[OF False refl] False show ?thesis by (auto simp: spent_denials_def)
  qed
qed (simp add: spent_denials_def)

section \<open>Bound updates\<close>

definition update_ok :: "trail_entry list \<Rightarrow> int \<Rightarrow> intent_update \<Rightarrow> bool" where
  "update_ok trail ti u \<longleftrightarrow> iu_status u \<in> set INTENT_STATUSES \<and>
     (iu_status u = ''pending'' \<longrightarrow> iu_evidence u = None \<and> iu_reason_code u = None) \<and>
     (iu_status u \<noteq> ''pending'' \<longrightarrow> backed trail ti (iu_status u) (iu_evidence u) (iu_reason_code u))"

lemma validated_updates:
  "validate_updates items seen = Inr us \<Longrightarrow> u \<in> set us \<Longrightarrow>
     iu_status u \<in> set INTENT_STATUSES \<and> iu_evidence u = None \<and> iu_reason_code u = None"
proof (induction items seen arbitrary: us rule: validate_updates.induct)
  case (2 item items seen)
  from 2(2) obtain iid status rest where
    st: "check_status (getv item ''status'') = Inr status" and
    rest: "validate_updates items (iid # seen) = Inr rest" and
    us: "us = \<lparr>iu_intent_id = iid, iu_status = status, iu_evidence = None, iu_reason_code = None\<rparr> # rest"
    by (auto simp: Let_def reject_def rbind_eq_Inr split: if_splits pyval.splits)
  from st have "status \<in> set INTENT_STATUSES"
    by (auto simp: check_status_def reject_def split: if_splits pyval.splits)
  moreover have "u \<in> set rest \<Longrightarrow> iu_status u \<in> set INTENT_STATUSES \<and> iu_evidence u = None \<and> iu_reason_code u = None"
    using 2 rest us by (auto simp: Let_def reject_def rbind_eq_Inr split: if_splits pyval.splits)
  ultimately show ?case using 2(3) us by auto
qed simp

lemma bound_one_ok:
  assumes "ledger_ok trail ti live" and "bind_one trail ti live u = Inr (v, b)"
    and "iu_status u \<in> set INTENT_STATUSES" "iu_evidence u = None" "iu_reason_code u = None"
  shows "update_ok trail ti v"
proof (cases "iu_status u = ''pending''")
  case True
  with assms show ?thesis by (auto simp: bind_one_def update_ok_def)
next
  case False
  with assms(3) have s: "iu_status u = ''completed'' \<or> iu_status u = ''blocked''" by (auto simp: INTENT_STATUSES_def)
  have resolved: "update_ok trail ti (u\<lparr>iu_evidence := Some tid, iu_reason_code := reason\<rparr>)"
    if "resolve_evidence (iu_intent_id u) (iu_status u) trail ti = Inr (tid, reason, x)" for tid reason x
    using that assms(3) False by (elim resolve_cases) (simp_all add: update_ok_def)
  show ?thesis
  proof (cases "\<exists>c. dget (by_id (as_intents live)) (iu_intent_id u) = Some c \<and>
      ti_status c = iu_status u \<and> truthy_text (ti_evidence c)")
    case True
    then obtain c where c: "dget (by_id (as_intents live)) (iu_intent_id u) = Some c"
      "ti_status c = iu_status u" "truthy_text (ti_evidence c)" by blast
    with assms(2) s have v: "v = u\<lparr>iu_evidence := ti_evidence c, iu_reason_code := ti_reason_code c\<rparr>"
      by (auto simp: bind_one_def Let_def)
    from c(1) assms(1) have "intent_ok trail ti c" using by_id_keys by (auto simp: ledger_ok_def)
    with c s v assms(3) show ?thesis by (auto simp: intent_ok_def update_ok_def truthy_text_def)
  next
    case False
    with assms(2) s have "rbind (resolve_evidence (iu_intent_id u) (iu_status u) trail ti)
        (\<lambda>(tid, reason, binding). Inr (u\<lparr>iu_evidence := Some tid, iu_reason_code := reason\<rparr>, Some binding)) = Inr (v, b)"
      by (auto simp: bind_one_def Let_def split: option.splits if_splits)
    then show ?thesis using resolved by (auto simp: rbind_eq_Inr)
  qed
qed

lemma bound_updates_ok:
  assumes "ledger_ok trail ti live" and "validate_update_items items = Inr us"
    and "bind_evidence trail ti live us = Inr (vs, b)" and "v \<in> set vs"
  shows "update_ok trail ti v"
proof -
  from assms(3) obtain bs where bs: "mapM_r (bind_one trail ti live) us = Inr bs" and vs: "vs = map fst bs"
    by (auto simp: bind_evidence_def rbind_eq_Inr)
  from assms(4) vs obtain c where c: "(v, c) \<in> set bs" by auto
  from list_all2_right[OF mapM_r_all2[OF bs] this]
  obtain u where u: "u \<in> set us" "bind_one trail ti live u = Inr (v, c)" by blast
  from assms(2) have "validate_updates items [] = Inr us"
    by (auto simp: validate_update_items_def second_initialize_def reject_def split: if_splits)
  from validated_updates[OF this u(1)] bound_one_ok[OF assms(1) u(2)] show ?thesis by blast
qed

lemma updated_intent_ok:
  assumes "intent_ok trail ti i" and "\<forall>u \<in> set us. update_ok trail ti u" and "updated us i j"
  shows "intent_ok trail ti j"
  using assms by (auto simp: updated_def intent_ok_def update_ok_def)

definition declared :: "analysis_state \<Rightarrow> (string \<times> string) list" where
  "declared a = map (\<lambda>i. (ti_intent_id i, ti_description i)) (as_intents a)"

lemma declared_ids: "declared a = declared b \<Longrightarrow> map ti_intent_id (as_intents a) = map ti_intent_id (as_intents b)"
  by (drule arg_cong[of _ _ "map fst"]) (simp add: declared_def comp_def)

lemma merge_update_ok:
  assumes "ledger_ok trail ti a" and "\<forall>u \<in> set us. update_ok trail ti u"
    and "merge_update ti us (Some a) = Inr a'"
  shows "ledger_ok trail ti a' \<and> declared a' = declared a"
proof -
  from assms(3) obtain js u where js: "merged_intents a us = Inr js" and d: "block_evidence_distinct js [] = Inr u"
    and a': "a' = \<lparr>as_turn_index = ti, as_intents = js\<rparr>"
    by (auto simp: merge_update_def rbind_eq_Inr check_block_evidence_distinct_def)
  from assms(1) have "list_all2 (updated us) (as_intents a) js"
    by (intro merged_updated[OF js]) (simp add: ledger_ok_def)
  note up = this updated_declared[OF this]
  have decl: "declared a' = declared a" using up(2) a' by (simp add: declared_def)
  moreover have "intent_ok trail ti j" if "j \<in> set js" for j
    using list_all2_right[OF up(1) that] assms(1,2) updated_intent_ok by (auto simp: ledger_ok_def)
  ultimately show ?thesis
    using declared_ids[OF decl] denials_distinct[OF d] assms(1) a' by (simp add: ledger_ok_def)
qed

lemma initial_ledger_ok: "ledger_ok trail ti (initial_state ti ds)"
proof -
  have "inj_on (\<lambda>x. ''i'' @ show_nat (fst x)) (set (enumerate 1 ds))"
    by (auto simp: inj_on_def in_set_enumerate_eq)
  then have "distinct (map (\<lambda>x. ''i'' @ show_nat (fst x)) (enumerate 1 ds))"
    by (simp only: distinct_map) simp
  then show ?thesis
    by (auto simp: ledger_ok_def initial_state_def comp_def case_prod_unfold intent_ok_def INTENT_STATUSES_def
        spent_denials_def)
qed

lemma force_ok:
  assumes "ledger_ok trail ti a" and "r \<in> set RUNTIME_REASON_CODES" and "force_merge ti r (Some a) = Inr a'"
  shows "ledger_ok trail ti a' \<and> declared a' = declared a"
proof -
  let ?f = "\<lambda>i. if ti_status i \<noteq> ''pending'' then i else i\<lparr>ti_status := ''blocked'', ti_reason_code := Some r\<rparr>"
  have a': "as_intents a' = map ?f (as_intents a)" "as_turn_index a' = ti"
    using assms(3) by (auto simp: force_merge_def)
  have ok: "intent_ok trail ti i" if "i \<in> set (as_intents a)" for i using that assms(1) by (simp add: ledger_ok_def)
  have "intent_ok trail ti (?f i)" if "i \<in> set (as_intents a)" for i
    using ok[OF that] assms(2) by (auto simp: intent_ok_def INTENT_STATUSES_def)
  moreover have "spent_denials (map ?f is) = spent_denials is" if "\<forall>i \<in> set is. intent_ok trail ti i" for "is"
    using that by (induction "is") (auto simp: spent_denials_def intent_ok_def truthy_text_def)
  moreover have "declared a' = declared a" using a' by (simp add: declared_def)
  ultimately have decl: "declared a' = declared a" and good: "\<forall>i \<in> set (as_intents a'). intent_ok trail ti i"
    and denials: "spent_denials (as_intents a') = spent_denials (as_intents a)"
    using a'(1) ok by (simp_all del: if_image_distrib)
  show ?thesis
    using declared_ids[OF decl] decl good denials a'(2) assms(1) by (simp add: ledger_ok_def)
qed

section \<open>The steps of a turn\<close>

definition live_of :: "session_store \<Rightarrow> string \<Rightarrow> int \<Rightarrow> analysis_state option" where
  "live_of st sid ti = (case doc_of st sid of None \<Rightarrow> None | Some d \<Rightarrow> live_analysis_state d ti)"

definition trail_of :: "session_store \<Rightarrow> string \<Rightarrow> trail_entry list" where
  "trail_of st sid = (case doc_of st sid of None \<Rightarrow> [] | Some d \<Rightarrow> sd_tool_trail d)"

definition store_ok :: "string \<Rightarrow> int \<Rightarrow> session_store \<Rightarrow> bool" where
  "store_ok sid ti st \<longleftrightarrow> (\<forall>a. live_of st sid ti = Some a \<longrightarrow> ledger_ok (trail_of st sid) ti a)"

definition keeps :: "string \<Rightarrow> int \<Rightarrow> session_store \<Rightarrow> session_store \<Rightarrow> bool" where
  "keeps sid ti st st' \<longleftrightarrow> (store_ok sid ti st \<longrightarrow> store_ok sid ti st' \<and>
     (\<forall>a. live_of st sid ti = Some a \<longrightarrow> (\<exists>a'. live_of st' sid ti = Some a' \<and> declared a' = declared a)))"

inductive turn_step :: "string \<Rightarrow> int \<Rightarrow> session_store \<Rightarrow> session_store \<Rightarrow> bool" for sid :: string and ti :: int where
  state_call: "turn = None \<or> turn = Some ti \<Longrightarrow>
    turn_step sid ti st (snd (snd (update_tool_run clk sid turn args st)))"
| forced: "r \<in> set RUNTIME_REASON_CODES \<Longrightarrow>
    turn_step sid ti st (snd (snd (force_block_pending_intents clk sid ti state r cap st)))"
| tool_call: "turn_step sid ti st (append_trail_entry clk sid e st)"
| message: "turn_step sid ti st (append_message clk sid m st)"
| pause: "turn_step sid ti st (write_pause_checkpoint clk sid c st)"
| opened: "turn_step sid ti st (snd (get_or_create_session clk sid st))"
| full_result: "turn_step sid ti st (snd (write_full_result sid i v st))"
| touch: "turn_step sid ti st (bump_last_activity clk sid st)"
| resume: "turn_step sid ti st (snd (resume_checkpoint clk sid cas answer st))"
| refusal_claim: "turn_step sid ti st (snd (claim_finalization_block clk sid t w k st))"
| learning: "turn_step sid ti st (snd (transition_learning_status sid f t cas h a st))"

abbreviation turn_steps :: "string \<Rightarrow> int \<Rightarrow> session_store \<Rightarrow> session_store \<Rightarrow> bool" where
  "turn_steps sid ti \<equiv> (turn_step sid ti)\<^sup>*\<^sup>*"

lemma keeps_refl [simp]: "keeps sid ti st st"
  by (simp add: keeps_def)

lemma keeps_trans: "keeps sid ti st st1 \<Longrightarrow> keeps sid ti st1 st2 \<Longrightarrow> keeps sid ti st st2"
  unfolding keeps_def by metis

lemma keeps_frame:
  assumes "live_of st' sid ti = live_of st sid ti" and "trail_of st' sid = trail_of st sid @ es"
  shows "keeps sid ti st st'"
  using assms by (auto simp: keeps_def store_ok_def ledger_ok_append)

lemma created_views:
  assumes "get_or_create_session clk sid st = (d, st1)"
  shows "live_of st sid ti = live_analysis_state d ti" "trail_of st sid = sd_tool_trail d"
    "live_of st1 sid ti = live_analysis_state d ti" "trail_of st1 sid = sd_tool_trail d"
    "get_or_create_session clk' sid st1 = (d, st1)"
proof -
  have "live_analysis_state (new_session_doc sid x) ti = None" "sd_tool_trail (new_session_doc sid x) = []" for x
    by (simp_all add: live_analysis_state_def new_session_doc_def)
  moreover have "doc_of st1 sid = Some d" "doc_of st sid = None \<Longrightarrow> d = new_session_doc sid (clk 0)"
    "doc_of st sid \<noteq> None \<Longrightarrow> st1 = st"
    using get_or_create_views[OF assms] by simp_all
  ultimately show "live_of st sid ti = live_analysis_state d ti" "trail_of st sid = sd_tool_trail d"
    "live_of st1 sid ti = live_analysis_state d ti" "trail_of st1 sid = sd_tool_trail d"
    "get_or_create_session clk' sid st1 = (d, st1)"
    by (cases "doc_of st sid"; simp add: live_of_def trail_of_def get_or_create_session_def doc_of_def)+
qed

lemma write_views:
  "live_of (bump_version sid (put_doc sid d st)) sid ti = live_analysis_state d ti"
  "trail_of (bump_version sid (put_doc sid d st)) sid = sd_tool_trail d"
  by (simp_all add: live_of_def trail_of_def)

lemma keeps_mutate:
  assumes "\<And>d. sd_analysis_state (f d) = sd_analysis_state d" and "\<And>d. sd_tool_trail (f d) = sd_tool_trail d @ es"
  shows "keeps sid ti st (mutate clk sid f st)"
proof (cases "get_or_create_session clk sid st")
  case (Pair d st1)
  note v = created_views[OF Pair]
  show ?thesis
    by (rule keeps_frame[where es = es])
      (simp_all add: mutate_def Pair write_views v assms live_analysis_state_def)
qed

lemma keeps_apply:
  assumes "\<And>a. merge (live_of st sid ti) = Inr a \<Longrightarrow> store_ok sid ti st \<Longrightarrow> ledger_ok (trail_of st sid) ti a \<and>
      (\<forall>b. live_of st sid ti = Some b \<longrightarrow> declared a = declared b)"
  shows "keeps sid ti st (snd (apply_analysis_state clk sid ti merge st))"
proof (cases "get_or_create_session clk sid st")
  case (Pair d st1)
  note v = created_views[OF Pair]
  show ?thesis
  proof (cases "merge (live_analysis_state d ti)")
    case (Inl e)
    then show ?thesis
      by (intro keeps_frame[where es = "[]"]) (simp_all add: apply_analysis_state_def Pair v)
  next
    case (Inr a)
    with assms v have "store_ok sid ti st \<Longrightarrow> ledger_ok (sd_tool_trail d) ti a \<and>
      (\<forall>b. live_of st sid ti = Some b \<longrightarrow> declared a = declared b)" by simp
    with Inr show ?thesis
      by (auto simp: keeps_def apply_analysis_state_def Pair store_ok_def write_views v live_analysis_state_def ledger_ok_def)
  qed
qed

lemma keeps_create: "keeps sid ti st (snd (get_or_create_session clk sid st))"
proof (cases "get_or_create_session clk sid st")
  case (Pair d st1)
  then show ?thesis using created_views[OF Pair] by (intro keeps_frame[where es = "[]"]) simp_all
qed

lemma keeps_initialize: "keeps sid ti st (snd (snd (initialize clk sid ti items trail st)))"
proof (cases "validate_initialize_items items")
  case (Inr ds)
  let ?m = "\<lambda>current. case current of Some _ \<Rightarrow> second_initialize | None \<Rightarrow> Inr (initial_state ti ds)"
  have "keeps sid ti st (snd (apply_analysis_state clk sid ti ?m st))"
    by (rule keeps_apply) (auto simp: second_initialize_def reject_def initial_ledger_ok split: option.splits)
  with Inr show ?thesis by (auto simp: initialize_def split: option.splits prod.splits sum.splits)
qed (simp add: initialize_def)

lemma keeps_update:
  assumes "live_of st sid ti = Some live"
  shows "keeps sid ti st (snd (snd (update_state clk sid ti items (trail_of st sid) live st)))"
proof (cases "validate_update_items items")
  case (Inr us0)
  show ?thesis
  proof (cases "bind_evidence (trail_of st sid) ti live us0")
    case (Inr vb)
    obtain us b where vb: "vb = (us, b)" by fastforce
    have "keeps sid ti st (snd (apply_analysis_state clk sid ti (merge_update ti us) st))"
    proof (rule keeps_apply)
      fix a
      assume m: "merge_update ti us (live_of st sid ti) = Inr a" and ok: "store_ok sid ti st"
      from ok assms have l: "ledger_ok (trail_of st sid) ti live" by (simp add: store_ok_def)
      have "\<forall>u \<in> set us. update_ok (trail_of st sid) ti u"
        using bound_updates_ok[OF l \<open>validate_update_items items = Inr us0\<close>] Inr vb by blast
      from merge_update_ok[OF l this] m assms
      show "ledger_ok (trail_of st sid) ti a \<and> (\<forall>b. live_of st sid ti = Some b \<longrightarrow> declared a = declared b)" by simp
    qed
    with Inr vb \<open>validate_update_items items = Inr us0\<close> show ?thesis
      by (auto simp: update_state_def split: prod.splits sum.splits)
  qed (simp add: update_state_def \<open>validate_update_items items = Inr us0\<close>)
qed (simp add: update_state_def)

lemma guarded_store: "snd (snd (guarded args r)) = snd (snd r)"
  by (auto simp: guarded_def split: prod.splits sum.splits exc.splits)

lemma tool_store: "snd (snd (update_tool_run clk sid turn args st)) = snd (snd (execute_update_tool clk sid turn args st))"
  by (simp add: update_tool_run_def case_prod_unfold guarded_store)

lemma keeps_state_call:
  assumes "turn = None \<or> turn = Some ti"
  shows "keeps sid ti st (snd (snd (update_tool_run clk sid turn args st)))"
proof (cases "turn = None")
  case True
  then show ?thesis by (simp add: tool_store execute_update_tool_def)
next
  case False
  with assms have turn: "turn = Some ti" by simp
  show ?thesis
  proof (cases "require_intent_items args")
    case (Inl e)
    with turn show ?thesis by (simp add: tool_store execute_update_tool_def)
  next
    case (Inr items)
    obtain d st1 where g: "get_or_create_session clk sid st = (d, st1)" by fastforce
    note v = created_views[OF g]
    have c: "keeps sid ti st st1" using keeps_create[of sid ti st clk] g by simp
    show ?thesis
    proof (cases "live_analysis_state d ti")
      case None
      with turn Inr g keeps_trans[OF c keeps_initialize] show ?thesis
        by (simp add: tool_store execute_update_tool_def)
    next
      case (Some live)
      with v have "live_of st1 sid ti = Some live" by simp
      from keeps_trans[OF c keeps_update[OF this]] turn Inr g v Some show ?thesis
        by (simp add: tool_store execute_update_tool_def)
    qed
  qed
qed

lemma keeps_forced:
  assumes "r \<in> set RUNTIME_REASON_CODES"
  shows "keeps sid ti st (snd (snd (force_block_pending_intents clk sid ti state r cap st)))"
proof -
  have "keeps sid ti st (snd (apply_analysis_state clk sid ti (force_merge ti r) st))"
  proof (rule keeps_apply)
    fix a
    assume m: "force_merge ti r (live_of st sid ti) = Inr a" and ok: "store_ok sid ti st"
    then obtain b where b: "live_of st sid ti = Some b" by (auto simp: force_merge_def split: option.splits)
    with ok have "ledger_ok (trail_of st sid) ti b" by (simp add: store_ok_def)
    from force_ok[OF this assms] m b
    show "ledger_ok (trail_of st sid) ti a \<and> (\<forall>b. live_of st sid ti = Some b \<longrightarrow> declared a = declared b)" by simp
  qed
  then show ?thesis by (auto simp: force_block_pending_intents_def Let_def split: prod.splits sum.splits)
qed

lemma keeps_write:
  assumes "doc_of st sid = Some d" and "sd_analysis_state d' = sd_analysis_state d" and "sd_tool_trail d' = sd_tool_trail d"
  shows "keeps sid ti st (bump_version sid (put_doc sid d' st))"
  using assms by (intro keeps_frame[where es = "[]"]) (simp_all add: write_views live_of_def trail_of_def live_analysis_state_def)

lemma keeps_resume: "keeps sid ti st (snd (resume_checkpoint clk sid cas answer st))"
proof (cases "dget (ss_docs st) sid")
  case (Some d)
  then have "doc_of st sid = Some d" by (simp add: doc_of_def)
  with Some show ?thesis
    by (auto simp: resume_checkpoint_def Let_def split: option.split sum.split intro!: keeps_write)
qed (simp add: resume_checkpoint_def)

lemma keeps_claim: "keeps sid ti st (snd (claim_finalization_block clk sid t w k st))"
proof (cases "get_or_create_session clk sid st")
  case (Pair d st1)
  note v = created_views[OF Pair]
  have "doc_of st1 sid = Some d" using get_or_create_views(1)[OF Pair] by simp
  moreover have "keeps sid ti st st1" using keeps_create[of sid ti st clk] Pair by simp
  ultimately show ?thesis
    by (auto simp: claim_finalization_block_def Pair Let_def split: sum.split intro!: keeps_trans[of sid ti st st1] keeps_write)
qed

lemma keeps_learning: "keeps sid ti st (snd (transition_learning_status sid f t cas h a st))"
proof (cases "dget (ss_docs st) sid")
  case (Some d)
  then have "doc_of st sid = Some d" by (simp add: doc_of_def)
  with Some show ?thesis
    by (auto simp: transition_learning_status_def Let_def split: option.split sum.split intro!: keeps_write)
qed (simp add: transition_learning_status_def)

lemma keeps_full_result: "keeps sid ti st (snd (write_full_result sid i v st))"
  by (rule keeps_frame[where es = "[]"]) (simp_all add: write_full_result_def Let_def live_of_def trail_of_def doc_of_def)

lemma turn_step_keeps: "turn_step sid ti st st' \<Longrightarrow> keeps sid ti st st'"
  by (induction rule: turn_step.induct)
    (auto simp: append_trail_entry_def append_message_def write_pause_checkpoint_def bump_last_activity_def
      intro: keeps_state_call keeps_forced keeps_resume keeps_claim keeps_learning keeps_create keeps_full_result keeps_mutate[where es = "[]"] keeps_mutate)

lemma turn_steps_keeps: "turn_steps sid ti st st' \<Longrightarrow> keeps sid ti st st'"
  by (induction rule: rtranclp_induct) (auto intro: keeps_trans turn_step_keeps)

end
