(* ===== verification/LedgerProperties.thy ===== *)
theory LedgerProperties
  imports LedgerInvariant
begin

text \<open>
  The promises of analysis tracking and finalization, over whole turns: the ledger rests on
  evidence, declared intents are frozen, a refused call writes nothing, the tag never reaches a
  tool, a forced block leaves nothing pending, forced re-rounds are bounded per window, and the
  loop reads back the state it just wrote.
\<close>

section \<open>A sample turn\<close>

definition sample_clock :: clock where
  "sample_clock = (\<lambda>_. ''t'')"

definition declare_args :: pyval where
  "declare_args = PDict [(''intents'', PList [PDict [(''description'', PStr ''headcount''),
     (''intent_id'', PStr []), (''status'', PStr ''pending'')]])]"

definition close_args :: pyval where
  "close_args = PDict [(''intents'', PList [PDict [(''intent_id'', PStr ''i1''), (''status'', PStr ''completed'')]])]"

definition query_entry :: trail_entry where
  "query_entry = \<lparr>te_turn_index = 3, te_tool_call_id = ''c1'', te_tool_name = ''runQuery'', te_args = [],
     te_status = ''ok'', te_error_code = None, te_provenance = None, te_result_preview = None,
     te_result_full_ref = None, te_ts = ''t'', te_authoritative = False, te_denial_detail = None,
     te_serves_intent = Some ''i1'', te_answer_table_provenance = None, te_window_note = None\<rparr>"

definition declared_store :: session_store where
  "declared_store = snd (snd (update_tool_run sample_clock ''s'' (Some 3) declare_args empty_store))"

definition queried_store :: session_store where
  "queried_store = append_trail_entry sample_clock ''s'' query_entry declared_store"

definition closed_store :: session_store where
  "closed_store = snd (snd (update_tool_run sample_clock ''s'' (Some 3) close_args queried_store))"

definition declared_intent :: tracked_intent where
  "declared_intent = \<lparr>ti_intent_id = ''i1'', ti_description = ''headcount'', ti_status = ''pending'',
     ti_evidence = None, ti_reason_code = None\<rparr>"

lemma declared_live: "live_of declared_store ''s'' 3 = Some \<lparr>as_turn_index = 3, as_intents = [declared_intent]\<rparr>"
  by code_simp

lemma closed_live: "live_of closed_store ''s'' 3 = Some \<lparr>as_turn_index = 3,
    as_intents = [declared_intent\<lparr>ti_status := ''completed'', ti_evidence := Some ''c1''\<rparr>]\<rparr>"
  by code_simp

lemma declare_run: "turn_steps ''s'' 3 empty_store declared_store"
  unfolding declared_store_def by (intro r_into_rtranclp turn_step.state_call) simp

lemma close_run: "turn_steps ''s'' 3 declared_store closed_store"
proof -
  have "turn_step ''s'' 3 declared_store queried_store" unfolding queried_store_def by (rule turn_step.tool_call)
  moreover have "turn_step ''s'' 3 queried_store closed_store"
    unfolding closed_store_def by (rule turn_step.state_call) simp
  ultimately show ?thesis by (meson r_into_rtranclp rtranclp.rtrancl_into_rtrancl)
qed

section \<open>The ledger\<close>

lemma reachable_ledger:
  assumes "turn_steps sid ti st0 st" and "live_of st0 sid ti = None" and "live_of st sid ti = Some a"
  shows "ledger_ok (trail_of st sid) ti a"
  using turn_steps_keeps[OF assms(1)] assms(2,3) by (auto simp: keeps_def store_ok_def)

lemma intent_ok_cases:
  assumes "intent_ok trail ti i"
  shows "(ti_status i = ''pending'' \<and> ti_evidence i = None \<and> ti_reason_code i = None) \<or>
       (ti_status i = ''completed'' \<and> ti_reason_code i = None \<and> (\<exists>tid. ti_evidence i = Some tid \<and>
          validate_completion_evidence tid trail ti = None)) \<or>
       (ti_status i = ''blocked'' \<and> (\<exists>tid reason. ti_evidence i = Some tid \<and> ti_reason_code i = Some reason \<and>
          validate_block_evidence tid reason trail ti = None)) \<or>
       (ti_status i = ''blocked'' \<and> ti_evidence i = None \<and>
          (\<exists>reason \<in> set RUNTIME_REASON_CODES. ti_reason_code i = Some reason))"
proof -
  consider "ti_status i = ''pending''" | "ti_status i = ''completed''" | "ti_status i = ''blocked''"
    using assms by (auto simp: intent_ok_def INTENT_STATUSES_def)
  then show ?thesis using assms by cases (auto simp: intent_ok_def backed_def)
qed

text \<open>
  C6: the ledger never lies. However state calls, tool calls, pauses, resumes, refusals and forced
  blocks interleave in a turn, every completed intent cites a call of this turn that qualifies as
  its answer, every blocked one cites the call that proves its reason or carries a runtime code
  and no evidence, a pending one claims nothing, and no denial blocks two intents.
\<close>

theorem ledger_never_lies:
  assumes "turn_steps sid ti st0 st" and "live_of st0 sid ti = None" and "live_of st sid ti = Some a"
  shows "distinct (map ti_intent_id (as_intents a)) \<and> distinct (spent_denials (as_intents a)) \<and>
    (\<forall>i \<in> set (as_intents a).
       (ti_status i = ''pending'' \<and> ti_evidence i = None \<and> ti_reason_code i = None) \<or>
       (ti_status i = ''completed'' \<and> ti_reason_code i = None \<and> (\<exists>tid. ti_evidence i = Some tid \<and>
          validate_completion_evidence tid (trail_of st sid) ti = None)) \<or>
       (ti_status i = ''blocked'' \<and> (\<exists>tid reason. ti_evidence i = Some tid \<and> ti_reason_code i = Some reason \<and>
          validate_block_evidence tid reason (trail_of st sid) ti = None)) \<or>
       (ti_status i = ''blocked'' \<and> ti_evidence i = None \<and>
          (\<exists>reason \<in> set RUNTIME_REASON_CODES. ti_reason_code i = Some reason)))"
proof -
  have ok: "ledger_ok (trail_of st sid) ti a" by (rule reachable_ledger[OF assms])
  have "\<forall>i \<in> set (as_intents a). intent_ok (trail_of st sid) ti i"
    using ok by (simp add: ledger_ok_def)
  then show ?thesis
    using ok intent_ok_cases by (simp only: ledger_ok_def) blast
qed

theorem ledger_never_lies_witness:
  "distinct (spent_denials [declared_intent\<lparr>ti_status := ''completed'', ti_evidence := Some ''c1''\<rparr>]) \<and>
   validate_completion_evidence ''c1'' (trail_of closed_store ''s'') 3 = None"
proof -
  have fresh: "live_of empty_store ''s'' 3 = None" by (simp add: live_of_def doc_of_def empty_store_def)
  have "turn_steps ''s'' 3 empty_store closed_store" using declare_run close_run by (rule rtranclp_trans)
  from ledger_never_lies[OF this fresh closed_live] show ?thesis by (auto simp: declared_intent_def)
qed

text \<open>
  C29: the ask cannot be dropped or reworded: once a turn has declared its intents, every later
  state of the turn holds the same ids with the same descriptions in the same order.
\<close>

theorem declared_intents_frozen:
  assumes "turn_steps sid ti st0 st" and "live_of st0 sid ti = None" and "live_of st sid ti = Some a"
    and "turn_steps sid ti st st'"
  shows "\<exists>a'. live_of st' sid ti = Some a' \<and>
    map (\<lambda>i. (ti_intent_id i, ti_description i)) (as_intents a') =
    map (\<lambda>i. (ti_intent_id i, ti_description i)) (as_intents a)"
  using turn_steps_keeps[OF assms(4)] reachable_ledger[OF assms(1-3)] assms(3)
  by (auto simp: keeps_def store_ok_def declared_def)

theorem declared_intents_frozen_witness:
  "\<exists>a'. live_of closed_store ''s'' 3 = Some a' \<and>
     map (\<lambda>i. (ti_intent_id i, ti_description i)) (as_intents a') = [(''i1'', ''headcount'')]"
proof -
  have fresh: "live_of empty_store ''s'' 3 = None" by (simp add: live_of_def doc_of_def empty_store_def)
  show ?thesis
    using declared_intents_frozen[OF declare_run fresh declared_live close_run] by (simp add: declared_intent_def)
qed

lemma apply_rejected:
  assumes "apply_analysis_state clk sid ti merge st = (Inl e, st')" and "doc_of st sid \<noteq> None"
  shows "st' = st"
proof (cases "get_or_create_session clk sid st")
  case (Pair d st1)
  with assms get_or_create_views(3)[OF Pair] show ?thesis
    by (auto simp: apply_analysis_state_def split: sum.splits)
qed

lemma update_state_rejected:
  assumes "update_state clk sid ti items trail live st = (Inl e, evs, st')" and "doc_of st sid \<noteq> None"
  shows "st' = st"
  using assms apply_rejected[OF _ assms(2)] by (auto simp: update_state_def split: sum.splits prod.splits)

lemma update_state_ok: "update_state clk sid ti items trail live st = (Inr r, evs, st') \<Longrightarrow> tr_status r = ''ok''"
  by (auto simp: update_state_def state_result_def split: sum.splits prod.splits)

lemma initialize_rejected:
  assumes "initialize clk sid ti items trail st = (r, evs, st')" and "doc_of st sid \<noteq> None"
    and "\<forall>t. r = Inr t \<longrightarrow> tr_status t \<noteq> ''ok''"
  shows "st' = st"
  using assms apply_rejected[OF _ assms(2)]
  by (auto simp: initialize_def state_result_def split: sum.splits prod.splits option.splits)

lemma execute_rejected:
  assumes "execute_update_tool clk sid turn args st = (r, evs, st')" and "doc_of st sid = Some d"
    and "\<forall>t. r = Inr t \<longrightarrow> tr_status t \<noteq> ''ok''"
  shows "st' = st"
proof (cases turn)
  case None
  with assms show ?thesis by (simp add: execute_update_tool_def)
next
  case (Some ti)
  have g: "get_or_create_session clk sid st = (d, st)"
    using assms(2) by (simp add: get_or_create_session_def doc_of_def)
  have doc: "doc_of st sid \<noteq> None" using assms(2) by simp
  show ?thesis
  proof (cases "require_intent_items args")
    case (Inl e)
    with Some assms(1) show ?thesis by (simp add: execute_update_tool_def)
  next
    case (Inr items)
    show ?thesis
    proof (cases "live_analysis_state d ti")
      case None
      with Some Inr g assms(1) have "initialize clk sid ti items (sd_tool_trail d) st = (r, evs, st')"
        by (simp add: execute_update_tool_def)
      from initialize_rejected[OF this doc assms(3)] show ?thesis .
    next
      case (Some live)
      with \<open>turn = Some ti\<close> Inr g assms(1) have u: "update_state clk sid ti items (sd_tool_trail d) live st = (r, evs, st')"
        by (simp add: execute_update_tool_def)
      show ?thesis
      proof (cases r)
        case (Inl e)
        with u update_state_rejected doc show ?thesis by blast
      next
        case (Inr t)
        with u update_state_ok assms(3) show ?thesis by blast
      qed
    qed
  qed
qed

text \<open>
  An update that is refused, for whatever reason and wherever it is raised, or that crashes,
  leaves the store exactly as it was.
\<close>

theorem rejected_update_writes_nothing:
  assumes "update_tool_run clk sid turn args st = (res, evs, st')" and "tr_status res \<noteq> ''ok''"
    and "doc_of st sid = Some d"
  shows "st' = st"
proof -
  obtain r evs1 st1 where x: "execute_update_tool clk sid turn args st = (r, evs1, st1)" by (metis prod_cases3)
  have "st' = st1" using assms(1) x tool_store[of clk sid turn args st] by simp
  moreover have "st1 = st"
  proof (rule execute_rejected[OF x assms(3)], intro allI impI)
    fix t assume "r = Inr t"
    with assms(1,2) x show "tr_status t \<noteq> ''ok''" by (auto simp: update_tool_run_def guarded_def)
  qed
  ultimately show ?thesis by simp
qed

text \<open>Closing the intent before any call ran: refused.\<close>

theorem rejected_update_writes_nothing_witness:
  "fst (update_tool_run sample_clock ''s'' (Some 3) close_args declared_store) \<noteq> state_result \<lparr>as_turn_index = 3, as_intents = []\<rparr> \<and>
   snd (snd (update_tool_run sample_clock ''s'' (Some 3) close_args declared_store)) = declared_store"
proof -
  obtain res evs st' where r: "update_tool_run sample_clock ''s'' (Some 3) close_args declared_store = (res, evs, st')"
    by (metis prod_cases3)
  have "tr_status (fst (update_tool_run sample_clock ''s'' (Some 3) close_args declared_store)) = ''error''" by code_simp
  with r have e: "tr_status res = ''error''" by simp
  have "live_of declared_store ''s'' 3 \<noteq> None" by (simp add: declared_live)
  then obtain d where "doc_of declared_store ''s'' = Some d" by (auto simp: live_of_def split: option.splits)
  with rejected_update_writes_nothing[OF r _ this] e r show ?thesis by (auto simp: state_result_def)
qed

text \<open>The tagged query of the sample turn is what closes its intent.\<close>

theorem resolve_evidence_sound_witness:
  "resolve_evidence ''i1'' ''completed'' [query_entry] 3 = Inr (''c1'', None, TAGGED) \<and>
   backed [query_entry] 3 ''completed'' (Some ''c1'') None"
proof -
  have r: "resolve_evidence ''i1'' ''completed'' [query_entry] 3 = Inr (''c1'', None, TAGGED)" by code_simp
  show ?thesis using resolve_evidence_sound[OF r] r by simp
qed

section \<open>The tag\<close>

text \<open>
  The tag never reaches a tool: a taggable call goes out with every argument it had except
  \<^verbatim>\<open>serves_intent\<close>, and a tag is recorded only when it names an intent of the live state; a
  dropped one never costs the call.
\<close>

theorem tag_is_stripped:
  assumes "split_serves_intent tool (PDict kvs) live = (args', tag, why)" and "tool \<in> set COMPLETION_EVIDENCE_TOOLS"
  shows "(\<exists>kvs'. args' = PDict kvs' \<and> dget kvs' SERVES_INTENT_ARG = None \<and>
      (\<forall>k. k \<noteq> SERVES_INTENT_ARG \<longrightarrow> dget kvs' k = dget kvs k)) \<and>
    (\<forall>t. tag = Some t \<longrightarrow> why = None \<and> (\<exists>a. live = Some a \<and> t \<in> ti_intent_id ` set (as_intents a)))"
proof -
  let ?f = "filter (\<lambda>(k, v). k \<noteq> SERVES_INTENT_ARG) kvs"
  have f: "dget ?f SERVES_INTENT_ARG = None \<and> (\<forall>k. k \<noteq> SERVES_INTENT_ARG \<longrightarrow> dget ?f k = dget kvs k)"
    by (induction kvs) auto
  have tag: "tag = Some t \<Longrightarrow> why = None \<and> (\<exists>a. live = Some a \<and> t \<in> ti_intent_id ` set (as_intents a))" for t
    using assms by (auto simp: split_serves_intent_def Let_def split: option.splits if_splits pyval.splits)
  have "\<exists>kvs'. args' = PDict kvs' \<and> (kvs' = ?f \<or> kvs' = kvs \<and> dget kvs SERVES_INTENT_ARG = None)"
    using assms by (auto simp: split_serves_intent_def Let_def split: option.splits if_splits pyval.splits)
  with f tag show ?thesis by auto
qed

theorem tag_is_stripped_witness:
  "split_serves_intent ''runQuery'' (PDict [(''sql'', PStr ''q''), (''serves_intent'', PStr '' i1 '')])
     (Some \<lparr>as_turn_index = 3, as_intents = [declared_intent]\<rparr>) = (PDict [(''sql'', PStr ''q'')], Some ''i1'', None) \<and>
   (\<exists>a. Some \<lparr>as_turn_index = 3, as_intents = [declared_intent]\<rparr> = Some a \<and> ''i1'' \<in> ti_intent_id ` set (as_intents a))"
proof -
  have r: "split_serves_intent ''runQuery'' (PDict [(''sql'', PStr ''q''), (''serves_intent'', PStr '' i1 '')])
     (Some \<lparr>as_turn_index = 3, as_intents = [declared_intent]\<rparr>) = (PDict [(''sql'', PStr ''q'')], Some ''i1'', None)"
    by code_simp
  have "''runQuery'' \<in> set COMPLETION_EVIDENCE_TOOLS" by (simp add: COMPLETION_EVIDENCE_TOOLS_def)
  from tag_is_stripped[OF r this] r show ?thesis by blast
qed

end
