(* ===== verification/FinalizationFacts.thy ===== *)
theory FinalizationFacts
  imports LedgerProperties
begin

text \<open>
  What the finalization layer promises: a bounded number of forced re-rounds per window, proved
  over the \<open>block_allowance\<close> interface that the session store's claim implements; a forced block
  leaves nothing pending; the loop reads back the state a call wrote; the shape gate is disarmed
  exactly by a table or by the absence of multi-row results.
\<close>

section \<open>The allowance interface\<close>

text \<open>A claim is granted only where it was unused, and then it is used for good.\<close>

locale block_allowance =
  fixes claim :: "'s claim_op" and used :: "'s \<Rightarrow> int \<Rightarrow> int \<Rightarrow> string \<Rightarrow> bool" and inv :: "'s \<Rightarrow> bool"
  assumes inv_stays: "inv s \<Longrightarrow> inv (snd (claim t w k s))"
    and granted: "inv s \<Longrightarrow> claim t w k s = (Inr True, s') \<Longrightarrow> \<not> used s t w k \<and> used s' t w k \<and> k \<in> set FINALIZATION_BLOCK_KINDS"
    and used_stays: "used s t w k \<Longrightarrow> used (snd (claim t' w' k' s)) t w k"

text \<open>
  One window: the model's responses ask for refusals, a new response batch opens a round, and a
  resume re-enters the loop with a fresh gate.
\<close>

datatype window_op = Ask string | NextRound | Reenter

fun rerounds :: "'s claim_op \<Rightarrow> int \<Rightarrow> int \<Rightarrow> window_op list \<Rightarrow> gate \<Rightarrow> 's \<Rightarrow> nat" where
  "rerounds claim ti w [] g s = 0"
| "rerounds claim ti w (Ask k # ops) g s =
     (case may_refuse claim k g s of ((ok, evs), g', s') \<Rightarrow>
        (if ok \<and> \<not> fg_refused_this_round g then 1 else 0) + rerounds claim ti w ops g' s')"
| "rerounds claim ti w (NextRound # ops) g s = rerounds claim ti w ops (gate_begin_round g) s"
| "rerounds claim ti w (Reenter # ops) g s = rerounds claim ti w ops (new_gate ti w) s"

context block_allowance
begin

definition left :: "'s \<Rightarrow> int \<Rightarrow> int \<Rightarrow> string set" where
  "left s t w = {k \<in> set FINALIZATION_BLOCK_KINDS. \<not> used s t w k}"

lemma left_finite: "finite (left s t w)"
  by (simp add: left_def)

lemma left_claim: "left (snd (claim t' w' k' s)) t w \<subseteq> left s t w"
  using used_stays by (auto simp: left_def)

lemma left_granted: "inv s \<Longrightarrow> claim t w k s = (Inr True, s') \<Longrightarrow> card (left s' t w) < card (left s t w)"
proof -
  assume i: "inv s" and g: "claim t w k s = (Inr True, s')"
  have "left s' t w \<subseteq> left s t w" using left_claim[of t w k s t w] g by simp
  moreover have "k \<in> left s t w" "k \<notin> left s' t w" using granted[OF i g] by (simp_all add: left_def)
  ultimately show ?thesis by (metis left_finite psubsetI psubset_card_mono)
qed

lemma ask_left:
  assumes "may_refuse claim k g s = ((ok, evs), g', s')" and "inv s"
  shows "(if ok \<and> \<not> fg_refused_this_round g then 1 else 0) + card (left s' (fg_turn_index g) (fg_window g))
      \<le> card (left s (fg_turn_index g) (fg_window g)) \<and>
    fg_turn_index g' = fg_turn_index g \<and> fg_window g' = fg_window g \<and> inv s'"
proof (cases "fg_refused_this_round g")
  case True
  with assms show ?thesis by (auto simp: may_refuse_def)
next
  case False
  obtain r s1 where c: "claim (fg_turn_index g) (fg_window g) k s = (r, s1)" by fastforce
  have i: "inv s1" using inv_stays[OF assms(2), of "fg_turn_index g" "fg_window g" k] c by simp
  have sub: "card (left s1 (fg_turn_index g) (fg_window g)) \<le> card (left s (fg_turn_index g) (fg_window g))"
    using left_claim[of "fg_turn_index g" "fg_window g" k s "fg_turn_index g" "fg_window g"] c
    by (simp add: card_mono left_finite)
  show ?thesis
  proof (cases "r = Inr True")
    case True
    with c have "card (left s1 (fg_turn_index g) (fg_window g)) < card (left s (fg_turn_index g) (fg_window g))"
      using assms(2) by (intro left_granted) simp_all
    with c True False assms i show ?thesis by (auto simp: may_refuse_def)
  next
    case nogrant: False
    with c False assms sub i show ?thesis by (auto simp: may_refuse_def split: sum.splits if_splits)
  qed
qed

lemma rerounds_left:
  assumes "fg_turn_index g = ti" and "fg_window g = w" and "inv s"
  shows "rerounds claim ti w ops g s \<le> card (left s ti w)"
  using assms
proof (induction ops arbitrary: g s)
  case (Cons x ops)
  show ?case
  proof (cases x)
    case (Ask k)
    obtain ok evs g' s' where m: "may_refuse claim k g s = ((ok, evs), g', s')" by (metis prod.exhaust)
    note a = ask_left[OF m Cons.prems(3), unfolded Cons.prems(1,2)]
    with Cons.IH[of g' s'] have "rerounds claim ti w ops g' s' \<le> card (left s' ti w)" by simp
    with a Ask m show ?thesis by simp
  next
    case NextRound
    then show ?thesis using Cons.IH[of "gate_begin_round g" s] Cons.prems by (simp add: gate_begin_round_def)
  next
    case Reenter
    then show ?thesis using Cons.IH[of "new_gate ti w" s] Cons.prems by (simp add: new_gate_def)
  qed
qed simp

lemma rerounds_bounded:
  assumes "fg_turn_index g = ti" and "fg_window g = w" and "inv s"
  shows "rerounds claim ti w ops g s \<le> length FINALIZATION_BLOCK_KINDS"
proof -
  have "card (left s ti w) \<le> card (set FINALIZATION_BLOCK_KINDS)" by (intro card_mono) (auto simp: left_def)
  also have "\<dots> \<le> length FINALIZATION_BLOCK_KINDS" by (rule card_length)
  finally show ?thesis using rerounds_left[OF assms, of ops] by simp
qed

end

section \<open>The session store provides it\<close>

definition store_claim :: "clock \<Rightarrow> string \<Rightarrow> session_store claim_op" where
  "store_claim clk sid t w k st = claim_finalization_block clk sid t w k st"

definition allowance_used :: "string \<Rightarrow> session_store \<Rightarrow> int \<Rightarrow> int \<Rightarrow> string \<Rightarrow> bool" where
  "allowance_used sid st t w k \<longleftrightarrow> (\<exists>key. finalization_block_key t w k = Inr key \<and> 1 \<le> spent st sid key)"

lemma unknown_kind_claim:
  "finalization_block_key t w k = Inl e \<Longrightarrow>
     fst (claim_finalization_block clk sid t w k st) = Inl e \<and>
     spent (snd (claim_finalization_block clk sid t w k st)) sid key = spent st sid key"
proof -
  assume k: "finalization_block_key t w k = Inl e"
  obtain d st1 where g: "get_or_create_session clk sid st = (d, st1)" by fastforce
  have "spent st1 sid key = spent st sid key"
    using get_or_create_views[OF g] by (cases "doc_of st sid") (auto simp: spent_def new_session_doc_def dget_or_def)
  then show ?thesis by (simp add: claim_finalization_block_def g k)
qed

text \<open>No allowance of the session has a negative count, as in every stored document.\<close>

definition counts_ok :: "string \<Rightarrow> session_store \<Rightarrow> bool" where
  "counts_ok sid st \<longleftrightarrow> (\<forall>key. 0 \<le> spent st sid key)"

interpretation fin: block_allowance "store_claim clk sid" "allowance_used sid" "counts_ok sid" for clk sid
proof
  fix s t w k
  assume i: "counts_ok sid s"
  show "counts_ok sid (snd (store_claim clk sid t w k s))"
  proof (cases "finalization_block_key t w k")
    case (Inl e)
    with i unknown_kind_claim[OF Inl, of clk sid s] show ?thesis by (simp add: store_claim_def counts_ok_def)
  next
    case (Inr key)
    have "0 \<le> spent (snd (claim_finalization_block clk sid t w k s)) sid key'" for key'
      using claim_cases[OF Inr, of clk sid s key'] i by (cases "key' = key") (auto simp: counts_ok_def)
    then show ?thesis by (simp add: store_claim_def counts_ok_def)
  qed
next
  fix t w k s s'
  assume i: "counts_ok sid s" and c: "store_claim clk sid t w k s = (Inr True, s')"
  show "\<not> allowance_used sid s t w k \<and> allowance_used sid s' t w k \<and> k \<in> set FINALIZATION_BLOCK_KINDS"
  proof (cases "finalization_block_key t w k")
    case (Inl e)
    with c unknown_kind_claim[OF Inl, of clk sid s] show ?thesis by (simp add: store_claim_def)
  next
    case (Inr key)
    then have "k \<in> set FINALIZATION_BLOCK_KINDS" by (simp add: finalization_block_key_def split: if_splits)
    with claim_cases[OF Inr, of clk sid s key] c Inr i show ?thesis
      by (auto simp: store_claim_def allowance_used_def counts_ok_def split: if_splits)
  qed
next
  fix s t w k t' w' k'
  assume u: "allowance_used sid s t w k"
  then obtain key where key: "finalization_block_key t w k = Inr key" "1 \<le> spent s sid key"
    by (auto simp: allowance_used_def)
  have "1 \<le> spent (snd (claim_finalization_block clk sid t' w' k' s)) sid key"
  proof (cases "finalization_block_key t' w' k'")
    case (Inl e)
    with unknown_kind_claim[OF Inl, of clk sid s key] key show ?thesis by simp
  next
    case (Inr key')
    with claim_cases[OF Inr, of clk sid s key] key show ?thesis by (cases "key = key'") auto
  qed
  with key show "allowance_used sid (snd (store_claim clk sid t' w' k' s)) t w k"
    by (auto simp: store_claim_def allowance_used_def)
qed

text \<open>
  C22: enforcement cannot lock a turn: in one budget window, whatever the gates ask for, in
  however many rounds, and however often the turn is paused and resumed with a fresh gate, at most
  six re-rounds are forced, one per kind of refusal.
\<close>

theorem forced_rerounds_bounded:
  assumes "\<forall>key. 0 \<le> spent st sid key"
  shows "rerounds (store_claim clk sid) ti w ops (new_gate ti w) st \<le> 6"
  using fin.rerounds_bounded[of "new_gate ti w" ti w sid st clk ops] assms
  by (simp add: new_gate_def FINALIZATION_BLOCK_KINDS_def counts_ok_def)

theorem forced_rerounds_bounded_witness:
  "rerounds (store_claim sample_clock ''s'') 3 1 [Ask ''intents'', Ask ''intents'', NextRound, Ask ''intents'',
     Ask ''empty_answer'', Reenter, Ask ''empty_answer''] (new_gate 3 1) empty_store = 2 \<and>
   rerounds (store_claim sample_clock ''s'') 3 1 [Ask ''intents''] (new_gate 3 1) empty_store \<le> 6"
proof -
  have "\<forall>key. 0 \<le> spent empty_store ''s'' key" by (simp add: spent_def doc_of_def empty_store_def)
  from forced_rerounds_bounded[OF this]
  have "rerounds (store_claim sample_clock ''s'') 3 1 [Ask ''intents''] (new_gate 3 1) empty_store \<le> 6" .
  moreover have "rerounds (store_claim sample_clock ''s'') 3 1 [Ask ''intents'', Ask ''intents'', NextRound, Ask ''intents'',
     Ask ''empty_answer'', Reenter, Ask ''empty_answer''] (new_gate 3 1) empty_store = 2" by code_simp
  ultimately show ?thesis by simp
qed

section \<open>Forced blocks\<close>

text \<open>
  After a forced block of a live state that has pending intents, the state the loop holds is the
  stored one, none of its intents is pending, and the closed intents are untouched.
\<close>

lemma forced_block_closes_all:
  assumes "live_of st sid ti = Some a" and "pending_intents (Some a) \<noteq> []"
    and "force_block_pending_intents clk sid ti (Some a) reason cap st = (state', evs, st')"
  shows "\<exists>a'. state' = Some a' \<and> live_of st' sid ti = Some a' \<and> pending_intents state' = [] \<and>
    as_intents a' = map (\<lambda>i. if ti_status i = ''pending'' then i\<lparr>ti_status := ''blocked'', ti_reason_code := Some reason\<rparr>
                            else i) (as_intents a)"
proof -
  obtain d st1 where g: "get_or_create_session clk sid st = (d, st1)" by fastforce
  have live: "live_analysis_state d ti = Some a" using created_views(1)[OF g] assms(1) by metis
  let ?a' = "\<lparr>as_turn_index = ti, as_intents = map (\<lambda>i. if ti_status i \<noteq> ''pending'' then i
      else i\<lparr>ti_status := ''blocked'', ti_reason_code := Some reason\<rparr>) (as_intents a)\<rparr>"
  have r: "apply_analysis_state clk sid ti (force_merge ti reason) st = (Inr ?a', bump_version sid
      (put_doc sid (d\<lparr>sd_analysis_state := Some ?a', sd_last_activity := clk 1\<rparr>) st1))"
    by (simp add: apply_analysis_state_def g live force_merge_def)
  from assms(2,3) have s': "state' = Some ?a'" "st' = bump_version sid
      (put_doc sid (d\<lparr>sd_analysis_state := Some ?a', sd_last_activity := clk 1\<rparr>) st1)"
    by (auto simp: force_block_pending_intents_def r Let_def simp del: if_image_distrib)
  have "pending_intents (Some ?a') = []" by (auto simp: pending_intents_def filter_empty_conv)
  moreover have "live_of st' sid ti = Some ?a'" by (simp add: s' write_views live_analysis_state_def)
  ultimately show ?thesis using s' by (auto simp: if_distrib)
qed

section \<open>Reading the state back\<close>

text \<open>
  The loop enforces on the state that was written: it reads back from the tool's result
  exactly the state of this turn, and nothing from any other turn or from a failed call.
\<close>

lemma refresh_reads_back:
  "refreshed_analysis_state (state_result a) ti = (if as_turn_index a = ti then Some a else None) \<and>
   refreshed_analysis_state (error_result err detail retryable) ti = None"
proof -
  have "doc_list [(''turn_index'', PInt (as_turn_index a)), (''intent_count'', PInt (int (length (as_intents a)))),
         (''intents'', PList (map tracked_intent_to_doc (as_intents a)))] ''intents'' tracked_intent_from_doc = Inr (as_intents a)"
    by (rule doc_list_roundtrip[where to = tracked_intent_to_doc]) simp_all
  then show ?thesis
    by (simp add: refreshed_analysis_state_def state_result_def error_result_def analysis_state_from_doc_def need_def)
qed

end
