(* ===== verification/BlueprintGate.thy ===== *)
theory BlueprintGate
  imports AnswerTables
begin

text \<open>
  The gate in front of \<^verbatim>\<open>runBlueprint\<close>, \<^verbatim>\<open>runtime/loop/blueprint_gate.py\<close>: a blueprint runs only when its
  definition was read earlier in the turn, in a round before the current one. What a round reads is
  held back until the round is committed.
\<close>

record blueprint_gate =
  bp_definitions_read :: "string set"
  bp_expanded_this_round :: "string set"

definition new_blueprint_gate :: blueprint_gate where
  "new_blueprint_gate = \<lparr>bp_definitions_read = {}, bp_expanded_this_round = {}\<rparr>"

definition BLUEPRINT_DEFINITION_NOT_READ_CODE :: string where
  "BLUEPRINT_DEFINITION_NOT_READ_CODE = ''BLUEPRINT_DEFINITION_NOT_READ''"

definition definition_not_read_detail :: "string \<Rightarrow> string" where
  "definition_not_read_detail bid =
     ''You have not read blueprint '' @ [CHR 0x27] @ bid @ [CHR 0x27] @ '' in this turn, so you do not '' @
     ''know what it actually measures '' @ em_dash @ '' a card'' @ [CHR 0x27] @ ''s intent line is authored prose, '' @
     ''the SQL is the analysis. Call getBlueprint('' @ [CHR 0x27] @ bid @ [CHR 0x27] @ '') first, then '' @
     ''run it, and check what it does answers what was asked before you do.''"

definition blueprint_definition_not_read :: "string \<Rightarrow> tool_result" where
  "blueprint_definition_not_read bid =
     \<lparr>tr_status = ''error'', tr_tool_name = ''runBlueprint'', tr_error_code = Some BLUEPRINT_DEFINITION_NOT_READ_CODE,
      tr_retryable = Some True, tr_user_message = Some (definition_not_read_detail bid), tr_provenance = Some {||},
      tr_result_preview = None, tr_result_full = PNone, tr_authoritative = False,
      tr_denial_detail = Some (definition_not_read_detail bid), tr_window_note = None\<rparr>"

definition with_id :: "pyval \<Rightarrow> string set \<Rightarrow> string set" where
  "with_id raw ids = (case clean_blueprint_id raw of None \<Rightarrow> ids | Some b \<Rightarrow> insert b ids)"

definition observe_prior_definition_read :: "pyval \<Rightarrow> blueprint_gate \<Rightarrow> blueprint_gate" where
  "observe_prior_definition_read raw g = g\<lparr>bp_definitions_read := with_id raw (bp_definitions_read g)\<rparr>"

definition bp_begin_round :: "blueprint_gate \<Rightarrow> blueprint_gate" where
  "bp_begin_round g = g\<lparr>bp_expanded_this_round := {}\<rparr>"

definition note_definition_in_context :: "pyval \<Rightarrow> blueprint_gate \<Rightarrow> blueprint_gate" where
  "note_definition_in_context raw g = g\<lparr>bp_expanded_this_round := with_id raw (bp_expanded_this_round g)\<rparr>"

definition not_read_event :: "string \<Rightarrow> string \<times> pydict" where
  "not_read_event bid = (''loop_blueprint_definition_not_read'',
     [(''tool_name'', PStr ''runBlueprint''), (''blueprint_id'', PStr bid), (''reason'', PStr ''no_get_blueprint_this_turn'')])"

text \<open>The refusal and its event, or nothing: the call may run.\<close>

definition check_run_blueprint :: "pydict \<Rightarrow> blueprint_gate \<Rightarrow> (tool_result \<times> (string \<times> pydict)) option" where
  "check_run_blueprint args g = (case clean_blueprint_id (getv args ''id'') of
     None \<Rightarrow> None
   | Some b \<Rightarrow> if b \<in> bp_definitions_read g then None
               else Some (blueprint_definition_not_read b, not_read_event b))"

definition commit_round :: "blueprint_gate \<Rightarrow> blueprint_gate" where
  "commit_round g = g\<lparr>bp_definitions_read := bp_definitions_read g \<union> bp_expanded_this_round g\<rparr>"

end
