(* ===== verification/TurnLoop.thy ===== *)
theory TurnLoop
  imports ContextAssembly AnswerJudge AnswerScrub TurnAccumulators FinalizationFacts BlueprintGate
begin

text \<open>
  One turn of the agent, \<^verbatim>\<open>AgentLoop\<close> of \<^verbatim>\<open>runtime/loop/agent_loop.py\<close>, as state passing programs over
  the conversation store and the window's locals: the request, the model's reply, the gates of a prose
  answer, the drained tool calls, the three ways to pause and the ways to finish. The model client, the
  dispatcher, the runtime tools other than \<^verbatim>\<open>updateAnalysisState\<close>, the discovery provider, the
  executor's resume, the clocks and the id generator are parameters that read and change the world.
  The tracing spans, the log lines and the best-effort progress summaries are left out.
\<close>

section \<open>What goes in and comes out\<close>

record model_call =
  mc_id :: string
  mc_name :: string
  mc_arguments :: pydict

record model_reply =
  mr_text :: "string option"
  mr_calls :: "model_call list"
  mr_total_tokens :: int
  mr_incomplete_reason :: "string option"

record tool_pause =
  tp_reason :: string
  tp_pending_question :: pydict
  tp_blueprint_id :: "string option"
  tp_slot_bindings_json :: "string option"
  tp_completed_nodes_json :: "string option"
  tp_awaiting_node :: "int option"

record turn_outcome =
  to_status :: string
  to_text :: "string option"
  to_pending_question :: "pydict option"
  to_calls_made :: nat
  to_sql_executed :: "pyval list option"
  to_envelope :: answer_envelope
  to_provenance :: "prov option"
  to_assumptions :: "string list option"

definition no_envelope :: answer_envelope where
  "no_envelope = answer_envelope_of [] None None"

text \<open>A handler's or the dispatcher's run: the result and its pause, the events, or an exception.\<close>

type_synonym 'w tool_work = "'w \<Rightarrow> ((tool_result \<times> tool_pause option) result \<times> event list) \<times> 'w"

record 'w turn_config = "'w request_config" +
  tc_tools :: "'w \<Rightarrow> pyval list result \<times> 'w"
  tc_send :: "pyval list \<Rightarrow> message list \<Rightarrow> 'w \<Rightarrow> model_reply result \<times> 'w"
  tc_discovery :: "('w \<Rightarrow> (pydict list \<times> read_signature set) option result \<times> 'w) option"
  tc_state_tool :: bool
  tc_handlers :: "string \<Rightarrow> (pydict \<Rightarrow> int \<Rightarrow> 'w tool_work) option"
  tc_dispatch :: "string \<Rightarrow> pydict \<Rightarrow> string \<Rightarrow> string option \<Rightarrow> 'w tool_work"
  tc_sql_provenance :: "'w \<Rightarrow> string \<Rightarrow> prov option"
  tc_hooks :: answer_table_hooks
  tc_resume_blueprint :: "(pause_checkpoint \<Rightarrow> pydict \<Rightarrow> string \<Rightarrow> 'w tool_work) option"
  tc_loads :: "string \<Rightarrow> pyval result"
  tc_judge :: "(bool \<times> nat \<times> (judge_site \<Rightarrow> string \<Rightarrow> 'w \<Rightarrow> judge_send \<times> 'w)) option"
  tc_judge_headroom :: rat
  tc_monotonic :: "'w \<Rightarrow> rat \<times> 'w"
  tc_uuid :: "'w \<Rightarrow> string \<times> 'w"
  tc_max_iterations :: int
  tc_max_wall_clock :: rat
  tc_max_windows :: int
  tc_max_tokens :: "int option"
  tc_max_calls :: nat

text \<open>The window's locals, beside the store, the world, the events and the two memos of the request.\<close>

record 'w turn_state = "'w request_state" +
  tn_guard :: budget_guard
  tn_reads :: read_guard
  tn_blueprints :: blueprint_gate
  tn_shape :: answer_shape
  tn_gate :: gate
  tn_accum :: accumulators
  tn_analysis :: "analysis_state option"
  tn_calls_made :: nat
  tn_last_text :: "string option"
  tn_nudge :: "string option"
  tn_notes :: "string list"
  tn_substantive :: bool
  tn_designated :: "string option"
  tn_judge_refusal :: "string option"
  tn_state_calls :: nat

type_synonym ('w, 'a) turn = "('w turn_state, turn_outcome, 'a) prog"

section \<open>Effects\<close>

definition ask_world :: "('w \<Rightarrow> 'a result \<times> 'w) \<Rightarrow> ('w, 'a) turn" where
  "ask_world f = and_then (consult f) lift"

definition now_iso :: "'w turn_config \<Rightarrow> ('w, string) turn" where
  "now_iso cf = and_then (consult (am_now cf)) (\<lambda>clk. pure (clk 0))"

definition writing :: "'w turn_config \<Rightarrow> (clock \<Rightarrow> string \<Rightarrow> session_store \<Rightarrow> session_store) \<Rightarrow> ('w, unit) turn" where
  "writing cf f = and_then (consult (am_now cf)) (\<lambda>clk. on_store (\<lambda>st. ((), f clk (am_session cf) st)))"

definition conversation :: "'w turn_config \<Rightarrow> ('w, session_doc) turn" where
  "conversation cf = session_of cf"

definition trail_read :: "'w turn_config \<Rightarrow> ('w, trail_entry list) turn" where
  "trail_read cf = read (\<lambda>s. load_trail (am_session cf) (rq_store s))"

definition over_budget :: "'w turn_config \<Rightarrow> ('w, bool) turn" where
  "over_budget cf = and_then (consult (tc_monotonic cf)) (\<lambda>now. read (\<lambda>s. exceeded now (tn_guard s)))"

text \<open>The gate's claim, through the store, with its events.\<close>

definition refuse_once :: "'w turn_config \<Rightarrow> string \<Rightarrow> ('w, bool) turn" where
  "refuse_once cf kind = and_then (consult (am_now cf)) (\<lambda>clk.
     \<lambda>s. case may_refuse (store_claim clk (am_session cf)) kind (tn_gate s) (rq_store s) of
           ((granted, evs), g, st) \<Rightarrow>
             (Next granted, s\<lparr>tn_gate := g, rq_store := st, rq_events := rq_events s @ evs\<rparr>))"

definition force_blocked :: "'w turn_config \<Rightarrow> int \<Rightarrow> string \<Rightarrow> bool \<Rightarrow> ('w, unit) turn" where
  "force_blocked cf ti reason cap = and_then (consult (am_now cf)) (\<lambda>clk.
     \<lambda>s. case force_block_pending_intents clk (am_session cf) ti (tn_analysis s) reason cap (rq_store s) of
           (a, evs, st) \<Rightarrow> (Next (), s\<lparr>tn_analysis := a, rq_store := st, rq_events := rq_events s @ evs\<rparr>))"

section \<open>What the turn's trail says\<close>

definition turn_entries :: "int \<Rightarrow> trail_entry list \<Rightarrow> trail_entry list" where
  "turn_entries ti trail = filter (\<lambda>e. te_turn_index e = ti) trail"

text \<open>One undetermined entry makes the union undetermined; two data-free kinds of entry do not count.\<close>

definition data_free_entry :: "trail_entry \<Rightarrow> bool" where
  "data_free_entry e \<longleftrightarrow> te_status e = ''ok'' \<and>
     (te_error_code e = Some ALREADY_SERVED_CODE \<or> te_tool_name e = ''recordAssumptions'')"

definition turn_provenance_union :: "int \<Rightarrow> trail_entry list \<Rightarrow> prov option" where
  "turn_provenance_union ti trail = fold (\<lambda>e acc. if data_free_entry e then acc
       else case (acc, te_provenance e) of (Some u, Some p) \<Rightarrow> Some (u |\<union>| p) | _ \<Rightarrow> None)
     (turn_entries ti trail) (Some {||})"

definition turn_assumptions :: "int \<Rightarrow> trail_entry list \<Rightarrow> string list" where
  "turn_assumptions ti trail = fold (\<lambda>e acc. if te_status e = ''ok'' \<and> te_tool_name e = ''recordAssumptions''
       then fold_assumptions acc (getv (te_args e) ''assumptions'') else acc) (turn_entries ti trail) []"

definition blueprint_result :: "pyval \<Rightarrow> tool_result" where
  "blueprint_result full = \<lparr>tr_status = ''ok'', tr_tool_name = ''runBlueprint'', tr_error_code = None,
     tr_retryable = None, tr_user_message = None, tr_provenance = None, tr_result_preview = None,
     tr_result_full = full, tr_authoritative = False, tr_denial_detail = None, tr_window_note = None\<rparr>"

fun turn_runs :: "session_store \<Rightarrow> string \<Rightarrow> trail_entry list \<Rightarrow> (string, blueprint_run) dict \<Rightarrow>
    (string, blueprint_run) dict result" where
  "turn_runs st sid [] runs = Inr runs"
| "turn_runs st sid (e # es) runs =
     (case (if te_tool_name e = ''runBlueprint'' then Option.bind (te_result_full_ref e) (\<lambda>ref. read_full_result sid ref st)
            else None) of
        Some (PDict d) \<Rightarrow> rbind (capture_terminal_sql ''runBlueprint'' (blueprint_result (PDict d)) (te_args e) runs)
          (turn_runs st sid es)
      | _ \<Rightarrow> turn_runs st sid es runs)"

definition replayed_tables :: "(string, blueprint_run) dict \<Rightarrow> trail_entry \<Rightarrow> answer_table list" where
  "replayed_tables runs e =
     (let f = finalize_designations (dg_items (resolve_designations (PDict (te_args e)) (terminal_sql_by_id runs)));
          prov_at = (\<lambda>i. case te_answer_table_provenance e of None \<Rightarrow> None
            | Some ps \<Rightarrow> if i < length ps then ps ! i else None)
      in map (\<lambda>(i, t). enrich_table t runs (prov_at i)) (enumerate 0 (fz_tables f)))"

text \<open>The last call that designated a table wins.\<close>

definition turn_answer_tables :: "session_store \<Rightarrow> string \<Rightarrow> int \<Rightarrow>
    (answer_table list \<times> (string, blueprint_run) dict) result" where
  "turn_answer_tables st sid ti =
     (let es = filter (\<lambda>e. te_status e = ''ok'') (turn_entries ti (load_trail sid st)) in
      rbind (turn_runs st sid es []) (\<lambda>runs. Inr (fold (\<lambda>e acc.
        if te_tool_name e = ANSWER_TABLE_TOOL_NAME \<and> replayed_tables runs e \<noteq> [] then replayed_tables runs e else acc) es [], runs)))"

definition first_user_question :: "turn_message list \<Rightarrow> int \<Rightarrow> string option" where
  "first_user_question ms ti = map_option tm_content (find (\<lambda>m. tm_turn_index m = ti \<and> tm_role m = ''user'') ms)"

section \<open>Ending and pausing\<close>

definition redacted :: "nat \<Rightarrow> string \<Rightarrow> event list" where
  "redacted n exit = (if n = 0 then []
     else [(''loop_answer_prose_redacted'', [(''redaction_count'', PInt (int n)), (''exit'', PStr exit)])])"

definition outcome :: "string \<Rightarrow> string option \<Rightarrow> pydict option \<Rightarrow> prov option \<Rightarrow> nat \<Rightarrow> accumulators \<Rightarrow> turn_outcome" where
  "outcome status t question p made a = \<lparr>to_status = status, to_text = t, to_pending_question = question,
     to_calls_made = made, to_sql_executed = sql_executed a, to_envelope = envelope a, to_provenance = p,
     to_assumptions = assumptions_of a\<rparr>"

definition persist_answer :: "'w turn_config \<Rightarrow> int \<Rightarrow> prov option \<Rightarrow> string option \<Rightarrow> ('w, unit) turn" where
  "persist_answer cf ti p text = (case text of None \<Rightarrow> pure ()
     | Some t \<Rightarrow> and_then (now_iso cf) (\<lambda>ts. writing cf (\<lambda>clk sid. append_message clk sid
         \<lparr>tm_turn_index = ti, tm_role = ''assistant'', tm_content = t, tm_ts = ts, tm_provenance = p\<rparr>)))"

text \<open>The scrub comes first, so that what is returned and what is persisted are one text.\<close>

definition finish :: "'w turn_config \<Rightarrow> int \<Rightarrow> string \<Rightarrow> string \<Rightarrow> string option \<Rightarrow> pause_checkpoint option \<Rightarrow>
    prov option \<Rightarrow> bool \<Rightarrow> event \<Rightarrow> ('w, 'a) turn" where
  "finish cf ti status exit text checkpoint p persist ev =
     (case scrub_answer_prose text p of (clean, n) \<Rightarrow>
      and_then (case checkpoint of None \<Rightarrow> pure ()
        | Some c \<Rightarrow> writing cf (\<lambda>clk sid. write_pause_checkpoint clk sid c)) (\<lambda>_.
      and_then (if persist then persist_answer cf ti p clean else pure ()) (\<lambda>_.
      and_then (emit (redacted n exit @ [ev])) (\<lambda>_.
      and_then (read (\<lambda>s. outcome status clean (Option.bind checkpoint pc_pending_question) p (tn_calls_made s) (tn_accum s)))
        return))))"

definition pause_question :: "pydict \<Rightarrow> pyval" where
  "pause_question q = (case dget q ''question'' of None \<Rightarrow> PStr [] | Some v \<Rightarrow> v)"

definition pause_from_runtime_tool :: "'w turn_config \<Rightarrow> tool_pause \<Rightarrow> int \<Rightarrow> string option \<Rightarrow> string option \<Rightarrow>
    (pydict option \<Rightarrow> string option \<Rightarrow> turn_outcome) \<Rightarrow> ('w, 'a) turn" where
  "pause_from_runtime_tool cf p w text serves result =
     (let c = \<lparr>pc_reason = tp_reason p, pc_pending_question = Some (tp_pending_question p), pc_awaiting = ''user_answer'',
            pc_consumed = False, pc_budget_window_count = w, pc_blueprint_id = tp_blueprint_id p,
            pc_slot_bindings_json = tp_slot_bindings_json p, pc_completed_nodes_json = tp_completed_nodes_json p,
            pc_awaiting_node = tp_awaiting_node p, pc_serves_intent = serves\<rparr> in
      case scrub_answer_prose text None of (clean, n) \<Rightarrow>
      and_then (writing cf (\<lambda>clk sid. write_pause_checkpoint clk sid c)) (\<lambda>_.
      and_then (emit (redacted n ''pause'' @
          [(''loop_paused_ask_user'', [(''question'', pause_question (tp_pending_question p))])])) (\<lambda>_.
      return (result (pc_pending_question c) clean))))"

definition plain_checkpoint :: "string \<Rightarrow> pydict \<Rightarrow> int \<Rightarrow> pause_checkpoint" where
  "plain_checkpoint reason question w = \<lparr>pc_reason = reason, pc_pending_question = Some question,
     pc_awaiting = ''user_answer'', pc_consumed = False, pc_budget_window_count = w, pc_blueprint_id = None,
     pc_slot_bindings_json = None, pc_completed_nodes_json = None, pc_awaiting_node = None, pc_serves_intent = None\<rparr>"

section \<open>The judge\<close>

definition judge_skipped :: "string \<Rightarrow> event" where
  "judge_skipped reason = (''loop_answer_judge_skipped'', [(''reason'', PStr reason)])"

definition judge_would_run :: "'w turn_config \<Rightarrow> string \<Rightarrow> ('w, bool) turn" where
  "judge_would_run cf kind =
     (if tc_judge cf = None then pure False
      else and_then (read (\<lambda>s. has_spent kind (tn_gate s))) (\<lambda>is_spent.
        if is_spent then and_then (emit [judge_skipped ''allowance_spent'']) (\<lambda>_. pure False)
        else and_then (consult (tc_monotonic cf)) (\<lambda>now.
          and_then (read (\<lambda>s. usage now (tn_guard s))) (\<lambda>u.
          if bu_max_wall_clock_seconds u - bu_elapsed_seconds u < tc_judge_headroom cf
          then and_then (emit [judge_skipped ''wall_clock'']) (\<lambda>_. pure False) else pure True))))"

text \<open>A review that does not return is the exception \<open>OtherError ''no return''\<close>, which nothing here catches.\<close>

definition judge :: "'w turn_config \<Rightarrow> ('w, judge_brief) turn \<Rightarrow> string \<Rightarrow> ('w, judge_verdict) turn" where
  "judge cf make_brief kind = and_then (judge_would_run cf kind) (\<lambda>runs.
     if \<not> runs then pure APPROVED
     else and_then (catching make_brief) (\<lambda>b. case b of
       Inl e \<Rightarrow> and_then (emit [judge_failed ''brief_failed'']) (\<lambda>_. pure APPROVED)
     | Inr brief \<Rightarrow> (case tc_judge cf of None \<Rightarrow> pure APPROVED
         | Some (enabled, budget, send) \<Rightarrow>
             and_then (ask_world (\<lambda>w. case review enabled budget send brief w of
               None \<Rightarrow> (Inl (OtherError ''no return''), w) | Some (r, w') \<Rightarrow> (Inr r, w'))) (\<lambda>(verdict, evs).
             and_then (emit evs) (\<lambda>_. pure verdict)))))"

definition judge_results :: "'w turn_config \<Rightarrow> int \<Rightarrow> ('w, pydict list \<times> string option \<times> trail_entry list) turn" where
  "judge_results cf ti = and_then (conversation cf) (\<lambda>doc.
     let in_scope = filter_trail (sd_tool_trail doc) (am_scope cf) None
     in pure (map (render_entry (am_preview_rows cf)) (filter (\<lambda>e. te_turn_index e = ti \<and> te_status e = ''ok'' \<and>
            te_tool_name e \<in> set DATA_ANSWER_TOOLS) in_scope),
          turn_date_anchor_day (sd_messages doc) ti, in_scope))"

definition MAX_CORROBORATION_READS :: nat where
  "MAX_CORROBORATION_READS = 4"

definition full_result_refs :: "int \<Rightarrow> trail_entry list \<Rightarrow> string list" where
  "full_result_refs ti trail = concat (map (\<lambda>e. case te_result_full_ref e of None \<Rightarrow> [] | Some r \<Rightarrow> [r])
     (filter (\<lambda>e. te_turn_index e = ti \<and> te_status e = ''ok'' \<and> te_tool_name e \<in> set DATA_ANSWER_TOOLS) trail))"

definition corroborated_figures :: "'w turn_config \<Rightarrow> int \<Rightarrow> string \<Rightarrow> trail_entry list \<Rightarrow> ('w, bool option) turn" where
  "corroborated_figures cf ti prose trail =
     (let figures = reported_figures prose in
      read (\<lambda>s. if figures \<noteq> [] \<and> list_ex (\<lambda>ref. case read_full_result (am_session cf) ref (rq_store s) of
            None \<Rightarrow> False
          | Some full \<Rightarrow> list_ex (\<lambda>f. sublist f (strip_commas (json_dumps full))) figures)
          (take MAX_CORROBORATION_READS (full_result_refs ti trail))
        then Some True else None))"

definition judge_brief_of :: "judge_site \<Rightarrow> string option \<Rightarrow> accumulators \<Rightarrow> analysis_state option \<Rightarrow> judge_brief" where
  "judge_brief_of site question a state = \<lparr>jb_site = site, jb_question = question, jb_date_anchor = None,
     jb_intents = (case state of None \<Rightarrow> [] | Some l \<Rightarrow>
       map (\<lambda>i. (ti_intent_id i, ti_description i, ti_status i, ti_reason_code i)) (as_intents l)),
     jb_assumptions = ac_assumptions a, jb_sql_executed = ac_sql a, jb_results = [], jb_draft = [],
     jb_designated_tables = [], jb_figure_corroborated = None, jb_pending_question = []\<rparr>"

definition answer_brief :: "'w turn_config \<Rightarrow> judge_site \<Rightarrow> int \<Rightarrow> string option \<Rightarrow> string \<Rightarrow> (string option \<times> string) list \<Rightarrow>
    ('w, judge_brief) turn" where
  "answer_brief cf site ti question draft tables =
     and_then (judge_results cf ti) (\<lambda>(results, anchor, in_scope).
     and_then (corroborated_figures cf ti draft in_scope) (\<lambda>corroborated.
     read (\<lambda>s. (judge_brief_of site question (tn_accum s) (tn_analysis s))
       \<lparr>jb_date_anchor := anchor, jb_draft := draft, jb_results := results, jb_designated_tables := tables,
        jb_figure_corroborated := corroborated\<rparr>)))"

section \<open>One tool call\<close>

definition runtime_tool_error :: "string \<Rightarrow> string \<Rightarrow> string \<Rightarrow> tool_result" where
  "runtime_tool_error tool error_code message = \<lparr>tr_status = ''error'', tr_tool_name = tool,
     tr_error_code = Some error_code, tr_retryable = Some False, tr_user_message = Some message, tr_provenance = None,
     tr_result_preview = None, tr_result_full = PNone, tr_authoritative = False, tr_denial_detail = None,
     tr_window_note = None\<rparr>"

definition RUNTIME_TOOL_UNAVAILABLE :: "string \<Rightarrow> (string \<times> string) option" where
  "RUNTIME_TOOL_UNAVAILABLE tool =
     (if tool = ''resolveValues'' then Some (''RESOLVE_VALUES_UNAVAILABLE'', ''Value resolution is not available right now.'')
      else if tool \<in> {''searchBlueprints'', ''getBlueprint'', ''searchKnowledge''}
      then Some (''RETRIEVAL_TOOL_UNAVAILABLE'', ''Blueprint and knowledge search is not available right now.'')
      else if tool = ''runBlueprint''
      then Some (''RUN_BLUEPRINT_UNAVAILABLE'',
        ''The blueprint fast path is not available right now '' @ em_dash @ '' answer from the raw tools.'')
      else None)"

definition runtime_tool_internal_error :: "string \<Rightarrow> tool_result" where
  "runtime_tool_internal_error tool =
     runtime_tool_error tool INTERNAL_ERROR_CODE ''That tool hit an internal error. Please try again.''"

text \<open>A handler that raises is contained; its provenance is typed here, so the sanitiser keeps it.\<close>

definition run_runtime_tool :: "(pydict \<Rightarrow> int \<Rightarrow> 'w tool_work) \<Rightarrow> string \<Rightarrow> pydict \<Rightarrow> int \<Rightarrow>
    ('w, tool_result \<times> tool_pause option) turn" where
  "run_runtime_tool handler tool args ti =
     and_then (consult (handler args ti)) (\<lambda>(r, evs).
     and_then (emit evs) (\<lambda>_. pure (case r of
       Inl e \<Rightarrow> (runtime_tool_internal_error tool, None) | Inr x \<Rightarrow> x)))"

text \<open>The state tool runs on the store itself; beyond two calls of a reply it is not run.\<close>

definition MAX_SURPLUS_STATE_REJECTIONS :: nat where
  "MAX_SURPLUS_STATE_REJECTIONS = 2"

definition run_state_tool :: "'w turn_config \<Rightarrow> int \<Rightarrow> pydict \<Rightarrow> ('w, tool_result) turn" where
  "run_state_tool cf ti args = and_then (consult (am_now cf)) (\<lambda>clk.
     \<lambda>s. case update_tool_run clk (am_session cf) (Some ti) (PDict args) (rq_store s) of
           (r, evs, st) \<Rightarrow> (Next r, s\<lparr>rq_store := st, rq_events := rq_events s @ evs\<rparr>))"

definition state_call :: "'w turn_config \<Rightarrow> int \<Rightarrow> pydict \<Rightarrow> ('w, tool_result) turn" where
  "state_call cf ti args =
     and_then (modify (\<lambda>s. s\<lparr>tn_state_calls := tn_state_calls s + 1\<rparr>)) (\<lambda>_.
     and_then (read tn_state_calls) (\<lambda>n.
     if MAX_STATE_CALLS < n
     then and_then (emit [(''loop_analysis_state_rejected'',
        [(''reason'', PStr ''surplus_state_call''), (''intent_count'', PInt 0)])]) (\<lambda>_. pure surplus_state_call_rejected)
     else if tc_state_tool cf then run_state_tool cf ti args
     else pure (runtime_tool_internal_error UPDATE_TOOL_NAME)))"

text \<open>Two of the runtime tools are pure and always wired; the others are parameters.\<close>

definition pure_tool :: "(pyval \<Rightarrow> tool_result) \<Rightarrow> pydict \<Rightarrow> int \<Rightarrow> 'w tool_work" where
  "pure_tool f args ti w = ((Inr (f (PDict args), None), []), w)"

definition handler_of :: "'w turn_config \<Rightarrow> string \<Rightarrow> (pydict \<Rightarrow> int \<Rightarrow> 'w tool_work) option" where
  "handler_of cf tool =
     (if tool = ANSWER_TABLE_TOOL_NAME then Some (pure_tool answer_with_table_run)
      else if tool = ''recordAssumptions'' then Some (pure_tool record_assumptions_run)
      else tc_handlers cf tool)"

definition gate_refusal :: "'w turn_config \<Rightarrow> string \<Rightarrow> pydict \<Rightarrow> ('w, tool_result option) turn" where
  "gate_refusal cf tool args =
     (if tool = ''runBlueprint'' \<and> handler_of cf tool \<noteq> None
      then and_then (read (\<lambda>s. check_run_blueprint args (tn_blueprints s))) (\<lambda>refused. case refused of
          None \<Rightarrow> pure None
        | Some (r, ev) \<Rightarrow> and_then (emit [ev]) (\<lambda>_. pure (Some r)))
      else pure None)"

definition execute_call :: "'w turn_config \<Rightarrow> int \<Rightarrow> string option \<Rightarrow> model_call \<Rightarrow> pydict \<Rightarrow>
    ('w, tool_result \<times> tool_pause option) turn" where
  "execute_call cf ti question c args =
     and_then (gate_refusal cf (mc_name c) args) (\<lambda>refused. case refused of
       Some r \<Rightarrow> pure (r, None)
     | None \<Rightarrow>
         if mc_name c = UPDATE_TOOL_NAME then and_then (state_call cf ti args) (\<lambda>r. pure (r, None))
         else (case handler_of cf (mc_name c) of
             Some handler \<Rightarrow> run_runtime_tool handler (mc_name c) args ti
           | None \<Rightarrow> (case RUNTIME_TOOL_UNAVAILABLE (mc_name c) of
               Some (error_code, message) \<Rightarrow> pure (runtime_tool_error (mc_name c) error_code message, None)
             | None \<Rightarrow>
                 and_then (consult (tc_dispatch cf (mc_name c) args (mc_id c) question)) (\<lambda>(r, evs).
                 and_then (emit evs) (\<lambda>_. lift r)))))"

definition refresh_state :: "int \<Rightarrow> model_call \<Rightarrow> tool_result \<Rightarrow> ('w, unit) turn" where
  "refresh_state ti c r = (case (if mc_name c = UPDATE_TOOL_NAME then refreshed_analysis_state r ti else None) of
     None \<Rightarrow> pure () | Some a \<Rightarrow> modify (\<lambda>s. s\<lparr>tn_analysis := Some a\<rparr>))"

section \<open>The gates of an answer with tables\<close>

definition answers :: "model_call \<Rightarrow> tool_result \<Rightarrow> pydict \<Rightarrow> bool" where
  "answers c r args \<longleftrightarrow> mc_name c = ANSWER_TABLE_TOOL_NAME \<and> tr_status r = ''ok'' \<and>
     clean_answer_text (getv args ''answer'') \<noteq> None"

definition intents_exhausted :: "nat \<Rightarrow> event" where
  "intents_exhausted n = (''loop_enforcement_exhausted'', [(''intent_count'', PInt (int n))])"

definition intents_refused :: "string \<Rightarrow> nat \<Rightarrow> event" where
  "intents_refused exit n = (''loop_finalization_refused'', [(''exit'', PStr exit), (''pending_count'', PInt (int n))])"

definition shape_refused :: "nat \<Rightarrow> event" where
  "shape_refused n = (''loop_answer_shape_refused'', [(''multi_row_calls'', PInt (int n))])"

definition shape_exhausted :: event where
  "shape_exhausted = (''loop_answer_shape_exhausted'', [])"

definition judge_outcome :: "string \<Rightarrow> string \<Rightarrow> judge_verdict \<Rightarrow> event" where
  "judge_outcome name site v = (name, (''violation'', PStr (jv_violation v)) #
     (if site = [] then [] else [(''site'', PStr site)]))"

text \<open>Pending intents: refused once, then blocked by the runtime.\<close>

definition table_intents_gate :: "'w turn_config \<Rightarrow> int \<Rightarrow> model_call \<Rightarrow> pydict \<Rightarrow> tool_result \<Rightarrow> ('w, tool_result) turn" where
  "table_intents_gate cf ti c args r =
     and_then (read (\<lambda>s. pending_intents (tn_analysis s))) (\<lambda>pending.
     if \<not> answers c r args \<or> pending = [] then pure r
     else and_then (refuse_once cf ''intents'') (\<lambda>granted.
       if granted then and_then (emit [intents_refused ''answer_with_table'' (length pending)]) (\<lambda>_.
          pure (finalization_blocked pending))
       else and_then (force_blocked cf ti ''ENFORCEMENT_EXHAUSTED'' False) (\<lambda>_.
          and_then (emit [intents_exhausted (length pending)]) (\<lambda>_. pure r))))"

definition uncovered_intents :: "analysis_state \<Rightarrow> answer_table list \<Rightarrow> (string, string) dict \<Rightarrow> nat" where
  "uncovered_intents a tables sql_by_call = length (filter (\<lambda>i. ti_status i = ''completed'' \<and>
     (case Option.bind (ti_evidence i) (dget sql_by_call) of None \<Rightarrow> False | Some q \<Rightarrow> q \<notin> set (map at_sql tables)))
     (as_intents a))"

definition observe_uncovered_intents :: "answer_table list \<Rightarrow> ('w, unit) turn" where
  "observe_uncovered_intents tables =
     and_then (read (\<lambda>s. case tn_analysis s of None \<Rightarrow> 0
       | Some a \<Rightarrow> uncovered_intents a tables (ac_result_sql_by_call_id (tn_accum s)))) (\<lambda>n.
     emit (if n = 0 then [] else [(''loop_answer_table_intent_uncovered'', [(''intent_count'', PInt (int n))])]))"

definition answer_table_blueprint_not_run :: "string \<Rightarrow> tool_result" where
  "answer_table_blueprint_not_run bid =
     (let lead = ''You referenced blueprint '' @ [CHR 0x27] @ bid @ [CHR 0x27] @ '', but you have not run it in '' @
            ''this turn, so there is no table to show. Call runBlueprint with ''
      in (refusal ''ANSWER_TABLE_BLUEPRINT_NOT_RUN''
           (lead @ [CHR 0x27] @ bid @ [CHR 0x27] @ '' first, then call answerWithTable again.''))
         \<lparr>tr_user_message := Some (lead @ ''that blueprint first, then call answerWithTable again.'')\<rparr>)"

text \<open>The designated tables: an unknown blueprint refuses the call, a call that names no table may be refused.\<close>

definition resolve_call :: "'w turn_config \<Rightarrow> int \<Rightarrow> pydict \<Rightarrow> ('w, resolved_call) turn" where
  "resolve_call cf ti args = and_then (read (\<lambda>s. resolve_answer_tables (tc_hooks cf)
      (compute_scope_hash (am_sha256 cf) {am_session cf}) ti (tc_sql_provenance cf (rq_world s)) (am_scope cf)
      (ac_blueprint_runs (tn_accum s)) (PDict args))) (\<lambda>rc.
     and_then (emit (rc_events rc)) (\<lambda>_. pure rc))"

definition table_designation_gate :: "'w turn_config \<Rightarrow> int \<Rightarrow> model_call \<Rightarrow> pydict \<Rightarrow> tool_result \<Rightarrow>
    ('w, tool_result \<times> answer_table list) turn" where
  "table_designation_gate cf ti c args r =
     (if mc_name c \<noteq> ANSWER_TABLE_TOOL_NAME \<or> tr_status r \<noteq> ''ok'' then pure (r, [])
      else and_then (resolve_call cf ti args) (\<lambda>rc.
        and_then (read (\<lambda>s. sh_multi_row_calls (tn_shape s))) (\<lambda>multi.
        case rc_unresolved rc of
          Some b \<Rightarrow> pure (answer_table_blueprint_not_run b, rc_tables rc)
        | None \<Rightarrow>
            if \<not> rc_carried rc \<and> multi \<noteq> 0 \<and> clean_answer_text (getv args ''answer'') \<noteq> None
            then and_then (refuse_once cf ''answer_shape'') (\<lambda>granted.
              if granted then and_then (emit [shape_refused multi]) (\<lambda>_. pure (answer_table_no_table_designated, rc_tables rc))
              else and_then (emit [shape_exhausted]) (\<lambda>_. pure (r, rc_tables rc)))
            else and_then (observe_uncovered_intents (rc_tables rc)) (\<lambda>_. pure (r, rc_tables rc)))))"

text \<open>The judge of an answer with tables. A rejected answer is rejected again in the same round.\<close>

definition table_judge_gate :: "'w turn_config \<Rightarrow> int \<Rightarrow> string option \<Rightarrow> model_call \<Rightarrow> pydict \<Rightarrow> answer_table list \<Rightarrow>
    tool_result \<Rightarrow> ('w, tool_result) turn" where
  "table_judge_gate cf ti question c args tables r =
     (if \<not> answers c r args then pure r
      else and_then (read (\<lambda>s. (tn_judge_refusal s, fg_refused_this_round (tn_gate s)))) (\<lambda>(refusal, refused).
        case refusal of Some feedback \<Rightarrow> pure (answer_judge_rejected feedback)
        | None \<Rightarrow> if refused then and_then (emit [judge_skipped ''round_refused'']) (\<lambda>_. pure r)
          else and_then (judge cf (answer_brief cf ExitTable ti question (or_empty (clean_answer_text (getv args ''answer'')))
                (map (\<lambda>t. (at_caption t, at_sql t)) tables)) ''answer_judge'') (\<lambda>v.
            if jv_approved v then pure r
            else and_then (refuse_once cf ''answer_judge'') (\<lambda>granted.
              if granted then and_then (emit [judge_outcome ''loop_answer_judge_refused'' ''exit_table'' v]) (\<lambda>_.
                and_then (modify (\<lambda>s. s\<lparr>tn_judge_refusal := Some (jv_feedback v)\<rparr>)) (\<lambda>_.
                pure (answer_judge_rejected (jv_feedback v))))
              else and_then (emit [judge_outcome ''loop_answer_judge_exhausted'' ''exit_table'' v]) (\<lambda>_. pure r)))))"

section \<open>Draining the calls of a reply\<close>

definition SUBSTANTIVE_TOOLS :: "string list" where
  "SUBSTANTIVE_TOOLS = [''runQuery'', ''runBlueprint'', ''sampleRows'', ''resolveValues'']"

definition substantive_entry :: "model_call \<Rightarrow> ('w, unit) turn" where
  "substantive_entry c = modify (\<lambda>s. if mc_name c \<in> set SUBSTANTIVE_TOOLS then s\<lparr>tn_substantive := True\<rparr> else s)"

text \<open>The intent tag is split off; a dropped tag is reported, and once a round explained to the model.\<close>

definition split_tag :: "model_call \<Rightarrow> ('w, pydict \<times> string option) turn" where
  "split_tag c = and_then (read (\<lambda>s. split_serves_intent (mc_name c) (PDict (mc_arguments c)) (tn_analysis s)))
     (\<lambda>(args, tag, dropped).
       and_then (case dropped of None \<Rightarrow> pure ()
         | Some reason \<Rightarrow>
             and_then (emit [(''loop_intent_tag_dropped'', [(''tool_name'', PStr (mc_name c)), (''reason'', PStr reason)])]) (\<lambda>_.
             modify (\<lambda>s. if reason = ''no_live_state'' \<and> tn_notes s = [] then s\<lparr>tn_notes := [mc_id c]\<rparr> else s)))
         (\<lambda>_. pure (dict_items args, tag)))"

definition classify_read :: "model_call \<Rightarrow> pydict \<Rightarrow> ('w, read_decision) turn" where
  "classify_read c args s = (case classify (mc_name c) args (tn_reads s) of
     (d, g) \<Rightarrow> (Next d, s\<lparr>tn_reads := g\<lparr>rg_events := []\<rparr>, rq_events := rq_events s @ rg_events g\<rparr>))"

definition note_definition :: "model_call \<Rightarrow> pydict \<Rightarrow> ('w, unit) turn" where
  "note_definition c args = modify (\<lambda>s. if mc_name c = ''getBlueprint''
     then s\<lparr>tn_blueprints := note_definition_in_context (getv args ''id'') (tn_blueprints s)\<rparr> else s)"

definition count_call :: "('w, unit) turn" where
  "count_call = modify (\<lambda>s. s\<lparr>tn_calls_made := tn_calls_made s + 1\<rparr>)"

definition append_entry :: "'w turn_config \<Rightarrow> (string \<Rightarrow> trail_entry) \<Rightarrow> ('w, unit) turn" where
  "append_entry cf entry = and_then (now_iso cf) (\<lambda>ts. writing cf (\<lambda>clk sid. append_trail_entry clk sid (entry ts)))"

definition declined_entry :: "int \<Rightarrow> model_call \<Rightarrow> pydict \<Rightarrow> string option \<Rightarrow> string \<Rightarrow> trail_entry" where
  "declined_entry ti c args tag ts = \<lparr>te_turn_index = ti, te_tool_call_id = mc_id c, te_tool_name = mc_name c,
     te_args = args, te_status = ''ok'', te_error_code = Some ALREADY_SERVED_CODE, te_provenance = None,
     te_result_preview = None, te_result_full_ref = None, te_ts = ts, te_authoritative = False,
     te_denial_detail = None, te_serves_intent = tag, te_answer_table_provenance = None, te_window_note = None\<rparr>"

definition result_entry :: "int \<Rightarrow> string \<Rightarrow> string \<Rightarrow> pydict \<Rightarrow> string option \<Rightarrow> tool_result \<Rightarrow> answer_table list \<Rightarrow>
    string option \<Rightarrow> string \<Rightarrow> trail_entry" where
  "result_entry ti cid tool args tag r tables ref ts = \<lparr>te_turn_index = ti, te_tool_call_id = cid, te_tool_name = tool,
     te_args = args, te_status = tr_status r, te_error_code = tr_error_code r, te_provenance = tr_provenance r,
     te_result_preview = tr_result_preview r, te_result_full_ref = ref, te_ts = ts, te_authoritative = tr_authoritative r,
     te_denial_detail = tr_denial_detail r, te_serves_intent = tag,
     te_answer_table_provenance = (if tables = [] then None else Some (map at_provenance tables)),
     te_window_note = tr_window_note r\<rparr>"

definition store_full_result :: "'w turn_config \<Rightarrow> tool_result \<Rightarrow> ('w, string option) turn" where
  "store_full_result cf r = (if tr_result_full r = PNone then pure None
     else and_then (consult (tc_uuid cf)) (\<lambda>i.
       and_then (on_store (write_full_result (am_session cf) i (tr_result_full r))) (\<lambda>ref. pure (Some ref))))"

text \<open>What the window remembers of a drained call.\<close>

definition fold_call :: "model_call \<Rightarrow> pydict \<Rightarrow> tool_result \<Rightarrow> answer_table list \<Rightarrow> ('w, unit) turn" where
  "fold_call c args r tables =
     and_then (read tn_accum) (\<lambda>a.
     and_then (lift (rbind (note_enrichment (mc_name c) args r a) (\<lambda>a1.
        rbind (capture_blueprint_run (mc_name c) r args a1) (note_result_sql (mc_name c) (mc_id c) args r)))) (\<lambda>a3.
     modify (\<lambda>s. s\<lparr>tn_shape := note_call (mc_name c) (tr_status r) (tr_result_preview r) (tn_shape s),
       tn_accum := note_answer_tables (mc_name c) r tables (note_assumptions (mc_name c) args r a3)\<rparr>)))"

definition note_answer :: "model_call \<Rightarrow> pydict \<Rightarrow> tool_result \<Rightarrow> answer_table list \<Rightarrow> ('w, unit) turn" where
  "note_answer c args r tables = modify (\<lambda>s.
     if mc_name c = ANSWER_TABLE_TOOL_NAME \<and> tr_status r = ''ok''
     then s\<lparr>tn_shape := (if tables \<noteq> [] \<or> has_answer_tables (tn_accum s) then note_answer_succeeded (tn_shape s) else tn_shape s),
            tn_designated := clean_answer_text (getv args ''answer'')\<rparr>
     else s)"

definition note_read :: "model_call \<Rightarrow> pydict \<Rightarrow> read_decision \<Rightarrow> tool_result \<Rightarrow> ('w, unit) turn" where
  "note_read c args d r = (if tr_status r \<noteq> ''ok'' then pure ()
     else and_then (modify (\<lambda>s. if is_idempotent_read d
          then s\<lparr>tn_reads := record_served d (mc_id c) (tn_reads s)\<rparr> else s)) (\<lambda>_. note_definition c args))"

definition declined_call :: "'w turn_config \<Rightarrow> int \<Rightarrow> model_call \<Rightarrow> pydict \<Rightarrow> string option \<Rightarrow> ('w, unit) turn" where
  "declined_call cf ti c args tag =
     and_then (note_definition c args) (\<lambda>_.
     and_then count_call (\<lambda>_.
     and_then (append_entry cf (declined_entry ti c args tag)) (\<lambda>_.
     emit [(''loop_repeated_idempotent_read_guarded'', repeated_read_guard_event (mc_name c) (mc_id c) args)])))"

text \<open>The three gates of an answer with tables; a refused call keeps no pause.\<close>

definition gated :: "'w turn_config \<Rightarrow> int \<Rightarrow> string option \<Rightarrow> model_call \<Rightarrow> pydict \<Rightarrow> tool_result \<Rightarrow>
    ('w, tool_result \<times> answer_table list) turn" where
  "gated cf ti question c args r =
     and_then (table_intents_gate cf ti c args r) (\<lambda>r1.
     and_then (table_designation_gate cf ti c args r1) (\<lambda>(r2, tables).
     and_then (table_judge_gate cf ti question c args tables r2) (\<lambda>r3. pure (r3, tables))))"

definition dispatched_call :: "'w turn_config \<Rightarrow> int \<Rightarrow> int \<Rightarrow> string option \<Rightarrow> model_reply \<Rightarrow> model_call \<Rightarrow> pydict \<Rightarrow>
    string option \<Rightarrow> read_decision \<Rightarrow> ('w, unit) turn" where
  "dispatched_call cf ti w question reply c args tag d =
     and_then (execute_call cf ti question c args) (\<lambda>(r0, pause0).
     and_then (refresh_state ti c r0) (\<lambda>_.
     and_then (gated cf ti question c args r0) (\<lambda>(r, tables).
     case (if r = r0 then pause0 else None) of
       Some p \<Rightarrow> and_then (read (\<lambda>s. (tn_calls_made s, tn_accum s))) (\<lambda>(made, a).
         pause_from_runtime_tool cf p w (mr_text reply) tag (\<lambda>q t. outcome ''paused_ask_user'' t q None made a))
     | None \<Rightarrow>
         and_then count_call (\<lambda>_.
         and_then (store_full_result cf r) (\<lambda>ref.
         and_then (append_entry cf (result_entry ti (mc_id c) (mc_name c) args tag r tables ref)) (\<lambda>_.
         and_then (fold_call c args r tables) (\<lambda>_.
         and_then (note_answer c args r tables) (\<lambda>_.
         note_read c args d r))))))))"

definition drain_one :: "'w turn_config \<Rightarrow> int \<Rightarrow> int \<Rightarrow> string option \<Rightarrow> model_reply \<Rightarrow> model_call \<Rightarrow> ('w, unit) turn" where
  "drain_one cf ti w question reply c =
     and_then (substantive_entry c) (\<lambda>_.
     and_then (split_tag c) (\<lambda>(args, tag).
     and_then (classify_read c args) (\<lambda>d.
     if rd_declined d then declined_call cf ti c args tag
     else dispatched_call cf ti w question reply c args tag d)))"

fun drain :: "'w turn_config \<Rightarrow> int \<Rightarrow> int \<Rightarrow> string option \<Rightarrow> model_reply \<Rightarrow> model_call list \<Rightarrow> ('w, unit) turn" where
  "drain cf ti w question reply [] = pure ()"
| "drain cf ti w question reply (c # cs) =
     and_then (drain_one cf ti w question reply c) (\<lambda>_.
     and_then (over_budget cf) (\<lambda>over. if over then pure () else drain cf ti w question reply cs))"

definition is_state_call :: "model_call \<Rightarrow> bool" where
  "is_state_call c \<longleftrightarrow> mc_name c = UPDATE_TOOL_NAME"

definition ask_user_call :: "model_reply \<Rightarrow> model_call option" where
  "ask_user_call reply = find (\<lambda>c. mc_name c = ''askUser'') (mr_calls reply)"

text \<open>State calls first and on their own cap; with an \<^verbatim>\<open>askUser\<close> in the reply nothing else runs.\<close>

definition capped_calls :: "'w turn_config \<Rightarrow> model_reply \<Rightarrow> model_call list" where
  "capped_calls cf reply =
     take (MAX_STATE_CALLS + MAX_SURPLUS_STATE_REJECTIONS) (filter is_state_call (mr_calls reply)) @
     (if ask_user_call reply \<noteq> None then []
      else take (tc_max_calls cf) (filter (Not \<circ> is_state_call) (mr_calls reply)))"

section \<open>The gates of a prose answer\<close>

text \<open>A granted refusal: its event, the nudge of the next round, and the draft is dropped.\<close>

definition refuse_draft :: "event \<Rightarrow> string \<Rightarrow> ('w, bool) turn" where
  "refuse_draft ev nudge = and_then (emit [ev]) (\<lambda>_.
     and_then (modify (\<lambda>s. s\<lparr>tn_nudge := Some nudge, tn_last_text := None\<rparr>)) (\<lambda>_. pure True))"

definition let_pass :: "event \<Rightarrow> ('w, bool) turn" where
  "let_pass ev = and_then (emit [ev]) (\<lambda>_. pure False)"

definition refuse_or_pass :: "'w turn_config \<Rightarrow> string \<Rightarrow> event \<Rightarrow> string \<Rightarrow> event \<Rightarrow> ('w, bool) turn" where
  "refuse_or_pass cf kind refused nudge exhausted =
     and_then (refuse_once cf kind) (\<lambda>granted. if granted then refuse_draft refused nudge else let_pass exhausted)"

text \<open>Pending intents take precedence over untabled results; only one of the two speaks.\<close>

definition ledger_gate :: "'w turn_config \<Rightarrow> int \<Rightarrow> model_reply \<Rightarrow> ('w, bool) turn" where
  "ledger_gate cf ti reply =
     and_then (read (\<lambda>s. (pending_intents (tn_analysis s), tn_shape s))) (\<lambda>(pending, shape).
     if pending \<noteq> []
     then and_then (refuse_once cf ''intents'') (\<lambda>granted.
       if granted
       then refuse_draft (intents_refused ''no_tool_calls'' (length pending)) (finalization_nudge_text (mr_text reply) pending)
       else and_then (force_blocked cf ti ''ENFORCEMENT_EXHAUSTED'' False) (\<lambda>_. let_pass (intents_exhausted (length pending))))
     else if armed shape
     then refuse_or_pass cf ''answer_shape'' (shape_refused (sh_multi_row_calls shape))
       (answer_shape_nudge_text (mr_text reply) (sh_multi_row_calls shape)) shape_exhausted
     else pure False)"

definition rules_gate :: "'w turn_config \<Rightarrow> model_reply \<Rightarrow> ('w, bool) turn" where
  "rules_gate cf reply =
     and_then (read (\<lambda>s. first_match (mr_text reply) (sql_executed (tn_accum s)))) (\<lambda>rule. case rule of
       None \<Rightarrow> pure False
     | Some r \<Rightarrow> refuse_or_pass cf (ar_charges_to r) (''loop_answer_rule_refused'', [(''rule'', PStr (ar_name r))])
         (ar_nudge r (mr_text reply)) (''loop_answer_rule_exhausted'', [(''rule'', PStr (ar_name r))]))"

definition no_words :: "string option \<Rightarrow> bool" where
  "no_words text \<longleftrightarrow> py_strip (or_empty text) = []"

definition silence_gate :: "'w turn_config \<Rightarrow> model_reply \<Rightarrow> ('w, bool) turn" where
  "silence_gate cf reply =
     (let payload = [(''incomplete_reason'', PStr (or_empty (mr_incomplete_reason reply)))] in
      if \<not> no_words (mr_text reply) then pure False
      else refuse_or_pass cf ''empty_answer'' (''loop_empty_answer_refused'', payload)
        (empty_answer_nudge_text (mr_incomplete_reason reply)) (''loop_empty_answer_exhausted'', payload))"

definition prose_judge_gate :: "'w turn_config \<Rightarrow> int \<Rightarrow> string option \<Rightarrow> model_reply \<Rightarrow> ('w, bool) turn" where
  "prose_judge_gate cf ti question reply =
     (if no_words (mr_text reply) then pure False
      else and_then (judge cf (answer_brief cf ExitProse ti question (or_empty (mr_text reply)) []) ''answer_judge'') (\<lambda>v.
        if jv_approved v then pure False
        else refuse_or_pass cf ''answer_judge'' (judge_outcome ''loop_answer_judge_refused'' ''exit_prose'' v)
          (answer_judge_nudge_text (mr_text reply) (jv_feedback v))
          (judge_outcome ''loop_answer_judge_exhausted'' ''exit_prose'' v)))"

text \<open>Each gate is asked only while none before it has refused.\<close>

definition or_else :: "('w, bool) turn \<Rightarrow> ('w, bool) turn \<Rightarrow> ('w, bool) turn" where
  "or_else m n = and_then m (\<lambda>refused. if refused then pure True else n)"

definition prose_gates :: "'w turn_config \<Rightarrow> int \<Rightarrow> string option \<Rightarrow> model_reply \<Rightarrow> ('w, bool) turn" where
  "prose_gates cf ti question reply =
     or_else (or_else (or_else (ledger_gate cf ti reply) (rules_gate cf reply)) (silence_gate cf reply))
       (prose_judge_gate cf ti question reply)"

definition EMPTY_ANSWER_FALLBACK_TEXT :: string where
  "EMPTY_ANSWER_FALLBACK_TEXT =
     ''I was not able to produce an answer for that '' @ em_dash @ '' my last two attempts came back '' @
     ''with nothing at all. Please send the question again; if it covered several '' @
     ''things at once, asking for one of them at a time is more likely to get through.''"

definition turn_done :: "nat \<Rightarrow> event" where
  "turn_done made = (''loop_turn_done'', [(''tool_calls_made'', PInt (int made))])"

definition finish_done :: "'w turn_config \<Rightarrow> int \<Rightarrow> string \<Rightarrow> string option \<Rightarrow> ('w, 'a) turn" where
  "finish_done cf ti exit text =
     and_then (trail_read cf) (\<lambda>trail.
     and_then (read tn_calls_made) (\<lambda>made.
     finish cf ti ''done'' exit text None (turn_provenance_union ti trail) True (turn_done made)))"

definition prose_exit :: "'w turn_config \<Rightarrow> int \<Rightarrow> string option \<Rightarrow> model_reply \<Rightarrow> ('w, unit) turn" where
  "prose_exit cf ti question reply =
     (if mr_calls reply \<noteq> [] then pure ()
      else and_then (prose_gates cf ti question reply) (\<lambda>refused.
        if refused then pure ()
        else finish_done cf ti ''no_tool_calls''
          (if no_words (mr_text reply) then Some EMPTY_ANSWER_FALLBACK_TEXT else mr_text reply)))"

section \<open>Pausing for the user\<close>

definition asked_question :: "model_call \<Rightarrow> string" where
  "asked_question c = (case dget (mc_arguments c) ''question'' of None \<Rightarrow> [] | Some v \<Rightarrow> py_str v)"

text \<open>\<open>True\<close>: the question was sent back, and the next round starts without a charge.\<close>

definition ask_user_exit :: "'w turn_config \<Rightarrow> int \<Rightarrow> int \<Rightarrow> string option \<Rightarrow> model_reply \<Rightarrow> model_call \<Rightarrow> ('w, bool) turn" where
  "ask_user_exit cf ti w question reply c =
     and_then (judge cf (read (\<lambda>s. (judge_brief_of AskUserSite question (tn_accum s) (tn_analysis s))
         \<lparr>jb_pending_question := asked_question c\<rparr>)) ''ask_user_judge'') (\<lambda>v.
     and_then (if jv_approved v then pure False
       else and_then (refuse_once cf ''ask_user_judge'') (\<lambda>granted.
         if granted then and_then (emit [judge_outcome ''loop_ask_user_judge_refused'' [] v]) (\<lambda>_.
           and_then (modify (\<lambda>s. s\<lparr>tn_nudge := Some (ask_user_judge_nudge_text (asked_question c) (jv_feedback v))\<rparr>)) (\<lambda>_.
           pure True))
         else and_then (emit [judge_outcome ''loop_ask_user_judge_exhausted'' [] v]) (\<lambda>_. pure False))) (\<lambda>sent_back.
     if sent_back then pure True
     else (case scrub_answer_prose (Some (asked_question c)) None of (clean, n) \<Rightarrow>
       and_then (emit (redacted n ''ask_user_question'')) (\<lambda>_.
       finish cf ti ''paused_ask_user'' ''pause'' (mr_text reply)
         (Some (plain_checkpoint ''askUser'' [(''question'', opt_str clean), (''options'', getv (mc_arguments c) ''options'')] w))
         None False (''loop_paused_ask_user'', [(''question'', opt_str clean)])))))"

section \<open>One round trip\<close>

definition begin_window_round :: "canonical_request \<Rightarrow> ('w, unit) turn" where
  "begin_window_round req = modify (\<lambda>s. s\<lparr>tn_nudge := None, tn_notes := [], tn_designated := None, tn_judge_refusal := None,
     tn_state_calls := 0, tn_reads := begin_round (cq_readable req) (tn_reads s),
     tn_blueprints := bp_begin_round (tn_blueprints s), tn_gate := gate_begin_round (tn_gate s)\<rparr>)"

definition end_drain :: "('w, unit) turn" where
  "end_drain = modify (\<lambda>s. s\<lparr>tn_notes := (if tn_substantive s then [] else tn_notes s),
     tn_blueprints := commit_round (tn_blueprints s)\<rparr>)"

definition BUDGET_CAP_QUESTION :: pydict where
  "BUDGET_CAP_QUESTION = [(''question'', PStr (''This is taking a while '' @ em_dash @ '' continue, refine, or stop?'')),
     (''options'', PList [PStr ''continue'', PStr ''refine'', PStr ''stop''])]"

text \<open>The charge of the round, and what an exceeded window does.\<close>

definition window_event :: "string \<Rightarrow> int \<Rightarrow> event" where
  "window_event name w = (name, [(''window'', PInt w)])"

definition settle_budget :: "'w turn_config \<Rightarrow> int \<Rightarrow> int \<Rightarrow> model_reply \<Rightarrow> ('w, unit) turn" where
  "settle_budget cf ti w reply =
     and_then (modify (\<lambda>s. s\<lparr>tn_guard := record_iteration (mr_total_tokens reply) (tn_guard s)\<rparr>)) (\<lambda>_.
     and_then (over_budget cf) (\<lambda>over.
     if \<not> over then pure ()
     else if tc_max_windows cf \<le> w
     then and_then (force_blocked cf ti ''BUDGET_EXHAUSTED'' False) (\<lambda>_.
       and_then (read tn_last_text) (\<lambda>t.
       finish cf ti ''stopped_hard_ceiling'' ''pause'' t None None False (window_event ''loop_hard_ceiling_stop'' w)))
     else and_then (read (\<lambda>s. fg_refused_this_round (tn_gate s))) (\<lambda>refused.
       and_then (if refused then force_blocked cf ti ''ENFORCEMENT_EXHAUSTED'' True else pure ()) (\<lambda>_.
       and_then (read tn_last_text) (\<lambda>t.
       finish cf ti ''paused_budget_cap'' ''pause'' t (Some (plain_checkpoint ''budget_cap'' BUDGET_CAP_QUESTION w)) None False
         (window_event ''loop_paused_budget_cap'' w))))))"

definition ask_model :: "'w turn_config \<Rightarrow> pyval list \<Rightarrow> message list \<Rightarrow> int \<Rightarrow> int \<Rightarrow> string option \<Rightarrow> ('w, model_reply) turn" where
  "ask_model cf tools discovery ti w question =
     and_then (read (\<lambda>s. (tn_nudge s, tn_notes s))) (\<lambda>(nudge, notes).
     and_then (build_canonical_messages cf ti question discovery nudge notes) (\<lambda>req.
     and_then (begin_window_round req) (\<lambda>_.
     and_then (emit [window_event ''loop_model_call_start'' w]) (\<lambda>_.
     and_then (ask_world (tc_send cf tools (cq_messages req))) (\<lambda>reply.
     and_then (modify (\<lambda>s. s\<lparr>tn_last_text := mr_text reply\<rparr>)) (\<lambda>_. pure reply))))))"

definition one_round :: "'w turn_config \<Rightarrow> pyval list \<Rightarrow> message list \<Rightarrow> int \<Rightarrow> int \<Rightarrow> string option \<Rightarrow> ('w, unit) turn" where
  "one_round cf tools discovery ti w question =
     and_then (ask_model cf tools discovery ti w question) (\<lambda>reply.
     and_then (prose_exit cf ti question reply) (\<lambda>_.
     and_then (drain cf ti w question reply (capped_calls cf reply)) (\<lambda>_.
     and_then end_drain (\<lambda>_.
     and_then (case ask_user_call reply of None \<Rightarrow> pure False
       | Some c \<Rightarrow> ask_user_exit cf ti w question reply c) (\<lambda>sent_back.
     if sent_back then pure ()
     else and_then (read tn_designated) (\<lambda>designated. case designated of
         Some t \<Rightarrow> finish_done cf ti ''answer_with_table'' (Some t)
       | None \<Rightarrow> settle_budget cf ti w reply))))))"

text \<open>\<^verbatim>\<open>while True\<close>, with fuel. What runs where it is spent is the parameter \<open>stuck\<close>: it never runs, given fuel enough.\<close>

fun rounds :: "('w, unit) turn \<Rightarrow> nat \<Rightarrow> 'w turn_config \<Rightarrow> pyval list \<Rightarrow> message list \<Rightarrow> int \<Rightarrow> int \<Rightarrow> string option \<Rightarrow> ('w, unit) turn" where
  "rounds stuck 0 cf tools discovery ti w question = stuck"
| "rounds stuck (Suc n) cf tools discovery ti w question =
     and_then (one_round cf tools discovery ti w question) (\<lambda>_. rounds stuck n cf tools discovery ti w question)"

section \<open>One window\<close>

text \<open>The emulated discovery: its messages, the call that serves each read, and the reads it answers.\<close>

definition served_read :: "pydict \<Rightarrow> (read_signature \<times> string) result" where
  "served_read e = rbind (as_str (getv e ''tool_name'')) (\<lambda>tool. rbind (as_str (getv e ''tool_call_id'')) (\<lambda>c.
     Inr (idempotent_read_signature tool (dict_items (or_empty_dict (getv e ''args''))), c)))"

definition discovered :: "'w turn_config \<Rightarrow> ('w, message list \<times> (read_signature, string) dict \<times> read_signature set) turn" where
  "discovered cf = (case tc_discovery cf of
     None \<Rightarrow> pure ([], [], {})
   | Some provider \<Rightarrow> and_then (consult provider) (\<lambda>found. case found of
       Inr (Some (entries, sigs)) \<Rightarrow> and_then (lift (mapM_r served_read entries)) (\<lambda>served.
         pure (concat (map (\<lambda>e. tool_trail_entry_to_canonical e []) entries), fold (\<lambda>(k, v). dset k v) served [], sigs))
     | _ \<Rightarrow> pure ([], [], {})))"

definition seed_reads :: "trail_entry list \<Rightarrow> read_guard \<Rightarrow> read_guard" where
  "seed_reads = fold (\<lambda>e. observe_prior_read (te_tool_name e) (te_args e) (te_tool_call_id e)
     (te_error_code e = Some ALREADY_SERVED_CODE))"

definition seed_blueprints :: "trail_entry list \<Rightarrow> blueprint_gate \<Rightarrow> blueprint_gate" where
  "seed_blueprints = fold (\<lambda>e g. if te_tool_name e = ''getBlueprint''
     then observe_prior_definition_read (getv (te_args e) ''id'') g else g)"

definition seed_shape :: "trail_entry list \<Rightarrow> answer_shape \<Rightarrow> answer_shape" where
  "seed_shape = fold (\<lambda>e. observe_prior_entry (te_tool_name e) (te_status e) (te_result_preview e))"

definition open_window :: "'w turn_config \<Rightarrow> int \<Rightarrow> int \<Rightarrow> accumulators \<Rightarrow> (read_signature, string) dict \<Rightarrow> read_signature set \<Rightarrow>
    ('w, unit) turn" where
  "open_window cf ti w a served sigs =
     and_then (consult (tc_monotonic cf)) (\<lambda>now.
     and_then (conversation cf) (\<lambda>doc.
     let prior = filter (\<lambda>e. te_turn_index e = ti \<and> te_status e = ''ok'') (sd_tool_trail doc) in
     modify (\<lambda>s. s\<lparr>rq_memo := [], rq_withheld := [],
       tn_guard := new_budget_guard (tc_max_iterations cf) (tc_max_wall_clock cf) (tc_max_tokens cf) now,
       tn_reads := seed_emulation sigs served (seed_reads prior new_read_guard),
       tn_blueprints := seed_blueprints prior new_blueprint_gate,
       tn_shape := seed_shape prior (new_answer_shape (has_answer_tables a)),
       tn_gate := new_gate ti w, tn_accum := a, tn_analysis := live_analysis_state doc ti,
       tn_calls_made := 0, tn_last_text := None, tn_nudge := None, tn_notes := [],
       tn_substantive := (find_locking_tool (sd_tool_trail doc) ti \<noteq> None),
       tn_designated := None, tn_judge_refusal := None, tn_state_calls := 0\<rparr>)))"

definition run_loop_body :: "('w, unit) turn \<Rightarrow> nat \<Rightarrow> 'w turn_config \<Rightarrow> int \<Rightarrow> int \<Rightarrow> string option \<Rightarrow> accumulators \<Rightarrow> ('w, unit) turn" where
  "run_loop_body stuck n cf ti w question a =
     and_then (ask_world (tc_tools cf)) (\<lambda>tools.
     and_then (discovered cf) (\<lambda>(discovery, served, sigs).
     and_then (open_window cf ti w a served sigs) (\<lambda>_.
     rounds stuck n cf tools discovery ti w question)))"

section \<open>A turn, and its resumption\<close>

definition next_turn_index :: "session_doc \<Rightarrow> int" where
  "next_turn_index doc = (if sd_messages doc = [] then 0 else tm_turn_index (last (sd_messages doc)) + 1)"

definition empty_accumulators :: accumulators where
  "empty_accumulators = new_accumulators [] [] [] None None []"

definition fresh_turn :: "('w, unit) turn \<Rightarrow> nat \<Rightarrow> 'w turn_config \<Rightarrow> string \<Rightarrow> session_doc \<Rightarrow> ('w, unit) turn" where
  "fresh_turn stuck n cf user_message doc =
     and_then (now_iso cf) (\<lambda>ts.
     and_then (writing cf (\<lambda>clk sid. append_message clk sid \<lparr>tm_turn_index = next_turn_index doc, tm_role = ''user'',
        tm_content = user_message, tm_ts = ts, tm_provenance = Some {||}\<rparr>)) (\<lambda>_.
     run_loop_body stuck n cf (next_turn_index doc) 1 (Some user_message) empty_accumulators))"

definition run_turn :: "('w, unit) turn \<Rightarrow> nat \<Rightarrow> 'w turn_config \<Rightarrow> string \<Rightarrow> ('w, unit) turn" where
  "run_turn stuck n cf user_message = and_then (conversation cf) (fresh_turn stuck n cf user_message)"

definition turn_seeds :: "'w turn_config \<Rightarrow> int \<Rightarrow> ('w, string list \<times> answer_table list \<times> (string, blueprint_run) dict) turn" where
  "turn_seeds cf ti =
     and_then (trail_read cf) (\<lambda>trail.
     and_then (read (\<lambda>s. turn_answer_tables (rq_store s) (am_session cf) ti)) (\<lambda>r.
     and_then (lift r) (\<lambda>(tables, runs). pure (turn_assumptions ti trail, tables, runs))))"

text \<open>The user stops at the budget cap: the turn ends here, outside every window.\<close>

definition stop_turn :: "'w turn_config \<Rightarrow> session_doc \<Rightarrow> int \<Rightarrow> ('w, 'a) turn" where
  "stop_turn cf doc ti =
     and_then (modify (\<lambda>s. s\<lparr>tn_analysis := live_analysis_state doc ti\<rparr>)) (\<lambda>_.
     and_then (force_blocked cf ti ''USER_STOPPED'' False) (\<lambda>_.
     and_then (turn_seeds cf ti) (\<lambda>(assumptions, tables, runs).
     and_then (trail_read cf) (\<lambda>trail.
     return (outcome ''done'' (Some (''Stopping here '' @ em_dash @ '' here is what I found before the budget cap.'')) None
       (turn_provenance_union ti trail) 0 (new_accumulators [] tables [] None None assumptions))))))"

definition dispatch_events :: "tool_result \<Rightarrow> event list" where
  "dispatch_events r = [(if tr_status r = ''ok'' then ''tool_dispatch_ok'' else ''tool_dispatch_error'',
     [(''tool_name'', PStr ''runBlueprint''), (''error_code'', opt_str (tr_error_code r))])]"

definition stored_bindings :: "'w turn_config \<Rightarrow> pause_checkpoint \<Rightarrow> pydict" where
  "stored_bindings cf c = (case tc_loads cf (if truthy_text (pc_slot_bindings_json c) then or_empty (pc_slot_bindings_json c) else ''{}'') of
     Inr (PDict d) \<Rightarrow> d | _ \<Rightarrow> [])"

definition resumed_pause :: "pydict option \<Rightarrow> string option \<Rightarrow> turn_outcome" where
  "resumed_pause q t = outcome ''paused_ask_user'' t q None 0 empty_accumulators"

definition resume_blueprint :: "('w, unit) turn \<Rightarrow> nat \<Rightarrow> 'w turn_config \<Rightarrow> (pause_checkpoint \<Rightarrow> pydict \<Rightarrow> string \<Rightarrow> 'w tool_work) \<Rightarrow>
    pause_checkpoint \<Rightarrow> string \<Rightarrow> int \<Rightarrow> int \<Rightarrow> ('w, unit) turn" where
  "resume_blueprint stuck n cf executor c answer ti w =
     (let bindings = stored_bindings cf c; args = [(''slot_bindings'', PDict bindings)];
          entry_args = [(''id'', opt_str (pc_blueprint_id c)), (''resumed'', PBool True)] in
      and_then (emit [(''tool_dispatch_start'', [(''tool_name'', PStr ''runBlueprint'')])]) (\<lambda>_.
      and_then (run_runtime_tool (\<lambda>a t. executor c a answer) ''runBlueprint'' bindings ti) (\<lambda>(r, pause).
      and_then (emit (dispatch_events r)) (\<lambda>_.
      case pause of
        Some p \<Rightarrow> pause_from_runtime_tool cf p w None (pc_serves_intent c) resumed_pause
      | None \<Rightarrow>
          and_then (lift (accumulate_enrichment ''runBlueprint'' args r [] None None)) (\<lambda>(sqls, use, verification).
          and_then (lift (capture_terminal_sql ''runBlueprint'' r args [])) (\<lambda>captured.
          and_then (store_full_result cf r) (\<lambda>ref.
          and_then (consult (tc_uuid cf)) (\<lambda>cid.
          and_then (append_entry cf (result_entry ti cid ''runBlueprint'' entry_args (pc_serves_intent c) r [] ref)) (\<lambda>_.
          and_then (conversation cf) (\<lambda>doc.
          and_then (turn_seeds cf ti) (\<lambda>(assumptions, tables, runs).
          run_loop_body stuck n cf ti w (first_user_question (sd_messages doc) ti)
            (new_accumulators sqls tables (fold (\<lambda>(k, v). dset k v) captured runs) use verification assumptions))))))))))))"

definition on_store_result :: "(session_store \<Rightarrow> 'a result \<times> session_store) \<Rightarrow> ('w, 'a) turn" where
  "on_store_result f = and_then (on_store f) lift"

definition stops :: "string \<Rightarrow> bool" where
  "stops answer \<longleftrightarrow> prefix ''stop'' (map lower_char (py_strip answer))"

text \<open>The checkpoint is consumed exactly once; the conversation before and after.\<close>

definition reopen :: "'w turn_config \<Rightarrow> string \<Rightarrow> ('w, session_doc \<times> session_doc) turn" where
  "reopen cf answer =
     and_then (consult (am_now cf)) (\<lambda>clk.
     and_then (on_store_result (get_session_with_cas clk (am_session cf))) (\<lambda>(doc0, cas).
     and_then (consult (am_now cf)) (\<lambda>clk'.
     and_then (on_store_result (resume_checkpoint clk' (am_session cf) cas answer)) (\<lambda>doc. pure (doc0, doc)))))"

definition turn_index_of :: "session_doc \<Rightarrow> int" where
  "turn_index_of doc = (if sd_messages doc = [] then 0 else tm_turn_index (last (sd_messages doc)))"

definition continue_turn :: "('w, unit) turn \<Rightarrow> nat \<Rightarrow> 'w turn_config \<Rightarrow> string \<Rightarrow> session_doc \<Rightarrow> session_doc \<Rightarrow> ('w, unit) turn" where
  "continue_turn stuck n cf answer doc0 doc =
     (let ti = turn_index_of doc;
          prior = (case sd_pause_checkpoint doc0 of None \<Rightarrow> 1 | Some c \<Rightarrow> pc_budget_window_count c);
          capped = (case sd_pause_checkpoint doc0 of None \<Rightarrow> False | Some c \<Rightarrow> pc_reason c = ''budget_cap'') in
      case (case sd_pause_checkpoint doc0 of None \<Rightarrow> None
            | Some c \<Rightarrow> if pc_blueprint_id c = None \<or> pc_awaiting_node c = None then None
                        else map_option (\<lambda>executor. (c, executor)) (tc_resume_blueprint cf)) of
        Some (c, executor) \<Rightarrow> resume_blueprint stuck n cf executor c answer ti prior
      | None \<Rightarrow>
          if capped \<and> stops answer then stop_turn cf doc ti
          else and_then (turn_seeds cf ti) (\<lambda>(assumptions, tables, runs).
            run_loop_body stuck n cf ti (if capped then prior + 1 else prior) (first_user_question (sd_messages doc) ti)
              (new_accumulators [] tables runs None None assumptions)))"

definition resume_turn :: "('w, unit) turn \<Rightarrow> nat \<Rightarrow> 'w turn_config \<Rightarrow> string \<Rightarrow> ('w, unit) turn" where
  "resume_turn stuck n cf answer = and_then (reopen cf answer) (\<lambda>(doc0, doc). continue_turn stuck n cf answer doc0 doc)"

end
