(* ===== verification/TurnLoopFacts.thy ===== *)
theory TurnLoopFacts
  imports TurnLoop
begin

text \<open>
  What every part of a turn keeps: most of it only writes to the conversation, the gates of an answer
  spend allowances and block intents, and the rounds charge the window. Each relation is a preorder, so
  the locale \<open>step_relation\<close> carries it through sequencing.
\<close>

section \<open>Three relations\<close>

definition steps :: "'w turn_config \<Rightarrow> int \<Rightarrow> 'w turn_state \<Rightarrow> 'w turn_state \<Rightarrow> bool" where
  "steps cf ti s t \<longleftrightarrow> turn_steps (am_session cf) ti (rq_store s) (rq_store t)"

definition live :: "'w turn_config \<Rightarrow> int \<Rightarrow> 'w turn_state \<Rightarrow> analysis_state option" where
  "live cf ti s = live_of (rq_store s) (am_session cf) ti"

definition steady :: "'w turn_config \<Rightarrow> int \<Rightarrow> 'w turn_state \<Rightarrow> 'w turn_state \<Rightarrow> bool" where
  "steady cf ti s t \<longleftrightarrow> steps cf ti s t \<and> tn_guard t = tn_guard s \<and>
     set (fg_granted_kinds (tn_gate s)) \<subseteq> set (fg_granted_kinds (tn_gate t))"

text \<open>The ledger, the gate and the designated answer are left alone.\<close>

definition quiet :: "'w turn_config \<Rightarrow> int \<Rightarrow> 'w turn_state \<Rightarrow> 'w turn_state \<Rightarrow> bool" where
  "quiet cf ti s t \<longleftrightarrow> steady cf ti s t \<and> live cf ti t = live cf ti s \<and> tn_analysis t = tn_analysis s \<and>
     tn_gate t = tn_gate s \<and> tn_designated t = tn_designated s"

lemma steps_refl [simp]: "steps cf ti s s"
  by (simp add: steps_def)

lemma steps_trans: "steps cf ti s t \<Longrightarrow> steps cf ti t u \<Longrightarrow> steps cf ti s u"
  by (auto simp: steps_def)

interpretation run: step_relation "steps cf ti" for cf ti
  by unfold_locales (auto intro: steps_trans)

interpretation hold: step_relation "steady cf ti" for cf ti
  by unfold_locales (auto simp: steady_def intro: steps_trans)

interpretation calm: step_relation "quiet cf ti" for cf ti
  by unfold_locales (auto simp: quiet_def steady_def intro: steps_trans)

lemma steady_steps: "steady cf ti s t \<Longrightarrow> steps cf ti s t"
  by (simp add: steady_def)

lemma quiet_steady: "quiet cf ti s t \<Longrightarrow> steady cf ti s t"
  by (simp add: quiet_def)

lemma stays_steady: "stays (quiet cf ti) m \<Longrightarrow> stays (steady cf ti) m"
  by (erule stays_mono) (rule quiet_steady)

section \<open>Quiet parts\<close>

lemma live_created: "live_of (snd (get_or_create_session clk sid st)) sid ti = live_of st sid ti"
  by (metis created_views(1,3) prod.collapse)

lemma live_mutate: "(\<And>d. sd_analysis_state (f d) = sd_analysis_state d) \<Longrightarrow> live_of (mutate clk sid f st) sid ti = live_of st sid ti"
  using created_views(1)[of clk sid st "fst (get_or_create_session clk sid st)" "snd (get_or_create_session clk sid st)" ti]
  by (simp add: mutate_def Let_def case_prod_unfold write_views live_analysis_state_def)

lemma live_writes [simp]:
  "live_of (append_message clk sid m st) sid ti = live_of st sid ti"
  "live_of (append_trail_entry clk sid e st) sid ti = live_of st sid ti"
  "live_of (write_pause_checkpoint clk sid c st) sid ti = live_of st sid ti"
  "live_of (snd (write_full_result sid i v st)) sid ti = live_of st sid ti"
  by (simp_all add: append_message_def append_trail_entry_def write_pause_checkpoint_def live_mutate)
    (simp add: write_full_result_def Let_def live_of_def doc_of_def)

lemma quiet_store:
  assumes "turn_step (am_session cf) ti (rq_store s) st" and "live_of st (am_session cf) ti = live cf ti s"
  shows "quiet cf ti s (s\<lparr>rq_store := st\<rparr>)"
  using assms by (auto simp: quiet_def steady_def steps_def live_def)

lemma quiet_locals:
  "rq_store t = rq_store s \<Longrightarrow> tn_guard t = tn_guard s \<Longrightarrow> tn_analysis t = tn_analysis s \<Longrightarrow> tn_gate t = tn_gate s \<Longrightarrow>
     tn_designated t = tn_designated s \<Longrightarrow> quiet cf ti s t"
  by (simp add: quiet_def steady_def steps_def live_def)

lemma stays_consult: "stays (quiet cf ti) (consult f)"
  by (auto simp: stays_def consult_def split: prod.splits intro!: quiet_locals)

lemma stays_emit: "stays (quiet cf ti) (emit evs)"
  unfolding emit_def by (rule stays_modify) (simp add: quiet_locals)

lemma stays_on_store:
  assumes "\<And>st. turn_step (am_session cf) ti st (snd (f st))" "\<And>st. live_of (snd (f st)) (am_session cf) ti = live_of st (am_session cf) ti"
  shows "stays (quiet cf ti) (on_store f)"
  unfolding stays_def on_store_def
  using assms by (auto split: prod.splits intro!: quiet_store simp: live_def) (metis snd_conv)+

lemmas quiet_rules = calm.stay_rules stays_consult stays_emit

lemma stays_conversation: "stays (quiet cf ti) (conversation cf)" and stays_session: "stays (quiet cf ti) (session_of cf)"
  unfolding conversation_def session_of_def
  by (intro quiet_rules stays_on_store turn_step.opened live_created)+

lemma stays_ask_world: "stays (quiet cf ti) (ask_world f)"
  unfolding ask_world_def by (intro quiet_rules)

lemma stays_now: "stays (quiet cf ti) (now_iso cf)"
  unfolding now_iso_def by (intro quiet_rules)

lemma stays_writing:
  assumes "\<And>clk st. turn_step (am_session cf) ti st (f clk (am_session cf) st)"
    and "\<And>clk st. live_of (f clk (am_session cf) st) (am_session cf) ti = live_of st (am_session cf) ti"
  shows "stays (quiet cf ti) (writing cf f)"
  unfolding writing_def by (intro quiet_rules stays_on_store) (simp_all add: assms)

lemma stays_over_budget: "stays (quiet cf ti) (over_budget cf)"
  unfolding over_budget_def by (intro quiet_rules)

lemma stays_trail: "stays (quiet cf ti) (trail_read cf)"
  unfolding trail_read_def by (intro quiet_rules)

lemma stays_catching: "stays (quiet cf ti) m \<Longrightarrow> stays (quiet cf ti) (catching m)"
  by (auto simp: stays_def catching_def split: prod.splits flow.splits) (metis snd_conv fst_conv)+

lemma stays_assemble: "stays (quiet cf ti) (assemble cf ti q)"
  unfolding assemble_def retrieved_def Let_def
  by (intro quiet_rules stays_session stays_modify)
    (auto split: prod.split option.split intro!: quiet_locals quiet_rules stays_modify)

lemma stays_build: "stays (quiet cf ti) (build_canonical_messages cf ti q d nudge notes)"
  unfolding build_canonical_messages_def by (intro quiet_rules stays_assemble)

lemmas more_quiet_rules = quiet_rules stays_conversation stays_session stays_ask_world stays_now stays_over_budget
  stays_trail stays_catching stays_build

lemma stays_answer_brief: "stays (quiet cf ti) (answer_brief cf site t q draft tables)"
  unfolding answer_brief_def judge_results_def corroborated_figures_def Let_def
  by (intro more_quiet_rules)

lemma stays_judge: "stays (quiet cf ti) brief \<Longrightarrow> stays (quiet cf ti) (judge cf brief kind)"
  unfolding judge_def judge_would_run_def by (intro more_quiet_rules)

lemma stays_append_entry: "stays (quiet cf ti) (append_entry cf e)"
  unfolding append_entry_def by (intro more_quiet_rules stays_writing) (simp_all add: turn_step.tool_call)

lemma stays_full_result: "stays (quiet cf ti) (store_full_result cf r)"
  unfolding store_full_result_def by (intro more_quiet_rules stays_on_store) (simp_all add: turn_step.full_result)

lemma stays_split_tag: "stays (quiet cf ti) (split_tag c)"
  unfolding split_tag_def by (intro more_quiet_rules stays_modify) (simp add: quiet_locals)

lemma stays_classify_read: "stays (quiet cf ti) (classify_read c args)"
  by (auto simp: stays_def classify_read_def split: prod.splits intro!: quiet_locals)

lemma stays_notes:
  "stays (quiet cf ti) (note_definition c args)" "stays (quiet cf ti) count_call" "stays (quiet cf ti) (substantive_entry c)"
  "stays (quiet cf ti) end_drain"
  unfolding note_definition_def count_call_def substantive_entry_def end_drain_def
  by (rule stays_modify; simp add: quiet_locals)+

lemma stays_note_read: "stays (quiet cf ti) (note_read c args d r)"
  unfolding note_read_def by (intro more_quiet_rules stays_modify stays_notes) (simp add: quiet_locals)

lemma stays_fold_call: "stays (quiet cf ti) (fold_call c args r tables)"
  unfolding fold_call_def by (intro more_quiet_rules stays_modify) (simp add: quiet_locals)

lemma stays_declined: "stays (quiet cf ti) (declined_call cf t c args tag)"
  unfolding declined_call_def by (intro more_quiet_rules stays_notes stays_append_entry)

lemma stays_run_tool: "stays (quiet cf ti) (run_runtime_tool h tool args t)"
  unfolding run_runtime_tool_def by (intro more_quiet_rules)

lemma stays_gate_refusal: "stays (quiet cf ti) (gate_refusal cf tool args)"
  unfolding gate_refusal_def by (intro more_quiet_rules)

lemma stays_resolve_call: "stays (quiet cf ti) (resolve_call cf t args)"
  unfolding resolve_call_def by (intro more_quiet_rules)

lemma stays_observe_uncovered: "stays (quiet cf ti) (observe_uncovered_intents tables)"
  unfolding observe_uncovered_intents_def by (intro more_quiet_rules)

lemma stays_discovered: "stays (quiet cf ti) (discovered cf)"
  unfolding discovered_def by (intro more_quiet_rules)

lemma stays_seeds: "stays (quiet cf ti) (turn_seeds cf t)"
  unfolding turn_seeds_def by (intro more_quiet_rules)

section \<open>Steady parts\<close>

lemma steady_store:
  assumes "turn_step (am_session cf) ti (rq_store s) (rq_store t)" and "tn_guard t = tn_guard s"
    and "set (fg_granted_kinds (tn_gate s)) \<subseteq> set (fg_granted_kinds (tn_gate t))"
  shows "steady cf ti s t"
  using assms by (auto simp: steady_def steps_def)

lemma steady_locals:
  "rq_store t = rq_store s \<Longrightarrow> tn_guard t = tn_guard s \<Longrightarrow> tn_gate t = tn_gate s \<Longrightarrow> steady cf ti s t"
  by (simp add: steady_def steps_def)

lemmas steady_rules = hold.stay_rules more_quiet_rules [THEN stays_steady]

lemma claim_step: "turn_step sid ti st (snd (store_claim clk sid t w k st))"
  unfolding store_claim_def by (rule turn_step.refusal_claim)

lemma refused_steady:
  assumes "may_refuse (store_claim clk (am_session cf)) kind (tn_gate s) (rq_store s) = ((granted, evs), g, st)"
  shows "steady cf ti s (s\<lparr>tn_gate := g, rq_store := st, rq_events := rq_events s @ evs\<rparr>)"
proof (cases "fg_refused_this_round (tn_gate s)")
  case True
  with assms show ?thesis by (auto simp: may_refuse_def steady_def steps_def)
next
  case False
  with assms have g: "set (fg_granted_kinds (tn_gate s)) \<subseteq> set (fg_granted_kinds g)"
    and st: "st = snd (store_claim clk (am_session cf) (fg_turn_index (tn_gate s)) (fg_window (tn_gate s)) kind (rq_store s))"
    by (auto simp: may_refuse_def split: prod.splits sum.splits if_splits)
  show ?thesis
    by (rule steady_store) (use g st claim_step in simp_all)
qed

lemma stays_refuse_once: "stays (steady cf ti) (refuse_once cf kind)"
  unfolding refuse_once_def
  by (intro steady_rules stays_steady [OF stays_consult])
    (auto simp: stays_def split: prod.splits intro: refused_steady)

lemma stays_force_blocked: "reason \<in> set RUNTIME_REASON_CODES \<Longrightarrow> stays (steady cf ti) (force_blocked cf ti reason cap)"
  unfolding force_blocked_def
  by (intro steady_rules) (auto simp: stays_def split: prod.splits intro!: steady_store, metis snd_conv turn_step.forced)

lemma stays_run_state_tool: "stays (steady cf ti) (run_state_tool cf ti args)"
  unfolding run_state_tool_def
  by (intro steady_rules) (auto simp: stays_def split: prod.splits intro!: steady_store, metis snd_conv turn_step.state_call)

lemma stays_state_call: "stays (steady cf ti) (state_call cf ti args)"
  unfolding state_call_def by (intro steady_rules stays_modify stays_run_state_tool) (simp add: steady_locals)

lemma stays_execute: "stays (steady cf ti) (execute_call cf ti q c args)"
  unfolding execute_call_def
  by (intro steady_rules stays_steady [OF stays_gate_refusal] stays_state_call stays_steady [OF stays_run_tool])

lemma stays_refresh: "stays (steady cf ti) (refresh_state ti c r)"
  unfolding refresh_state_def by (intro steady_rules stays_modify) (simp add: steady_locals)

lemma stays_table_intents: "stays (steady cf ti) (table_intents_gate cf ti c args r)"
  unfolding table_intents_gate_def
  by (intro steady_rules stays_refuse_once stays_force_blocked) (simp add: RUNTIME_REASON_CODES_def)

lemma stays_designation: "stays (steady cf ti) (table_designation_gate cf ti c args r)"
  unfolding table_designation_gate_def
  by (intro steady_rules stays_refuse_once stays_steady [OF stays_resolve_call] stays_steady [OF stays_observe_uncovered])

lemma stays_table_judge: "stays (steady cf ti) (table_judge_gate cf ti q c args tables r)"
  unfolding table_judge_gate_def
  by (intro steady_rules stays_refuse_once stays_steady [OF stays_judge] stays_answer_brief stays_modify)
    (simp add: steady_locals)

lemma stays_gated: "stays (steady cf ti) (gated cf ti q c args r)"
  unfolding gated_def by (intro steady_rules stays_table_intents stays_designation stays_table_judge)

lemma stays_note_answer: "stays (steady cf ti) (note_answer c args r tables)"
  unfolding note_answer_def by (rule stays_modify) (simp add: steady_locals)

section \<open>Parts that may leave the turn\<close>

lemmas leave_rules = hold.rules stays_preserves [OF stays_steady]

lemma finish_steady: "preserves (steady cf ti) (finish cf ti' status exit text c p persist ev)"
  unfolding finish_def persist_answer_def
  by (intro leave_rules hold.stay_rules more_quiet_rules stays_writing turn_step.pause turn_step.message live_writes)

lemma pause_steady: "preserves (steady cf ti) (pause_from_runtime_tool cf p w text tag result)"
  unfolding pause_from_runtime_tool_def Let_def
  by (intro leave_rules more_quiet_rules stays_writing turn_step.pause live_writes)

lemma dispatched_steady: "preserves (steady cf ti) (dispatched_call cf ti w q reply c args tag d)"
  unfolding dispatched_call_def
  by (intro hold.rules pause_steady stays_preserves [OF stays_execute] stays_preserves [OF stays_refresh]
      stays_preserves [OF stays_gated] stays_preserves [OF stays_note_answer] stays_preserves [OF stays_steady]
      stays_notes stays_full_result stays_append_entry stays_fold_call stays_note_read)

lemma drain_one_steady: "preserves (steady cf ti) (drain_one cf ti w q reply c)"
  unfolding drain_one_def
  by (intro hold.rules dispatched_steady stays_preserves [OF stays_steady] stays_notes stays_split_tag stays_classify_read stays_declined)

lemma drain_steady: "preserves (steady cf ti) (drain cf ti w q reply cs)"
proof (induction cs)
  case (Cons c cs)
  then show ?case
    by (simp add: hold.rules drain_one_steady stays_preserves [OF stays_steady [OF stays_over_budget]])
qed (simp add: hold.rules)

lemma refuse_draft_steady: "stays (steady cf ti) (refuse_draft ev nudge)"
  unfolding refuse_draft_def by (intro steady_rules stays_modify) (simp add: steady_locals)

lemma let_pass_steady: "stays (steady cf ti) (let_pass ev)"
  unfolding let_pass_def by (intro steady_rules)

lemma refuse_or_pass_steady: "stays (steady cf ti) (refuse_or_pass cf kind ev nudge ev')"
  unfolding refuse_or_pass_def by (intro steady_rules stays_refuse_once refuse_draft_steady let_pass_steady)

lemma prose_gates_steady: "stays (steady cf ti) (prose_gates cf ti q reply)"
  unfolding prose_gates_def or_else_def ledger_gate_def rules_gate_def silence_gate_def prose_judge_gate_def Let_def
  by (intro steady_rules stays_refuse_once refuse_draft_steady let_pass_steady refuse_or_pass_steady stays_force_blocked
      stays_steady [OF stays_judge] stays_answer_brief) (simp add: RUNTIME_REASON_CODES_def)

end
