(* ===== verification/TurnRounds.thy ===== *)
theory TurnRounds
  imports TurnLoopFacts
begin

text \<open>
  The rounds of a window: every round writes to the conversation only by the steps of a turn, and it is
  charged to the budget, except the round of a question that the judge sends back, which happens at most
  once in a window.
\<close>

section \<open>Whole rounds\<close>

lemma stays_begin_round: "stays (steady cf ti) (begin_window_round req)"
  unfolding begin_window_round_def by (rule stays_modify) (simp add: steady_def gate_begin_round_def steps_def)

lemma stays_ask_model: "stays (steady cf ti) (ask_model cf tools discovery ti w q)"
  unfolding ask_model_def
  by (intro steady_rules stays_begin_round stays_modify) (simp add: steady_locals)

lemma prose_exit_steady: "preserves (steady cf ti) (prose_exit cf ti q reply)"
  unfolding prose_exit_def finish_done_def
  by (intro hold.rules finish_steady stays_preserves [OF prose_gates_steady] stays_preserves [OF stays_steady [OF stays_trail]])

lemma ask_user_steady: "preserves (steady cf ti) (ask_user_exit cf ti w q reply c)"
  unfolding ask_user_exit_def
  by (intro hold.rules finish_steady stays_preserves [OF stays_steady [OF stays_judge]] stays_preserves [OF stays_steady [OF stays_emit]]
      stays_preserves [OF stays_refuse_once] calm.stay_rules preserves_modify) (simp add: steady_locals)

lemma to_steps: "preserves (steady cf ti) m \<Longrightarrow> preserves (steps cf ti) m"
  by (erule preserves_mono) (rule steady_steps)

lemma settle_steps: "preserves (steps cf ti) (settle_budget cf ti w reply)"
  unfolding settle_budget_def
  by (intro run.rules to_steps [OF finish_steady] to_steps [OF stays_preserves [OF stays_force_blocked]]
      to_steps [OF stays_preserves [OF stays_steady [OF stays_over_budget]]] preserves_modify)
    (simp_all add: steps_def RUNTIME_REASON_CODES_def)

lemma one_round_steps: "preserves (steps cf ti) (one_round cf tools discovery ti w q)"
  unfolding one_round_def finish_done_def
  by (intro run.rules to_steps [OF finish_steady] to_steps [OF ask_user_steady] to_steps [OF prose_exit_steady]
      to_steps [OF drain_steady] to_steps [OF stays_preserves [OF stays_ask_model]] settle_steps
      to_steps [OF stays_preserves [OF stays_steady [OF stays_notes(4)]]]
      to_steps [OF stays_preserves [OF stays_steady [OF stays_trail]]])

lemma rounds_steps: "preserves (steps cf ti) stuck \<Longrightarrow> preserves (steps cf ti) (rounds stuck n cf tools discovery ti w q)"
  by (induction n) (simp_all add: run.rules one_round_steps)

lemma open_window_steps: "preserves (steps cf ti) (open_window cf ti w a served sigs)"
  unfolding open_window_def Let_def
  by (intro run.and_then preserves_modify to_steps [OF stays_preserves [OF stays_steady]] more_quiet_rules) (simp add: steps_def)

lemma window_steps:
  assumes "preserves (steps cf ti) stuck"
  shows "preserves (steps cf ti) (run_loop_body stuck n cf ti w q a)"
  unfolding run_loop_body_def
  by (intro run.rules rounds_steps assms open_window_steps to_steps [OF stays_preserves [OF stays_steady]] stays_discovered stays_ask_world)

section \<open>The allowances of a round\<close>

definition gate_kept :: "'w turn_state \<Rightarrow> 'w turn_state \<Rightarrow> bool" where
  "gate_kept s t \<longleftrightarrow> tn_gate t = tn_gate s"

interpretation gate: step_relation gate_kept
  by unfold_locales (simp_all add: gate_kept_def)

lemma quiet_kept: "stays (quiet cf ti) m \<Longrightarrow> stays gate_kept m"
  by (erule stays_mono) (simp add: quiet_def gate_kept_def)

lemmas kept_rules = gate.stay_rules more_quiet_rules [THEN quiet_kept]

lemma kept_execute: "stays gate_kept (execute_call cf ti q c args)"
  unfolding execute_call_def state_call_def run_state_tool_def
  by (intro kept_rules quiet_kept [OF stays_gate_refusal] quiet_kept [OF stays_run_tool] stays_modify)
    (auto simp: gate_kept_def stays_def split: prod.splits)

lemma kept_locals: "stays gate_kept (refresh_state ti c r)" "stays gate_kept (note_answer c args r tables)"
  unfolding refresh_state_def note_answer_def
  by (intro kept_rules stays_modify; simp add: gate_kept_def)+

lemma gated_other: "mc_name c \<noteq> ANSWER_TABLE_TOOL_NAME \<Longrightarrow> gated cf ti q c args r = pure (r, [])"
  by (rule ext) (simp add: gated_def table_intents_gate_def table_designation_gate_def table_judge_gate_def answers_def
      and_then_def read_def pure_def)

lemma kept_pause: "preserves gate_kept (pause_from_runtime_tool cf p w text tag result)"
  unfolding pause_from_runtime_tool_def Let_def
  by (intro gate.rules stays_preserves [OF quiet_kept [where cf = cf and ti = 0]] more_quiet_rules stays_writing turn_step.pause live_writes)

lemma kept_drain:
  assumes "\<And>c. c \<in> set cs \<Longrightarrow> mc_name c \<noteq> ANSWER_TABLE_TOOL_NAME"
  shows "preserves gate_kept (drain cf ti w q reply cs)"
  using assms
proof (induction cs)
  case (Cons c cs)
  have "mc_name c \<noteq> ANSWER_TABLE_TOOL_NAME" using Cons.prems by simp
  have calls: "preserves gate_kept (dispatched_call cf ti w q reply c args tag d)" for args tag d
    unfolding dispatched_call_def gated_other [OF \<open>mc_name c \<noteq> ANSWER_TABLE_TOOL_NAME\<close>]
    by (intro gate.rules kept_pause kept_locals [THEN stays_preserves] kept_execute [THEN stays_preserves]
        stays_preserves [OF quiet_kept [where cf = cf and ti = ti]] stays_notes stays_full_result stays_append_entry stays_fold_call stays_note_read)
  have "preserves gate_kept (drain_one cf ti w q reply c)"
    unfolding drain_one_def
    by (intro gate.rules calls stays_preserves [OF quiet_kept [where cf = cf and ti = ti]] stays_notes stays_split_tag stays_classify_read stays_declined)
  with Cons show ?case by (simp add: gate.rules stays_preserves [OF quiet_kept [OF stays_over_budget]])
qed (simp add: gate.rules)

section \<open>Charges\<close>

abbreviation asked :: string where
  "asked \<equiv> ''ask_user_judge''"

lemma finish_leaves: "finish cf ti status exit text c p persist ev s \<noteq> (Next a, s')"
  by (auto simp: finish_def and_then_next return_def split: prod.splits)

lemma judge_ran:
  assumes "judge cf brief kind s = (Next v, s')" and "\<not> jv_approved v"
  shows "\<not> has_spent kind (tn_gate s)"
proof
  assume "has_spent kind (tn_gate s)"
  then have "judge cf brief kind s = (Next APPROVED, snd (judge cf brief kind s))"
    by (simp add: judge_def judge_would_run_def and_then_def pure_def read_def emit_def modify_def)
  with assms show False by (simp add: APPROVED_def)
qed

lemma judge_gate:
  assumes "judge cf (read f) kind s = (Next v, s')"
  shows "tn_gate s' = tn_gate s"
proof -
  have "stays (quiet cf 0) (judge cf (read f) kind)" by (intro stays_judge quiet_rules)
  then have "quiet cf 0 s (snd (judge cf (read f) kind s))" by (simp add: stays_def)
  with assms show ?thesis by (simp add: quiet_def)
qed

lemma claim_granted:
  assumes "refuse_once cf kind s = (Next True, s')" and "\<not> fg_refused_this_round (tn_gate s)"
  shows "has_spent kind (tn_gate s')"
  using assms
  by (auto simp: refuse_once_def and_then_next consult_def may_refuse_def has_spent_def split: prod.splits sum.splits if_splits)

lemma sent_back_once:
  assumes "ask_user_exit cf ti w q reply c s = (Next b, s')" and "\<not> fg_refused_this_round (tn_gate s)"
  shows "b \<and> \<not> has_spent asked (tn_gate s) \<and> has_spent asked (tn_gate s')"
  using assms(1) [unfolded ask_user_exit_def]
proof (rule and_then_nextE, goal_cases)
  case (1 v s1)
  note g = judge_gate [OF 1(1)]
  from 1(2) obtain s2 where v: "\<not> jv_approved v" and r: "refuse_once cf asked s1 = (Next True, s2)"
    and "b" "tn_gate s' = tn_gate s2"
    by (auto simp: and_then_next finish_leaves pure_def emit_def modify_def split: if_splits prod.splits)
  with judge_ran [OF 1(1) v] claim_granted [OF r] assms(2) g show ?case by simp
qed

text \<open>What is left of a window: the charges to the iteration ceiling, and the one question that may be sent back.\<close>

definition rounds_left :: "'w turn_state \<Rightarrow> nat" where
  "rounds_left s = nat (bg_max_iterations (tn_guard s) - bg_iterations (tn_guard s)) +
     (if has_spent asked (tn_gate s) then 0 else 1)"

lemma steady_left: "steady cf ti s t \<Longrightarrow> rounds_left t \<le> rounds_left s"
  by (auto simp: steady_def rounds_left_def has_spent_def)

lemma settle_charges:
  assumes "settle_budget cf ti w reply s = (Next (), s')"
  shows "rounds_left s' < rounds_left s"
proof -
  let ?s = "s\<lparr>tn_guard := record_iteration (mr_total_tokens reply) (tn_guard s)\<rparr>"
  from assms have over: "over_budget cf ?s = (Next False, s')"
    by (auto simp: settle_budget_def and_then_next modify_def finish_leaves pure_def split: if_splits prod.splits)
  have "stays (quiet cf 0) (over_budget cf)" by (rule stays_over_budget)
  then have "quiet cf 0 ?s (snd (over_budget cf ?s))" by (simp add: stays_def)
  with over have q: "tn_guard s' = tn_guard ?s" "tn_gate s' = tn_gate s" by (auto simp: quiet_def steady_def)
  from over have "bg_iterations (tn_guard ?s) < bg_max_iterations (tn_guard ?s)"
    by (auto simp: over_budget_def and_then_next read_def exceeded_def consult_def split: prod.splits if_splits)
  with q show ?thesis by (simp add: rounds_left_def record_iteration_def)
qed

lemma steady_next: "preserves (steady cf ti) m \<Longrightarrow> m s = (Next a, s') \<Longrightarrow> steady cf ti s s'"
  by (auto simp: preserves_def dest: spec [of _ s])

lemma ask_model_fresh:
  assumes "ask_model cf tools discovery ti w q s = (Next reply, s')"
  shows "\<not> fg_refused_this_round (tn_gate s')"
  using assms unfolding ask_model_def ask_world_def
  by (auto elim!: and_then_nextE simp: begin_window_round_def read_def modify_def emit_def consult_def
      lift_def pure_def gate_begin_round_def split: prod.splits sum.splits)

text \<open>Before the user is asked, a reply with a question runs no call that a gate could refuse.\<close>

lemma kept_before_question:
  assumes "ask_user_call reply = Some c" and "drain cf ti w q reply (capped_calls cf reply) s = (Next (), s')"
  shows "tn_gate s' = tn_gate s"
proof -
  have "mc_name d \<noteq> ANSWER_TABLE_TOOL_NAME" if "d \<in> set (capped_calls cf reply)" for d
    using that assms(1) in_set_takeD [of d _ "filter is_state_call (mr_calls reply)"]
    by (auto simp: capped_calls_def is_state_call_def UPDATE_TOOL_NAME_def ANSWER_TABLE_TOOL_NAME_def)
  from kept_drain [OF this, where cf = cf and ti = ti and w = w and q = q and reply = reply]
  have "gate_kept s (snd (drain cf ti w q reply (capped_calls cf reply) s))" by (simp add: preserves_def)
  with assms(2) show ?thesis by (simp add: gate_kept_def)
qed

lemma prose_exit_calls: "mr_calls reply \<noteq> [] \<Longrightarrow> prose_exit cf ti q reply = pure ()"
  by (simp add: prose_exit_def)

lemma one_round_charges:
  assumes "one_round cf tools discovery ti w q s = (Next (), s')"
  shows "rounds_left s' < rounds_left s"
  using assms unfolding one_round_def
proof (elim and_then_nextE, goal_cases)
  case (1 reply s1 u1 s2 u2 s3 u3 s4 sent s5)
  have d: "rounds_left s4 \<le> rounds_left s3"
    by (rule steady_left [of cf ti], rule steady_next [OF stays_preserves [OF stays_steady [OF stays_notes(4)]]]) (use 1 in simp)
  note le = steady_left [OF steady_next [OF stays_preserves [OF stays_ask_model] 1(1)]]
    steady_left [OF steady_next [OF prose_exit_steady 1(2)]] steady_left [OF steady_next [OF drain_steady 1(3)]]
  show ?case
  proof (cases "ask_user_call reply")
    case None
    with 1 have "settle_budget cf ti w reply s5 = (Next (), s')" "s5 = s4"
      by (auto simp: pure_def and_then_next read_def finish_done_def finish_leaves split: option.splits)
    with le d settle_charges show ?thesis by fastforce
  next
    case (Some c)
    then have "mr_calls reply \<noteq> []" by (auto simp: ask_user_call_def)
    with 1(2) have s2: "s2 = s1" by (simp add: prose_exit_calls pure_def)
    have g: "tn_gate s4 = tn_gate s1"
      using kept_before_question [OF Some] 1 s2 by (auto simp: end_drain_def modify_def)
    from 1 Some have a: "ask_user_exit cf ti w q reply c s4 = (Next sent, s5)" by simp
    from sent_back_once [OF a] ask_model_fresh [OF 1(1)] g
    have b: "sent" "\<not> has_spent asked (tn_gate s4)" "has_spent asked (tn_gate s5)" by auto
    with 1 have "s' = s5" by (simp add: pure_def)
    moreover have "tn_guard s5 = tn_guard s4" using steady_next [OF ask_user_steady a] by (simp add: steady_def)
    ultimately have "rounds_left s' < rounds_left s4" using b by (simp add: rounds_left_def)
    with le d show ?thesis by linarith
  qed
qed

lemma rounds_return:
  "rounds_left s < n \<Longrightarrow> rounds_left s < k \<Longrightarrow>
     rounds stuck n cf tools discovery ti w q s = rounds stuck' k cf tools discovery ti w q s"
proof (induction n arbitrary: s k)
  case (Suc n)
  then obtain k' where k: "k = Suc k'" by (cases k) auto
  obtain r s' where o: "one_round cf tools discovery ti w q s = (r, s')" by fastforce
  show ?case
  proof (cases r)
    case (Next u)
    with one_round_charges o Suc.prems k have "rounds_left s' < n" "rounds_left s' < k'" by fastforce+
    with Suc.IH [of s' k'] o Next k show ?thesis by (simp add: and_then_def)
  qed (use o k in \<open>simp_all add: and_then_def\<close>)
qed simp

lemma open_window_rounds:
  assumes "open_window cf ti w a served sigs s = (Next (), s')"
  shows "rounds_left s' = nat (tc_max_iterations cf) + 1"
  using assms unfolding open_window_def Let_def
  by (auto elim!: and_then_nextE simp: modify_def rounds_left_def new_budget_guard_def has_spent_def new_gate_def)

lemma and_then_cong: "(\<And>a s'. m s = (Next a, s') \<Longrightarrow> f a s' = g a s') \<Longrightarrow> and_then m f s = and_then m g s"
  by (auto simp: and_then_def split: prod.split flow.split)

abbreviation fuel_enough :: "'w turn_config \<Rightarrow> nat" where
  "fuel_enough cf \<equiv> nat (tc_max_iterations cf) + 2"

lemma window_returns:
  assumes "fuel_enough cf \<le> n" "fuel_enough cf \<le> k"
  shows "run_loop_body stuck n cf ti w q a s = run_loop_body stuck' k cf ti w q a s"
  unfolding run_loop_body_def using assms
  by (intro and_then_cong) (auto split: prod.split intro!: and_then_cong rounds_return dest!: open_window_rounds)

end
