(* ===== verification/TurnSettled.thy ===== *)
theory TurnSettled
  imports TurnRounds
begin

text \<open>
  What holds when a turn is left: an answer is returned only where the ledger of the turn has no pending
  intent, and what is returned is what was written to the conversation.
\<close>

section \<open>The state in hand is the stored one\<close>

definition in_hand :: "'w turn_config \<Rightarrow> int \<Rightarrow> 'w turn_state \<Rightarrow> bool" where
  "in_hand cf ti s \<longleftrightarrow> tn_analysis s = live cf ti s"

definition settled :: "'w turn_config \<Rightarrow> int \<Rightarrow> 'w turn_state \<Rightarrow> bool" where
  "settled cf ti s \<longleftrightarrow> in_hand cf ti s \<and> pending_intents (tn_analysis s) = []"

definition answer_ok :: "'w turn_config \<Rightarrow> int \<Rightarrow> 'w turn_state \<Rightarrow> bool" where
  "answer_ok cf ti s \<longleftrightarrow> in_hand cf ti s \<and> (tn_designated s \<noteq> None \<longrightarrow> pending_intents (tn_analysis s) = [])"

text \<open>How a turn may be left.\<close>

definition FINAL_STATUSES :: "string set" where
  "FINAL_STATUSES = {''done'', ''stopped_hard_ceiling''}"

definition left_settled :: "'w turn_config \<Rightarrow> int \<Rightarrow> turn_outcome \<Rightarrow> 'w turn_state \<Rightarrow> bool" where
  "left_settled cf ti o' s \<longleftrightarrow> (to_status o' \<in> FINAL_STATUSES \<longrightarrow> pending_intents (live cf ti s) = [])"

text \<open>The stored ledger, the one in hand and the designated answer are left alone.\<close>

definition idle :: "'w turn_config \<Rightarrow> int \<Rightarrow> 'w turn_state \<Rightarrow> 'w turn_state \<Rightarrow> bool" where
  "idle cf ti s t \<longleftrightarrow> live cf ti t = live cf ti s \<and> tn_analysis t = tn_analysis s \<and> tn_designated t = tn_designated s"

interpretation idle: step_relation "idle cf ti" for cf ti
  by unfold_locales (simp_all add: idle_def)

lemma quiet_idle: "stays (quiet cf ti) m \<Longrightarrow> stays (idle cf ti) m"
  by (erule stays_mono) (simp add: quiet_def idle_def)

lemma idle_locals:
  "rq_store t = rq_store s \<Longrightarrow> tn_analysis t = tn_analysis s \<Longrightarrow> tn_designated t = tn_designated s \<Longrightarrow> idle cf ti s t"
  by (simp add: idle_def live_def)

lemmas idle_rules = idle.stay_rules more_quiet_rules [THEN quiet_idle]

lemma idle_keeps:
  "idle cf ti s t \<Longrightarrow> in_hand cf ti s \<Longrightarrow> in_hand cf ti t"
  "idle cf ti s t \<Longrightarrow> settled cf ti s \<Longrightarrow> settled cf ti t"
  "idle cf ti s t \<Longrightarrow> answer_ok cf ti s \<Longrightarrow> answer_ok cf ti t"
  by (auto simp: idle_def in_hand_def settled_def answer_ok_def)

section \<open>Claims and forced blocks\<close>

lemma live_claim: "live_of (snd (claim_finalization_block clk sid t w k st)) sid ti = live_of st sid ti"
proof (cases "get_or_create_session clk sid st")
  case (Pair d st1)
  note v = created_views[OF Pair]
  have doc: "doc_of st1 sid = Some d" using get_or_create_views(1)[OF Pair] by simp
  have "live_of st1 sid ti = live_of st sid ti" using live_created[of clk sid st ti] Pair by simp
  moreover have "live_of (bump_version sid (put_doc sid d' st1)) sid ti = live_of st1 sid ti"
    if "sd_analysis_state d' = sd_analysis_state d" for d'
    using that doc by (simp add: write_views live_of_def live_analysis_state_def)
  ultimately show ?thesis
    by (auto simp: claim_finalization_block_def Pair Let_def split: sum.split)
qed

lemma idle_refuse_once: "stays (idle cf ti) (refuse_once cf kind)"
proof -
  have "idle cf ti s (s\<lparr>tn_gate := g, rq_store := st, rq_events := evs'\<rparr>)"
    if "may_refuse (store_claim clk (am_session cf)) kind (tn_gate s) (rq_store s) = ((granted, evs), g, st)"
    for clk s granted evs g st evs'
  proof -
    have "live_of st (am_session cf) ti = live_of (rq_store s) (am_session cf) ti"
      using that live_claim [of clk "am_session cf" "fg_turn_index (tn_gate s)" "fg_window (tn_gate s)" kind "rq_store s" ti]
      by (auto simp: may_refuse_def store_claim_def split: if_splits prod.splits sum.splits)
    then show ?thesis by (simp add: idle_def live_def)
  qed
  then show ?thesis
    unfolding refuse_once_def by (intro idle_rules) (auto simp: stays_def split: prod.splits)
qed

lemma no_live_forced:
  assumes "force_block_pending_intents clk sid ti None reason cap st = (a, evs, st')"
  shows "a = None \<and> st' = st"
  using assms by (auto simp: force_block_pending_intents_def pending_intents_def)

lemma force_settles: "valid (\<lambda>s. in_hand cf ti s \<and> tn_designated s = d) (force_blocked cf ti reason cap)
    (\<lambda>_ s. settled cf ti s \<and> tn_designated s = d) E"
proof -
  have "settled cf ti (s\<lparr>tn_analysis := a, rq_store := st, rq_events := evs'\<rparr>)"
    if h: "in_hand cf ti s" and f: "force_block_pending_intents clk (am_session cf) ti (tn_analysis s) reason cap (rq_store s) = (a, evs, st)"
    for clk s a evs st evs'
  proof (cases "pending_intents (tn_analysis s) = []")
    case True
    with h f show ?thesis by (auto simp: force_block_pending_intents_def settled_def in_hand_def live_def)
  next
    case False
    then obtain l where l: "tn_analysis s = Some l" by (cases "tn_analysis s") (simp_all add: pending_intents_def)
    with h have "live_of (rq_store s) (am_session cf) ti = Some l" by (simp add: in_hand_def live_def)
    from forced_block_closes_all [OF this False [unfolded l] f [unfolded l]] show ?thesis
      by (auto simp: settled_def in_hand_def live_def)
  qed
  then show ?thesis
    unfolding force_blocked_def
    by (intro valid_and_then [where Q = "\<lambda>_ s. in_hand cf ti s \<and> tn_designated s = d"] valid_stays [OF quiet_idle [OF stays_consult, of cf ti]])
      (auto simp: idle_keeps valid_def idle_def split: prod.split)
qed

section \<open>The state tool\<close>

lemma applied_live:
  assumes "apply_analysis_state clk sid ti merge st = (Inr a, st')" and "as_turn_index a = ti"
  shows "live_of st' sid ti = Some a"
  using assms by (auto simp: apply_analysis_state_def write_views live_analysis_state_def split: prod.splits sum.splits)

lemma applied_rejected:
  assumes "apply_analysis_state clk sid ti merge st = (Inl e, st')"
  shows "live_of st' sid ti = live_of st sid ti"
  using assms live_created [of clk sid st ti]
  by (auto simp: apply_analysis_state_def split: prod.splits sum.splits)

text \<open>A run of the tool: the state it reports is the stored one, and without a state nothing changed.\<close>

definition reports :: "string \<Rightarrow> int \<Rightarrow> session_store \<Rightarrow> tool_result \<Rightarrow> session_store \<Rightarrow> bool" where
  "reports sid ti st r st' \<longleftrightarrow> (case refreshed_analysis_state r ti of
     None \<Rightarrow> live_of st' sid ti = live_of st sid ti | Some a \<Rightarrow> live_of st' sid ti = Some a)"

lemma error_reports [simp]: "reports sid ti st (error_result e d r) st' \<longleftrightarrow> live_of st' sid ti = live_of st sid ti"
  by (simp add: reports_def refresh_reads_back)

lemma state_reports [simp]:
  "as_turn_index a = ti \<Longrightarrow> reports sid ti st (state_result a) st' \<longleftrightarrow> live_of st' sid ti = Some a"
  by (simp add: reports_def refresh_reads_back)

lemma initialize_reports:
  assumes "initialize clk sid ti items trail st = (r, evs, st')"
  shows "case r of Inl e \<Rightarrow> live_of st' sid ti = live_of st sid ti | Inr t \<Rightarrow> reports sid ti st t st'"
proof -
  have i: "as_turn_index a = ti" if "apply_analysis_state clk sid ti (\<lambda>current.
      case current of Some _ \<Rightarrow> second_initialize | None \<Rightarrow> Inr (initial_state ti ds)) st = (Inr a, st'')" for ds a st''
    using that by (auto simp: apply_analysis_state_def second_initialize_def reject_def initial_state_def
        split: prod.splits sum.splits option.splits)
  have t: "reports sid ti st (state_result a) st''" if "apply_analysis_state clk sid ti (\<lambda>current.
      case current of Some _ \<Rightarrow> second_initialize | None \<Rightarrow> Inr (initial_state ti ds)) st = (Inr a, st'')" for ds a st''
    using i [OF that] applied_live [OF that] by simp
  show ?thesis
    using assms
    by (auto simp: initialize_def split: sum.splits option.splits prod.splits dest: applied_rejected intro: t)
qed

lemma update_reports:
  assumes "update_state clk sid ti items trail l st = (r, evs, st')"
  shows "case r of Inl e \<Rightarrow> live_of st' sid ti = live_of st sid ti | Inr t \<Rightarrow> reports sid ti st t st'"
proof -
  have i: "as_turn_index a = ti" if "apply_analysis_state clk sid ti (merge_update ti us) st = (Inr a, st'')" for us a st''
    using that by (auto simp: apply_analysis_state_def merge_update_def reject_def rbind_eq_Inr
        split: prod.splits sum.splits option.splits)
  have t: "reports sid ti st (state_result a) st''" if "apply_analysis_state clk sid ti (merge_update ti us) st = (Inr a, st'')" for us a st''
    using i [OF that] applied_live [OF that] by simp
  show ?thesis
    using assms
    by (auto simp: update_state_def split: sum.splits prod.splits dest: applied_rejected intro: t)
qed

lemma tool_reports:
  assumes "update_tool_run clk sid (Some ti) args st = (r, evs, st')"
  shows "reports sid ti st r st'"
proof -
  obtain x evs1 where x: "execute_update_tool clk sid (Some ti) args st = (x, evs1, st')"
    and g: "guarded args (x, evs1, st') = (r, snd (guarded args (x, evs1, st')))"
    using assms by (auto simp: update_tool_run_def guarded_def split: prod.splits sum.splits exc.splits)
  have "case x of Inl e \<Rightarrow> live_of st' sid ti = live_of st sid ti | Inr t \<Rightarrow> reports sid ti st t st'"
  proof (cases "require_intent_items args")
    case (Inl e)
    with x show ?thesis by (auto simp: execute_update_tool_def)
  next
    case (Inr items)
    obtain d st1 where c: "get_or_create_session clk sid st = (d, st1)" by fastforce
    have l: "live_of st1 sid ti = live_of st sid ti" using live_created [of clk sid st ti] c by simp
    then have r: "reports sid ti st1 t st' \<longleftrightarrow> reports sid ti st t st'" for t
      by (simp add: reports_def split: option.split)
    show ?thesis
    proof (cases "live_analysis_state d ti")
      case None
      with x Inr c have "initialize clk sid ti items (sd_tool_trail d) st1 = (x, evs1, st')"
        by (simp add: execute_update_tool_def)
      from initialize_reports [OF this] show ?thesis using l r by (simp split: sum.splits)
    next
      case (Some a)
      with x Inr c have "update_state clk sid ti items (sd_tool_trail d) a st1 = (x, evs1, st')"
        by (simp add: execute_update_tool_def)
      from update_reports [OF this] show ?thesis using l r by (simp split: sum.splits)
    qed
  qed
  with g show ?thesis by (auto simp: guarded_def split: sum.splits exc.splits)
qed

end
