(* ===== verification/TurnLeaving.thy ===== *)
theory TurnLeaving
  imports TurnSettled
begin

text \<open>
  How a turn is left, as triples over its programs: the condition in which a program goes on, and, where
  it leaves, that an answer leaves nothing pending in the stored ledger.
\<close>

section \<open>Rules\<close>

lemma wp_spec: "valid P m R E \<Longrightarrow> valid (\<lambda>s. P s \<and> (\<forall>a t. R a t \<longrightarrow> Q a t)) m Q E"
  by (rule validI) (auto dest: valid_next valid_return)

lemma valid_pair:
  "valid P m (\<lambda>(a, b). R a b) E \<Longrightarrow> (\<And>a b. valid (R a b) (f a b) Q E) \<Longrightarrow> valid P (and_then m (\<lambda>(a, b). f a b)) Q E"
  by (erule valid_and_then) (auto split: prod.split)

lemma idle_emit: "stays (idle cf ti) (emit evs)"
  by (intro idle_rules)

lemma idle_judge: "stays (idle cf ti) (judge cf (answer_brief cf site ti q draft tables) kind)"
  by (intro quiet_idle stays_judge stays_answer_brief)

lemma wp_idle: "stays (idle cf ti) m \<Longrightarrow> valid (\<lambda>s. \<forall>a t. idle cf ti s t \<longrightarrow> Q a t) m Q (left_settled cf ti)"
  unfolding stays_def by (rule validI) (metis fst_conv snd_conv)+

lemma wp_force:
  "valid (\<lambda>s. in_hand cf ti s \<and> (\<forall>t. settled cf ti t \<and> tn_designated t = tn_designated s \<longrightarrow> Q () t)) (force_blocked cf ti reason cap) Q E"
  using force_settles [of cf ti _ reason cap E] by (fastforce simp: valid_def split: prod.splits flow.splits)

lemma idle_writes:
  "stays (idle cf ti) (writing cf (\<lambda>clk sid. write_pause_checkpoint clk sid c))"
  "stays (idle cf ti) (persist_answer cf ti' p clean)"
  unfolding persist_answer_def
  by (intro idle_rules quiet_idle [OF stays_writing] turn_step.pause turn_step.message live_writes)+

lemmas state_facts = answer_ok_def in_hand_def settled_def idle_def left_settled_def

lemma wp_finish:
  "valid (\<lambda>s. status \<in> FINAL_STATUSES \<longrightarrow> settled cf ti s) (finish cf ti' status exit text checkpoint p persist ev) Q (left_settled cf ti)"
  unfolding finish_def
  apply (rule wp_start)
   apply (rule wp_flow wp_idle idle_writes idle_emit)+
  apply (auto simp: outcome_def state_facts split: prod.splits option.splits)
  done

lemma wp_pause: "valid (\<lambda>_. True) (pause_from_runtime_tool cf p w text tag
    (\<lambda>q t. outcome ''paused_ask_user'' t q None made a)) Q (left_settled cf ti)"
  unfolding pause_from_runtime_tool_def Let_def
  apply (rule wp_start)
   apply (rule wp_flow wp_idle idle_writes idle_emit)+
  apply (auto simp: outcome_def left_settled_def FINAL_STATUSES_def split: prod.splits)
  done

lemmas wp_rules = wp_flow wp_force wp_finish wp_pause

section \<open>The gates of a call\<close>

definition earned_answer :: "'w turn_config \<Rightarrow> int \<Rightarrow> model_call \<Rightarrow> pydict \<Rightarrow> tool_result \<Rightarrow> 'w turn_state \<Rightarrow> bool" where
  "earned_answer cf ti c args r s \<longleftrightarrow> answer_ok cf ti s \<and> (answers c r args \<longrightarrow> pending_intents (tn_analysis s) = [])"

lemma refusals_answer_nothing [simp]:
  "\<not> answers c (finalization_blocked ps) args" "\<not> answers c (answer_judge_rejected f) args"
  "\<not> answers c (answer_table_blueprint_not_run b) args" "\<not> answers c answer_table_no_table_designated args"
  by (simp_all add: answers_def finalization_blocked_def answer_judge_rejected_def answer_table_blueprint_not_run_def
      answer_table_no_table_designated_def refusal_def Let_def)

lemma intents_gate_left:
  "valid (answer_ok cf ti) (table_intents_gate cf ti c args r) (\<lambda>r. earned_answer cf ti c args r) (left_settled cf ti)"
  unfolding table_intents_gate_def
  apply (rule wp_start)
   apply (rule wp_rules wp_idle idle_emit idle_refuse_once)+
  apply (auto simp: earned_answer_def state_facts)
  done

lemma designation_left:
  "valid (earned_answer cf ti c args r) (table_designation_gate cf ti c args r)
     (\<lambda>(r, tables). earned_answer cf ti c args r) (left_settled cf ti)"
  unfolding table_designation_gate_def
  apply (rule wp_start)
   apply (rule wp_rules wp_idle idle_emit idle_refuse_once quiet_idle [OF stays_resolve_call] quiet_idle [OF stays_observe_uncovered])+
  apply (auto simp: earned_answer_def state_facts split: option.split)
  done

lemma judge_gate_left:
  "valid (earned_answer cf ti c args r) (table_judge_gate cf ti q c args tables r)
     (\<lambda>r. earned_answer cf ti c args r) (left_settled cf ti)"
  unfolding table_judge_gate_def
  apply (rule wp_start)
   apply (rule wp_rules wp_idle idle_emit idle_refuse_once idle_judge)+
  apply (auto simp: earned_answer_def state_facts live_def split: option.split)
  done

lemma gated_left:
  "valid (answer_ok cf ti) (gated cf ti q c args r) (\<lambda>(r, tables). earned_answer cf ti c args r) (left_settled cf ti)"
  unfolding gated_def
  by (rule valid_and_then [OF intents_gate_left], rule valid_and_then [OF designation_left])
    (auto split: prod.split intro!: valid_and_then [OF judge_gate_left] wp_start [OF wp_pure])

section \<open>The calls of a reply\<close>

text \<open>State calls come first, while no answer is designated yet; the other calls leave the ledger alone.\<close>

definition before_call :: "'w turn_config \<Rightarrow> int \<Rightarrow> model_call \<Rightarrow> 'w turn_state \<Rightarrow> bool" where
  "before_call cf ti c s \<longleftrightarrow> answer_ok cf ti s \<and> (is_state_call c \<longrightarrow> tn_designated s = None)"

text \<open>After a call has run: the state in hand is the stored one, or is about to be refreshed from the result.\<close>

definition executed :: "'w turn_config \<Rightarrow> int \<Rightarrow> model_call \<Rightarrow> tool_result \<Rightarrow> 'w turn_state \<Rightarrow> bool" where
  "executed cf ti c r s \<longleftrightarrow> (if is_state_call c
     then tn_designated s = None \<and> (case refreshed_analysis_state r ti of None \<Rightarrow> in_hand cf ti s | Some a \<Rightarrow> live cf ti s = Some a)
     else answer_ok cf ti s)"

lemma run_state_left:
  "valid (\<lambda>s. tn_designated s = None \<and> in_hand cf ti s) (run_state_tool cf ti args)
     (\<lambda>r s. tn_designated s = None \<and> (case refreshed_analysis_state r ti of None \<Rightarrow> in_hand cf ti s | Some a \<Rightarrow> live cf ti s = Some a))
     (left_settled cf ti)"
proof -
  have "valid (\<lambda>s. tn_designated s = None \<and> in_hand cf ti s) (\<lambda>s. case update_tool_run clk (am_session cf) (Some ti) (PDict args) (rq_store s) of
           (r, evs, st) \<Rightarrow> (Next r, s\<lparr>rq_store := st, rq_events := rq_events s @ evs\<rparr>))
     (\<lambda>r s. tn_designated s = None \<and> (case refreshed_analysis_state r ti of None \<Rightarrow> in_hand cf ti s | Some a \<Rightarrow> live cf ti s = Some a))
     (left_settled cf ti)" for clk
    by (rule validI) (auto simp: in_hand_def live_def reports_def dest!: tool_reports split: prod.splits option.splits)
  then show ?thesis
    unfolding run_state_tool_def
    by (rule valid_and_then [rotated]) (rule wp_start [OF wp_idle [OF quiet_idle [OF stays_consult]]], auto simp: state_facts)
qed

lemma no_refresh [simp]:
  "refreshed_analysis_state surplus_state_call_rejected ti = None"
  "refreshed_analysis_state (runtime_tool_internal_error tool) ti = None"
  by (simp_all add: surplus_state_call_rejected_def refresh_reads_back)
    (simp add: runtime_tool_internal_error_def runtime_tool_error_def refreshed_analysis_state_def)

lemma state_call_left:
  assumes "is_state_call c"
  shows "valid (before_call cf ti c) (state_call cf ti args) (\<lambda>r. executed cf ti c r) (left_settled cf ti)"
  unfolding state_call_def
  apply (rule wp_start)
   apply (rule wp_rules run_state_left [THEN wp_spec] wp_idle idle_emit)+
  using assms apply (auto simp: before_call_def executed_def state_facts live_def split: if_splits)
  done

lemma execute_left:
  "valid (before_call cf ti c) (execute_call cf ti q c args) (\<lambda>(r, pause). executed cf ti c r) (left_settled cf ti)"
proof (cases "is_state_call c")
  case True
  then have "gate_refusal cf (mc_name c) args = pure None"
    by (simp add: gate_refusal_def is_state_call_def UPDATE_TOOL_NAME_def)
  with True show ?thesis
    by (simp add: execute_call_def is_state_call_def [symmetric])
      (rule wp_start, (rule wp_flow state_call_left [OF True, THEN wp_spec])+, auto)
next
  case False
  have idle: "stays (idle cf ti) (gate_refusal cf (mc_name c) args)" "stays (idle cf ti) (run_runtime_tool h (mc_name c) args ti)"
    "stays (idle cf ti) (consult (f :: 'a \<Rightarrow> _))" for h f
    by (intro quiet_idle stays_gate_refusal stays_run_tool stays_consult)+
  from False show ?thesis
    unfolding execute_call_def is_state_call_def
    apply simp
    apply (rule wp_start)
     apply (rule wp_flow wp_idle idle idle_emit)+
    apply (auto simp: before_call_def executed_def is_state_call_def state_facts split: option.splits)
    done
qed

lemma refresh_left:
  "valid (executed cf ti c r) (refresh_state ti c r) (\<lambda>_. before_call cf ti c) (left_settled cf ti)"
  unfolding refresh_state_def
  apply (rule wp_start)
   apply (rule wp_flow)+
  apply (auto simp: executed_def before_call_def is_state_call_def state_facts live_def split: option.splits)
  done

text \<open>After the gates.\<close>

definition after_gates :: "'w turn_config \<Rightarrow> int \<Rightarrow> model_call \<Rightarrow> pydict \<Rightarrow> tool_result \<Rightarrow> 'w turn_state \<Rightarrow> bool" where
  "after_gates cf ti c args r s \<longleftrightarrow> before_call cf ti c s \<and> (answers c r args \<longrightarrow> pending_intents (tn_analysis s) = [])"

lemma call_gated_left:
  "valid (before_call cf ti c) (gated cf ti q c args r) (\<lambda>(r, tables). after_gates cf ti c args r) (left_settled cf ti)"
proof (cases "mc_name c = ANSWER_TABLE_TOOL_NAME")
  case True
  then have "\<not> is_state_call c" by (simp add: is_state_call_def UPDATE_TOOL_NAME_def ANSWER_TABLE_TOOL_NAME_def)
  then show ?thesis
    by (intro valid_weaken [OF gated_left]) (auto simp: before_call_def after_gates_def earned_answer_def)
next
  case False
  then show ?thesis
    by (simp add: gated_other) (rule wp_start, rule wp_pure, simp add: after_gates_def answers_def)
qed

lemma after_idle: "idle cf ti s t \<Longrightarrow> after_gates cf ti c args r s \<Longrightarrow> after_gates cf ti c args r t"
  by (auto simp: after_gates_def before_call_def state_facts)

lemma before_idle: "idle cf ti s t \<Longrightarrow> before_call cf ti c s \<Longrightarrow> before_call cf ti c t"
  by (auto simp: before_call_def state_facts)

lemma note_answer_left:
  "valid (after_gates cf ti c args r) (note_answer c args r tables) (\<lambda>_. before_call cf ti c) (left_settled cf ti)"
  unfolding note_answer_def
  apply (rule wp_start, rule wp_flow)
  apply (auto simp: after_gates_def before_call_def answers_def is_state_call_def state_facts live_def UPDATE_TOOL_NAME_def
      ANSWER_TABLE_TOOL_NAME_def)
  done

lemma dispatched_left:
  "valid (before_call cf ti c) (dispatched_call cf ti w q reply c args tag d) (\<lambda>_. before_call cf ti c) (left_settled cf ti)"
proof -
  have idle: "stays (idle cf ti) count_call" "stays (idle cf ti) (store_full_result cf r)" "stays (idle cf ti) (append_entry cf e)"
    "stays (idle cf ti) (fold_call c args r tables)" "stays (idle cf ti) (note_read c args d r)" for r e tables
    by (intro quiet_idle stays_notes stays_full_result stays_append_entry stays_fold_call stays_note_read)+
  show ?thesis
    unfolding dispatched_call_def
    apply (rule valid_pair [OF execute_left], rule valid_and_then [OF refresh_left], rule valid_pair [OF call_gated_left])
    apply (rule wp_start)
     apply (rule wp_rules note_answer_left [THEN wp_spec] wp_idle idle)+
    apply (auto split: option.splits dest: after_idle before_idle)
    done
qed

lemma drain_one_left:
  "valid (before_call cf ti c) (drain_one cf ti w q reply c) (\<lambda>_. before_call cf ti c) (left_settled cf ti)"
proof -
  have idle: "stays (idle cf ti) (substantive_entry c)" "stays (idle cf ti) (split_tag c)" "stays (idle cf ti) (classify_read c args)"
    "stays (idle cf ti) (declined_call cf ti c args tag)" for args tag
    by (intro quiet_idle stays_notes stays_split_tag stays_classify_read stays_declined)+
  show ?thesis
    unfolding drain_one_def
    apply (rule wp_start)
     apply (rule wp_flow dispatched_left [THEN wp_spec] wp_idle idle)+
    apply (auto dest: before_idle)
    done
qed

definition calls_from :: "'w turn_config \<Rightarrow> int \<Rightarrow> model_call list \<Rightarrow> 'w turn_state \<Rightarrow> bool" where
  "calls_from cf ti cs s \<longleftrightarrow> answer_ok cf ti s \<and> (list_ex is_state_call cs \<longrightarrow> tn_designated s = None)"

lemma drain_left:
  assumes "sorted_wrt (\<lambda>c d. is_state_call d \<longrightarrow> is_state_call c) cs"
  shows "valid (calls_from cf ti cs) (drain cf ti w q reply cs) (\<lambda>_. answer_ok cf ti) (left_settled cf ti)"
  using assms
proof (induction cs)
  case Nil
  show ?case by (simp, rule wp_start, rule wp_pure) (simp add: calls_from_def)
next
  case (Cons c cs)
  have next_call: "before_call cf ti c s \<Longrightarrow> idle cf ti s t \<Longrightarrow> answer_ok cf ti t \<and> calls_from cf ti cs t" for s t
    using Cons.prems by (auto simp: before_call_def calls_from_def list_ex_iff state_facts)
  have first: "calls_from cf ti (c # cs) s \<Longrightarrow> before_call cf ti c s" for s
    by (auto simp: calls_from_def before_call_def)
  have over: "stays (idle cf ti) (over_budget cf)" by (intro quiet_idle stays_over_budget)
  have "valid (calls_from cf ti cs) (drain cf ti w q reply cs) (\<lambda>_. answer_ok cf ti) (left_settled cf ti)"
    using Cons.prems by (intro Cons.IH) simp
  note rest = this [THEN wp_spec]
  show ?case
    unfolding drain.simps
    apply (rule wp_start)
     apply (rule wp_flow drain_one_left [THEN wp_spec] rest wp_idle over)+
    using next_call first by simp
qed

lemma capped_sorted: "sorted_wrt (\<lambda>c d. is_state_call d \<longrightarrow> is_state_call c) (capped_calls cf reply)"
proof -
  have "sorted_wrt (\<lambda>c d. is_state_call d \<longrightarrow> is_state_call c) xs"
    if "(\<forall>c \<in> set xs. is_state_call c) \<or> (\<forall>c \<in> set xs. \<not> is_state_call c)" for xs
    using that by (induction xs) auto
  then show ?thesis by (auto simp: capped_calls_def sorted_wrt_append dest!: in_set_takeD)
qed

section \<open>The exits\<close>

lemma idle_gates:
  "stays (idle cf ti) (refuse_draft ev nudge)" "stays (idle cf ti) (let_pass ev)"
  "stays (idle cf ti) (refuse_or_pass cf kind ev nudge ev')" "stays (idle cf ti) (rules_gate cf reply)"
  "stays (idle cf ti) (silence_gate cf reply)" "stays (idle cf ti) (prose_judge_gate cf ti q reply)"
  unfolding refuse_or_pass_def rules_gate_def silence_gate_def prose_judge_gate_def refuse_draft_def let_pass_def Let_def
  by (intro idle_rules idle_refuse_once idle_judge stays_modify; simp add: idle_locals)+

definition undesignated :: "'w turn_config \<Rightarrow> int \<Rightarrow> 'w turn_state \<Rightarrow> bool" where
  "undesignated cf ti s \<longleftrightarrow> in_hand cf ti s \<and> tn_designated s = None"

lemma undesignated_idle: "idle cf ti s t \<Longrightarrow> undesignated cf ti s \<Longrightarrow> undesignated cf ti t"
  by (auto simp: undesignated_def state_facts)

lemma ledger_gate_left:
  "valid (undesignated cf ti) (ledger_gate cf ti reply) (\<lambda>refused s. undesignated cf ti s \<and> (\<not> refused \<longrightarrow> settled cf ti s)) (left_settled cf ti)"
  unfolding ledger_gate_def refuse_draft_def let_pass_def
  apply (rule wp_start)
   apply (rule wp_rules wp_idle idle_emit idle_refuse_once idle_gates(3))+
  apply (auto simp: settled_def undesignated_def dest: idle_keeps)
  apply (auto simp: state_facts live_def)
  done

lemma prose_gates_left:
  "valid (undesignated cf ti) (prose_gates cf ti q reply) (\<lambda>refused s. undesignated cf ti s \<and> (\<not> refused \<longrightarrow> settled cf ti s)) (left_settled cf ti)"
  unfolding prose_gates_def or_else_def
  apply (rule wp_start)
   apply (rule wp_flow ledger_gate_left [THEN wp_spec] wp_idle idle_gates)+
  apply (auto dest: undesignated_idle idle_keeps)
  done

lemma idle_trail: "stays (idle cf ti) (trail_read cf)"
  by (intro idle_rules)

lemma prose_exit_left:
  "valid (undesignated cf ti) (prose_exit cf ti q reply) (\<lambda>_. undesignated cf ti) (left_settled cf ti)"
  unfolding prose_exit_def finish_done_def
  apply (rule wp_start)
   apply (rule wp_rules prose_gates_left [THEN wp_spec] wp_idle idle_trail)+
  apply (auto dest: idle_keeps)
  done

lemma ask_user_left:
  "valid (answer_ok cf ti) (ask_user_exit cf ti w q reply c) (\<lambda>_. answer_ok cf ti) (left_settled cf ti)"
proof -
  have idle: "stays (idle cf ti) (judge cf (read f) kind)" for f kind
    by (intro quiet_idle stays_judge quiet_rules)
  show ?thesis
    unfolding ask_user_exit_def
    apply (rule wp_start)
     apply (rule wp_rules wp_idle idle idle_emit idle_refuse_once)+
    apply (auto simp: FINAL_STATUSES_def state_facts live_def split: prod.splits)
    done
qed

lemma settle_budget_left:
  "valid (in_hand cf ti) (settle_budget cf ti w reply) (\<lambda>_. in_hand cf ti) (left_settled cf ti)"
proof -
  have idle: "stays (idle cf ti) (over_budget cf)" by (intro quiet_idle stays_over_budget)
  show ?thesis
    unfolding settle_budget_def
    apply (rule wp_start)
     apply (rule wp_rules wp_idle idle idle_emit)+
    apply (auto simp: FINAL_STATUSES_def state_facts live_def)
    done
qed

lemma ask_model_left:
  "valid (in_hand cf ti) (ask_model cf tools discovery ti w q) (\<lambda>_. undesignated cf ti) (left_settled cf ti)"
proof -
  have idle: "stays (idle cf ti) (build_canonical_messages cf ti q discovery nudge noted)" "stays (idle cf ti) (ask_world f)" for nudge noted f
    by (intro quiet_idle stays_build stays_ask_world)+
  show ?thesis
    unfolding ask_model_def begin_window_round_def
    apply (rule wp_start)
     apply (rule wp_rules wp_idle idle idle_emit)+
    apply (auto simp: undesignated_def state_facts live_def)
    done
qed

lemma one_round_left:
  "valid (in_hand cf ti) (one_round cf tools discovery ti w q) (\<lambda>_. in_hand cf ti) (left_settled cf ti)"
proof -
  have idle: "stays (idle cf ti) end_drain" by (intro quiet_idle stays_notes)
  have calls: "undesignated cf ti s \<Longrightarrow> calls_from cf ti cs s" for s cs
    by (auto simp: undesignated_def calls_from_def answer_ok_def)
  show ?thesis
    unfolding one_round_def finish_done_def
    apply (rule wp_start)
     apply (rule wp_rules ask_model_left [THEN wp_spec] prose_exit_left [THEN wp_spec] drain_left [OF capped_sorted, THEN wp_spec]
        ask_user_left [THEN wp_spec] settle_budget_left [THEN wp_spec] wp_idle idle idle_trail)+
    apply (auto simp: calls split: option.splits)
    apply (auto simp: state_facts)
    done
qed

section \<open>The window\<close>

text \<open>What runs where the fuel is spent is assumed to keep the condition; with fuel enough it never runs.\<close>

lemma rounds_left_settled:
  assumes "valid (in_hand cf ti) stuck (\<lambda>_. in_hand cf ti) (left_settled cf ti)"
  shows "valid (in_hand cf ti) (rounds stuck n cf tools discovery ti w q) (\<lambda>_. in_hand cf ti) (left_settled cf ti)"
  by (induction n) (simp_all add: assms valid_and_then [OF one_round_left])

lemma conversation_live:
  assumes "conversation cf s = (Next d, t)"
  shows "live cf ti t = live_analysis_state d ti"
  using assms
  by (auto simp: conversation_def session_of_def and_then_next consult_def on_store_def live_def
      dest!: created_views(3) split: prod.splits)

lemma open_window_left:
  "valid (\<lambda>_. True) (open_window cf ti w a served sigs) (\<lambda>_. in_hand cf ti) (left_settled cf ti)"
proof -
  have doc: "valid (\<lambda>_. True) (conversation cf) (\<lambda>d s. live cf ti s = live_analysis_state d ti) E" for E
    by (rule validI) (auto dest: conversation_live simp: stays_no_return [OF stays_conversation])
  show ?thesis
    unfolding open_window_def Let_def
    apply (rule wp_start)
     apply (rule wp_flow doc [THEN wp_spec] wp_idle quiet_idle [OF stays_consult])+
    apply (auto simp: in_hand_def live_def)
    done
qed

lemma window_left:
  assumes "valid (in_hand cf ti) stuck (\<lambda>_. in_hand cf ti) (left_settled cf ti)"
  shows "valid (\<lambda>_. True) (run_loop_body stuck n cf ti w q a) (\<lambda>_. in_hand cf ti) (left_settled cf ti)"
proof -
  have idle: "stays (idle cf ti) (ask_world f)" "stays (idle cf ti) (discovered cf)" for f
    by (intro quiet_idle stays_ask_world stays_discovered)+
  show ?thesis
    unfolding run_loop_body_def
    apply (rule wp_start)
     apply (rule wp_flow open_window_left [THEN wp_spec] rounds_left_settled [OF assms, THEN wp_spec] wp_idle idle)+
    apply auto
    done
qed

end
