(* ===== verification/TurnOutcomes.thy ===== *)
theory TurnOutcomes
  imports TurnLeaving RequestFacts
begin

text \<open>
  Whole turns, fresh and resumed: they return, they change the conversation only by the steps of a turn,
  they end with a settled ledger, and what they return is what they stored.
\<close>

section \<open>Turns return\<close>

lemma resume_returns:
  assumes "fuel_enough cf \<le> n" "fuel_enough cf \<le> k"
  shows "resume_turn stuck n cf a s = resume_turn stuck' k cf a s"
proof -
  have window: "run_loop_body stuck n cf ti w q acc = run_loop_body stuck' k cf ti w q acc" for ti w q acc
    using window_returns [OF assms] by (rule ext)
  show ?thesis by (simp only: resume_turn_def continue_turn_def resume_blueprint_def window)
qed

lemma run_returns:
  assumes "fuel_enough cf \<le> n" "fuel_enough cf \<le> k"
  shows "run_turn stuck n cf m s = run_turn stuck' k cf m s"
proof -
  have window: "run_loop_body stuck n cf ti w q acc = run_loop_body stuck' k cf ti w q acc" for ti w q acc
    using window_returns [OF assms] by (rule ext)
  show ?thesis by (simp only: run_turn_def fresh_turn_def [abs_def] window)
qed

section \<open>Turns are made of steps\<close>

lemma resumed_document:
  assumes "resume_checkpoint clk sid cas answer st = (Inr doc, st')"
  shows "doc_of st' sid = Some doc" "\<exists>d. doc_of st sid = Some d \<and> turn_index_of doc = turn_index_of d"
proof -
  obtain d c v where d: "doc_of st sid = Some d" and doc: "doc = d\<lparr>sd_pause_checkpoint := Some (c\<lparr>pc_consumed := True\<rparr>),
      sd_messages := sd_messages d @ [\<lparr>tm_turn_index = turn_index_of d, tm_role = ''user'', tm_content = answer,
        tm_ts = clk 0, tm_provenance = Some {||}\<rparr>], sd_last_activity := clk 1\<rparr>"
    and st': "st' = bump_version sid (put_doc sid doc st)"
    using assms by (auto simp: resume_checkpoint_def turn_index_of_def Let_def doc_of_def split: option.splits sum.splits if_splits)
  show "doc_of st' sid = Some doc" by (simp add: st' write_views)
  show "\<exists>d. doc_of st sid = Some d \<and> turn_index_of doc = turn_index_of d"
    using d doc by (simp add: turn_index_of_def)
qed

lemma opened_document:
  assumes "get_session_with_cas clk sid st = (Inr (d, cas), st')"
  shows "fst (get_or_create_session clk sid st) = d" "doc_of st' sid = Some d" "turn_step sid ti st st'"
proof -
  obtain d' st1 where g: "get_or_create_session clk sid st = (d', st1)" by fastforce
  with assms have e: "d' = d" "st1 = st'" by (auto simp: get_session_with_cas_def rbind_eq_Inr)
  with g show "fst (get_or_create_session clk sid st) = d" by simp
  from get_or_create_views(1) [OF g] e show "doc_of st' sid = Some d" by simp
  from turn_step.opened [of sid ti st clk] g e show "turn_step sid ti st st'" by simp
qed

lemma reopened:
  assumes "reopen cf answer s = (Next (doc0, doc), s')"
  shows "turn_index_of doc = turn_index_of (document_read cf s)" "live cf ti s' = live_analysis_state doc ti"
proof -
  obtain clk w clk' w' cas st1 where
    o: "am_now cf (rq_world s) = (clk, w)" "get_session_with_cas clk (am_session cf) (rq_store s) = (Inr (doc0, cas), st1)"
    and r: "resume_checkpoint clk' (am_session cf) cas answer st1 = (Inr doc, rq_store s')"
    using assms unfolding reopen_def on_store_result_def
    by (auto elim!: and_then_nextE simp: on_store_def consult_def lift_def pure_def split: prod.splits sum.splits)
  note d = opened_document(1,2) [OF o(2)] and d' = resumed_document [OF r]
  show "turn_index_of doc = turn_index_of (document_read cf s)"
    using d d'(2) o(1) by (simp add: document_read_def)
  show "live cf ti s' = live_analysis_state doc ti"
    using d'(1) by (simp add: live_def live_of_def)
qed

lemma stays_store_step:
  assumes "\<And>st. turn_step (am_session cf) ti st (snd (f st))"
  shows "stays (steps cf ti) (on_store f)"
proof -
  have "steps cf ti s (s\<lparr>rq_store := st\<rparr>)" if "f (rq_store s) = (x, st)" for s x st
    using assms [of "rq_store s"] that by (auto simp: steps_def)
  then show ?thesis by (auto simp: stays_def on_store_def split: prod.split)
qed

lemma reopen_steps: "stays (steps cf ti) (reopen cf answer)"
proof -
  have "snd (get_session_with_cas clk sid st) = snd (get_or_create_session clk sid st)" for clk sid st
    by (simp add: get_session_with_cas_def case_prod_unfold Let_def)
  then have "stays (steps cf ti) (on_store (get_session_with_cas clk (am_session cf)))" for clk
    by (intro stays_store_step) (simp add: turn_step.opened)
  moreover have "stays (steps cf ti) (on_store (resume_checkpoint clk (am_session cf) cas answer))" for clk cas
    by (intro stays_store_step turn_step.resume)
  moreover have "stays (steps cf ti) (consult f)" for f :: "'a \<Rightarrow> _"
    by (rule stays_mono [OF stays_consult [where cf = cf and ti = ti]]) (simp add: quiet_def steady_def)
  ultimately show ?thesis
    unfolding reopen_def on_store_result_def by (intro run.stay_rules)
qed

lemma seeds_steps: "preserves (steps cf ti) (turn_seeds cf ti')" "preserves (steps cf ti) (conversation cf)"
  "preserves (steps cf ti) (store_full_result cf r)" "preserves (steps cf ti) (append_entry cf e)"
  by (intro to_steps stays_preserves stays_steady stays_seeds stays_conversation stays_full_result stays_append_entry)+

lemma resume_blueprint_steps:
  assumes "preserves (steps cf ti) stuck"
  shows "preserves (steps cf ti) (resume_blueprint stuck n cf ex c a ti w)"
proof -
  have quiet: "preserves (steps cf ti) m" if "stays (quiet cf ti) m" for m :: "('a, 'b) turn"
    using that by (intro to_steps stays_preserves stays_steady)
  show ?thesis
    unfolding resume_blueprint_def Let_def
    by (intro run.rules window_steps [OF assms] to_steps [OF pause_steady] seeds_steps quiet stays_run_tool quiet_rules)
qed

text \<open>The steps of a fresh turn and of a resumed one; the turn's index is read from the stored conversation.\<close>

lemma and_then_steps:
  assumes "stays (steps cf ti) m" and "\<And>a t. m s = (Next a, t) \<Longrightarrow> steps cf ti t (snd (f a t))"
  shows "steps cf ti s (snd (and_then m f s))"
proof -
  have "steps cf ti s (snd (m s))" using assms(1) by (simp add: stays_def)
  then show ?thesis
    using assms(2) by (auto simp: and_then_def split: prod.splits flow.splits intro: steps_trans)
qed

lemma to_run: "stays (quiet cf ti) m \<Longrightarrow> stays (steps cf ti) m"
  by (erule stays_mono) (simp add: quiet_def steady_def)

lemma conversation_next: "conversation cf s = (Next d, t) \<Longrightarrow> d = document_read cf s"
  unfolding conversation_def by (rule session_of_next)

lemma fresh_steps:
  assumes "preserves (steps cf (next_turn_index doc)) stuck"
  shows "preserves (steps cf (next_turn_index doc)) (fresh_turn stuck n cf m doc)"
  unfolding fresh_turn_def
  by (intro run.rules window_steps assms stays_preserves [OF to_run] stays_now stays_writing turn_step.message live_writes)

lemma run_turn_steps:
  assumes "\<And>ti. preserves (steps cf ti) stuck"
  shows "steps cf (next_turn_index (document_read cf s)) s (snd (run_turn stuck n cf m s))"
  unfolding run_turn_def
proof (rule and_then_steps [OF to_run [OF stays_conversation]])
  fix d t
  assume c: "conversation cf s = (Next d, t)"
  have "preserves (steps cf (next_turn_index d)) (fresh_turn stuck n cf m d)" by (intro fresh_steps assms)
  then show "steps cf (next_turn_index (document_read cf s)) t (snd (fresh_turn stuck n cf m d t))"
    using conversation_next [OF c] by (simp add: preserves_def)
qed

lemma stop_steps: "preserves (steps cf ti) (stop_turn cf doc ti)"
  unfolding stop_turn_def
  by (intro run.rules seeds_steps to_steps [OF stays_preserves [OF stays_force_blocked]]
      stays_preserves [OF to_run [OF stays_trail]] preserves_modify) (simp_all add: steps_def RUNTIME_REASON_CODES_def)

lemma continue_steps:
  assumes "preserves (steps cf (turn_index_of doc)) stuck"
  shows "preserves (steps cf (turn_index_of doc)) (continue_turn stuck n cf answer doc0 doc)"
  unfolding continue_turn_def Let_def
  by (intro run.rules seeds_steps stop_steps resume_blueprint_steps window_steps assms)

lemma resume_turn_steps:
  assumes "\<And>ti. preserves (steps cf ti) stuck"
  shows "steps cf (turn_index_of (document_read cf s)) s (snd (resume_turn stuck n cf answer s))"
  unfolding resume_turn_def
proof (rule and_then_steps [OF reopen_steps], clarify)
  fix doc0 doc t
  assume r: "reopen cf answer s = (Next (doc0, doc), t)"
  have "preserves (steps cf (turn_index_of doc)) (continue_turn stuck n cf answer doc0 doc)" by (intro continue_steps assms)
  then show "steps cf (turn_index_of (document_read cf s)) t (snd (continue_turn stuck n cf answer doc0 doc t))"
    using reopened(1) [OF r] by (simp add: preserves_def)
qed

section \<open>A settled ledger\<close>

text \<open>A program that runs after a part which does not leave the turn.\<close>

lemma returned_after:
  assumes "stays R m" and "and_then m f s = (Return o', s')"
  obtains a t where "m s = (Next a, t)" "f a t = (Return o', s')"
  using assms stays_no_return [OF assms(1)] by (auto simp: and_then_def split: prod.splits flow.splits)

text \<open>Without fuel the model raises.\<close>

lemma raising_left: "valid (in_hand cf ti) (raising e) (\<lambda>_. in_hand cf ti) (left_settled cf ti)"
  by (rule wp_start [OF wp_raising]) simp

lemma fresh_left:
  "valid (\<lambda>_. True) (fresh_turn (raising e) n cf m doc) (\<lambda>_ _. True) (left_settled cf (next_turn_index doc))"
  unfolding fresh_turn_def
  apply (rule wp_start)
   apply (rule wp_flow window_left [OF raising_left, THEN wp_spec] wp_idle quiet_idle [OF stays_now]
      quiet_idle [OF stays_writing, of cf] turn_step.message live_writes)+
  apply auto
  done

lemma run_turn_left:
  assumes "run_turn (raising e) n cf m s = (Return o', s')"
  shows "left_settled cf (next_turn_index (document_read cf s)) o' s'"
  using assms unfolding run_turn_def
proof (rule returned_after [OF stays_conversation])
  fix d t
  assume c: "conversation cf s = (Next d, t)" and r: "fresh_turn (raising e) n cf m d t = (Return o', s')"
  from valid_return [OF fresh_left TrueI r] conversation_next [OF c] show ?thesis by simp
qed

lemma idle_seeds: "stays (idle cf ti) (turn_seeds cf ti')" "stays (idle cf ti) (conversation cf)" "stays (idle cf ti) (trail_read cf)"
  "stays (idle cf ti) (store_full_result cf r)" "stays (idle cf ti) (append_entry cf en)"
  "stays (idle cf ti) (run_runtime_tool h tool args t)" "stays (idle cf ti) (consult f)"
  by (intro quiet_idle stays_seeds stays_conversation stays_full_result stays_append_entry stays_run_tool stays_trail stays_consult)+

lemma resume_blueprint_left:
  "valid (\<lambda>_. True) (resume_blueprint (raising e) n cf ex c a ti w) (\<lambda>_ _. True) (left_settled cf ti)"
  unfolding resume_blueprint_def Let_def resumed_pause_def [abs_def]
  apply (rule wp_start)
   apply (rule wp_flow wp_pause window_left [OF raising_left, THEN wp_spec] wp_idle idle_seeds idle_emit)+
  apply (auto split: option.splits)
  done

lemma stop_left:
  "valid (\<lambda>s. live cf ti s = live_analysis_state doc ti) (stop_turn cf doc ti) (\<lambda>_ _. True) (left_settled cf ti)"
  unfolding stop_turn_def
  apply (rule wp_start)
   apply (rule wp_flow wp_force wp_idle idle_seeds)+
  apply (auto simp: state_facts live_def outcome_def)
  done

lemma continue_left:
  "valid (\<lambda>s. live cf (turn_index_of doc) s = live_analysis_state doc (turn_index_of doc))
     (continue_turn (raising e) n cf answer doc0 doc) (\<lambda>_ _. True) (left_settled cf (turn_index_of doc))"
  unfolding continue_turn_def Let_def
  apply (rule wp_start)
   apply (rule wp_flow resume_blueprint_left [THEN wp_spec] stop_left [THEN wp_spec] window_left [OF raising_left, THEN wp_spec]
      wp_idle idle_seeds)+
  apply (auto split: option.splits)
  done

lemma resume_turn_left:
  assumes "resume_turn (raising e) n cf answer s = (Return o', s')"
  shows "left_settled cf (turn_index_of (document_read cf s)) o' s'"
  using assms unfolding resume_turn_def
proof (rule returned_after [OF reopen_steps], clarify)
  fix doc0 doc t
  assume r: "reopen cf answer s = (Next (doc0, doc), t)" and c: "continue_turn (raising e) n cf answer doc0 doc t = (Return o', s')"
  from valid_return [OF continue_left reopened(2) [OF r] c] reopened(1) [OF r] show ?thesis by simp
qed

section \<open>What is returned was stored\<close>

definition said :: "'w turn_config \<Rightarrow> turn_message \<Rightarrow> 'w turn_state \<Rightarrow> bool" where
  "said cf m s \<longleftrightarrow> (\<exists>d. doc_of (rq_store s) (am_session cf) = Some d \<and> sd_messages d \<noteq> [] \<and> last (sd_messages d) = m)"

definition waiting :: "'w turn_config \<Rightarrow> pause_checkpoint \<Rightarrow> 'w turn_state \<Rightarrow> bool" where
  "waiting cf c s \<longleftrightarrow> (\<exists>d. doc_of (rq_store s) (am_session cf) = Some d \<and> sd_pause_checkpoint d = Some c)"

definition PAUSED_STATUSES :: "string set" where
  "PAUSED_STATUSES = {''paused_ask_user'', ''paused_budget_cap''}"

text \<open>An answer is the last message of the conversation, as returned; a pause is a checkpoint that can be resumed.\<close>

definition published :: "'w turn_config \<Rightarrow> int \<Rightarrow> turn_outcome \<Rightarrow> 'w turn_state \<Rightarrow> bool" where
  "published cf ti o' s \<longleftrightarrow>
     (to_status o' = ''done'' \<and> to_text o' \<noteq> None \<longrightarrow> (\<exists>ts. said cf \<lparr>tm_turn_index = ti, tm_role = ''assistant'',
        tm_content = the (to_text o'), tm_ts = ts, tm_provenance = to_provenance o'\<rparr> s)) \<and>
     (to_status o' \<in> PAUSED_STATUSES \<longrightarrow> (\<exists>c. waiting cf c s \<and> \<not> pc_consumed c \<and> pc_pending_question c = to_pending_question o'))"

definition leaves :: "(turn_outcome \<Rightarrow> 'w turn_state \<Rightarrow> bool) \<Rightarrow> ('w, 'a) turn \<Rightarrow> bool" where
  "leaves E m \<longleftrightarrow> valid (\<lambda>_. True) m (\<lambda>_ _. True) E"

lemma leaves_stays: "stays R m \<Longrightarrow> leaves E m"
  by (auto simp: leaves_def valid_def stays_no_return split: prod.split flow.split)

lemma leaves_and_then: "leaves E m \<Longrightarrow> (\<And>a. leaves E (f a)) \<Longrightarrow> leaves E (and_then m f)"
  unfolding leaves_def by (rule valid_and_then)

lemma leaves_cases:
  "leaves E m \<Longrightarrow> leaves E n \<Longrightarrow> leaves E (if b then m else n)"
  "leaves E m \<Longrightarrow> (\<And>y. leaves E (f y)) \<Longrightarrow> leaves E (case x of None \<Rightarrow> m | Some y \<Rightarrow> f y)"
  "(\<And>a b. leaves E (g a b)) \<Longrightarrow> leaves E (case p of (a, b) \<Rightarrow> g a b)"
  by (auto split: option.split prod.split)

lemma leaves_plain: "leaves E (pure a)" "leaves E (read f)" "leaves E (modify g)" "leaves E (lift r)" "leaves E (raising e)"
  by (auto simp: leaves_def valid_def pure_def read_def modify_def lift_def raising_def split: sum.split)

lemma stored_message: "writing cf (\<lambda>clk sid. append_message clk sid m) s = (x, s') \<Longrightarrow> said cf m s'"
  by (auto simp: writing_def and_then_def consult_def on_store_def said_def append_message_def mutate_def
      split: prod.splits)

lemma stored_checkpoint: "writing cf (\<lambda>clk sid. write_pause_checkpoint clk sid c) s = (x, s') \<Longrightarrow> waiting cf c s'"
  by (auto simp: writing_def and_then_def consult_def on_store_def waiting_def write_pause_checkpoint_def mutate_def
      split: prod.splits)

lemma writes_no_return [simp]:
  "writing cf (\<lambda>clk sid. append_message clk sid m) s \<noteq> (Return r, s')"
  "writing cf (\<lambda>clk sid. write_pause_checkpoint clk sid c) s \<noteq> (Return r, s')"
proof -
  have "stays (quiet cf 0) (writing cf (\<lambda>clk sid. append_message clk sid m))"
    "stays (quiet cf 0) (writing cf (\<lambda>clk sid. write_pause_checkpoint clk sid c))"
    by (intro stays_writing turn_step.message turn_step.pause live_writes)+
  then show "writing cf (\<lambda>clk sid. append_message clk sid m) s \<noteq> (Return r, s')"
    "writing cf (\<lambda>clk sid. write_pause_checkpoint clk sid c) s \<noteq> (Return r, s')"
    by (simp_all add: stays_no_return)
qed

lemma wp_message: "valid (\<lambda>s. \<forall>t. said cf m t \<longrightarrow> Q () t) (writing cf (\<lambda>clk sid. append_message clk sid m)) Q E"
  by (rule validI) (auto dest: stored_message)

lemma wp_checkpoint: "valid (\<lambda>s. \<forall>t. waiting cf c t \<longrightarrow> Q () t) (writing cf (\<lambda>clk sid. write_pause_checkpoint clk sid c)) Q E"
  by (rule validI) (auto dest: stored_checkpoint)

lemma wp_emit: "valid (\<lambda>s. Q () (s\<lparr>rq_events := rq_events s @ evs\<rparr>)) (emit evs) Q E"
  unfolding emit_def by (rule wp_modify)

lemma wp_now: "valid (\<lambda>s. \<forall>a w. Q a (s\<lparr>rq_world := w\<rparr>)) (now_iso cf) Q E"
  by (rule validI) (auto simp: now_iso_def and_then_def consult_def pure_def split: prod.splits)

lemma events_kept [simp]:
  "said cf m (s\<lparr>rq_events := evs\<rparr>) = said cf m s" "waiting cf c (s\<lparr>rq_events := evs\<rparr>) = waiting cf c s"
  by (simp_all add: said_def waiting_def)

lemma answer_published: "leaves (published cf ti) (finish cf ti ''done'' exit text None p True ev)"
  unfolding leaves_def finish_def persist_answer_def option.case if_True
  apply (rule wp_start)
   apply (rule wp_flow wp_message wp_emit wp_now)+
  apply (auto simp: published_def outcome_def PAUSED_STATUSES_def split: prod.splits option.splits)
  done

lemma pause_published:
  assumes "status \<in> PAUSED_STATUSES"
  shows "leaves (published cf ti) (finish cf ti status exit text (Some (plain_checkpoint reason question w)) None False ev)"
  unfolding leaves_def finish_def option.case if_False
  apply (rule wp_start)
   apply (rule wp_flow wp_checkpoint wp_emit)+
  using assms apply (auto simp: published_def outcome_def PAUSED_STATUSES_def plain_checkpoint_def split: prod.splits)
  done

lemma stop_published: "leaves (published cf ti) (finish cf ti ''stopped_hard_ceiling'' exit text None None False ev)"
  unfolding leaves_def finish_def option.case if_False
  apply (rule wp_start)
   apply (rule wp_flow wp_emit)+
  apply (auto simp: published_def outcome_def PAUSED_STATUSES_def split: prod.splits)
  done

lemma runtime_pause_published: "leaves (published cf ti) (pause_from_runtime_tool cf p w text tag
    (\<lambda>q t. outcome ''paused_ask_user'' t q None made a))"
  unfolding leaves_def pause_from_runtime_tool_def Let_def
  apply (rule wp_start)
   apply (rule wp_flow wp_checkpoint wp_emit)+
  apply (auto simp: published_def outcome_def PAUSED_STATUSES_def split: prod.splits)
  done

lemmas leave_flow = leaves_and_then leaves_cases leaves_plain
lemmas quiet_leaves = leaves_stays [where R = "quiet cf ti" for cf ti]
lemmas steady_leaves = leaves_stays [where R = "steady cf ti" for cf ti]

lemma done_published: "leaves (published cf ti) (finish_done cf ti exit text)"
  unfolding finish_done_def by (intro leave_flow answer_published leaves_stays [OF stays_trail])

lemma dispatched_published: "leaves (published cf ti) (dispatched_call cf ti w q reply c args tag d)"
  unfolding dispatched_call_def
  by (intro leave_flow runtime_pause_published quiet_leaves [where cf = cf and ti = ti] stays_notes stays_full_result stays_append_entry stays_fold_call stays_note_read
      steady_leaves [where cf = cf and ti = ti] stays_execute stays_refresh stays_gated stays_note_answer)

lemma drain_published: "leaves (published cf ti) (drain cf ti w q reply cs)"
proof (induction cs)
  case (Cons c cs)
  have "leaves (published cf ti) (drain_one cf ti w q reply c)"
    unfolding drain_one_def
    by (intro leave_flow dispatched_published quiet_leaves [where cf = cf and ti = ti] stays_notes stays_split_tag
        stays_classify_read stays_declined)
  with Cons show ?case by (simp add: leave_flow leaves_stays [OF stays_over_budget])
qed (simp add: leave_flow)

lemma prose_exit_published: "leaves (published cf ti) (prose_exit cf ti q reply)"
  unfolding prose_exit_def by (intro leave_flow done_published leaves_stays [OF prose_gates_steady])

lemma ask_user_published: "leaves (published cf ti) (ask_user_exit cf ti w q reply c)"
proof -
  have judged: "leaves (published cf ti) (judge cf (read f) kind)" for f kind
    by (intro quiet_leaves [where cf = cf and ti = ti] stays_judge quiet_rules)
  show ?thesis
    unfolding ask_user_exit_def
    by (intro leave_flow judged pause_published leaves_stays [OF stays_emit] leaves_stays [OF stays_refuse_once])
      (simp add: PAUSED_STATUSES_def)
qed

lemma settle_published: "leaves (published cf ti) (settle_budget cf ti w reply)"
  unfolding settle_budget_def
  by (intro leave_flow pause_published stop_published leaves_stays [OF stays_over_budget] leaves_stays [OF stays_force_blocked])
    (simp_all add: PAUSED_STATUSES_def RUNTIME_REASON_CODES_def)

lemma one_round_published: "leaves (published cf ti) (one_round cf tools discovery ti w q)"
  unfolding one_round_def
  by (intro leave_flow prose_exit_published drain_published ask_user_published done_published settle_published
      leaves_stays [OF stays_ask_model] leaves_stays [OF stays_notes(4)])

lemma rounds_published: "leaves (published cf ti) (rounds (raising e) n cf tools discovery ti w q)"
  by (induction n) (simp_all add: leave_flow one_round_published)

lemma window_published: "leaves (published cf ti) (run_loop_body (raising e) n cf ti w q a)"
  unfolding run_loop_body_def open_window_def Let_def
  by (intro leave_flow rounds_published leaves_stays [OF stays_ask_world] leaves_stays [OF stays_discovered]
      leaves_stays [OF stays_consult] leaves_stays [OF stays_conversation])

lemma fresh_published: "leaves (published cf (next_turn_index doc)) (fresh_turn (raising e) n cf m doc)"
  unfolding fresh_turn_def
  by (intro leave_flow window_published quiet_leaves [where cf = cf and ti = 0] stays_now stays_writing turn_step.message live_writes)

lemma run_turn_published:
  assumes "run_turn (raising e) n cf m s = (Return o', s')"
  shows "published cf (next_turn_index (document_read cf s)) o' s'"
  using assms unfolding run_turn_def
proof (rule returned_after [OF stays_conversation])
  fix d t
  assume c: "conversation cf s = (Next d, t)" and r: "fresh_turn (raising e) n cf m d t = (Return o', s')"
  from valid_return [OF fresh_published [unfolded leaves_def] TrueI r] conversation_next [OF c] show ?thesis by simp
qed

end
