(* ===== verification/TurnProperties.thy ===== *)
theory TurnProperties
  imports TurnOutcomes
begin

text \<open>
  What a turn promises to its callers: it returns, it writes only by the steps the ledger's invariant
  covers, an answer leaves no intent pending, and what is returned is what is stored.
\<close>

section \<open>A sample turn\<close>

text \<open>The world is the model's script: the replies it will give, in order.\<close>

definition said_only :: "string \<Rightarrow> model_reply" where
  "said_only t = \<lparr>mr_text = Some t, mr_calls = [], mr_total_tokens = 10, mr_incomplete_reason = None\<rparr>"

definition declaring :: model_reply where
  "declaring = \<lparr>mr_text = None, mr_calls = [\<lparr>mc_id = ''c1'', mc_name = ''updateAnalysisState'', mc_arguments =
     [(''intents'', PList [PDict [(''description'', PStr ''headcount''), (''intent_id'', PStr []), (''status'', PStr ''pending'')]])]\<rparr>],
     mr_total_tokens = 10, mr_incomplete_reason = None\<rparr>"

definition next_reply :: "pyval list \<Rightarrow> message list \<Rightarrow> model_reply list \<Rightarrow> model_reply result \<times> model_reply list" where
  "next_reply tools ms w = (case w of [] \<Rightarrow> (Inl (OtherError ''silent''), []) | r # w' \<Rightarrow> (Inr r, w'))"

definition sample_turn :: "model_reply list turn_config" where
  "sample_turn = \<lparr>am_session = ''s1'', am_scope = {''d.t.c''}, am_now = (\<lambda>w. (\<lambda>_. ''2024-01-31T00:00:00'', w)),
     am_preview_rows = 5, am_retrieval = None, am_base_prompt = Some ''p'', am_sha256 = (\<lambda>x. x), am_token_budget = None,
     am_pinned_pairs = 2, tc_tools = (\<lambda>w. (Inr [], w)), tc_send = next_reply, tc_discovery = None, tc_state_tool = True,
     tc_handlers = (\<lambda>_. None), tc_dispatch = (\<lambda>_ _ _ _ w. ((Inl (OtherError ''down''), []), w)),
     tc_sql_provenance = (\<lambda>_ _. None), tc_hooks = dormant, tc_resume_blueprint = None,
     tc_loads = (\<lambda>_. Inl (ValueError ''json'')), tc_judge = None, tc_judge_headroom = 0, tc_monotonic = (\<lambda>w. (0, w)),
     tc_uuid = (\<lambda>w. (''u'', w)), tc_max_iterations = 4, tc_max_wall_clock = 60, tc_max_windows = 1,
     tc_max_tokens = None, tc_max_calls = 3\<rparr>"

definition before_turn :: "model_reply list \<Rightarrow> model_reply list turn_state" where
  "before_turn script = \<lparr>rq_store = empty_store, rq_world = script, rq_events = [], rq_memo = [], rq_withheld = [],
     tn_guard = new_budget_guard 0 0 None 0, tn_reads = new_read_guard, tn_blueprints = new_blueprint_gate,
     tn_shape = new_answer_shape False, tn_gate = new_gate 0 1, tn_accum = empty_accumulators, tn_analysis = None,
     tn_calls_made = 0, tn_last_text = None, tn_nudge = None, tn_notes = [], tn_substantive = False,
     tn_designated = None, tn_judge_refusal = None, tn_state_calls = 0\<rparr>"

text \<open>The status, the text and the statuses of the stored intents of a turn that returned.\<close>

definition summary :: "(turn_outcome, unit) flow \<times> model_reply list turn_state \<Rightarrow> (string \<times> string option \<times> string list) option" where
  "summary r = (case r of
     (Return o', s) \<Rightarrow> Some (to_status o', to_text o', (case live_of (rq_store s) ''s1'' 0 of None \<Rightarrow> [] | Some a \<Rightarrow> map ti_status (as_intents a)))
   | _ \<Rightarrow> None)"

text \<open>The model declares an intent, and the budget of one round is spent.\<close>

definition capped_run :: "(turn_outcome, unit) flow \<times> model_reply list turn_state" where
  "capped_run = run_turn (raising (OtherError ''fuel'')) 3 (sample_turn\<lparr>tc_max_iterations := 1\<rparr>) ''q'' (before_turn [declaring])"

text \<open>The model answers at once.\<close>

definition answered_run :: "(turn_outcome, unit) flow \<times> model_reply list turn_state" where
  "answered_run = run_turn (raising (OtherError ''fuel'')) 3 sample_turn ''q'' (before_turn [said_only ''42''])"

lemma capped_summary: "summary capped_run = Some (''stopped_hard_ceiling'', None, [''blocked''])"
  by code_simp

lemma answered_summary: "summary answered_run = Some (''done'', Some ''42'', [])"
  by code_simp

lemma summary_returns:
  assumes "summary r = Some (status, words, statuses)"
  obtains o' where "r = (Return o', snd r)" "to_status o' = status" "to_text o' = words"
  using assms by (cases r) (auto simp: summary_def split: flow.splits)

lemma first_turn: "next_turn_index (document_read (sample_turn\<lparr>tc_max_iterations := k\<rparr>) (before_turn script)) = 0"
  by (simp add: document_read_def before_turn_def sample_turn_def get_or_create_session_def empty_store_def
      next_turn_index_def new_session_doc_def Let_def)

section \<open>Properties\<close>



text \<open>
  C3: the loop refines the step relation of the ledger. Whatever the model replies and whatever the tools
  do, from the first read of the conversation to the outcome or the exception, the store changes only by
  steps of the turn: messages, trail entries, pauses, state calls with this turn's index, refusals claimed
  and forced blocks with a runtime reason. So the ledger's invariants hold in every turn.
\<close>

theorem turn_refines_steps:
  "turn_steps (am_session cf) (next_turn_index (document_read cf s)) (rq_store s)
     (rq_store (snd (run_turn (raising e) n cf message s))) \<and>
   turn_steps (am_session cf) (turn_index_of (document_read cf s)) (rq_store s)
     (rq_store (snd (resume_turn (raising e) n cf answer s)))"
  using run_turn_steps [of cf "raising e" s n message] resume_turn_steps [of cf "raising e" s n answer]
  by (simp add: steps_def run.rules)

text \<open>
  C1: no answer while work is pending. When a turn, fresh or resumed, is answered or stopped at its hard
  ceiling, no intent of its stored ledger is pending: each was completed, or blocked with its evidence or
  a runtime reason.
\<close>

theorem answer_leaves_nothing_pending:
  assumes "(r, ti) = (run_turn (raising e) n cf input s, next_turn_index (document_read cf s)) \<or>
      (r, ti) = (resume_turn (raising e) n cf input s, turn_index_of (document_read cf s))"
    and "r = (Return o', s')" and "to_status o' \<in> {''done'', ''stopped_hard_ceiling''}"
  shows "pending_intents (live_of (rq_store s') (am_session cf) ti) = []"
  using assms run_turn_left [of e n cf input s o' s'] resume_turn_left [of e n cf input s o' s']
  by (auto simp: left_settled_def FINAL_STATUSES_def live_def)

text \<open>The declared intent of the sample turn is blocked when the ceiling stops the turn.\<close>

theorem answer_leaves_nothing_pending_witness:
  "pending_intents (live_of (rq_store (snd capped_run)) ''s1'' 0) = [] \<and>
   summary capped_run = Some (''stopped_hard_ceiling'', None, [''blocked''])"
proof -
  obtain o' where o': "capped_run = (Return o', snd capped_run)" "to_status o' = ''stopped_hard_ceiling''"
    by (rule summary_returns [OF capped_summary])
  have "pending_intents (live_of (rq_store (snd capped_run)) (am_session (sample_turn\<lparr>tc_max_iterations := 1\<rparr>)) 0) = []"
    by (rule answer_leaves_nothing_pending [where o' = o', OF disjI1 o'(1)])
      (use first_turn [of 1 "[declaring]"] o' in \<open>auto simp: capped_run_def\<close>)
  then show ?thesis using capped_summary by (simp add: sample_turn_def)
qed



end
