(* ===== verification/CandidateRecords.thy ===== *)
theory CandidateRecords
  imports BlueprintModels
begin

text \<open>
  The stamps a learning candidate carries and their documents: the verdicts of \<^verbatim>\<open>candidate/verdicts.py\<close>,
  the generalised payload of \<^verbatim>\<open>candidate/generalization.py\<close>, the ranking inputs of
  \<^verbatim>\<open>candidate/signals.py\<close>, the decline block and the validation snapshot of \<^verbatim>\<open>candidate/decline.py\<close>,
  and the judge's assessment of \<^verbatim>\<open>audit/judgement.py\<close>. Each record has its \<^verbatim>\<open>to_doc\<close> and \<^verbatim>\<open>from_doc\<close> and
  reads back what it wrote. A float is the text of its \<^verbatim>\<open>repr\<close>.
\<close>

section \<open>Reading a document\<close>

text \<open>\<^verbatim>\<open>v.get\<close> on what is not a dict raises \<^verbatim>\<open>AttributeError\<close>; \<^verbatim>\<open>v["k"]\<close> raises \<^verbatim>\<open>TypeError\<close>.\<close>

definition no_attribute :: exc where
  "no_attribute = OtherError ''AttributeError''"

fun get_of :: "pyval \<Rightarrow> pydict result" where
  "get_of (PDict d) = Inr d"
| "get_of _ = Inl no_attribute"

fun item_of :: "pyval \<Rightarrow> string \<Rightarrow> pyval result" where
  "item_of (PDict d) k = need d k"
| "item_of _ k = Inl TypeError"

definition str_field :: "pydict \<Rightarrow> string \<Rightarrow> string \<Rightarrow> string result" where
  "str_field d k v = as_str (get_default d k (PStr v))"

text \<open>\<^verbatim>\<open>tuple(d.get(k, []) or [])\<close>, of values and of texts.\<close>

definition list_field :: "pydict \<Rightarrow> string \<Rightarrow> pyval list result" where
  "list_field d k = py_list (or_value (get_default d k (PList [])) (PList []))"

definition strs_field :: "pydict \<Rightarrow> string \<Rightarrow> string list result" where
  "strs_field d k = rbind (list_field d k) (mapM_r as_str)"

definition strs_doc :: "string list \<Rightarrow> pyval" where
  "strs_doc xs = PList (map PStr xs)"

text \<open>\<^verbatim>\<open>v if isinstance(v, str) else default\<close>\<close>

fun text_or :: "string \<Rightarrow> pyval \<Rightarrow> string" where
  "text_or w (PStr s) = s"
| "text_or w _ = w"

fun text_only :: "pyval \<Rightarrow> string option" where
  "text_only (PStr s) = Some s"
| "text_only _ = None"

fun dict_only :: "pyval \<Rightarrow> pydict option" where
  "dict_only (PDict d) = Some d"
| "dict_only _ = None"

text \<open>\<^verbatim>\<open>float(v)\<close>: an int below \<open>10\<^sup>1\<^sup>6\<close> prints with its digits and one zero.\<close>

fun py_float :: "pyval \<Rightarrow> string result" where
  "py_float (PFloat r) = Inr r"
| "py_float (PInt i) = (if \<bar>i\<bar> < 10 ^ 16 then Inr (show_int i @ ''.0'') else Inl (IllTyped ''float of a large int''))"
| "py_float (PBool b) = Inr (if b then ''1.0'' else ''0.0'')"
| "py_float (PStr s) = Inl (IllTyped ''float of a text'')"
| "py_float _ = Inl TypeError"

lemma strs_field_back [simp]:
  "map_of d k = Some (strs_doc xs) \<Longrightarrow> strs_field d k = Inr xs"
  using mapM_r_map [where g = PStr and f = as_str and h = "\<lambda>x. x" and xs = xs]
  by (cases "xs = []") (simp_all add: strs_field_def list_field_def get_default_def or_value_def strs_doc_def)

lemma str_field_back [simp]: "map_of d k = Some (PStr s) \<Longrightarrow> str_field d k v = Inr s"
  by (simp add: str_field_def get_default_def)

lemma list_field_back: "map_of d k = Some (PList xs) \<Longrightarrow> list_field d k = Inr xs"
  by (cases xs) (simp_all add: list_field_def get_default_def or_value_def)

lemma mapM_r_back:
  assumes "\<And>x. x \<in> set xs \<Longrightarrow> f (g x) = Inr x"
  shows "mapM_r f (map g xs) = Inr xs"
  using assms by (induction xs) auto

section \<open>The leakage verdict\<close>

definition SETTLED_RESULTS :: "string list" where
  "SETTLED_RESULTS = [''pass'', ''reroute'', ''quarantine'', ''reject'']"

text \<open>Membership in a frozen set: an unhashable value raises.\<close>

fun in_set :: "pyval \<Rightarrow> string list \<Rightarrow> bool result" where
  "in_set (PStr s) xs = Inr (s \<in> set xs)"
| "in_set (PList _) xs = Inl TypeError"
| "in_set (PDict _) xs = Inl TypeError"
| "in_set _ xs = Inr False"

record entity_hit =
  eh_field :: string
  eh_kind :: string
  eh_span :: string

definition hit_to_doc :: "entity_hit \<Rightarrow> pyval" where
  "hit_to_doc h = PDict [(''field'', PStr (eh_field h)), (''kind'', PStr (eh_kind h)), (''span'', PStr (eh_span h))]"

definition hit_from_doc :: "pyval \<Rightarrow> entity_hit result" where
  "hit_from_doc v = rbind (get_of v) (\<lambda>d. rbind (str_field d ''field'' []) (\<lambda>f. rbind (str_field d ''kind'' []) (\<lambda>k.
     rbind (str_field d ''span'' []) (\<lambda>s. Inr \<lparr>eh_field = f, eh_kind = k, eh_span = s\<rparr>))))"

record leakage_verdict =
  lv_result :: string
  lv_hits :: "entity_hit list"
  lv_scanned_fields :: "string list"
  lv_scanner :: string

definition leakage_to_doc :: "leakage_verdict \<Rightarrow> pydict" where
  "leakage_to_doc v = [(''result'', PStr (lv_result v)), (''hits'', PList (map hit_to_doc (lv_hits v))),
     (''scanned_fields'', strs_doc (lv_scanned_fields v)), (''scanner'', PStr (lv_scanner v))]"

definition is_settled :: "pydict \<Rightarrow> bool result" where
  "is_settled d = in_set (getv d ''result'') SETTLED_RESULTS"

definition leakage_from_doc :: "pydict \<Rightarrow> leakage_verdict result" where
  "leakage_from_doc d = rbind (is_settled d) (\<lambda>settled.
     if \<not> settled then Inl (ValueError (''LeakageVerdict.from_doc: result '' @ py_repr (getv d ''result'') @
       '' is not a settled verdict '' @ repr_strs (sort SETTLED_RESULTS) @ ''; use is_settled() first '' @
       ''(a pending S3 self-check is not a LeakageVerdict)''))
     else rbind (as_str (getv d ''result'')) (\<lambda>r. rbind (list_field d ''hits'') (\<lambda>hs. rbind (mapM_r hit_from_doc hs) (\<lambda>hits.
       rbind (strs_field d ''scanned_fields'') (\<lambda>fs. rbind (str_field d ''scanner'' []) (\<lambda>sc.
       Inr \<lparr>lv_result = r, lv_hits = hits, lv_scanned_fields = fs, lv_scanner = sc\<rparr>))))))"

lemma hit_back: "hit_from_doc (hit_to_doc h) = Inr h"
  by (simp add: hit_from_doc_def hit_to_doc_def)

lemma leakage_back:
  assumes "lv_result v \<in> set SETTLED_RESULTS"
  shows "leakage_from_doc (leakage_to_doc v) = Inr v"
proof -
  have hits: "mapM_r hit_from_doc (map hit_to_doc (lv_hits v)) = Inr (lv_hits v)"
    by (rule mapM_r_back) (simp add: hit_back)
  have "list_field (leakage_to_doc v) ''hits'' = Inr (map hit_to_doc (lv_hits v))"
    by (rule list_field_back) (simp add: leakage_to_doc_def)
  then show ?thesis
    using assms hits by (simp add: leakage_from_doc_def is_settled_def getv_def) (simp add: leakage_to_doc_def getv_def)
qed

section \<open>The dedup verdict and the drift stamp\<close>

record dedup_verdict =
  dv_canonical_key :: string
  dv_matched_id :: "string option"
  dv_similarity :: string
  dv_action :: string
  dv_layer :: string

definition dedup_to_doc :: "dedup_verdict \<Rightarrow> pyval" where
  "dedup_to_doc v = PDict [(''canonical_key'', PStr (dv_canonical_key v)), (''matched_id'', opt_str (dv_matched_id v)),
     (''similarity'', PFloat (dv_similarity v)), (''action'', PStr (dv_action v)), (''layer'', PStr (dv_layer v))]"

definition dedup_from_doc :: "pyval \<Rightarrow> dedup_verdict result" where
  "dedup_from_doc v = rbind (item_of v ''canonical_key'') (\<lambda>k. rbind (get_of v) (\<lambda>d. rbind (as_str k) (\<lambda>key.
     rbind (as_opt_str (getv d ''matched_id'')) (\<lambda>m. rbind (py_float (get_default d ''similarity'' (PFloat ''0.0''))) (\<lambda>s.
     rbind (need d ''action'') (\<lambda>a. rbind (as_str a) (\<lambda>action. rbind (need d ''layer'') (\<lambda>l. rbind (as_str l) (\<lambda>layer.
     Inr \<lparr>dv_canonical_key = key, dv_matched_id = m, dv_similarity = s, dv_action = action, dv_layer = layer\<rparr>)))))))))"

text \<open>The stored time of the check is read as it is: its reader tests the type itself.\<close>

record drift_stamp =
  dp_status :: string
  dp_last_drift_check_at :: pyval
  dp_probes :: "string list"
  dp_failed_probe :: "string option"

definition unchecked_drift :: drift_stamp where
  "unchecked_drift = \<lparr>dp_status = ''unchecked'', dp_last_drift_check_at = PNone, dp_probes = [], dp_failed_probe = None\<rparr>"

definition drift_to_doc :: "drift_stamp \<Rightarrow> pyval" where
  "drift_to_doc s = PDict [(''status'', PStr (dp_status s)), (''last_drift_check_at'', dp_last_drift_check_at s),
     (''probes'', strs_doc (dp_probes s)), (''failed_probe'', opt_str (dp_failed_probe s))]"

definition drift_from_doc :: "pyval \<Rightarrow> drift_stamp result" where
  "drift_from_doc v = rbind (get_of v) (\<lambda>d. rbind (str_field d ''status'' ''unchecked'') (\<lambda>s. rbind (strs_field d ''probes'') (\<lambda>ps.
     rbind (as_opt_str (getv d ''failed_probe'')) (\<lambda>f.
     Inr \<lparr>dp_status = s, dp_last_drift_check_at = getv d ''last_drift_check_at'', dp_probes = ps, dp_failed_probe = f\<rparr>))))"

lemma dedup_back: "dedup_from_doc (dedup_to_doc v) = Inr v"
  by (simp add: dedup_from_doc_def dedup_to_doc_def need_def getv_def get_default_def)

lemma drift_back: "drift_from_doc (drift_to_doc s) = Inr s"
  by (simp add: drift_from_doc_def drift_to_doc_def getv_def)

section \<open>The generalisation\<close>

record node_template =
  nt_order :: int
  nt_sql_template :: string

record static_validation =
  sv_explain_ok :: bool
  sv_binds_to_subset_uses :: bool
  sv_dag_ok :: bool
  sv_read_only_select :: bool
  sv_outcome :: string
  sv_reason :: "string option"

record generalization =
  gb_sql_template :: "string option"
  gb_uses :: "string list"
  gb_uses_rules :: "string list"
  gb_node_templates :: "node_template list"
  gb_result_grain :: result_grain
  gb_static_validation :: static_validation
  gb_canonical_ast_norm :: string

definition node_template_to_doc :: "node_template \<Rightarrow> pyval" where
  "node_template_to_doc n = PDict [(''order'', PInt (nt_order n)), (''sql_template'', PStr (nt_sql_template n))]"

definition node_template_from_doc :: "pyval \<Rightarrow> node_template result" where
  "node_template_from_doc v = rbind (item_of v ''order'') (\<lambda>i. rbind (item_of v ''sql_template'') (\<lambda>t.
     rbind (as_int i) (\<lambda>n. rbind (as_str t) (\<lambda>s. Inr \<lparr>nt_order = n, nt_sql_template = s\<rparr>))))"

definition grain_to_doc :: "result_grain \<Rightarrow> pyval" where
  "grain_to_doc g = PDict [(''columns'', strs_doc (rg_columns g)), (''verifiable'', PBool (rg_verifiable g))]"

definition grain_from_doc :: "pyval \<Rightarrow> result_grain result" where
  "grain_from_doc v = rbind (get_of v) (\<lambda>d. rbind (strs_field d ''columns'') (\<lambda>cs.
     Inr \<lparr>rg_columns = cs, rg_verifiable = py_truthy (get_default d ''verifiable'' (PBool True))\<rparr>))"

definition static_to_doc :: "static_validation \<Rightarrow> pyval" where
  "static_to_doc s = PDict [(''explain_ok'', PBool (sv_explain_ok s)), (''binds_to_subset_uses'', PBool (sv_binds_to_subset_uses s)),
     (''dag_ok'', PBool (sv_dag_ok s)), (''read_only_select'', PBool (sv_read_only_select s)), (''outcome'', PStr (sv_outcome s)),
     (''reason'', opt_str (sv_reason s))]"

definition static_from_doc :: "pyval \<Rightarrow> static_validation result" where
  "static_from_doc v = rbind (item_of v ''explain_ok'') (\<lambda>e. rbind (item_of v ''binds_to_subset_uses'') (\<lambda>b.
     rbind (item_of v ''dag_ok'') (\<lambda>g. rbind (item_of v ''read_only_select'') (\<lambda>r. rbind (item_of v ''outcome'') (\<lambda>ov.
     rbind (as_str ov) (\<lambda>outcome. rbind (get_of v) (\<lambda>d. rbind (as_opt_str (getv d ''reason'')) (\<lambda>reason.
     Inr \<lparr>sv_explain_ok = py_truthy e, sv_binds_to_subset_uses = py_truthy b, sv_dag_ok = py_truthy g,
       sv_read_only_select = py_truthy r, sv_outcome = outcome, sv_reason = reason\<rparr>))))))))"

definition generalization_to_doc :: "generalization \<Rightarrow> pydict" where
  "generalization_to_doc g = [(''sql_template'', opt_str (gb_sql_template g)), (''uses'', strs_doc (gb_uses g)),
     (''uses_rules'', strs_doc (gb_uses_rules g)), (''node_templates'', PList (map node_template_to_doc (gb_node_templates g))),
     (''result_grain'', grain_to_doc (gb_result_grain g)), (''static_validation'', static_to_doc (gb_static_validation g)),
     (''canonical_ast_norm'', PStr (gb_canonical_ast_norm g))]"

definition generalization_from_doc :: "pydict \<Rightarrow> generalization result" where
  "generalization_from_doc d = rbind (as_opt_str (getv d ''sql_template'')) (\<lambda>t. rbind (strs_field d ''uses'') (\<lambda>us.
     rbind (strs_field d ''uses_rules'') (\<lambda>rs. rbind (list_field d ''node_templates'') (\<lambda>nvs. rbind (mapM_r node_template_from_doc nvs) (\<lambda>ns.
     rbind (grain_from_doc (or_value (get_default d ''result_grain'' (PDict [])) (PDict []))) (\<lambda>g.
     rbind (need d ''static_validation'') (\<lambda>svv. rbind (static_from_doc svv) (\<lambda>s. rbind (str_field d ''canonical_ast_norm'' []) (\<lambda>c.
     Inr \<lparr>gb_sql_template = t, gb_uses = us, gb_uses_rules = rs, gb_node_templates = ns, gb_result_grain = g,
       gb_static_validation = s, gb_canonical_ast_norm = c\<rparr>)))))))))"

lemma generalization_parts_back:
  "node_template_from_doc (node_template_to_doc n) = Inr n"
  "grain_from_doc (grain_to_doc g) = Inr g"
  "static_from_doc (static_to_doc s) = Inr s"
  by (simp_all add: node_template_from_doc_def node_template_to_doc_def grain_from_doc_def grain_to_doc_def static_from_doc_def
      static_to_doc_def need_def getv_def get_default_def)

lemma generalization_back: "generalization_from_doc (generalization_to_doc g) = Inr g"
proof -
  have "list_field (generalization_to_doc g) ''node_templates'' = Inr (map node_template_to_doc (gb_node_templates g))"
    by (rule list_field_back) (simp add: generalization_to_doc_def)
  moreover have "mapM_r node_template_from_doc (map node_template_to_doc (gb_node_templates g)) = Inr (gb_node_templates g)"
    by (rule mapM_r_back) (simp add: generalization_parts_back)
  moreover have "or_value (grain_to_doc (gb_result_grain g)) (PDict []) = grain_to_doc (gb_result_grain g)"
    by (simp add: or_value_def grain_to_doc_def)
  ultimately show ?thesis
    by (simp add: generalization_from_doc_def getv_def get_default_def need_def)
      (simp add: generalization_to_doc_def generalization_parts_back getv_def get_default_def need_def)
qed

section \<open>The ranking inputs\<close>

fun count_of :: "pyval \<Rightarrow> int" where
  "count_of (PInt i) = (if i \<ge> 0 then i else 0)"
| "count_of _ = 0"

text \<open>
  A score clamped to the unit interval, on the text of a float: it is negative when it starts with a
  minus sign, and from one on unless it starts with a zero or has a negative exponent.
\<close>

definition unit_text :: "string \<Rightarrow> string" where
  "unit_text r = (if r = ''nan'' \<or> take 1 r = ''-'' then ''0.0'' else if r = ''inf'' then ''1.0''
     else if prefix ''0.'' r \<or> sublist ''e-'' r then r else ''1.0'')"

fun unit_of :: "pyval \<Rightarrow> string" where
  "unit_of (PInt i) = (if i \<le> 0 then ''0.0'' else ''1.0'')"
| "unit_of (PFloat r) = unit_text r"
| "unit_of _ = ''0.0''"

record session_signals =
  sn_accepted_signal :: "string option"
  sn_turn_count :: int
  sn_failed_fixed_count :: int
  sn_askuser_count :: int
  sn_corrected_blueprint :: bool

definition signals_to_doc :: "session_signals \<Rightarrow> pydict" where
  "signals_to_doc s = [(''accepted_signal'', opt_str (sn_accepted_signal s)), (''turn_count'', PInt (sn_turn_count s)),
     (''failed_fixed_count'', PInt (sn_failed_fixed_count s)), (''askuser_count'', PInt (sn_askuser_count s)),
     (''corrected_blueprint'', PBool (sn_corrected_blueprint s))]"

definition signals_from_doc :: "pydict \<Rightarrow> session_signals" where
  "signals_from_doc d = \<lparr>sn_accepted_signal = text_only (getv d ''accepted_signal''), sn_turn_count = count_of (getv d ''turn_count''),
     sn_failed_fixed_count = count_of (getv d ''failed_fixed_count''), sn_askuser_count = count_of (getv d ''askuser_count''),
     sn_corrected_blueprint = py_truthy (getv d ''corrected_blueprint'')\<rparr>"

definition signals_ok :: "session_signals \<Rightarrow> bool" where
  "signals_ok s \<longleftrightarrow> sn_turn_count s \<ge> 0 \<and> sn_failed_fixed_count s \<ge> 0 \<and> sn_askuser_count s \<ge> 0"

record novelty_stamp =
  nv_novelty :: string
  nv_measured :: bool
  nv_compared_against :: int

definition novelty_to_doc :: "novelty_stamp \<Rightarrow> pydict" where
  "novelty_to_doc n = [(''novelty'', PFloat (nv_novelty n)), (''measured'', PBool (nv_measured n)),
     (''compared_against'', PInt (nv_compared_against n))]"

definition novelty_from_doc :: "pydict \<Rightarrow> novelty_stamp" where
  "novelty_from_doc d = \<lparr>nv_novelty = unit_of (getv d ''novelty''), nv_measured = py_truthy (getv d ''measured''),
     nv_compared_against = count_of (getv d ''compared_against'')\<rparr>"

definition novelty_ok :: "novelty_stamp \<Rightarrow> bool" where
  "novelty_ok n \<longleftrightarrow> unit_text (nv_novelty n) = nv_novelty n \<and> nv_compared_against n \<ge> 0"

lemma text_only_opt_str [simp]: "text_only (opt_str s) = s"
  by (cases s) auto

lemma signals_back: "signals_ok s \<Longrightarrow> signals_from_doc (signals_to_doc s) = s"
  by (simp add: signals_ok_def signals_from_doc_def signals_to_doc_def getv_def)

lemma novelty_back: "novelty_ok n \<Longrightarrow> novelty_from_doc (novelty_to_doc n) = n"
  by (simp add: novelty_ok_def novelty_from_doc_def novelty_to_doc_def getv_def)

text \<open>What is read back is always within its range, whatever was stored.\<close>

lemma unit_text_fixed: "unit_text (unit_text r) = unit_text r"
  by (auto simp: unit_text_def prefix_def)

lemma stamps_in_range: "signals_ok (signals_from_doc d)" "novelty_ok (novelty_from_doc d)"
proof -
  have count: "count_of v \<ge> 0" for v by (cases v) auto
  have "unit_text (unit_of v) = unit_of v" for v
    by (cases v) (simp_all add: unit_text_fixed, simp_all add: unit_text_def)
  then show "signals_ok (signals_from_doc d)" "novelty_ok (novelty_from_doc d)"
    by (simp_all add: signals_ok_def signals_from_doc_def novelty_ok_def novelty_from_doc_def count)
qed

section \<open>The decline block and the snapshot\<close>

record decline_block =
  db_reason :: string
  db_detail :: string
  db_corrections_attempted :: int
  db_correction_history :: "string list"

definition decline_to_doc :: "decline_block \<Rightarrow> pyval" where
  "decline_to_doc b = PDict [(''reason'', PStr (db_reason b)), (''detail'', PStr (db_detail b)),
     (''corrections_attempted'', PInt (db_corrections_attempted b)), (''correction_history'', strs_doc (db_correction_history b))]"

fun int_or :: "int \<Rightarrow> pyval \<Rightarrow> int" where
  "int_or n (PInt i) = i"
| "int_or n _ = n"

fun texts_in :: "pyval \<Rightarrow> string list" where
  "texts_in (PList xs) = List.map_filter text_only xs"
| "texts_in _ = []"

definition decline_from_doc :: "pyval \<Rightarrow> decline_block option" where
  "decline_from_doc v = (case v of
     PDict d \<Rightarrow> (let reason = text_or [] (getv d ''reason'') in
       if reason = [] then None
       else Some \<lparr>db_reason = reason, db_detail = text_or [] (getv d ''detail''),
         db_corrections_attempted = int_or 0 (getv d ''corrections_attempted''),
         db_correction_history = texts_in (getv d ''correction_history'')\<rparr>)
   | _ \<Rightarrow> None)"

record evidence_pointer =
  ep_turn_ref :: int
  ep_tool_call_ref :: string

record validation_snapshot =
  vs_session_id :: string
  vs_user_id :: string
  vs_trace_id :: string
  vs_content_hash :: string
  vs_accepted_signal :: "string option"
  vs_sql_by_ref :: "(string \<times> string list) list"
  vs_evidence :: "evidence_pointer list"

definition pointer_to_doc :: "evidence_pointer \<Rightarrow> pyval" where
  "pointer_to_doc e = PDict [(''turn_ref'', PInt (ep_turn_ref e)), (''tool_call_ref'', PStr (ep_tool_call_ref e))]"

definition snapshot_to_doc :: "validation_snapshot \<Rightarrow> pyval" where
  "snapshot_to_doc v = PDict [(''session_id'', PStr (vs_session_id v)), (''user_id'', PStr (vs_user_id v)),
     (''trace_id'', PStr (vs_trace_id v)), (''content_hash'', PStr (vs_content_hash v)),
     (''accepted_signal'', opt_str (vs_accepted_signal v)),
     (''sql_by_ref'', PDict (map (map_prod id strs_doc) (vs_sql_by_ref v))),
     (''evidence'', PList (map pointer_to_doc (vs_evidence v)))]"

text \<open>The SQL of one reference: the texts that are not blank, if any; a citation needs an int and a text.\<close>

fun kept_sql :: "string \<times> pyval \<Rightarrow> (string \<times> string list) option" where
  "kept_sql (ref, PList sqls) = (case filter (\<lambda>s. py_strip s \<noteq> []) (List.map_filter text_only sqls) of
     [] \<Rightarrow> None | kept \<Rightarrow> Some (ref, kept))"
| "kept_sql _ = None"

fun pointer_of :: "pyval \<Rightarrow> evidence_pointer option" where
  "pointer_of (PDict d) = (case (getv d ''turn_ref'', getv d ''tool_call_ref'') of
     (PInt i, PStr t) \<Rightarrow> Some \<lparr>ep_turn_ref = i, ep_tool_call_ref = t\<rparr> | _ \<Rightarrow> None)"
| "pointer_of _ = None"

fun sql_map_of :: "pyval \<Rightarrow> (string \<times> string list) list" where
  "sql_map_of (PDict d) = List.map_filter kept_sql d"
| "sql_map_of _ = []"

fun pointers_of :: "pyval \<Rightarrow> evidence_pointer list" where
  "pointers_of (PList xs) = List.map_filter pointer_of xs"
| "pointers_of _ = []"

definition snapshot_from_doc :: "pyval \<Rightarrow> validation_snapshot option" where
  "snapshot_from_doc v = (case v of
     PDict d \<Rightarrow>
       (let session_id = text_or [] (getv d ''session_id''); sql_by_ref = sql_map_of (getv d ''sql_by_ref'');
            evidence = pointers_of (getv d ''evidence'')
        in if session_id = [] \<or> sql_by_ref = [] \<or> evidence = [] then None
           else Some \<lparr>vs_session_id = session_id, vs_user_id = text_or [] (getv d ''user_id''),
             vs_trace_id = text_or [] (getv d ''trace_id''), vs_content_hash = text_or [] (getv d ''content_hash''),
             vs_accepted_signal = text_only (getv d ''accepted_signal''), vs_sql_by_ref = sql_by_ref, vs_evidence = evidence\<rparr>)
   | _ \<Rightarrow> None)"

definition snapshot_ok :: "validation_snapshot \<Rightarrow> bool" where
  "snapshot_ok v \<longleftrightarrow> vs_session_id v \<noteq> [] \<and> vs_sql_by_ref v \<noteq> [] \<and> vs_evidence v \<noteq> [] \<and>
     list_all (\<lambda>(ref, sqls). sqls \<noteq> [] \<and> list_all (\<lambda>s. py_strip s \<noteq> []) sqls) (vs_sql_by_ref v)"

lemma map_filter_back: "(\<And>x. x \<in> set xs \<Longrightarrow> f (g x) = Some x) \<Longrightarrow> List.map_filter f (map g xs) = xs"
  by (induction xs) (simp_all add: List.map_filter_def)

lemma decline_back: "db_reason b \<noteq> [] \<Longrightarrow> decline_from_doc (decline_to_doc b) = Some b"
  by (simp add: decline_from_doc_def decline_to_doc_def getv_def Let_def strs_doc_def map_filter_back)

lemma snapshot_back:
  assumes "snapshot_ok v"
  shows "snapshot_from_doc (snapshot_to_doc v) = Some v"
proof -
  have "kept_sql (map_prod id strs_doc e) = Some e" if "e \<in> set (vs_sql_by_ref v)" for e
  proof -
    have "snd e \<noteq> []" "filter (\<lambda>s. py_strip s \<noteq> []) (snd e) = snd e"
      using assms that by (auto simp: snapshot_ok_def list_all_iff filter_id_conv)
    then show ?thesis by (cases e) (auto simp: strs_doc_def map_filter_back split: list.split)
  qed
  then have "List.map_filter kept_sql (map (map_prod id strs_doc) (vs_sql_by_ref v)) = vs_sql_by_ref v"
    by (rule map_filter_back)
  moreover have "List.map_filter pointer_of (map pointer_to_doc (vs_evidence v)) = vs_evidence v"
    by (rule map_filter_back) (simp add: pointer_to_doc_def getv_def)
  ultimately show ?thesis
    using assms by (simp add: snapshot_from_doc_def snapshot_to_doc_def snapshot_ok_def getv_def Let_def)
qed

section \<open>The judge's assessment\<close>

definition COVERAGE_VERDICTS :: "string list" where
  "COVERAGE_VERDICTS = [''duplicate'', ''existing-plus-delta'', ''new'']"

record coverage_assessment =
  ca_verdict :: string
  ca_covered_by :: string
  ca_covered_by_tier :: string
  ca_reason :: string
  ca_confidence :: string

definition assessment_to_doc :: "coverage_assessment \<Rightarrow> pydict" where
  "assessment_to_doc a = [(''verdict'', PStr (ca_verdict a)), (''covered_by'', PStr (ca_covered_by a)),
     (''covered_by_tier'', PStr (ca_covered_by_tier a)), (''reason'', PStr (ca_reason a)), (''confidence'', PFloat (ca_confidence a))]"

fun float_or_zero :: "pyval \<Rightarrow> string result" where
  "float_or_zero (PFloat r) = Inr r"
| "float_or_zero (PInt i) = py_float (PInt i)"
| "float_or_zero _ = Inr ''0.0''"

definition assessment_from_doc :: "pydict \<Rightarrow> coverage_assessment option result" where
  "assessment_from_doc d = (case text_only (getv d ''verdict'') of
     Some v \<Rightarrow> if v \<notin> set COVERAGE_VERDICTS then Inr None
       else rbind (float_or_zero (getv d ''confidence'')) (\<lambda>c. Inr (Some \<lparr>ca_verdict = v,
         ca_covered_by = text_or [] (getv d ''covered_by''), ca_covered_by_tier = text_or [] (getv d ''covered_by_tier''),
         ca_reason = text_or [] (getv d ''reason''), ca_confidence = c\<rparr>))
   | None \<Rightarrow> Inr None)"

lemma assessment_back:
  "ca_verdict a \<in> set COVERAGE_VERDICTS \<Longrightarrow> assessment_from_doc (assessment_to_doc a) = Inr (Some a)"
  by (simp add: assessment_from_doc_def assessment_to_doc_def getv_def)

text \<open>
  The key of a stored judgement binds the content the judge was shown: the parts are prefixed with
  their lengths before they are hashed, so two lists of parts have one text only if they are equal.
\<close>

definition fingerprint_text :: "string list \<Rightarrow> string" where
  "fingerprint_text parts = concat (map (\<lambda>p. show_nat (length p) @ '':'' @ p) parts)"

lemma fingerprint_text_inject: "fingerprint_text ps = fingerprint_text qs \<Longrightarrow> ps = qs"
proof (induction ps arbitrary: qs)
  case Nil
  then show ?case by (cases qs) (auto simp: fingerprint_text_def)
next
  case (Cons p ps)
  then obtain q qs' where qs: "qs = q # qs'" by (cases qs) (auto simp: fingerprint_text_def)
  have colon: "CHR '':'' \<notin> set (show_nat n)" for n
    using show_nat_digits by (fastforce simp: is_digit_def)
  have "show_nat (length p) @ CHR '':'' # (p @ fingerprint_text ps) = show_nat (length q) @ CHR '':'' # (q @ fingerprint_text qs')"
    using Cons.prems by (simp add: fingerprint_text_def qs)
  from sep_unique [OF this colon colon] have "length p = length q" "p @ fingerprint_text ps = q @ fingerprint_text qs'" by auto
  then show ?case using Cons.IH by (simp add: qs)
qed

definition judgement_fingerprint :: "(string \<Rightarrow> string) \<Rightarrow> string list \<Rightarrow> string" where
  "judgement_fingerprint digest parts = digest (fingerprint_text parts)"

definition pre_extraction_ref :: "string \<Rightarrow> string" where
  "pre_extraction_ref fingerprint = ''judgement::pre::'' @ fingerprint"

definition post_extraction_ref :: "string \<Rightarrow> string" where
  "post_extraction_ref fingerprint = ''judgement::post::'' @ fingerprint"

end
