(* ===== verification/CandidateEnvelope.thy ===== *)
theory CandidateEnvelope
  imports CandidateRecords
begin

text \<open>
  \<^verbatim>\<open>candidate/models.py\<close> and \<^verbatim>\<open>candidate/redaction.py\<close>: the statuses of a learning candidate, its keys,
  the envelope with the document it is stored as, and the redaction at the promotion boundary, which
  removes from the payload every entity the leakage verdict located. The iteration order of the set
  of spans is a parameter.
\<close>

section \<open>Statuses and keys\<close>

abbreviation EXTRACTED :: string where "EXTRACTED \<equiv> ''extracted''"
abbreviation CANDIDATE :: string where "CANDIDATE \<equiv> ''candidate''"
abbreviation IN_REVIEW :: string where "IN_REVIEW \<equiv> ''in_review''"
abbreviation VALIDATED :: string where "VALIDATED \<equiv> ''validated''"
abbreviation QUARANTINED :: string where "QUARANTINED \<equiv> ''quarantined''"
abbreviation REJECTED :: string where "REJECTED \<equiv> ''rejected''"
abbreviation RETIRED :: string where "RETIRED \<equiv> ''retired''"
abbreviation NEEDS_PARAMETERIZATION :: string where "NEEDS_PARAMETERIZATION \<equiv> ''needs_parameterization''"
abbreviation PROMOTED :: string where "PROMOTED \<equiv> ''promoted''"

definition mint_candidate_id :: "string \<Rightarrow> int \<Rightarrow> string" where
  "mint_candidate_id content_hash ordinal = ''candidate::'' @ content_hash @ ''::'' @ show_int ordinal"

definition mint_review_candidate_id :: "string \<Rightarrow> int \<Rightarrow> string" where
  "mint_review_candidate_id content_hash ordinal = ''candidate::'' @ content_hash @ ''::review-'' @ show_int ordinal"

text \<open>A kept and a declined candidate of one session never share a key.\<close>

lemma minted_ids_apart: "mint_candidate_id h i \<noteq> mint_review_candidate_id h j"
proof
  assume "mint_candidate_id h i = mint_review_candidate_id h j"
  then have "show_int i = ''review-'' @ show_int j"
    by (simp add: mint_candidate_id_def mint_review_candidate_id_def)
  then have "hd (show_int i) = CHR ''r''" by simp
  moreover have "hd (show_nat n) \<noteq> CHR ''r''" for n
    using show_nat_digits [OF hd_in_set [OF show_nat_not_empty], of n] by (auto simp: is_digit_def)
  then have "hd (show_int i) \<noteq> CHR ''r''" by (simp add: show_int_def)
  ultimately show False by simp
qed

section \<open>The envelope\<close>

record candidate_envelope =
  ce_candidate_id :: string
  ce_type :: string
  ce_status :: string
  ce_payload :: pydict
  ce_source_session :: string
  ce_source_trace :: string
  ce_evidence_refs :: "string list"
  ce_extractor_rationale :: string
  ce_entity_scan :: pydict
  ce_confidence :: string
  ce_proposed_action :: string
  ce_depends_on :: "string list"
  ce_content_hash :: string
  ce_created_at :: string
  ce_dedup :: "dedup_verdict option"
  ce_drift :: drift_stamp
  ce_traceparent :: "string option"
  ce_verified :: bool
  ce_last_scanned_at :: "string option"
  ce_judge :: "coverage_assessment option"
  ce_session_signals :: "session_signals option"
  ce_novelty :: "novelty_stamp option"
  ce_route_reason :: "string option"
  ce_decline :: "decline_block option"
  ce_revalidation :: "validation_snapshot option"

text \<open>A key that is written only when the stamp is there.\<close>

definition opt_item :: "string \<Rightarrow> pyval option \<Rightarrow> pydict" where
  "opt_item k v = (case v of None \<Rightarrow> [] | Some x \<Rightarrow> [(k, x)])"

definition envelope_to_doc :: "candidate_envelope \<Rightarrow> pydict" where
  "envelope_to_doc e =
     [(''_id'', PStr (ce_candidate_id e)), (''candidate_id'', PStr (ce_candidate_id e)), (''type'', PStr (ce_type e)),
      (''status'', PStr (ce_status e)), (''payload'', PDict (ce_payload e)),
      (''provenance'', PDict [(''source_session'', PStr (ce_source_session e)), (''source_trace'', PStr (ce_source_trace e)),
         (''evidence_ref'', strs_doc (ce_evidence_refs e)), (''extractor_rationale'', PStr (ce_extractor_rationale e))]),
      (''entity_scan'', PDict (ce_entity_scan e)),
      (''dedup'', case ce_dedup e of None \<Rightarrow> PNone | Some v \<Rightarrow> dedup_to_doc v), (''drift'', drift_to_doc (ce_drift e)),
      (''confidence'', PFloat (ce_confidence e)), (''proposed_action'', PStr (ce_proposed_action e)),
      (''depends_on'', strs_doc (ce_depends_on e)), (''content_hash'', PStr (ce_content_hash e)),
      (''created_at'', PStr (ce_created_at e))]
     @ opt_item ''traceparent'' (map_option PStr (ce_traceparent e))
     @ opt_item ''verified'' (if ce_verified e then Some (PBool True) else None)
     @ opt_item ''last_scanned_at'' (map_option PStr (ce_last_scanned_at e))
     @ opt_item ''judge'' (map_option (PDict \<circ> assessment_to_doc) (ce_judge e))
     @ opt_item ''session_signals'' (map_option (PDict \<circ> signals_to_doc) (ce_session_signals e))
     @ opt_item ''novelty'' (map_option (PDict \<circ> novelty_to_doc) (ce_novelty e))
     @ opt_item ''route_reason'' (map_option PStr (ce_route_reason e))
     @ opt_item ''decline'' (map_option decline_to_doc (ce_decline e))
     @ opt_item ''revalidation'' (map_option snapshot_to_doc (ce_revalidation e))"

definition dedup_field :: "pyval \<Rightarrow> dedup_verdict option result" where
  "dedup_field v = (if v = PNone then Inr None else rbind (dedup_from_doc v) (\<lambda>x. Inr (Some x)))"

definition judge_field :: "pyval \<Rightarrow> coverage_assessment option result" where
  "judge_field v = (case dict_only v of None \<Rightarrow> Inr None | Some d \<Rightarrow> assessment_from_doc d)"

text \<open>The parameter is the reading of the clock that stands for a missing creation time.\<close>

definition envelope_from_doc :: "string \<Rightarrow> pydict \<Rightarrow> candidate_envelope result" where
  "envelope_from_doc now d =
     rbind (get_of (get_default d ''provenance'' (PDict []))) (\<lambda>prov.
     rbind (need d ''candidate_id'') (\<lambda>cv. rbind (as_str cv) (\<lambda>cid.
     rbind (need d ''type'') (\<lambda>tv. rbind (as_str tv) (\<lambda>ty.
     rbind (need d ''status'') (\<lambda>sv. rbind (as_str sv) (\<lambda>status.
     rbind (py_dict (get_default d ''payload'' (PDict []))) (\<lambda>payload.
     rbind (str_field prov ''source_session'' []) (\<lambda>session.
     rbind (str_field prov ''source_trace'' []) (\<lambda>trace.
     rbind (strs_field prov ''evidence_ref'') (\<lambda>refs.
     rbind (str_field prov ''extractor_rationale'' []) (\<lambda>rationale.
     rbind (py_dict (get_default d ''entity_scan'' (PDict []))) (\<lambda>scan.
     rbind (dedup_field (getv d ''dedup'')) (\<lambda>dedup.
     rbind (drift_from_doc (or_value (get_default d ''drift'' (PDict [])) (PDict []))) (\<lambda>drift.
     rbind (py_float (get_default d ''confidence'' (PFloat ''0.0''))) (\<lambda>confidence.
     rbind (str_field d ''proposed_action'' ''new'') (\<lambda>action.
     rbind (strs_field d ''depends_on'') (\<lambda>deps.
     rbind (str_field d ''content_hash'' []) (\<lambda>hash.
     rbind (str_field d ''created_at'' now) (\<lambda>created.
     rbind (as_opt_str (getv d ''traceparent'')) (\<lambda>tp.
     rbind (judge_field (getv d ''judge'')) (\<lambda>judge.
     Inr \<lparr>ce_candidate_id = cid, ce_type = ty, ce_status = status, ce_payload = payload, ce_source_session = session,
       ce_source_trace = trace, ce_evidence_refs = refs, ce_extractor_rationale = rationale, ce_entity_scan = scan,
       ce_confidence = confidence, ce_proposed_action = action, ce_depends_on = deps, ce_content_hash = hash,
       ce_created_at = created, ce_dedup = dedup, ce_drift = drift, ce_traceparent = tp,
       ce_verified = py_truthy (get_default d ''verified'' (PBool False)),
       ce_last_scanned_at = text_only (getv d ''last_scanned_at''), ce_judge = judge,
       ce_session_signals = map_option signals_from_doc (dict_only (getv d ''session_signals'')),
       ce_novelty = map_option novelty_from_doc (dict_only (getv d ''novelty'')),
       ce_route_reason = text_only (getv d ''route_reason''), ce_decline = decline_from_doc (getv d ''decline''),
       ce_revalidation = snapshot_from_doc (getv d ''revalidation'')\<rparr>))))))))))))))))))))))"

text \<open>What the stages write: verdicts of the vocabulary, counts and scores in range, no empty block.\<close>

definition envelope_ok :: "candidate_envelope \<Rightarrow> bool" where
  "envelope_ok e \<longleftrightarrow>
     (case ce_judge e of None \<Rightarrow> True | Some a \<Rightarrow> ca_verdict a \<in> set COVERAGE_VERDICTS) \<and>
     (case ce_session_signals e of None \<Rightarrow> True | Some s \<Rightarrow> signals_ok s) \<and>
     (case ce_novelty e of None \<Rightarrow> True | Some n \<Rightarrow> novelty_ok n) \<and>
     (case ce_decline e of None \<Rightarrow> True | Some b \<Rightarrow> db_reason b \<noteq> []) \<and>
     (case ce_revalidation e of None \<Rightarrow> True | Some v \<Rightarrow> snapshot_ok v)"

lemma map_of_opt_item [simp]: "map_of (opt_item k v) k' = (if k' = k then v else None)"
  by (cases v) (auto simp: opt_item_def)

lemma dedup_doc_there [simp]: "dedup_to_doc v \<noteq> PNone"
  by (simp add: dedup_to_doc_def)

lemma optional_stamps_back:
  assumes "envelope_ok e"
  shows "judge_field (getv (envelope_to_doc e) ''judge'') = Inr (ce_judge e)"
    and "map_option signals_from_doc (dict_only (getv (envelope_to_doc e) ''session_signals'')) = ce_session_signals e"
    and "map_option novelty_from_doc (dict_only (getv (envelope_to_doc e) ''novelty'')) = ce_novelty e"
    and "decline_from_doc (getv (envelope_to_doc e) ''decline'') = ce_decline e"
    and "snapshot_from_doc (getv (envelope_to_doc e) ''revalidation'') = ce_revalidation e"
    and "dedup_field (getv (envelope_to_doc e) ''dedup'') = Inr (ce_dedup e)"
  using assms
  by (auto simp: envelope_to_doc_def envelope_ok_def getv_def map_add_def judge_field_def assessment_back signals_back novelty_back
      decline_back snapshot_back dedup_field_def dedup_back decline_from_doc_def [of PNone] snapshot_from_doc_def [of PNone]
      split: option.splits)

lemma plain_fields_back:
  "map_of (envelope_to_doc e) ''candidate_id'' = Some (PStr (ce_candidate_id e))"
  "map_of (envelope_to_doc e) ''type'' = Some (PStr (ce_type e))"
  "map_of (envelope_to_doc e) ''status'' = Some (PStr (ce_status e))"
  "map_of (envelope_to_doc e) ''payload'' = Some (PDict (ce_payload e))"
  "map_of (envelope_to_doc e) ''provenance'' = Some (PDict [(''source_session'', PStr (ce_source_session e)),
     (''source_trace'', PStr (ce_source_trace e)), (''evidence_ref'', strs_doc (ce_evidence_refs e)),
     (''extractor_rationale'', PStr (ce_extractor_rationale e))])"
  "map_of (envelope_to_doc e) ''entity_scan'' = Some (PDict (ce_entity_scan e))"
  "map_of (envelope_to_doc e) ''drift'' = Some (drift_to_doc (ce_drift e))"
  "map_of (envelope_to_doc e) ''confidence'' = Some (PFloat (ce_confidence e))"
  "map_of (envelope_to_doc e) ''proposed_action'' = Some (PStr (ce_proposed_action e))"
  "map_of (envelope_to_doc e) ''depends_on'' = Some (strs_doc (ce_depends_on e))"
  "map_of (envelope_to_doc e) ''content_hash'' = Some (PStr (ce_content_hash e))"
  "map_of (envelope_to_doc e) ''created_at'' = Some (PStr (ce_created_at e))"
  "map_of (envelope_to_doc e) ''traceparent'' = map_option PStr (ce_traceparent e)"
  "map_of (envelope_to_doc e) ''verified'' = (if ce_verified e then Some (PBool True) else None)"
  "map_of (envelope_to_doc e) ''last_scanned_at'' = map_option PStr (ce_last_scanned_at e)"
  "map_of (envelope_to_doc e) ''route_reason'' = map_option PStr (ce_route_reason e)"
  by (simp_all add: envelope_to_doc_def map_add_def split: option.split)

lemma opt_text_back:
  assumes "map_of d k = map_option PStr v"
  shows "as_opt_str (getv d k) = Inr v" "text_only (getv d k) = v"
  by (cases v; simp add: getv_def assms)+

lemma envelope_back:
  assumes "envelope_ok e"
  shows "envelope_from_doc now (envelope_to_doc e) = Inr e"
proof -
  have drift: "or_value (drift_to_doc s) (PDict []) = drift_to_doc s" for s
    by (simp add: or_value_def drift_to_doc_def)
  have flag: "py_truthy (case (if b then Some (PBool True) else None) of None \<Rightarrow> PBool False | Some w \<Rightarrow> w) = b" for b
    by simp
  show ?thesis
    by (simp add: envelope_from_doc_def need_def get_default_def plain_fields_back optional_stamps_back [OF assms]
        drift drift_back flag opt_text_back [OF plain_fields_back(13)] opt_text_back [OF plain_fields_back(15)]
        opt_text_back [OF plain_fields_back(16)] del: py_truthy.simps split del: if_split)
qed

section \<open>Redaction\<close>

definition REDACTED :: string where
  "REDACTED = ''[redacted]''"

text \<open>\<^verbatim>\<open>s.replace(old, new)\<close>: the occurrences from the left, without overlap; an empty text is found around every character.\<close>

function replace_found :: "string \<Rightarrow> string \<Rightarrow> string \<Rightarrow> string" where
  "replace_found old new s = (if old = [] \<or> s = [] then s
     else if prefix old s then new @ replace_found old new (drop (length old) s)
     else hd s # replace_found old new (tl s))"
  by auto
termination by (relation "measure (\<lambda>(old, new, s). length s)") auto

declare replace_found.simps [simp del]

lemma replace_found_empty [simp]: "replace_found old new [] = []"
  by (subst replace_found.simps) simp

lemma replace_found_here:
  "old \<noteq> [] \<Longrightarrow> prefix old s \<Longrightarrow> replace_found old new s = new @ replace_found old new (drop (length old) s)"
  by (subst replace_found.simps) auto

lemma replace_found_skip:
  "\<not> prefix old (c # t) \<Longrightarrow> replace_found old new (c # t) = c # replace_found old new t"
  by (subst replace_found.simps) auto

definition py_replace :: "string \<Rightarrow> string \<Rightarrow> string \<Rightarrow> string" where
  "py_replace old new s = (if old = [] then new @ concat (map (\<lambda>c. c # new) s) else replace_found old new s)"

definition redact_text :: "string list \<Rightarrow> string \<Rightarrow> string" where
  "redact_text spans s = fold (\<lambda>span out. py_replace span REDACTED out) spans s"

primrec redact :: "string list \<Rightarrow> pyval \<Rightarrow> pyval" where
  "redact spans PNone = PNone"
| "redact spans (PBool b) = PBool b"
| "redact spans (PInt i) = PInt i"
| "redact spans (PFloat r) = PFloat r"
| "redact spans (PStr s) = PStr (redact_text spans s)"
| "redact spans (PList xs) = PList (map (redact spans) xs)"
| "redact spans (PDict kvs) = PDict (map (map_prod id (redact spans)) kvs)"

definition redact_payload :: "pydict \<Rightarrow> string list \<Rightarrow> pydict" where
  "redact_payload payload spans = (if spans = [] then payload else map (map_prod id (redact spans)) payload)"

definition entity_spans :: "(string list \<Rightarrow> string list) \<Rightarrow> candidate_envelope \<Rightarrow> string list result" where
  "entity_spans order e = rbind (is_settled (ce_entity_scan e)) (\<lambda>settled.
     if \<not> settled then Inr []
     else rbind (leakage_from_doc (ce_entity_scan e)) (\<lambda>v. Inr (order (remdups (filter (\<lambda>s. s \<noteq> []) (map eh_span (lv_hits v)))))))"

definition blank_scan_spans :: "candidate_envelope \<Rightarrow> candidate_envelope result" where
  "blank_scan_spans e = rbind (is_settled (ce_entity_scan e)) (\<lambda>settled.
     if \<not> settled then Inr e
     else rbind (leakage_from_doc (ce_entity_scan e)) (\<lambda>v. Inr (if lv_hits v = [] then e
       else e\<lparr>ce_entity_scan := leakage_to_doc (v\<lparr>lv_hits := map (\<lambda>h. h\<lparr>eh_span := []\<rparr>) (lv_hits v)\<rparr>)\<rparr>)))"

definition strip_entity_bearing :: "(string list \<Rightarrow> string list) \<Rightarrow> candidate_envelope \<Rightarrow> candidate_envelope result" where
  "strip_entity_bearing order e = rbind (entity_spans order e) (\<lambda>spans.
     blank_scan_spans (e\<lparr>ce_payload := redact_payload (ce_payload e) spans\<rparr>))"

definition entity_free_payload_view :: "(string list \<Rightarrow> string list) \<Rightarrow> candidate_envelope \<Rightarrow> pydict result" where
  "entity_free_payload_view order e = rbind (entity_spans order e) (\<lambda>spans. Inr (redact_payload (ce_payload e) spans))"

section \<open>What the redaction removes\<close>

text \<open>A span that the replacement token itself neither holds nor meets.\<close>

definition plain_span :: "string \<Rightarrow> bool" where
  "plain_span s \<longleftrightarrow> s \<noteq> [] \<and> CHR ''['' \<notin> set s \<and> CHR '']'' \<notin> set s \<and> \<not> sublist s ''redacted''"

lemma sublist_separated: "sublist x (a @ c # b) \<Longrightarrow> c \<notin> set x \<Longrightarrow> sublist x a \<or> sublist x b"
proof (induction a)
  case Nil
  then show ?case by (cases x) (auto simp: sublist_Cons_right)
next
  case (Cons d a)
  have "prefix x (d # a)" if "prefix x ((d # a) @ c # b)"
    using that Cons.prems(2) unfolding prefix_append by (auto simp: prefix_Cons)
  then show ?case using Cons by (auto simp: sublist_Cons_right)
qed

lemma token_chars: "REDACTED = CHR ''['' # ''redacted'' @ [CHR '']'']"
  by (simp add: REDACTED_def)

lemma prefix_before_token:
  assumes "prefix x (replace_found old REDACTED s)" "CHR ''['' \<notin> set x"
  shows "prefix x s"
  using assms
proof (induction old REDACTED s arbitrary: x rule: replace_found.induct)
  case (1 old s)
  consider "old = [] \<or> s = []" | "old \<noteq> []" "s \<noteq> []" "prefix old s" | "old \<noteq> []" "s \<noteq> []" "\<not> prefix old s" by blast
  then show ?case
  proof cases
    case 1 then show ?thesis using "1.prems" by (auto simp: replace_found.simps [of "[]"])
  next
    case 2
    then have "prefix x (CHR ''['' # ''redacted'' @ CHR '']'' # replace_found old REDACTED (drop (length old) s))"
      using "1.prems"(1) by (simp add: replace_found_here token_chars)
    then show ?thesis using "1.prems"(2) by (cases x) auto
  next
    case 3
    then obtain c t where s: "s = c # t" by (cases s) auto
    then have p: "prefix x (c # replace_found old REDACTED t)"
      using "1.prems"(1) 3 by (simp add: replace_found_skip)
    show ?thesis
    proof (cases x)
      case (Cons d y)
      then have "prefix y t" using p "1.hyps"(2) [of y] "1.prems"(2) 3 s by auto
      then show ?thesis using p Cons s by auto
    qed simp
  qed
qed

lemma replaced_text:
  assumes "sublist x (replace_found old REDACTED s)" "CHR ''['' \<notin> set x" "CHR '']'' \<notin> set x" "old \<noteq> []"
  shows "sublist x ''redacted'' \<or> (sublist x s \<and> x \<noteq> old)"
  using assms
proof (induction old REDACTED s rule: replace_found.induct)
  case (1 old s)
  consider "s = []" | "s \<noteq> []" "prefix old s" | "s \<noteq> []" "\<not> prefix old s" by blast
  then show ?case
  proof cases
    case 1 then show ?thesis using "1.prems" by simp
  next
    case 2
    let ?rest = "replace_found old REDACTED (drop (length old) s)"
    have "sublist x ([] @ CHR ''['' # (''redacted'' @ CHR '']'' # ?rest))"
      using "1.prems"(1,4) 2 by (simp add: replace_found_here token_chars)
    from sublist_separated [OF this "1.prems"(2)]
    have "sublist x ''redacted'' \<or> sublist x ?rest"
    proof
      assume "sublist x (''redacted'' @ CHR '']'' # ?rest)"
      from sublist_separated [OF this "1.prems"(3)] show ?thesis .
    qed simp
    then have "sublist x ''redacted'' \<or> (sublist x (drop (length old) s) \<and> x \<noteq> old)"
      using "1.hyps"(1) "1.prems" 2 by auto
    moreover have "sublist (drop (length old) s) s" by (simp add: sublist_drop)
    ultimately show ?thesis by (blast intro: sublist_order.order_trans)
  next
    case 3
    then obtain c t where s: "s = c # t" by (cases s) auto
    have eq: "replace_found old REDACTED s = c # replace_found old REDACTED t"
      using 3(2) unfolding s by (rule replace_found_skip)
    then consider "prefix x (replace_found old REDACTED s)" | "sublist x (replace_found old REDACTED t)"
      using "1.prems"(1) by (auto simp: sublist_Cons_right)
    then show ?thesis
    proof cases
      case 1
      then have "prefix x s" using "1.prems"(2) by (rule prefix_before_token)
      then show ?thesis using 3(2) by auto
    next
      case 2
      then have "sublist x ''redacted'' \<or> (sublist x t \<and> x \<noteq> old)" using "1.hyps"(2) "1.prems" 3 s by auto
      then show ?thesis using s by (auto simp: sublist_Cons_right)
    qed
  qed
qed

lemma redact_text_clean:
  assumes "list_all plain_span spans" "plain_span x" "x \<in> set spans \<or> \<not> sublist x s"
  shows "\<not> sublist x (redact_text spans s)"
  using assms
proof (induction spans arbitrary: s)
  case Nil
  then show ?case by (simp add: redact_text_def)
next
  case (Cons span spans)
  have step: "\<not> sublist x (py_replace span REDACTED s)" if "x = span \<or> \<not> sublist x s"
    using that replaced_text [of x span s] Cons.prems by (auto simp: py_replace_def plain_span_def)
  have "x \<in> set spans \<or> \<not> sublist x (py_replace span REDACTED s)" using Cons.prems(3) step by auto
  then have "\<not> sublist x (redact_text spans (py_replace span REDACTED s))" using Cons by auto
  then show ?case by (simp add: redact_text_def)
qed

text \<open>The texts a reader of the value sees, the keys of its dicts left out.\<close>

primrec text_leaves :: "pyval \<Rightarrow> string list" where
  "text_leaves PNone = []"
| "text_leaves (PBool b) = []"
| "text_leaves (PInt i) = []"
| "text_leaves (PFloat r) = []"
| "text_leaves (PStr s) = [s]"
| "text_leaves (PList xs) = concat (map text_leaves xs)"
| "text_leaves (PDict kvs) = concat (map snd (map (map_prod id text_leaves) kvs))"

lemma redact_leaves: "text_leaves (redact spans v) = map (redact_text spans) (text_leaves v)"
proof (induction v)
  case (PDict kvs)
  then have "map snd (map (map_prod id text_leaves) (map (map_prod id (redact spans)) kvs)) =
      map (map (redact_text spans)) (map snd (map (map_prod id text_leaves) kvs))"
    by (auto simp: snds.simps)
  then show ?case by (simp only: redact.simps text_leaves.simps map_concat)
qed (simp_all add: map_concat cong: map_cong)

lemma redact_payload_leaves:
  "spans \<noteq> [] \<Longrightarrow> text_leaves (PDict (redact_payload p spans)) = map (redact_text spans) (text_leaves (PDict p))"
  using redact_leaves [of spans "PDict p"] by (simp add: redact_payload_def)

end
