(* ===== verification/CandidateStore.thy ===== *)
theory CandidateStore
  imports CandidateEnvelope
begin

text \<open>
  The candidate store of \<^verbatim>\<open>candidate/store.py\<close> with its in-memory implementation
  \<^verbatim>\<open>candidate/memory_candidate_store.py\<close>, the pipeline of stages of \<^verbatim>\<open>learning/stage.py\<close> and the
  write router of \<^verbatim>\<open>writer/routing.py\<close> and \<^verbatim>\<open>writer/stage.py\<close>. What the scheduler relies on in the
  store is the locale \<open>candidate_port\<close>: a whole write creates or replaces one row, a narrow write
  changes one field of a row that is there and never brings one back.
\<close>

section \<open>The store\<close>

record candidate_store =
  cs_by_id :: "(string, candidate_envelope) dict"
  cs_put_calls :: nat
  cs_touch_calls :: nat
  cs_drift_stamps :: nat

definition empty_candidates :: candidate_store where
  "empty_candidates = \<lparr>cs_by_id = [], cs_put_calls = 0, cs_touch_calls = 0, cs_drift_stamps = 0\<rparr>"

definition put_candidate :: "candidate_envelope \<Rightarrow> candidate_store \<Rightarrow> candidate_store" where
  "put_candidate e st = st\<lparr>cs_put_calls := cs_put_calls st + 1, cs_by_id := dset (ce_candidate_id e) e (cs_by_id st)\<rparr>"

definition get_candidate :: "string \<Rightarrow> candidate_store \<Rightarrow> candidate_envelope option" where
  "get_candidate cid st = dget (cs_by_id st) cid"

datatype order_key = ByCreated | ByScanned

text \<open>A missing cursor ranks before every text; the cursor's order breaks ties by the id.\<close>

fun candidate_sort_key :: "order_key \<Rightarrow> candidate_envelope \<Rightarrow> nat \<times> string \<times> string" where
  "candidate_sort_key ByCreated e = (1, ce_created_at e, [])"
| "candidate_sort_key ByScanned e = (case ce_last_scanned_at e of
     Some ts \<Rightarrow> (1, ts, ce_candidate_id e) | None \<Rightarrow> (0, [], ce_candidate_id e))"

text \<open>\<^verbatim>\<open>xs[:n]\<close>\<close>

definition slice_to :: "int \<Rightarrow> 'a list \<Rightarrow> 'a list" where
  "slice_to n xs = (if n \<ge> 0 then take (nat n) xs else take (length xs - nat (- n)) xs)"

definition sorted_by_status :: "string \<Rightarrow> order_key \<Rightarrow> candidate_store \<Rightarrow> candidate_envelope list" where
  "sorted_by_status status k st =
     sort_key (candidate_sort_key k) (filter (\<lambda>e. ce_status e = status) (map snd (cs_by_id st)))"

definition list_by_status :: "string \<Rightarrow> int \<Rightarrow> bool \<Rightarrow> order_key \<Rightarrow> candidate_store \<Rightarrow> candidate_envelope list" where
  "list_by_status status limit desc k st =
     (let matches = sorted_by_status status k st in slice_to limit (if desc then rev matches else matches))"

definition touch_scanned :: "string \<Rightarrow> string \<Rightarrow> candidate_store \<Rightarrow> candidate_store" where
  "touch_scanned cid ts st = (case dget (cs_by_id st) cid of
     None \<Rightarrow> st
   | Some e \<Rightarrow> st\<lparr>cs_touch_calls := cs_touch_calls st + 1, cs_by_id := dset cid (e\<lparr>ce_last_scanned_at := Some ts\<rparr>) (cs_by_id st)\<rparr>)"

definition stamp_drift :: "string \<Rightarrow> drift_stamp \<Rightarrow> candidate_store \<Rightarrow> candidate_store" where
  "stamp_drift cid drift st = (case dget (cs_by_id st) cid of
     None \<Rightarrow> st
   | Some e \<Rightarrow> st\<lparr>cs_drift_stamps := cs_drift_stamps st + 1, cs_by_id := dset cid (e\<lparr>ce_drift := drift\<rparr>) (cs_by_id st)\<rparr>)"

definition supersede :: "string \<Rightarrow> candidate_store \<Rightarrow> candidate_store" where
  "supersede h st = st\<lparr>cs_by_id := fold (\<lambda>(cid, e) d. if ce_content_hash e = h then dpop cid d else d) (cs_by_id st) (cs_by_id st)\<rparr>"

locale candidate_port =
  fixes get :: "string \<Rightarrow> 's \<Rightarrow> candidate_envelope option"
    and put :: "candidate_envelope \<Rightarrow> 's \<Rightarrow> 's"
    and touch :: "string \<Rightarrow> string \<Rightarrow> 's \<Rightarrow> 's"
    and stamp :: "string \<Rightarrow> drift_stamp \<Rightarrow> 's \<Rightarrow> 's"
  assumes get_put: "get c (put e st) = (if c = ce_candidate_id e then Some e else get c st)"
    and get_touch: "get c (touch c' ts st) = (if c = c' then map_option (\<lambda>e. e\<lparr>ce_last_scanned_at := Some ts\<rparr>) (get c st) else get c st)"
    and get_stamp: "get c (stamp c' d st) = (if c = c' then map_option (\<lambda>e. e\<lparr>ce_drift := d\<rparr>) (get c st) else get c st)"
begin

lemma narrow_write_keeps:
  "map_option ce_status (get c (touch c' ts st)) = map_option ce_status (get c st)"
  "map_option ce_status (get c (stamp c' d st)) = map_option ce_status (get c st)"
  "map_option ce_payload (get c (touch c' ts st)) = map_option ce_payload (get c st)"
  "map_option ce_payload (get c (stamp c' d st)) = map_option ce_payload (get c st)"
  by (simp_all only: get_touch get_stamp option.map_comp if_distrib [of "map_option _"]) (simp_all add: comp_def)

lemma narrow_write_never_resurrects:
  "get c st = None \<Longrightarrow> get c (touch c' ts st) = None" "get c st = None \<Longrightarrow> get c (stamp c' d st) = None"
  by (auto simp: get_touch get_stamp)

end

lemma get_narrow:
  "get_candidate c (touch_scanned c' ts st) =
     (if c = c' then map_option (\<lambda>e. e\<lparr>ce_last_scanned_at := Some ts\<rparr>) (get_candidate c st) else get_candidate c st)"
  "get_candidate c (stamp_drift c' d st) =
     (if c = c' then map_option (\<lambda>e. e\<lparr>ce_drift := d\<rparr>) (get_candidate c st) else get_candidate c st)"
  by (cases "dget (cs_by_id st) c'"; simp add: get_candidate_def touch_scanned_def stamp_drift_def)+

interpretation memory: candidate_port get_candidate put_candidate touch_scanned stamp_drift
  by (rule candidate_port.intro) (simp_all only: get_narrow, simp add: get_candidate_def put_candidate_def)

lemma dget_fold_dpop: "dget (fold (\<lambda>(k, v) d. if P v then dpop k d else d) xs d) k =
    (if \<exists>v. (k, v) \<in> set xs \<and> P v then None else dget d k)"
  by (induction xs arbitrary: d) auto

lemma get_supersede:
  assumes "dict_wf (cs_by_id st)"
  shows "get_candidate c (supersede h st) = (case get_candidate c st of
    Some e \<Rightarrow> if ce_content_hash e = h then None else Some e | None \<Rightarrow> None)"
  using dget_mem [OF assms, of c]
  by (auto simp: get_candidate_def supersede_def dget_fold_dpop split: option.split)

text \<open>Every row is stored under its own id.\<close>

definition keyed :: "candidate_store \<Rightarrow> bool" where
  "keyed st \<longleftrightarrow> dict_wf (cs_by_id st) \<and> (\<forall>c e. dget (cs_by_id st) c = Some e \<longrightarrow> ce_candidate_id e = c)"

lemma keyed_update: "keyed st \<Longrightarrow> ce_candidate_id e = c \<Longrightarrow> cs_by_id st' = dset c e (cs_by_id st) \<Longrightarrow> keyed st'"
  by (simp add: keyed_def)

lemma keyed_there: "keyed st \<Longrightarrow> dget (cs_by_id st) c = Some e \<Longrightarrow> ce_candidate_id e = c"
  by (simp add: keyed_def)

lemma keyed_writes:
  "keyed empty_candidates" "keyed st \<Longrightarrow> keyed (put_candidate e st)" "keyed st \<Longrightarrow> keyed (touch_scanned c ts st)"
  "keyed st \<Longrightarrow> keyed (stamp_drift c d st)"
  subgoal by (simp add: keyed_def empty_candidates_def)
  subgoal by (erule keyed_update [where e = e]) (simp_all add: put_candidate_def)
  subgoal by (cases "dget (cs_by_id st) c")
      (simp add: touch_scanned_def, rule keyed_update, auto simp: touch_scanned_def keyed_there)
  subgoal by (cases "dget (cs_by_id st) c")
      (simp add: stamp_drift_def, rule keyed_update, auto simp: stamp_drift_def keyed_there)
  done

lemma keyed_get: "keyed st \<Longrightarrow> get_candidate c st = Some e \<Longrightarrow> ce_candidate_id e = c"
  by (simp add: keyed_def get_candidate_def)

lemma stored_values: "keyed st \<Longrightarrow> e \<in> snd ` set (cs_by_id st) \<longleftrightarrow> get_candidate (ce_candidate_id e) st = Some e"
proof -
  assume k: "keyed st"
  then have wf: "dict_wf (cs_by_id st)" by (simp add: keyed_def)
  show ?thesis
  proof
    assume "e \<in> snd ` set (cs_by_id st)"
    then obtain c where c: "dget (cs_by_id st) c = Some e" using dget_mem [OF wf] by auto
    with keyed_there [OF k c] show "get_candidate (ce_candidate_id e) st = Some e" by (simp add: get_candidate_def)
  next
    assume "get_candidate (ce_candidate_id e) st = Some e"
    then show "e \<in> snd ` set (cs_by_id st)"
      using dget_mem [OF wf, of "ce_candidate_id e" e] by (force simp: get_candidate_def)
  qed
qed

lemma set_sorted_by_status:
  "keyed st \<Longrightarrow> e \<in> set (sorted_by_status status k st) \<longleftrightarrow>
     get_candidate (ce_candidate_id e) st = Some e \<and> ce_status e = status"
  using stored_values [of st e] by (auto simp: sorted_by_status_def)

lemma set_slice_to: "set (slice_to n xs) \<subseteq> set xs"
  by (auto simp: slice_to_def dest: in_set_takeD)

lemma listed:
  "keyed st \<Longrightarrow> e \<in> set (list_by_status status limit desc k st) \<Longrightarrow>
     get_candidate (ce_candidate_id e) st = Some e \<and> ce_status e = status"
  using set_slice_to [of limit "sorted_by_status status k st"] set_slice_to [of limit "rev (sorted_by_status status k st)"]
  by (cases desc) (auto simp: list_by_status_def Let_def set_sorted_by_status)

lemma distinct_ids:
  assumes "keyed st"
  shows "distinct (map ce_candidate_id (map snd (cs_by_id st)))"
proof -
  have wf: "dict_wf (cs_by_id st)" using assms by (simp add: keyed_def)
  have "map (ce_candidate_id \<circ> snd) (cs_by_id st) = map fst (cs_by_id st)"
    using keyed_there [OF assms] dget_mem [OF wf] by (intro map_cong) (auto simp: comp_def)
  then show ?thesis using wf by (simp only: dict_wf_def map_map)
qed

lemma distinct_listed:
  assumes "keyed st"
  shows "distinct (map ce_candidate_id (list_by_status status limit desc k st))"
proof -
  have d: "distinct (map snd (cs_by_id st))" and inj: "inj_on ce_candidate_id (snd ` set (cs_by_id st))"
    using distinct_ids [OF assms] by (simp_all only: distinct_map set_map)
  have "distinct (sorted_by_status status k st)" using d by (simp add: sorted_by_status_def)
  then have "distinct (list_by_status status limit desc k st)"
    by (simp add: list_by_status_def Let_def slice_to_def)
  moreover have "set (list_by_status status limit desc k st) \<subseteq> snd ` set (cs_by_id st)"
    using listed [OF assms] stored_values [OF assms] by blast
  ultimately show ?thesis using inj_on_subset [OF inj] by (simp add: distinct_map)
qed

section \<open>The pipeline of stages\<close>

type_synonym stage = "string \<times> (candidate_envelope \<Rightarrow> (candidate_envelope \<times> string) result)"

record pipeline_outcome =
  po_envelope :: candidate_envelope
  po_persist :: bool
  po_control :: string

fun run_stages :: "stage list \<Rightarrow> candidate_envelope \<Rightarrow> string \<Rightarrow> pipeline_outcome result" where
  "run_stages [] e control = Inr \<lparr>po_envelope = e, po_persist = True, po_control = control\<rparr>"
| "run_stages ((sid, process) # stages) e control = rbind (process e) (\<lambda>(e', c).
     if c = ''continue'' then run_stages stages e' c
     else if c \<in> {''route_inbox'', ''halt''} then Inr \<lparr>po_envelope = e', po_persist = True, po_control = c\<rparr>
     else if c = ''drop'' then Inr \<lparr>po_envelope = e', po_persist = False, po_control = c\<rparr>
     else Inl (ValueError (''stage '' @ repr_str sid @ '' returned an unknown control '' @ repr_str c @
       '' (expected one of continue, route_inbox, drop, halt)'')))"

definition run_pipeline :: "stage list \<Rightarrow> candidate_envelope \<Rightarrow> pipeline_outcome result" where
  "run_pipeline stages e = run_stages stages e ''continue''"

section \<open>The write router\<close>

record routing_decision =
  rd_status :: string
  rd_control :: string
  rd_reason :: "string option"

definition AUTO_LAND_DEDUP_ACTIONS :: "string list" where
  "AUTO_LAND_DEDUP_ACTIONS = [''insert'']"

definition dedup_forces_review :: "candidate_envelope \<Rightarrow> bool" where
  "dedup_forces_review e = (case ce_dedup e of None \<Rightarrow> False | Some v \<Rightarrow> dv_action v \<notin> set AUTO_LAND_DEDUP_ACTIONS)"

definition static_outcome :: "candidate_envelope \<Rightarrow> pyval" where
  "static_outcome e = (case getv (ce_payload e) ''generalization'' of
     PDict gen \<Rightarrow> (case getv gen ''static_validation'' of PDict sv \<Rightarrow> getv sv ''outcome'' | _ \<Rightarrow> PNone)
   | _ \<Rightarrow> PNone)"

definition is_leakage_near_miss :: "candidate_envelope \<Rightarrow> bool result" where
  "is_leakage_near_miss e = rbind (is_settled (ce_entity_scan e)) (\<lambda>settled.
     Inr (settled \<and> getv (ce_entity_scan e) ''result'' \<noteq> PStr ''pass''))"

definition entity_scan_unsettled :: "candidate_envelope \<Rightarrow> bool result" where
  "entity_scan_unsettled e = rbind (is_settled (ce_entity_scan e)) (\<lambda>settled. Inr (\<not> settled))"

definition schema_edit_pr_ran :: "candidate_envelope \<Rightarrow> bool" where
  "schema_edit_pr_ran e = (dict_only (getv (ce_payload e) ''schema_edit_review'') \<noteq> None)"

definition schema_edit_reason :: "candidate_envelope \<Rightarrow> string" where
  "schema_edit_reason e = (if schema_edit_pr_ran e then ''schema_edit'' else ''fail_to_review'')"

definition derive_inbox_reason :: "candidate_envelope \<Rightarrow> string result" where
  "derive_inbox_reason e =
     (if ce_decline e \<noteq> None then Inr ''needs_parameterization''
      else if ce_type e = ''global_knowledge'' then Inr ''knowledge_pre_gate''
      else if ce_type e = ''schema_edit'' then Inr (schema_edit_reason e)
      else if static_outcome e = PStr ''fail_to_review'' then Inr ''fail_to_review''
      else if dedup_forces_review e then Inr ''dedup_conflict''
      else rbind (is_leakage_near_miss e) (\<lambda>miss. if miss then Inr ''leakage_near_miss''
      else rbind (entity_scan_unsettled e) (\<lambda>u. if u then Inr ''fail_to_review'' else Inr ''blueprint_sampled'')))"

definition to_inbox :: "string \<Rightarrow> routing_decision" where
  "to_inbox reason = \<lparr>rd_status = IN_REVIEW, rd_control = ''route_inbox'', rd_reason = Some reason\<rparr>"

definition route_candidate :: "candidate_envelope \<Rightarrow> bool \<Rightarrow> routing_decision result" where
  "route_candidate e sampled =
     (if ce_type e \<in> {''global_knowledge'', ''schema_edit''} then rbind (derive_inbox_reason e) (\<lambda>r. Inr (to_inbox r))
      else if ce_type e = ''blueprint'' then
        (if static_outcome e = PStr ''fail_to_review'' then Inr (to_inbox ''fail_to_review'')
         else if dedup_forces_review e then Inr (to_inbox ''dedup_conflict'')
         else rbind (is_leakage_near_miss e) (\<lambda>miss. if miss then Inr (to_inbox ''leakage_near_miss'')
         else rbind (entity_scan_unsettled e) (\<lambda>u. if u then Inr (to_inbox ''fail_to_review'')
         else if sampled then Inr (to_inbox ''blueprint_sampled'')
         else Inr \<lparr>rd_status = CANDIDATE, rd_control = ''continue'', rd_reason = None\<rparr>)))
      else Inr \<lparr>rd_status = ce_status e, rd_control = ''continue'', rd_reason = None\<rparr>)"

definition writer_stage :: "(candidate_envelope \<Rightarrow> bool) \<Rightarrow> stage" where
  "writer_stage sampler = (''writer'', \<lambda>e. rbind (route_candidate e (sampler e)) (\<lambda>d. Inr (e\<lparr>ce_status := rd_status d\<rparr>, rd_control d)))"

text \<open>The decision and the label of the inbox are one answer, and only a clean blueprint is landed unseen.\<close>

lemma route_is_derived:
  "route_candidate e sampled = Inr d \<Longrightarrow> rd_control d = ''route_inbox'' \<Longrightarrow> ce_decline e = None \<Longrightarrow>
     rd_status d = IN_REVIEW \<and> (case derive_inbox_reason e of Inr r \<Rightarrow> rd_reason d = Some r | Inl _ \<Rightarrow> False)"
  by (auto simp: route_candidate_def derive_inbox_reason_def to_inbox_def rbind_eq_Inr split: if_splits)

lemma settled_pass: "is_settled d = Inr True \<Longrightarrow> getv d ''result'' \<noteq> PStr ''pass'' \<Longrightarrow> \<exists>s. getv d ''result'' = PStr s \<and> s \<noteq> ''pass''"
  by (cases "getv d ''result''") (auto simp: is_settled_def)

lemma auto_landed_is_clean:
  assumes "route_candidate e sampled = Inr d" "rd_control d = ''continue''" "ce_type e = ''blueprint''"
  shows "rd_status d = CANDIDATE" "\<not> sampled" "static_outcome e \<noteq> PStr ''fail_to_review''" "\<not> dedup_forces_review e"
    "is_settled (ce_entity_scan e) = Inr True" "getv (ce_entity_scan e) ''result'' = PStr ''pass''"
  using assms
  by (auto simp: route_candidate_def to_inbox_def is_leakage_near_miss_def entity_scan_unsettled_def rbind_eq_Inr split: if_splits)

end
