(* ===== verification/PromotionReplay.thy ===== *)
theory PromotionReplay
  imports CandidateStore BlueprintTemplate BlueprintSlots Flow
begin

text \<open>
  The promotion plane below the scheduler: the value objects and ports of \<^verbatim>\<open>promotion/models.py\<close>, the
  drift stamps and freshness of \<^verbatim>\<open>promotion/drift.py\<close>, and the golden replay of
  \<^verbatim>\<open>promotion/replay.py\<close>. The plane's state is the candidate store and the sequence of calls made so
  far; a port answers from that sequence, so that it may answer each call differently, fail, and
  depend on everything that happened before. Times are instants in seconds; \<open>pe_instant\<close> is
  \<^verbatim>\<open>datetime.fromisoformat\<close>, \<open>pe_round\<close> the rounding of a float operation, \<open>pe_order\<close> the iteration
  order of a set built from a list. Log lines and tracing spans are left out.
\<close>

section \<open>Values\<close>

definition HUMAN_GATED_TYPES :: "string list" where
  "HUMAN_GATED_TYPES = [''global_knowledge'', ''schema_edit'']"

abbreviation BLUEPRINT_TYPE :: string where
  "BLUEPRINT_TYPE \<equiv> ''blueprint''"

record promotion_policy =
  pp_blueprint_hit_threshold :: int
  pp_recurrence_weight :: rat
  pp_drift_freshness_seconds :: rat
  pp_replay_recheck_interval_seconds :: rat
  pp_scan_limit :: int
  pp_promotion_interval_seconds :: rat
  pp_review_score_cutoff :: rat

definition default_policy :: promotion_policy where
  "default_policy = \<lparr>pp_blueprint_hit_threshold = 1, pp_recurrence_weight = 0, pp_drift_freshness_seconds = 86400,
     pp_replay_recheck_interval_seconds = 43200, pp_scan_limit = 200, pp_promotion_interval_seconds = 300,
     pp_review_score_cutoff = 0\<rparr>"

record probe_result =
  pr_row_count :: int
  pr_distinct_grain_count :: "int option"
  pr_columns :: "string list"

record candidate_decision =
  cd_candidate_id :: string
  cd_type :: string
  cd_action :: string
  cd_from_status :: string
  cd_to_status :: string
  cd_reason :: "string option"

record promotion_sweep =
  sw_decisions :: "candidate_decision list"
  sw_disabled :: bool

definition sweep_count :: "promotion_sweep \<Rightarrow> string \<Rightarrow> nat" where
  "sweep_count sweep action = length (filter (\<lambda>d. cd_action d = action) (sw_decisions sweep))"

section \<open>Ports\<close>

text \<open>Every call that leaves the plane or touches its store, in the order in which it is made.\<close>

datatype port_call =
    ReadSwitch
  | ReadClock
  | ReadStore
  | PutCandidate candidate_envelope
  | TouchScanned string string
  | StampDrift string drift_stamp
  | RunProbe string "string list" "string list"
  | AskHits string
  | AskRecurrence string
  | AskResolved string
  | Land candidate_envelope "string list" bool
  | UpdateStatus candidate_envelope string string
  | MarkVerified candidate_envelope
  | SetArtifactStatus string string

type_synonym 'a answer = "port_call list \<Rightarrow> 'a result"

text \<open>\<^verbatim>\<open>datetime.fromisoformat\<close>: a time without a zone, or an instant.\<close>

datatype moment = Naive | Aware rat

record landing_port =
  lp_land :: "unit answer"
  lp_update_status :: "bool answer"
  lp_mark_verified :: "bool answer"

record promotion_env =
  pe_policy :: promotion_policy
  pe_sqlglot :: sqlglot
  pe_enabled :: "bool answer"
  pe_clock :: "string answer"
  pe_store :: "unit answer"
  pe_probe :: "probe_result answer"
  pe_hits :: "int answer"
  pe_recurrence :: "int answer option"
  pe_resolver :: "bool answer option"
  pe_landing :: "landing_port option"
  pe_require_landing :: bool
  pe_corpus_status :: "unit answer option"
  pe_instant :: "string \<Rightarrow> moment option"
  pe_round :: "rat \<Rightarrow> rat"
  pe_order :: "string list \<Rightarrow> string list"

record plane =
  pl_store :: candidate_store
  pl_calls :: "port_call list"

type_synonym ('r, 'a) job = "(plane, 'r, 'a) prog"

text \<open>A call is made whether it succeeds or not, and answered from the calls up to it.\<close>

definition calling_port :: "port_call \<Rightarrow> 'a answer \<Rightarrow> ('r, 'a) job" where
  "calling_port c answer = and_then (read pl_calls) (\<lambda>h. and_then (modify (\<lambda>s. s\<lparr>pl_calls := h @ [c]\<rparr>)) (\<lambda>_. lift (answer (h @ [c]))))"

definition reading_store :: "promotion_env \<Rightarrow> (candidate_store \<Rightarrow> 'a) \<Rightarrow> ('r, 'a) job" where
  "reading_store pe f = and_then (calling_port ReadStore (pe_store pe)) (\<lambda>_. read (\<lambda>s. f (pl_store s)))"

definition changing_store :: "promotion_env \<Rightarrow> port_call \<Rightarrow> (candidate_store \<Rightarrow> candidate_store) \<Rightarrow> ('r, unit) job" where
  "changing_store pe c f = and_then (calling_port c (pe_store pe)) (\<lambda>_. modify (\<lambda>s. s\<lparr>pl_store := f (pl_store s)\<rparr>))"

definition put_row :: "promotion_env \<Rightarrow> candidate_envelope \<Rightarrow> ('r, unit) job" where
  "put_row pe e = changing_store pe (PutCandidate e) (put_candidate e)"

definition clock_now :: "promotion_env \<Rightarrow> ('r, string) job" where
  "clock_now pe = calling_port ReadClock (pe_clock pe)"

section \<open>Drift\<close>

abbreviation GRAIN_INTEGRITY :: string where
  "GRAIN_INTEGRITY \<equiv> ''grain_integrity''"

record replay_outcome =
  ro_passed :: bool
  ro_verify :: "verify_outcome option"
  ro_replay_sql :: "string option"
  ro_sampled_slots :: "string list"
  ro_reason :: "string option"

definition drift_from_replay :: "replay_outcome \<Rightarrow> string \<Rightarrow> drift_stamp" where
  "drift_from_replay r now =
     (if ro_passed r then \<lparr>dp_status = ''clean'', dp_last_drift_check_at = PStr now, dp_probes = [GRAIN_INTEGRITY], dp_failed_probe = None\<rparr>
      else \<lparr>dp_status = ''suspect'', dp_last_drift_check_at = PStr now, dp_probes = [GRAIN_INTEGRITY], dp_failed_probe = Some GRAIN_INTEGRITY\<rparr>)"

definition user_correction_stamp :: "string \<Rightarrow> drift_stamp" where
  "user_correction_stamp now = \<lparr>dp_status = ''suspect'', dp_last_drift_check_at = PStr now, dp_probes = [], dp_failed_probe = None\<rparr>"

definition is_fresh :: "promotion_env \<Rightarrow> pyval \<Rightarrow> moment \<Rightarrow> rat \<Rightarrow> bool" where
  "is_fresh pe last_check now window = (case last_check of
     PStr t \<Rightarrow> t \<noteq> [] \<and> (case (pe_instant pe t, now) of
       (Some (Aware checked), Aware n) \<Rightarrow> 0 \<le> pe_round pe (n - checked) \<and> pe_round pe (n - checked) \<le> window
     | _ \<Rightarrow> False)
   | _ \<Rightarrow> False)"

definition reusable_replay_verdict :: "promotion_env \<Rightarrow> drift_stamp \<Rightarrow> moment \<Rightarrow> rat \<Rightarrow> bool option" where
  "reusable_replay_verdict pe drift now window =
     (if GRAIN_INTEGRITY \<notin> set (dp_probes drift) then None
      else if \<not> is_fresh pe (dp_last_drift_check_at drift) now window then None
      else if dp_status drift = ''clean'' then Some True
      else if dp_status drift = ''suspect'' then Some False
      else None)"

definition silent_eligible :: "promotion_env \<Rightarrow> candidate_envelope \<Rightarrow> moment \<Rightarrow> promotion_policy \<Rightarrow> bool" where
  "silent_eligible pe e now policy \<longleftrightarrow> ce_status e = VALIDATED \<and> dp_status (ce_drift e) = ''clean'' \<and>
     is_fresh pe (dp_last_drift_check_at (ce_drift e)) now (pp_drift_freshness_seconds policy)"

section \<open>Golden replay\<close>

text \<open>The first node template of the greatest order.\<close>

fun last_template :: "node_template list \<Rightarrow> node_template option" where
  "last_template [] = None"
| "last_template (n # ns) = (case last_template ns of
     None \<Rightarrow> Some n | Some m \<Rightarrow> Some (if nt_order m > nt_order n then m else n))"

definition pick_template :: "generalization \<Rightarrow> string option" where
  "pick_template g = (case gb_sql_template g of
     Some t \<Rightarrow> if t \<noteq> [] then Some t else map_option nt_sql_template (last_template (gb_node_templates g))
   | None \<Rightarrow> map_option nt_sql_template (last_template (gb_node_templates g)))"

definition SAMPLE_DATE :: string where
  "SAMPLE_DATE = ''2020-01-01''"

definition SAMPLE_RELATIVE_WINDOW :: int where
  "SAMPLE_RELATIVE_WINDOW = 1"

definition plain_slot :: "string \<Rightarrow> string \<Rightarrow> slot_spec" where
  "plain_slot name ty = \<lparr>sl_name = name, sl_type = ty, sl_required = True, sl_binds_to = None, sl_enum_values = None,
     sl_optional_pattern = None, sl_min_value = None, sl_max_value = None\<rparr>"

definition slot_types_of :: "pyval \<Rightarrow> (string, string) dict \<Rightarrow> (string, string) dict" where
  "slot_types_of entry types = (case entry of
     PDict p \<Rightarrow> (case getv p ''slot'' of
       PDict slot \<Rightarrow> (case getv slot ''name'' of
         PStr name \<Rightarrow> let ty = text_or [] (getv slot ''type'')
           in fold (\<lambda>token. dset token ty) (slot_token_names (plain_slot name ty)) types
       | _ \<Rightarrow> types)
     | _ \<Rightarrow> types)
   | _ \<Rightarrow> types)"

definition slot_types :: "pydict \<Rightarrow> (string, string) dict" where
  "slot_types payload = (case getv payload ''parameterization'' of
     PList params \<Rightarrow> fold slot_types_of params [] | _ \<Rightarrow> [])"

definition sample_value :: "string \<Rightarrow> string \<Rightarrow> pyval" where
  "sample_value name ty =
     (if ty \<in> {''as_of_date'', ''period_range''} then PStr SAMPLE_DATE
      else if ty = ''relative_window'' then PInt SAMPLE_RELATIVE_WINDOW
      else if ty = ''list'' then PList [PStr (''__replay_sample_'' @ name @ ''__'')]
      else PStr (''__replay_sample_'' @ name @ ''__''))"

definition sample_bindings :: "string list \<Rightarrow> (string, string) dict \<Rightarrow> (string \<times> pyval) list" where
  "sample_bindings names types = map (\<lambda>name. (name, sample_value name (dget_or types name []))) names"

fun column_name :: "pyval \<Rightarrow> string option" where
  "column_name (PDict c) = (case getv c ''column'' of PStr s \<Rightarrow> if s \<noteq> [] then Some s else None | _ \<Rightarrow> None)"
| "column_name _ = None"

definition expected_columns :: "pydict \<Rightarrow> string list option result" where
  "expected_columns payload =
     rbind (get_of (or_value (getv payload ''result_signature'') (PDict []))) (\<lambda>sig.
     rbind (py_list (or_value (getv sig ''shape'') (PList []))) (\<lambda>shape.
     let cols = List.map_filter column_name shape in Inr (if cols = [] then None else Some cols)))"

definition not_replayed :: "string option \<Rightarrow> string list \<Rightarrow> string \<Rightarrow> replay_outcome" where
  "not_replayed sql sampled reason = \<lparr>ro_passed = False, ro_verify = None, ro_replay_sql = sql, ro_sampled_slots = sampled,
     ro_reason = Some reason\<rparr>"

text \<open>\<^verbatim>\<open>BlueprintGeneralization.from_doc\<close> under \<^verbatim>\<open>except (KeyError, TypeError)\<close>: what else it raises is raised.\<close>

definition read_generalization :: "pydict \<Rightarrow> generalization option result" where
  "read_generalization d = (case generalization_from_doc d of
     Inr g \<Rightarrow> Inr (Some g) | Inl (KeyError k) \<Rightarrow> Inr None | Inl TypeError \<Rightarrow> Inr None | Inl e \<Rightarrow> Inl e)"

definition replay_sql_of :: "promotion_env \<Rightarrow> pydict \<Rightarrow> string \<Rightarrow> string option result" where
  "replay_sql_of pe payload template =
     (case bind_template (pe_sqlglot pe) template (sample_bindings (referenced_slots template) (slot_types payload)) [] [] of
        Inr sql \<Rightarrow> Inr (Some sql) | Inl (TemplateBindError m) \<Rightarrow> Inr None | Inl e \<Rightarrow> Inl e)"

definition replay_verdict :: "generalization \<Rightarrow> string \<Rightarrow> string list \<Rightarrow> string list option \<Rightarrow> probe_result result \<Rightarrow> replay_outcome" where
  "replay_verdict g sql sampled expected probed = (case probed of
     Inl e \<Rightarrow> not_replayed (Some sql) sampled ''probe_unavailable''
   | Inr p \<Rightarrow> let v = verify_result (gb_result_grain g) (pr_row_count p) (pr_distinct_grain_count p) (pr_columns p) expected
       in \<lparr>ro_passed = vo_passed v, ro_verify = Some v, ro_replay_sql = Some sql, ro_sampled_slots = sampled,
           ro_reason = (if vo_passed v then None else case vo_reason v of Some r \<Rightarrow> Some (if r = [] then ''verify_failed'' else r)
             | None \<Rightarrow> Some ''verify_failed'')\<rparr>)"

definition golden_replay :: "promotion_env \<Rightarrow> candidate_envelope \<Rightarrow> ('r, replay_outcome) job" where
  "golden_replay pe e = (case dict_only (getv (ce_payload e) ''generalization'') of
     None \<Rightarrow> pure (not_replayed None [] ''no_generalization'')
   | Some gen_doc \<Rightarrow> and_then (lift (read_generalization gen_doc)) (\<lambda>read. case read of
         None \<Rightarrow> pure (not_replayed None [] ''malformed_generalization'')
       | Some g \<Rightarrow> (let template = (case pick_template g of None \<Rightarrow> [] | Some t \<Rightarrow> t); sampled = sort (referenced_slots template) in
           if template = [] then pure (not_replayed None [] ''no_template'')
           else and_then (lift (replay_sql_of pe (ce_payload e) template)) (\<lambda>bound. case bound of
               None \<Rightarrow> pure (not_replayed None sampled ''bind_failed'')
             | Some sql \<Rightarrow>
                 if gb_uses g = [] then pure (not_replayed (Some sql) sampled ''no_uses_scope'')
                 else and_then (lift (expected_columns (ce_payload e))) (\<lambda>expected.
                   and_then (catching (calling_port (RunProbe sql (rg_columns (gb_result_grain g)) (gb_uses g)) (pe_probe pe))) (\<lambda>probed.
                   pure (replay_verdict g sql sampled expected probed)))))))"

section \<open>What a replay shows\<close>

text \<open>
  A pass rests on a generalisation that reads back, a template that binds under its declared
  footprint, and a probe whose structure the deterministic gate accepts.
\<close>

definition replay_passes :: "promotion_env \<Rightarrow> candidate_envelope \<Rightarrow> bool" where
  "replay_passes pe e \<longleftrightarrow> (\<exists>d g t sql expected h p. dict_only (getv (ce_payload e) ''generalization'') = Some d \<and>
     generalization_from_doc d = Inr g \<and> pick_template g = Some t \<and> replay_sql_of pe (ce_payload e) t = Inr (Some sql) \<and>
     gb_uses g \<noteq> [] \<and> expected_columns (ce_payload e) = Inr expected \<and> pe_probe pe h = Inr p \<and>
     vo_passed (verify_result (gb_result_grain g) (pr_row_count p) (pr_distinct_grain_count p) (pr_columns p) expected))"

lemma read_generalization_some: "read_generalization d = Inr (Some g) \<Longrightarrow> generalization_from_doc d = Inr g"
  by (auto simp: read_generalization_def split: sum.splits exc.splits)

lemma not_replayed_passed [simp]: "\<not> ro_passed (not_replayed sql sampled r)"
  by (simp add: not_replayed_def)

lemma drift_status_replay: "dp_status (drift_from_replay r now) = (if ro_passed r then ''clean'' else ''suspect'')"
  "dp_probes (drift_from_replay r now) = [GRAIN_INTEGRITY]"
  by (simp_all add: drift_from_replay_def)

end
