(* ===== verification/PromotionScheduler.thy ===== *)
theory PromotionScheduler
  imports PromotionReplay
begin

text \<open>
  \<^verbatim>\<open>PromotionScheduler\<close> of \<^verbatim>\<open>promotion/scheduler.py\<close>: the sweep that routes guarded candidates to a human
  and re-checks validated ones, and the transitions a human or a user correction asks for. Every
  method is a program over the plane; an early return is the program's \<open>Return\<close>.
\<close>

definition LANDED_TYPES :: "string list" where
  "LANDED_TYPES = [BLUEPRINT_TYPE, ''global_knowledge'']"

definition ROUTE_REASON_USER_CORRECTED :: string where
  "ROUTE_REASON_USER_CORRECTED = ''user_corrected''"

definition parse_clock :: "promotion_env \<Rightarrow> string \<Rightarrow> moment option" where
  "parse_clock pe now = (case pe_instant pe now of Some (Aware t) \<Rightarrow> Some (Aware t) | _ \<Rightarrow> None)"

definition is_user_correction_stamp :: "drift_stamp \<Rightarrow> bool" where
  "is_user_correction_stamp d \<longleftrightarrow> dp_status d = ''suspect'' \<and> dp_probes d = [] \<and> dp_failed_probe d = None"

definition entity_scan_is_actionable :: "promotion_env \<Rightarrow> candidate_envelope \<Rightarrow> bool result" where
  "entity_scan_is_actionable pe e = rbind (is_settled (ce_entity_scan e)) (\<lambda>settled.
     if \<not> settled then Inr False
     else if getv (ce_entity_scan e) ''result'' = PStr ''pass'' then Inr True
     else rbind (entity_spans (pe_order pe) e) (\<lambda>spans. Inr (spans \<noteq> [])))"

definition entity_scan_is_clean :: "candidate_envelope \<Rightarrow> bool result" where
  "entity_scan_is_clean e = rbind (is_settled (ce_entity_scan e)) (\<lambda>settled.
     Inr (settled \<and> getv (ce_entity_scan e) ''result'' = PStr ''pass''))"

section \<open>Helpers\<close>

definition decided :: "candidate_envelope \<Rightarrow> string \<Rightarrow> string \<Rightarrow> string option \<Rightarrow> candidate_decision" where
  "decided e action status reason = \<lparr>cd_candidate_id = ce_candidate_id e, cd_type = ce_type e, cd_action = action,
     cd_from_status = ce_status e, cd_to_status = status, cd_reason = reason\<rparr>"

definition hold :: "candidate_envelope \<Rightarrow> string \<Rightarrow> candidate_decision" where
  "hold e reason = decided e ''hold'' (ce_status e) (Some reason)"

definition reusable_drift :: "promotion_env \<Rightarrow> candidate_envelope \<Rightarrow> ('r, drift_stamp option) job" where
  "reusable_drift pe e = and_then (clock_now pe) (\<lambda>now. pure (case parse_clock pe now of
     None \<Rightarrow> None
   | Some n \<Rightarrow>
       (let window = min (pp_replay_recheck_interval_seconds (pe_policy pe)) (pp_drift_freshness_seconds (pe_policy pe))
        in if reusable_replay_verdict pe (ce_drift e) n window = None then None else Some (ce_drift e))))"

definition generalization_of :: "candidate_envelope \<Rightarrow> generalization option result" where
  "generalization_of e = (case dict_only (getv (ce_payload e) ''generalization'') of Some d \<Rightarrow> read_generalization d | None \<Rightarrow> Inr None)"

definition canonical_key_of :: "candidate_envelope \<Rightarrow> string option" where
  "canonical_key_of e = map_option dv_canonical_key (ce_dedup e)"

definition landing_gate_blocks :: "promotion_env \<Rightarrow> bool" where
  "landing_gate_blocks pe \<longleftrightarrow> pe_require_landing pe \<and> pe_landing pe = None"

text \<open>The write-backs to the corpus: whatever they raise is swallowed.\<close>

definition swallowing :: "('r, 'a) job \<Rightarrow> ('r, unit) job" where
  "swallowing m = and_then (catching m) (\<lambda>_. pure ())"

definition retract_corpus :: "promotion_env \<Rightarrow> candidate_envelope \<Rightarrow> string \<Rightarrow> string \<Rightarrow> ('r, unit) job" where
  "retract_corpus pe e status drift_status = (case pe_landing pe of
     None \<Rightarrow> pure ()
   | Some w \<Rightarrow> swallowing (calling_port (UpdateStatus e status drift_status) (lp_update_status w)))"

definition stamp_corpus_status :: "promotion_env \<Rightarrow> candidate_envelope \<Rightarrow> string \<Rightarrow> ('r, unit) job" where
  "stamp_corpus_status pe e status = (case pe_corpus_status pe of
     None \<Rightarrow> pure ()
   | Some set_status \<Rightarrow> (case canonical_key_of e of
       None \<Rightarrow> pure ()
     | Some key \<Rightarrow> if key = [] then pure () else swallowing (calling_port (SetArtifactStatus key status) set_status)))"

definition verify_corpus :: "promotion_env \<Rightarrow> candidate_envelope \<Rightarrow> ('r, bool) job" where
  "verify_corpus pe e = (case pe_landing pe of
     None \<Rightarrow> pure False
   | Some w \<Rightarrow> and_then (catching (calling_port (MarkVerified e) (lp_mark_verified w)))
       (\<lambda>r. pure (case r of Inl _ \<Rightarrow> False | Inr b \<Rightarrow> b)))"

fun all_resolved :: "bool answer \<Rightarrow> string list \<Rightarrow> ('r, bool) job" where
  "all_resolved resolver [] = pure True"
| "all_resolved resolver (ref # refs) = and_then (calling_port (AskResolved ref) resolver)
     (\<lambda>b. if b then all_resolved resolver refs else pure False)"

definition deps_resolved :: "promotion_env \<Rightarrow> candidate_envelope \<Rightarrow> ('r, bool) job" where
  "deps_resolved pe e = (if ce_depends_on e = [] then pure True
     else case pe_resolver pe of None \<Rightarrow> pure False | Some resolver \<Rightarrow> all_resolved resolver (ce_depends_on e))"

definition with_key :: "candidate_envelope \<Rightarrow> (string \<Rightarrow> ('r, int) job) \<Rightarrow> ('r, int) job" where
  "with_key e f = (case canonical_key_of e of None \<Rightarrow> pure 0 | Some key \<Rightarrow> if key = [] then pure 0 else f key)"

definition read_hit_count :: "promotion_env \<Rightarrow> candidate_envelope \<Rightarrow> ('r, int) job" where
  "read_hit_count pe e = with_key e (\<lambda>key. calling_port (AskHits key) (pe_hits pe))"

definition read_recurrence_count :: "promotion_env \<Rightarrow> candidate_envelope \<Rightarrow> ('r, int) job" where
  "read_recurrence_count pe e = (case pe_recurrence pe of
     None \<Rightarrow> pure 0
   | Some counts \<Rightarrow> with_key e (\<lambda>key. and_then (catching (calling_port (AskRecurrence key) counts))
       (\<lambda>r. pure (case r of Inl _ \<Rightarrow> 0 | Inr n \<Rightarrow> n))))"

definition corroboration :: "promotion_env \<Rightarrow> candidate_envelope \<Rightarrow> ('r, rat) job" where
  "corroboration pe e = and_then (read_hit_count pe e) (\<lambda>hits.
     let weight = pp_recurrence_weight (pe_policy pe); base = pe_round pe (of_int (max hits 1)) in
     if weight \<le> 0 then pure base
     else and_then (read_recurrence_count pe e) (\<lambda>n. pure (pe_round pe (base + pe_round pe (weight * pe_round pe (of_int n))))))"

section \<open>The sweep\<close>

definition only_if :: "bool \<Rightarrow> ('r, unit) job \<Rightarrow> ('r, unit) job" where
  "only_if b m = (if b then m else pure ())"

definition check :: "bool \<Rightarrow> 'r \<Rightarrow> ('r, unit) job" where
  "check ok r = (if ok then pure () else return r)"

definition reason_text :: "string option \<Rightarrow> string" where
  "reason_text r = (case r of None \<Rightarrow> ''None'' | Some t \<Rightarrow> t)"

text \<open>Guard 3: the stored verdict inside its window, or a replay whose stamp is stored either way.\<close>

definition replay_guard :: "promotion_env \<Rightarrow> candidate_envelope \<Rightarrow> (candidate_decision, drift_stamp) job" where
  "replay_guard pe e = and_then (reusable_drift pe e) (\<lambda>reused. case reused of
     None \<Rightarrow> and_then (golden_replay pe e) (\<lambda>r. and_then (clock_now pe) (\<lambda>now.
       let drift = drift_from_replay r now in
       and_then (changing_store pe (StampDrift (ce_candidate_id e) drift) (stamp_drift (ce_candidate_id e) drift)) (\<lambda>_.
       and_then (check (ro_passed r) (hold (e\<lparr>ce_drift := drift\<rparr>) (''replay_failed:'' @ reason_text (ro_reason r)))) (\<lambda>_. pure drift))))
   | Some drift \<Rightarrow> and_then (check (dp_status drift = ''clean'') (hold e ''replay_failed:cached_suspect'')) (\<lambda>_. pure drift))"

definition routed_candidate :: "candidate_envelope \<Rightarrow> bool \<Rightarrow> candidate_envelope" where
  "routed_candidate e corrected = e\<lparr>ce_status := IN_REVIEW,
     ce_route_reason := (if corrected then Some ROUTE_REASON_USER_CORRECTED else ce_route_reason e)\<rparr>"

definition advance_candidate :: "promotion_env \<Rightarrow> candidate_envelope \<Rightarrow> (candidate_decision, candidate_decision) job" where
  "advance_candidate pe e =
     and_then (only_if (ce_type e \<in> set LANDED_TYPES) (retract_corpus pe e (ce_status e) (dp_status (ce_drift e)))) (\<lambda>_.
     let corrected = is_user_correction_stamp (ce_drift e) in
     and_then (check (ce_type e = BLUEPRINT_TYPE)
       (hold e (if ce_type e \<in> set HUMAN_GATED_TYPES then ''human_gated_target'' else ''not_auto_promotable''))) (\<lambda>_.
     and_then (lift (entity_scan_is_clean e)) (\<lambda>clean. and_then (check clean (hold e ''entity_scan_not_pass'')) (\<lambda>_.
     and_then (lift (generalization_of e)) (\<lambda>gen.
     and_then (check (case gen of None \<Rightarrow> False | Some g \<Rightarrow> sv_outcome (gb_static_validation g) = ''ok'') (hold e ''static_not_ok'')) (\<lambda>_.
     and_then (deps_resolved pe e) (\<lambda>resolved. and_then (check resolved (hold e ''depends_on_unresolved'')) (\<lambda>_.
     and_then (replay_guard pe e) (\<lambda>drift.
     let e' = e\<lparr>ce_drift := drift\<rparr> in
     and_then (corroboration pe e') (\<lambda>c.
     and_then (check (c \<ge> of_int (pp_blueprint_hit_threshold (pe_policy pe))) (hold e' ''below_hit_threshold'')) (\<lambda>_.
     let routed = routed_candidate e' corrected in
     and_then (only_if (ce_type e' \<in> set LANDED_TYPES) (retract_corpus pe routed IN_REVIEW (dp_status (ce_drift e')))) (\<lambda>_.
     and_then (put_row pe routed) (\<lambda>_.
     return (decided e' ''route'' IN_REVIEW (if corrected then Some ROUTE_REASON_USER_CORRECTED else None)))))))))))))))"

text \<open>A clean verdict keeps the candidate validated; a failed replay demotes it, the landed node first.\<close>

definition settle_recheck :: "promotion_env \<Rightarrow> candidate_envelope \<Rightarrow> replay_outcome \<Rightarrow> drift_stamp \<Rightarrow> (candidate_decision, candidate_decision) job" where
  "settle_recheck pe e r drift =
     (if ro_passed r then
        (let refreshed = e\<lparr>ce_drift := drift\<rparr> in
         and_then (put_row pe refreshed) (\<lambda>_.
         and_then (retract_corpus pe refreshed VALIDATED (dp_status drift)) (\<lambda>_.
         return (decided e ''drift_clean'' (ce_status e) None))))
      else
        (let demoted = e\<lparr>ce_status := CANDIDATE, ce_drift := drift\<rparr> in
         and_then (retract_corpus pe demoted CANDIDATE (dp_status drift)) (\<lambda>_.
         and_then (put_row pe demoted) (\<lambda>_.
         return (decided e ''demote'' CANDIDATE (Some (''drift_suspect:'' @ reason_text (dp_failed_probe drift))))))))"

definition recheck_validated :: "promotion_env \<Rightarrow> candidate_envelope \<Rightarrow> (candidate_decision, candidate_decision) job" where
  "recheck_validated pe e =
     and_then (check (ce_type e = BLUEPRINT_TYPE) (decided e ''skip'' (ce_status e) (Some ''not_replayable''))) (\<lambda>_.
     and_then (reusable_drift pe e) (\<lambda>reused.
     let fresh = (case reused of Some d \<Rightarrow> if dp_status d = ''clean'' then Some d else None | None \<Rightarrow> None) in
     case fresh of
       Some d \<Rightarrow> and_then (retract_corpus pe e VALIDATED (dp_status d)) (\<lambda>_.
         return (decided e ''drift_clean'' (ce_status e) (Some ''replay_fresh'')))
     | None \<Rightarrow> and_then (golden_replay pe e) (\<lambda>r. and_then (clock_now pe) (\<lambda>now.
         settle_recheck pe e r (drift_from_replay r now)))))"

definition mark_scanned :: "promotion_env \<Rightarrow> candidate_envelope \<Rightarrow> (promotion_sweep, unit) job" where
  "mark_scanned pe e = swallowing (and_then (clock_now pe) (\<lambda>now.
     changing_store pe (TouchScanned (ce_candidate_id e) now) (touch_scanned (ce_candidate_id e) now)))"

text \<open>The handler's answer or the hold of a failure; the cursor moves in either case.\<close>

definition scan_guard :: "promotion_env \<Rightarrow> (candidate_envelope \<Rightarrow> (candidate_decision, candidate_decision) job) \<Rightarrow>
    candidate_envelope \<Rightarrow> (promotion_sweep, candidate_decision) job" where
  "scan_guard pe handler e = and_then (catching (calling (handler e))) (\<lambda>r.
     and_then (mark_scanned pe e) (\<lambda>_. pure (case r of Inl _ \<Rightarrow> hold e ''error'' | Inr d \<Rightarrow> d)))"

fun scan_guard_all :: "promotion_env \<Rightarrow> (candidate_envelope \<Rightarrow> (candidate_decision, candidate_decision) job) \<Rightarrow>
    candidate_envelope list \<Rightarrow> (promotion_sweep, candidate_decision list) job" where
  "scan_guard_all pe handler [] = pure []"
| "scan_guard_all pe handler (e # es) = and_then (scan_guard pe handler e) (\<lambda>d.
     and_then (scan_guard_all pe handler es) (\<lambda>ds. pure (d # ds)))"

definition scan_rows :: "promotion_env \<Rightarrow> string \<Rightarrow> (promotion_sweep, candidate_envelope list) job" where
  "scan_rows pe status = reading_store pe (list_by_status status (pp_scan_limit (pe_policy pe)) False ByScanned)"

definition run_once :: "promotion_env \<Rightarrow> (promotion_sweep, promotion_sweep) job" where
  "run_once pe = and_then (calling_port ReadSwitch (pe_enabled pe)) (\<lambda>on.
     if \<not> on then pure \<lparr>sw_decisions = [], sw_disabled = True\<rparr>
     else and_then (scan_rows pe CANDIDATE) (\<lambda>candidates.
       and_then (scan_rows pe VALIDATED) (\<lambda>validated.
       and_then (scan_guard_all pe (advance_candidate pe) candidates) (\<lambda>ds.
       and_then (scan_guard_all pe (recheck_validated pe) validated) (\<lambda>ds'.
       pure \<lparr>sw_decisions = ds @ ds', sw_disabled = False\<rparr>)))))"

text \<open>The daemon, for a number of cycles: a cycle that fails does not end it.\<close>

fun run_cycles :: "nat \<Rightarrow> promotion_env \<Rightarrow> (unit, unit) job" where
  "run_cycles 0 pe = pure ()"
| "run_cycles (Suc n) pe = and_then (swallowing (calling (run_once pe))) (\<lambda>_. run_cycles n pe)"

section \<open>Caller-driven transitions\<close>

definition land_and_promote :: "promotion_env \<Rightarrow> candidate_envelope \<Rightarrow> landing_port \<Rightarrow> drift_stamp \<Rightarrow> string \<Rightarrow> string list \<Rightarrow> bool \<Rightarrow>
    (candidate_decision, candidate_decision) job" where
  "land_and_promote pe e w drift action forbidden verified =
     and_then (lift (strip_entity_bearing (pe_order pe) e)) (\<lambda>stripped.
     let landed = stripped\<lparr>ce_drift := drift\<rparr> in
     and_then (catching (calling_port (Land landed forbidden verified) (lp_land w))) (\<lambda>r. case r of
       Inl _ \<Rightarrow> return (decided landed ''hold'' (ce_status e) (Some ''landing_failed''))
     | Inr _ \<Rightarrow> and_then (put_row pe (landed\<lparr>ce_status := VALIDATED, ce_verified := verified\<rparr>)) (\<lambda>_.
         return (decided landed action VALIDATED None))))"

definition apply_reject :: "promotion_env \<Rightarrow> candidate_envelope \<Rightarrow> (candidate_decision, candidate_decision) job" where
  "apply_reject pe e =
     (let rejected = e\<lparr>ce_status := REJECTED\<rparr> in
      and_then (retract_corpus pe rejected REJECTED (dp_status (ce_drift e))) (\<lambda>_.
      and_then (stamp_corpus_status pe e REJECTED) (\<lambda>_.
      and_then (put_row pe rejected) (\<lambda>_. return (decided e ''reject'' REJECTED None)))))"

text \<open>The structural guards of a blueprint, or the landing of knowledge; a plain write where nothing is landed.\<close>

definition approve_blueprint :: "promotion_env \<Rightarrow> candidate_envelope \<Rightarrow> string list \<Rightarrow> (candidate_decision, drift_stamp) job" where
  "approve_blueprint pe e forbidden =
     and_then (lift (generalization_of e)) (\<lambda>gen. case gen of
       None \<Rightarrow> return (hold e ''approve_blocked_no_generalization'')
     | Some g \<Rightarrow>
         and_then (check (sv_outcome (gb_static_validation g) = ''ok'') (hold e ''approve_blocked_static_not_ok'')) (\<lambda>_.
         and_then (golden_replay pe e) (\<lambda>r.
         and_then (check (ro_passed r) (hold e (''approve_blocked_replay:'' @ reason_text (ro_reason r)))) (\<lambda>_.
         and_then (check (\<not> landing_gate_blocks pe) (hold e ''approve_blocked_landing_unavailable'')) (\<lambda>_.
         and_then (clock_now pe) (\<lambda>now.
         let drift = drift_from_replay r now in
         case pe_landing pe of
           Some w \<Rightarrow> and_then (land_and_promote pe e w drift ''approve'' forbidden True) return
         | None \<Rightarrow> pure drift))))))"

definition approve_other :: "promotion_env \<Rightarrow> candidate_envelope \<Rightarrow> string list \<Rightarrow> (candidate_decision, drift_stamp) job" where
  "approve_other pe e forbidden =
     (if ce_type e = ''global_knowledge'' then
        (case pe_landing pe of
           Some w \<Rightarrow> and_then (land_and_promote pe e w unchecked_drift ''approve'' forbidden True) return
         | None \<Rightarrow> and_then (check (\<not> landing_gate_blocks pe) (hold e ''approve_blocked_landing_unavailable'')) (\<lambda>_. pure unchecked_drift))
      else pure unchecked_drift)"

definition apply_approve :: "promotion_env \<Rightarrow> candidate_envelope \<Rightarrow> (candidate_decision, candidate_decision) job" where
  "apply_approve pe e =
     and_then (check (ce_status e = IN_REVIEW) (hold e ''approve_not_in_review'')) (\<lambda>_.
     and_then (lift (entity_scan_is_actionable pe e)) (\<lambda>actionable.
     and_then (check actionable (hold e ''approve_blocked_entity_scan_not_actionable'')) (\<lambda>_.
     and_then (lift (entity_spans (pe_order pe) e)) (\<lambda>forbidden.
     and_then (lift (strip_entity_bearing (pe_order pe) e)) (\<lambda>e'.
     and_then (deps_resolved pe e') (\<lambda>resolved.
     and_then (check resolved (hold e' ''approve_blocked_depends_on_unresolved'')) (\<lambda>_.
     and_then (if ce_type e' = BLUEPRINT_TYPE then approve_blueprint pe e' forbidden else approve_other pe e' forbidden) (\<lambda>drift.
     and_then (put_row pe (e'\<lparr>ce_status := VALIDATED, ce_drift := drift\<rparr>)) (\<lambda>_.
     return (decided e' ''approve'' VALIDATED None))))))))))"

definition apply_human_decision :: "promotion_env \<Rightarrow> candidate_envelope \<Rightarrow> string \<Rightarrow> (candidate_decision, candidate_decision) job" where
  "apply_human_decision pe e choice =
     (if choice = ''reject'' then apply_reject pe e
      else if choice \<noteq> ''approve'' then return (hold e (''unknown_decision:'' @ choice))
      else apply_approve pe e)"

definition apply_user_correction :: "promotion_env \<Rightarrow> candidate_envelope \<Rightarrow> (candidate_decision, candidate_decision) job" where
  "apply_user_correction pe e =
     and_then (check (ce_status e = VALIDATED) (hold e ''not_validated'')) (\<lambda>_.
     and_then (clock_now pe) (\<lambda>now.
     let demoted = e\<lparr>ce_status := CANDIDATE, ce_drift := user_correction_stamp now\<rparr> in
     and_then (retract_corpus pe demoted CANDIDATE (dp_status (ce_drift demoted))) (\<lambda>_.
     and_then (put_row pe demoted) (\<lambda>_. return (decided e ''demote'' CANDIDATE (Some ''user_correction''))))))"

definition apply_retract :: "promotion_env \<Rightarrow> candidate_envelope \<Rightarrow> (candidate_decision, candidate_decision) job" where
  "apply_retract pe e =
     and_then (check (ce_status e = VALIDATED) (hold e ''not_validated'')) (\<lambda>_.
     let retired = e\<lparr>ce_status := RETIRED\<rparr> in
     and_then (retract_corpus pe retired RETIRED (dp_status (ce_drift e))) (\<lambda>_.
     and_then (stamp_corpus_status pe e RETIRED) (\<lambda>_.
     and_then (put_row pe retired) (\<lambda>_. return (decided e ''retire'' RETIRED None)))))"

definition apply_verify :: "promotion_env \<Rightarrow> candidate_envelope \<Rightarrow> (candidate_decision \<times> bool, candidate_decision \<times> bool) job" where
  "apply_verify pe e =
     and_then (check (ce_status e = VALIDATED) (hold e ''not_validated'', False)) (\<lambda>_.
     and_then (verify_corpus pe e) (\<lambda>stamped.
     and_then (put_row pe (e\<lparr>ce_verified := True\<rparr>)) (\<lambda>_.
     return (decided e ''verify'' (ce_status e) None, stamped))))"

definition apply_promote :: "promotion_env \<Rightarrow> candidate_envelope \<Rightarrow> (candidate_decision, candidate_decision) job" where
  "apply_promote pe e =
     and_then (check (ce_status e = VALIDATED) (hold e ''not_validated'')) (\<lambda>_.
     and_then (check (ce_verified e) (hold e ''not_verified'')) (\<lambda>_.
     and_then (put_row pe (e\<lparr>ce_status := PROMOTED\<rparr>)) (\<lambda>_. return (decided e ''promote_emit'' PROMOTED None))))"

end
