(* ===== verification/PromotionCalls.thy ===== *)
theory PromotionCalls
  imports PromotionScheduler
begin

text \<open>
  The calls a run of a promotion method makes: which of them write, that the history only grows, and
  what is known of an answer heard in a part of the history. A method that goes on past a guard heard
  the answers the guard rests on during that very run; the guards are stated over those answers.
\<close>

section \<open>Calls that write nothing\<close>

fun stores :: "port_call \<Rightarrow> bool" where
  "stores (PutCandidate e) = True"
| "stores (TouchScanned c ts) = True"
| "stores (StampDrift c d) = True"
| "stores _ = False"

text \<open>A relation that a call to a port keeps: every method that only asks keeps it too.\<close>

locale plane_relation = step_relation R for R :: "plane \<Rightarrow> plane \<Rightarrow> bool" +
  assumes asked: "\<not> stores c \<Longrightarrow> R s (s\<lparr>pl_calls := pl_calls s @ [c]\<rparr>)"
begin

lemma asking:
  assumes "\<not> stores c"
  shows "stays R (calling_port c answer)"
  using asked [OF assms] same
  by (auto simp: stays_def calling_port_def Flow.and_then_def read_def modify_def lift_def split: sum.split)

lemma glue:
  "stays R (clock_now pe)" "stays R m \<Longrightarrow> stays R (swallowing m)" "stays R u \<Longrightarrow> stays R (only_if b u)"
  unfolding clock_now_def swallowing_def only_if_def
  by (intro stay_rules asking stores.simps(4-) notI | assumption | simp)+

lemma resolved: "stays R (all_resolved resolver refs)"
  by (induction refs) (auto intro!: stay_rules asking)

lemma corpus:
  "stays R (retract_corpus pe e status d)" "stays R (stamp_corpus_status pe e status)" "stays R (verify_corpus pe e)"
  unfolding retract_corpus_def stamp_corpus_status_def verify_corpus_def
  by (intro stay_rules glue asking, simp?)+

lemma reads:
  "stays R (deps_resolved pe e)" "stays R (corroboration pe e')" "stays R (reusable_drift pe e'')"
  unfolding deps_resolved_def corroboration_def reusable_drift_def read_hit_count_def read_recurrence_count_def with_key_def Let_def
  by (intro stay_rules glue asking resolved; simp)+

lemma replay: "stays R (golden_replay pe e)"
  unfolding golden_replay_def Let_def
  by (intro stay_rules asking) simp

lemma check: "preserves R (PromotionScheduler.check ok r)"
  unfolding check_def by (intro rules)

lemmas quiet = glue corpus reads replay

lemmas parts = check quiet [THEN stays_preserves]

end

section \<open>The history grows\<close>

definition longer :: "plane \<Rightarrow> plane \<Rightarrow> bool" where
  "longer s t \<longleftrightarrow> prefix (pl_calls s) (pl_calls t)"

interpretation longer: plane_relation longer
  by unfold_locales (auto simp: longer_def)

lemma longer_port: "stays longer (calling_port c answer)"
  unfolding calling_port_def and_then_def read_def modify_def lift_def stays_def longer_def
  by (auto split: sum.split)

lemma longer_change: "preserves longer (changing_store pe c f)"
  unfolding changing_store_def
  by (intro longer.and_then stays_preserves [OF longer_port] preserves_modify) (simp add: longer_def)

lemma longer_store: "preserves longer (put_row pe e)" "preserves longer (reading_store pe g)"
  unfolding put_row_def reading_store_def
  by (intro longer_change longer.rules stays_preserves [OF longer_port])+

lemma longer_only_if: "preserves longer m \<Longrightarrow> preserves longer (only_if b m)"
  unfolding only_if_def by (intro longer.rules)

lemmas longer_parts = longer_change longer_store longer.parts stays_preserves [OF longer_port]

lemma replay_guard_longer: "preserves longer (replay_guard pe e)"
  unfolding replay_guard_def Let_def by (intro longer.rules longer_parts)

lemma settle_longer: "preserves longer (settle_recheck pe e r d)"
  unfolding settle_recheck_def Let_def by (intro longer.rules longer_parts)

lemma advance_longer: "preserves longer (advance_candidate pe e)"
  unfolding advance_candidate_def Let_def by (intro longer.rules longer_parts longer_only_if replay_guard_longer)

lemma recheck_longer: "preserves longer (recheck_validated pe e)"
  unfolding recheck_validated_def Let_def by (intro longer.rules longer_parts settle_longer)

lemma mark_longer: "preserves longer (mark_scanned pe e)"
  unfolding mark_scanned_def swallowing_def by (intro longer.rules longer_parts)

lemma guard_longer: "preserves longer (handler e) \<Longrightarrow> preserves longer (scan_guard pe handler e)"
  unfolding scan_guard_def by (intro longer.rules mark_longer)

lemma scan_longer: "(\<And>e. preserves longer (handler e)) \<Longrightarrow> preserves longer (scan_guard_all pe handler es)"
  by (induction es) (auto intro!: longer.rules guard_longer)

section \<open>What is known where a guard lets pass\<close>

lemma possible_port: "possible (calling_port c answer) a \<Longrightarrow> \<exists>h. answer (h @ [c]) = Inr a"
  by (auto simp: possible_def calling_port_def and_then_next read_def modify_def plain_runs)

lemma possible_check [simp]: "possible (check ok r) u \<longleftrightarrow> ok"
  by (cases ok) (simp_all add: check_def)

section \<open>A part of the history\<close>

text \<open>A relation of a run whose calls all lie after \<open>pre\<close> and within \<open>post\<close>.\<close>

definition inside :: "port_call list \<Rightarrow> port_call list \<Rightarrow> (plane \<Rightarrow> plane \<Rightarrow> bool) \<Rightarrow> plane \<Rightarrow> plane \<Rightarrow> bool" where
  "inside pre post R s t \<longleftrightarrow> longer s t \<and> (prefix pre (pl_calls s) \<and> prefix (pl_calls t) post \<longrightarrow> R s t)"

lemma inside_step:
  assumes "step_relation R"
  shows "step_relation (inside pre post R)"
proof
  show "inside pre post R s s" for s
    using step_relation.same [OF assms] by (simp add: inside_def longer_def)
  show "inside pre post R s u" if "inside pre post R s t" "inside pre post R t u" for s t u
    using that step_relation.sequel [OF assms] unfolding inside_def longer_def
    by (meson prefix_order.trans)
qed

lemma insideI: "preserves R m \<Longrightarrow> preserves longer m \<Longrightarrow> preserves (inside pre post R) m"
  by (simp add: preserves_def inside_def)

text \<open>The values with which a program may go on in a run of that part.\<close>

definition during :: "port_call list \<Rightarrow> port_call list \<Rightarrow> ('r, 'a) job \<Rightarrow> 'a \<Rightarrow> bool" where
  "during pre post m a \<longleftrightarrow> (\<exists>s s'. m s = (Next a, s') \<and> prefix pre (pl_calls s) \<and> prefix (pl_calls s') post)"

lemma during_possible: "during pre post m a \<Longrightarrow> possible m a"
  by (auto simp: during_def possible_def)

lemma during_and_then:
  assumes "during pre post (and_then m f) b" and "preserves longer m" and "\<And>a. preserves longer (f a)"
  obtains a where "during pre post m a" "during pre post (f a) b"
proof -
  obtain s t a u where run: "m s = (Next a, u)" "f a u = (Next b, t)" and w: "prefix pre (pl_calls s)" "prefix (pl_calls t) post"
    using assms(1) by (auto simp: during_def and_then_next)
  have "longer s u" "longer u t" using assms(2,3) run unfolding preserves_def by (metis snd_conv)+
  with w have "prefix pre (pl_calls u)" "prefix (pl_calls u) post" by (auto simp: longer_def)
  with run w show thesis by (intro that [of a]) (auto simp: during_def)
qed

lemma during_catching: "during pre post (catching m) r \<Longrightarrow> case r of Inl _ \<Rightarrow> True | Inr a \<Rightarrow> during pre post m a"
proof -
  assume "during pre post (catching m) r"
  then obtain s s' where run: "catching m s = (Next r, s')" and w: "prefix pre (pl_calls s)" "prefix (pl_calls s') post"
    unfolding during_def by blast
  obtain q t where m: "m s = (q, t)" by fastforce
  show ?thesis using run m w by (cases q) (auto simp: catching_def during_def, blast)
qed

lemma during_lift [simp]:
  "during pre post (and_then (lift x) f) b \<longleftrightarrow> (\<exists>a. x = Inr a \<and> during pre post (f a) b)"
  by (cases x) (simp_all add: during_def and_then_next plain_runs)

lemma during_pure [simp]:
  "during pre post (and_then m (\<lambda>a. pure (g a))) b \<longleftrightarrow> (\<exists>a. during pre post m a \<and> b = g a)"
  by (auto simp: during_def and_then_next plain_runs)

lemma during_wider: "during pre post m a \<Longrightarrow> prefix pre' pre \<Longrightarrow> prefix post post' \<Longrightarrow> during pre' post' m a"
  unfolding during_def by (meson prefix_order.trans)

text \<open>A call made in that part, after \<open>h\<close>.\<close>

definition asked :: "port_call list \<Rightarrow> port_call list \<Rightarrow> port_call \<Rightarrow> port_call list \<Rightarrow> bool" where
  "asked pre post c h \<longleftrightarrow> prefix pre h \<and> prefix (h @ [c]) post"

lemma during_port: "during pre post (calling_port c answer) a \<Longrightarrow> \<exists>h. asked pre post c h \<and> answer (h @ [c]) = Inr a"
  by (auto simp: during_def asked_def calling_port_def and_then_next read_def modify_def plain_runs)

text \<open>A guard whose answer a program goes on with: the rest may use that it was heard.\<close>

lemma and_then_during:
  assumes "step_relation R" and "preserves (inside pre post R) m" and "\<And>a. preserves longer (f a)"
    and "\<And>a. during pre post m a \<Longrightarrow> preserves (inside pre post R) (f a)"
  shows "preserves (inside pre post R) (and_then m f)"
  unfolding preserves_def
proof
  fix s
  obtain r u where run: "and_then m f s = (r, u)" by fastforce
  then show "inside pre post R s (snd (and_then m f s))"
  proof (cases rule: and_thenE)
    case (stop q)
    then show ?thesis using assms(2) run unfolding preserves_def by (metis snd_conv)
  next
    case (go a t)
    have st: "inside pre post R s t" using assms(2) go(1) unfolding preserves_def by (metis snd_conv)
    have tu: "longer t u" using assms(3) go(2) unfolding preserves_def by (metis snd_conv)
    have "R s u" if "prefix pre (pl_calls s)" "prefix (pl_calls u) post"
    proof -
      have m: "prefix pre (pl_calls t)" "prefix (pl_calls t) post"
        using that st tu unfolding inside_def longer_def by (meson prefix_order.trans)+
      then have "during pre post m a" using go(1) that(1) by (auto simp: during_def)
      from assms(4) [OF this] go(2) have "inside pre post R t u" unfolding preserves_def by (metis snd_conv)
      with st m that show ?thesis
        using step_relation.sequel [OF assms(1)] unfolding inside_def by blast
    qed
    moreover have "longer s u" using st tu unfolding inside_def longer_def by (meson prefix_order.trans)
    ultimately show ?thesis by (simp add: run inside_def)
  qed
qed

section \<open>What a guard heard\<close>

definition clock_read :: "port_call list \<Rightarrow> port_call list \<Rightarrow> promotion_env \<Rightarrow> string \<Rightarrow> bool" where
  "clock_read pre post pe now \<longleftrightarrow> (\<exists>h. asked pre post ReadClock h \<and> pe_clock pe (h @ [ReadClock]) = Inr now)"

lemma during_clock: "during pre post (clock_now pe) now \<Longrightarrow> clock_read pre post pe now"
  unfolding clock_now_def clock_read_def by (rule during_port)

definition deps_heard :: "port_call list \<Rightarrow> port_call list \<Rightarrow> promotion_env \<Rightarrow> candidate_envelope \<Rightarrow> bool" where
  "deps_heard pre post pe e \<longleftrightarrow> list_all (\<lambda>ref. \<exists>resolver h. pe_resolver pe = Some resolver \<and>
     asked pre post (AskResolved ref) h \<and> resolver (h @ [AskResolved ref]) = Inr True) (ce_depends_on e)"

lemma resolved_longer: "preserves longer (all_resolved resolver refs)"
  by (induction refs) (auto intro!: longer.rules longer_parts)

lemma during_all_resolved:
  "during pre post (all_resolved resolver refs :: ('r, bool) job) True \<Longrightarrow>
     list_all (\<lambda>ref. \<exists>h. asked pre post (AskResolved ref) h \<and> resolver (h @ [AskResolved ref]) = Inr True) refs"
proof (induction refs)
  case (Cons ref refs)
  from Cons.prems have d: "during pre post (and_then (calling_port (AskResolved ref) resolver)
      (\<lambda>b. if b then all_resolved resolver refs else pure False) :: ('r, bool) job) True" by simp
  obtain b where "during pre post (calling_port (AskResolved ref) resolver :: ('r, bool) job) b"
      "during pre post (if b then all_resolved resolver refs else pure False :: ('r, bool) job) True"
    by (rule during_and_then [OF d]) (intro longer.rules longer_parts resolved_longer)+
  with Cons.IH during_port [of pre post "AskResolved ref" resolver b] show ?case
    by (cases b) (auto dest: during_possible [of _ _ "pure False"])
qed simp

lemma during_deps: "during pre post (deps_resolved pe e) True \<Longrightarrow> deps_heard pre post pe e"
  by (auto simp: deps_resolved_def deps_heard_def list_all_iff dest!: during_all_resolved dest: during_possible
      split: option.splits if_splits)

text \<open>A replay that passed on what the probe answered, and one that did not.\<close>

definition replay_heard :: "port_call list \<Rightarrow> port_call list \<Rightarrow> promotion_env \<Rightarrow> candidate_envelope \<Rightarrow> bool" where
  "replay_heard pre post pe e \<longleftrightarrow> (\<exists>d g t sql expected h p. dict_only (getv (ce_payload e) ''generalization'') = Some d \<and>
     generalization_from_doc d = Inr g \<and> pick_template g = Some t \<and> replay_sql_of pe (ce_payload e) t = Inr (Some sql) \<and>
     gb_uses g \<noteq> [] \<and> expected_columns (ce_payload e) = Inr expected \<and>
     asked pre post (RunProbe sql (rg_columns (gb_result_grain g)) (gb_uses g)) h \<and>
     pe_probe pe (h @ [RunProbe sql (rg_columns (gb_result_grain g)) (gb_uses g)]) = Inr p \<and>
     vo_passed (verify_result (gb_result_grain g) (pr_row_count p) (pr_distinct_grain_count p) (pr_columns p) expected))"

definition replay_fails :: "port_call list \<Rightarrow> port_call list \<Rightarrow> promotion_env \<Rightarrow> candidate_envelope \<Rightarrow> bool" where
  "replay_fails pre post pe e \<longleftrightarrow>
     (\<exists>r. during pre post (golden_replay pe e :: (candidate_decision, replay_outcome) job) r \<and> \<not> ro_passed r)"

lemma during_replay:
  assumes "during pre post (golden_replay pe e :: ('r, replay_outcome) job) r" "ro_passed r"
  shows "replay_heard pre post pe e"
proof -
  have failed: "ro_passed r = False" if "during pre post (pure (not_replayed sql sampled reason) :: ('r, replay_outcome) job) r" for sql sampled reason
    using during_possible [OF that] by simp
  obtain d where d: "dict_only (getv (ce_payload e) ''generalization'') = Some d"
    using assms failed unfolding golden_replay_def by (cases "dict_only (getv (ce_payload e) ''generalization'')") auto
  let ?rest = "\<lambda>g. ((let template = (case pick_template g of None \<Rightarrow> [] | Some t \<Rightarrow> t); sampled = sort (referenced_slots template) in
           if template = [] then pure (not_replayed None [] ''no_template'')
           else and_then (lift (replay_sql_of pe (ce_payload e) template)) (\<lambda>bound. case bound of
               None \<Rightarrow> pure (not_replayed None sampled ''bind_failed'')
             | Some sql \<Rightarrow>
                 if gb_uses g = [] then pure (not_replayed (Some sql) sampled ''no_uses_scope'')
                 else and_then (lift (expected_columns (ce_payload e))) (\<lambda>expected.
                   and_then (catching (calling_port (RunProbe sql (rg_columns (gb_result_grain g)) (gb_uses g)) (pe_probe pe))) (\<lambda>probed.
                   pure (replay_verdict g sql sampled expected probed))))) :: ('r, replay_outcome) job)"
  obtain read where read: "read_generalization d = Inr read"
      "during pre post (case read of None \<Rightarrow> pure (not_replayed None [] ''malformed_generalization'') | Some g \<Rightarrow> ?rest g) r"
    using assms(1) [unfolded golden_replay_def d option.case during_lift] by (elim exE conjE) (rule that)
  obtain g where g: "read_generalization d = Inr (Some g)" and two: "during pre post (?rest g) r"
  proof (cases read)
    case None
    show thesis using failed [OF read(2) [unfolded None option.case]] assms(2) by simp
  next
    case (Some g)
    show thesis by (rule that [OF _ read(2) [unfolded Some option.case]]) (simp add: read(1) Some)
  qed
  obtain t where t: "pick_template g = Some t" "t \<noteq> []"
  proof -
    let ?t = "case pick_template g of None \<Rightarrow> [] | Some t \<Rightarrow> t"
    have "?t \<noteq> []"
    proof
      assume "?t = []"
      then have "during pre post (pure (not_replayed None [] ''no_template'') :: ('r, replay_outcome) job) r" using two by (simp only: Let_def if_True refl)
      with failed assms(2) show False by blast
    qed
    with that show thesis by (cases "pick_template g") simp_all
  qed
  let ?sampled = "sort (referenced_slots t)"
  obtain sql where sql: "replay_sql_of pe (ce_payload e) t = Inr (Some sql)" "gb_uses g \<noteq> []"
    and three: "during pre post (and_then (lift (expected_columns (ce_payload e))) (\<lambda>expected.
       and_then (catching (calling_port (RunProbe sql (rg_columns (gb_result_grain g)) (gb_uses g)) (pe_probe pe))) (\<lambda>probed.
       pure (replay_verdict g sql ?sampled expected probed))) :: ('r, replay_outcome) job) r"
  proof -
    obtain bound where b: "replay_sql_of pe (ce_payload e) t = Inr bound"
        "during pre post ((case bound of None \<Rightarrow> pure (not_replayed None ?sampled ''bind_failed'')
             | Some sql \<Rightarrow>
                 if gb_uses g = [] then pure (not_replayed (Some sql) ?sampled ''no_uses_scope'')
                 else and_then (lift (expected_columns (ce_payload e))) (\<lambda>expected.
                   and_then (catching (calling_port (RunProbe sql (rg_columns (gb_result_grain g)) (gb_uses g)) (pe_probe pe))) (\<lambda>probed.
                   pure (replay_verdict g sql ?sampled expected probed)))) :: ('r, replay_outcome) job) r"
      using two unfolding t(1) option.case Let_def if_not_P [OF t(2)] during_lift by (elim exE conjE) (rule that)
    obtain sql where s: "bound = Some sql" using b(2) assms(2) failed 
    proof (cases bound)
      case None
      show thesis using failed [OF b(2) [unfolded None option.case]] assms(2) by simp
    qed
    note u = b(2) [unfolded s option.case]
    have "gb_uses g \<noteq> []"
    proof
      assume "gb_uses g = []"
      then have "during pre post (pure (not_replayed (Some sql) ?sampled ''no_uses_scope'') :: ('r, replay_outcome) job) r" using u by (simp only: if_True refl)
      with failed assms(2) show False by blast
    qed
    with b(1) u s show thesis by (intro that) (simp_all only: if_False simp_thms)
  qed
  then obtain expected probed where x: "expected_columns (ce_payload e) = Inr expected"
      "during pre post (catching (calling_port (RunProbe sql (rg_columns (gb_result_grain g)) (gb_uses g)) (pe_probe pe)) ::
         ('r, probe_result result) job) probed"
      "r = replay_verdict g sql ?sampled expected probed"
    unfolding during_lift during_pure by (elim exE conjE) (rule that)
  obtain p where p: "probed = Inr p"
    using x(3) assms(2) by (cases probed) (simp_all add: replay_verdict_def)
  with during_catching [OF x(2)] obtain h where "asked pre post (RunProbe sql (rg_columns (gb_result_grain g)) (gb_uses g)) h"
      "pe_probe pe (h @ [RunProbe sql (rg_columns (gb_result_grain g)) (gb_uses g)]) = Inr p"
    using during_port by fastforce
  with d read_generalization_some [OF g] t(1) sql x(1,3) p assms(2) show ?thesis
    unfolding replay_heard_def by (fastforce simp: replay_verdict_def Let_def)
qed

text \<open>
  A stored clean verdict of a replay, no older than the shorter of the two windows at a time the clock
  gave in this part.
\<close>

definition verdict_in_window :: "port_call list \<Rightarrow> port_call list \<Rightarrow> promotion_env \<Rightarrow> drift_stamp \<Rightarrow> bool" where
  "verdict_in_window pre post pe d \<longleftrightarrow> dp_status d = ''clean'' \<and> GRAIN_INTEGRITY \<in> set (dp_probes d) \<and>
     (\<exists>now t stamp t0. clock_read pre post pe now \<and> pe_instant pe now = Some (Aware t) \<and>
        dp_last_drift_check_at d = PStr stamp \<and> pe_instant pe stamp = Some (Aware t0) \<and> 0 \<le> pe_round pe (t - t0) \<and>
        pe_round pe (t - t0) \<le> pp_replay_recheck_interval_seconds (pe_policy pe) \<and>
        pe_round pe (t - t0) \<le> pp_drift_freshness_seconds (pe_policy pe))"

lemma is_freshD:
  "is_fresh pe v (Aware n) w \<Longrightarrow> \<exists>stamp t0. v = PStr stamp \<and> pe_instant pe stamp = Some (Aware t0) \<and>
     0 \<le> pe_round pe (n - t0) \<and> pe_round pe (n - t0) \<le> w"
  by (auto simp: is_fresh_def split: pyval.splits option.splits moment.splits)

lemma reusable_verdictD: "reusable_replay_verdict pe d n w \<noteq> None \<Longrightarrow>
    GRAIN_INTEGRITY \<in> set (dp_probes d) \<and> is_fresh pe (dp_last_drift_check_at d) n w"
  by (auto simp: reusable_replay_verdict_def split: if_splits)

lemma parse_clockD: "parse_clock pe now = Some n \<Longrightarrow> \<exists>t. n = Aware t \<and> pe_instant pe now = Some (Aware t)"
  by (auto simp: parse_clock_def split: option.splits moment.splits)

lemma during_reusable:
  assumes "during pre post (reusable_drift pe e) (Some d)"
  shows "d = ce_drift e \<and> (dp_status d = ''clean'' \<longrightarrow> verdict_in_window pre post pe d)"
proof -
  let ?w = "min (pp_replay_recheck_interval_seconds (pe_policy pe)) (pp_drift_freshness_seconds (pe_policy pe))"
  obtain now n where now: "clock_read pre post pe now" "parse_clock pe now = Some n" and d: "d = ce_drift e"
    and v: "reusable_replay_verdict pe d n ?w \<noteq> None"
  proof -
    obtain now where n: "during pre post (clock_now pe :: ('a, string) job) now"
      and d: "Some d = (case parse_clock pe now of None \<Rightarrow> None
        | Some n \<Rightarrow> if reusable_replay_verdict pe (ce_drift e) n ?w = None then None else Some (ce_drift e))"
      using assms unfolding reusable_drift_def Let_def during_pure by blast
    obtain k where k: "parse_clock pe now = Some k" using d by (cases "parse_clock pe now") auto
    with d have "d = ce_drift e" "reusable_replay_verdict pe d k ?w \<noteq> None"
      by (cases "reusable_replay_verdict pe (ce_drift e) k ?w"; simp)+
    with during_clock [OF n] k show thesis by (intro that)
  qed
  from now(2) obtain t where t: "n = Aware t" "pe_instant pe now = Some (Aware t)" using parse_clockD by blast
  from reusable_verdictD [OF v] is_freshD [of pe "dp_last_drift_check_at d" t ?w] t(1) obtain stamp t0
    where "GRAIN_INTEGRITY \<in> set (dp_probes d)" "dp_last_drift_check_at d = PStr stamp"
      "pe_instant pe stamp = Some (Aware t0)" "0 \<le> pe_round pe (t - t0)" "pe_round pe (t - t0) \<le> ?w" by blast
  with now(1) t(2) d show ?thesis unfolding verdict_in_window_def by fastforce
qed

lemma during_replay_guard:
  assumes "during pre post (replay_guard pe e) d"
  shows "dp_status d = ''clean'' \<and> (replay_heard pre post pe e \<or> d = ce_drift e \<and> verdict_in_window pre post pe d)"
proof -
  obtain reused where r: "during pre post (reusable_drift pe e :: (candidate_decision, _) job) reused"
    and g: "during pre post (case reused of
       None \<Rightarrow> and_then (golden_replay pe e) (\<lambda>r. and_then (clock_now pe) (\<lambda>now.
         let drift = drift_from_replay r now in
         and_then (changing_store pe (StampDrift (ce_candidate_id e) drift) (stamp_drift (ce_candidate_id e) drift)) (\<lambda>_.
         and_then (check (ro_passed r) (hold (e\<lparr>ce_drift := drift\<rparr>) (''replay_failed:'' @ reason_text (ro_reason r)))) (\<lambda>_. pure drift))))
     | Some drift \<Rightarrow> and_then (check (dp_status drift = ''clean'') (hold e ''replay_failed:cached_suspect'')) (\<lambda>_. pure drift)) d"
    by (rule during_and_then [OF assms [unfolded replay_guard_def]])
      (use longer_parts in \<open>auto simp: Let_def intro!: longer.rules longer_parts\<close>)
  show ?thesis
  proof (cases reused)
    case None
    obtain o' where o': "during pre post (golden_replay pe e :: (candidate_decision, _) job) o'"
      and c: "during pre post (and_then (clock_now pe) (\<lambda>now.
         let drift = drift_from_replay o' now in
         and_then (changing_store pe (StampDrift (ce_candidate_id e) drift) (stamp_drift (ce_candidate_id e) drift)) (\<lambda>_.
         and_then (check (ro_passed o') (hold (e\<lparr>ce_drift := drift\<rparr>) (''replay_failed:'' @ reason_text (ro_reason o')))) (\<lambda>_. pure drift)))) d"
      by (rule during_and_then [OF g [unfolded None option.case]]) (auto simp: Let_def intro!: longer.rules longer_parts)
    from during_possible [OF c] have "ro_passed o'" "dp_status d = ''clean''"
      by (auto simp: Let_def drift_status_replay dest!: possible_and_then)
    with during_replay [OF o'] show ?thesis by blast
  next
    case (Some f)
    with during_possible [OF g] have "d = f" "dp_status d = ''clean''"
      by (auto dest!: possible_and_then)
    with during_reusable [of pre post pe e f] r Some show ?thesis by auto
  qed
qed

definition corroborated :: "port_call list \<Rightarrow> port_call list \<Rightarrow> promotion_env \<Rightarrow> candidate_envelope \<Rightarrow> bool" where
  "corroborated pre post pe e \<longleftrightarrow> (\<exists>c. during pre post (corroboration pe e :: (candidate_decision, rat) job) c \<and>
     of_int (pp_blueprint_hit_threshold (pe_policy pe)) \<le> c)"

end
