(* ===== verification/PromotionFacts.thy ===== *)
theory PromotionFacts
  imports PromotionCalls
begin

text \<open>
  What the methods of the promotion plane keep and need: the frame of a row (a method that works on
  one candidate leaves every other row alone, and keeps its own row within a predicate, whether it
  returns or raises), and the triples of the guards (what is known where a method goes on).
\<close>

section \<open>The frame of one row\<close>

definition same_store :: "plane \<Rightarrow> plane \<Rightarrow> bool" where
  "same_store s t \<longleftrightarrow> pl_store t = pl_store s"

interpretation same_store: plane_relation same_store
  by unfold_locales (auto simp: same_store_def)

lemma same_store_port: "stays same_store (calling_port c answer)"
  unfolding calling_port_def
  by (intro same_store.stay_rules stays_modify) (simp add: same_store_def)

lemmas same_store_rules = same_store_port same_store.quiet

lemmas runs_on = same_store_rules [THEN stays_no_return]

lemma runs_same: "stays same_store m \<Longrightarrow> m s = (r, t) \<Longrightarrow> pl_store t = pl_store s"
  by (metis stays_def same_store_def snd_conv)

text \<open>The row of one candidate satisfies \<open>P\<close>; every other row is as it was.\<close>

definition framed :: "(candidate_envelope \<Rightarrow> bool) \<Rightarrow> string \<Rightarrow> candidate_store \<Rightarrow> plane \<Rightarrow> bool" where
  "framed P c st s \<longleftrightarrow> keyed (pl_store s) \<and> (\<exists>e. get_candidate c (pl_store s) = Some e \<and> P e) \<and>
     (\<forall>c'. c' \<noteq> c \<longrightarrow> get_candidate c' (pl_store s) = get_candidate c' st)"

definition keeps_row :: "(candidate_envelope \<Rightarrow> bool) \<Rightarrow> string \<Rightarrow> candidate_store \<Rightarrow> plane \<Rightarrow> plane \<Rightarrow> bool" where
  "keeps_row P c st s t \<longleftrightarrow> (framed P c st s \<longrightarrow> framed P c st t)"

interpretation keeps_row: step_relation "keeps_row P c st" for P c st
  by unfold_locales (auto simp: keeps_row_def)

lemma keeps_row_same: "preserves same_store m \<Longrightarrow> preserves (keeps_row P c st) m"
  by (erule preserves_mono) (simp add: same_store_def keeps_row_def framed_def)

lemma keeps_row_stays: "stays same_store m \<Longrightarrow> preserves (keeps_row P c st) m"
  by (rule keeps_row_same [OF stays_preserves])

lemma keeps_row_change:
  assumes "\<And>s. framed P c st s \<Longrightarrow> framed P c st (s\<lparr>pl_store := f (pl_store s)\<rparr>)"
  shows "preserves (keeps_row P c st) (changing_store pe call f)"
  unfolding changing_store_def
  by (intro keeps_row.and_then keeps_row_stays [OF same_store_port] preserves_modify) (simp add: keeps_row_def assms)

lemma keeps_row_put: "ce_candidate_id e = c \<Longrightarrow> P e \<Longrightarrow> preserves (keeps_row P c st) (put_row pe e)"
  unfolding put_row_def
  by (rule keeps_row_change) (auto simp: framed_def memory.get_put keyed_writes)

text \<open>A predicate that the two narrow writes keep.\<close>

definition narrow :: "(candidate_envelope \<Rightarrow> bool) \<Rightarrow> bool" where
  "narrow P \<longleftrightarrow> (\<forall>e d ts. P e \<longrightarrow> P (e\<lparr>ce_drift := d\<rparr>) \<and> P (e\<lparr>ce_last_scanned_at := ts\<rparr>))"

lemma keeps_row_narrow:
  assumes "narrow P"
  shows "preserves (keeps_row P c st) (changing_store pe call (stamp_drift c d))"
    and "preserves (keeps_row P c st) (changing_store pe call (touch_scanned c ts))"
  by (rule keeps_row_change, use assms in \<open>auto simp: framed_def memory.get_stamp memory.get_touch keyed_writes narrow_def\<close>)+

lemma keeps_row_mark: "narrow P \<Longrightarrow> c = ce_candidate_id e \<Longrightarrow> preserves (keeps_row P c st) (mark_scanned pe e)"
  unfolding mark_scanned_def swallowing_def
  by (intro keeps_row.rules keeps_row_stays [OF same_store.glue(1)]) (simp add: keeps_row_narrow)

lemma keeps_row_guard:
  assumes "narrow P" "c = ce_candidate_id e" "preserves (keeps_row P c st) (handler e)"
  shows "preserves (keeps_row P c st) (scan_guard pe handler e)"
  unfolding scan_guard_def by (intro keeps_row.rules keeps_row_mark assms)

section \<open>What is known where a guard lets pass\<close>

definition deps_known :: "promotion_env \<Rightarrow> candidate_envelope \<Rightarrow> bool" where
  "deps_known pe e \<longleftrightarrow> list_all (\<lambda>ref. \<exists>resolver h. pe_resolver pe = Some resolver \<and> resolver (h @ [AskResolved ref]) = Inr True) (ce_depends_on e)"

lemma possible_all_resolved:
  "possible (all_resolved resolver refs) True \<Longrightarrow> list_all (\<lambda>ref. \<exists>h. resolver (h @ [AskResolved ref]) = Inr True) refs"
  by (induction refs) (auto dest!: possible_and_then possible_port split: if_splits)

lemma possible_deps: "possible (deps_resolved pe e) True \<Longrightarrow> deps_known pe e"
  by (auto simp: deps_resolved_def deps_known_def dest!: possible_all_resolved split: option.splits if_splits)

lemma possible_replay: "possible (golden_replay pe e) r \<Longrightarrow> ro_passed r \<Longrightarrow> replay_passes pe e"
  unfolding golden_replay_def Let_def
  by (auto simp: replay_verdict_def Let_def dest!: possible_and_then possible_catching read_generalization_some split: option.splits if_splits sum.splits)
    (force dest!: possible_port simp: replay_passes_def)

definition static_ok :: "candidate_envelope \<Rightarrow> bool" where
  "static_ok e \<longleftrightarrow> (\<exists>g. generalization_of e = Inr (Some g) \<and> sv_outcome (gb_static_validation g) = ''ok'')"

section \<open>The handlers of the sweep\<close>

text \<open>What a sweep may do to a row: nothing but its status, its verdicts and its cursor.\<close>

definition same_content :: "candidate_envelope \<Rightarrow> candidate_envelope \<Rightarrow> bool" where
  "same_content e e' \<longleftrightarrow> ce_candidate_id e' = ce_candidate_id e \<and> ce_type e' = ce_type e \<and> ce_payload e' = ce_payload e \<and>
     ce_entity_scan e' = ce_entity_scan e \<and> ce_verified e' = ce_verified e \<and> ce_depends_on e' = ce_depends_on e"

definition moved :: "string list \<Rightarrow> candidate_envelope \<Rightarrow> candidate_envelope \<Rightarrow> bool" where
  "moved statuses e e' \<longleftrightarrow> same_content e e' \<and> ce_status e' \<in> set statuses"

definition routable :: "port_call list \<Rightarrow> port_call list \<Rightarrow> promotion_env \<Rightarrow> candidate_envelope \<Rightarrow> bool" where
  "routable pre post pe e \<longleftrightarrow> ce_type e = BLUEPRINT_TYPE \<and> entity_scan_is_clean e = Inr True \<and> static_ok e \<and>
     deps_heard pre post pe e \<and> (replay_heard pre post pe e \<or> verdict_in_window pre post pe (ce_drift e)) \<and>
     corroborated pre post pe e"

definition advanced :: "port_call list \<Rightarrow> port_call list \<Rightarrow> promotion_env \<Rightarrow> candidate_envelope \<Rightarrow> candidate_envelope \<Rightarrow> bool" where
  "advanced pre post pe e e' \<longleftrightarrow> moved [CANDIDATE, IN_REVIEW] e e' \<and> (ce_status e' = IN_REVIEW \<longrightarrow> routable pre post pe e)"

definition rechecked :: "port_call list \<Rightarrow> port_call list \<Rightarrow> promotion_env \<Rightarrow> candidate_envelope \<Rightarrow> candidate_envelope \<Rightarrow> bool" where
  "rechecked pre post pe e e' \<longleftrightarrow> moved [VALIDATED, CANDIDATE] e e' \<and> (ce_status e' = CANDIDATE \<longrightarrow> replay_fails pre post pe e)"

interpretation inside: step_relation "inside pre post (keeps_row P c st)" for pre post P c st
  by (rule inside_step) unfold_locales

lemma narrow_handlers: "narrow (advanced pre post pe e)" "narrow (rechecked pre post pe e)"
  by (auto simp: narrow_def advanced_def rechecked_def moved_def same_content_def)

lemma with_key_drift [simp]: "with_key (e\<lparr>ce_drift := d\<rparr>) f = with_key e f"
  by (simp add: with_key_def canonical_key_of_def)

lemma corroboration_drift [simp]: "corroboration pe (e\<lparr>ce_drift := d\<rparr>) = corroboration pe e"
  unfolding corroboration_def read_hit_count_def read_recurrence_count_def with_key_drift ..

lemmas keeps_row_parts = keeps_row_same [OF same_store.check] same_store_rules [THEN keeps_row_stays]

lemma keeps_row_only_if: "preserves (keeps_row P c st) m \<Longrightarrow> preserves (keeps_row P c st) (only_if b m)"
  unfolding only_if_def by (intro keeps_row.rules)

lemma replay_guard_keeps_row: "narrow P \<Longrightarrow> preserves (keeps_row P (ce_candidate_id e) st) (replay_guard pe e)"
  unfolding replay_guard_def Let_def by (intro keeps_row.rules keeps_row_parts keeps_row_narrow)

lemma advanced_route: "routable pre post pe e \<Longrightarrow> advanced pre post pe e (routed_candidate (e\<lparr>ce_drift := d\<rparr>) b)"
  by (simp add: advanced_def moved_def same_content_def routed_candidate_def)

lemma routed_id [simp]: "ce_candidate_id (routed_candidate e b) = ce_candidate_id e"
  by (simp add: routed_candidate_def)

lemma during_check: "during pre post (check ok a) u \<Longrightarrow> ok"
  by (auto dest: during_possible)

lemma guards_routable:
  assumes "during pre post (check (ce_type e = BLUEPRINT_TYPE) a) u" "during pre post (lift (entity_scan_is_clean e)) clean"
    and "during pre post (check clean b) v" "during pre post (lift (generalization_of e)) gen"
    and "during pre post (check (case gen of None \<Rightarrow> False | Some g \<Rightarrow> sv_outcome (gb_static_validation g) = ''ok'') c) w"
    and "during pre post (deps_resolved pe e :: (candidate_decision, bool) job) resolved" "during pre post (check resolved d) x"
    and "during pre post (replay_guard pe e) drift"
    and "during pre post (corroboration pe (e\<lparr>ce_drift := drift\<rparr>) :: (candidate_decision, rat) job) n"
    and "during pre post (check (of_int (pp_blueprint_hit_threshold (pe_policy pe)) \<le> n) f) y"
  shows "routable pre post pe e"
proof -
  have ok: "ce_type e = BLUEPRINT_TYPE" "clean" "resolved" "case gen of None \<Rightarrow> False | Some g \<Rightarrow> sv_outcome (gb_static_validation g) = ''ok''"
      "of_int (pp_blueprint_hit_threshold (pe_policy pe)) \<le> n"
    using assms by (blast dest: during_check)+
  moreover have "entity_scan_is_clean e = Inr clean" "generalization_of e = Inr gen"
    using assms(2,4) by (auto dest: during_possible)
  moreover have "deps_heard pre post pe e" using assms(6) ok(3) by (simp add: during_deps)
  moreover have "replay_heard pre post pe e \<or> verdict_in_window pre post pe (ce_drift e)"
    using during_replay_guard [OF assms(8)] by auto
  moreover have "corroborated pre post pe e" using assms(9) ok(5) unfolding corroborated_def by auto
  ultimately show ?thesis by (auto simp: routable_def static_ok_def split: option.splits)
qed

lemma inside_put: "ce_candidate_id e = c \<Longrightarrow> P e \<Longrightarrow> preserves (inside pre post (keeps_row P c st)) (put_row pe e)"
  by (intro insideI keeps_row_put longer_parts)

lemma inside_replay_guard: "narrow P \<Longrightarrow> preserves (inside pre post (keeps_row P (ce_candidate_id e) st)) (replay_guard pe e)"
  by (intro insideI replay_guard_keeps_row replay_guard_longer)

lemma inside_only_if:
  "preserves (keeps_row P c st) m \<Longrightarrow> preserves longer m \<Longrightarrow> preserves (inside pre post (keeps_row P c st)) (only_if b m)"
  by (intro insideI keeps_row_only_if longer_only_if)

lemma advance_keeps_row:
  assumes "ce_status e = CANDIDATE"
  shows "preserves (inside pre post (keeps_row (advanced pre post pe e) (ce_candidate_id e) st)) (advance_candidate pe e)"
  unfolding advance_candidate_def Let_def
  by (intro and_then_during [OF keeps_row.step_relation_axioms] inside.plain inside_only_if inside_replay_guard inside_put narrow_handlers
      advanced_route longer.rules longer_parts longer_only_if replay_guard_longer insideI keeps_row_parts longer.quiet)
    (simp, rule guards_routable)


lemma settle_keeps_row:
  assumes "ce_status e = VALIDATED" "\<not> ro_passed r \<Longrightarrow> replay_fails pre post pe e"
  shows "preserves (keeps_row (rechecked pre post pe e) (ce_candidate_id e) st) (settle_recheck pe e r d)"
proof (cases "ro_passed r")
  case True
  then show ?thesis unfolding settle_recheck_def Let_def
    by simp (intro keeps_row.rules keeps_row_parts keeps_row_put,
      use assms in \<open>simp_all add: rechecked_def moved_def same_content_def\<close>)
next
  case False
  then show ?thesis unfolding settle_recheck_def Let_def
    by simp (intro keeps_row.rules keeps_row_parts keeps_row_put,
      use assms in \<open>simp_all add: rechecked_def moved_def same_content_def\<close>)
qed

lemma settle_inside:
  "ce_status e = VALIDATED \<Longrightarrow> (\<not> ro_passed r \<Longrightarrow> replay_fails pre post pe e) \<Longrightarrow>
     preserves (inside pre post (keeps_row (rechecked pre post pe e) (ce_candidate_id e) st)) (settle_recheck pe e r d)"
  by (intro insideI settle_keeps_row settle_longer)

lemma recheck_keeps_row:
  assumes "ce_status e = VALIDATED"
  shows "preserves (inside pre post (keeps_row (rechecked pre post pe e) (ce_candidate_id e) st)) (recheck_validated pe e)"
  unfolding recheck_validated_def Let_def
  by (intro and_then_during [OF keeps_row.step_relation_axioms] inside.plain inside.cases_known inside.case_prod settle_inside assms
      longer.rules longer_parts settle_longer insideI keeps_row_parts longer.quiet)
    (auto simp: replay_fails_def)

section \<open>A scan\<close>

text \<open>Whatever a handler does, its row is examined and the scan goes on with the next.\<close>

definition goes_on :: "('s, 'r, 'a) prog \<Rightarrow> bool" where
  "goes_on m \<longleftrightarrow> (\<forall>s. \<exists>a s'. m s = (Next a, s'))"

lemma goes_on_and_then:
  assumes "goes_on m" "\<And>a. goes_on (f a)"
  shows "goes_on (and_then m f)"
  unfolding goes_on_def
proof
  fix s
  obtain a t where m: "m s = (Next a, t)" using assms(1) unfolding goes_on_def by blast
  obtain b u where "f a t = (Next b, u)" using assms(2) unfolding goes_on_def by blast
  then have "and_then m f s = (Next b, u)" using m by (simp add: and_then_def)
  then show "\<exists>b u. and_then m f s = (Next b, u)" by blast
qed

lemma goes_on_catching:
  assumes "\<And>s r s'. m s \<noteq> (Return r, s')"
  shows "goes_on (catching m)"
  unfolding goes_on_def
proof
  fix s
  show "\<exists>a s'. catching m s = (Next a, s')"
  proof (cases "m s")
    case (Pair q t)
    then show ?thesis using assms [of s] by (cases q) (auto simp: catching_def)
  qed
qed

lemma goes_on_pure: "goes_on (pure a)"
  by (simp add: goes_on_def pure_def)

lemma calling_no_return: "calling m s \<noteq> (Return r, s')"
  by (simp add: calling_def split: prod.split flow.split)

lemma changing_no_return: "changing_store pe c f s \<noteq> (Return r, s')"
  by (auto simp: changing_store_def and_then_def modify_def runs_on split: prod.splits flow.splits)

lemma goes_on_mark: "goes_on (mark_scanned pe e)"
proof -
  have "and_then (clock_now pe) (\<lambda>now. changing_store pe (TouchScanned c now) (touch_scanned c now)) s \<noteq> (Return r, s')" for c s r s'
    by (auto simp: and_then_def clock_now_def runs_on changing_no_return split: prod.splits flow.splits)
  then show ?thesis
    unfolding mark_scanned_def swallowing_def by (intro goes_on_and_then goes_on_catching goes_on_pure)
qed

lemma goes_on_guard: "goes_on (scan_guard pe handler e)"
  unfolding scan_guard_def by (intro goes_on_and_then goes_on_catching goes_on_mark goes_on_pure calling_no_return)

lemma preserves_run: "preserves R m \<Longrightarrow> m s = (r, s') \<Longrightarrow> R s s'"
  by (metis preserves_def snd_conv)

lemma scan_goes_on: "goes_on (scan_guard_all pe handler es)"
  by (induction es) (auto intro!: goes_on_pure goes_on_and_then goes_on_guard)

text \<open>The clock and the store always answer.\<close>

definition works :: "promotion_env \<Rightarrow> bool" where
  "works pe \<longleftrightarrow> (\<forall>h. \<exists>now. pe_clock pe h = Inr now) \<and> (\<forall>h. pe_store pe h = Inr ())"

text \<open>A row that was examined carries a time the clock gave in that part, unless the clock or the store failed.\<close>

definition examined :: "port_call list \<Rightarrow> port_call list \<Rightarrow> promotion_env \<Rightarrow> candidate_envelope \<Rightarrow> bool" where
  "examined pre post pe e \<longleftrightarrow> (works pe \<longrightarrow> (\<exists>now. ce_last_scanned_at e = Some now \<and> clock_read pre post pe now))"

lemma port_goes_on: "answer (pl_calls s @ [c]) = Inr a \<Longrightarrow> calling_port c answer s = (Next a, s\<lparr>pl_calls := pl_calls s @ [c]\<rparr>)"
  by (simp add: calling_port_def and_then_def read_def modify_def lift_def)

lemma mark_stamps:
  assumes "framed P (ce_candidate_id e) st t" "narrow P" "mark_scanned pe e t = (r, u)"
    and "prefix pre (pl_calls t)" "prefix (pl_calls u) post"
  shows "framed (\<lambda>e'. P e' \<and> examined pre post pe e') (ce_candidate_id e) st u"
proof (cases "works pe")
  case False
  have "keeps_row P (ce_candidate_id e) st t u"
    by (rule preserves_run [OF keeps_row_mark assms(3)]) (simp_all add: assms(2))
  with assms(1) False show ?thesis by (simp add: keeps_row_def framed_def examined_def)
next
  case True
  let ?h = "pl_calls t" let ?c = "ce_candidate_id e"
  obtain now where now: "pe_clock pe (?h @ [ReadClock]) = Inr now" using True unfolding works_def by blast
  have u: "u = t\<lparr>pl_calls := (?h @ [ReadClock]) @ [TouchScanned ?c now], pl_store := touch_scanned ?c now (pl_store t)\<rparr>"
    using assms(3) True now
    by (simp add: mark_scanned_def swallowing_def clock_now_def changing_store_def and_then_def catching_def port_goes_on
        works_def modify_def pure_def)
  have "prefix (?h @ [ReadClock]) (pl_calls u)" by (simp add: u)
  then have "prefix (?h @ [ReadClock]) post" using assms(5) by (rule prefix_order.trans)
  then have "clock_read pre post pe now" using now assms(4) by (auto simp: clock_read_def asked_def)
  with assms(1,2) show ?thesis
    by (auto simp: u framed_def examined_def memory.get_touch keyed_writes narrow_def)
qed

lemma guard_examines:
  assumes handler: "preserves (inside pre post (keeps_row P (ce_candidate_id e) st)) (handler e)" "narrow P"
    and at: "framed P (ce_candidate_id e) st s" and run: "scan_guard pe handler e s = (r, u)"
    and part: "prefix pre (pl_calls s)" "prefix (pl_calls u) post"
  shows "framed (\<lambda>e'. P e' \<and> examined pre post pe e') (ce_candidate_id e) st u"
proof -
  have one: "preserves (inside pre post (keeps_row P (ce_candidate_id e) st)) (catching (calling (handler e)) :: (promotion_sweep, candidate_decision result) job)"
    by (intro inside.catching inside.calling handler(1))
  obtain q t where h: "(catching (calling (handler e)) :: (promotion_sweep, candidate_decision result) job) s = (Next q, t)"
    using goes_on_catching [of "calling (handler e)", OF calling_no_return] unfolding goes_on_def by blast
  obtain v where m: "mark_scanned pe e t = (Next (), v)"
    using goes_on_mark [of pe e] unfolding goes_on_def by fastforce
  have u: "u = v" using run h m by (simp add: scan_guard_def and_then_def pure_def)
  have "longer t u" unfolding u by (rule preserves_run [OF mark_longer m])
  moreover have st: "inside pre post (keeps_row P (ce_candidate_id e) st) s t" by (rule preserves_run [OF one h])
  ultimately have t: "prefix pre (pl_calls t)" "prefix (pl_calls t) post"
    using part unfolding inside_def longer_def by (meson prefix_order.trans)+
  with st part(1) at have "framed P (ce_candidate_id e) st t" by (simp add: inside_def keeps_row_def)
  from mark_stamps [OF this handler(2) m t(1)] part(2) show ?thesis by (simp add: u)
qed

lemma scanned_rows:
  assumes handler: "\<And>e st. P e \<Longrightarrow> preserves (inside pre post (keeps_row (Q e) (ce_candidate_id e) st)) (handler e)"
      "\<And>e. preserves longer (handler e)" "\<And>e. narrow (Q e)" "\<And>e. P e \<Longrightarrow> Q e e"
    and "keyed (pl_store s)" "distinct (map ce_candidate_id es)"
    and "list_all (\<lambda>e. get_candidate (ce_candidate_id e) (pl_store s) = Some e \<and> P e) es"
    and "scan_guard_all pe handler es s = (r, s')" "prefix pre (pl_calls s)" "prefix (pl_calls s') post"
  shows "keyed (pl_store s') \<and>
    (\<forall>c. c \<notin> ce_candidate_id ` set es \<longrightarrow> get_candidate c (pl_store s') = get_candidate c (pl_store s)) \<and>
    list_all (\<lambda>e. \<exists>e'. get_candidate (ce_candidate_id e) (pl_store s') = Some e' \<and> Q e e' \<and> examined pre post pe e') es"
  using assms(5-)
proof (induction es arbitrary: s r)
  case Nil
  then show ?case by (simp add: pure_def)
next
  case (Cons e es)
  let ?c = "ce_candidate_id e"
  obtain d s1 where run: "scan_guard pe handler e s = (Next d, s1)"
    using goes_on_guard [of pe handler e] unfolding goes_on_def by blast
  obtain ds s2 where rest_run: "scan_guard_all pe handler es s1 = (Next ds, s2)"
    using scan_goes_on [of pe handler es] unfolding goes_on_def by blast
  have s': "s2 = s'" using Cons.prems(4) run rest_run by (simp add: and_then_def pure_def)
  have grows: "longer s s1" "longer s1 s'"
    using preserves_run [OF guard_longer run] preserves_run [OF scan_longer rest_run] handler(2) s' by blast+
  with Cons.prems(5,6) have part: "prefix pre (pl_calls s1)" "prefix (pl_calls s1) post"
    unfolding longer_def by (meson prefix_order.trans)+
  have "framed (Q e) ?c (pl_store s) s" using Cons.prems handler(4) by (simp add: framed_def)
  from guard_examines [OF handler(1) handler(3) this run Cons.prems(5) part(2)] Cons.prems(3)
  have f: "framed (\<lambda>e'. Q e e' \<and> examined pre post pe e') ?c (pl_store s) s1" by simp
  have rest: "list_all (\<lambda>e. get_candidate (ce_candidate_id e) (pl_store s1) = Some e \<and> P e) es"
    unfolding list_all_iff
  proof
    fix x assume x: "x \<in> set es"
    then have "ce_candidate_id x \<noteq> ?c" using Cons.prems(2) by (auto simp: image_iff)
    then show "get_candidate (ce_candidate_id x) (pl_store s1) = Some x \<and> P x"
      using f Cons.prems(3) x by (simp add: framed_def list_all_iff)
  qed
  have ih: "keyed (pl_store s')"
      "\<forall>c. c \<notin> ce_candidate_id ` set es \<longrightarrow> get_candidate c (pl_store s') = get_candidate c (pl_store s1)"
      "list_all (\<lambda>e. \<exists>e'. get_candidate (ce_candidate_id e) (pl_store s') = Some e' \<and> Q e e' \<and> examined pre post pe e') es"
    using Cons.IH [OF _ _ rest rest_run [unfolded s'] part(1) Cons.prems(6)] Cons.prems(2) f by (simp_all add: framed_def)
  have "?c \<notin> ce_candidate_id ` set es" using Cons.prems(2) by auto
  then have "\<exists>e'. get_candidate ?c (pl_store s') = Some e' \<and> Q e e' \<and> examined pre post pe e'"
    using f ih(2) by (auto simp: framed_def)
  then show ?case using ih f by (auto simp: framed_def)
qed

text \<open>Both scans read the store before any handler runs.\<close>

lemma scan_rows_run: "scan_rows pe status s = (Next es, s') \<Longrightarrow>
    es = list_by_status status (pp_scan_limit (pe_policy pe)) False ByScanned (pl_store s) \<and> pl_store s' = pl_store s"
  by (auto simp: scan_rows_def reading_store_def calling_port_def and_then_def read_def modify_def lift_def split: sum.splits)

lemma scan_rows_longer: "preserves longer (scan_rows pe status)"
  unfolding scan_rows_def by (rule longer_store)

lemma scan_rows_stop:
  assumes run: "scan_rows pe status s = (q, s')" and stop: "\<And>a. q \<noteq> Next a"
  shows "\<not> works pe"
proof
  assume "works pe"
  then have "pe_store pe (pl_calls s @ [ReadStore]) = Inr ()" by (simp add: works_def)
  note go = port_goes_on [where answer = "pe_store pe", OF this]
  from run obtain es where "q = Next es" by (auto simp: scan_rows_def reading_store_def and_then_def read_def go)
  then show False using stop by blast
qed

lemma scan_rows_same: "stays same_store (scan_rows pe status)"
  unfolding scan_rows_def reading_store_def by (intro same_store.stay_rules same_store_port)

text \<open>What a row may become in one sweep.\<close>

inductive swept :: "port_call list \<Rightarrow> port_call list \<Rightarrow> promotion_env \<Rightarrow> candidate_envelope \<Rightarrow> candidate_envelope \<Rightarrow> bool"
  for pre post pe where
  kept: "same_content e e' \<Longrightarrow> ce_status e' = ce_status e \<Longrightarrow> swept pre post pe e e'"
| routed: "same_content e e' \<Longrightarrow> ce_status e = CANDIDATE \<Longrightarrow> ce_status e' = IN_REVIEW \<Longrightarrow> routable pre post pe e \<Longrightarrow>
    swept pre post pe e e'"
| demoted: "same_content e e' \<Longrightarrow> ce_status e = VALIDATED \<Longrightarrow> ce_status e' = CANDIDATE \<Longrightarrow> replay_fails pre post pe e \<Longrightarrow>
    swept pre post pe e e'"

inductive_simps swept_iff: "swept pre post pe e e'"

inductive_cases sweptE: "swept pre post pe e e'"

definition rows_swept :: "port_call list \<Rightarrow> port_call list \<Rightarrow> promotion_env \<Rightarrow> candidate_store \<Rightarrow> candidate_store \<Rightarrow> bool" where
  "rows_swept pre post pe st st' \<longleftrightarrow> (\<forall>c. case get_candidate c st of None \<Rightarrow> get_candidate c st' = None
     | Some e \<Rightarrow> (case get_candidate c st' of None \<Rightarrow> False | Some e' \<Rightarrow> swept pre post pe e e'))"

lemma swept_same [simp]: "swept pre post pe e e"
  by (rule kept) (simp_all add: same_content_def)

lemma swept_content: "swept pre post pe e e' \<Longrightarrow> same_content e e'"
  by (erule sweptE)

lemma swept_advanced: "ce_status e = CANDIDATE \<Longrightarrow> advanced pre post pe e e' \<Longrightarrow> swept pre post pe e e'"
  by (auto simp: advanced_def moved_def intro: kept routed)

lemma swept_rechecked: "ce_status e = VALIDATED \<Longrightarrow> rechecked pre post pe e e' \<Longrightarrow> swept pre post pe e e'"
  by (auto simp: rechecked_def moved_def intro: kept demoted)

lemma rows_swept_same [simp]: "rows_swept pre post pe st st"
  by (simp add: rows_swept_def split: option.split)

text \<open>The two windows of a sweep: their rows were examined, the others are as they were.\<close>

definition window_of :: "promotion_env \<Rightarrow> string \<Rightarrow> candidate_store \<Rightarrow> candidate_envelope list" where
  "window_of pe status st = list_by_status status (pp_scan_limit (pe_policy pe)) False ByScanned st"

definition scanned :: "port_call list \<Rightarrow> port_call list \<Rightarrow> promotion_env \<Rightarrow> candidate_store \<Rightarrow> candidate_store \<Rightarrow> bool" where
  "scanned pre post pe st st' \<longleftrightarrow> keyed st' \<and>
     (\<forall>c. c \<notin> ce_candidate_id ` (set (window_of pe CANDIDATE st) \<union> set (window_of pe VALIDATED st)) \<longrightarrow>
        get_candidate c st' = get_candidate c st) \<and>
     (\<forall>e \<in> set (window_of pe CANDIDATE st). \<exists>e'. get_candidate (ce_candidate_id e) st' = Some e' \<and>
        advanced pre post pe e e' \<and> examined pre post pe e') \<and>
     (\<forall>e \<in> set (window_of pe VALIDATED st). \<exists>e'. get_candidate (ce_candidate_id e) st' = Some e' \<and>
        rechecked pre post pe e e' \<and> examined pre post pe e')"

lemma windows:
  assumes "keyed st"
  shows "e \<in> set (window_of pe status st) \<Longrightarrow> get_candidate (ce_candidate_id e) st = Some e \<and> ce_status e = status"
    and "distinct (map ce_candidate_id (window_of pe status st))"
  unfolding window_of_def using listed [OF assms] distinct_listed [OF assms] by blast+

lemma windows_apart:
  assumes "keyed st" "e \<in> set (window_of pe VALIDATED st)"
  shows "ce_candidate_id e \<notin> ce_candidate_id ` set (window_of pe CANDIDATE st)"
  using windows(1) [OF assms] windows(1) [OF assms(1), of _ pe CANDIDATE] by (force simp: image_iff)

lemma scanned_swept:
  assumes "keyed st" "scanned pre post pe st st'"
  shows "rows_swept pre post pe st st'"
  unfolding rows_swept_def
proof
  fix k
  consider e where "e \<in> set (window_of pe CANDIDATE st)" "k = ce_candidate_id e"
    | e where "e \<in> set (window_of pe VALIDATED st)" "k = ce_candidate_id e"
    | "k \<notin> ce_candidate_id ` (set (window_of pe CANDIDATE st) \<union> set (window_of pe VALIDATED st))" by blast
  then show "case get_candidate k st of None \<Rightarrow> get_candidate k st' = None
      | Some e \<Rightarrow> (case get_candidate k st' of None \<Rightarrow> False | Some e' \<Rightarrow> swept pre post pe e e')"
  proof cases
    case (1 e)
    with assms(2) obtain e' where "get_candidate k st' = Some e'" "advanced pre post pe e e'" by (auto simp: scanned_def)
    with windows(1) [OF assms(1) 1(1)] 1 show ?thesis by (simp add: swept_advanced)
  next
    case (2 e)
    with assms(2) obtain e' where "get_candidate k st' = Some e'" "rechecked pre post pe e e'" by (auto simp: scanned_def)
    with windows(1) [OF assms(1) 2(1)] 2 show ?thesis by (simp add: swept_rechecked)
  next
    case 3
    with assms(2) show ?thesis by (simp add: scanned_def split: option.split)
  qed
qed

lemma sweep_scans:
  assumes keyed: "keyed st" and a: "pl_store s = st"
    and run: "and_then (scan_guard_all pe (advance_candidate pe) (window_of pe CANDIDATE st)) (\<lambda>ds.
      and_then (scan_guard_all pe (recheck_validated pe) (window_of pe VALIDATED st))
      (\<lambda>ds'. pure \<lparr>sw_decisions = ds @ ds', sw_disabled = False\<rparr>)) s = (r, s')"
    and part: "prefix pre (pl_calls s)" "prefix (pl_calls s') post"
  shows "scanned pre post pe st (pl_store s')"
proof -
  let ?cs = "window_of pe CANDIDATE st" let ?vs = "window_of pe VALIDATED st"
  obtain ds s1 where one: "scan_guard_all pe (advance_candidate pe) ?cs s = (Next ds, s1)"
    using scan_goes_on [of pe "advance_candidate pe" ?cs] unfolding goes_on_def by blast
  obtain ds' s2 where two: "scan_guard_all pe (recheck_validated pe) ?vs s1 = (Next ds', s2)"
    using scan_goes_on [of pe "recheck_validated pe" ?vs] unfolding goes_on_def by blast
  have s2: "s2 = s'" using run one two by (simp add: and_then_def pure_def)
  have "longer s s1" "longer s1 s'"
    using preserves_run [OF scan_longer one] preserves_run [OF scan_longer two] advance_longer recheck_longer s2 by blast+
  with part have part': "prefix pre (pl_calls s1)" "prefix (pl_calls s1) post"
    unfolding longer_def by (meson prefix_order.trans)+
  have "list_all (\<lambda>e. get_candidate (ce_candidate_id e) (pl_store s) = Some e \<and> ce_status e = CANDIDATE) ?cs"
    using windows(1) [OF keyed, of _ pe CANDIDATE] by (simp add: a list_all_iff)
  from scanned_rows [where P = "\<lambda>e. ce_status e = CANDIDATE" and Q = "advanced pre post pe", OF advance_keeps_row advance_longer
      narrow_handlers(1) _ _ windows(2) [OF keyed] this one part(1) part'(2)]
  have c: "keyed (pl_store s1)"
      "\<And>c. c \<notin> ce_candidate_id ` set ?cs \<Longrightarrow> get_candidate c (pl_store s1) = get_candidate c st"
      "\<And>e. e \<in> set ?cs \<Longrightarrow> \<exists>e'. get_candidate (ce_candidate_id e) (pl_store s1) = Some e' \<and> advanced pre post pe e e' \<and>
         examined pre post pe e'"
    using keyed by (auto simp: a advanced_def moved_def same_content_def list_all_iff)
  have "list_all (\<lambda>e. get_candidate (ce_candidate_id e) (pl_store s1) = Some e \<and> ce_status e = VALIDATED) ?vs"
    using windows(1) [OF keyed, of _ pe VALIDATED] c(2) windows_apart [OF keyed] by (simp add: list_all_iff)
  from scanned_rows [where P = "\<lambda>e. ce_status e = VALIDATED" and Q = "rechecked pre post pe", OF recheck_keeps_row recheck_longer
      narrow_handlers(2) _ c(1) windows(2) [OF keyed] this two [unfolded s2] part'(1) part(2)]
  have v: "keyed (pl_store s')"
      "\<And>c. c \<notin> ce_candidate_id ` set ?vs \<Longrightarrow> get_candidate c (pl_store s') = get_candidate c (pl_store s1)"
      "\<And>e. e \<in> set ?vs \<Longrightarrow> \<exists>e'. get_candidate (ce_candidate_id e) (pl_store s') = Some e' \<and> rechecked pre post pe e e' \<and>
         examined pre post pe e'"
    by (auto simp: rechecked_def moved_def same_content_def list_all_iff)
  have apart: "ce_candidate_id e \<notin> ce_candidate_id ` set ?vs" if "e \<in> set ?cs" for e
    using windows_apart [OF keyed] that by (force simp: image_iff)
  show ?thesis unfolding scanned_def
  proof (intro conjI allI ballI impI)
    show "keyed (pl_store s')" by (rule v(1))
    show "get_candidate k (pl_store s') = get_candidate k st"
      if "k \<notin> ce_candidate_id ` (set ?cs \<union> set ?vs)" for k using that c(2) [of k] v(2) [of k] by (simp add: image_Un)
    show "\<exists>e'. get_candidate (ce_candidate_id e) (pl_store s') = Some e' \<and> advanced pre post pe e e' \<and> examined pre post pe e'"
      if "e \<in> set ?cs" for e using c(3) [OF that] v(2) [OF apart [OF that]] by simp
  qed (use v(3) in blast)
qed

text \<open>A sweep that is switched on, with a clock and a store that answer, is not cut short.\<close>

definition ports_answer :: "promotion_env \<Rightarrow> bool" where
  "ports_answer pe \<longleftrightarrow> works pe \<and> (\<forall>h. pe_enabled pe h = Inr True)"

lemma run_once_scans:
  assumes keyed: "keyed (pl_store s)" and run: "run_once pe s = (r, s')"
  shows "\<not> ports_answer pe \<and> pl_store s' = pl_store s \<or>
    scanned (pl_calls s) (pl_calls s') pe (pl_store s) (pl_store s')"
proof -
  let ?scan = "\<lambda>candidates validated. and_then (scan_guard_all pe (advance_candidate pe) candidates) (\<lambda>ds.
      and_then (scan_guard_all pe (recheck_validated pe) validated) (\<lambda>ds'. pure \<lparr>sw_decisions = ds @ ds', sw_disabled = False\<rparr>))"
  from run [unfolded run_once_def] show ?thesis
  proof (cases rule: and_thenE)
    case (stop q)
    have "pl_store s' = pl_store s" by (rule runs_same [OF same_store_port stop(1)])
    moreover have "\<not> ports_answer pe"
    proof
      assume "ports_answer pe"
      then have on: "pe_enabled pe (pl_calls s @ [ReadSwitch]) = Inr True" by (simp add: ports_answer_def)
      from stop(1) have "q = Next True" by (simp add: port_goes_on [where answer = "pe_enabled pe", OF on])
      with stop(2) show False by blast
    qed
    ultimately show ?thesis by blast
  next
    case (go on s1)
    have st1: "pl_store s1 = pl_store s" by (rule runs_same [OF same_store_port go(1)])
    have l1: "longer s s1" by (rule preserves_run [OF stays_preserves [OF longer_port] go(1)])
    show ?thesis
    proof (cases on)
      case False
      have "\<not> ports_answer pe"
      proof
        assume "ports_answer pe"
        then have on: "pe_enabled pe (pl_calls s @ [ReadSwitch]) = Inr True" by (simp add: ports_answer_def)
        from go(1) False show False by (simp add: port_goes_on [where answer = "pe_enabled pe", OF on])
      qed
      with False go(2) st1 show ?thesis by (simp add: pure_def)
    next
      case True
      with go(2) have "and_then (scan_rows pe CANDIDATE) (\<lambda>cs. and_then (scan_rows pe VALIDATED) (?scan cs)) s1 = (r, s')" by simp
      then show ?thesis
      proof (cases rule: and_thenE)
        case (stop q)
        have "\<not> ports_answer pe" using scan_rows_stop [OF stop] by (simp add: ports_answer_def)
        then show ?thesis using runs_same [OF scan_rows_same stop(1)] st1 by simp
      next
        case (go cs s2)
        note two = scan_rows_run [OF go(1)]
        have l2: "longer s1 s2" by (rule preserves_run [OF scan_rows_longer go(1)])
        from go(2) show ?thesis
        proof (cases rule: and_thenE)
          case (stop q)
          have "\<not> ports_answer pe" using scan_rows_stop [OF stop] by (simp add: ports_answer_def)
          then show ?thesis using runs_same [OF scan_rows_same stop(1)] st1 two by simp
        next
          case (go vs s3)
          note three = scan_rows_run [OF go(1)]
          have l3: "longer s2 s3" by (rule preserves_run [OF scan_rows_longer go(1)])
          have "prefix (pl_calls s) (pl_calls s3)"
            using l1 l2 l3 unfolding longer_def by (meson prefix_order.trans)
          moreover have "?scan (window_of pe CANDIDATE (pl_store s)) (window_of pe VALIDATED (pl_store s)) s3 = (r, s')"
            using go(2) two three st1 by (simp add: window_of_def)
          ultimately show ?thesis
            using sweep_scans [OF keyed _, of s3 pe r s' "pl_calls s" "pl_calls s'"] two three st1 by simp
        qed
      qed
    qed
  qed
qed

lemma run_once_rows:
  assumes keyed: "keyed (pl_store s)" and run: "run_once pe s = (r, s')"
  shows "keyed (pl_store s') \<and> rows_swept (pl_calls s) (pl_calls s') pe (pl_store s) (pl_store s')"
proof -
  consider "pl_store s' = pl_store s" | "scanned (pl_calls s) (pl_calls s') pe (pl_store s) (pl_store s')"
    using run_once_scans [OF assms] by blast
  then show ?thesis
  proof cases
    case 1
    then show ?thesis using keyed by simp
  next
    case 2
    with scanned_swept [OF keyed 2] show ?thesis by (simp add: scanned_def)
  qed
qed

section \<open>The daemon\<close>

text \<open>Sweep after sweep, each row goes its own way; none is created or removed.\<close>

definition drifts :: "promotion_env \<Rightarrow> candidate_envelope \<Rightarrow> candidate_envelope \<Rightarrow> bool" where
  "drifts pe e e' \<longleftrightarrow> (\<exists>pre post. swept pre post pe e e')"

definition rows_drift :: "promotion_env \<Rightarrow> candidate_store \<Rightarrow> candidate_store \<Rightarrow> bool" where
  "rows_drift pe st st' \<longleftrightarrow> (\<forall>c. rel_option (drifts pe)\<^sup>*\<^sup>* (get_candidate c st) (get_candidate c st'))"

lemma drifts_swept: "swept pre post pe e e' \<Longrightarrow> (drifts pe)\<^sup>*\<^sup>* e e'"
  unfolding drifts_def by (rule r_into_rtranclp) blast

lemma rows_drift_swept: "rows_swept pre post pe st st' \<Longrightarrow> rows_drift pe st st'"
  unfolding rows_swept_def rows_drift_def
proof
  fix c assume all: "\<forall>c. case get_candidate c st of None \<Rightarrow> get_candidate c st' = None
     | Some e \<Rightarrow> (case get_candidate c st' of None \<Rightarrow> False | Some e' \<Rightarrow> swept pre post pe e e')"
  show "rel_option (drifts pe)\<^sup>*\<^sup>* (get_candidate c st) (get_candidate c st')"
    using all [rule_format, of c] by (auto intro: drifts_swept split: option.splits)
qed

lemma rows_drift_trans: "rows_drift pe st st' \<Longrightarrow> rows_drift pe st' st'' \<Longrightarrow> rows_drift pe st st''"
  unfolding rows_drift_def
proof
  fix c assume "\<forall>c. rel_option (drifts pe)\<^sup>*\<^sup>* (get_candidate c st) (get_candidate c st')"
    and "\<forall>c. rel_option (drifts pe)\<^sup>*\<^sup>* (get_candidate c st') (get_candidate c st'')"
  then show "rel_option (drifts pe)\<^sup>*\<^sup>* (get_candidate c st) (get_candidate c st'')"
    by (auto dest!: spec [of _ c] simp: option_rel_Some1 option_rel_Some2 elim!: option.rel_cases)
qed

definition daemon_step :: "promotion_env \<Rightarrow> plane \<Rightarrow> plane \<Rightarrow> bool" where
  "daemon_step pe s t \<longleftrightarrow> (keyed (pl_store s) \<longrightarrow> keyed (pl_store t) \<and> rows_drift pe (pl_store s) (pl_store t))"

interpretation daemon: step_relation "daemon_step pe" for pe
  by unfold_locales (auto simp: daemon_step_def rows_drift_swept dest: rows_drift_trans)

lemma run_once_daemon: "preserves (daemon_step pe) (run_once pe)"
  unfolding preserves_def daemon_step_def
  using run_once_rows [of _ pe] by (metis prod.collapse rows_drift_swept)

lemma run_cycles_daemon: "preserves (daemon_step pe) (run_cycles n pe)"
  unfolding swallowing_def
  by (induction n) (auto simp: swallowing_def intro!: daemon.rules run_once_daemon)

lemma run_cycles_goes_on: "goes_on (run_cycles n pe)"
  by (induction n) (auto simp: swallowing_def intro!: goes_on_pure goes_on_and_then goes_on_catching calling_no_return)

text \<open>Where a row can get without a human: never into a landed or a closed status.\<close>

lemma drift_statuses:
  "(drifts pe)\<^sup>*\<^sup>* e e' \<Longrightarrow> same_content e e' \<and> (ce_status e' \<noteq> ce_status e \<longrightarrow>
     ce_status e \<in> {CANDIDATE, VALIDATED} \<and> ce_status e' \<in> {CANDIDATE, IN_REVIEW})"
proof (induction rule: rtranclp_induct)
  case base
  then show ?case by (simp add: same_content_def)
next
  case (step e' e'')
  from step(2) obtain pre post where "swept pre post pe e' e''" unfolding drifts_def by blast
  with step(3) show ?case by (auto simp: swept_iff same_content_def)
qed

end
