(* ===== verification/PromotionDecisions.thy ===== *)
theory PromotionDecisions
  imports PromotionFacts
begin

text \<open>
  The transitions a human or a user correction asks for: what each may store. A method works on one
  candidate; it leaves every other row alone, and its own row as it was or as the transition says,
  whether it returns, holds or raises. An approval also says what the corpus and the store are sent,
  and in which order.
\<close>

section \<open>Redaction once and again\<close>

text \<open>Iterating a set yields each of its members.\<close>

definition set_order :: "(string list \<Rightarrow> string list) \<Rightarrow> bool" where
  "set_order order \<longleftrightarrow> (\<forall>xs. set (order xs) = set xs)"

lemma set_order_nil: "set_order order \<Longrightarrow> order [] = []"
  by (metis set_order_def set_empty)

fun_cases in_setE: "in_set v xs = Inr True"

lemma leakage_read:
  assumes "leakage_from_doc d = Inr v"
  shows "is_settled d = Inr True" "lv_result v \<in> set SETTLED_RESULTS"
  using assms by (auto simp: leakage_from_doc_def is_settled_def rbind_eq_Inr split: if_splits elim!: in_setE)

lemma settled_doc: "lv_result v \<in> set SETTLED_RESULTS \<Longrightarrow> is_settled (leakage_to_doc v) = Inr True"
  by (simp add: is_settled_def leakage_to_doc_def getv_def)

definition spans_of :: "(string list \<Rightarrow> string list) \<Rightarrow> leakage_verdict \<Rightarrow> string list" where
  "spans_of order v = order (remdups (filter (\<lambda>s. s \<noteq> []) (map eh_span (lv_hits v))))"

definition blanked :: "leakage_verdict \<Rightarrow> leakage_verdict" where
  "blanked v = v\<lparr>lv_hits := map (\<lambda>h. h\<lparr>eh_span := []\<rparr>) (lv_hits v)\<rparr>"

definition stripped :: "(string list \<Rightarrow> string list) \<Rightarrow> leakage_verdict \<Rightarrow> candidate_envelope \<Rightarrow> candidate_envelope" where
  "stripped order v e = (let e' = e\<lparr>ce_payload := redact_payload (ce_payload e) (spans_of order v)\<rparr> in
     if lv_hits v = [] then e' else e'\<lparr>ce_entity_scan := leakage_to_doc (blanked v)\<rparr>)"

lemma entity_spans_cases:
  "is_settled (ce_entity_scan e) = Inr False \<Longrightarrow> entity_spans order e = Inr []"
  "leakage_from_doc (ce_entity_scan e) = Inr v \<Longrightarrow> entity_spans order e = Inr (spans_of order v)"
  by (simp_all add: entity_spans_def spans_of_def leakage_read)

lemma strip_cases:
  "is_settled (ce_entity_scan e) = Inr False \<Longrightarrow> strip_entity_bearing order e = Inr e"
  "leakage_from_doc (ce_entity_scan e) = Inr v \<Longrightarrow> strip_entity_bearing order e = Inr (stripped order v e)"
  by (simp_all add: strip_entity_bearing_def entity_spans_cases blank_scan_spans_def redact_payload_def leakage_read stripped_def
      blanked_def Let_def)

lemma stripE:
  assumes "strip_entity_bearing order e = Inr e'"
  obtains (unsettled) "is_settled (ce_entity_scan e) = Inr False" "e' = e"
  | (settled) v where "leakage_from_doc (ce_entity_scan e) = Inr v" "e' = stripped order v e"
proof (cases "is_settled (ce_entity_scan e)")
  case (Inl x)
  then show ?thesis using assms by (simp add: strip_entity_bearing_def entity_spans_def)
next
  case (Inr b)
  show ?thesis
  proof (cases b)
    case False
    then show ?thesis using unsettled assms Inr strip_cases(1) [of e order] by simp
  next
    case True
    then show ?thesis using settled assms Inr strip_cases(2) [of e _ order]
      by (cases "leakage_from_doc (ce_entity_scan e)") (auto simp: strip_entity_bearing_def entity_spans_def)
  qed
qed

lemma stripped_again:
  assumes "lv_result v \<in> set SETTLED_RESULTS" "order [] = []" "leakage_from_doc (ce_entity_scan e) = Inr v"
  shows "strip_entity_bearing order (stripped order v e) = Inr (stripped order v e)"
proof (cases "lv_hits v = []")
  case True
  then have "stripped order v e = e" using assms(2) by (simp add: stripped_def spans_of_def redact_payload_def)
  moreover have "strip_entity_bearing order e = Inr (stripped order v e)" by (rule strip_cases(2) [OF assms(3)])
  ultimately show ?thesis by simp
next
  case False
  have none: "filter (\<lambda>s. s \<noteq> []) (map (eh_span \<circ> eh_span_update (\<lambda>_. [])) hs) = []" for hs :: "entity_hit list"
    by (induction hs) auto
  have read: "leakage_from_doc (ce_entity_scan (stripped order v e)) = Inr (blanked v)"
    using False assms(1) by (simp add: stripped_def leakage_back blanked_def)
  have "stripped order (blanked v) (stripped order v e) = stripped order v e"
    using False assms(2) by (simp add: stripped_def spans_of_def blanked_def redact_payload_def none comp_def)
  then show ?thesis using strip_cases(2) [OF read, of order] by simp
qed

lemma strip_again:
  assumes "strip_entity_bearing order e = Inr e'" "set_order order"
  shows "strip_entity_bearing order e' = Inr e'"
  using assms(1)
proof (cases rule: stripE)
  case (settled v)
  then show ?thesis using stripped_again leakage_read(2) set_order_nil assms(2) by blast
qed (use assms(1) in simp)

lemma strip_keeps:
  assumes "strip_entity_bearing order e = Inr e'"
  shows "ce_candidate_id e' = ce_candidate_id e" "ce_type e' = ce_type e" "ce_status e' = ce_status e" "ce_depends_on e' = ce_depends_on e"
  using assms by (auto elim!: stripE simp: stripped_def Let_def)

text \<open>No text leaf of the redacted payload holds a plain span of the scan.\<close>

lemma strip_clean:
  assumes "strip_entity_bearing order e = Inr e'" "entity_spans order e = Inr spans" "list_all plain_span spans"
  shows "list_all (\<lambda>t. list_all (\<lambda>x. \<not> sublist x t) spans) (text_leaves (PDict (ce_payload e')))"
proof (cases "spans = []")
  case True
  then show ?thesis by (simp add: list_all_iff)
next
  case False
  have p: "ce_payload e' = redact_payload (ce_payload e) spans"
    using assms(1)
  proof (cases rule: stripE)
    case unsettled
    then show ?thesis using assms(2) False entity_spans_cases(1) [of e order] by simp
  next
    case (settled v)
    then show ?thesis using assms(2) entity_spans_cases(2) [of e v order] by (simp add: stripped_def Let_def)
  qed
  have "text_leaves (PDict (ce_payload e')) = map (redact_text spans) (text_leaves (PDict (ce_payload e)))"
    unfolding p using False by (rule redact_payload_leaves)
  moreover have "\<not> sublist x (redact_text spans t)" if "x \<in> set spans" for x t
    using redact_text_clean [OF assms(3), of x t] that assms(3) by (simp add: list_all_iff)
  ultimately show ?thesis by (simp only: list_all_iff set_map) blast
qed

section \<open>What a transition stores\<close>

definition settles :: "(candidate_envelope \<Rightarrow> bool) \<Rightarrow> string \<Rightarrow> plane \<Rightarrow> plane \<Rightarrow> bool" where
  "settles Q c s t \<longleftrightarrow> (\<forall>c'. c' \<noteq> c \<longrightarrow> get_candidate c' (pl_store t) = get_candidate c' (pl_store s)) \<and>
     (get_candidate c (pl_store t) = get_candidate c (pl_store s) \<or> (\<exists>e. get_candidate c (pl_store t) = Some e \<and> Q e))"

interpretation settles: step_relation "settles Q c" for Q c
  by unfold_locales (auto simp: settles_def)

lemma settles_same: "preserves same_store m \<Longrightarrow> preserves (settles Q c) m"
  by (erule preserves_mono) (simp add: same_store_def settles_def)

lemma settles_stays: "stays same_store m \<Longrightarrow> preserves (settles Q c) m"
  by (rule settles_same [OF stays_preserves])

lemma settles_put: "ce_candidate_id e = c \<Longrightarrow> Q e \<Longrightarrow> preserves (settles Q c) (put_row pe e)"
  unfolding put_row_def changing_store_def
  by (intro settles.and_then settles_stays [OF same_store_port] preserves_modify) (simp add: settles_def memory.get_put)

lemmas settles_parts = settles_same [OF same_store.check] same_store_rules [THEN settles_stays] settles_put

lemma reject_settles: "preserves (settles (\<lambda>f. f = e\<lparr>ce_status := REJECTED\<rparr>) (ce_candidate_id e)) (apply_reject pe e)"
  unfolding apply_reject_def Let_def by (intro settles.rules settles_parts) simp_all

lemma correction_settles:
  "preserves (settles (\<lambda>f. ce_status e = VALIDATED \<and> (\<exists>now. f = e\<lparr>ce_status := CANDIDATE, ce_drift := user_correction_stamp now\<rparr>))
     (ce_candidate_id e)) (apply_user_correction pe e)"
  unfolding apply_user_correction_def Let_def by (intro settles.known_rules settles_parts) auto

lemma retract_settles:
  "preserves (settles (\<lambda>f. ce_status e = VALIDATED \<and> f = e\<lparr>ce_status := RETIRED\<rparr>) (ce_candidate_id e)) (apply_retract pe e)"
  unfolding apply_retract_def Let_def by (intro settles.known_rules settles_parts) auto

lemma verify_settles:
  "preserves (settles (\<lambda>f. ce_status e = VALIDATED \<and> f = e\<lparr>ce_verified := True\<rparr>) (ce_candidate_id e)) (apply_verify pe e)"
  unfolding apply_verify_def Let_def by (intro settles.known_rules settles_parts) auto

lemma promote_settles:
  "preserves (settles (\<lambda>f. ce_status e = VALIDATED \<and> ce_verified e \<and> f = e\<lparr>ce_status := PROMOTED\<rparr>) (ce_candidate_id e)) (apply_promote pe e)"
  unfolding apply_promote_def Let_def by (intro settles.known_rules settles_parts) auto

section \<open>Approval\<close>

text \<open>The guards of a blueprint, beside those of every type.\<close>

definition blueprint_guards :: "promotion_env \<Rightarrow> candidate_envelope \<Rightarrow> bool" where
  "blueprint_guards pe e \<longleftrightarrow> static_ok e \<and> replay_passes pe e \<and> \<not> landing_gate_blocks pe"

definition approvable :: "promotion_env \<Rightarrow> candidate_envelope \<Rightarrow> candidate_envelope \<Rightarrow> bool" where
  "approvable pe e f \<longleftrightarrow> ce_status e = IN_REVIEW \<and> entity_scan_is_actionable pe e = Inr True \<and>
     strip_entity_bearing (pe_order pe) e = Inr f \<and> deps_known pe f \<and> (ce_type e = BLUEPRINT_TYPE \<longrightarrow> blueprint_guards pe f)"

text \<open>What an approval may store: the redacted envelope, validated under a stamp.\<close>

definition validated_row :: "candidate_envelope \<Rightarrow> candidate_envelope \<Rightarrow> bool" where
  "validated_row f e' \<longleftrightarrow> (\<exists>d b. e' = f\<lparr>ce_drift := d, ce_status := VALIDATED, ce_verified := b\<rparr>)"

lemma validated_rowI:
  "validated_row f (f\<lparr>ce_status := VALIDATED, ce_drift := d\<rparr>)" "validated_row f (f\<lparr>ce_drift := d, ce_status := VALIDATED, ce_verified := b\<rparr>)"
  unfolding validated_row_def by (rule exI [of _ d], rule exI [of _ "ce_verified f"], simp) (intro exI, rule refl)

lemma land_settles:
  assumes "strip_entity_bearing (pe_order pe) f = Inr f" "\<And>e'. validated_row f e' \<Longrightarrow> Q e'"
  shows "preserves (settles Q (ce_candidate_id f)) (land_and_promote pe f w d action forbidden verified)"
  unfolding land_and_promote_def Let_def
  by (intro settles.known_rules settles_parts assms(2)) (use assms(1) in \<open>auto intro: validated_rowI\<close>)

lemma approve_blueprint_settles:
  assumes "strip_entity_bearing (pe_order pe) f = Inr f" "\<And>e'. validated_row f e' \<Longrightarrow> blueprint_guards pe f \<Longrightarrow> Q e'"
  shows "preserves (settles Q (ce_candidate_id f)) (approve_blueprint pe f forbidden)"
  unfolding approve_blueprint_def Let_def
  by (intro settles.known_rules settles_parts land_settles assms)
    (auto simp: blueprint_guards_def static_ok_def dest: possible_replay)

lemma approve_blueprint_guards: "possible (approve_blueprint pe f forbidden) d \<Longrightarrow> blueprint_guards pe f"
  unfolding approve_blueprint_def Let_def
  by (auto simp: blueprint_guards_def static_ok_def dest!: possible_and_then split: option.splits) (erule (1) possible_replay)+

lemma approve_other_settles:
  assumes "strip_entity_bearing (pe_order pe) f = Inr f" "\<And>e'. validated_row f e' \<Longrightarrow> Q e'"
  shows "preserves (settles Q (ce_candidate_id f)) (approve_other pe f forbidden)"
  unfolding approve_other_def
  by (intro settles.known_rules settles_parts land_settles assms)

lemma approve_settles:
  assumes order: "set_order (pe_order pe)"
  shows "preserves (settles (\<lambda>e'. \<exists>f. approvable pe e f \<and> validated_row f e') (ce_candidate_id e)) (apply_approve pe e)"
proof -
  have one: "ce_type e = BLUEPRINT_TYPE \<Longrightarrow>
        preserves (settles (\<lambda>e'. \<exists>f. approvable pe e f \<and> validated_row f e') (ce_candidate_id e)) (approve_blueprint pe f forbidden)"
      "ce_type e \<noteq> BLUEPRINT_TYPE \<Longrightarrow>
        preserves (settles (\<lambda>e'. \<exists>f. approvable pe e f \<and> validated_row f e') (ce_candidate_id e)) (approve_other pe f forbidden)"
    if "ce_status e = IN_REVIEW" "entity_scan_is_actionable pe e = Inr True" "strip_entity_bearing (pe_order pe) e = Inr f" "deps_known pe f"
    for f forbidden
    using strip_again [OF that(3) order] strip_keeps [OF that(3)] that
      approve_blueprint_settles [of pe f _ forbidden] approve_other_settles [of pe f _ forbidden]
    by (auto simp: approvable_def)
  have two: "approvable pe e f"
    if "ce_status e = IN_REVIEW" "entity_scan_is_actionable pe e = Inr True" "strip_entity_bearing (pe_order pe) e = Inr f" "deps_known pe f"
      "possible (if ce_type f = BLUEPRINT_TYPE then approve_blueprint pe f forbidden else approve_other pe f forbidden) d"
    for f forbidden d
    using that strip_keeps [OF that(3)] approve_blueprint_guards by (auto simp: approvable_def split: if_splits)
  show ?thesis
    unfolding apply_approve_def Let_def
    by (intro settles.and_then_known settles.plain settles_parts)
      (auto intro!: one two dest: possible_deps simp: strip_keeps validated_rowI)
qed

section \<open>Landed before it is stored\<close>

text \<open>
  A writer of the corpus is there, and the envelope stored as validated is of a type it lands: it has
  accepted exactly this payload under this id before.
\<close>

fun must_land :: "promotion_env \<Rightarrow> port_call \<Rightarrow> bool" where
  "must_land pe (PutCandidate e) \<longleftrightarrow> ce_status e = VALIDATED \<and> ce_type e \<in> set LANDED_TYPES \<and> pe_landing pe \<noteq> None"
| "must_land pe _ \<longleftrightarrow> False"

fun landing_of :: "port_call \<Rightarrow> port_call \<Rightarrow> bool" where
  "landing_of (PutCandidate e) (Land f forbidden verified) \<longleftrightarrow> ce_candidate_id f = ce_candidate_id e \<and> ce_payload f = ce_payload e"
| "landing_of _ _ \<longleftrightarrow> False"

definition accepted_at :: "promotion_env \<Rightarrow> port_call list \<Rightarrow> nat \<Rightarrow> bool" where
  "accepted_at pe calls j \<longleftrightarrow> (\<exists>w. pe_landing pe = Some w \<and> lp_land w (take (Suc j) calls) = Inr ())"

definition lands_first :: "promotion_env \<Rightarrow> plane \<Rightarrow> plane \<Rightarrow> bool" where
  "lands_first pe s t \<longleftrightarrow> (\<exists>new. pl_calls t = pl_calls s @ new) \<and>
     (\<forall>i. length (pl_calls s) \<le> i \<and> i < length (pl_calls t) \<and> must_land pe (pl_calls t ! i) \<longrightarrow>
        (\<exists>j. length (pl_calls s) \<le> j \<and> j < i \<and> landing_of (pl_calls t ! i) (pl_calls t ! j) \<and> accepted_at pe (pl_calls t) j))"

lemma accepted_append: "j < length calls \<Longrightarrow> accepted_at pe (calls @ later) j = accepted_at pe calls j"
  by (simp add: accepted_at_def)

lemma lands_first_trans:
  assumes "lands_first pe s t" "lands_first pe t u"
  shows "lands_first pe s u"
proof -
  obtain n m where c: "pl_calls t = pl_calls s @ n" "pl_calls u = pl_calls t @ m"
    using assms by (auto simp: lands_first_def)
  have "\<exists>j. length (pl_calls s) \<le> j \<and> j < i \<and> landing_of (pl_calls u ! i) (pl_calls u ! j) \<and> accepted_at pe (pl_calls u) j"
    if i: "length (pl_calls s) \<le> i" "i < length (pl_calls u)" "must_land pe (pl_calls u ! i)" for i
  proof (cases "i < length (pl_calls t)")
    case True
    then have same: "pl_calls u ! k = pl_calls t ! k" if "k \<le> i" for k using that by (simp add: c(2) nth_append)
    from assms(1) i True obtain j where "length (pl_calls s) \<le> j" "j < i" "landing_of (pl_calls t ! i) (pl_calls t ! j)"
        "accepted_at pe (pl_calls t) j"
      by (auto simp: lands_first_def same)
    then show ?thesis using same [of i] same [of j] accepted_append [of j "pl_calls t" pe m] True c(2) by fastforce
  next
    case False
    then obtain j where "length (pl_calls t) \<le> j" "j < i" "landing_of (pl_calls u ! i) (pl_calls u ! j)" "accepted_at pe (pl_calls u) j"
      using assms(2) i unfolding lands_first_def by (metis not_less)
    then show ?thesis using c(1) by (intro exI [of _ j]) simp
  qed
  then show ?thesis using c by (simp add: lands_first_def)
qed

lemma lands_first_call: "\<not> must_land pe c \<Longrightarrow> lands_first pe s (s\<lparr>pl_calls := pl_calls s @ [c]\<rparr>)"
  by (auto simp: lands_first_def less_Suc_eq)

interpretation lands_first: plane_relation "lands_first pe" for pe
proof unfold_locales
  show "lands_first pe s (s\<lparr>pl_calls := pl_calls s @ [c]\<rparr>)" if "\<not> stores c" for s c
    using that by (intro lands_first_call) (cases c; simp)
  show "lands_first pe s t \<Longrightarrow> lands_first pe t u \<Longrightarrow> lands_first pe s u" for s t u by (rule lands_first_trans)
qed (auto simp: lands_first_def)

lemma lands_first_put:
  assumes "\<not> must_land pe (PutCandidate e)"
  shows "preserves (lands_first pe) (put_row pe' e)"
  unfolding put_row_def changing_store_def calling_port_def
  by (auto simp: preserves_def and_then_def read_def modify_def lift_def lands_first_call [OF assms] split: sum.split)
    (use lands_first_call [OF assms] in \<open>simp add: lands_first_def\<close>)

lemma lands_first_two:
  assumes calls: "pl_calls t = pl_calls s @ [c, c']" and "\<not> must_land pe c" "landing_of c' c" "accepted_at pe (pl_calls t) (length (pl_calls s))"
  shows "lands_first pe s t"
proof -
  have "\<exists>j\<ge>length (pl_calls s). j < i \<and> landing_of (pl_calls t ! i) (pl_calls t ! j) \<and> accepted_at pe (pl_calls t) j"
    if i: "length (pl_calls s) \<le> i" "i < length (pl_calls t)" "must_land pe (pl_calls t ! i)" for i
  proof -
    have "i \<noteq> length (pl_calls s)" using i(3) assms(2) by (auto simp: calls)
    then have "i = Suc (length (pl_calls s))" using i(1,2) by (simp add: calls)
    then show ?thesis using assms(3,4) by (intro exI [of _ "length (pl_calls s)"]) (simp add: calls nth_append)
  qed
  then show ?thesis unfolding lands_first_def using calls by blast
qed

text \<open>The run that lands: the writer's yes, then the write.\<close>

lemma land_lands_first:
  assumes w: "pe_landing pe = Some w"
  shows "preserves (lands_first pe) (land_and_promote pe e w d action forbidden verified)"
  unfolding preserves_def
proof
  fix s
  show "lands_first pe s (snd (land_and_promote pe e w d action forbidden verified s))"
  proof (cases "strip_entity_bearing (pe_order pe) e")
    case (Inl x)
    then show ?thesis by (simp add: land_and_promote_def and_then_def lift_def lands_first.same)
  next
    case (Inr f)
    let ?land = "Land (f\<lparr>ce_drift := d\<rparr>) forbidden verified"
    let ?put = "PutCandidate (f\<lparr>ce_drift := d, ce_status := VALIDATED, ce_verified := verified\<rparr>)"
    show ?thesis
    proof (cases "lp_land w (pl_calls s @ [?land])")
      case (Inl x)
      then have "snd (land_and_promote pe e w d action forbidden verified s) = s\<lparr>pl_calls := pl_calls s @ [?land]\<rparr>"
        using Inr by (simp add: land_and_promote_def Let_def and_then_def lift_def catching_def calling_port_def read_def modify_def return_def)
      then show ?thesis using lands_first_call [of pe ?land s] by simp
    next
      case yes: (Inr u)
      then have calls: "pl_calls (snd (land_and_promote pe e w d action forbidden verified s)) = pl_calls s @ [?land, ?put]"
        using Inr by (auto simp: land_and_promote_def Let_def and_then_def lift_def catching_def calling_port_def read_def modify_def
            return_def put_row_def changing_store_def split: sum.split)
      show ?thesis
        by (rule lands_first_two [OF calls]) (use w yes in \<open>simp_all add: accepted_at_def calls\<close>)
    qed
  qed
qed

lemma approve_lands_first: "preserves (lands_first pe) (apply_approve pe e)"
proof -
  have landed: "preserves (lands_first pe) (approve_blueprint pe f forbidden)" "preserves (lands_first pe) (approve_other pe f forbidden)"
    for f forbidden
    unfolding approve_blueprint_def approve_other_def Let_def
    by (intro lands_first.known_rules lands_first.parts land_lands_first | assumption)+
  have stored: "\<not> must_land pe (PutCandidate (f\<lparr>ce_status := VALIDATED, ce_drift := d\<rparr>))"
    if "possible (if ce_type f = BLUEPRINT_TYPE then approve_blueprint pe f forbidden else approve_other pe f forbidden) d" for f forbidden d
    using that unfolding approve_blueprint_def approve_other_def Let_def
    by (auto simp: LANDED_TYPES_def land_and_promote_def Let_def dest!: possible_and_then split: if_splits option.splits sum.splits)
  show ?thesis
    unfolding apply_approve_def Let_def
    by (intro lands_first.and_then_known lands_first.plain lands_first.case_bool lands_first.parts landed lands_first_put stored)
qed

section \<open>A decision of a person\<close>

definition decided_row :: "promotion_env \<Rightarrow> candidate_envelope \<Rightarrow> string \<Rightarrow> candidate_envelope \<Rightarrow> bool" where
  "decided_row pe e choice e' \<longleftrightarrow> choice = ''reject'' \<and> e' = e\<lparr>ce_status := REJECTED\<rparr> \<or>
     choice = ''approve'' \<and> (\<exists>f. approvable pe e f \<and> validated_row f e')"

lemma settles_mono: "(\<And>e. Q e \<Longrightarrow> Q' e) \<Longrightarrow> preserves (settles Q c) m \<Longrightarrow> preserves (settles Q' c) m"
  by (erule preserves_mono) (auto simp: settles_def)

lemma human_settles:
  assumes "set_order (pe_order pe)"
  shows "preserves (settles (decided_row pe e choice) (ce_candidate_id e)) (apply_human_decision pe e choice)"
proof -
  have "preserves (settles (decided_row pe e ''reject'') (ce_candidate_id e)) (apply_reject pe e)"
    by (rule settles_mono [OF _ reject_settles]) (simp add: decided_row_def)
  moreover have "preserves (settles (decided_row pe e ''approve'') (ce_candidate_id e)) (apply_approve pe e)"
    by (rule settles_mono [OF _ approve_settles [OF assms]]) (simp add: decided_row_def)
  ultimately show ?thesis by (simp add: apply_human_decision_def settles.rules)
qed

lemma human_lands_first: "preserves (lands_first pe) (apply_human_decision pe e choice)"
proof -
  have "preserves (lands_first pe) (apply_reject pe e)"
    unfolding apply_reject_def Let_def
    by (intro lands_first.rules lands_first.parts lands_first_put) simp
  then show ?thesis using approve_lands_first by (simp add: apply_human_decision_def lands_first.rules)
qed

end
