(* ===== verification/ScanRotation.thy ===== *)
theory ScanRotation
  imports PromotionFacts
begin

text \<open>
  Fairness of the sweep. The rows of one status wait in the order of the cursor of their last examination;
  a sweep examines a bounded window at the head of that order, and the guard around the handler stamps
  every row it took with the time of the clock, whatever the handler did. So the rows ahead of a waiting
  one grow fewer by a window with every sweep of the daemon, and the waiting row is reached.
\<close>

section \<open>The rows ahead of one\<close>

definition waits_before :: "candidate_envelope \<Rightarrow> candidate_envelope \<Rightarrow> bool" where
  "waits_before f e \<longleftrightarrow> candidate_sort_key ByScanned f < candidate_sort_key ByScanned e"

definition ahead :: "candidate_store \<Rightarrow> candidate_envelope \<Rightarrow> string set" where
  "ahead st e = {c. \<exists>f. get_candidate c st = Some f \<and> ce_status f = ce_status e \<and> waits_before f e}"

lemma ids_in_store: "keyed st \<Longrightarrow> get_candidate c st = Some f \<Longrightarrow> c \<in> set (map ce_candidate_id (map snd (cs_by_id st)))"
  using keyed_get [of st c f] stored_values [of st f] by (force simp: image_iff)

lemma ahead_within:
  assumes "keyed st"
  shows "ahead st e \<subseteq> set (map ce_candidate_id (map snd (cs_by_id st)))"
  using ids_in_store [OF assms] by (auto simp: ahead_def)

lemma finite_ahead: "keyed st \<Longrightarrow> finite (ahead st e)"
  by (rule finite_subset [OF ahead_within]) simp_all

lemma ahead_below_store:
  assumes "keyed st" "get_candidate c st = Some e"
  shows "card (ahead st e) < length (cs_by_id st)"
proof -
  let ?ids = "set (map ce_candidate_id (map snd (cs_by_id st)))"
  have "c \<notin> ahead st e" using assms(2) by (simp add: ahead_def waits_before_def)
  then have "ahead st e \<subset> ?ids" using ahead_within [OF assms(1), of e] ids_in_store [OF assms] by blast
  then have "card (ahead st e) < card ?ids" by (intro psubset_card_mono) simp_all
  also have "\<dots> \<le> length (cs_by_id st)" using card_length [of "map ce_candidate_id (map snd (cs_by_id st))"] by simp
  finally show ?thesis .
qed

text \<open>Two rows of a keyed store never tie.\<close>

lemma no_tie: "ce_candidate_id f \<noteq> ce_candidate_id e \<Longrightarrow> waits_before f e \<or> waits_before e f"
  by (auto simp: waits_before_def split: option.splits)

section \<open>The window takes the rows ahead\<close>

lemma sorted_take_drop:
  fixes k :: "'a \<Rightarrow> 'b::linorder"
  assumes "sorted (map k xs)" "x \<in> set (take n xs)" "y \<in> set (drop n xs)"
  shows "k x \<le> k y"
proof -
  have "sorted (map k (take n xs) @ map k (drop n xs))" using assms(1) by (simp add: map_append [symmetric] del: map_append)
  then show ?thesis using assms(2,3) by (auto simp: sorted_append)
qed

lemma window_full:
  assumes keyed: "keyed st" and row: "get_candidate (ce_candidate_id e) st = Some e"
    and out: "e \<notin> set (window_of pe (ce_status e) st)" and limit: "0 \<le> pp_scan_limit (pe_policy pe)"
  shows "ce_candidate_id ` set (window_of pe (ce_status e) st) \<subseteq> ahead st e \<and>
    card (ce_candidate_id ` set (window_of pe (ce_status e) st)) = nat (pp_scan_limit (pe_policy pe))"
proof -
  let ?n = "nat (pp_scan_limit (pe_policy pe))" and ?all = "sorted_by_status (ce_status e) ByScanned st"
  let ?w = "window_of pe (ce_status e) st"
  have w: "?w = take ?n ?all" using limit by (simp add: window_of_def list_by_status_def slice_to_def)
  have "e \<in> set ?all" using row set_sorted_by_status [OF keyed] by simp
  then have e: "e \<in> set (drop ?n ?all)" using out w by (metis UnE append_take_drop_id set_append)
  then have "?n < length ?all" by (metis drop_all empty_iff empty_set not_less)
  then have "length ?w = ?n" by (simp add: w)
  then have "card (ce_candidate_id ` set ?w) = ?n"
    using distinct_card [OF windows(2) [OF keyed]] by simp
  moreover have "waits_before f e" if f: "f \<in> set ?w" for f
  proof -
    have "candidate_sort_key ByScanned f \<le> candidate_sort_key ByScanned e"
      by (rule sorted_take_drop [where xs = ?all and n = ?n])
        (use f e w in \<open>simp_all add: sorted_by_status_def del: candidate_sort_key.simps\<close>)
    moreover have "ce_candidate_id f \<noteq> ce_candidate_id e"
      using windows(1) [OF keyed f] row out f by auto
    ultimately show ?thesis using no_tie [of f e] by (auto simp: waits_before_def)
  qed
  ultimately show ?thesis using windows(1) [OF keyed] by (auto simp: ahead_def)
qed

text \<open>A row the sweep stamped waits behind every row whose cursor is older than the clock.\<close>

definition clock_after :: "promotion_env \<Rightarrow> candidate_envelope \<Rightarrow> bool" where
  "clock_after pe e \<longleftrightarrow> (\<forall>h now. pe_clock pe h = Inr now \<longrightarrow>
     (case ce_last_scanned_at e of None \<Rightarrow> True | Some ts \<Rightarrow> ts < now))"

lemma examined_behind:
  assumes "examined pre post pe f" "works pe" "clock_after pe e"
  shows "\<not> waits_before f e"
proof -
  obtain now h where f: "ce_last_scanned_at f = Some now" and now: "pe_clock pe h = Inr now"
    using assms(1,2) by (auto simp: examined_def clock_read_def)
  from now assms(3) have "case ce_last_scanned_at e of None \<Rightarrow> True | Some ts \<Rightarrow> ts < now" unfolding clock_after_def by blast
  then show ?thesis by (auto simp: f waits_before_def split: option.splits)
qed

lemma scan_advances:
  assumes keyed: "keyed st" and row: "get_candidate c st = Some e" and cand: "ce_status e = CANDIDATE"
    and out: "e \<notin> set (window_of pe CANDIDATE st)" and limit: "0 \<le> pp_scan_limit (pe_policy pe)"
    and scan: "scanned pre post pe st st'" and works: "works pe" and clock: "clock_after pe e"
  shows "get_candidate c st' = Some e \<and> card (ahead st' e) + nat (pp_scan_limit (pe_policy pe)) \<le> card (ahead st e)"
proof -
  let ?cs = "window_of pe CANDIDATE st" let ?vs = "window_of pe VALIDATED st"
  let ?W = "ce_candidate_id ` set ?cs" and ?V = "ce_candidate_id ` set ?vs"
  have id: "ce_candidate_id e = c" by (rule keyed_get [OF keyed row])
  have rest: "get_candidate k st' = get_candidate k st" if "k \<notin> ?W" "k \<notin> ?V" for k
    using scan that unfolding scanned_def image_Un by blast
  have stamped: "\<exists>f. get_candidate k st' = Some f \<and> \<not> waits_before f e" if "k \<in> ?W \<union> ?V" for k
  proof -
    from that consider g where "g \<in> set ?cs" "k = ce_candidate_id g" | g where "g \<in> set ?vs" "k = ce_candidate_id g" by blast
    then obtain f where "get_candidate k st' = Some f" "examined pre post pe f"
      using scan by cases (auto simp: scanned_def)
    then show ?thesis using examined_behind [OF _ works clock] by blast
  qed
  have away: "c \<notin> ?W" "c \<notin> ?V"
  proof -
    show "c \<notin> ?W" using windows(1) [OF keyed] row out by fastforce
    show "c \<notin> ?V" using windows(1) [OF keyed] row cand by fastforce
  qed
  have full: "?W \<subseteq> ahead st e" "card ?W = nat (pp_scan_limit (pe_policy pe))"
    using window_full [OF keyed, of e pe] row id out limit cand by simp_all
  have "ahead st' e \<subseteq> ahead st e - ?W"
  proof
    fix k assume "k \<in> ahead st' e"
    then obtain f where f: "get_candidate k st' = Some f" "ce_status f = ce_status e" "waits_before f e"
      by (auto simp: ahead_def)
    then have "k \<notin> ?W \<union> ?V" using stamped [of k] by auto
    then show "k \<in> ahead st e - ?W" using f rest [of k] by (simp add: ahead_def)
  qed
  then have "card (ahead st' e) \<le> card (ahead st e - ?W)"
    using finite_ahead [OF keyed] by (intro card_mono) simp_all
  also have "\<dots> = card (ahead st e) - card ?W"
    using full(1) by (intro card_Diff_subset) (auto intro: finite_subset)
  finally have "card (ahead st' e) + card ?W \<le> card (ahead st e)"
    using card_mono [OF finite_ahead [OF keyed] full(1)] by simp
  then show ?thesis using rest [OF away] row full(2) by simp
qed

section \<open>The daemon reaches every row\<close>

lemma cycle_runs: "swallowing (calling m) s = (Next (), snd (m s))"
  by (simp add: swallowing_def calling_def and_then_def catching_def pure_def split: prod.split flow.split)

lemma cycles_step: "snd (run_cycles (Suc j) pe s) = snd (run_cycles j pe (snd (run_once pe s)))"
  by (simp add: and_then_def cycle_runs)

definition waiting_row :: "string \<Rightarrow> candidate_envelope \<Rightarrow> plane \<Rightarrow> bool" where
  "waiting_row c e s \<longleftrightarrow> keyed (pl_store s) \<and> get_candidate c (pl_store s) = Some e \<and> ce_status e = CANDIDATE"

text \<open>What a sweep that takes the row leaves: the time the clock gave in that very sweep.\<close>

definition taken_by_sweep :: "string \<Rightarrow> candidate_envelope \<Rightarrow> promotion_env \<Rightarrow> plane \<Rightarrow> plane \<Rightarrow> bool" where
  "taken_by_sweep c e pe s s' \<longleftrightarrow> get_candidate c (pl_store s) = Some e \<and> e \<in> set (window_of pe CANDIDATE (pl_store s)) \<and>
     (\<exists>e' now. get_candidate c (pl_store s') = Some e' \<and> ce_last_scanned_at e' = Some now \<and>
        clock_read (pl_calls s) (pl_calls s') pe now)"

lemma sweep_takes:
  assumes "waiting_row c e s" "ports_answer pe" "e \<in> set (window_of pe CANDIDATE (pl_store s))" "run_once pe s = (r, s')"
  shows "taken_by_sweep c e pe s s'"
proof -
  have keyed: "keyed (pl_store s)" and row: "get_candidate c (pl_store s) = Some e" using assms(1) by (simp_all add: waiting_row_def)
  have "scanned (pl_calls s) (pl_calls s') pe (pl_store s) (pl_store s')" "works pe"
    using run_once_scans [OF keyed assms(4)] assms(2) by (auto simp: ports_answer_def)
  then show ?thesis using assms(3) row keyed_get [OF keyed row]
    unfolding scanned_def taken_by_sweep_def examined_def by blast
qed

lemma sweep_passes:
  assumes "waiting_row c e s" "ports_answer pe" "e \<notin> set (window_of pe CANDIDATE (pl_store s))" "run_once pe s = (r, s')"
    and "0 \<le> pp_scan_limit (pe_policy pe)" "clock_after pe e"
  shows "waiting_row c e s' \<and>
    card (ahead (pl_store s') e) + nat (pp_scan_limit (pe_policy pe)) \<le> card (ahead (pl_store s) e)"
proof -
  have keyed: "keyed (pl_store s)" and row: "get_candidate c (pl_store s) = Some e" "ce_status e = CANDIDATE"
    using assms(1) by (simp_all add: waiting_row_def)
  have "scanned (pl_calls s) (pl_calls s') pe (pl_store s) (pl_store s')" "works pe"
    using run_once_scans [OF keyed assms(4)] assms(2) by (auto simp: ports_answer_def)
  with scan_advances [OF keyed row assms(3,5) this(1,2) assms(6)] row(2) show ?thesis
    by (simp add: waiting_row_def scanned_def)
qed

lemma row_is_taken:
  assumes "ports_answer pe" "0 < pp_scan_limit (pe_policy pe)" "clock_after pe e"
  shows "waiting_row c e s \<Longrightarrow> card (ahead (pl_store s) e) < nat (pp_scan_limit (pe_policy pe)) * k \<Longrightarrow>
    \<exists>j<k. taken_by_sweep c e pe (snd (run_cycles j pe s)) (snd (run_cycles (Suc j) pe s))"
proof (induction k arbitrary: s)
  case (Suc k)
  obtain r s' where run: "run_once pe s = (r, s')" by fastforce
  show ?case
  proof (cases "e \<in> set (window_of pe CANDIDATE (pl_store s))")
    case True
    from sweep_takes [OF Suc.prems(1) assms(1) this run] show ?thesis
      by (intro exI [of _ 0]) (simp add: cycles_step run pure_def del: run_cycles.simps(2))
  next
    case False
    from sweep_passes [OF Suc.prems(1) assms(1) this run _ assms(3)] assms(2)
    have next': "waiting_row c e s'"
        "card (ahead (pl_store s') e) + nat (pp_scan_limit (pe_policy pe)) \<le> card (ahead (pl_store s) e)" by simp_all
    with Suc.prems(2) have "card (ahead (pl_store s') e) < nat (pp_scan_limit (pe_policy pe)) * k" by simp
    from Suc.IH [OF next'(1) this] obtain j where
      "j < k" "taken_by_sweep c e pe (snd (run_cycles j pe s')) (snd (run_cycles (Suc j) pe s'))" by blast
    then show ?thesis by (intro exI [of _ "Suc j"]) (simp add: cycles_step run del: run_cycles.simps(2))
  qed
qed simp

lemma stored_row_is_taken:
  assumes "ports_answer pe" "0 < pp_scan_limit (pe_policy pe)" "clock_after pe e" "waiting_row c e s"
    and "length (cs_by_id (pl_store s)) \<le> nat (pp_scan_limit (pe_policy pe)) * k"
  shows "\<exists>j<k. taken_by_sweep c e pe (snd (run_cycles j pe s)) (snd (run_cycles (Suc j) pe s))"
proof (rule row_is_taken [OF assms(1-4)])
  show "card (ahead (pl_store s) e) < nat (pp_scan_limit (pe_policy pe)) * k"
    using ahead_below_store [of "pl_store s" c e] assms(4,5) by (simp add: waiting_row_def)
qed

end
