(* ===== verification/PromotionProperties.thy ===== *)
theory PromotionProperties
  imports PromotionDecisions ScanRotation
begin

text \<open>
  What the promotion plane promises: automation never lands a candidate, a person's yes passes every
  guard and is redacted, landed and stored in that order, and every row of the inbox is reached.
\<close>

section \<open>A sample plane\<close>

definition sample_promotion :: promotion_env where
  "sample_promotion = \<lparr>pe_policy = default_policy, pe_sqlglot = sample_glot, pe_enabled = (\<lambda>_. Inr True),
     pe_clock = (\<lambda>_. Inr ''noon''), pe_store = (\<lambda>_. Inr ()), pe_probe = (\<lambda>_. Inr \<lparr>pr_row_count = 2, pr_distinct_grain_count = Some 2, pr_columns = [''dept'']\<rparr>),
     pe_hits = (\<lambda>_. Inr 3), pe_recurrence = None, pe_resolver = None,
     pe_landing = Some \<lparr>lp_land = (\<lambda>_. Inr ()), lp_update_status = (\<lambda>_. Inr True), lp_mark_verified = (\<lambda>_. Inr True)\<rparr>,
     pe_require_landing = True, pe_corpus_status = None,
     pe_instant = (\<lambda>t. if t = ''noon'' then Some (Aware 43200) else if t = ''morning'' then Some (Aware 36000) else None),
     pe_round = (\<lambda>x. x), pe_order = (\<lambda>xs. xs)\<rparr>"

definition sample_candidate :: candidate_envelope where
  "sample_candidate = \<lparr>ce_candidate_id = ''c1'', ce_type = ''blueprint'', ce_status = ''candidate'',
     ce_payload = [(''generalization'', PDict (generalization_to_doc \<lparr>gb_sql_template = Some region_template, gb_uses = [''d.t''],
       gb_uses_rules = [], gb_node_templates = [], gb_result_grain = \<lparr>rg_columns = [''dept''], rg_verifiable = True\<rparr>,
       gb_static_validation = \<lparr>sv_explain_ok = True, sv_binds_to_subset_uses = True, sv_dag_ok = True, sv_read_only_select = True,
         sv_outcome = ''ok'', sv_reason = None\<rparr>, gb_canonical_ast_norm = []\<rparr>))],
     ce_source_session = ''s1'', ce_source_trace = [], ce_evidence_refs = [], ce_extractor_rationale = [],
     ce_entity_scan = leakage_to_doc \<lparr>lv_result = ''pass'', lv_hits = [], lv_scanned_fields = [], lv_scanner = ''s''\<rparr>,
     ce_confidence = ''0.9'', ce_proposed_action = ''new'', ce_depends_on = [], ce_content_hash = ''h'', ce_created_at = ''t'',
     ce_dedup = None, ce_drift = unchecked_drift,
     ce_traceparent = None, ce_verified = False, ce_last_scanned_at = None, ce_judge = None, ce_session_signals = None,
     ce_novelty = None, ce_route_reason = None, ce_decline = None, ce_revalidation = None\<rparr>"

definition sample_plane :: "candidate_envelope list \<Rightarrow> plane" where
  "sample_plane es = \<lparr>pl_store = fold put_candidate es empty_candidates, pl_calls = []\<rparr>"

lemma sample_keyed: "keyed (pl_store (sample_plane es))"
proof -
  have "keyed (fold put_candidate es st)" if "keyed st" for st
    using that by (induction es arbitrary: st) (simp_all add: keyed_writes)
  then show ?thesis by (simp add: sample_plane_def keyed_writes)
qed

lemma sample_row: "get_candidate (ce_candidate_id e) (pl_store (sample_plane [e])) = Some e"
  by (simp add: sample_plane_def memory.get_put)

text \<open>A candidate with a clean verdict of the morning, and a validated row that cannot be replayed any more.\<close>

definition waiting :: candidate_envelope where
  "waiting = sample_candidate\<lparr>ce_drift := \<lparr>dp_status = ''clean'', dp_last_drift_check_at = PStr ''morning'',
     dp_probes = [GRAIN_INTEGRITY], dp_failed_probe = None\<rparr>\<rparr>"

definition broken :: candidate_envelope where
  "broken = sample_candidate\<lparr>ce_status := ''validated'', ce_payload := []\<rparr>"

definition status_after :: "('r, 'a) flow \<times> plane \<Rightarrow> string option" where
  "status_after run = map_option ce_status (get_candidate ''c1'' (pl_store (snd run)))"

lemma waiting_routed: "status_after (run_once sample_promotion (sample_plane [waiting])) = Some ''in_review''"
  by code_simp

lemma broken_demoted: "status_after (run_cycles 1 sample_promotion (sample_plane [broken])) = Some ''candidate''"
  by code_simp

text \<open>Knowledge under review whose text names a person.\<close>

definition reviewed :: candidate_envelope where
  "reviewed = sample_candidate\<lparr>ce_type := ''global_knowledge'', ce_status := ''in_review'',
     ce_payload := [(''statement'', PStr ''ask Ann first'')], ce_drift := unchecked_drift,
     ce_entity_scan := leakage_to_doc \<lparr>lv_result = ''quarantine'', lv_hits = [\<lparr>eh_field = ''statement'', eh_kind = ''person'', eh_span = ''Ann''\<rparr>],
       lv_scanned_fields = [''statement''], lv_scanner = ''s''\<rparr>\<rparr>"

definition approved_run :: "(candidate_decision, candidate_decision) flow \<times> plane" where
  "approved_run = apply_human_decision sample_promotion reviewed ''approve'' (sample_plane [reviewed])"

lemma reviewed_approved:
  "map_option (\<lambda>e. (ce_status e, ce_payload e)) (get_candidate ''c1'' (pl_store (snd approved_run))) =
     Some (''validated'', [(''statement'', PStr ''ask [redacted] first'')])"
  by code_simp

lemma reviewed_calls: "map stores (pl_calls (snd approved_run)) = [False, True]" "must_land sample_promotion (pl_calls (snd approved_run) ! 1)"
  by code_simp+

text \<open>A malformed block escapes the replay; a span inside the replacement token survives it.\<close>

lemma replay_raises:
  "fst ((golden_replay sample_promotion (sample_candidate\<lparr>ce_payload := [(''generalization'', PDict [(''result_grain'', PStr ''x'')])]\<rparr>)
     :: (unit, replay_outcome) job) (sample_plane [])) = Raise no_attribute"
  by code_simp

lemma token_keeps_span: "redact_text [''red''] ''red'' = REDACTED" "sublist ''red'' REDACTED"
  by code_simp+

section \<open>Automation\<close>

text \<open>
  C5: a sweep, whether it returns or raises, neither creates nor removes a row and never changes what a
  row says. The only moves are a candidate that passed every guard to a person's review, and a
  validated row whose replay failed back to candidate. The guards are a clean settled scan, a static check,
  dependencies that resolved, a replay that passed or a clean verdict in its window, and enough
  corroboration. What they rest on was heard in this very sweep: the answers of the resolver, the
  probe and the counts are those its own calls got, and the age of a reused verdict, which is neither
  negative nor above either window, is taken against a time the clock gave in this sweep.
\<close>

theorem sweep_moves_guarded_rows_only:
  assumes "keyed (pl_store s)" "run_once pe s = (r, s')"
  shows "case get_candidate c (pl_store s) of None \<Rightarrow> get_candidate c (pl_store s') = None
    | Some e \<Rightarrow> (case get_candidate c (pl_store s') of None \<Rightarrow> False | Some e' \<Rightarrow> same_content e e' \<and>
        (ce_status e' = ce_status e \<or>
         ce_status e = CANDIDATE \<and> ce_status e' = IN_REVIEW \<and> ce_type e = BLUEPRINT_TYPE \<and> entity_scan_is_clean e = Inr True \<and>
           static_ok e \<and> deps_heard (pl_calls s) (pl_calls s') pe e \<and>
           (replay_heard (pl_calls s) (pl_calls s') pe e \<or> verdict_in_window (pl_calls s) (pl_calls s') pe (ce_drift e)) \<and>
           corroborated (pl_calls s) (pl_calls s') pe e \<or>
         ce_status e = VALIDATED \<and> ce_status e' = CANDIDATE \<and> replay_fails (pl_calls s) (pl_calls s') pe e))"
  using conjunct2 [OF run_once_rows [OF assms], unfolded rows_swept_def, rule_format, of c]
  unfolding swept_iff routable_def by (auto split: option.splits)

text \<open>The waiting candidate of the sample plane passes the guards and is in review.\<close>

theorem sweep_moves_guarded_rows_only_witness:
  "status_after (run_once sample_promotion (sample_plane [waiting])) = Some IN_REVIEW \<and> static_ok waiting \<and>
   corroborated [] (pl_calls (snd (run_once sample_promotion (sample_plane [waiting])))) sample_promotion waiting"
proof -
  obtain r s' where run: "run_once sample_promotion (sample_plane [waiting]) = (r, s')" by fastforce
  have id: "ce_candidate_id waiting = ''c1''" "ce_status waiting = CANDIDATE"
    by (simp_all add: waiting_def sample_candidate_def)
  obtain e' where e': "get_candidate ''c1'' (pl_store s') = Some e'" "ce_status e' = IN_REVIEW"
    using waiting_routed by (auto simp: status_after_def run)
  have "pl_calls (sample_plane [waiting]) = []" by (simp add: sample_plane_def)
  then show ?thesis
    using sweep_moves_guarded_rows_only [OF sample_keyed run, of "''c1''"] sample_row [of waiting] waiting_routed e'
    by (simp add: id run)
qed

text \<open>
  C17: the daemon never lands a candidate. However many cycles it runs and whatever its ports answer or
  raise, it goes on to the next cycle; every row keeps its content, no row enters validated, promoted,
  rejected or retired, and only candidates and validated rows ever leave their status.
\<close>

theorem daemon_never_lands:
  assumes "keyed (pl_store s)"
  shows "\<exists>s'. run_cycles n pe s = (Next (), s') \<and>
    (case get_candidate c (pl_store s) of None \<Rightarrow> get_candidate c (pl_store s') = None
     | Some e \<Rightarrow> \<exists>e'. get_candidate c (pl_store s') = Some e' \<and> same_content e e' \<and>
         (ce_status e' = ce_status e \<or> ce_status e \<in> {CANDIDATE, VALIDATED} \<and> ce_status e' \<in> {CANDIDATE, IN_REVIEW}))"
proof -
  obtain s' where run: "run_cycles n pe s = (Next (), s')"
    using run_cycles_goes_on [of n pe] unfolding goes_on_def by auto
  have "rows_drift pe (pl_store s) (pl_store s')"
    using preserves_run [OF run_cycles_daemon run] assms by (simp add: daemon_step_def)
  then have "rel_option (drifts pe)\<^sup>*\<^sup>* (get_candidate c (pl_store s)) (get_candidate c (pl_store s'))"
    by (simp add: rows_drift_def)
  then show ?thesis using run by (cases rule: option.rel_cases) (auto dest!: drift_statuses)
qed

theorem daemon_never_lands_witness:
  "\<exists>s'. run_cycles 1 sample_promotion (sample_plane [broken]) = (Next (), s') \<and>
     (\<exists>e'. get_candidate ''c1'' (pl_store s') = Some e' \<and> same_content broken e' \<and> ce_status e' = CANDIDATE)"
proof -
  have id: "ce_candidate_id broken = ''c1''" by (simp add: broken_def sample_candidate_def)
  show ?thesis
    using daemon_never_lands [OF sample_keyed, of 1 sample_promotion "[broken]" "''c1''"] sample_row [of broken] broken_demoted
    by (auto simp: id status_after_def)
qed

section \<open>A person's decision\<close>

text \<open>
  C4: a decision writes only what its guards allow. Whether it returns, holds or raises, every other row is
  as it was, and the row itself is as it was, or rejected on a no, or, on a yes to a row in review whose
  scan is actionable, the redacted envelope as validated: its dependencies resolve, and a blueprint is
  statically checked, passes its replay and does not need a writer that is not there.
\<close>

theorem decision_is_guarded:
  assumes "set_order (pe_order pe)" "apply_human_decision pe e choice s = (r, s')"
  shows "(\<forall>c. c = ce_candidate_id e \<or> get_candidate c (pl_store s') = get_candidate c (pl_store s)) \<and>
    (get_candidate (ce_candidate_id e) (pl_store s') = get_candidate (ce_candidate_id e) (pl_store s) \<or>
     choice = ''reject'' \<and> get_candidate (ce_candidate_id e) (pl_store s') = Some (e\<lparr>ce_status := REJECTED\<rparr>) \<or>
     choice = ''approve'' \<and> ce_status e = IN_REVIEW \<and> entity_scan_is_actionable pe e = Inr True \<and>
       (\<exists>f d b. strip_entity_bearing (pe_order pe) e = Inr f \<and> deps_known pe f \<and>
          (ce_type e \<noteq> BLUEPRINT_TYPE \<or> static_ok f \<and> replay_passes pe f \<and> \<not> landing_gate_blocks pe) \<and>
          get_candidate (ce_candidate_id e) (pl_store s') = Some (f\<lparr>ce_drift := d, ce_status := VALIDATED, ce_verified := b\<rparr>)))"
  using preserves_run [OF human_settles [OF assms(1)] assms(2)]
  unfolding settles_def decided_row_def approvable_def validated_row_def blueprint_guards_def by blast

theorem decision_is_guarded_witness:
  "get_candidate ''c1'' (pl_store (snd approved_run)) \<noteq> Some reviewed \<and> deps_known sample_promotion reviewed \<and>
   entity_scan_is_actionable sample_promotion reviewed = Inr True"
proof -
  obtain r s' where run: "apply_human_decision sample_promotion reviewed ''approve'' (sample_plane [reviewed]) = (r, s')" by fastforce
  have order: "set_order (pe_order sample_promotion)" by (simp add: set_order_def sample_promotion_def)
  have id: "ce_candidate_id reviewed = ''c1''" "ce_status reviewed = IN_REVIEW" "deps_known sample_promotion reviewed"
    by (simp_all add: reviewed_def sample_candidate_def deps_known_def)
  have "get_candidate ''c1'' (pl_store s') \<noteq> Some reviewed"
    using reviewed_approved by (auto simp: approved_run_def run id)
  then show ?thesis
    using decision_is_guarded [OF order run] sample_row [of reviewed] run by (auto simp: id approved_run_def)
qed

text \<open>
  C16: nothing an approval stores or lands names what the scan found. When an approval changes the row, no
  text of the stored payload contains a span of the scan, provided the spans are plain: not empty,
  without the brackets of the replacement token and no part of the word in it.
\<close>

theorem approved_row_is_redacted:
  assumes "set_order (pe_order pe)" "apply_human_decision pe e ''approve'' s = (r, s')"
    and "get_candidate (ce_candidate_id e) (pl_store s') = Some e'" "get_candidate (ce_candidate_id e) (pl_store s) \<noteq> Some e'"
    and "entity_spans (pe_order pe) e = Inr spans" "list_all plain_span spans"
  shows "ce_status e' = VALIDATED \<and> list_all (\<lambda>t. list_all (\<lambda>x. \<not> sublist x t) spans) (text_leaves (PDict (ce_payload e')))"
proof -
  obtain f where "approvable pe e f" "validated_row f e'"
    using preserves_run [OF human_settles [OF assms(1)] assms(2)] assms(3,4) by (auto simp: settles_def decided_row_def)
  then show ?thesis using strip_clean [OF _ assms(5,6), of f] by (auto simp: approvable_def validated_row_def)
qed

theorem approved_row_is_redacted_witness:
  "\<exists>e'. get_candidate ''c1'' (pl_store (snd approved_run)) = Some e' \<and> ce_status e' = VALIDATED \<and>
     list_all (\<lambda>t. \<not> sublist ''Ann'' t) (text_leaves (PDict (ce_payload e')))"
proof -
  obtain r s' where run: "apply_human_decision sample_promotion reviewed ''approve'' (sample_plane [reviewed]) = (r, s')" by fastforce
  have order: "set_order (pe_order sample_promotion)" by (simp add: set_order_def sample_promotion_def)
  have id: "ce_candidate_id reviewed = ''c1''" "ce_status reviewed = IN_REVIEW" by (simp_all add: reviewed_def sample_candidate_def)
  have spans: "entity_spans (pe_order sample_promotion) reviewed = Inr [''Ann'']" "list_all plain_span [''Ann'']" by code_simp+
  obtain e' where e': "get_candidate ''c1'' (pl_store s') = Some e'" "ce_status e' = VALIDATED"
    using reviewed_approved by (auto simp: approved_run_def run)
  then have "get_candidate ''c1'' (pl_store (sample_plane [reviewed])) \<noteq> Some e'" using sample_row [of reviewed] by (auto simp: id)
  then show ?thesis
    using approved_row_is_redacted [OF order run _ _ spans, of e'] e' by (simp add: id approved_run_def run)
qed

text \<open>
  C15: landed before it is stored. When a corpus writer is there, an envelope of a type it lands is put in
  the store as validated only after the writer accepted, in the same decision, exactly this payload under
  this id; so no row is validated whose corpus node is not there.
\<close>

theorem landed_before_stored:
  assumes "apply_human_decision pe e choice s = (r, s')"
    and "length (pl_calls s) \<le> i" "i < length (pl_calls s')" "must_land pe (pl_calls s' ! i)"
  shows "\<exists>j<i. length (pl_calls s) \<le> j \<and> landing_of (pl_calls s' ! i) (pl_calls s' ! j) \<and> accepted_at pe (pl_calls s') j"
  using preserves_run [OF human_lands_first assms(1)] assms(2-4) unfolding lands_first_def by blast

theorem landed_before_stored_witness:
  "\<exists>j<1. landing_of (pl_calls (snd approved_run) ! 1) (pl_calls (snd approved_run) ! j) \<and>
     accepted_at sample_promotion (pl_calls (snd approved_run)) j"
proof -
  obtain r s' where run: "apply_human_decision sample_promotion reviewed ''approve'' (sample_plane [reviewed]) = (r, s')" by fastforce
  have len: "length (pl_calls s') = 2"
    using arg_cong [OF reviewed_calls(1), of length] by (simp add: approved_run_def run)
  show ?thesis
    using landed_before_stored [OF run, of 1] reviewed_calls(2) len
    by (simp add: approved_run_def run) (simp add: sample_plane_def)
qed

section \<open>The other transitions\<close>

text \<open>
  C38: the edges of the lifecycle. Each caller-driven transition writes at most its own row, and only out of
  the status it starts from: a user correction sends a validated row back to candidate under a fresh
  suspect stamp, a retraction retires a validated row, a verification flags one, and a promotion is
  given to a row that is validated and verified; nothing else of the row changes.
\<close>

theorem transitions_are_guarded:
  "settles (\<lambda>f. ce_status e = VALIDATED \<and> (\<exists>now. f = e\<lparr>ce_status := CANDIDATE, ce_drift := user_correction_stamp now\<rparr>))
     (ce_candidate_id e) s (snd (apply_user_correction pe e s)) \<and>
   settles (\<lambda>f. ce_status e = VALIDATED \<and> f = e\<lparr>ce_status := RETIRED\<rparr>) (ce_candidate_id e) s (snd (apply_retract pe e s)) \<and>
   settles (\<lambda>f. ce_status e = VALIDATED \<and> f = e\<lparr>ce_verified := True\<rparr>) (ce_candidate_id e) s (snd (apply_verify pe e s)) \<and>
   settles (\<lambda>f. ce_status e = VALIDATED \<and> ce_verified e \<and> f = e\<lparr>ce_status := PROMOTED\<rparr>) (ce_candidate_id e) s (snd (apply_promote pe e s))"
  using correction_settles retract_settles verify_settles promote_settles unfolding preserves_def by blast

section \<open>The scan\<close>

text \<open>
  C20: no candidate starves. The daemon's switch is on, its clock and its store answer; the probe, the counts
  and the resolver may answer or raise what they like. A candidate whose cursor is older than every time
  the clock gives is taken by one of the first sweeps, as many as it takes windows to cover the rows
  stored: until then its row is as it was, that sweep finds it in its window, and afterwards the row
  carries a time the clock gave in that sweep, whatever the handler did with it.
\<close>

theorem every_row_is_examined:
  assumes "ports_answer pe" "0 < pp_scan_limit (pe_policy pe)"
    and "keyed (pl_store s)" "get_candidate c (pl_store s) = Some e" "ce_status e = CANDIDATE"
    and "\<forall>h now. pe_clock pe h = Inr now \<longrightarrow> (case ce_last_scanned_at e of None \<Rightarrow> True | Some ts \<Rightarrow> ts < now)"
    and "length (cs_by_id (pl_store s)) \<le> nat (pp_scan_limit (pe_policy pe)) * k"
  shows "\<exists>j<k. \<exists>s1 s2. run_cycles j pe s = (Next (), s1) \<and> run_cycles (Suc j) pe s = (Next (), s2) \<and>
    get_candidate c (pl_store s1) = Some e \<and>
    e \<in> set (list_by_status CANDIDATE (pp_scan_limit (pe_policy pe)) False ByScanned (pl_store s1)) \<and>
    (\<exists>e' now. get_candidate c (pl_store s2) = Some e' \<and> ce_last_scanned_at e' = Some now \<and>
       clock_read (pl_calls s1) (pl_calls s2) pe now)"
proof -
  have goes: "run_cycles n pe s = (Next (), snd (run_cycles n pe s))" for n
    using run_cycles_goes_on [of n pe] unfolding goes_on_def by (metis (full_types) old.unit.exhaust snd_conv)
  have "waiting_row c e s" "clock_after pe e" using assms(3-6) by (simp_all add: waiting_row_def clock_after_def)
  from stored_row_is_taken [OF assms(1,2) this(2,1) assms(7)] obtain j where
    "j < k" "taken_by_sweep c e pe (snd (run_cycles j pe s)) (snd (run_cycles (Suc j) pe s))" by blast
  then show ?thesis using goes [of j] goes [of "Suc j"] unfolding taken_by_sweep_def window_of_def by blast
qed

text \<open>Three candidates, a window of one: the one examined in the morning is taken by one of three sweeps at noon.\<close>

definition narrow_promotion :: promotion_env where
  "narrow_promotion = sample_promotion\<lparr>pe_policy := default_policy\<lparr>pp_scan_limit := 1\<rparr>\<rparr>"

definition seen :: candidate_envelope where
  "seen = sample_candidate\<lparr>ce_candidate_id := ''c3'', ce_last_scanned_at := Some ''morning''\<rparr>"

theorem every_row_is_examined_witness:
  "let s = sample_plane [sample_candidate, sample_candidate\<lparr>ce_candidate_id := ''c2''\<rparr>, seen] in
    \<exists>j<3. \<exists>s1 s2. run_cycles j narrow_promotion s = (Next (), s1) \<and> run_cycles (Suc j) narrow_promotion s = (Next (), s2) \<and>
    seen \<in> set (list_by_status CANDIDATE 1 False ByScanned (pl_store s1)) \<and>
    map_option ce_last_scanned_at (get_candidate ''c3'' (pl_store s2)) = Some (Some ''noon'')"
proof -
  let ?s = "sample_plane [sample_candidate, sample_candidate\<lparr>ce_candidate_id := ''c2''\<rparr>, seen]"
  have ids: "ce_candidate_id sample_candidate = ''c1''" "ce_candidate_id seen = ''c3''" "ce_status seen = CANDIDATE"
      "ce_last_scanned_at seen = Some ''morning''"
    by (simp_all add: sample_candidate_def seen_def)
  have env: "ports_answer narrow_promotion" "pp_scan_limit (pe_policy narrow_promotion) = 1"
      "\<And>h. pe_clock narrow_promotion h = Inr ''noon''"
    by (simp_all add: narrow_promotion_def sample_promotion_def ports_answer_def works_def)
  have "map snd (cs_by_id (pl_store ?s)) = [sample_candidate, sample_candidate\<lparr>ce_candidate_id := ''c2''\<rparr>, seen]"
    by (simp add: sample_plane_def put_candidate_def empty_candidates_def ids)
  from arg_cong [OF this, of length] have len: "length (cs_by_id (pl_store ?s)) = 3" by simp
  have row: "get_candidate ''c3'' (pl_store ?s) = Some seen" by (simp add: sample_plane_def memory.get_put ids)
  have late: "''morning'' < (''noon'' :: string)" by code_simp
  have "\<forall>h now. pe_clock narrow_promotion h = Inr now \<longrightarrow> (case ce_last_scanned_at seen of None \<Rightarrow> True | Some ts \<Rightarrow> ts < now)"
    by (simp add: env ids late)
  from every_row_is_examined [OF env(1) _ sample_keyed row ids(3) this, of 3, unfolded env(2)] len obtain j s1 s2 e' now where
    j: "j < 3" "run_cycles j narrow_promotion ?s = (Next (), s1)" "run_cycles (Suc j) narrow_promotion ?s = (Next (), s2)"
      "seen \<in> set (list_by_status CANDIDATE 1 False ByScanned (pl_store s1))"
      "get_candidate ''c3'' (pl_store s2) = Some e'" "ce_last_scanned_at e' = Some now"
      "clock_read (pl_calls s1) (pl_calls s2) narrow_promotion now"
    by (simp del: run_cycles.simps(2)) blast
  from j(7) have "now = ''noon''" by (simp add: clock_read_def env(3))
  with j show ?thesis unfolding Let_def by (intro exI [of _ j] exI [of _ s1] exI [of _ s2] conjI) simp_all
qed

section \<open>The way in\<close>

text \<open>
  C39: the router and the inbox agree, and only a clean blueprint waits for the sweep unseen. Of a candidate
  that was not declined, either the router sends it to review and its reason is the one the inbox shows,
  or it goes on, and then a blueprint is a candidate that passed its static check, met no entry of the
  corpus, whose scan is settled and clean, and that was not sampled.
\<close>

theorem router_agrees_with_inbox:
  assumes "route_candidate e sampled = Inr d" "ce_decline e = None"
  shows "rd_control d = ''route_inbox'' \<and> rd_status d = IN_REVIEW \<and> (\<exists>r. derive_inbox_reason e = Inr r \<and> rd_reason d = Some r) \<or>
    rd_control d = ''continue'' \<and> ce_type e \<notin> {''global_knowledge'', ''schema_edit''} \<and>
      (ce_type e \<noteq> ''blueprint'' \<or> rd_status d = CANDIDATE \<and> \<not> sampled \<and> static_outcome e \<noteq> PStr ''fail_to_review'' \<and>
         \<not> dedup_forces_review e \<and> entity_scan_is_clean e = Inr True)"
proof (cases "rd_control d = ''route_inbox''")
  case True
  then show ?thesis using route_is_derived [OF assms(1) _ assms(2)] by (auto split: sum.splits)
next
  case False
  then have other: "rd_control d = ''continue''" "ce_type e \<notin> {''global_knowledge'', ''schema_edit''}"
    using assms(1) by (auto simp: route_candidate_def to_inbox_def rbind_eq_Inr split: if_splits)
  then show ?thesis using auto_landed_is_clean [OF assms(1)] by (auto simp: entity_scan_is_clean_def)
qed

theorem router_agrees_with_inbox_witness:
  "entity_scan_is_clean sample_candidate = Inr True \<and>
   (\<exists>d. route_candidate (sample_candidate\<lparr>ce_type := ''global_knowledge''\<rparr>) False = Inr d \<and> rd_status d = IN_REVIEW)"
proof -
  let ?clean = "\<lparr>rd_status = CANDIDATE, rd_control = ''continue'', rd_reason = None\<rparr>"
  have "route_candidate sample_candidate False = Inr ?clean" "ce_decline sample_candidate = None" "ce_type sample_candidate = ''blueprint''"
    by code_simp+
  note one = router_agrees_with_inbox [OF this(1,2)] this(3)
  let ?review = "\<lparr>rd_status = IN_REVIEW, rd_control = ''route_inbox'', rd_reason = Some ''knowledge_pre_gate''\<rparr>"
  have "route_candidate (sample_candidate\<lparr>ce_type := ''global_knowledge''\<rparr>) False = Inr ?review" by code_simp
  then show ?thesis using one by simp
qed

text \<open>
  C40: a candidate reads back. The document an envelope is stored as gives the envelope again, with every
  optional stamp of the stages, whatever the clock says, for the values the stages write.
\<close>

theorem envelope_reads_back:
  assumes "envelope_ok e"
  shows "envelope_from_doc now (envelope_to_doc e) = Inr e"
  using assms by (rule envelope_back)

theorem envelope_reads_back_witness:
  "envelope_from_doc ''noon'' (envelope_to_doc reviewed) = Inr reviewed"
proof (rule envelope_reads_back)
  show "envelope_ok reviewed" by code_simp
qed

end
