(* ===== verification/Spec2Isabelle.thy ===== *)
theory Spec2Isabelle
  imports LearningProgress BlueprintRuns RequestFacts TurnProperties PromotionProperties
begin

text \<open>
  A verification library for the data-analysis agent (Python package \<^verbatim>\<open>data_agent\<close> under \<^verbatim>\<open>src/src\<close>): an agent
  that answers questions about a warehouse in turns, and a learning loop that mines finished sessions.
  The definitions are translations of the code; file names below are relative to \<^verbatim>\<open>data_agent\<close>.

  Parts of the program and how they interact. A session document (messages, tool trail, pause
  checkpoint, analysis ledger, learning status) lives in a store with a version per document. A turn of
  the agent loop reads it, builds a request for the model within a token budget and a scope of readable
  columns, drains the tool calls of the reply, keeps a ledger of the intents the user asked for, lets no
  answer pass that its gates refuse, and ends with an answer, a pause the user can resume, or a stop at a
  ceiling; everything it does is written to the document. A blueprint is a vetted multi-step analysis
  that the loop may run in place of free queries: parsed, its slots resolved, its SQL bound, its nodes run
  in topological order with approval gates and a verification of the result. When a session is idle the
  sweeper puts it on a queue, and the consumer processes it with at-least-once delivery. What it extracts is
  a candidate: routed by its verdicts, replayed and re-checked by the promotion scheduler, and validated by
  a human only.

  Theories, bottom up.
  \<^item> Ground. \<open>Prelude\<close> (exceptions, the result type, dictionaries with insertion order, decimals),
    \<open>PyVal\<close> (JSON values, \<^verbatim>\<open>json.dumps\<close>), \<open>PyText\<close> (\<^verbatim>\<open>runtime/sanitize.py\<close> and the string methods used),
    \<open>Flow\<close> (imperative methods: next, return, raise; relations every run keeps, triples).
  \<^item> Sessions. \<open>SessionModels\<close> (\<^verbatim>\<open>runtime/session/models.py\<close>: records and document codecs), \<open>LearningModels\<close>
    (\<^verbatim>\<open>learning/models.py\<close>, \<^verbatim>\<open>learning/state_machine.py\<close> and the locale \<open>cas_store\<close>), \<open>SessionStore\<close>
    (\<^verbatim>\<open>runtime/session/memory_store.py\<close>, which interprets it).
  \<^item> Learning workers. \<open>LearningQueue\<close> (\<^verbatim>\<open>learning/memory_queue.py\<close>, locale \<open>learning_stream\<close>),
    \<open>LearningWorkers\<close> (\<^verbatim>\<open>learning/sweeper.py\<close>, \<^verbatim>\<open>learning/consumer.py\<close>), \<open>LearningLifecycle\<close> (an abstract
    step relation of any number of interleaved workers, which the workers refine), \<open>LearningProgress\<close>.
  \<^item> Guards and scope. \<open>LoopGuards\<close> (\<^verbatim>\<open>runtime/loop/budget_guard.py\<close>, \<^verbatim>\<open>read_guard.py\<close>), \<open>BlueprintGate\<close>
    (\<^verbatim>\<open>blueprint_gate.py\<close>), \<open>ScopeFilter\<close> (\<^verbatim>\<open>runtime/context/scope_filter.py\<close>).
  \<^item> The request. \<open>EntryRender\<close> (\<^verbatim>\<open>dispatch/denial_mapping.py\<close>, the renders of \<^verbatim>\<open>context/assembly.py\<close> and
    \<^verbatim>\<open>retrieval/render.py\<close>), \<open>ContextBudget\<close> (\<^verbatim>\<open>context/budget.py\<close>), \<open>ContextAssembly\<close> (\<^verbatim>\<open>context/assembly.py\<close> and
    \<^verbatim>\<open>_build_canonical_messages\<close> of the loop), \<open>RequestFacts\<close>.
  \<^item> The ledger. \<open>AnalysisLedger\<close> (\<^verbatim>\<open>composite/analysis_state.py\<close>, \<^verbatim>\<open>dispatch/tool_envelope.py\<close>),
    \<open>AnalysisLedgerFacts\<close>, \<open>LedgerInvariant\<close> (the steps of a turn and what they keep), \<open>LedgerProperties\<close>.
  \<^item> Answers. \<open>AnswerTables\<close> (\<^verbatim>\<open>composite/answer_with_table.py\<close>, \<^verbatim>\<open>record_assumptions.py\<close>), \<open>AnswerDesignation\<close>
    (\<^verbatim>\<open>hooks/answer_table.py\<close>), \<open>TurnAccumulators\<close> (\<^verbatim>\<open>loop/turn_accumulators.py\<close>), \<open>AnswerRules\<close>, \<open>AnswerJudge\<close>
    and \<open>AnswerScrub\<close> (\<^verbatim>\<open>loop/answer_rules.py\<close>, \<^verbatim>\<open>loop/answer_judge.py\<close>, \<^verbatim>\<open>answer_scrub.py\<close>), \<open>Finalization\<close> and
    \<open>FinalizationFacts\<close> (\<^verbatim>\<open>loop/finalization.py\<close>, locale \<open>block_allowance\<close> interpreted on the store's claim).
  \<^item> The turn. \<open>TurnLoop\<close> (\<^verbatim>\<open>loop/agent_loop.py\<close>: \<^verbatim>\<open>run\<close>, \<^verbatim>\<open>resume\<close>, \<^verbatim>\<open>_resume_blueprint\<close>, \<^verbatim>\<open>_run_loop_body\<close> cut into
    the request, the reply, the gates, the drain, the pauses and the charge), \<open>TurnLoopFacts\<close> and
    \<open>TurnRounds\<close> (the relations its parts keep, by interpretations of \<open>step_relation\<close>; the charge of a round),
    \<open>TurnSettled\<close> and \<open>TurnLeaving\<close> (what holds where a turn is left, as triples), \<open>TurnOutcomes\<close>,
    \<open>TurnProperties\<close>.
  \<^item> Blueprints. \<open>BlueprintWhen\<close>, \<open>BlueprintRules\<close>, \<open>BlueprintModels\<close>, \<open>BlueprintSlots\<close>, \<open>BlueprintTemplate\<close>
    (\<^verbatim>\<open>runtime/blueprint/when.py\<close>, \<^verbatim>\<open>rules.py\<close> and \<^verbatim>\<open>verify.py\<close>, \<^verbatim>\<open>models.py\<close>, \<^verbatim>\<open>slots.py\<close>, \<^verbatim>\<open>template.py\<close> and
    \<^verbatim>\<open>grain_probe.py\<close>), \<open>BlueprintDag\<close>, \<open>BlueprintNodes\<close>, \<open>BlueprintExec\<close> (\<^verbatim>\<open>executor.py\<close>, \<^verbatim>\<open>tool.py\<close>),
    \<open>BlueprintExecFacts\<close>, \<open>BlueprintRuns\<close>.

  \<^item> Candidates. \<open>CandidateRecords\<close> (\<^verbatim>\<open>learning/candidate/verdicts.py\<close>, \<^verbatim>\<open>generalization.py\<close>, \<^verbatim>\<open>signals.py\<close>,
    \<^verbatim>\<open>decline.py\<close>, \<^verbatim>\<open>learning/audit/judgement.py\<close>), \<open>CandidateEnvelope\<close> (\<^verbatim>\<open>candidate/models.py\<close>,
    \<^verbatim>\<open>redaction.py\<close>), \<open>CandidateStore\<close> (\<^verbatim>\<open>memory_candidate_store.py\<close>, which interprets the locale
    \<open>candidate_port\<close>; \<^verbatim>\<open>learning/stage.py\<close>, \<^verbatim>\<open>learning/writer\<close>), \<open>PromotionReplay\<close> (\<^verbatim>\<open>promotion/models.py\<close>,
    \<^verbatim>\<open>drift.py\<close>, \<^verbatim>\<open>replay.py\<close>), \<open>PromotionScheduler\<close> (\<^verbatim>\<open>promotion/scheduler.py\<close>); \<open>PromotionFacts\<close> (locale \<open>plane_relation\<close>: what a method that only
    asks its ports keeps; the frame of a row, the moves of a sweep as the relation \<open>swept\<close>, the daemon),
    \<open>PromotionDecisions\<close> (the transitions a person asks for; landed before stored), \<open>ScanRotation\<close> (the scan as
    a rotating queue), \<open>PromotionProperties\<close>.

  What the groups of lemmas show. Sessions: documents read back as written; the status machine moves along
  its declared edges only, by compare and swap; a checkpoint is resumed once; a refusal is claimed once.
  Learning: no message and no session is stranded under any interleaving, the workers refine the abstract
  lifecycle, an undisturbed delivery is finished. Request: nothing out of scope reaches the model, pinned
  units and call/result pairs survive the budget, units are dropped by priority, retrieved text cannot
  forge its block. Ledger: closed intents rest on evidence of the turn, declared ones are frozen, refused
  updates write nothing. Answers: designated tables come from the call, a verified badge is earned, the judge's
  rejection is actionable, re-rounds are bounded. Turn: it returns, it refines the ledger's step relation, it
  ends with nothing pending, what it returns it has stored. Blueprints: parsed blueprints are well formed,
  slots and templates are injection free, the order is topological, nodes run once and with consent, an
  answer is verified and carries its whole footprint, a checkpoint reads back. Candidates: automation
  moves a row only past its guards and never lands one, no candidate starves, a person's yes is guarded,
  redacted and landed before it is stored, the other transitions start from their status only, the
  router and the inbox agree, an envelope reads back.

  Modelling choices.
  \<^item> Effects are explicit: the store, the world of the parameters and the emitted events are passed. An
    exception is a value; an exception of another kind than the ones the code catches is \<open>OtherError\<close>.
  \<^item> A string is a list of code points below 256; the few other characters of literals in the code (dash,
    ellipsis, arrow) are their three UTF-8 bytes. A float is its \<^verbatim>\<open>repr\<close> where it is only copied and a
    rational where it is compared (clocks, headroom). A value that the annotated type does not allow
    is \<open>IllTyped\<close> where the code would go on with it.
  \<^item> Parameters, never defined here: hashing (assumed free of collisions only where a statement says so),
    the model client, tool dispatch, the runtime tools that call services, retrieval, discovery, SQL parsing,
    lineage and binding over \<^verbatim>\<open>sqlglot\<close>, JSON reading, clocks and identifiers. The tools that are parameters
    of the loop do not write the conversation store. In the request, the model parameters are arbitrary
    functions of the world, so a statement about a turn holds for every behaviour of the model.
  \<^item> The operations of the in-memory store and of the queue are atomic, as they are between two awaits.
    \<open>LearningLifecycle\<close> interleaves workers at those points.
  \<^item> Tracing spans, log lines, metrics and the best-effort progress summaries are left out; the events of
    the observer are kept, except in the learning workers.
  \<^item> Loops. Structural where the code iterates over a list. Fuel: the topological sort (one step per node),
    the scanners that stand for regular expressions (the length of the text, each step consumes a
    character), and the \<^verbatim>\<open>while True\<close> of the loop: \<open>TurnProperties\<close> shows that one round per iteration
    of the window and two more are never used up, and its parameter \<open>stuck\<close>, what would run without fuel, is
    never run. The fitting of the judge's payload is a \<open>partial_function\<close>, since it may not return;
    \<open>AnswerJudge\<close> says when, and the loop then ends with \<open>OtherError ''no return''\<close>.

  Not modelled, and why: the code that is a traversal of \<^verbatim>\<open>sqlglot\<close> trees (\<^verbatim>\<open>blueprint/compiler.py\<close>,
  \<^verbatim>\<open>structural_key.py\<close>, \<^verbatim>\<open>sqlparse\<close>, \<^verbatim>\<open>learning/generalize\<close>, most of \<^verbatim>\<open>learning/extractor\<close>), network clients and
  service adapters (\<^verbatim>\<open>model\<close>, \<^verbatim>\<open>mcp\<close>, \<^verbatim>\<open>retrieval\<close>, the Couchbase and Redis stores), wiring, configuration,
  routes and observability, and of the candidate lifecycle the extraction, the dedup and leakage stages, the
  review inbox and the landing writer: the ports of the scheduler and the stages of the pipeline are
  parameters. The consumer's \<open>work\<close> parameter stands for everything between a claim and its end.
\<close>

end
